(* ===== verification/Prelude.thy ===== *)
theory Prelude
  imports Complex_Main "HOL-Library.Multiset" "HOL-Library.Signed_Division"
begin

text \<open>
  Shared vocabulary of the development: Go's fixed-width integers written as integers with
  their wrap-around, the three-way comparison, the standard library's \<open>slices\<close> routines the
  SDK calls (stable sort, binary search, insert, delete) and the interface \<open>comparator\<close> under
  which they are correct. The collection \<open>go_arith\<close> gathers the facts about machine integers.
\<close>

named_theorems go_arith \<open>facts about Go's machine integers\<close>

section \<open>Machine integers\<close>

definition max_int32 :: int where
  "max_int32 = 2 ^ 31 - 1"

definition max_int64 :: int where
  "max_int64 = 2 ^ 63 - 1"

definition wrap32 :: "int \<Rightarrow> int" where
  "wrap32 x = (x + 2 ^ 31) mod 2 ^ 32 - 2 ^ 31"

definition wrap64 :: "int \<Rightarrow> int" where
  "wrap64 x = (x + 2 ^ 63) mod 2 ^ 64 - 2 ^ 63"

lemma wrap32_id [go_arith]: "- (2 ^ 31) \<le> x \<Longrightarrow> x < 2 ^ 31 \<Longrightarrow> wrap32 x = x"
  by (simp add: wrap32_def)

lemma wrap64_id [go_arith]: "- (2 ^ 63) \<le> x \<Longrightarrow> x < 2 ^ 63 \<Longrightarrow> wrap64 x = x"
  by (simp add: wrap64_def)

lemma wrap32_range: "- (2 ^ 31) \<le> wrap32 x \<and> wrap32 x < 2 ^ 31"
  using pos_mod_bound[of "2 ^ 32" "x + 2 ^ 31"] by (simp add: wrap32_def)

lemma wrap64_range: "- (2 ^ 63) \<le> wrap64 x \<and> wrap64 x < 2 ^ 63"
  using pos_mod_bound[of "2 ^ 64" "x + 2 ^ 63"] by (simp add: wrap64_def)

section \<open>Three-way comparison\<close>

definition int_cmp :: "'a::linorder \<Rightarrow> 'a \<Rightarrow> int" where
  "int_cmp a b = (if a < b then - 1 else if b < a then 1 else 0)"

lemma int_cmp_simps [simp]:
  "int_cmp a b < 0 \<longleftrightarrow> a < b"
  "int_cmp a b \<le> 0 \<longleftrightarrow> a \<le> b"
  "0 < int_cmp a b \<longleftrightarrow> b < a"
  "0 \<le> int_cmp a b \<longleftrightarrow> b \<le> a"
  "int_cmp a b = 0 \<longleftrightarrow> a = b"
  "0 = int_cmp a b \<longleftrightarrow> a = b"
  by (auto simp: int_cmp_def)

lemma int_cmp_refl [simp]: "int_cmp a a = 0"
  by (simp add: int_cmp_def)

section \<open>The standard library's slices routines\<close>

text \<open>
  \<open>slices.SortFunc\<close> and \<open>slices.SortStableFunc\<close>: an insertion sort that leaves equal
  elements in their order. (Go only promises that order for the stable variant.)
\<close>

fun insert_by :: "('a \<Rightarrow> 'a \<Rightarrow> int) \<Rightarrow> 'a \<Rightarrow> 'a list \<Rightarrow> 'a list" where
  "insert_by cmp x [] = [x]"
| "insert_by cmp x (y # ys) = (if cmp x y \<le> 0 then x # y # ys else y # insert_by cmp x ys)"

fun sort_by :: "('a \<Rightarrow> 'a \<Rightarrow> int) \<Rightarrow> 'a list \<Rightarrow> 'a list" where
  "sort_by cmp [] = []"
| "sort_by cmp (x # xs) = insert_by cmp x (sort_by cmp xs)"

lemma mset_insert_by [simp]: "mset (insert_by cmp x xs) = add_mset x (mset xs)"
  by (induction xs) auto

lemma mset_sort_by [simp]: "mset (sort_by cmp xs) = mset xs"
  by (induction xs) auto

lemma set_sort_by [simp]: "set (sort_by cmp xs) = set xs"
  by (metis mset_sort_by set_mset_mset)

lemma length_sort_by [simp]: "length (sort_by cmp xs) = length xs"
  by (metis mset_sort_by size_mset)

text \<open>\<open>slices.BinarySearchFunc\<close>: Go's halving loop, which keeps \<open>i\<close> and \<open>j\<close>.\<close>

function bsearch :: "('a \<Rightarrow> 'b \<Rightarrow> int) \<Rightarrow> 'a list \<Rightarrow> 'b \<Rightarrow> nat \<Rightarrow> nat \<Rightarrow> nat" where
  "bsearch cmp xs t i j =
     (if i < j then
        (let h = (i + j) div 2
         in if cmp (xs ! h) t < 0 then bsearch cmp xs t (Suc h) j
            else bsearch cmp xs t i h)
      else i)"
  by pat_completeness auto
termination
  by (relation "measure (\<lambda>(cmp, xs, t, i, j). j - i)") auto

declare bsearch.simps [simp del]

definition BinarySearchFunc :: "'a list \<Rightarrow> 'b \<Rightarrow> ('a \<Rightarrow> 'b \<Rightarrow> int) \<Rightarrow> nat \<times> bool" where
  "BinarySearchFunc xs t cmp =
     (let i = bsearch cmp xs t 0 (length xs)
      in (i, i < length xs \<and> cmp (xs ! i) t = 0))"

definition slices_insert :: "'a list \<Rightarrow> nat \<Rightarrow> 'a \<Rightarrow> 'a list" where
  "slices_insert xs i x = take i xs @ x # drop i xs"

definition slices_delete :: "'a list \<Rightarrow> nat \<Rightarrow> 'a list" where
  "slices_delete xs i = take i xs @ drop (Suc i) xs"

text \<open>The loop finds the boundary whenever "less than the target" is a prefix of the slice.\<close>

lemma bsearch_bounds: "i \<le> j \<Longrightarrow> i \<le> bsearch cmp xs t i j \<and> bsearch cmp xs t i j \<le> j"
proof (induction cmp xs t i j rule: bsearch.induct)
  case (1 cmp xs t i j)
  show ?case
  proof (cases "i < j")
    case True
    let ?h = "(i + j) div 2"
    have h: "i \<le> ?h" "?h < j" using True by auto
    show ?thesis
    proof (cases "cmp (xs ! ?h) t < 0")
      case lt: True
      from "1.IH"(1)[OF True refl lt] h show ?thesis
        using True lt by (subst (1 2) bsearch.simps) (auto simp: Let_def)
    next
      case ge: False
      from "1.IH"(2)[OF True refl ge] h show ?thesis
        using True ge by (subst (1 2) bsearch.simps) (auto simp: Let_def)
    qed
  next
    case False
    with "1.prems" show ?thesis by (subst (1 2) bsearch.simps) simp
  qed
qed

lemma bsearch_boundary:
  assumes "\<And>a b. a < b \<Longrightarrow> b < length xs \<Longrightarrow> cmp (xs ! b) t < 0 \<Longrightarrow> cmp (xs ! a) t < 0"
    and "i \<le> j" "j \<le> length xs"
    and "\<forall>k<i. cmp (xs ! k) t < 0" and "\<forall>k. j \<le> k \<and> k < length xs \<longrightarrow> \<not> cmp (xs ! k) t < 0"
  shows "(\<forall>k<bsearch cmp xs t i j. cmp (xs ! k) t < 0) \<and>
    (\<forall>k. bsearch cmp xs t i j \<le> k \<and> k < length xs \<longrightarrow> \<not> cmp (xs ! k) t < 0)"
  using assms
proof (induction cmp xs t i j rule: bsearch.induct)
  case (1 cmp xs t i j)
  note mono = "1.prems"(1)
  show ?case
  proof (cases "i < j")
    case True
    let ?h = "(i + j) div 2"
    have h: "i \<le> ?h" "?h < j" "?h < length xs" using True "1.prems"(3) by auto
    show ?thesis
    proof (cases "cmp (xs ! ?h) t < 0")
      case lt: True
      have "\<forall>k<Suc ?h. cmp (xs ! k) t < 0"
        using mono[OF _ h(3) lt] lt by (auto simp: less_Suc_eq)
      with "1.IH"(1)[OF True refl lt mono] h "1.prems"(3,5) True lt show ?thesis
        by (simp add: bsearch.simps[of cmp xs t i j] Let_def)
    next
      case ge: False
      have "\<forall>k. ?h \<le> k \<and> k < length xs \<longrightarrow> \<not> cmp (xs ! k) t < 0"
        using mono ge by (metis le_neq_implies_less)
      with "1.IH"(2)[OF True refl ge mono] h "1.prems"(4) True ge show ?thesis
        by (simp add: bsearch.simps[of cmp xs t i j] Let_def)
    qed
  next
    case False
    with "1.prems"(2) have "bsearch cmp xs t i j = j" by (subst bsearch.simps) simp
    with False "1.prems"(2,4,5) show ?thesis by simp
  qed
qed

section \<open>The comparator interface\<close>

text \<open>
  What every comparison function handed to a sort or a binary search promises on the values
  it is used on: a total preorder. The laws hold on the carrier \<open>ok\<close> only, because a
  comparison of decimals is an order only while the scales stay in range.
\<close>

locale comparator =
  fixes cmp :: "'a \<Rightarrow> 'a \<Rightarrow> int" and ok :: "'a \<Rightarrow> bool"
  assumes cmp_refl: "ok x \<Longrightarrow> cmp x x = 0"
    and cmp_flip: "ok x \<Longrightarrow> ok y \<Longrightarrow> cmp x y \<le> 0 \<longleftrightarrow> 0 \<le> cmp y x"
    and cmp_trans: "ok x \<Longrightarrow> ok y \<Longrightarrow> ok z \<Longrightarrow> cmp x y \<le> 0 \<Longrightarrow> cmp y z \<le> 0 \<Longrightarrow> cmp x z \<le> 0"
begin

lemma cmp_strict_flip: "ok x \<Longrightarrow> ok y \<Longrightarrow> cmp x y < 0 \<longleftrightarrow> 0 < cmp y x"
  using cmp_flip[of x y] cmp_flip[of y x] by auto

lemma cmp_total: "ok x \<Longrightarrow> ok y \<Longrightarrow> \<not> cmp x y \<le> 0 \<Longrightarrow> cmp y x \<le> 0"
  using cmp_flip[of x y] by auto

lemma cmp_lt_le_trans:
  assumes "ok x" "ok y" "ok z" "cmp x y < 0" "cmp y z \<le> 0"
  shows "cmp x z < 0"
proof (rule ccontr)
  assume "\<not> cmp x z < 0"
  then have "cmp z x \<le> 0" using cmp_flip[of z x] assms by simp
  then have "cmp y x \<le> 0" using cmp_trans[of y z x] assms by simp
  then show False using cmp_flip[of y x] assms by simp
qed

lemma cmp_le_lt_trans:
  assumes "ok x" "ok y" "ok z" "cmp x y \<le> 0" "cmp y z < 0"
  shows "cmp x z < 0"
proof (rule ccontr)
  assume "\<not> cmp x z < 0"
  then have "cmp z x \<le> 0" using cmp_flip[of z x] assms by simp
  then have "cmp z y \<le> 0" using cmp_trans[of z x y] assms by simp
  then show False using cmp_flip[of z y] assms by simp
qed

lemma sorted_insert_by:
  "ok x \<Longrightarrow> \<forall>y\<in>set ys. ok y \<Longrightarrow> sorted_wrt (\<lambda>a b. cmp a b \<le> 0) ys \<Longrightarrow>
   sorted_wrt (\<lambda>a b. cmp a b \<le> 0) (insert_by cmp x ys)"
proof (induction ys)
  case (Cons y ys)
  have set: "set (insert_by cmp x ys) = insert x (set ys)"
    by (metis mset_insert_by set_mset_add_mset_insert set_mset_mset)
  show ?case
  proof (cases "cmp x y \<le> 0")
    case True
    with Cons.prems show ?thesis by (fastforce intro: cmp_trans[of x y])
  next
    case False
    with Cons.prems have "cmp y x \<le> 0" by (simp add: cmp_total)
    with False Cons show ?thesis by (simp add: set)
  qed
qed simp

lemma sorted_sort_by:
  "\<forall>x\<in>set xs. ok x \<Longrightarrow> sorted_wrt (\<lambda>a b. cmp a b \<le> 0) (sort_by cmp xs)"
  by (induction xs) (auto intro: sorted_insert_by)

end

end
