(* ===== verification/GoStrings.thy ===== *)
theory GoStrings
  imports Prelude
begin

text \<open>
  Go strings are byte sequences, so a \<open>string\<close> here is the UTF-8 encoding that the Go value
  holds. This theory translates what the SDK uses of \<open>strings\<close>, \<open>strconv\<close> and
  \<open>math/big\<close>: trimming (with every Unicode space of \<open>unicode.IsSpace\<close>), case mapping of
  ASCII letters (the exchange's symbols, sides and statuses are ASCII; other bytes are left
  alone), and the conversion between integers and decimal digit strings.
\<close>

section \<open>Trimming and case\<close>

definition has_prefix :: "string \<Rightarrow> string \<Rightarrow> bool" where
  "has_prefix s e \<longleftrightarrow> take (length e) s = e"

definition ascii_spaces :: "char list" where
  "ascii_spaces = [CHR 0x09, CHR 0x0A, CHR 0x0B, CHR 0x0C, CHR 0x0D, CHR 0x20]"

text \<open>U+0085, U+00A0, U+1680, U+2000 to U+200A, U+2028, U+2029, U+202F, U+205F, U+3000.\<close>

definition space_encodings :: "string list" where
  "space_encodings = map (\<lambda>c. [c]) ascii_spaces @
     [[CHR 0xC2, CHR 0x85], [CHR 0xC2, CHR 0xA0], [CHR 0xE1, CHR 0x9A, CHR 0x80]] @
     map (\<lambda>c. [CHR 0xE2, CHR 0x80, c])
       [CHR 0x80, CHR 0x81, CHR 0x82, CHR 0x83, CHR 0x84, CHR 0x85, CHR 0x86, CHR 0x87,
        CHR 0x88, CHR 0x89, CHR 0x8A, CHR 0xA8, CHR 0xA9, CHR 0xAF] @
     [[CHR 0xE2, CHR 0x81, CHR 0x9F], [CHR 0xE3, CHR 0x80, CHR 0x80]]"

function trim_with :: "string list \<Rightarrow> string \<Rightarrow> string" where
  "trim_with es s =
     (case find (\<lambda>e. e \<noteq> [] \<and> has_prefix s e) es of
        None \<Rightarrow> s
      | Some e \<Rightarrow> trim_with es (drop (length e) s))"
  by pat_completeness auto
termination
proof (relation "measure (\<lambda>(es, s). length s)")
  fix es :: "string list" and s e :: string
  assume "find (\<lambda>e. e \<noteq> [] \<and> has_prefix s e) es = Some e"
  then have "e \<noteq> []" and "take (length e) s = e"
    by (auto simp: find_Some_iff has_prefix_def)
  then have "s \<noteq> []" by (cases e) auto
  with \<open>e \<noteq> []\<close> show "((es, drop (length e) s), es, s) \<in> measure (\<lambda>(es, s). length s)"
    by simp
qed simp

declare trim_with.simps [simp del]

definition TrimSpace :: "string \<Rightarrow> string" where
  "TrimSpace s = rev (trim_with (map rev space_encodings) (rev (trim_with space_encodings s)))"

definition to_upper_char :: "char \<Rightarrow> char" where
  "to_upper_char c = (let b = of_char c :: nat in if 97 \<le> b \<and> b \<le> 122 then char_of (b - 32) else c)"

definition to_lower_char :: "char \<Rightarrow> char" where
  "to_lower_char c = (let b = of_char c :: nat in if 65 \<le> b \<and> b \<le> 90 then char_of (b + 32) else c)"

definition ToUpper :: "string \<Rightarrow> string" where
  "ToUpper s = map to_upper_char s"

definition ToLower :: "string \<Rightarrow> string" where
  "ToLower s = map to_lower_char s"

definition EqualFold :: "string \<Rightarrow> string \<Rightarrow> bool" where
  "EqualFold s t \<longleftrightarrow> ToLower s = ToLower t"

lemma EqualFold_refl [simp]: "EqualFold s s"
  by (simp add: EqualFold_def)

lemma EqualFold_sym: "EqualFold s t \<longleftrightarrow> EqualFold t s"
  by (auto simp: EqualFold_def)

lemma trim_with_id:
  assumes "\<forall>e\<in>set es. e \<noteq> [] \<longrightarrow> s = [] \<or> hd e \<noteq> hd s"
  shows "trim_with es s = s"
proof -
  have "\<not> (e \<noteq> [] \<and> has_prefix s e)" if "e \<in> set es" for e
    using assms that by (cases e; cases s) (auto simp: has_prefix_def)
  then have "find (\<lambda>e. e \<noteq> [] \<and> has_prefix s e) es = None"
    by (simp add: find_None_iff)
  then show ?thesis by (subst trim_with.simps) simp
qed

definition space_bytes :: "char set" where
  "space_bytes = hd ` set space_encodings \<union> last ` set space_encodings"

lemma space_encodings_nonempty: "e \<in> set space_encodings \<Longrightarrow> e \<noteq> []"
  by (auto simp: space_encodings_def ascii_spaces_def)

text \<open>A string whose first and last bytes cannot belong to a space is left alone.\<close>

lemma TrimSpace_id:
  assumes "s = [] \<or> (hd s \<notin> space_bytes \<and> last s \<notin> space_bytes)"
  shows "TrimSpace s = s"
proof -
  have l: "trim_with space_encodings s = s"
  proof (rule trim_with_id, intro ballI impI)
    fix e assume "e \<in> set space_encodings"
    then have "hd e \<in> space_bytes" by (simp add: space_bytes_def)
    with assms show "s = [] \<or> hd e \<noteq> hd s" by metis
  qed
  have "trim_with (map rev space_encodings) (rev s) = rev s"
  proof (rule trim_with_id, intro ballI impI)
    fix e assume "e \<in> set (map rev space_encodings)"
    then obtain f where f: "f \<in> set space_encodings" "e = rev f" by auto
    then have "hd e \<in> space_bytes" by (simp add: space_bytes_def hd_rev)
    moreover have "hd (rev s) = last s" by (simp add: hd_rev)
    ultimately show "rev s = [] \<or> hd e \<noteq> hd (rev s)"
      using assms by auto
  qed
  with l show ?thesis by (simp add: TrimSpace_def)
qed

lemma TrimSpace_Nil [simp]: "TrimSpace [] = []"
  by (rule TrimSpace_id) simp

section \<open>Digit strings\<close>

definition is_digit :: "char \<Rightarrow> bool" where
  "is_digit c \<longleftrightarrow> 48 \<le> (of_char c :: nat) \<and> (of_char c :: nat) \<le> 57"

definition digit_val :: "char \<Rightarrow> nat" where
  "digit_val c = of_char c - 48"

definition digit_char :: "nat \<Rightarrow> char" where
  "digit_char d = char_of (48 + d)"

lemma of_digit_char [simp]: "d < 10 \<Longrightarrow> of_char (digit_char d) = (48 + d :: nat)"
  by (simp add: digit_char_def)

lemma is_digit_char [simp]: "d < 10 \<Longrightarrow> is_digit (digit_char d)"
  by (simp add: is_digit_def)

lemma digit_val_char [simp]: "d < 10 \<Longrightarrow> digit_val (digit_char d) = d"
  by (simp add: digit_val_def)

lemma digit_val_less: "is_digit c \<Longrightarrow> digit_val c < 10"
  by (auto simp: is_digit_def digit_val_def)

fun nat_str :: "nat \<Rightarrow> string" where
  "nat_str n = (if n < 10 then [digit_char n] else nat_str (n div 10) @ [digit_char (n mod 10)])"

declare nat_str.simps [simp del]

fun digits_acc :: "nat \<Rightarrow> string \<Rightarrow> nat option" where
  "digits_acc acc [] = Some acc"
| "digits_acc acc (c # cs) = (if is_digit c then digits_acc (10 * acc + digit_val c) cs else None)"

text \<open>\<open>strconv.FormatInt\<close> with base 10, and the digits of \<open>big.Int.Append\<close>.\<close>

definition FormatInt :: "int \<Rightarrow> string" where
  "FormatInt i = (if i < 0 then CHR ''-'' # nat_str (nat (- i)) else nat_str (nat i))"

text \<open>\<open>strconv.ParseUint\<close> with base 10 and 64 bits: no sign, at least one digit.\<close>

definition ParseUint64 :: "string \<Rightarrow> nat option" where
  "ParseUint64 s =
     (if s = [] then None
      else case digits_acc 0 s of
        None \<Rightarrow> None
      | Some n \<Rightarrow> if n < 2 ^ 64 then Some n else None)"

text \<open>\<open>strconv.ParseInt\<close> with base 10: an optional sign, then \<open>ParseUint\<close>, then the range.\<close>

definition ParseInt :: "nat \<Rightarrow> string \<Rightarrow> int option" where
  "ParseInt bits s =
     (if s = [] then None
      else let neg = (hd s = CHR ''-''); t = (if hd s = CHR ''-'' \<or> hd s = CHR ''+'' then tl s else s)
           in case ParseUint64 t of
                None \<Rightarrow> None
              | Some n \<Rightarrow>
                  if neg then (if n \<le> 2 ^ (bits - 1) then Some (- int n) else None)
                  else (if n < 2 ^ (bits - 1) then Some (int n) else None))"

text \<open>\<open>big.Int.SetString\<close> with base 10: an optional sign and at least one digit, nothing else.\<close>

definition BigSetString :: "string \<Rightarrow> int option" where
  "BigSetString s =
     (if s = [] then None
      else let neg = (hd s = CHR ''-''); t = (if hd s = CHR ''-'' \<or> hd s = CHR ''+'' then tl s else s)
           in if t = [] then None
              else case digits_acc 0 t of
                None \<Rightarrow> None
              | Some n \<Rightarrow> Some (if neg then - int n else int n))"

lemma digits_acc_append:
  "digits_acc a (xs @ ys) = Option.bind (digits_acc a xs) (\<lambda>b. digits_acc b ys)"
  by (induction xs arbitrary: a) auto

lemma nat_str_nonempty [simp]: "nat_str n \<noteq> []"
  by (subst nat_str.simps) simp

lemma nat_str_digits: "c \<in> set (nat_str n) \<Longrightarrow> is_digit c"
proof (induction n rule: nat_str.induct)
  case (1 n)
  then show ?case by (subst (asm) (2) nat_str.simps) (auto split: if_splits)
qed

lemma digits_acc_nat_str: "digits_acc 0 (nat_str n) = Some n"
proof (induction n rule: nat_str.induct)
  case (1 n)
  then show ?case by (subst nat_str.simps) (auto simp: digits_acc_append)
qed

lemma length_nat_str_pos [simp]: "0 < length (nat_str n)"
  by simp

lemma digits_acc_zeros: "digits_acc 0 (replicate k (CHR ''0'') @ s) = digits_acc 0 s"
  by (induction k) (auto simp: is_digit_def digit_val_def)

lemma ParseUint64_nat_str: "n < 2 ^ 64 \<Longrightarrow> ParseUint64 (nat_str n) = Some n"
  by (simp add: ParseUint64_def digits_acc_nat_str)

lemma digit_not_sign: "is_digit c \<Longrightarrow> c \<noteq> CHR ''-'' \<and> c \<noteq> CHR ''+'' \<and> c \<noteq> CHR ''.''"
  by (auto simp: is_digit_def)

lemma digit_not_exp: "is_digit c \<Longrightarrow> c \<noteq> CHR ''e'' \<and> c \<noteq> CHR ''E''"
  by (auto simp: is_digit_def)

lemma digit_not_space: "is_digit c \<Longrightarrow> c \<notin> space_bytes"
  by (auto simp: is_digit_def space_bytes_def space_encodings_def ascii_spaces_def)

lemma ParseInt_FormatInt:
  assumes "- (2 ^ 63) \<le> i" "i < 2 ^ 63"
  shows "ParseInt 64 (FormatInt i) = Some i"
proof (cases "i < 0")
  case True
  with assms show ?thesis by (simp add: ParseInt_def FormatInt_def ParseUint64_nat_str)
next
  case False
  have "is_digit (hd (nat_str (nat i)))"
    by (rule nat_str_digits [OF hd_in_set]) simp
  then have "hd (nat_str (nat i)) \<noteq> CHR ''-'' \<and> hd (nat_str (nat i)) \<noteq> CHR ''+''"
    using digit_not_sign by blast
  with False assms show ?thesis by (simp add: ParseInt_def FormatInt_def ParseUint64_nat_str)
qed

end
