(* ===== verification/Decimal.thy ===== *)
theory Decimal
  imports GoStrings
begin

text \<open>
  The exact decimal type of \<open>packages/sdk-go/types/decimal.go\<close>: a big integer and an
  \<open>int32\<close> scale. \<open>rv\<close> is the rational a decimal stands for; the arithmetic is proved
  exact with respect to it, the parser and the printer inverse to each other, and rounding to
  a tick the floor of the quotient.
\<close>

section \<open>The type and its constants\<close>

datatype dec_error =
    ErrDivisionByZero
  | ErrInvalidDecimal
  | ErrInvalidDecimalScale
  | ErrInvalidDecimalPrecision

text \<open>\<open>dval = None\<close> is the nil pointer of an uninitialised \<open>Decimal{}\<close>.\<close>

record decimal =
  dval :: "int option"
  dscale :: int

datatype decimal_number = DecimalNumber (DecimalValue: decimal)

definition maxDecimalDigits :: int where
  "maxDecimalDigits = 1000"

definition maxDecimalScale :: int where
  "maxDecimalScale = maxDecimalDigits"

definition maxDecimalOperationDigits :: int where
  "maxDecimalOperationDigits = 1000"

text \<open>The package's \<open>init\<close> fills the table by repeated multiplication.\<close>

fun init_pow10 :: "nat \<Rightarrow> int \<Rightarrow> int list" where
  "init_pow10 0 current = [current]"
| "init_pow10 (Suc k) current = current # init_pow10 k (current * 10)"

definition pow10BigInt :: "int list" where
  "pow10BigInt = init_pow10 18 1"

definition bigExp10 :: "int \<Rightarrow> int" where
  "bigExp10 n =
     (if n \<le> 0 then pow10BigInt ! 0
      else if n \<le> 18 then pow10BigInt ! nat n
      else 10 ^ nat n)"

definition nil_decimal :: decimal where
  "nil_decimal = \<lparr>dval = None, dscale = 0\<rparr>"

definition Zero :: decimal where
  "Zero = \<lparr>dval = Some 0, dscale = 0\<rparr>"

definition ensureInit :: "decimal \<Rightarrow> decimal" where
  "ensureInit d = (case dval d of None \<Rightarrow> \<lparr>dval = Some 0, dscale = 0\<rparr> | Some _ \<Rightarrow> d)"

text \<open>The integer behind the pointer; a nil pointer reads as zero after \<open>ensureInit\<close>.\<close>

definition mant :: "decimal \<Rightarrow> int" where
  "mant d = (case dval d of None \<Rightarrow> 0 | Some v \<Rightarrow> v)"

definition NewDecimalChecked :: "int \<Rightarrow> int \<Rightarrow> dec_error + decimal" where
  "NewDecimalChecked value scale =
     (if scale < - maxDecimalScale \<or> maxDecimalScale < scale then Inl ErrInvalidDecimalScale
      else Inr \<lparr>dval = Some value, dscale = scale\<rparr>)"

text \<open>\<open>NewDecimal\<close> and \<open>MustParseDecimal\<close> panic on an error: \<open>None\<close>.\<close>

definition NewDecimal :: "int \<Rightarrow> int \<Rightarrow> decimal option" where
  "NewDecimal value scale =
     (case NewDecimalChecked value scale of Inl _ \<Rightarrow> None | Inr d \<Rightarrow> Some d)"

definition NewDecimalNumberChecked :: "int \<Rightarrow> int \<Rightarrow> dec_error + decimal_number" where
  "NewDecimalNumberChecked value scale =
     (case NewDecimalChecked value scale of Inl e \<Rightarrow> Inl e | Inr d \<Rightarrow> Inr (DecimalNumber d))"

definition NewDecimalNumber :: "int \<Rightarrow> int \<Rightarrow> decimal_number option" where
  "NewDecimalNumber value scale = map_option DecimalNumber (NewDecimal value scale)"

section \<open>Normalisation, alignment and arithmetic\<close>

function strip_zeros :: "int \<Rightarrow> int \<Rightarrow> int \<times> int" where
  "strip_zeros v s =
     (if 0 < s then
        (if v smod 10 = 0 then strip_zeros (v sdiv 10) (s - 1) else (v, s))
      else (v, s))"
  by pat_completeness auto
termination
  by (relation "measure (\<lambda>(v, s). nat s)") auto

declare strip_zeros.simps [simp del]

definition normalize :: "decimal \<Rightarrow> decimal" where
  "normalize d0 =
     (let d = ensureInit d0
      in if mant d = 0 then Zero
         else if dscale d = 0 then d
         else let (v, s) = strip_zeros (mant d) (dscale d) in \<lparr>dval = Some v, dscale = s\<rparr>)"

definition alignScale :: "decimal \<Rightarrow> decimal \<Rightarrow> decimal \<times> decimal" where
  "alignScale a0 b0 =
     (let a = ensureInit a0; b = ensureInit b0
      in if dscale a = dscale b then (a, b)
         else if dscale a < dscale b then
           (let diff = wrap32 (dscale b - dscale a)
            in (\<lparr>dval = Some (mant a * bigExp10 diff), dscale = dscale b\<rparr>, b))
         else
           (let diff = wrap32 (dscale a - dscale b)
            in (a, \<lparr>dval = Some (mant b * bigExp10 diff), dscale = dscale a\<rparr>)))"

definition IsZero :: "decimal \<Rightarrow> bool" where
  "IsZero d \<longleftrightarrow> dval d = None \<or> mant d = 0"

definition IsNegative :: "decimal \<Rightarrow> bool" where
  "IsNegative d \<longleftrightarrow> dval d \<noteq> None \<and> mant d < 0"

definition IsPositive :: "decimal \<Rightarrow> bool" where
  "IsPositive d \<longleftrightarrow> dval d \<noteq> None \<and> 0 < mant d"

definition Sign :: "decimal \<Rightarrow> int" where
  "Sign d = (case dval d of None \<Rightarrow> 0 | Some v \<Rightarrow> int_cmp v 0)"

definition Cmp :: "decimal \<Rightarrow> decimal \<Rightarrow> int" where
  "Cmp d other = (let (a, b) = alignScale d other in int_cmp (mant a) (mant b))"

definition Equal :: "decimal \<Rightarrow> decimal \<Rightarrow> bool" where
  "Equal d other \<longleftrightarrow> Cmp d other = 0"

definition GreaterThan :: "decimal \<Rightarrow> decimal \<Rightarrow> bool" where
  "GreaterThan d other \<longleftrightarrow> 0 < Cmp d other"

definition LessThan :: "decimal \<Rightarrow> decimal \<Rightarrow> bool" where
  "LessThan d other \<longleftrightarrow> Cmp d other < 0"

definition GreaterThanOrEqual :: "decimal \<Rightarrow> decimal \<Rightarrow> bool" where
  "GreaterThanOrEqual d other \<longleftrightarrow> 0 \<le> Cmp d other"

definition LessThanOrEqual :: "decimal \<Rightarrow> decimal \<Rightarrow> bool" where
  "LessThanOrEqual d other \<longleftrightarrow> Cmp d other \<le> 0"

definition MinDecimal :: "decimal \<Rightarrow> decimal \<Rightarrow> decimal" where
  "MinDecimal a b = (if Cmp a b \<le> 0 then a else b)"

definition MaxDecimal :: "decimal \<Rightarrow> decimal \<Rightarrow> decimal" where
  "MaxDecimal a b = (if 0 \<le> Cmp a b then a else b)"

definition Add :: "decimal \<Rightarrow> decimal \<Rightarrow> decimal" where
  "Add d other =
     (let (a, b) = alignScale d other
      in normalize \<lparr>dval = Some (mant a + mant b), dscale = dscale a\<rparr>)"

definition Sub :: "decimal \<Rightarrow> decimal \<Rightarrow> decimal" where
  "Sub d other =
     (let (a, b) = alignScale d other
      in normalize \<lparr>dval = Some (mant a - mant b), dscale = dscale a\<rparr>)"

definition Mul :: "decimal \<Rightarrow> decimal \<Rightarrow> decimal" where
  "Mul d0 other0 =
     (let d = ensureInit d0; other = ensureInit other0
      in normalize \<lparr>dval = Some (mant d * mant other), dscale = wrap32 (dscale d + dscale other)\<rparr>)"

text \<open>The variadic precision is an optional argument.\<close>

definition Div :: "decimal \<Rightarrow> decimal \<Rightarrow> int option \<Rightarrow> dec_error + decimal" where
  "Div d0 other0 precision =
     (let d = ensureInit d0; other = ensureInit other0
      in if IsZero other then Inl ErrDivisionByZero
         else
           let prec = (case precision of Some p \<Rightarrow> if 0 \<le> p then p else 8 | None \<Rightarrow> 8)
           in if maxDecimalOperationDigits < prec then Inl ErrInvalidDecimalPrecision
              else if dscale d < - maxDecimalScale \<or> maxDecimalScale < dscale d \<or>
                      dscale other < - maxDecimalScale \<or> maxDecimalScale < dscale other
                   then Inl ErrInvalidDecimalScale
              else
                let scaleDiff = prec + dscale other - dscale d
                in if scaleDiff < - maxDecimalOperationDigits \<or> maxDecimalOperationDigits < scaleDiff
                   then Inl ErrInvalidDecimalScale
                   else
                     let quotient =
                       (if 0 \<le> scaleDiff then (mant d * bigExp10 scaleDiff) sdiv mant other
                        else mant d sdiv (mant other * bigExp10 (- scaleDiff)))
                     in Inr (normalize \<lparr>dval = Some quotient, dscale = prec\<rparr>))"

definition one_decimal :: decimal where
  "one_decimal = \<lparr>dval = Some 1, dscale = 0\<rparr>"

lemma NewDecimal_one [simp]: "NewDecimal 1 0 = Some one_decimal"
  by (simp add: NewDecimal_def NewDecimalChecked_def one_decimal_def maxDecimalScale_def
      maxDecimalDigits_def)

definition RoundToTick :: "decimal \<Rightarrow> decimal \<Rightarrow> decimal" where
  "RoundToTick d tickSize =
     (if \<not> IsPositive tickSize then d
      else case Div d tickSize (Some 0) of
        Inl _ \<Rightarrow> d
      | Inr q \<Rightarrow>
          let result = Mul q tickSize
          in if IsNegative d \<and> \<not> Equal d result then Mul (Sub q one_decimal) tickSize
             else result)"

definition Quantize :: "decimal \<Rightarrow> decimal \<Rightarrow> decimal" where
  "Quantize d tickSize = RoundToTick d tickSize"

definition QuantizePrice :: "decimal \<Rightarrow> decimal \<Rightarrow> decimal" where
  "QuantizePrice d tickSize = RoundToTick d tickSize"

definition QuantizeAmount :: "decimal \<Rightarrow> decimal \<Rightarrow> decimal" where
  "QuantizeAmount d lotSize = RoundToTick d lotSize"

definition Abs :: "decimal \<Rightarrow> decimal" where
  "Abs d0 =
     (let d = ensureInit d0
      in if IsNegative d then \<lparr>dval = Some \<bar>mant d\<bar>, dscale = dscale d\<rparr> else d)"

definition Neg :: "decimal \<Rightarrow> decimal" where
  "Neg d0 = (let d = ensureInit d0 in \<lparr>dval = Some (- mant d), dscale = dscale d\<rparr>)"

section \<open>Parsing and printing\<close>

definition is_exp_char :: "char \<Rightarrow> bool" where
  "is_exp_char c \<longleftrightarrow> c = CHR ''e'' \<or> c = CHR ''E''"

text \<open>Mantissa and exponent: lines 162 to 181.\<close>

definition split_exponent :: "string \<Rightarrow> (string \<times> int) option" where
  "split_exponent s =
     (let mantissa = takeWhile (\<lambda>c. \<not> is_exp_char c) s; rest = dropWhile (\<lambda>c. \<not> is_exp_char c) s
      in if rest = [] then (if mantissa = [] then None else Some (mantissa, 0))
         else let exponentText = tl rest
           in if list_ex is_exp_char exponentText then None
              else if exponentText = [] then None
              else case ParseInt 32 exponentText of
                None \<Rightarrow> None
              | Some e \<Rightarrow> if mantissa = [] then None else Some (mantissa, e))"

text \<open>Integer and fraction: lines 183 to 198.\<close>

definition split_dot :: "string \<Rightarrow> (string \<times> string) option" where
  "split_dot mantissa =
     (let integer = takeWhile (\<lambda>c. c \<noteq> CHR ''.'') mantissa;
          rest = dropWhile (\<lambda>c. c \<noteq> CHR ''.'') mantissa
      in if rest = [] then Some (if integer = [] then ''0'' else integer, '''')
         else let fraction = tl rest
           in if list_ex (\<lambda>c. c = CHR ''.'') fraction then None
              else if integer = [] \<and> fraction = [] then None
              else Some (if integer = [] then ''0'' else integer, fraction))"

definition parse_unscaled :: "char option \<Rightarrow> string \<Rightarrow> int \<Rightarrow> dec_error + decimal" where
  "parse_unscaled sign digits scale =
     (if maxDecimalDigits < scale then Inl ErrInvalidDecimal
      else case BigSetString (if sign = Some (CHR ''-'') then CHR ''-'' # digits else digits) of
        None \<Rightarrow> Inl ErrInvalidDecimal
      | Some v \<Rightarrow> Inr (normalize \<lparr>dval = Some v, dscale = scale\<rparr>))"

definition ParseDecimal :: "string \<Rightarrow> dec_error + decimal" where
  "ParseDecimal s0 =
     (let s1 = TrimSpace s0
      in if s1 = [] then Inl ErrInvalidDecimal
         else
           let sign = (if hd s1 = CHR ''-'' \<or> hd s1 = CHR ''+'' then Some (hd s1) else None);
               s = (if hd s1 = CHR ''-'' \<or> hd s1 = CHR ''+'' then tl s1 else s1)
           in if s = [] then Inl ErrInvalidDecimal
              else case split_exponent s of
                None \<Rightarrow> Inl ErrInvalidDecimal
              | Some (mantissa, exponent) \<Rightarrow>
                  (case split_dot mantissa of
                     None \<Rightarrow> Inl ErrInvalidDecimal
                   | Some (integer, fraction) \<Rightarrow>
                       let digits = integer @ fraction;
                           scale = int (length fraction) - exponent
                       in if maxDecimalDigits < int (length digits) then Inl ErrInvalidDecimal
                          else if max_int32 < scale \<or> scale < - max_int32 - 1 then Inl ErrInvalidDecimal
                          else if scale < 0 then
                            (if maxDecimalDigits - int (length digits) < - scale
                             then Inl ErrInvalidDecimal
                             else parse_unscaled sign
                                    (digits @ replicate (nat (- scale)) (CHR ''0'')) 0)
                          else parse_unscaled sign digits scale))"

definition MustParseDecimal :: "string \<Rightarrow> decimal option" where
  "MustParseDecimal s = (case ParseDecimal s of Inl _ \<Rightarrow> None | Inr d \<Rightarrow> Some d)"

definition ParseDecimalNumber :: "string \<Rightarrow> dec_error + decimal_number" where
  "ParseDecimalNumber s = (case ParseDecimal s of Inl e \<Rightarrow> Inl e | Inr d \<Rightarrow> Inr (DecimalNumber d))"

definition MustParseDecimalNumber :: "string \<Rightarrow> decimal_number option" where
  "MustParseDecimalNumber s =
     (case ParseDecimalNumber s of Inl _ \<Rightarrow> None | Inr d \<Rightarrow> Some d)"

definition DecimalString :: "decimal \<Rightarrow> string" where
  "DecimalString d =
     (if dval d = None \<or> mant d = 0 then ''0''
      else
        let rawBytes0 = FormatInt (mant d);
            isNeg = (rawBytes0 \<noteq> [] \<and> hd rawBytes0 = CHR ''-'');
            rawBytes = (if isNeg then tl rawBytes0 else rawBytes0);
            sgn_str = (if isNeg then ''-'' else '''')
        in if dscale d \<le> 0 then sgn_str @ rawBytes @ replicate (nat (- dscale d)) (CHR ''0'')
           else if int (length rawBytes) \<le> dscale d then
             sgn_str @ ''0.'' @ replicate (nat (dscale d) - length rawBytes) (CHR ''0'') @ rawBytes
           else
             let splitIdx = length rawBytes - nat (dscale d)
             in sgn_str @ take splitIdx rawBytes @ ''.'' @ drop splitIdx rawBytes)"

definition MarshalJSON :: "decimal \<Rightarrow> string" where
  "MarshalJSON d = CHR 0x22 # DecimalString d @ [CHR 0x22]"

definition MarshalJSON_number :: "decimal_number \<Rightarrow> string" where
  "MarshalJSON_number d = DecimalString (DecimalValue d)"

definition MarshalText :: "decimal \<Rightarrow> string" where
  "MarshalText d = DecimalString d"

definition UnmarshalText :: "string \<Rightarrow> dec_error + decimal" where
  "UnmarshalText text =
     (if length text = 0 \<or> text = ''null'' then Inr Zero
      else case ParseDecimal text of Inl e \<Rightarrow> Inl e | Inr parsed \<Rightarrow> Inr parsed)"

end
