(* ===== verification/DecimalArith.thy ===== *)
theory DecimalArith
  imports Decimal
begin

text \<open>
  The value of a decimal and the exactness of its arithmetic. \<open>rv d\<close> is the rational
  \<open>mant d * 10 powi (- dscale d)\<close>. Scales are \<open>int32\<close> in the code, so the laws hold while
  no scale computation wraps: \<open>scale_ok\<close> is a range wide enough for every decimal the SDK
  builds and narrow enough for sums and differences of two scales to stay exact.
\<close>

section \<open>Values\<close>

definition rv :: "decimal \<Rightarrow> rat" where
  "rv d = of_int (mant d) * 10 powi (- dscale d)"

definition scale_ok :: "decimal \<Rightarrow> bool" where
  "scale_ok d \<longleftrightarrow> - (2 ^ 29) \<le> dscale d \<and> dscale d \<le> 2 ^ 29"

named_theorems rv_simps \<open>the value of the result of each operation\<close>

lemma init_pow10_nth: "i \<le> k \<Longrightarrow> init_pow10 k c ! i = c * 10 ^ i"
  by (induction k c arbitrary: i rule: init_pow10.induct) (auto simp: nth_Cons split: nat.splits)

lemma bigExp10_eq: "bigExp10 n = 10 ^ nat n"
  by (auto simp: bigExp10_def pow10BigInt_def init_pow10_nth)

lemma bigExp10_pos [simp]: "0 < bigExp10 n"
  by (simp add: bigExp10_eq)

lemma ten_powi_pos [simp]: "0 < (10::rat) powi n"
  by simp

lemma ten_powi_not_neg [simp]: "\<not> (10::rat) powi n < 0"
  by (simp add: not_less less_imp_le)

lemma ten_powi_nat: "0 \<le> n \<Longrightarrow> (10::rat) ^ nat n = 10 powi n"
  by (simp add: power_int_def)

lemma ten_powi_diff: "(10::rat) powi (a - b) = 10 powi a / 10 powi b"
  by (simp add: power_int_diff)

lemma mant_simps [simp]: "mant \<lparr>dval = Some v, dscale = s\<rparr> = v" "mant \<lparr>dval = None, dscale = s\<rparr> = 0"
  by (simp_all add: mant_def)

lemma ensureInit_Some [simp]: "dval d = Some v \<Longrightarrow> ensureInit d = d"
  by (simp add: ensureInit_def)

lemma mant_ensureInit [simp]: "mant (ensureInit d) = mant d"
  by (simp add: ensureInit_def mant_def split: option.splits)

lemma dval_ensureInit: "dval (ensureInit d) \<noteq> None"
  by (simp add: ensureInit_def split: option.splits)

lemma rv_ensureInit [rv_simps]: "rv (ensureInit d) = rv d"
  by (simp add: rv_def ensureInit_def mant_def split: option.splits)

lemma scale_ok_ensureInit [simp]: "scale_ok d \<Longrightarrow> scale_ok (ensureInit d)"
  by (simp add: scale_ok_def ensureInit_def split: option.splits)

lemma rv_Zero [rv_simps]: "rv Zero = 0"
  by (simp add: rv_def Zero_def)

lemma rv_nil [rv_simps]: "rv nil_decimal = 0"
  by (simp add: rv_def nil_decimal_def)

lemma rv_one [rv_simps]: "rv one_decimal = 1"
  by (simp add: rv_def one_decimal_def)

lemma scale_ok_consts [simp]: "scale_ok Zero" "scale_ok nil_decimal" "scale_ok one_decimal"
  by (simp_all add: scale_ok_def Zero_def nil_decimal_def one_decimal_def)

lemma rv_sign_iff:
  "rv d = 0 \<longleftrightarrow> mant d = 0" "0 < rv d \<longleftrightarrow> 0 < mant d" "rv d < 0 \<longleftrightarrow> mant d < 0"
  by (simp_all add: rv_def zero_less_mult_iff mult_less_0_iff not_less[symmetric] less_imp_not_less)

lemma IsZero_iff: "IsZero d \<longleftrightarrow> rv d = 0"
  by (auto simp: IsZero_def rv_sign_iff mant_def split: option.splits)

lemma IsPositive_iff: "IsPositive d \<longleftrightarrow> 0 < rv d"
  by (auto simp: IsPositive_def rv_sign_iff mant_def split: option.splits)

lemma IsNegative_iff: "IsNegative d \<longleftrightarrow> rv d < 0"
  by (auto simp: IsNegative_def rv_sign_iff mant_def split: option.splits)

lemmas sign_iffs = IsZero_iff IsPositive_iff IsNegative_iff

section \<open>Normalisation keeps the value\<close>

lemma sdiv_dvd: "v smod 10 = 0 \<Longrightarrow> (v::int) = 10 * (v sdiv 10)"
  by (metis add.right_neutral sdiv_mult_smod_eq mult.commute)

lemma smod_10_iff: "(v::int) smod 10 = 0 \<longleftrightarrow> 10 dvd v"
proof
  assume "10 dvd v"
  then obtain k where "v = 10 * k" ..
  then show "v smod 10 = 0" by (simp add: signed_modulo_int_def sgn_mult abs_mult)
next
  assume "v smod 10 = 0"
  then show "10 dvd v" using sdiv_dvd by (metis dvd_triv_left)
qed

lemma strip_zeros_value:
  "strip_zeros v s = (v', s') \<Longrightarrow> of_int v' * (10::rat) powi (- s') = of_int v * 10 powi (- s)"
proof (induction v s arbitrary: v' s' rule: strip_zeros.induct)
  case (1 v s)
  show ?case
  proof (cases "0 < s \<and> v smod 10 = 0")
    case True
    then have eq: "strip_zeros (v sdiv 10) (s - 1) = (v', s')"
      using "1.prems" by (simp add: strip_zeros.simps[of v s])
    have "of_int v * (10::rat) powi (- s) = of_int (10 * (v sdiv 10)) * 10 powi (- s)"
      using True sdiv_dvd[of v] by simp
    also have "\<dots> = of_int (v sdiv 10) * 10 powi (- (s - 1))"
      by (simp add: power_int_diff power_int_minus field_simps)
    finally show ?thesis using "1.IH" True eq by simp
  next
    case False
    with "1.prems" have "v' = v \<and> s' = s"
      by (auto simp: strip_zeros.simps[of v s] split: if_splits)
    then show ?thesis by simp
  qed
qed

lemma strip_zeros_props:
  "strip_zeros v s = (v', s') \<Longrightarrow>
   s' \<le> s \<and> (0 \<le> s \<longrightarrow> 0 \<le> s') \<and> (s \<le> 0 \<longrightarrow> s' = s) \<and> (0 < s' \<longrightarrow> \<not> 10 dvd v') \<and> (v \<noteq> 0 \<longrightarrow> v' \<noteq> 0)"
proof (induction v s arbitrary: v' s' rule: strip_zeros.induct)
  case (1 v s)
  show ?case
  proof (cases "0 < s \<and> v smod 10 = 0")
    case True
    then have eq: "strip_zeros (v sdiv 10) (s - 1) = (v', s')"
      using "1.prems" by (simp add: strip_zeros.simps[of v s])
    have "v \<noteq> 0 \<Longrightarrow> v sdiv 10 \<noteq> 0"
      using True sdiv_dvd[of v] by auto
    with "1.IH" True eq show ?thesis by fastforce
  next
    case False
    with "1.prems" have "v' = v \<and> s' = s"
      by (auto simp: strip_zeros.simps[of v s] split: if_splits)
    with False show ?thesis by (auto simp: smod_10_iff)
  qed
qed

lemma rv_normalize [rv_simps]: "rv (normalize d) = rv d"
proof (cases "mant d = 0")
  case True
  then show ?thesis by (simp add: normalize_def Let_def rv_Zero rv_sign_iff)
next
  case False
  obtain v s where vs: "strip_zeros (mant d) (dscale (ensureInit d)) = (v, s)"
    by (cases "strip_zeros (mant d) (dscale (ensureInit d))") auto
  have "rv (normalize d) = rv (ensureInit d)"
    using False strip_zeros_value[OF vs] vs by (simp add: normalize_def Let_def rv_def)
  then show ?thesis by (simp add: rv_ensureInit)
qed

text \<open>The normal form: an initialised value, scale 0 for zero, no trailing zero after the point.\<close>

definition normalized :: "decimal \<Rightarrow> bool" where
  "normalized d \<longleftrightarrow> dval d \<noteq> None \<and> (mant d = 0 \<longrightarrow> dscale d = 0) \<and> (0 < dscale d \<longrightarrow> \<not> 10 dvd mant d)"

lemma normalized_normalize [simp]: "normalized (normalize d)"
proof (cases "mant d = 0")
  case True
  then show ?thesis by (simp add: normalize_def Let_def normalized_def Zero_def)
next
  case False
  obtain v s where vs: "strip_zeros (mant d) (dscale (ensureInit d)) = (v, s)"
    by (cases "strip_zeros (mant d) (dscale (ensureInit d))") auto
  show ?thesis
    using False strip_zeros_props[OF vs] vs dval_ensureInit[of d]
    by (auto simp: normalize_def Let_def normalized_def)
qed

lemma normalize_scale:
  "dscale (normalize d) \<le> max 0 (dscale d)" "0 \<le> dscale d \<Longrightarrow> 0 \<le> dscale (normalize d)"
  "min 0 (dscale d) \<le> dscale (normalize d)"
proof -
  obtain v s where vs: "strip_zeros (mant d) (dscale (ensureInit d)) = (v, s)"
    by (cases "strip_zeros (mant d) (dscale (ensureInit d))") auto
  have e: "dscale (ensureInit d) = dscale d \<or> dscale (ensureInit d) = 0"
    by (auto simp: ensureInit_def split: option.splits)
  show "dscale (normalize d) \<le> max 0 (dscale d)" "0 \<le> dscale d \<Longrightarrow> 0 \<le> dscale (normalize d)"
    "min 0 (dscale d) \<le> dscale (normalize d)"
    using strip_zeros_props[OF vs] vs e
    by (auto simp: normalize_def Let_def Zero_def)
qed

lemma scale_ok_normalize: "scale_ok d \<Longrightarrow> scale_ok (normalize d)"
  using normalize_scale[of d] by (auto simp: scale_ok_def)

section \<open>Alignment, comparison and exact arithmetic\<close>

lemma alignScale_spec:
  assumes "scale_ok d" "scale_ok e" and al: "alignScale d e = (a, b)"
  shows "dval a \<noteq> None" "dval b \<noteq> None" "dscale a = dscale b" "rv a = rv d" "rv b = rv e"
    "dscale a = max (dscale (ensureInit d)) (dscale (ensureInit e))"
proof -
  let ?d = "ensureInit d" and ?e = "ensureInit e"
  have ok: "scale_ok ?d" "scale_ok ?e" using assms by simp_all
  consider "dscale ?d = dscale ?e" | "dscale ?d < dscale ?e" | "dscale ?e < dscale ?d"
    by linarith
  then have "dval a \<noteq> None \<and> dval b \<noteq> None \<and> dscale a = dscale b \<and> rv a = rv d \<and> rv b = rv e \<and>
    dscale a = max (dscale ?d) (dscale ?e)"
  proof cases
    case 1
    with al show ?thesis using dval_ensureInit[of d] dval_ensureInit[of e]
      by (auto simp: alignScale_def Let_def rv_ensureInit)
  next
    case 2
    have w: "wrap32 (dscale ?e - dscale ?d) = dscale ?e - dscale ?d"
      using ok by (intro wrap32_id) (auto simp: scale_ok_def)
    from 2 al w have ab: "a = \<lparr>dval = Some (mant d * bigExp10 (dscale ?e - dscale ?d)), dscale = dscale ?e\<rparr>"
      "b = ?e" by (auto simp: alignScale_def Let_def)
    have "rv a = rv ?d"
      using 2 by (simp add: ab rv_def bigExp10_eq ten_powi_nat power_int_minus power_int_diff field_simps)
    with 2 ab show ?thesis by (simp add: dval_ensureInit rv_ensureInit)
  next
    case 3
    have w: "wrap32 (dscale ?d - dscale ?e) = dscale ?d - dscale ?e"
      using ok by (intro wrap32_id) (auto simp: scale_ok_def)
    from 3 al w have ab: "a = ?d" "b = \<lparr>dval = Some (mant e * bigExp10 (dscale ?d - dscale ?e)), dscale = dscale ?d\<rparr>"
      by (auto simp: alignScale_def Let_def)
    have "rv b = rv ?e"
      using 3 by (simp add: ab rv_def bigExp10_eq ten_powi_nat power_int_minus power_int_diff field_simps)
    with 3 ab show ?thesis by (simp add: dval_ensureInit rv_ensureInit)
  qed
  then show "dval a \<noteq> None" "dval b \<noteq> None" "dscale a = dscale b" "rv a = rv d" "rv b = rv e"
    "dscale a = max (dscale ?d) (dscale ?e)" by auto
qed

lemma rv_same_scale: "dscale a = dscale b \<Longrightarrow> rv a \<le> rv b \<longleftrightarrow> mant a \<le> mant b"
  by (simp add: rv_def)

lemma Cmp_rv:
  assumes "scale_ok d" "scale_ok e"
  shows "Cmp d e = int_cmp (rv d) (rv e)"
proof -
  obtain a b where al: "alignScale d e = (a, b)" by (cases "alignScale d e") auto
  note sp = alignScale_spec[OF assms al]
  have "mant a \<le> mant b \<longleftrightarrow> rv d \<le> rv e" "mant b \<le> mant a \<longleftrightarrow> rv e \<le> rv d"
    using rv_same_scale[of a b] rv_same_scale[of b a] sp by auto
  then show ?thesis using al by (auto simp: Cmp_def int_cmp_def not_le[symmetric])
qed

lemma Add_rv: "scale_ok d \<Longrightarrow> scale_ok e \<Longrightarrow> rv (Add d e) = rv d + rv e"
proof -
  assume ok: "scale_ok d" "scale_ok e"
  obtain a b where al: "alignScale d e = (a, b)" by (cases "alignScale d e") auto
  note sp = alignScale_spec[OF ok al]
  show ?thesis using al sp(3,4,5)[symmetric]
    by (simp add: Add_def rv_normalize) (simp add: rv_def algebra_simps)
qed

lemma Sub_rv: "scale_ok d \<Longrightarrow> scale_ok e \<Longrightarrow> rv (Sub d e) = rv d - rv e"
proof -
  assume ok: "scale_ok d" "scale_ok e"
  obtain a b where al: "alignScale d e = (a, b)" by (cases "alignScale d e") auto
  note sp = alignScale_spec[OF ok al]
  show ?thesis using al sp(3,4,5)[symmetric]
    by (simp add: Sub_def rv_normalize) (simp add: rv_def algebra_simps)
qed

lemma Mul_rv:
  assumes "scale_ok d" "scale_ok e"
  shows "rv (Mul d e) = rv d * rv e"
proof -
  let ?d = "ensureInit d" and ?e = "ensureInit e"
  have ok: "scale_ok ?d" "scale_ok ?e" using assms by simp_all
  have w: "wrap32 (dscale ?d + dscale ?e) = dscale ?d + dscale ?e"
    using ok by (intro wrap32_id) (auto simp: scale_ok_def)
  have "rv (Mul d e) = of_int (mant d * mant e) * 10 powi (- (dscale ?d + dscale ?e))"
    by (simp add: Mul_def Let_def rv_normalize w) (simp add: rv_def)
  also have "\<dots> = rv ?d * rv ?e"
    by (simp add: rv_def power_int_add power_int_diff power_int_minus field_simps)
  finally show ?thesis by (simp add: rv_ensureInit)
qed

lemma Neg_rv [rv_simps]: "rv (Neg d) = - rv d"
proof -
  have "rv (Neg d) = - rv (ensureInit d)" by (simp add: Neg_def Let_def rv_def)
  then show ?thesis by (simp add: rv_ensureInit)
qed

lemma Abs_rv [rv_simps]: "rv (Abs d) = \<bar>rv d\<bar>"
proof (cases "IsNegative d")
  case True
  then have "IsNegative (ensureInit d)" and "mant d < 0"
    by (simp_all add: IsNegative_iff rv_ensureInit rv_sign_iff)
  then have "rv (Abs d) = - rv (ensureInit d)"
    by (simp add: Abs_def Let_def rv_def)
  with True show ?thesis by (simp add: IsNegative_iff rv_ensureInit)
next
  case False
  then show ?thesis by (simp add: Abs_def Let_def IsNegative_iff rv_ensureInit)
qed

text \<open>Scales of the results: bounded by the larger operand, or the sum for a product.\<close>

definition scale_within :: "int \<Rightarrow> decimal \<Rightarrow> bool" where
  "scale_within k d \<longleftrightarrow> 0 \<le> dscale d \<and> dscale d \<le> k"

lemma scale_within_ok: "scale_within k d \<Longrightarrow> k \<le> 2 ^ 29 \<Longrightarrow> scale_ok d"
  by (auto simp: scale_within_def scale_ok_def)

lemma scale_within_mono: "scale_within k d \<Longrightarrow> k \<le> l \<Longrightarrow> scale_within l d"
  by (simp add: scale_within_def)

lemma scale_within_consts [simp]: "0 \<le> k \<Longrightarrow> scale_within k Zero" "0 \<le> k \<Longrightarrow> scale_within k nil_decimal"
  "0 \<le> k \<Longrightarrow> scale_within k one_decimal"
  by (simp_all add: scale_within_def Zero_def nil_decimal_def one_decimal_def)

lemma scale_within_normalize: "scale_within k d \<Longrightarrow> scale_within k (normalize d)"
  using normalize_scale[of d] by (auto simp: scale_within_def)

lemma scale_within_ensureInit: "scale_within k d \<Longrightarrow> scale_within k (ensureInit d)"
  by (auto simp: scale_within_def ensureInit_def split: option.splits)

lemma scale_within_Add:
  assumes "scale_within k d" "scale_within k e" "k \<le> 2 ^ 29"
  shows "scale_within k (Add d e)" "scale_within k (Sub d e)"
proof -
  obtain a b where al: "alignScale d e = (a, b)" by (cases "alignScale d e") auto
  have ok: "scale_ok d" "scale_ok e" using assms scale_within_ok by blast+
  have "scale_within k (ensureInit d)" "scale_within k (ensureInit e)"
    using assms by (simp_all add: scale_within_ensureInit)
  then have "scale_within k \<lparr>dval = Some x, dscale = dscale a\<rparr>" for x
    using alignScale_spec(6)[OF ok al] by (auto simp: scale_within_def)
  then show "scale_within k (Add d e)" "scale_within k (Sub d e)"
    using al by (simp_all add: Add_def Sub_def scale_within_normalize)
qed

lemma scale_within_Mul:
  assumes "scale_within k d" "scale_within l e" "k + l < 2 ^ 31"
  shows "scale_within (k + l) (Mul d e)"
proof -
  have w: "scale_within k (ensureInit d)" "scale_within l (ensureInit e)"
    using assms by (simp_all add: scale_within_ensureInit)
  then have "wrap32 (dscale (ensureInit d) + dscale (ensureInit e)) =
    dscale (ensureInit d) + dscale (ensureInit e)"
    using assms(3) by (intro wrap32_id) (auto simp: scale_within_def)
  with w show ?thesis
    by (simp add: Mul_def Let_def) (rule scale_within_normalize, simp add: scale_within_def)
qed

lemma normalized_results [simp]:
  "normalized (Add d e)" "normalized (Sub d e)" "normalized (Mul d e)"
  by (simp_all add: Add_def Sub_def Mul_def Let_def split: prod.splits)

end
