(* ===== verification/DecimalDiv.thy ===== *)
theory DecimalDiv
  imports DecimalArith
begin

text \<open>
  Division, rounding to a tick, normal forms, and decimals as an instance of the comparator
  interface: \<open>Div\<close> truncates the exact quotient at the requested precision, \<open>RoundToTick\<close>
  is the floor to a multiple of the tick, and normalised decimals of equal value are equal.
\<close>

section \<open>Division\<close>

definition truncq :: "rat \<Rightarrow> int" where
  "truncq x = (if 0 \<le> x then \<lfloor>x\<rfloor> else \<lceil>x\<rceil>)"

lemma truncq_bounds: "\<bar>of_int (truncq x)\<bar> \<le> \<bar>x\<bar>" "\<bar>x - of_int (truncq x)\<bar> < 1"
proof -
  have "\<bar>of_int (truncq x)\<bar> \<le> \<bar>x\<bar> \<and> \<bar>x - of_int (truncq x)\<bar> < 1"
  proof (cases "0 \<le> x")
    case True
    then have "0 \<le> rat_of_int \<lfloor>x\<rfloor>" by simp
    with True floor_correct[of x] show ?thesis by (simp add: truncq_def)
  next
    case False
    then have "rat_of_int \<lceil>x\<rceil> \<le> 0" by (simp add: ceiling_le_iff)
    with False ceiling_correct[of x] show ?thesis by (simp add: truncq_def)
  qed
  then show "\<bar>of_int (truncq x)\<bar> \<le> \<bar>x\<bar>" "\<bar>x - of_int (truncq x)\<bar> < 1" by auto
qed

lemma sdiv_truncq:
  assumes "b \<noteq> 0"
  shows "a sdiv b = truncq (of_int a / of_int b)"
proof -
  have fl: "\<lfloor>rat_of_int \<bar>a\<bar> / of_int \<bar>b\<bar>\<rfloor> = \<bar>a\<bar> div \<bar>b\<bar>"
    by (rule floor_divide_of_int_eq)
  show ?thesis
  proof (cases "0 \<le> rat_of_int a / of_int b")
    case True
    then have "sgn a * sgn b = 1 \<or> a = 0"
      using assms by (auto simp: zero_le_divide_iff sgn_if)
    moreover have "rat_of_int \<bar>a\<bar> / of_int \<bar>b\<bar> = of_int a / of_int b"
      using True by (auto simp: abs_if zero_le_divide_iff field_simps)
    ultimately show ?thesis
      using fl True by (auto simp: signed_divide_int_def truncq_def)
  next
    case False
    then have "sgn a * sgn b = - 1"
      using assms by (auto simp: zero_le_divide_iff sgn_if)
    moreover have "rat_of_int \<bar>a\<bar> / of_int \<bar>b\<bar> = - (of_int a / of_int b)"
      using False by (auto simp: abs_if zero_le_divide_iff field_simps)
    ultimately show ?thesis
      using fl False by (auto simp: signed_divide_int_def truncq_def ceiling_def)
  qed
qed

definition div_prec :: "int option \<Rightarrow> int" where
  "div_prec precision = (case precision of Some p \<Rightarrow> if 0 \<le> p then p else 8 | None \<Rightarrow> 8)"

definition div_in_range :: "decimal \<Rightarrow> decimal \<Rightarrow> int \<Rightarrow> bool" where
  "div_in_range d e p \<longleftrightarrow> \<bar>dscale (ensureInit d)\<bar> \<le> 1000 \<and> \<bar>dscale (ensureInit e)\<bar> \<le> 1000 \<and>
     \<bar>p + dscale (ensureInit e) - dscale (ensureInit d)\<bar> \<le> 1000"

lemmas decimal_limits = maxDecimalOperationDigits_def maxDecimalScale_def maxDecimalDigits_def

lemma mant_nonzero: "\<not> IsZero e \<Longrightarrow> mant e \<noteq> 0"
  by (auto simp: IsZero_def mant_def)

lemma div_quotient_value:
  fixes d e :: decimal and p :: int
  assumes "mant e \<noteq> 0" and k_def: "k = p + dscale e - dscale d"
  shows "(if 0 \<le> k then (mant d * bigExp10 k) sdiv mant e
    else mant d sdiv (mant e * bigExp10 (- k))) = truncq (rv d / rv e * 10 powi p)"
proof -
  have e: "rv d / rv e * 10 powi p = of_int (mant d) / of_int (mant e) * 10 powi k"
    by (simp add: rv_def k_def power_int_add power_int_diff power_int_minus field_simps)
  show ?thesis
  proof (cases "0 \<le> k")
    case True
    then have "of_int (mant d * bigExp10 k) / rat_of_int (mant e) = rv d / rv e * 10 powi p"
      by (subst e) (simp add: bigExp10_eq ten_powi_nat)
    with True assms(1) show ?thesis by (simp add: sdiv_truncq)
  next
    case False
    then have "of_int (mant d) / rat_of_int (mant e * bigExp10 (- k)) = rv d / rv e * 10 powi p"
      by (subst e) (simp add: bigExp10_eq ten_powi_nat power_int_minus field_simps)
    moreover have "mant e * bigExp10 (- k) \<noteq> 0"
      using assms(1) by (simp add: bigExp10_eq)
    ultimately show ?thesis using False by (simp add: sdiv_truncq)
  qed
qed

lemma Div_Inr:
  assumes "rv e \<noteq> 0" "div_prec precision = p" "p \<le> 1000" "div_in_range d e p"
  shows "Div d e precision =
    Inr (normalize \<lparr>dval = Some (truncq (rv d / rv e * 10 powi p)), dscale = p\<rparr>)"
proof -
  let ?d = "ensureInit d" and ?e = "ensureInit e"
  have nz: "\<not> IsZero ?e" using assms(1) by (simp add: IsZero_iff rv_ensureInit)
  have p: "(case precision of Some p \<Rightarrow> if 0 \<le> p then p else 8 | None \<Rightarrow> 8) = p"
    using assms(2) by (simp add: div_prec_def)
  have r: "\<not> maxDecimalOperationDigits < p"
    "\<not> (dscale ?d < - maxDecimalScale \<or> maxDecimalScale < dscale ?d \<or>
        dscale ?e < - maxDecimalScale \<or> maxDecimalScale < dscale ?e)"
    "\<not> (p + dscale ?e - dscale ?d < - maxDecimalOperationDigits \<or>
        maxDecimalOperationDigits < p + dscale ?e - dscale ?d)"
    using assms(3,4) by (auto simp: decimal_limits div_in_range_def abs_le_iff)
  have "mant ?e \<noteq> 0" using nz by (rule mant_nonzero)
  then show ?thesis
    using nz p r div_quotient_value[of ?e _ p ?d, OF _ refl]
    by (simp add: Div_def Let_def rv_ensureInit del: mant_ensureInit)
qed

lemma Div_value:
  assumes "rv e \<noteq> 0" "div_prec precision = p" "0 \<le> p" "p \<le> 1000" "div_in_range d e p"
  obtains q where "Div d e precision = Inr q" "normalized q" "scale_within p q"
    "rv q = of_int (truncq (rv d / rv e * 10 powi p)) * 10 powi (- p)"
proof
  let ?q = "normalize \<lparr>dval = Some (truncq (rv d / rv e * 10 powi p)), dscale = p\<rparr>"
  show "Div d e precision = Inr ?q" by (rule Div_Inr) (use assms in auto)
  show "normalized ?q" by simp
  show "scale_within p ?q"
    using assms(3) by (intro scale_within_normalize) (simp add: scale_within_def)
  show "rv ?q = of_int (truncq (rv d / rv e * 10 powi p)) * 10 powi (- p)"
    by (simp add: rv_normalize) (simp add: rv_def)
qed

text \<open>When the division does not return a quotient, and with which error.\<close>

lemma Div_errors:
  "rv e = 0 \<Longrightarrow> Div d e precision = Inl ErrDivisionByZero"
  "rv e \<noteq> 0 \<Longrightarrow> 1000 < div_prec precision \<Longrightarrow> Div d e precision = Inl ErrInvalidDecimalPrecision"
  "rv e \<noteq> 0 \<Longrightarrow> div_prec precision \<le> 1000 \<Longrightarrow> \<not> div_in_range d e (div_prec precision) \<Longrightarrow>
   Div d e precision = Inl ErrInvalidDecimalScale"
  by (auto simp: Div_def Let_def IsZero_iff rv_ensureInit decimal_limits div_in_range_def
      div_prec_def[symmetric] abs_le_iff)

section \<open>Rounding to a tick\<close>

lemma scale_ok_Mul_unit:
  assumes "scale_within 0 q" "\<bar>dscale (ensureInit t)\<bar> \<le> 1000"
  shows "scale_ok (Mul q t)"
proof -
  have "dscale (ensureInit q) = 0"
    using assms(1) scale_within_ensureInit[of 0 q] by (simp add: scale_within_def)
  moreover have "wrap32 (dscale (ensureInit t)) = dscale (ensureInit t)"
    using assms(2) by (intro wrap32_id) auto
  ultimately show ?thesis
    using assms(2)
    by (simp add: Mul_def Let_def) (rule scale_ok_normalize, auto simp: scale_ok_def abs_le_iff)
qed

lemma small_scale_ok: "\<bar>dscale (ensureInit t)\<bar> \<le> 1000 \<Longrightarrow> dval t \<noteq> None \<Longrightarrow> scale_ok t"
  by (auto simp: scale_ok_def)

lemma RoundToTick_floor:
  assumes "IsPositive t" "dval d \<noteq> None" "div_in_range d t 0"
  shows "rv (RoundToTick d t) = of_int \<lfloor>rv d / rv t\<rfloor> * rv t"
proof -
  let ?x = "rv d / rv t"
  have tpos: "0 < rv t" using assms(1) by (simp add: IsPositive_iff)
  have tinit: "dval t \<noteq> None" using assms(1) by (simp add: IsPositive_def)
  have small: "\<bar>dscale (ensureInit t)\<bar> \<le> 1000" "\<bar>dscale (ensureInit d)\<bar> \<le> 1000"
    using assms(3) by (simp_all add: div_in_range_def)
  have okt: "scale_ok t" and okd: "scale_ok d"
    using small tinit assms(2) small_scale_ok by blast+
  have prec: "div_prec (Some 0) = 0" by (simp add: div_prec_def)
  obtain q where q: "Div d t (Some 0) = Inr q" "scale_within 0 q" "rv q = of_int (truncq ?x)"
    using Div_value[OF _ prec _ _ assms(3)] tpos by auto
  have okq: "scale_ok q" using q(2) by (rule scale_within_ok) simp
  have res: "rv (Mul q t) = of_int (truncq ?x) * rv t"
    using Mul_rv[OF okq okt] q(3) by simp
  have okres: "scale_ok (Mul q t)" using q(2) small(1) by (rule scale_ok_Mul_unit)
  have eq: "Equal d (Mul q t) \<longleftrightarrow> rv d = of_int (truncq ?x) * rv t"
    by (simp add: Equal_def Cmp_rv[OF okd okres] res)
  have q1: "scale_within 0 (Sub q one_decimal)" "rv (Sub q one_decimal) = of_int (truncq ?x) - 1"
    using scale_within_Add(2)[OF q(2), of one_decimal] Sub_rv[OF okq, of one_decimal] q(3)
    by (simp_all add: rv_one)
  have res1: "rv (Mul (Sub q one_decimal) t) = (of_int (truncq ?x) - 1) * rv t"
    using Mul_rv[OF _ okt, of "Sub q one_decimal"] q1 scale_within_ok[of 0] by simp
  show ?thesis
  proof (cases "IsNegative d \<and> \<not> Equal d (Mul q t)")
    case True
    then have neg: "?x < 0" and ne: "?x \<noteq> of_int (truncq ?x)"
      using tpos eq by (auto simp: IsNegative_iff divide_less_0_iff field_simps)
    then have "\<lfloor>?x\<rfloor> = truncq ?x - 1"
      by (simp add: truncq_def) linarith
    then show ?thesis using True q(1) res1 assms(1) by (simp add: RoundToTick_def)
  next
    case False
    have "\<lfloor>?x\<rfloor> = truncq ?x"
    proof (cases "0 \<le> ?x")
      case False
      then have "IsNegative d" using tpos by (auto simp: IsNegative_iff zero_le_divide_iff not_le)
      with \<open>\<not> (IsNegative d \<and> \<not> Equal d (Mul q t))\<close> eq have "rv d = of_int (truncq ?x) * rv t" by simp
      then have "?x = of_int (truncq ?x)" using tpos by (simp add: field_simps)
      then show ?thesis by (metis floor_of_int)
    qed (simp add: truncq_def)
    moreover have "RoundToTick d t = Mul q t"
      using False q(1) assms(1) by (auto simp: RoundToTick_def Let_def)
    ultimately show ?thesis using res by simp
  qed
qed

section \<open>Decimals as a comparator, and unique normal forms\<close>

interpretation dec_cmp: comparator Cmp scale_ok
  by unfold_locales (auto simp: Cmp_rv)

interpretation dec_cmp_rev: comparator "\<lambda>a b. Cmp b a" scale_ok
  by unfold_locales (auto simp: Cmp_rv)

lemma normalized_unique:
  assumes "normalized d" "normalized e" "0 \<le> dscale d" "0 \<le> dscale e" "rv d = rv e"
  shows "d = e"
proof -
  have key: "dscale a = dscale b" if "normalized a" "normalized b" "0 \<le> dscale a" "0 \<le> dscale b"
    "rv a = rv b" "dscale a \<le> dscale b" for a b
  proof (rule ccontr)
    assume "dscale a \<noteq> dscale b"
    with that(6) have lt: "dscale a < dscale b" by simp
    define k where "k = nat (dscale b - dscale a)"
    have "of_int (mant b) = of_int (mant a) * (10::rat) powi (dscale b - dscale a)"
      using that(5) by (simp add: rv_def power_int_minus power_int_diff field_simps)
    then have "of_int (mant b) = rat_of_int (mant a * 10 ^ k)"
      using lt by (simp add: k_def ten_powi_nat)
    then have "mant b = mant a * 10 ^ k" by (simp only: of_int_eq_iff)
    moreover have "0 < k" using lt by (simp add: k_def)
    ultimately have "10 dvd mant b" by (simp add: dvd_mult dvd_power)
    with that lt show False by (simp add: normalized_def)
  qed
  have s: "dscale d = dscale e"
    using key[of d e] key[of e d] assms by (cases "dscale d \<le> dscale e") auto
  with assms(5) have "mant d = mant e" by (simp add: rv_def)
  with s assms(1,2) show ?thesis
    by (cases d; cases e) (auto simp: normalized_def mant_def)
qed

end
