(* ===== verification/DecimalText.thy ===== *)
theory DecimalText
  imports DecimalDiv
begin

text \<open>
  The parser and the printer of decimals: what the parser returns is always in normal form
  with a scale between 0 and 1000, a plain numeral is read as its digits say, and parsing the
  printed form of a normalised decimal gives the decimal back (within the parser's limits).
\<close>

section \<open>What the parser returns\<close>

lemma parse_unscaled_Inr:
  "parse_unscaled sign digits scale = Inr d \<Longrightarrow> 0 \<le> scale \<Longrightarrow> normalized d \<and> scale_within 1000 d"
proof -
  assume p: "parse_unscaled sign digits scale = Inr d" and s: "0 \<le> scale"
  then obtain v where d: "d = normalize \<lparr>dval = Some v, dscale = scale\<rparr>" and le: "scale \<le> 1000"
    by (auto simp: parse_unscaled_def maxDecimalDigits_def split: if_splits option.splits)
  have "scale_within 1000 \<lparr>dval = Some v, dscale = scale\<rparr>"
    using s le by (simp add: scale_within_def)
  with d show ?thesis by (simp add: scale_within_normalize)
qed

lemma ParseDecimal_Inr:
  assumes "ParseDecimal s = Inr d"
  shows "normalized d \<and> scale_within 1000 d"
proof -
  from assms obtain sign digits scale where "parse_unscaled sign digits scale = Inr d" "0 \<le> scale"
    by (auto simp: ParseDecimal_def Let_def not_less split: if_splits option.splits)
  then show ?thesis by (rule parse_unscaled_Inr)
qed

lemma ParseDecimal_scale_ok: "ParseDecimal s = Inr d \<Longrightarrow> scale_ok d"
  using ParseDecimal_Inr scale_within_ok[of 1000 d] by simp

lemma ParseDecimal_error: "ParseDecimal s = Inl e \<Longrightarrow> e = ErrInvalidDecimal"
  by (auto simp: ParseDecimal_def parse_unscaled_def Let_def split: if_splits option.splits)

section \<open>Plain numerals\<close>

definition all_digits :: "string \<Rightarrow> bool" where
  "all_digits s \<longleftrightarrow> (\<forall>c\<in>set s. is_digit c)"

lemma digits_acc_total: "all_digits s \<Longrightarrow> \<exists>n. digits_acc a s = Some n"
  by (induction s arbitrary: a) (auto simp: all_digits_def)

lemma all_digits_append [simp]: "all_digits (xs @ ys) \<longleftrightarrow> all_digits xs \<and> all_digits ys"
  by (auto simp: all_digits_def)

lemma all_digits_nat_str [simp]: "all_digits (nat_str n)"
  by (simp add: all_digits_def nat_str_digits)

lemma all_digits_zeros [simp]: "all_digits (replicate k (CHR ''0''))"
  by (auto simp: all_digits_def is_digit_def)

lemma all_digits_take_drop: "all_digits s \<Longrightarrow> all_digits (take n s) \<and> all_digits (drop n s)"
  by (auto simp: all_digits_def dest: in_set_takeD in_set_dropD)

lemma takeWhile_all: "\<forall>c\<in>set xs. P c \<Longrightarrow> takeWhile P xs = xs \<and> dropWhile P xs = []"
  by (simp add: takeWhile_eq_all_conv dropWhile_eq_Nil_conv)

lemma split_exponent_plain:
  "s \<noteq> [] \<Longrightarrow> \<forall>c\<in>set s. \<not> is_exp_char c \<Longrightarrow> split_exponent s = Some (s, 0)"
  by (simp add: split_exponent_def takeWhile_all)

definition dotted :: "string \<Rightarrow> string" where
  "dotted fp = (if fp = [] then [] else CHR ''.'' # fp)"

lemma split_dot_plain:
  assumes "all_digits ip" "ip \<noteq> []" "all_digits fp"
  shows "split_dot (ip @ dotted fp) = Some (ip, fp)"
proof -
  have ni: "\<forall>c\<in>set ip. c \<noteq> CHR ''.''" and nf: "\<forall>c\<in>set fp. c \<noteq> CHR ''.''"
    using assms digit_not_sign unfolding all_digits_def by blast+
  have tw: "takeWhile (\<lambda>c. c \<noteq> CHR ''.'') ip = ip" "dropWhile (\<lambda>c. c \<noteq> CHR ''.'') ip = []"
    using takeWhile_all[OF ni] by auto
  show ?thesis
  proof (cases "fp = []")
    case True
    then show ?thesis using assms(2) by (simp add: split_dot_def dotted_def Let_def tw)
  next
    case False
    have "takeWhile (\<lambda>c. c \<noteq> CHR ''.'') (ip @ CHR ''.'' # fp) = ip"
      "dropWhile (\<lambda>c. c \<noteq> CHR ''.'') (ip @ CHR ''.'' # fp) = CHR ''.'' # fp"
      using ni by (simp_all add: takeWhile_append2 dropWhile_append2)
    moreover have "CHR ''.'' \<notin> set fp" using nf by blast
    ultimately show ?thesis using False assms(2)
      by (simp add: split_dot_def dotted_def list_ex_iff Let_def)
  qed
qed

lemma BigSetString_signed:
  assumes "all_digits s" "s \<noteq> []" "digits_acc 0 s = Some n"
  shows "BigSetString s = Some (int n)" "BigSetString (CHR ''-'' # s) = Some (- int n)"
proof -
  have "is_digit (hd s)" using assms by (simp add: all_digits_def)
  then have "hd s \<noteq> CHR ''-'' \<and> hd s \<noteq> CHR ''+''" using digit_not_sign by blast
  with assms show "BigSetString s = Some (int n)" "BigSetString (CHR ''-'' # s) = Some (- int n)"
    by (simp_all add: BigSetString_def Let_def)
qed

lemma TrimSpace_numeral:
  assumes "all_digits ip" "ip \<noteq> []" "all_digits fp" "pre = [] \<or> pre = ''-''"
  shows "TrimSpace (pre @ ip @ dotted fp) = pre @ ip @ dotted fp"
proof (rule TrimSpace_id, rule disjI2, rule conjI)
  have dash: "CHR ''-'' \<notin> space_bytes"
    by (simp add: space_bytes_def space_encodings_def ascii_spaces_def)
  have "is_digit (hd ip)" using assms by (simp add: all_digits_def)
  then have hd: "hd ip \<notin> space_bytes" by (rule digit_not_space)
  show "hd (pre @ ip @ dotted fp) \<notin> space_bytes"
  proof (cases "pre = []")
    case True
    with hd assms(2) show ?thesis by simp
  next
    case False
    with dash assms(4) show ?thesis by simp
  qed
  have "last (ip @ fp) \<in> set (ip @ fp)" using assms(2) by (intro last_in_set) simp
  then have "is_digit (last (ip @ fp))" using assms(1,3) unfolding all_digits_def set_append by blast
  moreover have "last (pre @ ip @ dotted fp) = last (ip @ fp)"
    using assms(2) by (auto simp: dotted_def last_append)
  ultimately show "last (pre @ ip @ dotted fp) \<notin> space_bytes"
    using digit_not_space by simp
qed

text \<open>A plain numeral is read as its digits say.\<close>

lemma ParseDecimal_plain:
  assumes ip: "all_digits ip" "ip \<noteq> []" and fp: "all_digits fp"
    and len: "length ip + length fp \<le> 1000" and n: "digits_acc 0 (ip @ fp) = Some n"
  shows "ParseDecimal (ip @ dotted fp) = Inr (normalize \<lparr>dval = Some (int n), dscale = int (length fp)\<rparr>)"
    "ParseDecimal (CHR ''-'' # ip @ dotted fp) =
      Inr (normalize \<lparr>dval = Some (- int n), dscale = int (length fp)\<rparr>)"
proof -
  let ?s = "ip @ dotted fp"
  have trim: "TrimSpace ?s = ?s" "TrimSpace (CHR ''-'' # ?s) = CHR ''-'' # ?s"
    using TrimSpace_numeral[OF ip fp, of "[]"] TrimSpace_numeral[OF ip fp, of "''-''"] by auto
  have hd: "hd ?s \<noteq> CHR ''-''" "hd ?s \<noteq> CHR ''+''" "?s \<noteq> []"
    using ip digit_not_sign[of "hd ip"] by (auto simp: all_digits_def)
  have "\<forall>c\<in>set ?s. \<not> is_exp_char c"
    using ip(1) fp by (auto simp: all_digits_def dotted_def is_exp_char_def dest: digit_not_exp)
  then have ex: "split_exponent ?s = Some (?s, 0)"
    using hd(3) by (intro split_exponent_plain)
  have dot: "split_dot ?s = Some (ip, fp)" by (rule split_dot_plain[OF ip fp])
  have big: "BigSetString (ip @ fp) = Some (int n)" "BigSetString (CHR ''-'' # ip @ fp) = Some (- int n)"
    using BigSetString_signed[of "ip @ fp" n] ip fp n by auto
  have "int (length fp) \<le> 1000" using len by simp
  then show "ParseDecimal ?s = Inr (normalize \<lparr>dval = Some (int n), dscale = int (length fp)\<rparr>)"
    "ParseDecimal (CHR ''-'' # ?s) = Inr (normalize \<lparr>dval = Some (- int n), dscale = int (length fp)\<rparr>)"
    using len trim hd ex dot big
    by (simp_all add: ParseDecimal_def Let_def parse_unscaled_def maxDecimalDigits_def max_int32_def
        del: append_is_Nil_conv hd_append2)
qed

section \<open>Printing, then parsing\<close>

lemma normalize_id: "normalized d \<Longrightarrow> normalize d = d"
proof -
  assume n: "normalized d"
  then obtain v where v: "dval d = Some v" by (auto simp: normalized_def)
  have "strip_zeros (mant d) (dscale d) = (mant d, dscale d)"
    using n by (auto simp: strip_zeros.simps[of "mant d"] smod_10_iff normalized_def)
  with n v show ?thesis
    by (cases d) (auto simp: normalize_def Let_def normalized_def Zero_def mant_def)
qed

text \<open>The limits of the parser on the printed form: at most 1000 digits in all.\<close>

definition printable :: "decimal \<Rightarrow> bool" where
  "printable d \<longleftrightarrow> normalized d \<and> 0 \<le> dscale d \<and> dscale d < 1000 \<and>
     length (nat_str (nat \<bar>mant d\<bar>)) \<le> 1000"

lemma DecimalString_nonzero:
  assumes "dval d = Some v" "mant d \<noteq> 0"
  shows "DecimalString d = (if mant d < 0 then ''-'' else '''') @
    (let raw = nat_str (nat \<bar>mant d\<bar>); n = length raw
     in if dscale d \<le> 0 then raw @ replicate (nat (- dscale d)) (CHR ''0'')
        else if int n \<le> dscale d then ''0.'' @ replicate (nat (dscale d) - n) (CHR ''0'') @ raw
        else take (n - nat (dscale d)) raw @ ''.'' @ drop (n - nat (dscale d)) raw)"
proof -
  have "is_digit (hd (nat_str n))" for n by (rule nat_str_digits[OF hd_in_set]) simp
  then have "hd (nat_str n) \<noteq> CHR ''-''" for n using digit_not_sign by blast
  then show ?thesis
    using assms by (cases "mant d < 0") (simp_all add: DecimalString_def FormatInt_def Let_def)
qed

lemma DecimalString_shape:
  assumes "normalized d" "0 \<le> dscale d" "mant d \<noteq> 0"
  obtains ip fp where "all_digits ip" "ip \<noteq> []" "all_digits fp" "int (length fp) = dscale d"
    "digits_acc 0 (ip @ fp) = Some (nat \<bar>mant d\<bar>)"
    "length ip + length fp \<le> max (length (nat_str (nat \<bar>mant d\<bar>))) (nat (dscale d) + 1)"
    "DecimalString d = (if mant d < 0 then ''-'' else '''') @ ip @ dotted fp"
proof -
  let ?raw = "nat_str (nat \<bar>mant d\<bar>)" and ?k = "nat (dscale d)"
  let ?pre = "if mant d < 0 then ''-'' else ''''"
  obtain v where init: "dval d = Some v" using assms(1) by (auto simp: normalized_def)
  note str = DecimalString_nonzero[OF init assms(3)]
  consider "?k = 0" | "0 < ?k" "length ?raw \<le> ?k" | "0 < ?k" "?k < length ?raw" by linarith
  then show ?thesis
  proof cases
    case 1
    then have "DecimalString d = ?pre @ ?raw @ dotted []"
      using assms(2) by (simp add: str dotted_def Let_def)
    with that[of ?raw "[]"] 1 assms(2) show ?thesis
      by (simp add: digits_acc_nat_str) (simp add: all_digits_def)
  next
    case 2
    let ?fp = "replicate (?k - length ?raw) (CHR ''0'') @ ?raw"
    have "DecimalString d = ?pre @ ''0'' @ dotted ?fp"
      using 2 assms(2) by (simp add: str dotted_def Let_def le_nat_iff)
    moreover have "digits_acc 0 (''0'' @ ?fp) = Some (nat \<bar>mant d\<bar>)"
      using digits_acc_zeros[of "Suc (?k - length ?raw)" ?raw] by (simp add: digits_acc_nat_str)
    moreover have "all_digits ''0''" by (simp add: all_digits_def is_digit_def)
    ultimately show ?thesis using that[of "''0''" ?fp] 2 by simp
  next
    case 3
    let ?i = "length ?raw - ?k"
    have "drop ?i ?raw \<noteq> []" "\<not> int (length ?raw) \<le> dscale d" using 3 by auto
    then have "DecimalString d = ?pre @ take ?i ?raw @ dotted (drop ?i ?raw)"
      using 3 assms(2) by (simp add: str dotted_def Let_def)
    moreover have "all_digits (take ?i ?raw)" "all_digits (drop ?i ?raw)"
      using all_digits_take_drop[of ?raw ?i] by simp_all
    ultimately show ?thesis using that[of "take ?i ?raw" "drop ?i ?raw"] 3
      by (simp add: digits_acc_nat_str)
  qed
qed

lemma ParseDecimal_String:
  assumes "printable d"
  shows "ParseDecimal (DecimalString d) = Inr d"
proof (cases "mant d = 0")
  case True
  with assms have "d = Zero"
    by (cases d) (auto simp: printable_def normalized_def Zero_def mant_def)
  moreover have "ParseDecimal ''0'' = Inr (normalize \<lparr>dval = Some 0, dscale = 0\<rparr>)"
    using ParseDecimal_plain(1)[of "''0''" "[]" 0]
    by (simp add: all_digits_def is_digit_def digit_val_def dotted_def)
  ultimately show ?thesis
    by (simp add: DecimalString_def Zero_def normalize_def Let_def)
next
  case False
  have n: "normalized d" "0 \<le> dscale d" and init: "dval d \<noteq> None"
    using assms by (auto simp: printable_def normalized_def)
  obtain ip fp where ipfp: "all_digits ip" "ip \<noteq> []" "all_digits fp" "int (length fp) = dscale d"
    "digits_acc 0 (ip @ fp) = Some (nat \<bar>mant d\<bar>)"
    "length ip + length fp \<le> max (length (nat_str (nat \<bar>mant d\<bar>))) (nat (dscale d) + 1)"
    "DecimalString d = (if mant d < 0 then ''-'' else '''') @ ip @ dotted fp"
    using DecimalString_shape[OF n False] by blast
  have len: "length ip + length fp \<le> 1000"
    using ipfp(6) assms by (auto simp: printable_def)
  have d: "d = \<lparr>dval = Some (mant d), dscale = dscale d\<rparr>"
    using init by (cases d) (auto simp: mant_def)
  show ?thesis
    using ParseDecimal_plain[OF ipfp(1,2,3) len ipfp(5)] ipfp(4,7) d normalize_id[OF n(1)]
    by (cases "mant d < 0") auto
qed

text \<open>What it takes to evaluate the parser on a closed string.\<close>

lemmas parse_eval = ParseDecimal_def TrimSpace_def trim_with.simps space_encodings_def
  ascii_spaces_def has_prefix_def Let_def split_exponent_def split_dot_def parse_unscaled_def
  maxDecimalDigits_def max_int32_def BigSetString_def is_digit_def digit_val_def
  normalize_def is_exp_char_def ParseInt_def ParseUint64_def strip_zeros.simps
  signed_modulo_int_def signed_divide_int_def

section \<open>Properties of decimals\<close>

text \<open>C28: Addition, subtraction, multiplication and comparison of decimals are exact: each
  result has the value of the operation on the rationals the operands denote.\<close>

theorem decimal_arith_exact:
  assumes "scale_ok d" "scale_ok e"
  shows "rv (Add d e) = rv d + rv e \<and> rv (Sub d e) = rv d - rv e \<and> rv (Mul d e) = rv d * rv e \<and>
    Cmp d e = int_cmp (rv d) (rv e)"
  using assms by (simp add: Add_rv Sub_rv Mul_rv Cmp_rv)

theorem decimal_arith_exact_witness:
  "rv (Add \<lparr>dval = Some 15, dscale = 1\<rparr> \<lparr>dval = Some 25, dscale = 2\<rparr>) = 7 / 4"
  using decimal_arith_exact[of "\<lparr>dval = Some 15, dscale = 1\<rparr>" "\<lparr>dval = Some 25, dscale = 2\<rparr>"]
  by (simp add: scale_ok_def rv_def power_int_minus)

text \<open>Within the documented limits a division returns a quotient at the requested precision
  that is the exact quotient truncated toward zero: it never exceeds it in magnitude and misses
  it by less than one unit of the last place.\<close>

theorem div_truncates:
  assumes "rv e \<noteq> 0" "div_prec precision = p" "0 \<le> p" "p \<le> 1000" "div_in_range d e p"
  shows "\<exists>q. Div d e precision = Inr q \<and> scale_within p q \<and> \<bar>rv q\<bar> \<le> \<bar>rv d / rv e\<bar> \<and>
    \<bar>rv d / rv e - rv q\<bar> < 10 powi (- p)"
proof -
  let ?x = "rv d / rv e" and ?u = "(10::rat) powi p"
  obtain q where q: "Div d e precision = Inr q" "scale_within p q"
    "rv q = of_int (truncq (?x * ?u)) * 10 powi (- p)"
    using Div_value[OF assms] by blast
  have u: "0 < ?u" by simp
  have x: "?x = (?x * ?u) * 10 powi (- p)" by (simp add: power_int_minus)
  have "\<bar>rv q\<bar> = \<bar>of_int (truncq (?x * ?u))\<bar> * 10 powi (- p)"
    by (simp add: q(3) abs_mult)
  also have "\<dots> \<le> \<bar>?x * ?u\<bar> * 10 powi (- p)"
    by (intro mult_right_mono truncq_bounds) simp
  also have "\<dots> = \<bar>?x\<bar>" by (subst (2) x) (simp add: abs_mult)
  finally have le: "\<bar>rv q\<bar> \<le> \<bar>?x\<bar>" .
  have "?x - rv q = (?x * ?u - of_int (truncq (?x * ?u))) * 10 powi (- p)"
    by (subst x) (simp add: q(3) left_diff_distrib)
  then have "\<bar>?x - rv q\<bar> = \<bar>?x * ?u - of_int (truncq (?x * ?u))\<bar> * 10 powi (- p)"
    by (simp add: abs_mult)
  also have "\<dots> < 1 * 10 powi (- p)"
    by (intro mult_strict_right_mono truncq_bounds) simp
  finally show ?thesis using q le by auto
qed

theorem div_truncates_witness:
  "\<exists>q. Div one_decimal \<lparr>dval = Some 3, dscale = 0\<rparr> None = Inr q \<and> \<bar>1 / 3 - rv q\<bar> < 10 powi (- 8)"
  using div_truncates[of "\<lparr>dval = Some 3, dscale = 0\<rparr>" None 8 one_decimal]
  by (simp add: div_prec_def div_in_range_def one_decimal_def rv_def) blast

text \<open>Rounding to a positive tick returns a multiple of the tick that is not above the
  input and less than one tick below it, for negative inputs too.\<close>

theorem round_to_tick_floor:
  assumes "IsPositive t" "dval d \<noteq> None" "div_in_range d t 0"
  shows "(\<exists>k::int. rv (RoundToTick d t) = of_int k * rv t) \<and>
    rv (RoundToTick d t) \<le> rv d \<and> rv d < rv (RoundToTick d t) + rv t"
proof -
  have t: "0 < rv t" using assms(1) by (simp add: IsPositive_iff)
  have eq: "rv (RoundToTick d t) = of_int \<lfloor>rv d / rv t\<rfloor> * rv t"
    by (rule RoundToTick_floor[OF assms])
  have "of_int \<lfloor>rv d / rv t\<rfloor> \<le> rv d / rv t" "rv d / rv t < of_int \<lfloor>rv d / rv t\<rfloor> + 1"
    by linarith+
  then have "of_int \<lfloor>rv d / rv t\<rfloor> * rv t \<le> rv d" "rv d < (of_int \<lfloor>rv d / rv t\<rfloor> + 1) * rv t"
    using pos_le_divide_eq[OF t] pos_divide_less_eq[OF t] by blast+
  with eq show ?thesis by (auto simp: algebra_simps)
qed

theorem round_to_tick_floor_witness:
  "rv (RoundToTick \<lparr>dval = Some (- 1237), dscale = 2\<rparr> \<lparr>dval = Some 5, dscale = 2\<rparr>) \<le> - 1237 / 100"
  using round_to_tick_floor[of "\<lparr>dval = Some 5, dscale = 2\<rparr>" "\<lparr>dval = Some (- 1237), dscale = 2\<rparr>"]
  by (simp add: IsPositive_def div_in_range_def ensureInit_def rv_def power_int_minus)

text \<open>C29: Printing and parsing are inverse: the text of a normalised decimal within the parser's
  limits parses back to the same decimal, through \<open>String\<close> and through the text marshaller.\<close>

theorem parse_print_roundtrip:
  assumes "printable d"
  shows "ParseDecimal (DecimalString d) = Inr d \<and> UnmarshalText (MarshalText d) = Inr d"
proof -
  have p: "ParseDecimal (DecimalString d) = Inr d" using assms by (rule ParseDecimal_String)
  have "ParseDecimal [] \<noteq> Inr d" "ParseDecimal ''null'' \<noteq> Inr d"
    by (simp_all add: parse_eval)
  with p have "DecimalString d \<noteq> []" "DecimalString d \<noteq> ''null''" by metis+
  with p show ?thesis by (simp add: UnmarshalText_def MarshalText_def)
qed

theorem parse_print_roundtrip_witness:
  "ParseDecimal (DecimalString \<lparr>dval = Some (- 105), dscale = 3\<rparr>) = Inr \<lparr>dval = Some (- 105), dscale = 3\<rparr>"
  using parse_print_roundtrip[of "\<lparr>dval = Some (- 105), dscale = 3\<rparr>"]
  by (simp add: printable_def normalized_def nat_str.simps)

text \<open>Parsing keeps one representation per value: two texts that parse to decimals of equal
  value parse to the same decimal, so comparing decimals and comparing their printed forms agree.\<close>

theorem parse_canonical:
  assumes "ParseDecimal s = Inr d" "ParseDecimal t = Inr e"
  shows "(Equal d e \<longleftrightarrow> d = e) \<and> normalized d \<and> scale_within 1000 d"
proof -
  have n: "normalized d" "normalized e" "scale_within 1000 d" "scale_within 1000 e"
    using assms ParseDecimal_Inr by blast+
  have ok: "scale_ok d" "scale_ok e" using assms ParseDecimal_scale_ok by blast+
  have "rv d = rv e \<Longrightarrow> d = e"
    by (rule normalized_unique) (use n in \<open>auto simp: scale_within_def\<close>)
  with n show ?thesis by (auto simp: Equal_def Cmp_rv[OF ok])
qed

theorem parse_canonical_witness:
  "Equal \<lparr>dval = Some 15, dscale = 1\<rparr> \<lparr>dval = Some 15, dscale = 1\<rparr>"
proof -
  have "ParseDecimal ''1.50'' = Inr \<lparr>dval = Some 15, dscale = 1\<rparr>" "ParseDecimal ''15e-1'' = Inr \<lparr>dval = Some 15, dscale = 1\<rparr>"
    by (simp_all add: parse_eval)
  from parse_canonical[OF this] show ?thesis by simp
qed

text \<open>A plain numeral (digits, an optional point and fraction, an optional minus sign) of at
  most 1000 digits parses to the decimal whose value its digits denote.\<close>

theorem parse_numeral_value:
  assumes "all_digits ip" "ip \<noteq> []" "all_digits fp" "length ip + length fp \<le> 1000"
    "digits_acc 0 (ip @ fp) = Some n"
  shows "\<exists>d e. ParseDecimal (ip @ dotted fp) = Inr d \<and> ParseDecimal (CHR ''-'' # ip @ dotted fp) = Inr e \<and>
    rv d = of_nat n / 10 ^ length fp \<and> rv e = - of_nat n / 10 ^ length fp"
  using ParseDecimal_plain[OF assms]
  by (auto simp: rv_normalize) (auto simp: rv_def power_int_minus divide_inverse)

theorem parse_numeral_value_witness:
  "\<exists>d. ParseDecimal (''12'' @ dotted ''5'') = Inr d \<and> rv d = 125 / 10"
  using parse_numeral_value[of "''12''" "''5''" 125]
  by (auto simp: all_digits_def is_digit_def digit_val_def)

text \<open>The parser accepts two signs when the first is a plus: the text is read with the second
  sign, so \<open>+-5\<close> is minus five and \<open>++5\<close> is five, while \<open>-+5\<close> and \<open>--5\<close> are rejected.\<close>

theorem parse_double_sign:
  "ParseDecimal ''+-5'' = Inr \<lparr>dval = Some (- 5), dscale = 0\<rparr> \<and>
   ParseDecimal ''++5'' = Inr \<lparr>dval = Some 5, dscale = 0\<rparr> \<and>
   ParseDecimal ''-+5'' = Inl ErrInvalidDecimal \<and> ParseDecimal ''--5'' = Inl ErrInvalidDecimal"
  by (simp add: parse_eval)

end
