(* ===== verification/Json.thy ===== *)
theory Json
  imports GoStrings
begin

text \<open>
  The part of \<open>encoding/json\<close> the SDK relies on: the grammar as a recursive-descent parser on
  byte strings, the decoding of string literals with their escapes, the field lookup of struct
  decoding and the encoder for strings. The parser's fuel is twice the input's length plus two:
  every nested call consumes a byte, so it is never the reason for a failure. Bytes from 128 on are passed through (the input is
  taken to be valid UTF-8), and the nesting limit of 10000 is not modelled.
\<close>

datatype json =
    JNull
  | JBool bool
  | JNum string
  | JStr string
  | JArr "json list"
  | JObj "(string \<times> json) list"

section \<open>Lexical elements\<close>

definition json_space :: "char \<Rightarrow> bool" where
  "json_space c \<longleftrightarrow> c \<in> {CHR 0x20, CHR 0x09, CHR 0x0A, CHR 0x0D}"

definition skip_ws :: "string \<Rightarrow> string" where
  "skip_ws s = dropWhile json_space s"

definition hex_val :: "char \<Rightarrow> nat option" where
  "hex_val c =
     (let n = of_char c :: nat
      in if 48 \<le> n \<and> n \<le> 57 then Some (n - 48)
         else if 97 \<le> n \<and> n \<le> 102 then Some (n - 87)
         else if 65 \<le> n \<and> n \<le> 70 then Some (n - 55) else None)"

fun hex4 :: "string \<Rightarrow> (nat \<times> string) option" where
  "hex4 (a # b # c # d # s) =
     (case (hex_val a, hex_val b, hex_val c, hex_val d) of
        (Some w, Some x, Some y, Some z) \<Rightarrow> Some (((w * 16 + x) * 16 + y) * 16 + z, s)
      | _ \<Rightarrow> None)"
| "hex4 _ = None"

definition utf8 :: "nat \<Rightarrow> string" where
  "utf8 n =
     (if n < 128 then [char_of n]
      else if n < 2048 then [char_of (192 + n div 64), char_of (128 + n mod 64)]
      else if n < 65536 then
        [char_of (224 + n div 4096), char_of (128 + n div 64 mod 64), char_of (128 + n mod 64)]
      else [char_of (240 + n div 262144), char_of (128 + n div 4096 mod 64),
            char_of (128 + n div 64 mod 64), char_of (128 + n mod 64)])"

definition simple_escape :: "char \<Rightarrow> string option" where
  "simple_escape c =
     map_of [(CHR 0x22, [CHR 0x22]), (CHR 0x5C, [CHR 0x5C]), (CHR ''/'', ''/''),
             (CHR ''b'', [CHR 0x08]), (CHR ''f'', [CHR 0x0C]), (CHR ''n'', [CHR 0x0A]),
             (CHR ''r'', [CHR 0x0D]), (CHR ''t'', [CHR 0x09])] c"

text \<open>A \<open>u\<close>-escape: a surrogate pair is one code point, a lone surrogate is U+FFFD.\<close>

definition unicode_escape :: "nat \<Rightarrow> string \<Rightarrow> string \<times> string" where
  "unicode_escape n rest =
     (if 55296 \<le> n \<and> n < 57344 then
        (case rest of
           CHR 0x5C # CHR ''u'' # rest' \<Rightarrow>
             (case hex4 rest' of
                Some (m, rest'') \<Rightarrow>
                  if n < 56320 \<and> 56320 \<le> m \<and> m < 57344
                  then (utf8 (65536 + (n - 55296) * 1024 + (m - 56320)), rest'')
                  else (utf8 65533, rest)
              | None \<Rightarrow> (utf8 65533, rest))
         | _ \<Rightarrow> (utf8 65533, rest))
      else (utf8 n, rest))"

text \<open>The characters of a string literal after its opening quote; the fuel is its length.\<close>

fun parse_chars :: "nat \<Rightarrow> string \<Rightarrow> (string \<times> string) option" where
  "parse_chars 0 s = None"
| "parse_chars (Suc n) [] = None"
| "parse_chars (Suc n) (c # s) =
     (if c = CHR 0x22 then Some ([], s)
      else if c = CHR 0x5C then
        (case s of
           [] \<Rightarrow> None
         | e # s' \<Rightarrow>
             if e = CHR ''u'' then
               (case hex4 s' of
                  None \<Rightarrow> None
                | Some (u, s'') \<Rightarrow>
                    (let (bytes, rest) = unicode_escape u s''
                     in map_option (\<lambda>(str, r). (bytes @ str, r)) (parse_chars n rest)))
             else (case simple_escape e of
                     None \<Rightarrow> None
                   | Some bytes \<Rightarrow> map_option (\<lambda>(str, r). (bytes @ str, r)) (parse_chars n s')))
      else if of_char c < (32::nat) then None
      else map_option (\<lambda>(str, r). (c # str, r)) (parse_chars n s))"

definition span_digits :: "string \<Rightarrow> string \<times> string" where
  "span_digits s = (takeWhile is_digit s, dropWhile is_digit s)"

text \<open>The exact text of a number literal.\<close>

definition parse_number :: "string \<Rightarrow> (string \<times> string) option" where
  "parse_number s =
     (let (sign, s1) = (case s of CHR ''-'' # r \<Rightarrow> (''-'', r) | _ \<Rightarrow> ([], s));
          (ip, s2) = span_digits s1
      in if ip = [] then None
         else
           let (ip, s2) = (if hd ip = CHR ''0'' then (''0'', drop 1 s1) else (ip, s2));
               (fp, s3) = (case s2 of
                  CHR ''.'' # r \<Rightarrow> (let (d, r') = span_digits r in (if d = [] then None else Some (CHR ''.'' # d), r'))
                | _ \<Rightarrow> (Some [], s2))
           in case fp of
             None \<Rightarrow> None
           | Some f \<Rightarrow>
               (case s3 of
                  c # r \<Rightarrow>
                    if c = CHR ''e'' \<or> c = CHR ''E'' then
                      (let (es, r1) = (case r of
                              CHR ''+'' # r' \<Rightarrow> (''+'', r') | CHR ''-'' # r' \<Rightarrow> (''-'', r') | _ \<Rightarrow> ([], r));
                           (d, r2) = span_digits r1
                       in if d = [] then None else Some (sign @ ip @ f @ [c] @ es @ d, r2))
                    else Some (sign @ ip @ f, s3)
                | [] \<Rightarrow> Some (sign @ ip @ f, s3)))"

section \<open>Values\<close>

fun parse_json_value :: "nat \<Rightarrow> string \<Rightarrow> (json \<times> string) option"
  and parse_json_elems :: "nat \<Rightarrow> string \<Rightarrow> (json list \<times> string) option"
  and parse_json_members :: "nat \<Rightarrow> string \<Rightarrow> ((string \<times> json) list \<times> string) option" where
  "parse_json_value 0 s = None"
| "parse_json_value (Suc n) s =
     (case skip_ws s of
        [] \<Rightarrow> None
      | c # cs \<Rightarrow>
          if c = CHR 0x22 then map_option (\<lambda>(v, r). (JStr v, r)) (parse_chars (Suc (length cs)) cs)
          else if c = CHR 0x7B then
            (case skip_ws cs of
               CHR 0x7D # r \<Rightarrow> Some (JObj [], r)
             | _ \<Rightarrow> map_option (\<lambda>(ms, r). (JObj ms, r)) (parse_json_members n cs))
          else if c = CHR 0x5B then
            (case skip_ws cs of
               CHR 0x5D # r \<Rightarrow> Some (JArr [], r)
             | _ \<Rightarrow> map_option (\<lambda>(vs, r). (JArr vs, r)) (parse_json_elems n cs))
          else if take 4 (c # cs) = ''true'' then Some (JBool True, drop 4 (c # cs))
          else if take 5 (c # cs) = ''false'' then Some (JBool False, drop 5 (c # cs))
          else if take 4 (c # cs) = ''null'' then Some (JNull, drop 4 (c # cs))
          else map_option (\<lambda>(t, r). (JNum t, r)) (parse_number (c # cs)))"
| "parse_json_elems 0 s = None"
| "parse_json_elems (Suc n) s =
     (case parse_json_value n s of
        None \<Rightarrow> None
      | Some (v, r) \<Rightarrow>
          (case skip_ws r of
             CHR '','' # r' \<Rightarrow> map_option (\<lambda>(vs, r''). (v # vs, r'')) (parse_json_elems n r')
           | CHR 0x5D # r' \<Rightarrow> Some ([v], r')
           | _ \<Rightarrow> None))"
| "parse_json_members 0 s = None"
| "parse_json_members (Suc n) s =
     (case skip_ws s of
        CHR 0x22 # cs \<Rightarrow>
          (case parse_chars (Suc (length cs)) cs of
             None \<Rightarrow> None
           | Some (k, r) \<Rightarrow>
               (case skip_ws r of
                  CHR '':'' # r1 \<Rightarrow>
                    (case parse_json_value n r1 of
                       None \<Rightarrow> None
                     | Some (v, r2) \<Rightarrow>
                         (case skip_ws r2 of
                            CHR '','' # r3 \<Rightarrow>
                              map_option (\<lambda>(ms, r4). ((k, v) # ms, r4)) (parse_json_members n r3)
                          | CHR 0x7D # r3 \<Rightarrow> Some ([(k, v)], r3)
                          | _ \<Rightarrow> None))
                | _ \<Rightarrow> None))
      | _ \<Rightarrow> None)"

definition parse_json :: "string \<Rightarrow> json option" where
  "parse_json s =
     (case parse_json_value (2 * length s + 2) s of
        None \<Rightarrow> None
      | Some (v, rest) \<Rightarrow> if skip_ws rest = [] then Some v else None)"

text \<open>A struct field takes a member whose name equals its tag, or equals it up to case.\<close>

definition field_matches :: "string \<Rightarrow> string \<Rightarrow> bool" where
  "field_matches name key \<longleftrightarrow> EqualFold name key"

end
