(* ===== verification/DecimalJson.thy ===== *)
theory DecimalJson
  imports DecimalText Json
begin

text \<open>The JSON decoding of decimals in \<open>types/decimal.go\<close>, and its round trip with the encoder.\<close>

definition UnmarshalJSON :: "string \<Rightarrow> dec_error + decimal" where
  "UnmarshalJSON raw =
     (let b = TrimSpace raw
      in if b = ''null'' then Inr Zero
         else
           let value =
             (if b \<noteq> [] \<and> hd b = CHR 0x22
              then (case parse_json b of Some (JStr s) \<Rightarrow> Some s | _ \<Rightarrow> None)
              else (case parse_json b of Some (JNum t) \<Rightarrow> Some t | _ \<Rightarrow> None))
           in case value of
                None \<Rightarrow> Inl ErrInvalidDecimal
              | Some v \<Rightarrow> ParseDecimal v)"

definition UnmarshalJSON_number :: "string \<Rightarrow> dec_error + decimal_number" where
  "UnmarshalJSON_number raw =
     (case UnmarshalJSON raw of Inl err \<Rightarrow> Inl err | Inr d \<Rightarrow> Inr (DecimalNumber d))"

definition plain_char :: "char \<Rightarrow> bool" where
  "plain_char c \<longleftrightarrow> c \<noteq> CHR 0x22 \<and> c \<noteq> CHR 0x5C \<and> 32 \<le> (of_char c :: nat)"

lemma parse_chars_plain:
  "\<forall>c\<in>set s. plain_char c \<Longrightarrow> length s < n \<Longrightarrow> parse_chars n (s @ CHR 0x22 # r) = Some (s, r)"
proof (induction s arbitrary: n)
  case (Cons c s)
  then show ?case by (cases n) (auto simp: plain_char_def)
next
  case Nil
  then show ?case by (cases n) auto
qed

lemma parse_json_string:
  assumes "\<forall>c\<in>set s. plain_char c"
  shows "parse_json (CHR 0x22 # s @ [CHR 0x22]) = Some (JStr s)"
proof -
  have "parse_chars (Suc (Suc (length s))) (s @ [CHR 0x22]) = Some (s, [])"
    using assms by (intro parse_chars_plain) auto
  then show ?thesis
    by (simp add: parse_json_def skip_ws_def json_space_def)
qed

lemma DecimalString_plain:
  assumes "printable d"
  shows "\<forall>c\<in>set (DecimalString d). plain_char c"
proof -
  have dig: "plain_char c" if "is_digit c" for c
    using that by (auto simp: plain_char_def is_digit_def)
  show ?thesis
  proof (cases "mant d = 0")
    case True
    then show ?thesis by (simp add: DecimalString_def plain_char_def)
  next
    case False
    then obtain ip fp where "all_digits ip" "all_digits fp"
      "DecimalString d = (if mant d < 0 then ''-'' else '''') @ ip @ dotted fp"
      using assms by (auto simp: printable_def elim: DecimalString_shape)
    then show ?thesis using dig
      by (auto simp: all_digits_def dotted_def plain_char_def split: if_splits)
  qed
qed

text \<open>Decimals survive JSON: decoding the encoded form of a printable decimal gives the same
  decimal back.\<close>

theorem json_decimal_roundtrip:
  assumes "printable d"
  shows "UnmarshalJSON (MarshalJSON d) = Inr d"
proof -
  have q: "CHR 0x22 \<notin> space_bytes" by (simp add: space_bytes_def space_encodings_def ascii_spaces_def)
  have "TrimSpace (MarshalJSON d) = MarshalJSON d"
    by (rule TrimSpace_id) (simp_all add: MarshalJSON_def q)
  moreover have "parse_json (MarshalJSON d) = Some (JStr (DecimalString d))"
    unfolding MarshalJSON_def by (rule parse_json_string[OF DecimalString_plain[OF assms]])
  ultimately show ?thesis using ParseDecimal_String[OF assms]
    by (simp add: UnmarshalJSON_def Let_def) (simp add: MarshalJSON_def)
qed

theorem json_decimal_roundtrip_witness:
  "UnmarshalJSON (MarshalJSON \<lparr>dval = Some (- 105), dscale = 3\<rparr>) = Inr \<lparr>dval = Some (- 105), dscale = 3\<rparr>"
  using json_decimal_roundtrip[of "\<lparr>dval = Some (- 105), dscale = 3\<rparr>"]
  by (simp add: printable_def normalized_def nat_str.simps mant_def)

end
