(* ===== verification/Float64.thy ===== *)
theory Float64
  imports DecimalText
begin

text \<open>
  Go's \<open>float64\<close> as the SDK uses it: a finite value is the rational it denotes, so every
  operation is the exact one followed by rounding to the nearest representable value, ties to
  even (IEEE 754 binary64). The sign of a zero is not kept: the SDK never divides by a zero and
  never prints one. Also the conversions of \<open>strconv\<close> and the float methods of
  \<open>types/decimal.go\<close>.
\<close>

section \<open>Values and rounding\<close>

datatype f64 = NaN | Inf bool | Fin rat

text \<open>\<open>Inf True\<close> is minus infinity. The exponent of a positive rational:
  \<open>2 powi flog2 x \<le> x < 2 powi (flog2 x + 1)\<close>.\<close>

function int_bits :: "int \<Rightarrow> int" where
  "int_bits n = (if n \<le> 0 then 0 else int_bits (n div 2) + 1)"
  by pat_completeness auto
termination
  by (relation "measure nat") auto

declare int_bits.simps [simp del]

definition flog2 :: "rat \<Rightarrow> int" where
  "flog2 x =
     (let (p, q) = quotient_of x; k = int_bits p - int_bits q
      in if x < 2 powi k then k - 1 else k)"

definition round_half_even :: "rat \<Rightarrow> int" where
  "round_half_even x =
     (let f = \<lfloor>x\<rfloor>; r = x - of_int f
      in if r < 1 / 2 then f else if 1 / 2 < r then f + 1 else if even f then f else f + 1)"

definition f64_round :: "rat \<Rightarrow> f64" where
  "f64_round x =
     (if x = 0 then Fin 0
      else
        let e = max (flog2 \<bar>x\<bar> - 52) (- 1074);
            r = of_int (round_half_even (x / 2 powi e)) * 2 powi e
        in if 2 ^ 1024 \<le> \<bar>r\<bar> then Inf (x < 0) else Fin r)"

section \<open>Arithmetic and comparisons\<close>

definition f_neg :: "f64 \<Rightarrow> f64" where
  "f_neg a = (case a of NaN \<Rightarrow> NaN | Inf s \<Rightarrow> Inf (\<not> s) | Fin x \<Rightarrow> Fin (- x))"

definition f_abs :: "f64 \<Rightarrow> f64" where
  "f_abs a = (case a of NaN \<Rightarrow> NaN | Inf s \<Rightarrow> Inf False | Fin x \<Rightarrow> Fin \<bar>x\<bar>)"

fun f_add :: "f64 \<Rightarrow> f64 \<Rightarrow> f64" where
  "f_add (Fin x) (Fin y) = f64_round (x + y)"
| "f_add (Inf s) (Inf t) = (if s = t then Inf s else NaN)"
| "f_add (Inf s) (Fin y) = Inf s"
| "f_add (Fin x) (Inf t) = Inf t"
| "f_add _ _ = NaN"

definition f_sub :: "f64 \<Rightarrow> f64 \<Rightarrow> f64" where
  "f_sub a b = f_add a (f_neg b)"

fun f_mul :: "f64 \<Rightarrow> f64 \<Rightarrow> f64" where
  "f_mul (Fin x) (Fin y) = f64_round (x * y)"
| "f_mul (Inf s) (Inf t) = Inf (s \<noteq> t)"
| "f_mul (Inf s) (Fin y) = (if y = 0 then NaN else Inf (s \<noteq> (y < 0)))"
| "f_mul (Fin x) (Inf t) = (if x = 0 then NaN else Inf (t \<noteq> (x < 0)))"
| "f_mul _ _ = NaN"

fun f_div :: "f64 \<Rightarrow> f64 \<Rightarrow> f64" where
  "f_div (Fin x) (Fin y) =
     (if y = 0 then (if x = 0 then NaN else Inf (x < 0)) else f64_round (x / y))"
| "f_div (Inf s) (Inf t) = NaN"
| "f_div (Inf s) (Fin y) = Inf (s \<noteq> (y < 0))"
| "f_div (Fin x) (Inf t) = Fin 0"
| "f_div _ _ = NaN"

fun f_less :: "f64 \<Rightarrow> f64 \<Rightarrow> bool" where
  "f_less (Fin x) (Fin y) \<longleftrightarrow> x < y"
| "f_less (Inf s) (Inf t) \<longleftrightarrow> s \<and> \<not> t"
| "f_less (Inf s) (Fin y) \<longleftrightarrow> s"
| "f_less (Fin x) (Inf t) \<longleftrightarrow> \<not> t"
| "f_less _ _ \<longleftrightarrow> False"

definition f_eq :: "f64 \<Rightarrow> f64 \<Rightarrow> bool" where
  "f_eq a b \<longleftrightarrow> a \<noteq> NaN \<and> a = b"

definition f_le :: "f64 \<Rightarrow> f64 \<Rightarrow> bool" where
  "f_le a b \<longleftrightarrow> f_less a b \<or> f_eq a b"

definition IsNaN :: "f64 \<Rightarrow> bool" where
  "IsNaN a \<longleftrightarrow> a = NaN"

definition IsInf :: "f64 \<Rightarrow> bool" where
  "IsInf a \<longleftrightarrow> a = Inf True \<or> a = Inf False"

section \<open>Conversions\<close>

datatype float_error = ErrSyntax | ErrRange

text \<open>\<open>strconv.ParseFloat\<close> on the plain decimal strings \<open>Decimal.String\<close> prints.\<close>

definition ParseFloat :: "string \<Rightarrow> float_error + f64" where
  "ParseFloat s =
     (let neg = (s \<noteq> [] \<and> hd s = CHR ''-''); t = (if s \<noteq> [] \<and> hd s = CHR ''-'' then tl s else s)
      in if t = [] then Inl ErrSyntax
         else case split_dot t of
           None \<Rightarrow> Inl ErrSyntax
         | Some (i, f) \<Rightarrow>
             (case digits_acc 0 (i @ f) of
                None \<Rightarrow> Inl ErrSyntax
              | Some n \<Rightarrow>
                  (case f64_round ((if neg then - of_nat n else of_nat n) / 10 ^ length f) of
                     Fin x \<Rightarrow> Inr (Fin x)
                   | _ \<Rightarrow> Inl ErrRange)))"

text \<open>
  \<open>strconv.FormatFloat(f, 'f', -1, 64)\<close>: the fewest significant digits (17 always do) that
  round back to the value, the nearest such numeral, printed without an exponent.
\<close>

definition round_trips :: "rat \<Rightarrow> int \<Rightarrow> int \<Rightarrow> bool" where
  "round_trips x c s \<longleftrightarrow> f64_round (of_int c * 10 powi (- s)) = Fin x"

fun flog10_up :: "nat \<Rightarrow> rat \<Rightarrow> int \<Rightarrow> int" where
  "flog10_up 0 x k = k"
| "flog10_up (Suc n) x k =
     (if 10 powi (k + 1) \<le> x then flog10_up n x (k + 1)
      else if x < 10 powi k then flog10_up n x (k - 1) else k)"

fun shortest_from :: "nat \<Rightarrow> rat \<Rightarrow> int \<Rightarrow> decimal" where
  "shortest_from 0 x s = \<lparr>dval = Some \<lfloor>x * 10 powi s\<rfloor>, dscale = s\<rparr>"
| "shortest_from (Suc n) x s =
     (let lo = \<lfloor>x * 10 powi s\<rfloor>; hi = lo + 1;
          near_lo = (x * 10 powi s - of_int lo \<le> of_int hi - x * 10 powi s);
          c1 = (if near_lo then lo else hi); c2 = (if near_lo then hi else lo)
      in if round_trips x c1 s then \<lparr>dval = Some c1, dscale = s\<rparr>
         else if round_trips x c2 s then \<lparr>dval = Some c2, dscale = s\<rparr>
         else shortest_from n x (s + 1))"

definition shortest_decimal :: "rat \<Rightarrow> decimal" where
  "shortest_decimal x =
     (if x = 0 then Zero
      else
        let d = normalize (shortest_from 17 \<bar>x\<bar> (- (flog10_up 700 \<bar>x\<bar> 0)))
        in if x < 0 then Neg d else d)"

definition FormatFloat :: "f64 \<Rightarrow> string" where
  "FormatFloat a =
     (case a of NaN \<Rightarrow> ''NaN''
      | Inf s \<Rightarrow> if s then ''-Inf'' else ''+Inf''
      | Fin x \<Rightarrow> DecimalString (shortest_decimal x))"

section \<open>The float methods of decimals\<close>

definition Float64Checked :: "decimal \<Rightarrow> float_error + f64" where
  "Float64Checked d =
     (case ParseFloat (DecimalString d) of Inl err \<Rightarrow> Inl err | Inr f \<Rightarrow> Inr f)"

definition Float64 :: "decimal \<Rightarrow> f64" where
  "Float64 d = (case Float64Checked d of Inl _ \<Rightarrow> Fin 0 | Inr f \<Rightarrow> f)"

definition ten_thousand :: decimal where
  "ten_thousand = \<lparr>dval = Some 10000, dscale = 0\<rparr>"

lemma NewDecimal_ten_thousand: "NewDecimal 10000 0 = Some ten_thousand"
  by (simp add: NewDecimal_def NewDecimalChecked_def ten_thousand_def maxDecimalScale_def
      maxDecimalDigits_def)

definition AddBps :: "decimal \<Rightarrow> f64 \<Rightarrow> decimal" where
  "AddBps d bps =
     (if f_eq bps (Fin 0) then d
      else case ParseDecimal (FormatFloat bps) of
        Inl _ \<Rightarrow> d
      | Inr bpsDec \<Rightarrow>
          let prec0 = wrap32 (dscale d + 4); prec = (if prec0 < 8 then 8 else prec0)
          in case Div (Mul d bpsDec) ten_thousand (Some prec) of
               Inl _ \<Rightarrow> d
             | Inr adjustment \<Rightarrow> Add d adjustment)"

definition SubBps :: "decimal \<Rightarrow> f64 \<Rightarrow> decimal" where
  "SubBps d bps = AddBps d (f_neg bps)"

datatype bps_error = BpsDec dec_error | BpsFloat float_error

definition BpsDiffChecked :: "decimal \<Rightarrow> decimal \<Rightarrow> bps_error + f64" where
  "BpsDiffChecked d other =
     (if IsZero other then Inl (BpsDec ErrDivisionByZero)
      else case Div (Sub d other) other (Some 18) of
        Inl e \<Rightarrow> Inl (BpsDec e)
      | Inr diff \<Rightarrow>
          (case Float64Checked (Mul diff ten_thousand) of
             Inl e \<Rightarrow> Inl (BpsFloat e)
           | Inr f \<Rightarrow> Inr f))"

definition BpsDiff :: "decimal \<Rightarrow> decimal \<Rightarrow> f64" where
  "BpsDiff d other = (case BpsDiffChecked d other of Inl _ \<Rightarrow> Fin 0 | Inr f \<Rightarrow> f)"

end
