(* ===== verification/Finance.thy ===== *)
theory Finance
  imports Float64
begin

text \<open>
  The financial formulas of \<open>types/finance.go\<close>: notional, fee, profit and loss, the bankruptcy
  price of a leveraged position and the payout of a prediction contract. The decimal results are
  proved exact or truncated at the precision the code asks for; the returned percentages are
  rounded floats and only translated.
\<close>

section \<open>The formulas\<close>

datatype finance_error =
    ErrInvalidLeverage | ErrInvalidPrice | ErrInvalidQuantity | ErrInvalidRate
  | ContractPriceRange | FinanceDecimal dec_error

definition CalculateNotional :: "decimal \<Rightarrow> decimal \<Rightarrow> decimal" where
  "CalculateNotional price quantity = Mul price quantity"

definition CalculateFee :: "decimal \<Rightarrow> f64 \<Rightarrow> decimal" where
  "CalculateFee notional feeBps =
     (if f_eq feeBps (Fin 0) \<or> IsZero notional \<or> IsNaN feeBps \<or> IsInf feeBps then Zero
      else case ParseDecimal (FormatFloat feeBps) of
        Inl _ \<Rightarrow> Zero
      | Inr bpsDec \<Rightarrow>
          (case Div (Mul notional bpsDec) ten_thousand (Some 8) of Inl _ \<Rightarrow> Zero | Inr fee \<Rightarrow> fee))"

text \<open>A ratio of two decimals in percent, as \<open>CalculatePnL\<close> and \<open>PredictionMarketPayout\<close> compute
  it; zero when a conversion fails.\<close>

definition float_percent :: "decimal \<Rightarrow> decimal \<Rightarrow> f64" where
  "float_percent part whole =
     (if IsZero whole then Fin 0
      else case (Float64Checked part, Float64Checked whole) of
        (Inr p, Inr w) \<Rightarrow> if f_eq w (Fin 0) then Fin 0 else f_mul (f_div p w) (Fin 100)
      | _ \<Rightarrow> Fin 0)"

definition CalculatePnL :: "decimal \<Rightarrow> decimal \<Rightarrow> decimal \<Rightarrow> bool \<Rightarrow> decimal \<times> f64" where
  "CalculatePnL entryPrice exitPrice quantity isLong =
     (if \<not> IsPositive entryPrice \<or> \<not> IsPositive quantity then (Zero, Fin 0)
      else
        let pnl = (if isLong then Mul (Sub exitPrice entryPrice) quantity
                   else Mul (Sub entryPrice exitPrice) quantity);
            initialNotional = Mul entryPrice quantity
        in (pnl, float_percent pnl initialNotional))"

definition CalculateLiquidationPrice :: "decimal \<Rightarrow> f64 \<Rightarrow> f64 \<Rightarrow> bool \<Rightarrow> finance_error + decimal" where
  "CalculateLiquidationPrice entryPrice leverage maintenanceMarginRate isLong =
     (if IsNaN leverage \<or> IsInf leverage \<or> f_less leverage (Fin 1) then Inl ErrInvalidLeverage
      else if IsNaN maintenanceMarginRate \<or> IsInf maintenanceMarginRate \<or> f_less maintenanceMarginRate (Fin 0)
      then Inl ErrInvalidRate
      else if \<not> IsPositive entryPrice then Inl ErrInvalidPrice
      else case ParseDecimal (FormatFloat leverage) of
        Inl e \<Rightarrow> Inl (FinanceDecimal e)
      | Inr leverageDec \<Rightarrow>
          (case ParseDecimal (FormatFloat maintenanceMarginRate) of
             Inl e \<Rightarrow> Inl (FinanceDecimal e)
           | Inr rateDec \<Rightarrow>
               (case Div one_decimal leverageDec (Some 18) of
                  Inl e \<Rightarrow> Inl (FinanceDecimal e)
                | Inr inv_lev \<Rightarrow>
                    let short0 = Sub (Add one_decimal inv_lev) rateDec;
                        short = (if IsNegative short0 then Zero else short0);
                        long0 = Add (Sub one_decimal inv_lev) rateDec;
                        long = (if IsNegative long0 then Zero else long0)
                    in Inr (Mul entryPrice (if isLong then long else short)))))"

record payout =
  maxPayout :: decimal
  payoutCost :: decimal
  maxProfit :: decimal
  returnPercent :: f64

definition PredictionMarketPayout :: "decimal \<Rightarrow> decimal \<Rightarrow> finance_error + payout" where
  "PredictionMarketPayout price contracts =
     (if \<not> IsPositive price \<or> GreaterThan price one_decimal then Inl ContractPriceRange
      else if \<not> IsPositive contracts then Inl ErrInvalidQuantity
      else
        let mp = Mul one_decimal contracts; c = Mul price contracts; pr = Sub mp c
        in Inr \<lparr>maxPayout = mp, payoutCost = c, maxProfit = pr, returnPercent = float_percent pr c\<rparr>)"

section \<open>Exactness\<close>

lemma scale_within_Zero [simp]: "0 \<le> k \<Longrightarrow> scale_within k Zero"
  by simp

lemma Mul_rv_within:
  "scale_within k d \<Longrightarrow> scale_within l e \<Longrightarrow> k \<le> 2 ^ 29 \<Longrightarrow> l \<le> 2 ^ 29 \<Longrightarrow> rv (Mul d e) = rv d * rv e"
  using Mul_rv scale_within_ok by blast

lemma Sub_rv_within:
  "scale_within k d \<Longrightarrow> scale_within l e \<Longrightarrow> k \<le> 2 ^ 29 \<Longrightarrow> l \<le> 2 ^ 29 \<Longrightarrow> rv (Sub d e) = rv d - rv e"
  using Sub_rv scale_within_ok by blast

lemma scale_within_ten_thousand [simp]: "scale_within 0 ten_thousand"
  by (simp add: scale_within_def ten_thousand_def)

text \<open>The inverse of the leverage, truncated at 18 digits.\<close>

lemma inverse_leverage:
  assumes "Div one_decimal l (Some 18) = Inr q"
  shows "scale_within 18 q" "\<bar>rv q - 1 / rv l\<bar> < 10 powi (- 18)"
proof -
  have nz: "rv l \<noteq> 0" using assms Div_errors(1)[of l] by force
  have p: "div_prec (Some 18) = 18" by (simp add: div_prec_def)
  have r: "div_in_range one_decimal l 18"
    using assms Div_errors(3)[OF nz, of "Some 18" one_decimal] p by (auto simp: div_prec_def)
  let ?u = "(10::rat) powi 18" and ?y = "1 / rv l"
  obtain q' where q: "Div one_decimal l (Some 18) = Inr q'" "scale_within 18 q'"
    "rv q' = of_int (truncq (rv one_decimal / rv l * 10 powi 18)) * 10 powi (- 18)"
    using Div_value[OF nz p _ _ r] by auto
  then have q_val: "rv q = of_int (truncq (?y * ?u)) / ?u" and "scale_within 18 q"
    using assms by (simp_all add: rv_one power_int_minus divide_inverse del: power_int_numeral)
  have u: "0 < ?u" by simp
  have "\<bar>?y * ?u - of_int (truncq (?y * ?u))\<bar> < 1" by (rule truncq_bounds)
  moreover have "?y - rv q = (?y * ?u - of_int (truncq (?y * ?u))) / ?u"
    using u unfolding q_val by (simp only: diff_divide_distrib) simp
  ultimately have "\<bar>?y - rv q\<bar> < 1 / ?u"
    using u by (simp only: abs_divide abs_of_pos divide_strict_right_mono)
  then show "\<bar>rv q - 1 / rv l\<bar> < 10 powi (- 18)"
    by (simp add: abs_minus_commute power_int_minus divide_inverse del: power_int_numeral)
  show "scale_within 18 q" by fact
qed

lemma clamp_rv: "rv (if IsNegative d then Zero else d) = max 0 (rv d)"
  by (simp add: IsNegative_iff rv_Zero)

lemma scale_within_clamp: "scale_within k d \<Longrightarrow> 0 \<le> k \<Longrightarrow> scale_within k (if IsNegative d then Zero else d)"
  by simp

lemma max_dist: "\<bar>max 0 x - max 0 y\<bar> \<le> \<bar>x - y\<bar>" for x y :: rat
  by linarith

lemma pnl_exact:
  assumes "scale_within 1000 e" "scale_within 1000 x" "scale_within 1000 q" "IsPositive e" "IsPositive q"
  shows "rv (fst (CalculatePnL e x q True)) = (rv x - rv e) * rv q"
    "rv (fst (CalculatePnL e x q False)) = - ((rv x - rv e) * rv q)"
  using assms scale_within_Add(2)[of 1000 x e] scale_within_Add(2)[of 1000 e x]
  by (simp_all add: CalculatePnL_def Let_def Mul_rv_within Sub_rv_within algebra_simps)

section \<open>Properties\<close>

text \<open>The bankruptcy price is never negative and is the entry price times the documented factor
  (one minus the inverse leverage plus the margin rate for a long position, mirrored for a short
  one, and zero where that is negative), up to the entry price times 10 to the power -18.\<close>

theorem liquidation_price_bounds:
  assumes "scale_within 1000 e" "CalculateLiquidationPrice e lev m isLong = Inr p"
  shows "\<exists>l r. ParseDecimal (FormatFloat lev) = Inr l \<and> ParseDecimal (FormatFloat m) = Inr r \<and>
    0 \<le> rv p \<and>
    \<bar>rv p - rv e * max 0 (if isLong then 1 - 1 / rv l + rv r else 1 + 1 / rv l - rv r)\<bar> \<le> rv e * 10 powi (- 18)"
proof -
  obtain l r q where a: "ParseDecimal (FormatFloat lev) = Inr l" "ParseDecimal (FormatFloat m) = Inr r"
    "Div one_decimal l (Some 18) = Inr q" "IsPositive e"
    "p = Mul e (if isLong
       then (if IsNegative (Add (Sub one_decimal q) r) then Zero else Add (Sub one_decimal q) r)
       else (if IsNegative (Sub (Add one_decimal q) r) then Zero else Sub (Add one_decimal q) r))"
    using assms(2) by (auto simp: CalculateLiquidationPrice_def Let_def split: if_splits sum.splits)
  note inv = inverse_leverage[OF a(3)]
  have sr: "scale_within 1000 r" using ParseDecimal_Inr[OF a(2)] by simp
  have sq: "scale_within 1000 q" using scale_within_mono[OF inv(1)] by simp
  let ?f = "if isLong then Add (Sub one_decimal q) r else Sub (Add one_decimal q) r"
  let ?g = "if IsNegative ?f then Zero else ?f"
  have s1: "scale_within 1000 (Sub one_decimal q)" "scale_within 1000 (Add one_decimal q)"
    using scale_within_Add[of 1000 one_decimal q] sq by simp_all
  have s2: "scale_within 1000 ?f"
    using scale_within_Add[OF s1(1) sr] scale_within_Add[OF s1(2) sr] by simp
  have ok: "scale_ok r" "scale_ok q" "scale_ok (Sub one_decimal q)" "scale_ok (Add one_decimal q)"
    using sr sq s1 scale_within_ok[of 1000] by auto
  have f: "rv ?f = (if isLong then 1 - rv q + rv r else 1 + rv q - rv r)"
    using ok by (simp add: Add_rv Sub_rv rv_one)
  have p: "p = Mul e ?g" using a(5) by simp
  have pv: "rv p = rv e * max 0 (rv ?f)"
    unfolding p using Mul_rv_within[OF assms(1) scale_within_clamp[OF s2]] by (simp add: clamp_rv)
  let ?i = "if isLong then 1 - 1 / rv l + rv r else 1 + 1 / rv l - rv r"
  have e: "0 < rv e" using a(4) by (simp add: IsPositive_iff)
  have "\<bar>rv ?f - ?i\<bar> \<le> 10 powi (- 18)" using inv(2) unfolding f by (cases isLong) (simp_all add: abs_minus_commute)
  then have "\<bar>max 0 (rv ?f) - max 0 ?i\<bar> \<le> 10 powi (- 18)" using max_dist order_trans by blast
  then have "rv e * \<bar>max 0 (rv ?f) - max 0 ?i\<bar> \<le> rv e * 10 powi (- 18)"
    using e by (intro mult_left_mono) simp_all
  moreover have "\<bar>rv p - rv e * max 0 ?i\<bar> = rv e * \<bar>max 0 (rv ?f) - max 0 ?i\<bar>"
    unfolding pv using e by (simp add: abs_mult flip: right_diff_distrib)
  moreover have "0 \<le> rv p" unfolding pv using e by simp
  ultimately show ?thesis using a(1,2) by auto
qed

lemma format_two: "FormatFloat (Fin 2) = ''2''"
  by code_simp

lemma format_zero: "FormatFloat (Fin 0) = ''0''"
  by (simp add: FormatFloat_def shortest_decimal_def DecimalString_def Zero_def)

theorem liquidation_price_bounds_witness:
  "\<exists>p. CalculateLiquidationPrice \<lparr>dval = Some 100, dscale = 0\<rparr> (Fin 2) (Fin 0) True = Inr p \<and> 0 \<le> rv p"
proof -
  have two: "ParseDecimal (FormatFloat (Fin 2)) = Inr \<lparr>dval = Some 2, dscale = 0\<rparr>"
    "ParseDecimal (FormatFloat (Fin 0)) = Inr Zero"
    unfolding format_two format_zero by (simp_all add: parse_eval Zero_def)
  have d: "Div one_decimal \<lparr>dval = Some 2, dscale = 0\<rparr> (Some 18) = Inr \<lparr>dval = Some 5, dscale = 1\<rparr>"
    by code_simp
  obtain p where p: "CalculateLiquidationPrice \<lparr>dval = Some 100, dscale = 0\<rparr> (Fin 2) (Fin 0) True = Inr p"
    by (simp add: CalculateLiquidationPrice_def IsNaN_def IsInf_def IsPositive_def two d Let_def mant_def)
  have "scale_within 1000 \<lparr>dval = Some 100, dscale = 0\<rparr>" by (simp add: scale_within_def)
  from liquidation_price_bounds[OF this p] p show ?thesis by blast
qed

text \<open>A prediction contract's payout is accepted exactly for a price in (0, 1] and a positive
  number of contracts; then cost and profit add up to a payout of one per contract, the cost is
  price times contracts, and the profit is not negative.\<close>

theorem payout_conserves:
  assumes "scale_within 1000 price" "scale_within 1000 contracts"
  shows "if 0 < rv price \<and> rv price \<le> 1 \<and> 0 < rv contracts
    then \<exists>p. PredictionMarketPayout price contracts = Inr p \<and> rv (maxPayout p) = rv contracts \<and>
      rv (payoutCost p) = rv price * rv contracts \<and>
      rv (payoutCost p) + rv (maxProfit p) = rv (maxPayout p) \<and> 0 \<le> rv (maxProfit p)
    else \<exists>err. PredictionMarketPayout price contracts = Inl err"
proof -
  have ok: "scale_ok price" "scale_ok one_decimal" using assms scale_within_ok[of 1000] by auto
  have g: "GreaterThan price one_decimal \<longleftrightarrow> 1 < rv price"
    using Cmp_rv[OF ok] by (simp add: GreaterThan_def rv_one)
  have s: "scale_within 1000 (Mul one_decimal contracts)" "scale_within 2000 (Mul price contracts)"
    using scale_within_Mul[of 0 one_decimal 1000 contracts] scale_within_Mul[of 1000 price 1000 contracts] assms
    by simp_all
  have v: "rv (Mul one_decimal contracts) = rv contracts" "rv (Mul price contracts) = rv price * rv contracts"
    using Mul_rv_within[of 0 one_decimal 1000 contracts] Mul_rv_within[OF assms] assms by (simp_all add: rv_one)
  have "rv (Sub (Mul one_decimal contracts) (Mul price contracts)) = rv contracts - rv price * rv contracts"
    using Sub_rv_within[OF s] v by simp
  moreover have "rv price * rv contracts \<le> rv contracts" if "rv price \<le> 1" "0 < rv contracts"
    using that mult_right_mono[of "rv price" 1 "rv contracts"] by simp
  ultimately show ?thesis using v
    by (auto simp: PredictionMarketPayout_def Let_def IsPositive_iff g)
qed

theorem payout_conserves_witness:
  "\<exists>p. PredictionMarketPayout \<lparr>dval = Some 65, dscale = 2\<rparr> \<lparr>dval = Some 10, dscale = 0\<rparr> = Inr p \<and>
     rv (maxPayout p) = 10"
  using payout_conserves[of "\<lparr>dval = Some 65, dscale = 2\<rparr>" "\<lparr>dval = Some 10, dscale = 0\<rparr>"]
  by (auto simp: scale_within_def rv_def mant_def power_int_minus)

end
