(* ===== verification/OrderBook.thy ===== *)
theory OrderBook
  imports Finance "HOL-Library.AList"
begin

text \<open>
  The in-memory L2 order book of \<open>websocket/orderbook/book.go\<close>: price levels kept as two
  sorted slices, snapshots that replace the book, diffs that update it level by level, and the
  bounded cache of parsed prices. Operations take the book and return the new book with the
  error, if any; the two mutexes only make each operation atomic and are not modelled.
\<close>

section \<open>State\<close>

record price_level =
  pl_price :: string
  pl_amount :: string
  pl_val :: f64
  pl_dec :: decimal
  pl_amt :: decimal

text \<open>The cache is Go's map, kept as an association list so that its size is its length.\<close>

type_synonym decimal_cache = "(string \<times> decimal) list"

record order_book =
  ob_symbol :: string
  lastUpdateID :: int
  bids :: "price_level list"
  asks :: "price_level list"
  priceCache :: decimal_cache

datatype level_error = BadPrice string | BadAmount string bool

datatype levels_error = LevelArity nat | LevelAt nat level_error

datatype book_error =
    SnapshotSequence int
  | DiffSequence int
  | StaleDiff int int
  | InvalidBidSnapshot levels_error
  | InvalidAskSnapshot levels_error
  | InvalidBidDiff levels_error
  | InvalidAskDiff levels_error

text \<open>What \<open>errors.Is\<close> sees: every sequence error wraps \<open>ErrInvalidSequence\<close>, every
  level error of a batch wraps \<open>ErrInvalidLevel\<close>.\<close>

definition is_ErrInvalidSequence :: "book_error \<Rightarrow> bool" where
  "is_ErrInvalidSequence e \<longleftrightarrow>
     (case e of SnapshotSequence _ \<Rightarrow> True | DiffSequence _ \<Rightarrow> True | StaleDiff _ _ \<Rightarrow> True
      | _ \<Rightarrow> False)"

definition maxCachedPriceLength :: nat where
  "maxCachedPriceLength = 128"

definition NewOrderBook :: "string \<Rightarrow> order_book" where
  "NewOrderBook marketSymbol =
     \<lparr>ob_symbol = marketSymbol, lastUpdateID = 0, bids = [], asks = [], priceCache = []\<rparr>"

definition Symbol :: "order_book \<Rightarrow> string" where
  "Symbol b = ob_symbol b"

definition LastUpdateID :: "order_book \<Rightarrow> int" where
  "LastUpdateID b = lastUpdateID b"

definition SetLastUpdateID :: "order_book \<Rightarrow> int \<Rightarrow> order_book" where
  "SetLastUpdateID b i = b\<lparr>lastUpdateID := i\<rparr>"

definition Clear :: "order_book \<Rightarrow> order_book" where
  "Clear b = b\<lparr>bids := [], asks := [], lastUpdateID := 0\<rparr>"

section \<open>Parsing levels\<close>

definition cachedPrice :: "decimal_cache \<Rightarrow> string \<Rightarrow> decimal_cache \<times> (dec_error + decimal)" where
  "cachedPrice cache raw =
     (let key = TrimSpace raw; short = (length key \<le> maxCachedPriceLength)
      in case (if short then map_of cache key else None) of
           Some price \<Rightarrow> (cache, Inr price)
         | None \<Rightarrow>
             (case ParseDecimal raw of
                Inl err \<Rightarrow> (cache, Inl err)
              | Inr price \<Rightarrow>
                  (if short
                   then AList.update key price (if 4096 \<le> length cache then [] else cache)
                   else cache, Inr price)))"

definition parseLevel ::
  "string \<Rightarrow> string \<Rightarrow> bool \<Rightarrow> decimal_cache \<Rightarrow> decimal_cache \<times> (level_error + price_level)" where
  "parseLevel priceStr amountStr allowZeroAmount cache =
     (let (cache', r) = cachedPrice cache priceStr
      in (cache',
          case r of
            Inl _ \<Rightarrow> Inl (BadPrice priceStr)
          | Inr price \<Rightarrow>
              if \<not> IsPositive price then Inl (BadPrice priceStr)
              else case ParseDecimal amountStr of
                Inl _ \<Rightarrow> Inl (BadAmount amountStr allowZeroAmount)
              | Inr amount \<Rightarrow>
                  if IsNegative amount \<or> (\<not> allowZeroAmount \<and> \<not> IsPositive amount)
                  then Inl (BadAmount amountStr allowZeroAmount)
                  else Inr \<lparr>pl_price = priceStr, pl_amount = amountStr, pl_val = Float64 price,
                            pl_dec = price, pl_amt = amount\<rparr>))"

fun parseLevels ::
  "nat \<Rightarrow> string list list \<Rightarrow> bool \<Rightarrow> decimal_cache \<Rightarrow>
   decimal_cache \<times> (levels_error + price_level list)" where
  "parseLevels i [] allowZeroAmount cache = (cache, Inr [])"
| "parseLevels i (entry # raw) allowZeroAmount cache =
     (case entry of
        [p, a] \<Rightarrow>
          (case parseLevel p a allowZeroAmount cache of
             (cache', Inl err) \<Rightarrow> (cache', Inl (LevelAt i err))
           | (cache', Inr level) \<Rightarrow>
               (case parseLevels (Suc i) raw allowZeroAmount cache' of
                  (cache'', Inl err) \<Rightarrow> (cache'', Inl err)
                | (cache'', Inr levels) \<Rightarrow> (cache'', Inr (level # levels))))
      | _ \<Rightarrow> (cache, Inl (LevelArity i)))"

section \<open>Snapshots and diffs\<close>

definition cmp_bids :: "price_level \<Rightarrow> price_level \<Rightarrow> int" where
  "cmp_bids a b = Cmp (pl_dec b) (pl_dec a)"

definition cmp_asks :: "price_level \<Rightarrow> price_level \<Rightarrow> int" where
  "cmp_asks a b = Cmp (pl_dec a) (pl_dec b)"

definition ApplySnapshot ::
  "order_book \<Rightarrow> int \<Rightarrow> string list list \<Rightarrow> string list list \<Rightarrow> order_book \<times> book_error option" where
  "ApplySnapshot b uid rawBids rawAsks =
     (if uid \<le> 0 then (b, Some (SnapshotSequence uid))
      else case parseLevels 0 rawBids False (priceCache b) of
        (c1, Inl err) \<Rightarrow> (b\<lparr>priceCache := c1\<rparr>, Some (InvalidBidSnapshot err))
      | (c1, Inr bs) \<Rightarrow>
          (case parseLevels 0 rawAsks False c1 of
             (c2, Inl err) \<Rightarrow> (b\<lparr>priceCache := c2\<rparr>, Some (InvalidAskSnapshot err))
           | (c2, Inr as) \<Rightarrow>
               (b\<lparr>lastUpdateID := uid, bids := sort_by cmp_bids bs, asks := sort_by cmp_asks as,
                  priceCache := c2\<rparr>, None)))"

definition search_bids :: "price_level \<Rightarrow> decimal \<Rightarrow> int" where
  "search_bids existing target = Cmp target (pl_dec existing)"

definition search_asks :: "price_level \<Rightarrow> decimal \<Rightarrow> int" where
  "search_asks existing target = Cmp (pl_dec existing) target"

text \<open>One side of \<open>applyLevelLocked\<close>: the two branches of the source differ in the slice and
  the comparison only.\<close>

definition applySide ::
  "(price_level \<Rightarrow> decimal \<Rightarrow> int) \<Rightarrow> price_level list \<Rightarrow> price_level \<Rightarrow> price_level list" where
  "applySide search levels level =
     (let (idx, found) = BinarySearchFunc levels (pl_dec level) search
      in if IsZero (pl_amt level) then (if found then slices_delete levels idx else levels)
         else if found then levels[idx := level]
         else slices_insert levels idx level)"

definition applyLevelLocked :: "order_book \<Rightarrow> bool \<Rightarrow> price_level \<Rightarrow> order_book" where
  "applyLevelLocked b isBid level =
     (if isBid then b\<lparr>bids := applySide search_bids (bids b) level\<rparr>
      else b\<lparr>asks := applySide search_asks (asks b) level\<rparr>)"

definition ApplyDiff ::
  "order_book \<Rightarrow> int \<Rightarrow> string list list \<Rightarrow> string list list \<Rightarrow> order_book \<times> book_error option" where
  "ApplyDiff b uid rawBids rawAsks =
     (if uid \<le> 0 then (b, Some (DiffSequence uid))
      else case parseLevels 0 rawBids True (priceCache b) of
        (c1, Inl err) \<Rightarrow> (b\<lparr>priceCache := c1\<rparr>, Some (InvalidBidDiff err))
      | (c1, Inr bs) \<Rightarrow>
          (case parseLevels 0 rawAsks True c1 of
             (c2, Inl err) \<Rightarrow> (b\<lparr>priceCache := c2\<rparr>, Some (InvalidAskDiff err))
           | (c2, Inr as) \<Rightarrow>
               let b2 = b\<lparr>priceCache := c2\<rparr>
               in if uid < lastUpdateID b2 then (b2, Some (StaleDiff uid (lastUpdateID b2)))
                  else
                    let b3 = b2\<lparr>lastUpdateID := uid\<rparr>;
                        b4 = foldl (\<lambda>b l. applyLevelLocked b True l) b3 bs;
                        b5 = foldl (\<lambda>b l. applyLevelLocked b False l) b4 as
                    in (b5, None)))"

definition ApplyLevel ::
  "order_book \<Rightarrow> bool \<Rightarrow> string \<Rightarrow> string \<Rightarrow> order_book \<times> level_error option" where
  "ApplyLevel b isBid priceStr amountStr =
     (case parseLevel priceStr amountStr True (priceCache b) of
        (c, Inl err) \<Rightarrow> (b\<lparr>priceCache := c\<rparr>, Some err)
      | (c, Inr level) \<Rightarrow> (applyLevelLocked (b\<lparr>priceCache := c\<rparr>) isBid level, None))"

section \<open>Queries\<close>

definition BestBid :: "order_book \<Rightarrow> price_level option" where
  "BestBid b = (if length (bids b) = 0 then None else Some (bids b ! 0))"

definition BestAsk :: "order_book \<Rightarrow> price_level option" where
  "BestAsk b = (if length (asks b) = 0 then None else Some (asks b ! 0))"

definition IsCrossed :: "order_book \<Rightarrow> bool" where
  "IsCrossed b =
     (if length (bids b) = 0 \<or> length (asks b) = 0 then False
      else 0 \<le> Cmp (pl_dec (bids b ! 0)) (pl_dec (asks b ! 0)))"

definition Spread :: "order_book \<Rightarrow> f64 option" where
  "Spread b =
     (if length (bids b) = 0 \<or> length (asks b) = 0 then None
      else Some (f_sub (pl_val (asks b ! 0)) (pl_val (bids b ! 0))))"

definition Mid :: "order_book \<Rightarrow> f64 option" where
  "Mid b =
     (if length (bids b) = 0 \<or> length (asks b) = 0 then None
      else Some (f_div (f_add (pl_val (asks b ! 0)) (pl_val (bids b ! 0))) (Fin 2)))"

definition Bids :: "order_book \<Rightarrow> int \<Rightarrow> price_level list" where
  "Bids b depth =
     (let d = (if depth \<le> 0 \<or> int (length (bids b)) < depth then int (length (bids b)) else depth)
      in take (nat d) (bids b))"

definition Asks :: "order_book \<Rightarrow> int \<Rightarrow> price_level list" where
  "Asks b depth =
     (let d = (if depth \<le> 0 \<or> int (length (asks b)) < depth then int (length (asks b)) else depth)
      in take (nat d) (asks b))"

section \<open>Depth analytics\<close>

record simulated_fill =
  FilledQuantity :: decimal
  AveragePrice :: decimal
  TotalNotional :: decimal
  RemainingQty :: decimal
  SlippageBps :: f64
  LevelsConsumed :: int

definition empty_fill :: simulated_fill where
  "empty_fill = \<lparr>FilledQuantity = nil_decimal, AveragePrice = nil_decimal, TotalNotional = nil_decimal,
     RemainingQty = nil_decimal, SlippageBps = Fin 0, LevelsConsumed = 0\<rparr>"


text \<open>The sweep of \<open>VWAP\<close>: remaining, filled, notional and the number of levels consumed.\<close>

fun vwap_sweep ::
  "price_level list \<Rightarrow> decimal \<Rightarrow> decimal \<Rightarrow> decimal \<Rightarrow> int \<Rightarrow> decimal \<times> decimal \<times> decimal \<times> int" where
  "vwap_sweep [] remaining filled notional n = (remaining, filled, notional, n)"
| "vwap_sweep (level # levels) remaining filled notional n =
     (if IsZero remaining then (remaining, filled, notional, n)
      else
        let levelPrice = pl_dec level; levelQty = pl_amt level
        in if \<not> IsPositive levelQty then vwap_sweep levels remaining filled notional n
           else
             let fillQty = MinDecimal remaining levelQty; fillNotional = Mul levelPrice fillQty
             in vwap_sweep levels (Sub remaining fillQty) (Add filled fillQty)
                  (Add notional fillNotional) (n + 1))"

definition VWAP :: "order_book \<Rightarrow> bool \<Rightarrow> decimal \<Rightarrow> finance_error + simulated_fill" where
  "VWAP b isBuy targetQty =
     (if \<not> IsPositive targetQty then Inl ErrInvalidQuantity
      else
        let levels = (if isBuy then asks b else bids b)
        in if levels = [] then Inr (empty_fill\<lparr>RemainingQty := targetQty\<rparr>)
           else
             let topPrice = pl_dec (levels ! 0);
                 (remaining, totalFilled, totalNotional, levelsConsumed) =
                   vwap_sweep levels targetQty Zero Zero 0;
                 (avgPrice, slippageBps) =
                   (if IsPositive totalFilled
                    then let avg = (case Div totalNotional totalFilled (Some 8) of
                                      Inr d \<Rightarrow> d | Inl _ \<Rightarrow> Zero)
                         in (avg, case BpsDiffChecked avg topPrice of
                                    Inl _ \<Rightarrow> Fin 0
                                  | Inr bps \<Rightarrow> if isBuy then bps else f_neg bps)
                    else (Zero, Fin 0))
             in Inr \<lparr>FilledQuantity = totalFilled, AveragePrice = avgPrice,
                      TotalNotional = totalNotional, RemainingQty = remaining,
                      SlippageBps = slippageBps, LevelsConsumed = levelsConsumed\<rparr>)"

definition depth_limit :: "price_level list \<Rightarrow> int \<Rightarrow> nat" where
  "depth_limit levels depth =
     (let l = int (length levels) in nat (if 0 < depth \<and> depth < l then depth else l))"

definition volume :: "price_level list \<Rightarrow> decimal" where
  "volume levels = foldl (\<lambda>v l. Add v (pl_amt l)) nil_decimal levels"

text \<open>\<open>None\<close> stands for the \<open>(0, false)\<close> of the source.\<close>

definition Imbalance :: "order_book \<Rightarrow> int \<Rightarrow> f64 option" where
  "Imbalance b depth =
     (if bids b = [] \<and> asks b = [] then None
      else
        let bidVol = volume (take (depth_limit (bids b) depth) (bids b));
            askVol = volume (take (depth_limit (asks b) depth) (asks b));
            totalVol = Add bidVol askVol
        in if IsZero totalVol then None
           else case Div (Sub bidVol askVol) totalVol (Some 18) of
             Inl _ \<Rightarrow> None
           | Inr imbalance \<Rightarrow>
               (case Float64Checked imbalance of Inl _ \<Rightarrow> None | Inr result \<Rightarrow> Some result))"

definition CumulativeDepth :: "order_book \<Rightarrow> bool \<Rightarrow> int \<Rightarrow> decimal \<times> decimal" where
  "CumulativeDepth b isBid depth =
     (let levels = (if isBid then bids b else asks b);
          limit = depth_limit levels depth
      in foldl (\<lambda>(totalQty, totalNotional) l.
                  if IsPositive (pl_amt l)
                  then (Add totalQty (pl_amt l), Add totalNotional (Mul (pl_dec l) (pl_amt l)))
                  else (totalQty, totalNotional))
           (Zero, Zero) (take limit levels))"

end
