(* ===== verification/BookSpec.thy ===== *)
theory BookSpec
  imports OrderBook
begin

text \<open>
  Correctness of the order book. Each side refines a finite map from price values to levels;
  the interface \<open>book_side\<close> states what a side's search comparator promises, its lemmas give
  the effect of a level update once for both sides, and the two interpretations are the code's
  bid and ask comparators.
\<close>

section \<open>The cache is transparent\<close>

lemma trim_with_suffix: "\<exists>p. s = p @ trim_with es s"
proof (induction es s rule: trim_with.induct)
  case (1 es s)
  show ?case
  proof (cases "find (\<lambda>e. e \<noteq> [] \<and> has_prefix s e) es")
    case None
    then show ?thesis by (simp add: trim_with.simps[of es s])
  next
    case (Some e)
    from "1.IH"[OF Some] obtain p where "drop (length e) s = p @ trim_with es s"
      using Some by (auto simp: trim_with.simps[of es s])
    then have "s = (take (length e) s @ p) @ trim_with es s"
      by (metis append.assoc append_take_drop_id)
    then show ?thesis by blast
  qed
qed

lemma trim_with_none: "e \<in> set es \<Longrightarrow> e \<noteq> [] \<Longrightarrow> \<not> has_prefix (trim_with es s) e"
proof (induction es s rule: trim_with.induct)
  case (1 es s)
  show ?case
  proof (cases "find (\<lambda>e. e \<noteq> [] \<and> has_prefix s e) es")
    case None
    then have "trim_with es s = s" by (simp add: trim_with.simps[of es s])
    with None "1.prems" show ?thesis by (auto simp: find_None_iff)
  next
    case (Some e')
    with "1.IH"[OF Some "1.prems"] show ?thesis by (simp add: trim_with.simps[of es s])
  qed
qed

lemma trim_with_stop:
  assumes "\<And>e. e \<in> set es \<Longrightarrow> e \<noteq> [] \<Longrightarrow> \<not> has_prefix s e"
  shows "trim_with es s = s"
proof -
  have "find (\<lambda>e. e \<noteq> [] \<and> has_prefix s e) es = None" using assms by (auto simp: find_None_iff)
  then show ?thesis by (simp add: trim_with.simps[of es s])
qed

lemma has_prefix_append: "has_prefix t e \<Longrightarrow> has_prefix (t @ u) e"
  by (auto simp: has_prefix_def) (metis append_Nil2 diff_is_0_eq length_take min.absorb_iff2 nle_le
      take0 take_all)

lemma TrimSpace_idem [simp]: "TrimSpace (TrimSpace s) = TrimSpace s"
proof -
  let ?l = "trim_with space_encodings s" and ?es = "map rev space_encodings"
  let ?r = "trim_with ?es (rev ?l)"
  obtain p where "rev ?l = p @ ?r" using trim_with_suffix by blast
  then have l: "?l = rev ?r @ rev p" by (metis rev_append rev_rev_ident)
  have "trim_with space_encodings (rev ?r) = rev ?r"
    using trim_with_none[of _ space_encodings s] has_prefix_append[of "rev ?r" _ "rev p"]
    by (intro trim_with_stop) (auto simp flip: l)
  moreover have "trim_with ?es ?r = ?r"
    using trim_with_none by (intro trim_with_stop) blast
  ultimately show ?thesis by (simp add: TrimSpace_def)
qed

lemma ParseDecimal_TrimSpace: "ParseDecimal (TrimSpace s) = ParseDecimal s"
  by (simp add: ParseDecimal_def)

definition cache_ok :: "decimal_cache \<Rightarrow> bool" where
  "cache_ok c \<longleftrightarrow> length c \<le> 4096 \<and> (\<forall>k p. map_of c k = Some p \<longrightarrow> ParseDecimal k = Inr p)"

lemma cache_ok_empty [simp]: "cache_ok []"
  by (simp add: cache_ok_def)

lemma length_AList_update: "length (AList.update k v xs) \<le> Suc (length xs)"
  by (induction xs) auto

lemma cachedPrice_spec:
  assumes "cache_ok c"
  shows "snd (cachedPrice c raw) = ParseDecimal raw" "cache_ok (fst (cachedPrice c raw))"
proof -
  let ?k = "TrimSpace raw"
  have hit: "map_of c ?k = Some p \<Longrightarrow> ParseDecimal raw = Inr p" for p
    using assms ParseDecimal_TrimSpace by (metis cache_ok_def)
  show "snd (cachedPrice c raw) = ParseDecimal raw"
    using hit by (auto simp: cachedPrice_def Let_def split: option.splits sum.splits)
  have put: "cache_ok (AList.update ?k p (if 4096 \<le> length c then [] else c))"
    if "ParseDecimal raw = Inr p" for p
    using assms that length_AList_update[of ?k p c]
    by (auto simp: cache_ok_def update_conv' ParseDecimal_TrimSpace split: if_splits)
  show "cache_ok (fst (cachedPrice c raw))"
    using assms put by (auto simp: cachedPrice_def Let_def split: option.splits sum.splits)
qed

section \<open>Parsed levels\<close>

definition level_ok :: "bool \<Rightarrow> price_level \<Rightarrow> bool" where
  "level_ok allowZero l \<longleftrightarrow>
     ParseDecimal (pl_price l) = Inr (pl_dec l) \<and> ParseDecimal (pl_amount l) = Inr (pl_amt l) \<and>
     0 < rv (pl_dec l) \<and> 0 \<le> rv (pl_amt l) \<and> (\<not> allowZero \<longrightarrow> 0 < rv (pl_amt l))"

lemma level_ok_scale: "level_ok z l \<Longrightarrow> scale_ok (pl_dec l) \<and> scale_ok (pl_amt l)"
  by (auto simp: level_ok_def intro: ParseDecimal_scale_ok)

lemma parseLevel_spec:
  assumes "cache_ok c" "parseLevel p a z c = (c', r)"
  shows "cache_ok c'" "r = Inr l \<Longrightarrow> level_ok z l \<and> pl_price l = p \<and> pl_amount l = a"
proof -
  obtain c1 r1 where cp: "cachedPrice c p = (c1, r1)" by fastforce
  have c1: "cache_ok c1" "r1 = ParseDecimal p"
    using cachedPrice_spec[OF assms(1), of p] cp by auto
  show "cache_ok c'" using assms(2) c1 cp by (auto simp: parseLevel_def)
  show "r = Inr l \<Longrightarrow> level_ok z l \<and> pl_price l = p \<and> pl_amount l = a"
    using assms(2) c1(2) cp
    by (auto simp: parseLevel_def level_ok_def sign_iffs not_less split: sum.splits if_splits)
qed

lemma parseLevels_spec:
  "cache_ok c \<Longrightarrow> parseLevels i raw z c = (c', r) \<Longrightarrow>
   cache_ok c' \<and> (\<forall>ls. r = Inr ls \<longrightarrow> (\<forall>l\<in>set ls. level_ok z l) \<and>
     map (\<lambda>l. [pl_price l, pl_amount l]) ls = raw)"
proof (induction i raw z c arbitrary: c' r rule: parseLevels.induct)
  case (2 i entry raw z c)
  show ?case
  proof (cases "\<exists>p a. entry = [p, a]")
    case False
    with "2.prems" show ?thesis by (auto split: list.splits)
  next
    case True
    then obtain p a where e: "entry = [p, a]" by blast
    obtain c1 r1 where l: "parseLevel p a z c = (c1, r1)" by fastforce
    note sp = parseLevel_spec[OF "2.prems"(1) l]
    show ?thesis
    proof (cases r1)
      case (Inl err)
      with "2.prems"(2) e l sp show ?thesis by auto
    next
      case (Inr level)
      obtain c2 r2 where ls: "parseLevels (Suc i) raw z c1 = (c2, r2)" by fastforce
      have "cache_ok c2 \<and> (\<forall>ls. r2 = Inr ls \<longrightarrow> (\<forall>l\<in>set ls. level_ok z l) \<and>
          map (\<lambda>l. [pl_price l, pl_amount l]) ls = raw)"
        using "2.IH"[OF e refl refl l[symmetric] Inr sp(1) ls] e by auto
      then show ?thesis using "2.prems"(2) e l Inr ls sp by (auto split: sum.splits)
    qed
  qed
qed auto

section \<open>One side of the book\<close>

definition scales_ok :: "price_level list \<Rightarrow> bool" where
  "scales_ok xs \<longleftrightarrow> (\<forall>l\<in>set xs. scale_ok (pl_dec l))"

definition side_sorted :: "(decimal \<Rightarrow> rat) \<Rightarrow> price_level list \<Rightarrow> bool" where
  "side_sorted key xs \<longleftrightarrow> sorted_wrt (\<lambda>a b. key (pl_dec a) \<le> key (pl_dec b)) xs"

definition side_strict :: "(decimal \<Rightarrow> rat) \<Rightarrow> price_level list \<Rightarrow> bool" where
  "side_strict key xs \<longleftrightarrow> sorted_wrt (\<lambda>a b. key (pl_dec a) < key (pl_dec b)) xs"

text \<open>The finite map a side stands for: the first level at a price value.\<close>

definition side_map :: "price_level list \<Rightarrow> rat \<Rightarrow> price_level option" where
  "side_map xs = map_of (map (\<lambda>l. (rv (pl_dec l), l)) xs)"

lemma side_strict_sorted: "side_strict key xs \<Longrightarrow> side_sorted key xs"
  unfolding side_strict_def side_sorted_def by (rule sorted_wrt_mono_rel) auto

lemma side_map_None: "\<forall>l\<in>set xs. rv (pl_dec l) \<noteq> p \<Longrightarrow> side_map xs p = None"
  by (auto simp: side_map_def map_of_eq_None_iff)

lemma side_map_append: "side_map (xs @ ys) p = (case side_map xs p of None \<Rightarrow> side_map ys p | Some l \<Rightarrow> Some l)"
  by (auto simp: side_map_def map_add_def split: option.splits)

lemma side_map_Nil [simp]: "side_map [] p = None"
  by (simp add: side_map_def)

lemma side_map_Cons [simp]: "side_map (l # xs) p = (if rv (pl_dec l) = p then Some l else side_map xs p)"
  by (simp add: side_map_def)

locale book_side =
  fixes search :: "price_level \<Rightarrow> decimal \<Rightarrow> int" and key :: "decimal \<Rightarrow> rat"
  assumes search_key: "scale_ok (pl_dec e) \<Longrightarrow> scale_ok t \<Longrightarrow>
      search e t = int_cmp (key (pl_dec e)) (key t)"
    and key_rv: "key d1 = key d2 \<longleftrightarrow> rv d1 = rv d2"
begin

lemma search_split:
  assumes "side_sorted key xs" "scales_ok xs" "scale_ok t" and bs: "BinarySearchFunc xs t search = (i, found)"
  shows "\<forall>x\<in>set (take i xs). key (pl_dec x) < key t" "\<forall>x\<in>set (drop i xs). key t \<le> key (pl_dec x)"
    "i \<le> length xs" "found \<longleftrightarrow> i < length xs \<and> key (pl_dec (xs ! i)) = key t"
proof -
  have s: "search (xs ! k) t = int_cmp (key (pl_dec (xs ! k))) (key t)" if "k < length xs" for k
    using assms(2,3) that by (intro search_key) (auto simp: scales_ok_def)
  have i: "i = bsearch search xs t 0 (length xs)" and f: "found \<longleftrightarrow> i < length xs \<and> search (xs ! i) t = 0"
    using bs by (auto simp: BinarySearchFunc_def Let_def)
  have mono: "search (xs ! a) t < 0" if "a < b" "b < length xs" "search (xs ! b) t < 0" for a b
    using sorted_wrt_nth_less[OF assms(1)[unfolded side_sorted_def] that(1,2)] that s[of a] s[of b]
    by simp
  have b: "(\<forall>k<i. search (xs ! k) t < 0) \<and> (\<forall>k. i \<le> k \<and> k < length xs \<longrightarrow> \<not> search (xs ! k) t < 0)"
    unfolding i by (rule bsearch_boundary) (use mono in auto)
  show le: "i \<le> length xs" using bsearch_bounds[of 0 "length xs" search xs t] i by simp
  show "\<forall>x\<in>set (take i xs). key (pl_dec x) < key t"
    using b le s by (auto simp: in_set_conv_nth)
  show "\<forall>x\<in>set (drop i xs). key t \<le> key (pl_dec x)"
    using b le s by (auto simp: in_set_conv_nth not_less)
  show "found \<longleftrightarrow> i < length xs \<and> key (pl_dec (xs ! i)) = key t"
    using f s by auto
qed

text \<open>The effect of a level update: the level at the target price, if any, is replaced.\<close>

lemma applySide_cases:
  assumes "side_sorted key xs" "scales_ok xs" "scale_ok (pl_dec l)"
  obtains A M B where "xs = A @ M @ B"
    "applySide search xs l = A @ (if IsZero (pl_amt l) then [] else [l]) @ B"
    "\<forall>x\<in>set A. key (pl_dec x) < key (pl_dec l)" "\<forall>x\<in>set M. key (pl_dec x) = key (pl_dec l)"
    "\<forall>x\<in>set B. key (pl_dec l) \<le> key (pl_dec x)" "length M \<le> 1"
    "M = [] \<Longrightarrow> \<forall>x\<in>set B. key (pl_dec l) < key (pl_dec x)"
proof -
  obtain i found where bs: "BinarySearchFunc xs (pl_dec l) search = (i, found)" by fastforce
  note sp = search_split[OF assms bs]
  show ?thesis
  proof (cases found)
    case True
    then have i: "i < length xs" "key (pl_dec (xs ! i)) = key (pl_dec l)" using sp(4) by auto
    have x: "xs = take i xs @ [xs ! i] @ drop (Suc i) xs" using i(1) by (simp add: id_take_nth_drop)
    have "applySide search xs l = take i xs @ (if IsZero (pl_amt l) then [] else [l]) @ drop (Suc i) xs"
      using True bs i(1) by (simp add: applySide_def slices_delete_def upd_conv_take_nth_drop)
    moreover have "\<forall>x\<in>set (drop (Suc i) xs). key (pl_dec l) \<le> key (pl_dec x)"
      using sp(2) set_drop_subset_set_drop[of i "Suc i" xs] by auto
    ultimately show ?thesis using that[OF x] sp(1) i(2) by simp
  next
    case False
    have x: "xs = take i xs @ [] @ drop i xs" by simp
    have lt: "key (pl_dec l) < key (pl_dec x)" if "x \<in> set (drop i xs)" for x
    proof -
      have i: "i < length xs" using that by (cases "i < length xs") auto
      then have "key (pl_dec (xs ! i)) \<noteq> key (pl_dec l)" "drop i xs = xs ! i # drop (Suc i) xs"
        using False sp(4) by (auto simp: Cons_nth_drop_Suc)
      moreover have "side_sorted key (drop i xs)"
        using assms(1) by (simp add: side_sorted_def sorted_wrt_drop)
      ultimately have "key (pl_dec (xs ! i)) \<le> key (pl_dec x)" "key (pl_dec l) < key (pl_dec (xs ! i))"
        using that sp(2) by (auto simp: side_sorted_def)
      then show ?thesis by simp
    qed
    have "applySide search xs l = take i xs @ (if IsZero (pl_amt l) then [] else [l]) @ drop i xs"
      using False bs by (simp add: applySide_def slices_insert_def)
    then show ?thesis using that[OF x] sp(1,2) lt by simp
  qed
qed

lemma applySide_sorted:
  assumes "side_sorted key xs" "scales_ok xs" "scale_ok (pl_dec l)"
  shows "side_sorted key (applySide search xs l)" "scales_ok (applySide search xs l)"
    "set (applySide search xs l) \<subseteq> set xs \<union> (if IsZero (pl_amt l) then {} else {l})"
proof -
  obtain A M B where c: "xs = A @ M @ B"
    "applySide search xs l = A @ (if IsZero (pl_amt l) then [] else [l]) @ B"
    "\<forall>x\<in>set A. key (pl_dec x) < key (pl_dec l)" "\<forall>x\<in>set B. key (pl_dec l) \<le> key (pl_dec x)"
    using applySide_cases[OF assms] by metis
  show "side_sorted key (applySide search xs l)"
    using assms(1)[unfolded c(1)] c(3,4) unfolding c(2) side_sorted_def
    by (auto simp: sorted_wrt_append less_imp_le)
  show "scales_ok (applySide search xs l)"
    using assms(2)[unfolded c(1)] assms(3) unfolding c(2) scales_ok_def by auto
  show "set (applySide search xs l) \<subseteq> set xs \<union> (if IsZero (pl_amt l) then {} else {l})"
    unfolding c(2) using c(1) by auto
qed

lemma applySide_strict:
  assumes "side_strict key xs" "scales_ok xs" "scale_ok (pl_dec l)"
  shows "side_strict key (applySide search xs l)"
    "side_map (applySide search xs l) =
      (side_map xs)(rv (pl_dec l) := (if IsZero (pl_amt l) then None else Some l))"
proof -
  obtain A M B where c: "xs = A @ M @ B"
    "applySide search xs l = A @ (if IsZero (pl_amt l) then [] else [l]) @ B"
    "\<forall>x\<in>set A. key (pl_dec x) < key (pl_dec l)" "\<forall>x\<in>set M. key (pl_dec x) = key (pl_dec l)"
    "length M \<le> 1" "M = [] \<Longrightarrow> \<forall>x\<in>set B. key (pl_dec l) < key (pl_dec x)"
    using applySide_cases[OF side_strict_sorted[OF assms(1)] assms(2,3)] by metis
  have B: "\<forall>x\<in>set B. key (pl_dec l) < key (pl_dec x)"
  proof (cases M)
    case (Cons m ms)
    then show ?thesis using assms(1)[unfolded c(1)] c(4) unfolding side_strict_def
      by (auto simp: sorted_wrt_append)
  qed (use c(6) in simp)
  show "side_strict key (applySide search xs l)"
    using assms(1)[unfolded c(1)] c(3) B unfolding c(2) side_strict_def by (auto simp: sorted_wrt_append)
  have ne: "rv (pl_dec x) \<noteq> rv (pl_dec l)" if "x \<in> set A \<union> set B" for x
    using that c(3) B key_rv[of "pl_dec x" "pl_dec l"] by auto
  have eq: "rv (pl_dec x) = rv (pl_dec l)" if "x \<in> set M" for x
    using that c(4) key_rv by blast
  have AB: "side_map A (rv (pl_dec l)) = None" "side_map B (rv (pl_dec l)) = None"
    using ne by (auto intro!: side_map_None)
  show "side_map (applySide search xs l) =
      (side_map xs)(rv (pl_dec l) := (if IsZero (pl_amt l) then None else Some l))"
  proof
    fix p
    have "side_map M p = None" if "p \<noteq> rv (pl_dec l)" using eq that by (intro side_map_None) auto
    then show "side_map (applySide search xs l) p =
      ((side_map xs)(rv (pl_dec l) := (if IsZero (pl_amt l) then None else Some l))) p"
      using AB unfolding c(2) by (subst c(1)) (auto simp: side_map_append split: option.splits)
  qed
qed

end

definition bid_key :: "decimal \<Rightarrow> rat" where
  "bid_key d = - rv d"

interpretation bid: book_side search_bids bid_key
  by unfold_locales (auto simp: search_bids_def bid_key_def Cmp_rv int_cmp_def)

interpretation ask: book_side search_asks rv
  by unfold_locales (auto simp: search_asks_def Cmp_rv)

end
