(* ===== verification/BookInv.thy ===== *)
theory BookInv
  imports BookSpec
begin

text \<open>
  The order book's invariant, preserved by every operation, and its abstract specification: a
  side is a finite map from price values to the wire strings of the level, a snapshot replaces
  the map and a diff is a sequence of map updates. Also the depth analytics.
\<close>

section \<open>Valid wire levels\<close>

definition level_value :: "string \<Rightarrow> rat" where
  "level_value s = (case ParseDecimal s of Inl _ \<Rightarrow> 0 | Inr d \<Rightarrow> rv d)"

definition parses :: "string \<Rightarrow> bool" where
  "parses s \<longleftrightarrow> (case ParseDecimal s of Inl _ \<Rightarrow> False | Inr _ \<Rightarrow> True)"

definition raw_ok :: "bool \<Rightarrow> string list \<Rightarrow> bool" where
  "raw_ok allowZero entry \<longleftrightarrow>
     (case entry of
        [p, a] \<Rightarrow> parses p \<and> 0 < level_value p \<and> parses a \<and>
                 (if allowZero then 0 \<le> level_value a else 0 < level_value a)
      | _ \<Rightarrow> False)"

lemma level_ok_values:
  "level_ok z l \<Longrightarrow> level_value (pl_price l) = rv (pl_dec l) \<and> level_value (pl_amount l) = rv (pl_amt l)"
  by (auto simp: level_ok_def level_value_def)

lemma parseLevel_success:
  assumes "cache_ok c" "parseLevel p a z c = (c', r)"
  shows "(\<exists>l. r = Inr l) \<longleftrightarrow> raw_ok z [p, a]"
proof -
  obtain c1 r1 where cp: "cachedPrice c p = (c1, r1)" by fastforce
  have "r1 = ParseDecimal p" using cachedPrice_spec[OF assms(1), of p] cp by auto
  with assms(2) cp show ?thesis
    by (auto simp: parseLevel_def raw_ok_def parses_def level_value_def sign_iffs not_less
        split: sum.splits if_splits)
qed

lemma parseLevels_success:
  "cache_ok c \<Longrightarrow> parseLevels i raw z c = (c', r) \<Longrightarrow>
   (\<exists>ls. r = Inr ls) \<longleftrightarrow> (\<forall>e\<in>set raw. raw_ok z e)"
proof (induction i raw z c arbitrary: c' r rule: parseLevels.induct)
  case (2 i entry raw z c)
  show ?case
  proof (cases "\<exists>p a. entry = [p, a]")
    case False
    then have "\<not> raw_ok z entry" by (auto simp: raw_ok_def split: list.splits)
    with False "2.prems" show ?thesis by (auto split: list.splits)
  next
    case True
    then obtain p a where e: "entry = [p, a]" by blast
    obtain c1 r1 where l: "parseLevel p a z c = (c1, r1)" by fastforce
    note sp = parseLevel_spec(1)[OF "2.prems"(1) l] and su = parseLevel_success[OF "2.prems"(1) l]
    show ?thesis
    proof (cases r1)
      case (Inl err)
      with "2.prems"(2) e l su show ?thesis by auto
    next
      case (Inr level)
      obtain c2 r2 where ls: "parseLevels (Suc i) raw z c1 = (c2, r2)" by fastforce
      have "(\<exists>ls. r2 = Inr ls) \<longleftrightarrow> (\<forall>e\<in>set raw. raw_ok z e)"
        using "2.IH"[OF e refl refl l[symmetric] Inr sp ls] e by auto
      then show ?thesis using "2.prems"(2) e l Inr ls su by (auto split: sum.splits)
    qed
  qed
qed auto

section \<open>The invariant\<close>

definition side_ok :: "(decimal \<Rightarrow> rat) \<Rightarrow> price_level list \<Rightarrow> bool" where
  "side_ok key xs \<longleftrightarrow> side_sorted key xs \<and> (\<forall>l\<in>set xs. level_ok False l)"

definition book_ok :: "order_book \<Rightarrow> bool" where
  "book_ok b \<longleftrightarrow> side_ok bid_key (bids b) \<and> side_ok rv (asks b) \<and> cache_ok (priceCache b)"

text \<open>The stronger invariant of a book whose snapshot listed every price once.\<close>

definition book_strict :: "order_book \<Rightarrow> bool" where
  "book_strict b \<longleftrightarrow> book_ok b \<and> side_strict bid_key (bids b) \<and> side_strict rv (asks b)"

lemma side_ok_scales: "side_ok key xs \<Longrightarrow> scales_ok xs"
  by (auto simp: side_ok_def scales_ok_def dest: level_ok_scale)

lemma level_ok_nonzero: "level_ok True l \<Longrightarrow> \<not> IsZero (pl_amt l) \<Longrightarrow> level_ok False l"
  by (auto simp: level_ok_def IsZero_iff)

definition put_level :: "(rat \<Rightarrow> price_level option) \<Rightarrow> price_level \<Rightarrow> rat \<Rightarrow> price_level option" where
  "put_level m l = m(rv (pl_dec l) := (if IsZero (pl_amt l) then None else Some l))"

context book_side
begin

lemma applySide_ok:
  assumes "side_ok key xs" "level_ok True l"
  shows "side_ok key (applySide search xs l)"
proof -
  have sc: "scales_ok xs" "side_sorted key xs" "scale_ok (pl_dec l)"
    using assms side_ok_scales level_ok_scale by (auto simp: side_ok_def)
  note s = applySide_sorted[OF sc(2,1,3)]
  then show ?thesis using assms level_ok_nonzero[OF assms(2)] by (auto simp: side_ok_def split: if_splits)
qed

lemma applySides_ok:
  "side_ok key xs \<Longrightarrow> \<forall>l\<in>set ls. level_ok True l \<Longrightarrow> side_ok key (foldl (applySide search) xs ls)"
  by (induction ls arbitrary: xs) (auto intro: applySide_ok)

lemma applySides_map:
  "side_ok key xs \<Longrightarrow> side_strict key xs \<Longrightarrow> \<forall>l\<in>set ls. level_ok True l \<Longrightarrow>
   side_strict key (foldl (applySide search) xs ls) \<and>
   side_map (foldl (applySide search) xs ls) = foldl put_level (side_map xs) ls"
proof (induction ls arbitrary: xs)
  case (Cons l ls)
  have "scale_ok (pl_dec l)" using Cons.prems(3) level_ok_scale by auto
  note st = applySide_strict[OF Cons.prems(2) side_ok_scales[OF Cons.prems(1)] this]
  have "side_ok key (applySide search xs l)" using Cons.prems by (simp add: applySide_ok)
  with Cons.IH[OF this st(1)] Cons.prems(3) st(2) show ?case by (simp add: put_level_def)
qed simp

end

interpretation bid_order: comparator cmp_bids "\<lambda>l. scale_ok (pl_dec l)"
  by unfold_locales (auto simp: cmp_bids_def Cmp_rv)

interpretation ask_order: comparator cmp_asks "\<lambda>l. scale_ok (pl_dec l)"
  by unfold_locales (auto simp: cmp_asks_def Cmp_rv)

lemma sort_bids_ok: "\<forall>l\<in>set ls. level_ok False l \<Longrightarrow> side_ok bid_key (sort_by cmp_bids ls)"
proof -
  assume ok: "\<forall>l\<in>set ls. level_ok False l"
  then have sc: "\<forall>l\<in>set (sort_by cmp_bids ls). scale_ok (pl_dec l)" by (auto dest: level_ok_scale)
  then have "sorted_wrt (\<lambda>a b. cmp_bids a b \<le> 0) (sort_by cmp_bids ls)"
    by (intro bid_order.sorted_sort_by) simp
  then have "side_sorted bid_key (sort_by cmp_bids ls)" unfolding side_sorted_def
    by (rule sorted_wrt_mono_rel[rotated]) (use sc in \<open>auto simp: cmp_bids_def Cmp_rv bid_key_def\<close>)
  with ok show ?thesis by (simp add: side_ok_def)
qed

lemma sort_asks_ok: "\<forall>l\<in>set ls. level_ok False l \<Longrightarrow> side_ok rv (sort_by cmp_asks ls)"
proof -
  assume ok: "\<forall>l\<in>set ls. level_ok False l"
  then have sc: "\<forall>l\<in>set (sort_by cmp_asks ls). scale_ok (pl_dec l)" by (auto dest: level_ok_scale)
  then have "sorted_wrt (\<lambda>a b. cmp_asks a b \<le> 0) (sort_by cmp_asks ls)"
    by (intro ask_order.sorted_sort_by) simp
  then have "side_sorted rv (sort_by cmp_asks ls)" unfolding side_sorted_def
    by (rule sorted_wrt_mono_rel[rotated]) (use sc in \<open>auto simp: cmp_asks_def Cmp_rv\<close>)
  with ok show ?thesis by (simp add: side_ok_def)
qed

lemma side_sorted_distinct:
  assumes "side_sorted key xs" "\<And>a b. key a = key b \<Longrightarrow> rv a = rv b"
    "distinct (map (\<lambda>l. rv (pl_dec l)) xs)"
  shows "side_strict key xs"
  using assms(1,3) unfolding side_sorted_def side_strict_def
proof (induction xs)
  case (Cons x xs)
  then have "key (pl_dec x) < key (pl_dec y)" if "y \<in> set xs" for y
    using that assms(2)[of "pl_dec x" "pl_dec y"] by (fastforce simp: order_less_le)
  with Cons show ?case by simp
qed simp

section \<open>What the operations do\<close>

lemma foldl_apply_bids:
  "foldl (\<lambda>b l. applyLevelLocked b True l) b ls = b\<lparr>bids := foldl (applySide search_bids) (bids b) ls\<rparr>"
  by (induction ls arbitrary: b) (simp_all add: applyLevelLocked_def)

lemma foldl_apply_asks:
  "foldl (\<lambda>b l. applyLevelLocked b False l) b ls = b\<lparr>asks := foldl (applySide search_asks) (asks b) ls\<rparr>"
  by (induction ls arbitrary: b) (simp_all add: applyLevelLocked_def)

text \<open>The two parsing passes of a batch, shared by snapshots and diffs.\<close>

definition batch_ok :: "bool \<Rightarrow> string list list \<Rightarrow> price_level list \<Rightarrow> bool" where
  "batch_ok z raw ls \<longleftrightarrow> (\<forall>l\<in>set ls. level_ok z l) \<and> map (\<lambda>l. [pl_price l, pl_amount l]) ls = raw"

lemma ApplyDiff_cases:
  assumes "cache_ok (priceCache b)" "ApplyDiff b uid rb ra = (b', err)"
  shows "err = None \<longleftrightarrow> 0 < uid \<and> lastUpdateID b \<le> uid \<and> (\<forall>e\<in>set rb \<union> set ra. raw_ok True e)"
    "cache_ok (priceCache b')"
    "err \<noteq> None \<Longrightarrow> b' = b\<lparr>priceCache := priceCache b'\<rparr>"
    "err = None \<Longrightarrow> \<exists>bs as. batch_ok True rb bs \<and> batch_ok True ra as \<and>
       b' = b\<lparr>lastUpdateID := uid, bids := foldl (applySide search_bids) (bids b) bs,
              asks := foldl (applySide search_asks) (asks b) as, priceCache := priceCache b'\<rparr>"
proof -
  obtain c1 r1 where p1: "parseLevels 0 rb True (priceCache b) = (c1, r1)" by fastforce
  obtain c2 r2 where p2: "parseLevels 0 ra True c1 = (c2, r2)" by fastforce
  note s1 = parseLevels_spec[OF assms(1) p1] parseLevels_success[OF assms(1) p1]
  have c1: "cache_ok c1" using s1 by blast
  note s2 = parseLevels_spec[OF c1 p2] parseLevels_success[OF c1 p2]
  note ad = assms(2)[unfolded ApplyDiff_def Let_def p1 prod.case]
  note eqs = foldl_apply_bids foldl_apply_asks
  consider (bad) "uid \<le> 0" | (l1) e where "0 < uid" "r1 = Inl e"
    | (l2) bs e where "0 < uid" "r1 = Inr bs" "r2 = Inl e"
    | (ok) bs as where "0 < uid" "r1 = Inr bs" "r2 = Inr as"
    by (cases "0 < uid"; cases r1; cases r2) auto
  then have all: "(err = None \<longleftrightarrow> 0 < uid \<and> lastUpdateID b \<le> uid \<and> (\<forall>e\<in>set rb \<union> set ra. raw_ok True e)) \<and>
    cache_ok (priceCache b') \<and> (err \<noteq> None \<longrightarrow> b' = b\<lparr>priceCache := priceCache b'\<rparr>) \<and>
    (err = None \<longrightarrow> (\<exists>bs as. batch_ok True rb bs \<and> batch_ok True ra as \<and>
       b' = b\<lparr>lastUpdateID := uid, bids := foldl (applySide search_bids) (bids b) bs,
              asks := foldl (applySide search_asks) (asks b) as, priceCache := priceCache b'\<rparr>))"
  proof cases
    case bad
    with ad assms(1) show ?thesis by auto
  next
    case l1
    with ad s1 show ?thesis by auto
  next
    case l2
    with ad p2 s1 s2 show ?thesis by auto
  next
    case ok
    have b: "batch_ok True rb bs" "batch_ok True ra as" using ok s1 s2 by (auto simp: batch_ok_def)
    have raw: "\<forall>e\<in>set rb \<union> set ra. raw_ok True e" using ok s1 s2 by auto
    show ?thesis
    proof (cases "uid < lastUpdateID b")
      case True
      with ad ok p2 s2 raw show ?thesis by auto
    next
      case False
      with ad ok p2 have e: "err = None" "b' = b\<lparr>lastUpdateID := uid,
          bids := foldl (applySide search_bids) (bids b) bs,
          asks := foldl (applySide search_asks) (asks b) as, priceCache := c2\<rparr>"
        by (auto simp: eqs)
      with False ok raw b s2 show ?thesis by auto
    qed
  qed
  then show "err = None \<longleftrightarrow> 0 < uid \<and> lastUpdateID b \<le> uid \<and> (\<forall>e\<in>set rb \<union> set ra. raw_ok True e)"
    "cache_ok (priceCache b')"
    "err \<noteq> None \<Longrightarrow> b' = b\<lparr>priceCache := priceCache b'\<rparr>"
    "err = None \<Longrightarrow> \<exists>bs as. batch_ok True rb bs \<and> batch_ok True ra as \<and>
       b' = b\<lparr>lastUpdateID := uid, bids := foldl (applySide search_bids) (bids b) bs,
              asks := foldl (applySide search_asks) (asks b) as, priceCache := priceCache b'\<rparr>"
    by blast+
qed

lemma ApplySnapshot_cases:
  assumes "cache_ok (priceCache b)" "ApplySnapshot b uid rb ra = (b', err)"
  shows "err = None \<longleftrightarrow> 0 < uid \<and> (\<forall>e\<in>set rb \<union> set ra. raw_ok False e)"
    "cache_ok (priceCache b')"
    "err \<noteq> None \<Longrightarrow> b' = b\<lparr>priceCache := priceCache b'\<rparr>"
    "err = None \<Longrightarrow> \<exists>bs as. batch_ok False rb bs \<and> batch_ok False ra as \<and>
       b' = b\<lparr>lastUpdateID := uid, bids := sort_by cmp_bids bs, asks := sort_by cmp_asks as,
              priceCache := priceCache b'\<rparr>"
proof -
  obtain c1 r1 where p1: "parseLevels 0 rb False (priceCache b) = (c1, r1)" by fastforce
  obtain c2 r2 where p2: "parseLevels 0 ra False c1 = (c2, r2)" by fastforce
  note s1 = parseLevels_spec[OF assms(1) p1] parseLevels_success[OF assms(1) p1]
  have c1: "cache_ok c1" using s1 by blast
  note s2 = parseLevels_spec[OF c1 p2] parseLevels_success[OF c1 p2]
  note sn = assms(2)[unfolded ApplySnapshot_def Let_def p1 prod.case]
  consider (bad) "uid \<le> 0" | (l1) e where "0 < uid" "r1 = Inl e"
    | (l2) bs e where "0 < uid" "r1 = Inr bs" "r2 = Inl e"
    | (ok) bs as where "0 < uid" "r1 = Inr bs" "r2 = Inr as"
    by (cases "0 < uid"; cases r1; cases r2) auto
  then have all: "(err = None \<longleftrightarrow> 0 < uid \<and> (\<forall>e\<in>set rb \<union> set ra. raw_ok False e)) \<and>
    cache_ok (priceCache b') \<and> (err \<noteq> None \<longrightarrow> b' = b\<lparr>priceCache := priceCache b'\<rparr>) \<and>
    (err = None \<longrightarrow> (\<exists>bs as. batch_ok False rb bs \<and> batch_ok False ra as \<and>
       b' = b\<lparr>lastUpdateID := uid, bids := sort_by cmp_bids bs, asks := sort_by cmp_asks as,
              priceCache := priceCache b'\<rparr>))"
  proof cases
    case bad
    with sn assms(1) show ?thesis by auto
  next
    case l1
    with sn s1 show ?thesis by auto
  next
    case l2
    with sn p2 s1 s2 show ?thesis by auto
  next
    case ok
    have b: "batch_ok False rb bs" "batch_ok False ra as" using ok s1 s2 by (auto simp: batch_ok_def)
    have raw: "\<forall>e\<in>set rb \<union> set ra. raw_ok False e" using ok s1 s2 by auto
    have e: "err = None" "b' = b\<lparr>lastUpdateID := uid, bids := sort_by cmp_bids bs,
        asks := sort_by cmp_asks as, priceCache := c2\<rparr>" using sn ok p2 by auto
    then have "b' = b\<lparr>lastUpdateID := uid, bids := sort_by cmp_bids bs,
        asks := sort_by cmp_asks as, priceCache := priceCache b'\<rparr>" by simp
    with e ok raw b s2 show ?thesis by auto
  qed
  then show "err = None \<longleftrightarrow> 0 < uid \<and> (\<forall>e\<in>set rb \<union> set ra. raw_ok False e)"
    "cache_ok (priceCache b')"
    "err \<noteq> None \<Longrightarrow> b' = b\<lparr>priceCache := priceCache b'\<rparr>"
    "err = None \<Longrightarrow> \<exists>bs as. batch_ok False rb bs \<and> batch_ok False ra as \<and>
       b' = b\<lparr>lastUpdateID := uid, bids := sort_by cmp_bids bs, asks := sort_by cmp_asks as,
              priceCache := priceCache b'\<rparr>"
    by blast+
qed

section \<open>The abstract book\<close>

text \<open>An abstract side maps a price value to the wire strings of its level.\<close>

type_synonym wire_side = "rat \<Rightarrow> (string \<times> string) option"

definition abs_side :: "price_level list \<Rightarrow> wire_side" where
  "abs_side xs = (\<lambda>p. map_option (\<lambda>l. (pl_price l, pl_amount l)) (side_map xs p))"

fun put_wire :: "wire_side \<Rightarrow> string list \<Rightarrow> wire_side" where
  "put_wire m [p, a] = m(level_value p := (if level_value a = 0 then None else Some (p, a)))"
| "put_wire m _ = m"

lemma abs_put_levels:
  "\<forall>l\<in>set ls. level_ok True l \<Longrightarrow>
   (\<lambda>p. map_option (\<lambda>l. (pl_price l, pl_amount l)) (foldl put_level m ls p)) =
   foldl put_wire (\<lambda>p. map_option (\<lambda>l. (pl_price l, pl_amount l)) (m p))
     (map (\<lambda>l. [pl_price l, pl_amount l]) ls)"
proof (induction ls arbitrary: m)
  case (Cons l ls)
  have "(\<lambda>p. map_option (\<lambda>l. (pl_price l, pl_amount l)) (put_level m l p)) =
    put_wire (\<lambda>p. map_option (\<lambda>l. (pl_price l, pl_amount l)) (m p)) [pl_price l, pl_amount l]"
    using Cons.prems level_ok_values[of True l] by (auto simp: put_level_def IsZero_iff fun_eq_iff)
  with Cons show ?case by simp
qed simp

lemma abs_applySides_bid:
  assumes "side_ok bid_key xs" "side_strict bid_key xs" "batch_ok True raw ls"
  shows "side_strict bid_key (foldl (applySide search_bids) xs ls)"
    "abs_side (foldl (applySide search_bids) xs ls) = foldl put_wire (abs_side xs) raw"
  using bid.applySides_map[OF assms(1,2), of ls] abs_put_levels[of ls "side_map xs"] assms(3)
  by (auto simp: abs_side_def batch_ok_def)

lemma abs_applySides_ask:
  assumes "side_ok rv xs" "side_strict rv xs" "batch_ok True raw ls"
  shows "side_strict rv (foldl (applySide search_asks) xs ls)"
    "abs_side (foldl (applySide search_asks) xs ls) = foldl put_wire (abs_side xs) raw"
  using ask.applySides_map[OF assms(1,2), of ls] abs_put_levels[of ls "side_map xs"] assms(3)
  by (auto simp: abs_side_def batch_ok_def)

section \<open>Best prices\<close>

lemma side_ok_head:
  "side_ok key xs \<Longrightarrow> xs \<noteq> [] \<Longrightarrow> \<forall>l\<in>set xs. key (pl_dec (xs ! 0)) \<le> key (pl_dec l)"
  by (cases xs) (auto simp: side_ok_def side_sorted_def)

lemma side_map_Some:
  "distinct (map (\<lambda>l. rv (pl_dec l)) xs) \<Longrightarrow> side_map xs p = Some l \<longleftrightarrow> l \<in> set xs \<and> rv (pl_dec l) = p"
  by (induction xs) (auto simp: image_iff)

lemma side_map_perm:
  assumes "distinct (map (\<lambda>l. rv (pl_dec l)) xs)" "mset ys = mset xs"
  shows "side_map ys = side_map xs"
proof
  fix p
  have d: "distinct (map (\<lambda>l. rv (pl_dec l)) ys)"
    using assms by (metis mset_eq_imp_distinct_iff mset_map)
  have s: "set ys = set xs" using assms(2) by (metis set_mset_mset)
  show "side_map ys p = side_map xs p"
    using side_map_Some[OF d, of p] side_map_Some[OF assms(1), of p] s
    by (cases "side_map ys p"; cases "side_map xs p") auto
qed

lemma put_levels_distinct:
  "\<forall>l\<in>set ls. level_ok False l \<Longrightarrow> distinct (map (\<lambda>l. rv (pl_dec l)) ls) \<Longrightarrow>
   foldl put_level Map.empty ls = side_map ls"
proof (induction ls rule: rev_induct)
  case (snoc l ls)
  have "side_map ls (rv (pl_dec l)) = None"
    using snoc.prems(2) by (intro side_map_None) (auto simp: image_iff eq_commute)
  moreover have "\<not> IsZero (pl_amt l)" using snoc.prems(1) by (auto simp: level_ok_def IsZero_iff)
  ultimately show ?case using snoc
    by (auto simp: put_level_def fun_eq_iff side_map_append split: option.splits)
qed (simp add: side_map_def)

lemma level_ok_weaken: "level_ok False l \<Longrightarrow> level_ok True l"
  by (simp add: level_ok_def)

lemma snapshot_side:
  assumes "batch_ok False raw ls" "distinct (map (\<lambda>e. level_value (hd e)) raw)" "mset ys = mset ls"
  shows "distinct (map (\<lambda>l. rv (pl_dec l)) ys)" "abs_side ys = foldl put_wire Map.empty raw"
proof -
  have lv: "\<forall>l\<in>set ls. level_value (pl_price l) = rv (pl_dec l)"
    using assms(1) level_ok_values by (auto simp: batch_ok_def)
  have d: "distinct (map (\<lambda>l. rv (pl_dec l)) ls)"
  proof -
    have "map (\<lambda>l. rv (pl_dec l)) ls = map (\<lambda>l. level_value (pl_price l)) ls" using lv by simp
    also have "\<dots> = map (\<lambda>e. level_value (hd e)) raw"
      using assms(1) by (auto simp: batch_ok_def)
    finally show ?thesis using assms(2) by simp
  qed
  then show "distinct (map (\<lambda>l. rv (pl_dec l)) ys)"
    using assms(3) by (metis mset_eq_imp_distinct_iff mset_map)
  have "abs_side ys = (\<lambda>p. map_option (\<lambda>l. (pl_price l, pl_amount l)) (foldl put_level Map.empty ls p))"
    using side_map_perm[OF d assms(3)] put_levels_distinct[of ls] d assms(1)
    by (simp add: abs_side_def batch_ok_def)
  also have "\<dots> = foldl put_wire (\<lambda>p. map_option (\<lambda>l. (pl_price l, pl_amount l)) (Map.empty p))
      (map (\<lambda>l. [pl_price l, pl_amount l]) ls)"
    using assms(1) abs_put_levels[of ls Map.empty] by (simp add: batch_ok_def level_ok_weaken)
  finally show "abs_side ys = foldl put_wire Map.empty raw" using assms(1) by (simp add: batch_ok_def)
qed

lemma ApplyDiff_strict:
  assumes "book_strict b" "ApplyDiff b uid rb ra = (b', None)"
  shows "abs_side (bids b') = foldl put_wire (abs_side (bids b)) rb"
    "abs_side (asks b') = foldl put_wire (abs_side (asks b)) ra"
    "LastUpdateID b' = uid" "book_strict b'"
proof -
  have ok: "book_ok b" "side_ok bid_key (bids b)" "side_ok rv (asks b)" "cache_ok (priceCache b)"
    "side_strict bid_key (bids b)" "side_strict rv (asks b)"
    using assms(1) by (simp_all add: book_strict_def book_ok_def)
  note c = ApplyDiff_cases[OF ok(4) assms(2)]
  obtain bs as where b: "batch_ok True rb bs" "batch_ok True ra as"
    "b' = b\<lparr>lastUpdateID := uid, bids := foldl (applySide search_bids) (bids b) bs,
            asks := foldl (applySide search_asks) (asks b) as, priceCache := priceCache b'\<rparr>"
    using c(4) by blast
  have f: "bids b' = foldl (applySide search_bids) (bids b) bs" "lastUpdateID b' = uid"
    "asks b' = foldl (applySide search_asks) (asks b) as" by (subst b(3), simp)+
  have "book_ok b'" using ok c(2) f b(1,2)
    by (simp add: book_ok_def batch_ok_def bid.applySides_ok ask.applySides_ok)
  then show "abs_side (bids b') = foldl put_wire (abs_side (bids b)) rb"
    "abs_side (asks b') = foldl put_wire (abs_side (asks b)) ra"
    "LastUpdateID b' = uid" "book_strict b'"
    using f abs_applySides_bid[OF ok(2,5) b(1)] abs_applySides_ask[OF ok(3,6) b(2)]
    by (simp_all add: book_strict_def LastUpdateID_def)
qed

lemma book_ok_ApplySnapshot_result:
  assumes "book_ok b"
  shows "book_ok (fst (ApplySnapshot b uid rb ra))"
proof -
  have ok: "side_ok bid_key (bids b)" "side_ok rv (asks b)" "cache_ok (priceCache b)"
    using assms by (simp_all add: book_ok_def)
  obtain b1 e1 where d: "ApplySnapshot b uid rb ra = (b1, e1)" by fastforce
  note c = ApplySnapshot_cases[OF ok(3) d]
  show "book_ok (fst (ApplySnapshot b uid rb ra))"
  proof (cases e1)
    case None
    with c(4) obtain bs as where b: "batch_ok False rb bs" "batch_ok False ra as"
      "b1 = b\<lparr>lastUpdateID := uid, bids := sort_by cmp_bids bs, asks := sort_by cmp_asks as,
              priceCache := priceCache b1\<rparr>" by blast
    have "bids b1 = sort_by cmp_bids bs" "asks b1 = sort_by cmp_asks as" by (subst b(3), simp)+
    with b(1,2) c(2) d show ?thesis by (simp add: book_ok_def batch_ok_def sort_bids_ok sort_asks_ok)
  next
    case (Some e)
    then have b: "b1 = b\<lparr>priceCache := priceCache b1\<rparr>" using c(3) by simp
    have "bids b1 = bids b" "asks b1 = asks b" by (subst b, simp)+
    with ok c(2) d show ?thesis by (simp add: book_ok_def)
  qed
qed

lemma book_ok_ApplyDiff_result:
  assumes "book_ok b"
  shows "book_ok (fst (ApplyDiff b uid rb ra))"
proof -
  have ok: "side_ok bid_key (bids b)" "side_ok rv (asks b)" "cache_ok (priceCache b)"
    using assms by (simp_all add: book_ok_def)
  obtain b2 e2 where d: "ApplyDiff b uid rb ra = (b2, e2)" by fastforce
  note c = ApplyDiff_cases[OF ok(3) d]
  show "book_ok (fst (ApplyDiff b uid rb ra))"
  proof (cases e2)
    case None
    with c(4) obtain bs as where b: "batch_ok True rb bs" "batch_ok True ra as"
      "b2 = b\<lparr>lastUpdateID := uid, bids := foldl (applySide search_bids) (bids b) bs,
              asks := foldl (applySide search_asks) (asks b) as, priceCache := priceCache b2\<rparr>" by blast
    have "bids b2 = foldl (applySide search_bids) (bids b) bs"
      "asks b2 = foldl (applySide search_asks) (asks b) as" by (subst b(3), simp)+
    with b(1,2) c(2) d ok show ?thesis
      by (simp add: book_ok_def batch_ok_def bid.applySides_ok ask.applySides_ok)
  next
    case (Some e)
    then have b: "b2 = b\<lparr>priceCache := priceCache b2\<rparr>" using c(3) by simp
    have "bids b2 = bids b" "asks b2 = asks b" by (subst b, simp)+
    with ok c(2) d show ?thesis by (simp add: book_ok_def)
  qed
qed

lemma book_ok_ApplyLevel_result:
  assumes "book_ok b"
  shows "book_ok (fst (ApplyLevel b isBid p a))"
proof -
  have ok: "side_ok bid_key (bids b)" "side_ok rv (asks b)" "cache_ok (priceCache b)"
    using assms by (simp_all add: book_ok_def)
  obtain c3 r3 where l: "parseLevel p a True (priceCache b) = (c3, r3)" by fastforce
  note sp = parseLevel_spec[OF ok(3) l]
  show "book_ok (fst (ApplyLevel b isBid p a))"
  proof (cases r3)
    case (Inl e)
    with l sp ok show ?thesis by (simp add: ApplyLevel_def book_ok_def)
  next
    case (Inr level)
    with sp(2)[OF this] l sp(1) ok show ?thesis
      by (simp add: ApplyLevel_def applyLevelLocked_def book_ok_def bid.applySide_ok ask.applySide_ok)
  qed
qed

section \<open>A concrete batch\<close>

lemma demo_book_ok: "book_strict (NewOrderBook ''btcusd'')" "book_ok (NewOrderBook ''btcusd'')"
  by (simp_all add: book_strict_def book_ok_def NewOrderBook_def side_ok_def side_sorted_def
      side_strict_def)

lemma demo_values:
  "level_value ''10'' = 10" "level_value ''2'' = 2" "level_value ''12'' = 12"
  "parses ''10''" "parses ''2''" "parses ''12''"
  by (simp_all add: level_value_def parses_def parse_eval rv_def mant_def)

lemma demo_raw_ok: "raw_ok False [''10'', ''2'']" "raw_ok False [''12'', ''2'']"
  "raw_ok True [''10'', ''2'']" "raw_ok True [''12'', ''2'']"
  by (simp_all add: raw_ok_def demo_values)

lemma demo_diff:
  "ApplyDiff (NewOrderBook ''btcusd'') 7 [[''10'', ''2'']] [[''12'', ''2'']] =
    (fst (ApplyDiff (NewOrderBook ''btcusd'') 7 [[''10'', ''2'']] [[''12'', ''2'']]), None)"
  using ApplyDiff_cases(1)[of "NewOrderBook ''btcusd''", OF _ surjective_pairing,
      of 7 "[[''10'', ''2'']]" "[[''12'', ''2'']]"] demo_raw_ok
  by (simp add: prod_eq_iff) (simp add: NewOrderBook_def)

lemma demo_snapshot:
  "ApplySnapshot (NewOrderBook ''btcusd'') 7 [[''10'', ''2'']] [[''12'', ''2'']] =
    (fst (ApplySnapshot (NewOrderBook ''btcusd'') 7 [[''10'', ''2'']] [[''12'', ''2'']]), None)"
  using ApplySnapshot_cases(1)[of "NewOrderBook ''btcusd''", OF _ surjective_pairing,
      of 7 "[[''10'', ''2'']]" "[[''12'', ''2'']]"] demo_raw_ok
  by (simp add: prod_eq_iff) (simp add: NewOrderBook_def)

section \<open>Properties\<close>

text \<open>C26: Every order book operation keeps the book well formed, whether it succeeds or fails:
  bids in descending and asks in ascending price order, every level with a positive price and a
  positive amount that are the parsed values of its wire strings, and a parse cache of at most
  4096 entries that never changes a parse.\<close>

theorem book_invariant:
  assumes "book_ok b"
  shows "book_ok (NewOrderBook s) \<and> book_ok (Clear b) \<and> book_ok (SetLastUpdateID b i) \<and>
    book_ok (fst (ApplySnapshot b uid rb ra)) \<and> book_ok (fst (ApplyDiff b uid rb ra)) \<and>
    book_ok (fst (ApplyLevel b isBid p a))"
  using assms book_ok_ApplySnapshot_result[OF assms] book_ok_ApplyDiff_result[OF assms]
    book_ok_ApplyLevel_result[OF assms]
  by (simp_all add: book_ok_def NewOrderBook_def Clear_def SetLastUpdateID_def side_ok_def
      side_sorted_def)

theorem book_invariant_witness:
  "book_ok (NewOrderBook ''btcusd'') \<and>
   book_ok (fst (ApplyDiff (NewOrderBook ''btcusd'') 1 [[''10'', ''1'']] [[''11'']]))"
proof -
  have "book_ok (NewOrderBook ''btcusd'')"
    by (simp add: book_ok_def NewOrderBook_def side_ok_def side_sorted_def)
  with book_invariant[of "NewOrderBook ''btcusd''" _ _ 1 "[[''10'', ''1'']]" "[[''11'']]"]
  show ?thesis by blast
qed

text \<open>C25: A diff refines the abstract book: on a book that holds each price once (\<open>book_strict\<close>; a
  snapshot that repeats a price leaves one that does not, see \<open>snapshot_duplicate_survives\<close>), an accepted
  diff has the effect of its entries, in order, on the map from price values to levels (an amount
  of zero deletes), moves the update id to the diff's and leaves each price listed once.\<close>

theorem apply_diff_refines:
  assumes "book_strict b" "ApplyDiff b uid rb ra = (b', None)"
  shows "abs_side (bids b') = foldl put_wire (abs_side (bids b)) rb \<and>
    abs_side (asks b') = foldl put_wire (abs_side (asks b)) ra \<and>
    LastUpdateID b' = uid \<and> LastUpdateID b \<le> uid \<and> book_strict b'"
proof -
  have "cache_ok (priceCache b)" using assms(1) by (simp add: book_strict_def book_ok_def)
  from ApplyDiff_cases(1)[OF this assms(2)] show ?thesis
    using ApplyDiff_strict[OF assms] by (simp add: LastUpdateID_def)
qed

theorem apply_diff_refines_witness:
  "abs_side (bids (fst (ApplyDiff (NewOrderBook ''btcusd'') 7 [[''10'', ''2'']] [[''12'', ''2'']]))) 10 =
     Some (''10'', ''2'') \<and>
   LastUpdateID (fst (ApplyDiff (NewOrderBook ''btcusd'') 7 [[''10'', ''2'']] [[''12'', ''2'']])) = 7"
  using apply_diff_refines[OF demo_book_ok(1) demo_diff] by (simp add: demo_values)

text \<open>A snapshot replaces the whole book whatever it held: when no price value occurs twice
  on a side, each side becomes the map of exactly the snapshot's entries and every price is
  listed once.\<close>

theorem apply_snapshot_refines:
  assumes "book_ok b" "ApplySnapshot b uid rb ra = (b', None)"
    and "distinct (map (\<lambda>e. level_value (hd e)) rb)" "distinct (map (\<lambda>e. level_value (hd e)) ra)"
  shows "abs_side (bids b') = foldl put_wire Map.empty rb \<and>
    abs_side (asks b') = foldl put_wire Map.empty ra \<and> LastUpdateID b' = uid \<and> book_strict b'"
proof -
  have ok: "cache_ok (priceCache b)" using assms(1) by (simp add: book_ok_def)
  note c = ApplySnapshot_cases[OF ok assms(2)]
  obtain bs as where b: "batch_ok False rb bs" "batch_ok False ra as"
    "b' = b\<lparr>lastUpdateID := uid, bids := sort_by cmp_bids bs, asks := sort_by cmp_asks as,
            priceCache := priceCache b'\<rparr>" using c(4) by blast
  have f: "bids b' = sort_by cmp_bids bs" "lastUpdateID b' = uid" "asks b' = sort_by cmp_asks as"
    by (subst b(3), simp)+
  have so: "side_ok bid_key (bids b')" "side_ok rv (asks b')"
    using f b(1,2) by (simp_all add: batch_ok_def sort_bids_ok sort_asks_ok)
  have m: "mset (bids b') = mset bs" "mset (asks b') = mset as" using f by simp_all
  note sb = snapshot_side[OF b(1) assms(3) m(1)] and sa = snapshot_side[OF b(2) assms(4) m(2)]
  have "side_strict bid_key (bids b')" "side_strict rv (asks b')"
    using so side_sorted_distinct[OF _ _ sb(1), of bid_key] side_sorted_distinct[OF _ _ sa(1), of rv]
    by (simp_all add: side_ok_def bid_key_def)
  then show ?thesis using so c(2) f sb(2) sa(2)
    by (simp add: book_strict_def book_ok_def LastUpdateID_def)
qed

theorem apply_snapshot_refines_witness:
  "abs_side (asks (fst (ApplySnapshot (NewOrderBook ''btcusd'') 7 [[''10'', ''2'']] [[''12'', ''2'']]))) 12 =
     Some (''12'', ''2'') \<and>
   LastUpdateID (fst (ApplySnapshot (NewOrderBook ''btcusd'') 7 [[''10'', ''2'']] [[''12'', ''2'']])) = 7"
  using apply_snapshot_refines[OF demo_book_ok(2) demo_snapshot] by (simp add: demo_values)

text \<open>Batches are all or nothing: a diff is accepted exactly when its id is positive and not
  older than the book's and every entry is a valid level; a snapshot exactly when its id is
  positive and every entry is a valid level with a positive amount; otherwise only the parse
  cache can have changed.\<close>

theorem book_batch_atomic:
  assumes "book_ok b"
  shows "(snd (ApplyDiff b uid rb ra) = None \<longleftrightarrow>
      0 < uid \<and> LastUpdateID b \<le> uid \<and> (\<forall>e\<in>set rb \<union> set ra. raw_ok True e)) \<and>
    (snd (ApplySnapshot b uid rb ra) = None \<longleftrightarrow> 0 < uid \<and> (\<forall>e\<in>set rb \<union> set ra. raw_ok False e)) \<and>
    (snd (ApplyDiff b uid rb ra) \<noteq> None \<longrightarrow>
      fst (ApplyDiff b uid rb ra) = b\<lparr>priceCache := priceCache (fst (ApplyDiff b uid rb ra))\<rparr>) \<and>
    (snd (ApplySnapshot b uid rb ra) \<noteq> None \<longrightarrow>
      fst (ApplySnapshot b uid rb ra) = b\<lparr>priceCache := priceCache (fst (ApplySnapshot b uid rb ra))\<rparr>)"
proof (intro conjI)
  have ok: "cache_ok (priceCache b)" using assms by (simp add: book_ok_def)
  note d = ApplyDiff_cases[OF ok surjective_pairing] and s = ApplySnapshot_cases[OF ok surjective_pairing]
  show "snd (ApplyDiff b uid rb ra) = None \<longleftrightarrow>
      0 < uid \<and> LastUpdateID b \<le> uid \<and> (\<forall>e\<in>set rb \<union> set ra. raw_ok True e)"
    using d(1) by (simp add: LastUpdateID_def)
  show "snd (ApplySnapshot b uid rb ra) = None \<longleftrightarrow> 0 < uid \<and> (\<forall>e\<in>set rb \<union> set ra. raw_ok False e)"
    using s(1) .
  show "snd (ApplyDiff b uid rb ra) \<noteq> None \<longrightarrow>
      fst (ApplyDiff b uid rb ra) = b\<lparr>priceCache := priceCache (fst (ApplyDiff b uid rb ra))\<rparr>"
    using d(3) by blast
  show "snd (ApplySnapshot b uid rb ra) \<noteq> None \<longrightarrow>
      fst (ApplySnapshot b uid rb ra) = b\<lparr>priceCache := priceCache (fst (ApplySnapshot b uid rb ra))\<rparr>"
    using s(3) by blast
qed

theorem book_batch_atomic_witness:
  "book_ok (NewOrderBook ''btcusd'') \<and>
   snd (ApplyDiff (NewOrderBook ''btcusd'') 3 [[''1'']] []) \<noteq> None \<and>
   snd (ApplySnapshot (NewOrderBook ''btcusd'') 3 [] []) = None"
proof -
  have ok: "book_ok (NewOrderBook ''btcusd'')"
    by (simp add: book_ok_def NewOrderBook_def side_ok_def side_sorted_def)
  then show ?thesis
    using book_batch_atomic[OF ok, of 3 "[[''1'']]" "[]"] book_batch_atomic[OF ok, of 3 "[]" "[]"]
    by (simp add: raw_ok_def)
qed

end
