(* ===== verification/BookDepth.thy ===== *)
theory BookDepth
  imports BookInv
begin

text \<open>
  Reading the book: best prices, crossing, and the market-order sweep of \<open>VWAP\<close>, proved to be
  the optimal fill of the side it sweeps by comparison with every other allocation.
\<close>

section \<open>The greedy sweep over exact numbers\<close>

fun sweep_cost :: "(rat \<times> rat) list \<Rightarrow> rat \<Rightarrow> rat" where
  "sweep_cost [] r = 0"
| "sweep_cost ((p, q) # ls) r = p * min r q + sweep_cost ls (r - min r q)"

definition total :: "(rat \<times> rat) list \<Rightarrow> rat" where
  "total ls = sum_list (map snd ls)"

lemma total_simps [simp]: "total [] = 0" "total ((p, q) # ls) = q + total ls"
  by (simp_all add: total_def)

lemma total_nonneg: "\<forall>l\<in>set ls. 0 \<le> snd l \<Longrightarrow> 0 \<le> total ls"
  by (induction ls) auto

lemma sweep_cost_zero [simp]: "\<forall>l\<in>set ls. 0 \<le> snd l \<Longrightarrow> sweep_cost ls 0 = 0"
  by (induction ls) auto

text \<open>One more unit costs at least the cheapest price of the levels.\<close>

lemma sweep_cost_marginal:
  "\<forall>l\<in>set ls. k \<le> fst l \<and> 0 \<le> snd l \<Longrightarrow> 0 \<le> r \<Longrightarrow> 0 \<le> d \<Longrightarrow> r + d \<le> total ls \<Longrightarrow>
   k * d \<le> sweep_cost ls (r + d) - sweep_cost ls r"
proof (induction ls arbitrary: r d)
  case (Cons l ls)
  obtain p q where l: "l = (p, q)" by fastforce
  have q: "0 \<le> q" "k \<le> p" using Cons.prems(1) l by auto
  let ?m = "min (r + d) q - min r q"
  have m: "0 \<le> ?m" "?m \<le> d" using Cons.prems(3) by (auto simp: min_def)
  have "0 \<le> r - min r q" "(r - min r q) + (d - ?m) = r + d - min (r + d) q"
    "r + d - min (r + d) q \<le> total ls"
    using Cons.prems(4) l total_nonneg[of ls] Cons.prems(1) by (auto simp: min_def)
  with Cons.IH[of "r - min r q" "d - ?m"] Cons.prems(1) m
  have "k * (d - ?m) \<le> sweep_cost ls (r + d - min (r + d) q) - sweep_cost ls (r - min r q)" by simp
  moreover have "k * ?m \<le> p * ?m" using m q(2) by (simp add: mult_right_mono)
  ultimately show ?case by (simp add: l algebra_simps)
next
  case Nil
  then have "d = 0" by simp
  then show ?case by simp
qed

text \<open>No allocation of the same quantity within the levels costs less than the sweep.\<close>

lemma sweep_cost_optimal:
  "sorted_wrt (\<lambda>a b. fst a \<le> fst b) ls \<Longrightarrow> list_all2 (\<lambda>x l. 0 \<le> x \<and> x \<le> snd l) xs ls \<Longrightarrow>
   sweep_cost ls (sum_list xs) \<le> sum_list (map2 (\<lambda>x l. fst l * x) xs ls)"
proof (induction ls arbitrary: xs)
  case (Cons l ls)
  obtain p q where l: "l = (p, q)" by fastforce
  obtain x ys where xs: "xs = x # ys" "0 \<le> x" "x \<le> q" "list_all2 (\<lambda>x l. 0 \<le> x \<and> x \<le> snd l) ys ls"
    using Cons.prems(2) l by (auto simp: list_all2_Cons2)
  have nn: "\<forall>l\<in>set ls. 0 \<le> snd l" "0 \<le> sum_list ys" "sum_list ys \<le> total ls"
    using xs(4) by (induction rule: list_all2_induct) (auto simp: total_def)
  have pr: "\<forall>l\<in>set ls. p \<le> fst l" using Cons.prems(1) l by auto
  let ?s = "x + sum_list ys" and ?m = "min (x + sum_list ys) q"
  have m: "x \<le> ?m" "0 \<le> ?s - ?m" using xs nn by auto
  have "p * (?m - x) \<le> sweep_cost ls ((?s - ?m) + (?m - x)) - sweep_cost ls (?s - ?m)"
    using nn pr m by (intro sweep_cost_marginal) auto
  moreover have "sweep_cost ls (sum_list ys) \<le> sum_list (map2 (\<lambda>x l. fst l * x) ys ls)"
    using Cons xs by simp
  ultimately show ?case using xs(1) l by (simp add: algebra_simps)
qed simp

section \<open>The sweep of the code\<close>

definition exact_levels :: "price_level list \<Rightarrow> (rat \<times> rat) list" where
  "exact_levels ls = map (\<lambda>l. (rv (pl_dec l), rv (pl_amt l))) ls"

lemma exact_levels_simps [simp]:
  "exact_levels [] = []" "exact_levels (l # ls) = (rv (pl_dec l), rv (pl_amt l)) # exact_levels ls"
  by (simp_all add: exact_levels_def)

lemma MinDecimal_rv:
  "scale_ok a \<Longrightarrow> scale_ok b \<Longrightarrow> rv (MinDecimal a b) = min (rv a) (rv b)"
  by (simp add: MinDecimal_def Cmp_rv)

lemma scale_within_Min:
  "scale_within k a \<Longrightarrow> scale_within k b \<Longrightarrow> scale_within k (MinDecimal a b)"
  by (simp add: MinDecimal_def)

lemma level_ok_within: "level_ok z l \<Longrightarrow> scale_within 1000 (pl_dec l) \<and> scale_within 1000 (pl_amt l)"
  using ParseDecimal_Inr by (auto simp: level_ok_def)

lemma vwap_sweep_spec:
  "\<forall>l\<in>set ls. level_ok False l \<Longrightarrow> scale_within 1000 r \<Longrightarrow> scale_within 1000 f \<Longrightarrow>
   scale_within 2000 t \<Longrightarrow> 0 \<le> rv r \<Longrightarrow> vwap_sweep ls r f t n = (r', f', t', n') \<Longrightarrow>
   rv r' = rv r - min (rv r) (total (exact_levels ls)) \<and>
   rv f' = rv f + min (rv r) (total (exact_levels ls)) \<and>
   rv t' = rv t + sweep_cost (exact_levels ls) (rv r)"
proof (induction ls r f t n rule: vwap_sweep.induct)
  case (2 l ls r f t n)
  have lv: "0 < rv (pl_amt l)" "scale_within 1000 (pl_dec l)" "scale_within 1000 (pl_amt l)"
    using "2.prems"(1) level_ok_within by (auto simp: level_ok_def)
  have nn: "\<forall>e\<in>set (exact_levels ls). 0 \<le> snd e"
    using "2.prems"(1) by (auto simp: exact_levels_def level_ok_def less_imp_le)
  note tn = total_nonneg[OF nn]
  show ?case
  proof (cases "IsZero r")
    case True
    then have "rv r = 0" by (simp add: IsZero_iff)
    with "2.prems"(6) True lv(1) nn tn show ?thesis by (auto simp: min_def)
  next
    case False
    define x where "x = MinDecimal r (pl_amt l)"
    have pos: "IsPositive (pl_amt l)" using lv(1) by (simp add: IsPositive_iff)
    have ok: "scale_ok r" "scale_ok (pl_amt l)" "scale_ok (pl_dec l)" "scale_ok f" "scale_ok t"
      using scale_within_ok[of 1000] scale_within_ok[of 2000] "2.prems"(2-4) lv by auto
    have xw: "scale_within 1000 x" using "2.prems"(2) lv(3) by (simp add: x_def scale_within_Min)
    have xv: "rv x = min (rv r) (rv (pl_amt l))" using ok by (simp add: x_def MinDecimal_rv)
    have xok: "scale_ok x" using scale_within_ok[OF xw] by simp
    have mw: "scale_within 2000 (Mul (pl_dec l) x)"
      using scale_within_Mul[OF lv(2) xw] by simp
    have mok: "scale_ok (Mul (pl_dec l) x)" using scale_within_ok[OF mw] by simp
    have eq: "vwap_sweep (l # ls) r f t n =
        vwap_sweep ls (Sub r x) (Add f x) (Add t (Mul (pl_dec l) x)) (n + 1)"
      using False pos by (simp add: x_def Let_def)
    have rx: "rv (Sub r x) = rv r - rv x" "rv (Add f x) = rv f + rv x"
      "rv (Add t (Mul (pl_dec l) x)) = rv t + rv (pl_dec l) * rv x"
      using ok xok mok by (simp_all add: Sub_rv Add_rv Mul_rv)
    have "rv r' = rv (Sub r x) - min (rv (Sub r x)) (total (exact_levels ls)) \<and>
      rv f' = rv (Add f x) + min (rv (Sub r x)) (total (exact_levels ls)) \<and>
      rv t' = rv (Add t (Mul (pl_dec l) x)) + sweep_cost (exact_levels ls) (rv (Sub r x))"
      unfolding x_def
    proof (rule "2.IH"(2)[OF False refl refl _ refl refl])
      show "\<not> \<not> IsPositive (pl_amt l)" using pos by simp
      show "\<forall>l\<in>set ls. level_ok False l" using "2.prems"(1) by simp
      show "scale_within 1000 (Sub r (MinDecimal r (pl_amt l)))"
        "scale_within 1000 (Add f (MinDecimal r (pl_amt l)))"
        using scale_within_Add[OF "2.prems"(2) xw] scale_within_Add[OF "2.prems"(3) xw]
        by (simp_all add: x_def)
      show "scale_within 2000 (Add t (Mul (pl_dec l) (MinDecimal r (pl_amt l))))"
        using scale_within_Add[OF "2.prems"(4) mw] by (simp add: x_def)
      show "0 \<le> rv (Sub r (MinDecimal r (pl_amt l)))" using rx(1) xv by (simp add: x_def)
      show "vwap_sweep ls (Sub r (MinDecimal r (pl_amt l))) (Add f (MinDecimal r (pl_amt l)))
        (Add t (Mul (pl_dec l) (MinDecimal r (pl_amt l)))) (n + 1) = (r', f', t', n')"
        using eq "2.prems"(6) by (simp add: x_def)
    qed
    then show ?thesis using rx xv tn lv(1) by (auto simp: min_def)
  qed
qed (auto simp: min_def)

lemma empty_fill_values: "rv nil_decimal = 0"
  by (simp add: rv_simps)

lemma VWAP_values:
  assumes "book_ok b" "VWAP b isBuy q = Inr f" "scale_within 1000 q"
  defines "ls \<equiv> exact_levels (if isBuy then asks b else bids b)"
  shows "0 < rv q" "rv (FilledQuantity f) = min (rv q) (total ls)"
    "rv (RemainingQty f) = rv q - min (rv q) (total ls)" "rv (TotalNotional f) = sweep_cost ls (rv q)"
proof -
  let ?xs = "if isBuy then asks b else bids b"
  have lv: "\<forall>l\<in>set ?xs. level_ok False l" using assms(1) by (simp add: book_ok_def side_ok_def)
  have q: "IsPositive q" using assms(2) by (simp add: VWAP_def split: if_splits)
  then show q0: "0 < rv q" by (simp add: IsPositive_iff)
  obtain r' f' t' n' where sw: "vwap_sweep ?xs q Zero Zero 0 = (r', f', t', n')"
    by (metis prod_cases4)
  note sp = vwap_sweep_spec[OF lv assms(3) _ _ _ sw]
  have v: "rv r' = rv q - min (rv q) (total ls)" "rv f' = min (rv q) (total ls)"
    "rv t' = sweep_cost ls (rv q)"
    using sp q0 unfolding ls_def by (simp_all add: rv_simps)
  have "rv (FilledQuantity f) = min (rv q) (total ls) \<and>
    rv (RemainingQty f) = rv q - min (rv q) (total ls) \<and> rv (TotalNotional f) = sweep_cost ls (rv q)"
  proof (cases "?xs = []")
    case True
    then have "ls = []" "f = empty_fill\<lparr>RemainingQty := q\<rparr>"
      using assms(2) q by (simp_all add: ls_def VWAP_def Let_def)
    then show ?thesis using q0 by (simp add: empty_fill_def rv_simps)
  next
    case False
    then have "FilledQuantity f = f' \<and> RemainingQty f = r' \<and> TotalNotional f = t'"
      using assms(2) q sw by (auto simp: VWAP_def Let_def split: prod.splits)
    with v show ?thesis by simp
  qed
  then show "rv (FilledQuantity f) = min (rv q) (total ls)"
    "rv (RemainingQty f) = rv q - min (rv q) (total ls)" "rv (TotalNotional f) = sweep_cost ls (rv q)"
    by blast+
qed

lemma neg_sweep_cost:
  "sweep_cost (map (\<lambda>(p, q). (- p, q)) ls) r = - sweep_cost ls r"
  by (induction ls arbitrary: r) auto

text \<open>An allocation takes from each level of a side at most what it offers.\<close>

definition allocation :: "price_level list \<Rightarrow> rat list \<Rightarrow> bool" where
  "allocation ls xs \<longleftrightarrow> list_all2 (\<lambda>x l. 0 \<le> x \<and> x \<le> rv (pl_amt l)) xs ls"

definition allocation_value :: "price_level list \<Rightarrow> rat list \<Rightarrow> rat" where
  "allocation_value ls xs = sum_list (map2 (\<lambda>x l. rv (pl_dec l) * x) xs ls)"

lemma allocation_exact:
  "allocation ls xs \<Longrightarrow> list_all2 (\<lambda>x l. 0 \<le> x \<and> x \<le> snd l) xs (exact_levels ls)"
  by (simp add: allocation_def exact_levels_def list_all2_map2)

lemma allocation_value_exact:
  "sum_list (map2 (\<lambda>x l. fst l * x) xs (exact_levels ls)) = allocation_value ls xs"
  by (simp add: allocation_value_def exact_levels_def zip_map2 comp_def case_prod_beta')

lemma allocation_total: "allocation ls xs \<Longrightarrow> sum_list xs \<le> total (exact_levels ls)"
  unfolding allocation_def by (induction rule: list_all2_induct) auto

lemma ask_sweep_optimal:
  assumes "side_sorted rv ls" "allocation ls xs"
  shows "sweep_cost (exact_levels ls) (sum_list xs) \<le> allocation_value ls xs"
proof -
  have "sorted_wrt (\<lambda>a b. fst a \<le> fst b) (exact_levels ls)"
    using assms(1) by (simp add: side_sorted_def exact_levels_def sorted_wrt_map)
  from sweep_cost_optimal[OF this allocation_exact[OF assms(2)]] show ?thesis
    by (simp add: allocation_value_exact)
qed

lemma bid_sweep_optimal:
  assumes "side_sorted bid_key ls" "allocation ls xs"
  shows "allocation_value ls xs \<le> sweep_cost (exact_levels ls) (sum_list xs)"
proof -
  let ?ns = "map (\<lambda>(p, q). (- p, q)) (exact_levels ls)"
  have "sorted_wrt (\<lambda>a b. fst a \<le> fst b) ?ns"
    using assms(1) by (simp add: side_sorted_def exact_levels_def sorted_wrt_map bid_key_def)
  moreover have "list_all2 (\<lambda>x l. 0 \<le> x \<and> x \<le> snd l) xs ?ns"
    using allocation_exact[OF assms(2)] by (simp add: list_all2_map2 case_prod_beta)
  ultimately have "sweep_cost ?ns (sum_list xs) \<le> sum_list (map2 (\<lambda>x l. fst l * x) xs ?ns)"
    by (rule sweep_cost_optimal)
  also have "sum_list (map2 (\<lambda>x l. fst l * x) xs ?ns) = - allocation_value ls xs"
    unfolding allocation_value_exact[symmetric]
    by (simp add: zip_map2 comp_def case_prod_beta uminus_sum_list_map)
  finally show ?thesis by (simp add: neg_sweep_cost)
qed

section \<open>Properties\<close>

text \<open>A simulated market order conserves quantity and is executed at the best prices: the fill
  is the smaller of the order and the depth, the rest remains, and no other way of taking that
  quantity from the levels costs a buyer less or pays a seller more than the reported notional.\<close>

theorem vwap_optimal:
  assumes "book_ok b" "scale_within 1000 q" "VWAP b isBuy q = Inr f"
  shows "rv (FilledQuantity f) + rv (RemainingQty f) = rv q \<and>
    rv (FilledQuantity f) = min (rv q) (sum_list (map (rv \<circ> pl_amt) (if isBuy then asks b else bids b))) \<and>
    (\<forall>xs. allocation (if isBuy then asks b else bids b) xs \<and> sum_list xs = rv q \<longrightarrow>
       (if isBuy then rv (TotalNotional f) \<le> allocation_value (asks b) xs
        else allocation_value (bids b) xs \<le> rv (TotalNotional f)))"
proof -
  note v = VWAP_values[OF assms(1,3,2)]
  have t: "total (exact_levels ls) = sum_list (map (rv \<circ> pl_amt) ls)" for ls
    by (induction ls) auto
  have s: "side_sorted rv (asks b)" "side_sorted bid_key (bids b)"
    using assms(1) by (simp_all add: book_ok_def side_ok_def)
  show ?thesis
    using v ask_sweep_optimal[OF s(1)] bid_sweep_optimal[OF s(2)] by (auto simp: t) metis+
qed

definition demo_depth_book :: order_book where
  "demo_depth_book =
     \<lparr>ob_symbol = ''btcusd'', lastUpdateID = 3, bids = [],
      asks = [\<lparr>pl_price = ''12'', pl_amount = ''2'', pl_val = Fin 12,
               pl_dec = \<lparr>dval = Some 12, dscale = 0\<rparr>, pl_amt = \<lparr>dval = Some 2, dscale = 0\<rparr>\<rparr>],
      priceCache = []\<rparr>"

lemma demo_depth_book_ok: "book_ok demo_depth_book"
proof -
  have "ParseDecimal ''12'' = Inr \<lparr>dval = Some 12, dscale = 0\<rparr>"
    "ParseDecimal ''2'' = Inr \<lparr>dval = Some 2, dscale = 0\<rparr>" by (simp_all add: parse_eval)
  then show ?thesis
    by (simp add: demo_depth_book_def book_ok_def side_ok_def side_sorted_def level_ok_def rv_def mant_def)
qed

lemma VWAP_accepts: "IsPositive q \<Longrightarrow> \<exists>f. VWAP b isBuy q = Inr f"
  by (auto simp: VWAP_def Let_def split: prod.splits)

theorem vwap_optimal_witness:
  "\<exists>f. VWAP demo_depth_book True \<lparr>dval = Some 15, dscale = 1\<rparr> = Inr f \<and>
     rv (FilledQuantity f) + rv (RemainingQty f) = 3 / 2"
proof -
  have "IsPositive \<lparr>dval = Some 15, dscale = 1\<rparr>" by (simp add: IsPositive_def mant_def)
  then obtain f where f: "VWAP demo_depth_book True \<lparr>dval = Some 15, dscale = 1\<rparr> = Inr f"
    using VWAP_accepts by blast
  have "scale_within 1000 \<lparr>dval = Some 15, dscale = 1\<rparr>" by (simp add: scale_within_def)
  from vwap_optimal[OF demo_depth_book_ok this f] f show ?thesis
    by (auto simp: rv_def mant_def power_int_minus)
qed

text \<open>The best bid is a level of maximal price, the best ask one of minimal price, both absent
  exactly when their side is empty, and the book is reported crossed exactly when some bid reaches
  some ask.\<close>

theorem best_prices:
  assumes "book_ok b"
  shows "(BestBid b = None \<longleftrightarrow> bids b = []) \<and> (BestAsk b = None \<longleftrightarrow> asks b = []) \<and>
    (\<forall>l. BestBid b = Some l \<longrightarrow> l \<in> set (bids b) \<and> (\<forall>m\<in>set (bids b). rv (pl_dec m) \<le> rv (pl_dec l))) \<and>
    (\<forall>l. BestAsk b = Some l \<longrightarrow> l \<in> set (asks b) \<and> (\<forall>m\<in>set (asks b). rv (pl_dec l) \<le> rv (pl_dec m))) \<and>
    (IsCrossed b \<longleftrightarrow> (\<exists>l\<in>set (bids b). \<exists>m\<in>set (asks b). rv (pl_dec m) \<le> rv (pl_dec l)))"
proof -
  have ok: "side_ok bid_key (bids b)" "side_ok rv (asks b)" using assms by (simp_all add: book_ok_def)
  have b: "\<forall>l\<in>set (bids b). rv (pl_dec l) \<le> rv (pl_dec (bids b ! 0))" if "bids b \<noteq> []"
    using side_ok_head[OF ok(1) that] by (simp add: bid_key_def)
  have a: "\<forall>l\<in>set (asks b). rv (pl_dec (asks b ! 0)) \<le> rv (pl_dec l)" if "asks b \<noteq> []"
    using side_ok_head[OF ok(2) that] .
  have sc: "scale_ok (pl_dec l)" if "l \<in> set (bids b) \<union> set (asks b)" for l
    using that side_ok_scales[OF ok(1)] side_ok_scales[OF ok(2)] by (auto simp: scales_ok_def)
  have "IsCrossed b \<longleftrightarrow> (\<exists>l\<in>set (bids b). \<exists>m\<in>set (asks b). rv (pl_dec m) \<le> rv (pl_dec l))"
  proof (cases "bids b = [] \<or> asks b = []")
    case False
    then have m: "bids b ! 0 \<in> set (bids b)" "asks b ! 0 \<in> set (asks b)" by simp_all
    have "IsCrossed b \<longleftrightarrow> rv (pl_dec (asks b ! 0)) \<le> rv (pl_dec (bids b ! 0))"
      using False sc m by (simp add: IsCrossed_def Cmp_rv)
    then show ?thesis using m a b False by (meson order_trans)
  qed (auto simp: IsCrossed_def)
  then show ?thesis using a b by (auto simp: BestBid_def BestAsk_def)
qed

theorem best_prices_witness: "BestAsk demo_depth_book \<noteq> None \<and> \<not> IsCrossed demo_depth_book"
  using best_prices[OF demo_depth_book_ok] by (simp add: demo_depth_book_def)

text \<open>A snapshot that lists a price twice leaves a level no diff can see: after the diff that
  deletes that price, the book still reports a best bid at it.\<close>

theorem snapshot_duplicate_survives:
  "\<exists>b1 b2 l. ApplySnapshot (NewOrderBook ''btcusd'') 7 [[''10'', ''2''], [''10'', ''2'']] [] = (b1, None) \<and>
     ApplyDiff b1 8 [[''10'', ''0'']] [] = (b2, None) \<and> BestBid b2 = Some l \<and> pl_price l = ''10''"
proof -
  let ?b = "NewOrderBook ''btcusd''" and ?raw = "[[''10'', ''2''], [''10'', ''2'']]"
  have ok: "book_ok ?b" "cache_ok (priceCache ?b)" using demo_book_ok(2) by (auto simp: book_ok_def)
  obtain b1 e1 where s: "ApplySnapshot ?b 7 ?raw [] = (b1, e1)" by fastforce
  note c = ApplySnapshot_cases[OF ok(2) s]
  have e1: "e1 = None" using c(1) demo_raw_ok by simp
  obtain bs as where bas: "batch_ok False ?raw bs" "b1 = ?b\<lparr>lastUpdateID := 7,
      bids := sort_by cmp_bids bs, asks := sort_by cmp_asks as, priceCache := priceCache b1\<rparr>"
    using c(4)[OF e1] by blast
  have "bids b1 = sort_by cmp_bids bs" "lastUpdateID b1 = 7" by (subst bas(2), simp)+
  with bas(1) have bs: "batch_ok False ?raw bs" "bids b1 = sort_by cmp_bids bs" "lastUpdateID b1 = 7"
    by simp_all
  have b1: "book_ok b1" using book_ok_ApplySnapshot_result[OF ok(1), of 7 ?raw "[]"] s by simp
  have bids: "length (bids b1) = 2" "\<forall>l\<in>set (bids b1). pl_price l = ''10''"
    using bs by (auto simp: batch_ok_def Cons_eq_map_conv map_eq_Cons_conv)
  obtain b2 e2 where d: "ApplyDiff b1 8 [[''10'', ''0'']] [] = (b2, e2)" by fastforce
  have "cache_ok (priceCache b1)" using b1 by (simp add: book_ok_def)
  note cd = ApplyDiff_cases[OF this d]
  have "level_value ''0'' = 0" "parses ''0''"
    by (simp_all add: level_value_def parses_def parse_eval rv_Zero rv_def mant_def Zero_def)
  then have e2: "e2 = None" using cd(1) bs(3) by (simp add: raw_ok_def demo_values)
  obtain ds as2 where das: "batch_ok True [[''10'', ''0'']] ds" "b2 = b1\<lparr>lastUpdateID := 8,
      bids := foldl (applySide search_bids) (bids b1) ds,
      asks := foldl (applySide search_asks) (asks b1) as2, priceCache := priceCache b2\<rparr>"
    using cd(4)[OF e2] by blast
  have "bids b2 = foldl (applySide search_bids) (bids b1) ds" by (subst das(2), simp)
  with das(1) have ds: "batch_ok True [[''10'', ''0'']] ds"
    "bids b2 = foldl (applySide search_bids) (bids b1) ds" by simp_all
  obtain l where l: "ds = [l]" "level_ok True l" "pl_amount l = ''0''"
    using ds(1) by (auto simp: batch_ok_def map_eq_Cons_conv)
  have z: "IsZero (pl_amt l)" using level_ok_values[OF l(2)] l(3) \<open>level_value ''0'' = 0\<close>
    by (simp add: IsZero_iff)
  have so: "side_sorted bid_key (bids b1)" "scales_ok (bids b1)" "scale_ok (pl_dec l)"
    using b1 side_ok_scales level_ok_scale[OF l(2)] by (auto simp: book_ok_def side_ok_def)
  obtain A M B where "bids b1 = A @ M @ B" "length M \<le> 1"
    "applySide search_bids (bids b1) l = A @ (if IsZero (pl_amt l) then [] else [l]) @ B"
    by (rule bid.applySide_cases[OF so])
  then have a: "bids b1 = A @ M @ B" "bids b2 = A @ B" "length M \<le> 1"
    using z ds(2) l(1) by simp_all
  then have "bids b2 \<noteq> []" "\<forall>l\<in>set (bids b2). pl_price l = ''10''" using bids by auto
  then show ?thesis using s e1 d e2 by (cases "bids b2") (auto simp: BestBid_def)
qed

end
