(* ===== verification/HttpErrors.thy ===== *)
theory HttpErrors
  imports Json
begin

text \<open>
  HTTP headers and responses, the error values of \<open>transport/errors.go\<close> with Go's
  \<open>errors.Is\<close> and \<open>errors.As\<close> over them, the classification of error responses, and the
  predicates of the root package's \<open>errors.go\<close>.
\<close>

section \<open>Headers\<close>

type_synonym header = "(string \<times> string list) list"

fun canonical_go :: "bool \<Rightarrow> string \<Rightarrow> string" where
  "canonical_go upper [] = []"
| "canonical_go upper (c # s) =
     (if upper then to_upper_char c else to_lower_char c) # canonical_go (c = CHR ''-'') s"

definition CanonicalHeaderKey :: "string \<Rightarrow> string" where
  "CanonicalHeaderKey k = canonical_go True k"

definition header_get :: "header \<Rightarrow> string \<Rightarrow> string" where
  "header_get h k = (case map_of h (CanonicalHeaderKey k) of Some (v # _) \<Rightarrow> v | _ \<Rightarrow> [])"

definition header_del :: "string \<Rightarrow> header \<Rightarrow> header" where
  "header_del k h = filter (\<lambda>(k', _). k' \<noteq> CanonicalHeaderKey k) h"

definition header_set :: "string \<Rightarrow> string \<Rightarrow> header \<Rightarrow> header" where
  "header_set k v h = (CanonicalHeaderKey k, [v]) # header_del k h"

lemma map_of_header_del: "map_of (header_del k h) k' = (if k' = CanonicalHeaderKey k then None else map_of h k')"
  by (induction h) (auto simp: header_del_def)

lemma header_get_set: "header_get (header_set k v h) k' =
    (if CanonicalHeaderKey k' = CanonicalHeaderKey k then v else header_get h k')"
  by (auto simp: header_get_def header_set_def map_of_header_del)

lemma header_get_del: "header_get (header_del k h) k' =
    (if CanonicalHeaderKey k' = CanonicalHeaderKey k then [] else header_get h k')"
  by (simp add: header_get_def map_of_header_del)

section \<open>Error values\<close>

datatype sentinel =
    ErrInvalidNonce | ErrMissingNonce | ErrInvalidSignature | ErrMissingRole
  | ErrInsufficientFunds | ErrAcceptTermsRequired | ErrMarketClosed | ErrOrderNotFound
  | ErrSelfCrossPrevented
  | ErrBadRequest | ErrUnauthorized | ErrPermissionDenied | ErrNotFound | ErrConflict
  | ErrRateLimited | ErrInternalServer | ErrServiceUnavailable
  | ErrAuthenticationRequired | ErrHTTPSRequired | ErrInvalidRequestURL
  | ErrCancelConfirmationRequired | ErrConnectionClosed | ErrDeadlineExceeded
  | ErrResyncRequired | ErrNoResponse | ErrBodyExceededLimit
  | ErrInvalidTokenSource | ErrTokenSourceFailure | ErrInvalidHMACCredentials
  | ErrInvalidNonceMode | ErrTimeBasedNonceRequired
  | ErrInvalidServiceConfiguration | ErrStreamingAlreadyStarted
  | Canceled | CtxDeadlineExceeded | EOF | ErrUnexpectedEOF
  | ECONNRESET | ECONNREFUSED | ETIMEDOUT

record api_error =
  ae_StatusCode :: int
  ae_Result :: string
  ae_Reason :: string
  ae_Message :: string
  ae_RequestID :: string
  ae_RawBody :: string
  ae_Header :: header

text \<open>
  Errors as the SDK distinguishes them. \<open>EWrap\<close> is \<open>fmt.Errorf\<close> with its \<open>%w\<close> operands,
  \<open>ENet\<close> any other \<open>net.Error\<close> with its timeout flag and what it wraps, \<open>EUrl\<close> the
  \<open>url.Error\<close> that \<open>http.Client.Do\<close> puts around its failures, \<open>EMsg\<close> an error without structure.
\<close>

datatype err =
    ESent sentinel
  | EResync int int
  | EApi api_error
  | ERate api_error int
  | EWrap string "err list"
  | ENet bool "err list"
  | EUrl err
  | EMsg string

definition reason_in :: "string list \<Rightarrow> api_error \<Rightarrow> bool" where
  "reason_in rs e \<longleftrightarrow> ae_Reason e \<in> set rs"

text \<open>\<open>APIError.IsDomain\<close>, \<open>APIError.Unwrap\<close> and \<open>APIError.Is\<close>.\<close>

definition IsDomain :: "api_error \<Rightarrow> bool" where
  "IsDomain e = reason_in [''InvalidNonce'', ''GenericNonceError'', ''MissingNonce'',
     ''InvalidSignature'', ''RateLimit'', ''UsageLimit'', ''InsufficientFunds'', ''MissingRole'',
     ''MarketClosed'', ''TradingClosed'', ''OrderNotFound'', ''NoSuchOrder'',
     ''SelfCrossPrevented'', ''MustAcceptTerms''] e"

definition status_sentinel :: "int \<Rightarrow> sentinel option" where
  "status_sentinel s =
     (if s = 400 then Some ErrBadRequest
      else if s = 401 then Some ErrUnauthorized
      else if s = 403 then Some ErrPermissionDenied
      else if s = 404 then Some ErrNotFound
      else if s = 409 then Some ErrConflict
      else if s = 429 then Some ErrRateLimited
      else if s = 500 then Some ErrInternalServer
      else if s \<in> {503, 502, 504} then Some ErrServiceUnavailable
      else None)"

definition APIError_Unwrap :: "api_error \<Rightarrow> sentinel option" where
  "APIError_Unwrap e =
     (if reason_in [''MissingNonce''] e then Some ErrMissingNonce
      else if reason_in [''MissingRole''] e then Some ErrMissingRole
      else if reason_in [''InvalidNonce'', ''GenericNonceError''] e then Some ErrInvalidNonce
      else if reason_in [''InvalidSignature''] e then Some ErrInvalidSignature
      else if reason_in [''RateLimit'', ''UsageLimit''] e then Some ErrRateLimited
      else if reason_in [''InsufficientFunds''] e then Some ErrInsufficientFunds
      else if reason_in [''MarketClosed'', ''TradingClosed''] e then Some ErrMarketClosed
      else if reason_in [''OrderNotFound'', ''NoSuchOrder''] e then Some ErrOrderNotFound
      else if reason_in [''SelfCrossPrevented''] e then Some ErrSelfCrossPrevented
      else if reason_in [''MustAcceptTerms''] e then Some ErrAcceptTermsRequired
      else status_sentinel (ae_StatusCode e))"

definition APIError_Is :: "api_error \<Rightarrow> sentinel \<Rightarrow> bool" where
  "APIError_Is e target \<longleftrightarrow>
     (target = ErrRateLimited \<and> (ae_StatusCode e = 429 \<or> reason_in [''RateLimit'', ''UsageLimit''] e)) \<or>
     (target = ErrInvalidNonce \<and> reason_in [''InvalidNonce'', ''GenericNonceError'', ''MissingNonce''] e)"

definition api_is :: "api_error \<Rightarrow> sentinel \<Rightarrow> bool" where
  "api_is e target \<longleftrightarrow> APIError_Is e target \<or> APIError_Unwrap e = Some target"

text \<open>\<open>APIError.Error\<close> and \<open>ResyncRequiredError.Error\<close>.\<close>

definition APIError_Error :: "api_error \<Rightarrow> string" where
  "APIError_Error e =
     (let pre = ''gemini api error (status '' @ FormatInt (ae_StatusCode e) @ ''): '';
          msg =
            (if ae_Reason e \<noteq> [] \<and> ae_Message e \<noteq> [] then pre @ ae_Reason e @ '' - '' @ ae_Message e
             else if ae_Message e \<noteq> [] then pre @ ae_Message e
             else if ae_Reason e \<noteq> [] then pre @ ae_Reason e
             else pre @ ''unstructured response body'')
      in if ae_RequestID e \<noteq> [] then msg @ '' [request_id: '' @ ae_RequestID e @ '']'' else msg)"

definition ResyncRequiredError_Error :: "int \<Rightarrow> int \<Rightarrow> string" where
  "ResyncRequiredError_Error lastID firstID =
     ''gemini order book gap: had update '' @ FormatInt lastID @ '', next diff started at '' @
     FormatInt firstID @ ''; resync required''"

text \<open>\<open>errors.Is\<close> for a sentinel target: the tree of wrapped errors, depth first, each node
  compared and asked through its \<open>Is\<close> method.\<close>

fun errors_is :: "err \<Rightarrow> sentinel \<Rightarrow> bool" and errors_is_any :: "err list \<Rightarrow> sentinel \<Rightarrow> bool" where
  "errors_is (ESent s) t = (s = t)"
| "errors_is (EResync _ _) t = (t = ErrResyncRequired)"
| "errors_is (EApi a) t = api_is a t"
| "errors_is (ERate a _) t = (t = ErrRateLimited \<or> api_is a t)"
| "errors_is (EWrap _ es) t = errors_is_any es t"
| "errors_is (ENet _ es) t = errors_is_any es t"
| "errors_is (EUrl e) t = errors_is e t"
| "errors_is (EMsg _) t = False"
| "errors_is_any [] t = False"
| "errors_is_any (e # es) t = (errors_is e t \<or> errors_is_any es t)"

text \<open>\<open>errors.As\<close> into an \<open>APIError\<close>; a rate limit error reaches it by unwrapping to the embedded one.\<close>

fun as_api :: "err \<Rightarrow> api_error option" and as_api_any :: "err list \<Rightarrow> api_error option" where
  "as_api (EApi a) = Some a"
| "as_api (ERate a _) = Some a"
| "as_api (EWrap _ es) = as_api_any es"
| "as_api (ENet _ es) = as_api_any es"
| "as_api (EUrl e) = as_api e"
| "as_api (ESent _) = None"
| "as_api (EResync _ _) = None"
| "as_api (EMsg _) = None"
| "as_api_any [] = None"
| "as_api_any (e # es) = (case as_api e of Some a \<Rightarrow> Some a | None \<Rightarrow> as_api_any es)"

definition RequestIDFromError :: "err option \<Rightarrow> string" where
  "RequestIDFromError e =
     (case e of None \<Rightarrow> []
      | Some x \<Rightarrow> (case as_api x of Some a \<Rightarrow> ae_RequestID a | None \<Rightarrow> []))"

text \<open>\<open>errors.As\<close> into a \<open>net.Error\<close>: the timeout flag of the first one in the tree. A
  \<open>url.Error\<close> is one, with the flag of the error directly inside it.\<close>

fun direct_timeout :: "err \<Rightarrow> bool" where
  "direct_timeout (ESent s) = (s = CtxDeadlineExceeded \<or> s = ETIMEDOUT)"
| "direct_timeout (ENet t _) = t"
| "direct_timeout (EUrl e) = direct_timeout e"
| "direct_timeout _ = False"

fun as_net :: "err \<Rightarrow> bool option" and as_net_any :: "err list \<Rightarrow> bool option" where
  "as_net (ESent s) =
     (if s \<in> {CtxDeadlineExceeded, ETIMEDOUT} then Some True
      else if s \<in> {ECONNRESET, ECONNREFUSED} then Some False else None)"
| "as_net (ENet t _) = Some t"
| "as_net (EUrl e) = Some (direct_timeout e)"
| "as_net (EApi a) = None"
| "as_net (ERate a _) = None"
| "as_net (EResync _ _) = None"
| "as_net (EWrap _ es) = as_net_any es"
| "as_net (EMsg _) = None"
| "as_net_any [] = None"
| "as_net_any (e # es) = (case as_net e of Some t \<Rightarrow> Some t | None \<Rightarrow> as_net_any es)"

section \<open>Error responses\<close>

record http_response =
  rs_StatusCode :: int
  rs_Header :: header

definition extractRequestID :: "header \<Rightarrow> string" where
  "extractRequestID h =
     (if header_get h ''X-GEMINI-REQUEST-ID'' \<noteq> [] then header_get h ''X-GEMINI-REQUEST-ID''
      else if header_get h ''X-Request-Id'' \<noteq> [] then header_get h ''X-Request-Id''
      else if header_get h ''X-Request-ID'' \<noteq> [] then header_get h ''X-Request-ID''
      else [])"

text \<open>Decoding a JSON body into an \<open>APIError\<close>: its untagged field \<open>StatusCode\<close> is a field of the
  JSON object like the tagged ones; members of the wrong type are skipped.\<close>

definition set_api_field :: "api_error \<Rightarrow> string \<times> json \<Rightarrow> api_error" where
  "set_api_field e m =
     (let (k, v) = m
      in if field_matches ''StatusCode'' k then
           (case v of
              JNum t \<Rightarrow> (case ParseInt 64 t of Some n \<Rightarrow> e\<lparr>ae_StatusCode := n\<rparr> | None \<Rightarrow> e)
            | _ \<Rightarrow> e)
         else if field_matches ''result'' k then
           (case v of JStr s \<Rightarrow> e\<lparr>ae_Result := s\<rparr> | _ \<Rightarrow> e)
         else if field_matches ''reason'' k then
           (case v of JStr s \<Rightarrow> e\<lparr>ae_Reason := s\<rparr> | _ \<Rightarrow> e)
         else if field_matches ''message'' k then
           (case v of JStr s \<Rightarrow> e\<lparr>ae_Message := s\<rparr> | _ \<Rightarrow> e)
         else e)"

definition decode_api_error :: "string \<Rightarrow> api_error \<Rightarrow> api_error" where
  "decode_api_error body e =
     (case parse_json body of Some (JObj ms) \<Rightarrow> foldl set_api_field e ms | _ \<Rightarrow> e)"

text \<open>\<open>parseRetryAfter\<close>, in nanoseconds. The argument \<open>until\<close> reads the clock: the time left until
  an HTTP date, if the text is one.\<close>

definition time_Second :: int where
  "time_Second = 1000000000"

definition parseRetryAfter :: "(string \<Rightarrow> int option) \<Rightarrow> string \<Rightarrow> int" where
  "parseRetryAfter until h =
     (if h = [] then 0
      else case ParseInt 64 (TrimSpace h) of
        Some secs \<Rightarrow>
          if 0 \<le> secs then (if max_int64 sdiv time_Second < secs then max_int64 else secs * time_Second)
          else (case until h of Some diff \<Rightarrow> if 0 < diff then diff else 0 | None \<Rightarrow> 0)
      | None \<Rightarrow> (case until h of Some diff \<Rightarrow> if 0 < diff then diff else 0 | None \<Rightarrow> 0))"

definition ClassifyResponse ::
  "(string \<Rightarrow> int option) \<Rightarrow> http_response option \<Rightarrow> string \<Rightarrow> err option" where
  "ClassifyResponse until resp body =
     (case resp of
        None \<Rightarrow> Some (ESent ErrNoResponse)
      | Some r \<Rightarrow>
          if 200 \<le> rs_StatusCode r \<and> rs_StatusCode r < 300 then None
          else
            let apiErr0 = \<lparr>ae_StatusCode = rs_StatusCode r, ae_Result = [], ae_Reason = [],
                  ae_Message = [], ae_RequestID = extractRequestID (rs_Header r),
                  ae_RawBody = body, ae_Header = rs_Header r\<rparr>;
                apiErr = (if 0 < length body then decode_api_error body apiErr0 else apiErr0)
            in if rs_StatusCode r = 429
               then Some (ERate apiErr (parseRetryAfter until (header_get (rs_Header r) ''Retry-After'')))
               else Some (EApi apiErr))"

section \<open>The predicates of the root package\<close>

definition AsAPIError :: "err option \<Rightarrow> api_error option" where
  "AsAPIError e = (case e of None \<Rightarrow> None | Some x \<Rightarrow> as_api x)"

definition IsAPIError :: "err option \<Rightarrow> bool" where
  "IsAPIError e \<longleftrightarrow> AsAPIError e \<noteq> None"

text \<open>\<open>errors.Is(err, target)\<close> on a possibly nil error.\<close>

definition is_err :: "err option \<Rightarrow> sentinel \<Rightarrow> bool" where
  "is_err e t \<longleftrightarrow> (case e of None \<Rightarrow> False | Some x \<Rightarrow> errors_is x t)"

definition IsDomainError :: "err option \<Rightarrow> bool" where
  "IsDomainError e \<longleftrightarrow>
     (case AsAPIError e of Some a \<Rightarrow> IsDomain a | None \<Rightarrow> False) \<or>
     is_err e ErrInsufficientFunds \<or> is_err e ErrMarketClosed \<or> is_err e ErrOrderNotFound \<or>
     is_err e ErrSelfCrossPrevented \<or> is_err e ErrAcceptTermsRequired \<or> is_err e ErrInvalidNonce \<or>
     is_err e ErrMissingNonce \<or> is_err e ErrInvalidSignature \<or> is_err e ErrMissingRole"

definition IsRateLimit :: "err option \<Rightarrow> bool" where
  "IsRateLimit e = is_err e ErrRateLimited"

definition IsInsufficientFunds :: "err option \<Rightarrow> bool" where
  "IsInsufficientFunds e = is_err e ErrInsufficientFunds"

definition IsMarketClosed :: "err option \<Rightarrow> bool" where
  "IsMarketClosed e = is_err e ErrMarketClosed"

definition IsOrderNotFound :: "err option \<Rightarrow> bool" where
  "IsOrderNotFound e = is_err e ErrOrderNotFound"

definition IsSelfCrossPrevented :: "err option \<Rightarrow> bool" where
  "IsSelfCrossPrevented e = is_err e ErrSelfCrossPrevented"

definition IsTermsRequired :: "err option \<Rightarrow> bool" where
  "IsTermsRequired e = is_err e ErrAcceptTermsRequired"

definition IsAuthError :: "err option \<Rightarrow> bool" where
  "IsAuthError e \<longleftrightarrow> is_err e ErrInvalidSignature \<or> is_err e ErrInvalidNonce \<or>
     is_err e ErrMissingNonce \<or> is_err e ErrMissingRole \<or> is_err e ErrUnauthorized"

definition IsNotFound :: "err option \<Rightarrow> bool" where
  "IsNotFound e \<longleftrightarrow> is_err e ErrOrderNotFound \<or> is_err e ErrNotFound"

definition IsBadRequest :: "err option \<Rightarrow> bool" where
  "IsBadRequest e \<longleftrightarrow> is_err e ErrBadRequest \<or>
     (case AsAPIError e of Some a \<Rightarrow> ae_StatusCode a = 400 | None \<Rightarrow> False)"

definition IsPermissionDenied :: "err option \<Rightarrow> bool" where
  "IsPermissionDenied e \<longleftrightarrow> is_err e ErrPermissionDenied \<or> is_err e ErrMissingRole"

definition IsConflict :: "err option \<Rightarrow> bool" where
  "IsConflict e = is_err e ErrConflict"

definition IsInternalServerError :: "err option \<Rightarrow> bool" where
  "IsInternalServerError e = is_err e ErrInternalServer"

definition IsServiceUnavailable :: "err option \<Rightarrow> bool" where
  "IsServiceUnavailable e = is_err e ErrServiceUnavailable"

definition IsResyncRequired :: "err option \<Rightarrow> bool" where
  "IsResyncRequired e = is_err e ErrResyncRequired"

definition IsTimeout :: "err option \<Rightarrow> bool" where
  "IsTimeout e \<longleftrightarrow> is_err e ErrDeadlineExceeded \<or> is_err e CtxDeadlineExceeded"

end
