(* ===== verification/LiveBook.thy ===== *)
theory LiveBook
  imports BookDepth HttpErrors
begin

text \<open>
  The live order book of \<open>websocket/orderbook/live_book.go\<close>: a book kept in step with a stream
  of depth updates. It buffers diffs until a snapshot arrives, replays them, then applies diffs
  while their update ids are contiguous and otherwise drops out of the live state asking for a
  resynchronisation. Every operation returns the new state, the error and the callbacks it runs.
\<close>

section \<open>Messages and state\<close>

text \<open>\<open>websocket.DepthUpdate\<close> and \<open>websocket.OrderBookSnapshot\<close>.\<close>

record depth_update =
  du_event_type :: string
  du_event_time :: int
  du_symbol :: string
  du_first :: int
  du_last :: int
  du_bids :: "string list list"
  du_asks :: "string list list"
  du_snapshot :: bool

record book_snapshot =
  sn_event_type :: string
  sn_event_time :: int
  sn_symbol :: string
  sn_last :: int
  sn_bids :: "string list list"
  sn_asks :: "string list list"

text \<open>Errors of the book, of the transport package, and the live book's own.\<close>

datatype live_error =
    BookErr book_error
  | TransportErr err
  | ErrSymbolMismatch string string
  | NilSnapshot
  | NilDepthUpdate

text \<open>\<open>errors.Is(err, transport.ErrResyncRequired)\<close>.\<close>

definition is_ErrResyncRequired :: "live_error \<Rightarrow> bool" where
  "is_ErrResyncRequired e \<longleftrightarrow>
     (case e of TransportErr x \<Rightarrow> errors_is x ErrResyncRequired | _ \<Rightarrow> False)"

definition ResyncRequired :: "int \<Rightarrow> int \<Rightarrow> live_error" where
  "ResyncRequired lastID firstID = TransportErr (EResync lastID firstID)"

definition DiffQueueExceeded :: live_error where
  "DiffQueueExceeded =
     TransportErr (EWrap ''buffered diff queue exceeded 4096 updates'' [ESent ErrResyncRequired])"

record bbo =
  bbo_Symbol :: string
  bbo_BestBid :: string
  bbo_BestAsk :: string
  bbo_Mid :: f64
  bbo_Spread :: f64
  bbo_SpreadBps :: f64
  HasBBO :: bool
  bbo_IsCrossed :: bool

definition empty_bbo :: bbo where
  "empty_bbo = \<lparr>bbo_Symbol = [], bbo_BestBid = [], bbo_BestAsk = [], bbo_Mid = Fin 0,
     bbo_Spread = Fin 0, bbo_SpreadBps = Fin 0, HasBBO = False, bbo_IsCrossed = False\<rparr>"

text \<open>A callback is an opaque function value, here a number naming it.\<close>

type_synonym callback = nat

record live_book =
  lb_book :: order_book
  live :: bool
  lb_err :: "live_error option"
  diffQueue :: "depth_update list"
  bboListeners :: "(int \<times> callback) list"
  nextListenerID :: int
  lastBBO :: bbo

definition maxBufferedDiffs :: nat where
  "maxBufferedDiffs = 4096"

definition NewLiveOrderBook :: "string \<Rightarrow> live_book" where
  "NewLiveOrderBook marketSymbol =
     \<lparr>lb_book = NewOrderBook marketSymbol, live = False, lb_err = None, diffQueue = [],
      bboListeners = [], nextListenerID = 0, lastBBO = empty_bbo\<rparr>"

definition IsLive :: "live_book \<Rightarrow> bool" where
  "IsLive l = live l"

definition LiveErr :: "live_book \<Rightarrow> live_error option" where
  "LiveErr l = lb_err l"

definition LiveReset :: "live_book \<Rightarrow> live_book" where
  "LiveReset l = l\<lparr>live := False, lb_err := None, diffQueue := [], lastBBO := empty_bbo,
     lb_book := Clear (lb_book l)\<rparr>"

section \<open>Best bid and offer\<close>

definition currentBBOLocked :: "live_book \<Rightarrow> bbo" where
  "currentBBOLocked l =
     (let bbo0 = empty_bbo\<lparr>bbo_Symbol := Symbol (lb_book l)\<rparr>
      in case (BestBid (lb_book l), BestAsk (lb_book l)) of
           (Some bid, Some ask) \<Rightarrow>
             let spread = f_sub (pl_val ask) (pl_val bid);
                 mid = f_div (f_add (pl_val ask) (pl_val bid)) (Fin 2)
             in bbo0\<lparr>bbo_BestBid := pl_price bid, bbo_BestAsk := pl_price ask, HasBBO := True,
                     bbo_Spread := spread, bbo_Mid := mid,
                     bbo_IsCrossed := 0 \<le> Cmp (pl_dec bid) (pl_dec ask),
                     bbo_SpreadBps := (if f_less (Fin 0) mid
                                       then f_mul (f_div spread mid) (Fin 10000) else Fin 0)\<rparr>
         | (Some bid, None) \<Rightarrow> bbo0\<lparr>bbo_BestBid := pl_price bid\<rparr>
         | (None, Some ask) \<Rightarrow> bbo0\<lparr>bbo_BestAsk := pl_price ask\<rparr>
         | (None, None) \<Rightarrow> bbo0)"

definition CurrentBBO :: "live_book \<Rightarrow> bbo" where
  "CurrentBBO l = currentBBOLocked l"

text \<open>Registration returns the listener's id, which the returned closure captures;
  \<open>unregister\<close> is that closure. Without a callback the closure does nothing.\<close>

definition OnBBOChanged :: "live_book \<Rightarrow> callback option \<Rightarrow> live_book \<times> int option" where
  "OnBBOChanged l callback =
     (case callback of
        None \<Rightarrow> (l, None)
      | Some cb \<Rightarrow>
          let i = (nextListenerID l + 1) mod 2 ^ 64
          in (l\<lparr>nextListenerID := i, bboListeners := bboListeners l @ [(i, cb)]\<rparr>, Some i))"

fun remove_listener :: "int \<Rightarrow> (int \<times> callback) list \<Rightarrow> (int \<times> callback) list" where
  "remove_listener i [] = []"
| "remove_listener i (x # xs) = (if fst x = i then xs else x # remove_listener i xs)"

definition unregister :: "live_book \<Rightarrow> int option \<Rightarrow> live_book" where
  "unregister l handle =
     (case handle of
        None \<Rightarrow> l
      | Some i \<Rightarrow> l\<lparr>bboListeners := remove_listener i (bboListeners l)\<rparr>)"

text \<open>The callbacks to run with the new top of book; \<open>None\<close> when it did not change.\<close>

definition checkBBOChangeLocked :: "live_book \<Rightarrow> live_book \<times> (callback list \<times> bbo) option" where
  "checkBBOChangeLocked l =
     (if bboListeners l = [] then (l, None)
      else
        let newBBO = currentBBOLocked l
        in if bbo_BestBid newBBO \<noteq> bbo_BestBid (lastBBO l) \<or> bbo_BestAsk newBBO \<noteq> bbo_BestAsk (lastBBO l)
           then (l\<lparr>lastBBO := newBBO\<rparr>, Some (map snd (bboListeners l), newBBO))
           else (l, None))"

type_synonym notices = "(callback \<times> bbo) list"

definition notifyListeners :: "(callback list \<times> bbo) option \<Rightarrow> notices" where
  "notifyListeners changed =
     (case changed of None \<Rightarrow> [] | Some (listeners, b) \<Rightarrow> map (\<lambda>cb. (cb, b)) listeners)"

section \<open>Sequencing\<close>

definition validateSymbol :: "string \<Rightarrow> string \<Rightarrow> live_error option" where
  "validateSymbol bookSymbol updateSymbol =
     (let b = TrimSpace bookSymbol; u = TrimSpace updateSymbol
      in if b = [] \<or> u = [] \<or> EqualFold b u then None else Some (ErrSymbolMismatch b u))"

definition nextUpdateID :: "int \<Rightarrow> int" where
  "nextUpdateID lastID = (if lastID = max_int64 then lastID else lastID + 1)"

definition bad_bounds :: "depth_update \<Rightarrow> bool" where
  "bad_bounds d \<longleftrightarrow> du_first d \<le> 0 \<or> du_last d < du_first d"

definition applyDiffLocked :: "order_book \<Rightarrow> depth_update \<Rightarrow> order_book \<times> live_error option" where
  "applyDiffLocked b d =
     (if bad_bounds d then (b, Some (ResyncRequired (LastUpdateID b) (du_first d)))
      else case ApplyDiff b (du_last d) (du_bids d) (du_asks d) of
        (b', err) \<Rightarrow> (b', map_option BookErr err))"

text \<open>The replay loop over the sorted queue: the book, the new queue and the loop's error.\<close>

fun replay_loop ::
  "order_book \<Rightarrow> depth_update list \<Rightarrow> depth_update list \<Rightarrow>
   order_book \<times> depth_update list \<times> live_error option" where
  "replay_loop b [] remaining = (b, remaining, None)"
| "replay_loop b (d # ds) remaining =
     (if du_last d \<le> LastUpdateID b then replay_loop b ds remaining
      else if nextUpdateID (LastUpdateID b) < du_first d then replay_loop b ds (remaining @ [d])
      else case applyDiffLocked b d of
        (b', Some err) \<Rightarrow> (b', remaining @ ds, Some err)
      | (b', None) \<Rightarrow> replay_loop b' ds remaining)"

definition cmp_first :: "depth_update \<Rightarrow> depth_update \<Rightarrow> int" where
  "cmp_first a b =
     (if du_first a < du_first b then - 1 else if du_first b < du_first a then 1 else 0)"

definition replayQueuedDiffsLocked :: "live_book \<Rightarrow> live_book \<times> live_error option" where
  "replayQueuedDiffsLocked l =
     (if diffQueue l = [] then (l, None)
      else
        let (b, q, err) = replay_loop (lb_book l) (sort_by cmp_first (diffQueue l)) [];
            l' = l\<lparr>lb_book := b, diffQueue := q\<rparr>
        in case err of
             Some e \<Rightarrow> (l', Some e)
           | None \<Rightarrow>
               (case q of
                  [] \<Rightarrow> (l', None)
                | d # _ \<Rightarrow> (l', Some (ResyncRequired (LastUpdateID b) (du_first d)))))"

section \<open>Operations\<close>

text \<open>The part shared by the two ways a snapshot arrives: install it, replay, notify.\<close>

definition install_snapshot ::
  "live_book \<Rightarrow> int \<Rightarrow> string list list \<Rightarrow> string list list \<Rightarrow>
   live_book \<times> live_error option \<times> notices" where
  "install_snapshot l uid rawBids rawAsks =
     (case ApplySnapshot (lb_book l) uid rawBids rawAsks of
        (b, Some err) \<Rightarrow>
          (l\<lparr>lb_book := b, live := False, lb_err := Some (BookErr err)\<rparr>, Some (BookErr err), [])
      | (b, None) \<Rightarrow>
          let (l2, err) = replayQueuedDiffsLocked (l\<lparr>lb_book := b, live := True, lb_err := None\<rparr>);
              l3 = (case err of None \<Rightarrow> l2 | Some e \<Rightarrow> l2\<lparr>live := False, lb_err := Some e\<rparr>);
              (l4, changed) = checkBBOChangeLocked l3
          in (l4, lb_err l4, notifyListeners changed))"

definition LiveApplySnapshot ::
  "live_book \<Rightarrow> book_snapshot option \<Rightarrow> live_book \<times> live_error option \<times> notices" where
  "LiveApplySnapshot l snapshot =
     (case snapshot of
        None \<Rightarrow> (l, Some NilSnapshot, [])
      | Some s \<Rightarrow>
          (case validateSymbol (Symbol (lb_book l)) (sn_symbol s) of
             Some err \<Rightarrow> (l, Some err, [])
           | None \<Rightarrow> install_snapshot l (sn_last s) (sn_bids s) (sn_asks s)))"

definition ApplySnapshotFromDepthUpdate ::
  "live_book \<Rightarrow> depth_update option \<Rightarrow> live_book \<times> live_error option \<times> notices" where
  "ApplySnapshotFromDepthUpdate l update =
     (case update of
        None \<Rightarrow> (l, Some NilDepthUpdate, [])
      | Some u \<Rightarrow>
          LiveApplySnapshot l (Some \<lparr>sn_event_type = du_event_type u, sn_event_time = du_event_time u,
            sn_symbol = du_symbol u, sn_last = du_last u, sn_bids = du_bids u, sn_asks = du_asks u\<rparr>))"

definition IngestDiff ::
  "live_book \<Rightarrow> depth_update option \<Rightarrow> live_book \<times> live_error option \<times> notices" where
  "IngestDiff l update =
     (case update of
        None \<Rightarrow> (l, None, [])
      | Some d \<Rightarrow>
         (case validateSymbol (Symbol (lb_book l)) (du_symbol d) of
            Some err \<Rightarrow> (l, Some err, [])
          | None \<Rightarrow>
              let lastID = LastUpdateID (lb_book l); resync = ResyncRequired lastID (du_first d)
              in if du_snapshot d then
                   (if du_last d \<le> 0 then (l\<lparr>live := False, lb_err := Some resync\<rparr>, Some resync, [])
                    else install_snapshot l (du_last d) (du_bids d) (du_asks d))
                 else if \<not> live l then
                   (if bad_bounds d then (l\<lparr>lb_err := Some resync\<rparr>, Some resync, [])
                    else if maxBufferedDiffs \<le> length (diffQueue l) then
                      (l\<lparr>live := False, lb_err := Some DiffQueueExceeded\<rparr>, Some DiffQueueExceeded, [])
                    else (l\<lparr>diffQueue := diffQueue l @ [d]\<rparr>, None, []))
                 else if bad_bounds d then (l\<lparr>live := False, lb_err := Some resync\<rparr>, Some resync, [])
                 else if du_last d \<le> lastID then (l, None, [])
                 else if nextUpdateID lastID < du_first d then
                   (l\<lparr>live := False, lb_err := Some resync\<rparr>, Some resync, [])
                 else case applyDiffLocked (lb_book l) d of
                   (b, Some err) \<Rightarrow> (l\<lparr>lb_book := b, live := False, lb_err := Some err\<rparr>, Some err, [])
                 | (b, None) \<Rightarrow>
                     let (l2, changed) = checkBBOChangeLocked (l\<lparr>lb_book := b\<rparr>)
                     in (l2, None, notifyListeners changed)))"

text \<open>\<open>Run\<close> over the sequence of events its \<open>select\<close> takes; \<open>None\<close> while it still waits.\<close>

datatype run_event = CtxDone err | ChannelClosed | Update "depth_update option"

fun Run :: "live_book \<Rightarrow> run_event list \<Rightarrow> live_book \<times> live_error option \<times> notices" where
  "Run l [] = (l, None, [])"
| "Run l (CtxDone e # es) = (l, Some (TransportErr e), [])"
| "Run l (ChannelClosed # es) = (l, Some (TransportErr (ESent ErrConnectionClosed)), [])"
| "Run l (Update u # es) =
     (case IngestDiff l u of
        (l', Some err, ns) \<Rightarrow> (l', Some err, ns)
      | (l', None, ns) \<Rightarrow>
          (case Run l' es of (l'', err, ns') \<Rightarrow> (l'', err, ns @ ns')))"

end
