(* ===== verification/LiveSpec.thy ===== *)
theory LiveSpec
  imports LiveBook "HOL-Library.Sublist"
begin

text \<open>
  What a live book promises: a well-formed book whose buffered diffs are bounded and valid; while
  it is live it equals its last snapshot with an unbroken chain of diffs applied; after a gap it
  stays frozen until a new snapshot. The chain is the step relation \<open>chain\<close>.
\<close>

section \<open>Chains of contiguous diffs\<close>

inductive chain :: "order_book \<Rightarrow> depth_update list \<Rightarrow> order_book \<Rightarrow> bool" where
  chain_nil: "chain b [] b"
| chain_step: "\<not> bad_bounds d \<Longrightarrow> LastUpdateID b < du_last d \<Longrightarrow>
    du_first d \<le> nextUpdateID (LastUpdateID b) \<Longrightarrow>
    ApplyDiff b (du_last d) (du_bids d) (du_asks d) = (b1, None) \<Longrightarrow>
    chain b1 ds b2 \<Longrightarrow> chain b (d # ds) b2"

inductive_cases chain_NilE: "chain b [] b2"
inductive_cases chain_ConsE: "chain b (d # ds) b2"
inductive_simps chain_simps: "chain b [] b2" "chain b (d # ds) b2"

lemma chain_append: "chain b ds b1 \<Longrightarrow> chain b1 es b2 \<Longrightarrow> chain b (ds @ es) b2"
  by (induction rule: chain.induct) (auto intro: chain.intros)

lemma ApplyDiff_id: "ApplyDiff b uid rb ra = (b', None) \<Longrightarrow> LastUpdateID b' = uid"
  by (auto simp: ApplyDiff_def Let_def foldl_apply_bids foldl_apply_asks LastUpdateID_def
      split: if_splits prod.splits sum.splits)

lemma ApplyDiff_symbol: "Symbol (fst (ApplyDiff b uid rb ra)) = Symbol b"
  by (auto simp: ApplyDiff_def Let_def foldl_apply_bids foldl_apply_asks Symbol_def
      split: if_splits prod.splits sum.splits)

lemma ApplySnapshot_symbol: "Symbol (fst (ApplySnapshot b uid rb ra)) = Symbol b"
  by (auto simp: ApplySnapshot_def Let_def Symbol_def split: if_splits prod.splits sum.splits)

lemma nextUpdateID_le: "nextUpdateID i \<le> i + 1"
  by (simp add: nextUpdateID_def)

lemma chain_mono: "chain b ds b' \<Longrightarrow> LastUpdateID b \<le> LastUpdateID b'"
  by (induction rule: chain.induct) (auto dest: ApplyDiff_id)

text \<open>Every update id since the base is covered by a diff of the chain.\<close>

lemma chain_covers:
  "chain b ds b' \<Longrightarrow> LastUpdateID b < i \<Longrightarrow> i \<le> LastUpdateID b' \<Longrightarrow>
   \<exists>d\<in>set ds. du_first d \<le> i \<and> i \<le> du_last d"
proof (induction rule: chain.induct)
  case (chain_step d b b1 ds b2)
  have "LastUpdateID b1 = du_last d" using chain_step by (blast dest: ApplyDiff_id)
  then show ?case using chain_step nextUpdateID_le[of "LastUpdateID b"]
    by (cases "i \<le> du_last d") auto
qed simp

lemma chain_refines:
  "chain b ds b' \<Longrightarrow> book_strict b \<Longrightarrow>
   abs_side (bids b') = foldl put_wire (abs_side (bids b)) (concat (map du_bids ds)) \<and>
   abs_side (asks b') = foldl put_wire (abs_side (asks b)) (concat (map du_asks ds)) \<and> book_strict b'"
  by (induction rule: chain.induct) (auto simp: ApplyDiff_strict)

section \<open>The replay loop\<close>

lemma replay_loop_keeps: "set rem \<subseteq> set (fst (snd (replay_loop b ds rem)))"
  by (induction b ds rem rule: replay_loop.induct) (auto split: prod.splits option.splits)

lemma replay_loop_queue:
  "replay_loop b ds rem = (b', q, err) \<Longrightarrow>
   set q \<subseteq> set rem \<union> set ds \<and> length q \<le> length rem + length ds"
proof (induction b ds rem rule: replay_loop.induct)
  case (2 b d ds rem)
  then show ?case by (cases "applyDiffLocked b d") (auto split: if_splits option.splits)
qed simp

lemma replay_loop_chain:
  "replay_loop b ds rem = (b', q, err) \<Longrightarrow> err = None \<Longrightarrow> q = [] \<Longrightarrow>
   \<exists>acc. subseq acc ds \<and> chain b acc b' \<and> (\<forall>d\<in>set ds. du_last d \<le> LastUpdateID b')"
proof (induction b ds rem arbitrary: b' rule: replay_loop.induct)
  case (2 b d ds rem)
  have q: "replay_loop b ds (rem @ [d]) \<noteq> (b', [], None)"
    using replay_loop_keeps[of "rem @ [d]" b ds] by auto
  consider (stale) "du_last d \<le> LastUpdateID b" | (gap) "\<not> du_last d \<le> LastUpdateID b"
      "nextUpdateID (LastUpdateID b) < du_first d"
    | (app) "\<not> du_last d \<le> LastUpdateID b" "\<not> nextUpdateID (LastUpdateID b) < du_first d" by blast
  then show ?case
  proof cases
    case stale
    from "2.IH"(1)[OF stale] stale "2.prems" obtain acc where
      a: "subseq acc ds" "chain b acc b'" "\<forall>d\<in>set ds. du_last d \<le> LastUpdateID b'" by auto
    then show ?thesis using stale chain_mono[OF a(2)] by (intro exI[of _ acc]) auto
  next
    case gap
    with "2.prems" q show ?thesis by auto
  next
    case app
    obtain b1 e where ad: "applyDiffLocked b d = (b1, e)" by fastforce
    with app "2.prems" have e: "e = None" "replay_loop b1 ds rem = (b', [], None)"
      by (auto split: option.splits)
    from "2.IH"(3)[OF app ad[symmetric]] e "2.prems" obtain acc where
      a: "subseq acc ds" "chain b1 acc b'" "\<forall>d\<in>set ds. du_last d \<le> LastUpdateID b'" by auto
    have d: "\<not> bad_bounds d" "ApplyDiff b (du_last d) (du_bids d) (du_asks d) = (b1, None)"
      using ad e(1) by (auto simp: applyDiffLocked_def split: if_splits prod.splits)
    then have "chain b (d # acc) b'" using app a(2) by (intro chain_step) auto
    moreover have "du_last d \<le> LastUpdateID b'" using chain_mono[OF a(2)] ApplyDiff_id[OF d(2)] by simp
    ultimately show ?thesis using a by (intro exI[of _ "d # acc"]) auto
  qed
qed (auto intro: chain_nil)

section \<open>The invariant of a live book\<close>

definition live_inv :: "live_book \<Rightarrow> bool" where
  "live_inv l \<longleftrightarrow> book_ok (lb_book l) \<and>
     (live l \<longrightarrow> lb_err l = None \<and> diffQueue l = []) \<and>
     length (diffQueue l) \<le> maxBufferedDiffs \<and> (\<forall>d\<in>set (diffQueue l). \<not> bad_bounds d)"

lemma checkBBO_fields [simp]:
  "lb_book (fst (checkBBOChangeLocked l)) = lb_book l" "live (fst (checkBBOChangeLocked l)) = live l"
  "lb_err (fst (checkBBOChangeLocked l)) = lb_err l"
  "diffQueue (fst (checkBBOChangeLocked l)) = diffQueue l"
  "bboListeners (fst (checkBBOChangeLocked l)) = bboListeners l"
  by (simp_all add: checkBBOChangeLocked_def Let_def)

lemma book_ok_ApplyDiff: "book_ok b \<Longrightarrow> ApplyDiff b uid rb ra = (b', err) \<Longrightarrow> book_ok b'"
  using book_ok_ApplyDiff_result[of b uid rb ra] by simp

lemma book_ok_applyDiffLocked: "book_ok b \<Longrightarrow> applyDiffLocked b d = (b', err) \<Longrightarrow> book_ok b'"
  by (auto simp: applyDiffLocked_def split: if_splits prod.splits intro: book_ok_ApplyDiff)

lemma replay_loop_ok: "book_ok b \<Longrightarrow> replay_loop b ds rem = (b', q, err) \<Longrightarrow> book_ok b'"
proof (induction b ds rem rule: replay_loop.induct)
  case (2 b d ds rem)
  then show ?case using book_ok_applyDiffLocked[of b d]
    by (cases "applyDiffLocked b d") (auto split: if_splits option.splits)
qed simp

lemma replayQueued_spec:
  assumes "book_ok (lb_book l)" "length (diffQueue l) \<le> maxBufferedDiffs"
    "\<forall>d\<in>set (diffQueue l). \<not> bad_bounds d" "replayQueuedDiffsLocked l = (l', err)"
  shows "book_ok (lb_book l')" "length (diffQueue l') \<le> maxBufferedDiffs"
    "\<forall>d\<in>set (diffQueue l'). \<not> bad_bounds d" "err = None \<Longrightarrow> diffQueue l' = []"
    "live l' = live l" "lb_err l' = lb_err l" "bboListeners l' = bboListeners l"
proof -
  obtain b q e where r: "replay_loop (lb_book l) (sort_by cmp_first (diffQueue l)) [] = (b, q, e)"
    by (metis prod_cases3)
  have q: "\<forall>d\<in>set q. \<not> bad_bounds d" "length q \<le> length (diffQueue l)"
    using replay_loop_queue[OF r] assms(3) by auto
  note ok = replay_loop_ok[OF assms(1) r]
  show "book_ok (lb_book l')" "length (diffQueue l') \<le> maxBufferedDiffs"
    "\<forall>d\<in>set (diffQueue l'). \<not> bad_bounds d" "err = None \<Longrightarrow> diffQueue l' = []"
    "live l' = live l" "lb_err l' = lb_err l" "bboListeners l' = bboListeners l"
    using assms q ok
    by (auto simp: replayQueuedDiffsLocked_def r Let_def split: if_splits option.splits list.splits)
qed

lemma install_snapshot_inv:
  assumes "live_inv l" "install_snapshot l uid rb ra = (l', err, ns)"
  shows "live_inv l'"
proof -
  obtain b e where s: "ApplySnapshot (lb_book l) uid rb ra = (b, e)" by fastforce
  have b: "book_ok b" using assms(1) book_ok_ApplySnapshot_result[of "lb_book l" uid rb ra] s
    by (simp add: live_inv_def)
  show ?thesis
  proof (cases e)
    case (Some x)
    with assms b s show ?thesis by (auto simp: install_snapshot_def live_inv_def)
  next
    case None
    let ?l = "l\<lparr>lb_book := b, live := True, lb_err := None\<rparr>"
    obtain l2 e2 where r: "replayQueuedDiffsLocked ?l = (l2, e2)" by fastforce
    have "book_ok (lb_book ?l)" "length (diffQueue ?l) \<le> maxBufferedDiffs"
      "\<forall>d\<in>set (diffQueue ?l). \<not> bad_bounds d" using b assms(1) by (simp_all add: live_inv_def)
    note sp = replayQueued_spec[OF this r]
    have "l' = fst (checkBBOChangeLocked
        (case e2 of None \<Rightarrow> l2 | Some e \<Rightarrow> l2\<lparr>live := False, lb_err := Some e\<rparr>))"
      using assms(2) s None r by (auto simp: install_snapshot_def Let_def split: prod.splits)
    with sp show ?thesis by (auto simp: live_inv_def split: option.splits)
  qed
qed

lemma IngestDiff_inv:
  assumes "live_inv l" "IngestDiff l u = (l', err, ns)"
  shows "live_inv l'"
proof (cases u)
  case None
  with assms show ?thesis by (simp add: IngestDiff_def)
next
  case (Some d)
  show ?thesis
  proof (cases "validateSymbol (Symbol (lb_book l)) (du_symbol d) = None \<and> du_snapshot d \<and> 0 < du_last d")
    case True
    with assms Some show ?thesis
      by (auto simp: IngestDiff_def Let_def intro: install_snapshot_inv)
  next
    case False
    have ok: "book_ok (lb_book l)" using assms(1) by (simp add: live_inv_def)
    obtain b e where ad: "applyDiffLocked (lb_book l) d = (b, e)" by fastforce
    have b: "book_ok b" using book_ok_applyDiffLocked[OF ok ad] .
    show ?thesis using assms Some False b
      by (auto simp: IngestDiff_def Let_def ad live_inv_def split: if_splits option.splits prod.splits
          dest!: arg_cong[where f = fst])
  qed
qed

lemma LiveApplySnapshot_inv:
  "live_inv l \<Longrightarrow> LiveApplySnapshot l u = (l', err, ns) \<Longrightarrow> live_inv l'"
  by (auto simp: LiveApplySnapshot_def split: option.splits intro: install_snapshot_inv)

lemma ApplySnapshotFromDepthUpdate_inv:
  "live_inv l \<Longrightarrow> ApplySnapshotFromDepthUpdate l u = (l', err, ns) \<Longrightarrow> live_inv l'"
  by (auto simp: ApplySnapshotFromDepthUpdate_def split: option.splits intro: LiveApplySnapshot_inv)

lemma Run_inv: "live_inv l \<Longrightarrow> live_inv (fst (Run l es))"
proof (induction l es rule: Run.induct)
  case (4 l u es)
  obtain l' err ns where i: "IngestDiff l u = (l', err, ns)" by (metis prod_cases3)
  note inv = IngestDiff_inv[OF "4.prems" i]
  show ?case
  proof (cases err)
    case None
    with "4.IH" i inv show ?thesis by (auto split: prod.splits)
  qed (use i inv in simp)
qed simp_all

section \<open>Live diffs extend the chain\<close>

lemma IngestDiff_live_step:
  assumes "live l" "\<not> du_snapshot d" "IngestDiff l (Some d) = (l', None, ns)"
  shows "live l' \<and> (chain (lb_book l) [d] (lb_book l') \<or>
    lb_book l' = lb_book l \<and> du_last d \<le> LastUpdateID (lb_book l))"
proof -
  have v: "validateSymbol (Symbol (lb_book l)) (du_symbol d) = None" and b: "\<not> bad_bounds d"
    using assms by (auto simp: IngestDiff_def Let_def split: option.splits if_splits)
  show ?thesis
  proof (cases "du_last d \<le> LastUpdateID (lb_book l)")
    case True
    with assms v b show ?thesis by (auto simp: IngestDiff_def Let_def)
  next
    case False
    then have n: "\<not> nextUpdateID (LastUpdateID (lb_book l)) < du_first d"
      using assms v b by (auto simp: IngestDiff_def Let_def)
    obtain b1 e where ad: "ApplyDiff (lb_book l) (du_last d) (du_bids d) (du_asks d) = (b1, e)"
      by fastforce
    have "e = None \<and> l' = fst (checkBBOChangeLocked (l\<lparr>lb_book := b1\<rparr>))"
      using assms v b n False ad
      by (auto simp: IngestDiff_def Let_def applyDiffLocked_def split: option.splits prod.splits)
    then show ?thesis using False n ad b assms(1) by (auto intro!: chain.intros)
  qed
qed

lemma Run_live_chain:
  "live l \<Longrightarrow> \<forall>d\<in>set us. \<not> du_snapshot d \<Longrightarrow>
   Run l (map (\<lambda>d. Update (Some d)) us) = (l', None, ns) \<Longrightarrow>
   live l' \<and> (\<exists>acc. subseq acc us \<and> chain (lb_book l) acc (lb_book l') \<and>
     (\<forall>d\<in>set us. du_last d \<le> LastUpdateID (lb_book l')))"
proof (induction us arbitrary: l ns)
  case (Cons d us)
  obtain l1 e ns1 where i: "IngestDiff l (Some d) = (l1, e, ns1)" by (metis prod_cases3)
  with Cons.prems(3) obtain ns2 where e: "e = None" "Run l1 (map (\<lambda>d. Update (Some d)) us) = (l', None, ns2)"
    by (auto split: option.splits prod.splits)
  note st = IngestDiff_live_step[OF Cons.prems(1) _ i[unfolded e(1)]]
  have l1: "live l1" using st Cons.prems(2) by simp
  from Cons.IH[OF l1 _ e(2)] Cons.prems(2) obtain acc where
    a: "live l'" "subseq acc us" "chain (lb_book l1) acc (lb_book l')"
    "\<forall>d\<in>set us. du_last d \<le> LastUpdateID (lb_book l')" by auto
  have m: "LastUpdateID (lb_book l1) \<le> LastUpdateID (lb_book l')" using chain_mono[OF a(3)] .
  from st Cons.prems(2) consider (app) "chain (lb_book l) [d] (lb_book l1)"
    | (stale) "lb_book l1 = lb_book l" "du_last d \<le> LastUpdateID (lb_book l)" by auto
  then show ?case
  proof cases
    case app
    have "LastUpdateID (lb_book l1) = du_last d"
      using app by (auto simp: chain_simps dest: ApplyDiff_id)
    with app a m show ?thesis using chain_append[OF app a(3)]
      by (intro conjI exI[of _ "d # acc"]) auto
  next
    case stale
    with a m show ?thesis by (intro conjI exI[of _ acc]) auto
  qed
qed (auto intro: chain_nil)

section \<open>A book that lost its place is frozen\<close>

lemma IngestDiff_not_live:
  assumes "\<not> live l" "\<not> du_snapshot d" "IngestDiff l (Some d) = (l', err, ns)"
  shows "\<not> live l' \<and> lb_book l' = lb_book l \<and> ns = []"
  using assms by (auto simp: IngestDiff_def Let_def split: option.splits if_splits)

lemma ingest_frozen:
  "\<not> live l \<Longrightarrow> \<forall>d\<in>set us. \<not> du_snapshot d \<Longrightarrow>
   \<not> live (foldl (\<lambda>l d. fst (IngestDiff l (Some d))) l us) \<and>
   lb_book (foldl (\<lambda>l d. fst (IngestDiff l (Some d))) l us) = lb_book l"
proof (induction us arbitrary: l)
  case (Cons d us)
  obtain l1 e ns1 where i: "IngestDiff l (Some d) = (l1, e, ns1)" by (metis prod_cases3)
  with IngestDiff_not_live[OF Cons.prems(1) _ i] Cons show ?case by simp
qed simp

section \<open>Snapshots replay the buffer\<close>

lemma install_snapshot_chain:
  assumes "install_snapshot l uid rb ra = (l', None, ns)"
  shows "\<exists>b acc. ApplySnapshot (lb_book l) uid rb ra = (b, None) \<and>
    subseq acc (sort_by cmp_first (diffQueue l)) \<and> chain b acc (lb_book l') \<and> live l' \<and>
    diffQueue l' = [] \<and> (\<forall>d\<in>set (diffQueue l). du_last d \<le> LastUpdateID (lb_book l'))"
proof -
  obtain b e where s: "ApplySnapshot (lb_book l) uid rb ra = (b, e)" by fastforce
  have e: "e = None" using assms s by (cases e) (auto simp: install_snapshot_def)
  let ?l = "l\<lparr>lb_book := b, live := True, lb_err := None\<rparr>"
  obtain l2 e2 where r: "replayQueuedDiffsLocked ?l = (l2, e2)" by fastforce
  have l': "l' = fst (checkBBOChangeLocked
      (case e2 of None \<Rightarrow> l2 | Some e \<Rightarrow> l2\<lparr>live := False, lb_err := Some e\<rparr>))"
    and "lb_err l' = None"
    using assms s e r by (auto simp: install_snapshot_def Let_def split: prod.splits)
  then have e2: "e2 = None" by (auto split: option.splits)
  show ?thesis
  proof (cases "diffQueue l = []")
    case True
    then have "l2 = ?l" using r by (simp add: replayQueuedDiffsLocked_def)
    then show ?thesis using s e e2 l' True by (intro exI[of _ b] exI[of _ "[]"]) (auto intro: chain_nil)
  next
    case False
    obtain b' q err where lp: "replay_loop b (sort_by cmp_first (diffQueue l)) [] = (b', q, err)"
      by (metis prod_cases3)
    have q: "err = None" "q = []" "l2 = ?l\<lparr>lb_book := b', diffQueue := []\<rparr>"
      using r e2 False lp by (auto simp: replayQueuedDiffsLocked_def Let_def split: option.splits list.splits)
    from replay_loop_chain[OF lp q(1,2)] obtain acc where
      "subseq acc (sort_by cmp_first (diffQueue l))" "chain b acc b'"
      "\<forall>d\<in>set (diffQueue l). du_last d \<le> LastUpdateID b'" by auto
    then show ?thesis using s e e2 l' q(3) by (intro exI[of _ b] exI[of _ acc]) simp
  qed
qed

section \<open>Notifications\<close>

lemma currentBBO_lastBBO: "currentBBOLocked (l\<lparr>lastBBO := x\<rparr>) = currentBBOLocked l"
  by (simp add: currentBBOLocked_def)

text \<open>What a batch of callbacks says about the states before and after.\<close>

definition notices_ok :: "live_book \<Rightarrow> live_book \<Rightarrow> notices \<Rightarrow> bool" where
  "notices_ok l l' ns \<longleftrightarrow> ns = [] \<or>
     (ns = map (\<lambda>x. (snd x, CurrentBBO l')) (bboListeners l) \<and> lastBBO l' = CurrentBBO l' \<and>
      (bbo_BestBid (CurrentBBO l') \<noteq> bbo_BestBid (lastBBO l) \<or>
       bbo_BestAsk (CurrentBBO l') \<noteq> bbo_BestAsk (lastBBO l)))"

lemma check_notices:
  assumes "checkBBOChangeLocked l1 = (l', changed)" "bboListeners l1 = bboListeners l"
    "lastBBO l1 = lastBBO l"
  shows "notices_ok l l' (notifyListeners changed)"
  using assms by (auto simp: notices_ok_def checkBBOChangeLocked_def Let_def notifyListeners_def
      CurrentBBO_def currentBBO_lastBBO split: if_splits)

lemma replayQueued_listeners:
  "replayQueuedDiffsLocked l = (l', err) \<Longrightarrow> bboListeners l' = bboListeners l \<and> lastBBO l' = lastBBO l"
  by (auto simp: replayQueuedDiffsLocked_def Let_def split: if_splits prod.splits option.splits list.splits)

lemma install_snapshot_notices:
  assumes "install_snapshot l uid rb ra = (l', err, ns)"
  shows "notices_ok l l' ns"
proof -
  obtain b e where s: "ApplySnapshot (lb_book l) uid rb ra = (b, e)" by fastforce
  show ?thesis
  proof (cases e)
    case (Some x)
    with assms s show ?thesis by (auto simp: install_snapshot_def notices_ok_def)
  next
    case None
    let ?l = "l\<lparr>lb_book := b, live := True, lb_err := None\<rparr>"
    obtain l2 e2 where r: "replayQueuedDiffsLocked ?l = (l2, e2)" by fastforce
    let ?l3 = "case e2 of None \<Rightarrow> l2 | Some e \<Rightarrow> l2\<lparr>live := False, lb_err := Some e\<rparr>"
    obtain l4 ch where c: "checkBBOChangeLocked ?l3 = (l4, ch)" by fastforce
    have "l' = l4" "ns = notifyListeners ch"
      using assms s None r c by (auto simp: install_snapshot_def Let_def)
    with check_notices[OF c, of l] replayQueued_listeners[OF r] show ?thesis
      by (auto split: option.splits)
  qed
qed

lemma IngestDiff_notices:
  assumes "IngestDiff l u = (l', err, ns)"
  shows "notices_ok l l' ns"
proof (cases u)
  case (Some d)
  have q: "notices_ok l x []" for x by (simp add: notices_ok_def)
  show ?thesis using assms Some q
    by (auto simp: IngestDiff_def Let_def split: option.splits if_splits prod.splits
        intro: install_snapshot_notices check_notices)
qed (use assms in \<open>simp add: IngestDiff_def notices_ok_def\<close>)

section \<open>Properties\<close>

text \<open>C16: A live book misses no update: when a book that is live already is run over diffs, none of
  them a snapshot, and no error is reported, the book is
  live, is the starting book with a subsequence of those diffs applied, every skipped diff is
  stale, every update id from the starting one to the current one lies in a diff of that
  subsequence, and, when the starting book lists each price once (\<open>book_strict\<close>), each side is the
  fold of exactly those diffs' entries.\<close>

theorem live_run_gap_free:
  assumes "live l" "\<forall>d\<in>set us. \<not> du_snapshot d"
    and "Run l (map (\<lambda>d. Update (Some d)) us) = (l', None, ns)"
  shows "live l' \<and>
    (\<exists>acc. subseq acc us \<and> (\<forall>d\<in>set us. du_last d \<le> LastUpdateID (lb_book l')) \<and>
      (\<forall>i. LastUpdateID (lb_book l) < i \<and> i \<le> LastUpdateID (lb_book l') \<longrightarrow>
        (\<exists>d\<in>set acc. du_first d \<le> i \<and> i \<le> du_last d)) \<and>
      (book_strict (lb_book l) \<longrightarrow>
        abs_side (bids (lb_book l')) = foldl put_wire (abs_side (bids (lb_book l))) (concat (map du_bids acc)) \<and>
        abs_side (asks (lb_book l')) = foldl put_wire (abs_side (asks (lb_book l))) (concat (map du_asks acc))))"
proof -
  obtain acc where a: "live l'" "subseq acc us" "chain (lb_book l) acc (lb_book l')"
    "\<forall>d\<in>set us. du_last d \<le> LastUpdateID (lb_book l')"
    using Run_live_chain[OF assms] by blast
  show ?thesis using a chain_covers[OF a(3)] chain_refines[OF a(3)]
    by (intro conjI exI[of _ acc]) auto
qed

definition demo_live :: live_book where
  "demo_live = (NewLiveOrderBook ''btcusd'')\<lparr>live := True\<rparr>"

definition demo_update :: "int \<Rightarrow> int \<Rightarrow> depth_update" where
  "demo_update f u = \<lparr>du_event_type = [], du_event_time = 0, du_symbol = [], du_first = f,
     du_last = u, du_bids = [], du_asks = [], du_snapshot = False\<rparr>"

lemma validateSymbol_unknown [simp]: "validateSymbol b [] = None"
proof -
  have "trim_with es [] = []" for es by (rule trim_with_stop) (simp add: has_prefix_def)
  then show ?thesis by (simp add: validateSymbol_def Let_def TrimSpace_def)
qed

lemmas live_eval = demo_live_def demo_update_def NewLiveOrderBook_def NewOrderBook_def IngestDiff_def
  Let_def bad_bounds_def LastUpdateID_def Symbol_def nextUpdateID_def
  applyDiffLocked_def ApplyDiff_def checkBBOChangeLocked_def notifyListeners_def max_int64_def

theorem live_run_gap_free_witness:
  "\<exists>l' ns. Run demo_live (map (\<lambda>d. Update (Some d)) [demo_update 1 2, demo_update 2 4]) = (l', None, ns) \<and>
     live l' \<and> (\<exists>d\<in>set [demo_update 1 2, demo_update 2 4]. du_first d \<le> 3 \<and> 3 \<le> du_last d)"
proof -
  let ?us = "[demo_update 1 2, demo_update 2 4]"
  have "\<exists>l' ns. Run demo_live (map (\<lambda>d. Update (Some d)) ?us) = (l', None, ns) \<and>
    LastUpdateID (lb_book l') = 4"
    by (simp add: live_eval)
  then obtain l' ns where r: "Run demo_live (map (\<lambda>d. Update (Some d)) ?us) = (l', None, ns)"
    "LastUpdateID (lb_book l') = 4" by blast
  have d: "live demo_live" "\<forall>d\<in>set ?us. \<not> du_snapshot d" "LastUpdateID (lb_book demo_live) = 0"
    by (simp_all add: live_eval)
  obtain acc where a: "subseq acc ?us" "live l'"
    "\<forall>i. 0 < i \<and> i \<le> (4::int) \<longrightarrow> (\<exists>d\<in>set acc. du_first d \<le> i \<and> i \<le> du_last d)"
    using live_run_gap_free[OF d(1,2) r(1)] d(3) r(2) by auto
  obtain d where "d \<in> set acc" "du_first d \<le> 3 \<and> 3 \<le> du_last d" using a(3)[rule_format, of 3] by auto
  moreover have "set acc \<subseteq> set ?us" using a(1) by (auto elim!: list_emb_set)
  ultimately show ?thesis using r(1) a(2) by blast
qed

text \<open>A gap is never bridged: a diff that starts beyond the next update id takes a live book out
  of the live state with a resync error and without touching the book, and no later diff changes
  the book or brings it back, whatever their ids; only a snapshot can.\<close>

theorem live_gap_freezes:
  assumes "live l" "\<not> du_snapshot d" "validateSymbol (Symbol (lb_book l)) (du_symbol d) = None"
    and "LastUpdateID (lb_book l) + 1 < du_first d" "\<forall>e\<in>set us. \<not> du_snapshot e"
  shows "\<exists>l' err. IngestDiff l (Some d) = (l', Some err, []) \<and> is_ErrResyncRequired err \<and>
    lb_err l' = Some err \<and> \<not> live l' \<and> lb_book l' = lb_book l \<and>
    \<not> live (foldl (\<lambda>l d. fst (IngestDiff l (Some d))) l' us) \<and>
    lb_book (foldl (\<lambda>l d. fst (IngestDiff l (Some d))) l' us) = lb_book l"
proof -
  let ?e = "ResyncRequired (LastUpdateID (lb_book l)) (du_first d)"
  let ?l = "l\<lparr>live := False, lb_err := Some ?e\<rparr>"
  have "nextUpdateID (LastUpdateID (lb_book l)) < du_first d"
    using assms(4) nextUpdateID_le[of "LastUpdateID (lb_book l)"] by linarith
  then have "IngestDiff l (Some d) = (?l, Some ?e, [])"
    using assms(1-4) by (simp add: IngestDiff_def Let_def bad_bounds_def)
  moreover have "is_ErrResyncRequired ?e" by (simp add: is_ErrResyncRequired_def ResyncRequired_def)
  ultimately show ?thesis using ingest_frozen[of ?l us] assms(5) by simp
qed

theorem live_gap_freezes_witness:
  "\<exists>l'. IngestDiff demo_live (Some (demo_update 3 5)) = (l', Some (ResyncRequired 0 3), []) \<and> \<not> live l'"
  using live_gap_freezes[of demo_live "demo_update 3 5" "[]"] by (auto simp: live_eval)

text \<open>Replaying the buffer after a snapshot loses nothing: when a snapshot is accepted without
  error, the book is live, its buffer is empty, no buffered diff is newer than the book, and every
  update id between the snapshot's and the book's lies in a buffered diff that was applied.\<close>

theorem snapshot_replays_buffer:
  assumes "LiveApplySnapshot l (Some s) = (l', None, ns)"
  shows "live l' \<and> diffQueue l' = [] \<and> sn_last s \<le> LastUpdateID (lb_book l') \<and>
    (\<forall>d\<in>set (diffQueue l). du_last d \<le> LastUpdateID (lb_book l')) \<and>
    (\<forall>i. sn_last s < i \<and> i \<le> LastUpdateID (lb_book l') \<longrightarrow>
      (\<exists>d\<in>set (diffQueue l). du_first d \<le> i \<and> i \<le> du_last d))"
proof -
  have "install_snapshot l (sn_last s) (sn_bids s) (sn_asks s) = (l', None, ns)"
    using assms by (auto simp: LiveApplySnapshot_def split: option.splits)
  from install_snapshot_chain[OF this] obtain b acc where
    a: "ApplySnapshot (lb_book l) (sn_last s) (sn_bids s) (sn_asks s) = (b, None)"
    "subseq acc (sort_by cmp_first (diffQueue l))" "chain b acc (lb_book l')" "live l'"
    "diffQueue l' = []" "\<forall>d\<in>set (diffQueue l). du_last d \<le> LastUpdateID (lb_book l')" by blast
  have b: "LastUpdateID b = sn_last s" using a(1)
    by (auto simp: ApplySnapshot_def LastUpdateID_def split: if_splits prod.splits sum.splits)
  have "set acc \<subseteq> set (diffQueue l)" using a(2) by (auto elim!: list_emb_set)
  then show ?thesis using a(4-6) chain_mono[OF a(3)] chain_covers[OF a(3)] b by fastforce
qed

definition demo_buffered :: live_book where
  "demo_buffered = (NewLiveOrderBook ''btcusd'')\<lparr>diffQueue := [demo_update 9 11, demo_update 7 8]\<rparr>"

definition demo_snap :: "int \<Rightarrow> book_snapshot" where
  "demo_snap i = \<lparr>sn_event_type = [], sn_event_time = 0, sn_symbol = [], sn_last = i,
     sn_bids = [], sn_asks = []\<rparr>"

theorem snapshot_replays_buffer_witness:
  "\<exists>l' ns. LiveApplySnapshot demo_buffered (Some (demo_snap 7)) = (l', None, ns) \<and>
     live l' \<and> 11 \<le> LastUpdateID (lb_book l')"
proof -
  obtain l' ns where r: "LiveApplySnapshot demo_buffered (Some (demo_snap 7)) = (l', None, ns)"
    by (simp add: live_eval demo_buffered_def demo_snap_def LiveApplySnapshot_def install_snapshot_def
        ApplySnapshot_def replayQueuedDiffsLocked_def cmp_first_def)
  from snapshot_replays_buffer[OF r] show ?thesis using r
    by (auto simp: demo_buffered_def demo_update_def)
qed

text \<open>The state of a live book is sound after every operation: the book is well formed; while
  live there is no pending error and no buffered diff; the buffer never exceeds its bound of 4096
  and holds only diffs with valid ids.\<close>

theorem live_book_invariant:
  assumes "live_inv l"
  shows "live_inv (NewLiveOrderBook s) \<and> live_inv (LiveReset l) \<and> live_inv (fst (OnBBOChanged l cb)) \<and>
    live_inv (unregister l h) \<and> live_inv (fst (LiveApplySnapshot l sn)) \<and>
    live_inv (fst (ApplySnapshotFromDepthUpdate l du)) \<and> live_inv (fst (IngestDiff l du)) \<and>
    live_inv (fst (Run l es))"
proof (intro conjI)
  show "live_inv (NewLiveOrderBook s)" "live_inv (LiveReset l)" "live_inv (fst (OnBBOChanged l cb))"
    "live_inv (unregister l h)"
    using assms by (auto simp: live_inv_def NewLiveOrderBook_def NewOrderBook_def book_ok_def side_ok_def
        side_sorted_def LiveReset_def Clear_def OnBBOChanged_def Let_def unregister_def split: option.splits)
  show "live_inv (fst (LiveApplySnapshot l sn))" "live_inv (fst (ApplySnapshotFromDepthUpdate l du))"
    "live_inv (fst (IngestDiff l du))" "live_inv (fst (Run l es))"
    using LiveApplySnapshot_inv[OF assms] ApplySnapshotFromDepthUpdate_inv[OF assms]
      IngestDiff_inv[OF assms] Run_inv[OF assms] by (metis fst_conv prod_cases3)+
qed

theorem live_book_invariant_witness:
  "live_inv demo_live \<and> live_inv (fst (IngestDiff demo_live (Some (demo_update 3 5))))"
proof -
  have "live_inv demo_live"
    by (simp add: live_eval live_inv_def book_ok_def side_ok_def side_sorted_def)
  with live_book_invariant[OF this] show ?thesis by blast
qed

text \<open>Listeners are told the truth and told once: the callbacks an update runs are all the
  registered listeners in registration order, each with the top of book of the resulting state,
  and they run only when its best bid or ask text differs from the one last announced.\<close>

theorem bbo_notifications:
  "notices_ok l (fst (IngestDiff l u)) (snd (snd (IngestDiff l u))) \<and>
    notices_ok l (fst (LiveApplySnapshot l s)) (snd (snd (LiveApplySnapshot l s)))"
proof (intro conjI)
  show "notices_ok l (fst (IngestDiff l u)) (snd (snd (IngestDiff l u)))"
    using IngestDiff_notices by (metis prod.collapse)
  have "LiveApplySnapshot l s = (l', err, ns) \<Longrightarrow> notices_ok l l' ns" for l' err ns
    by (auto simp: LiveApplySnapshot_def notices_ok_def split: option.splits
        dest!: install_snapshot_notices)
  then show "notices_ok l (fst (LiveApplySnapshot l s)) (snd (snd (LiveApplySnapshot l s)))"
    by (metis prod.collapse)
qed

end
