(* ===== verification/ErrorSpec.thy ===== *)
theory ErrorSpec
  imports HttpErrors
begin

text \<open>What the classification of responses promises, and where the response body can defeat it.\<close>

lemmas api_fields = reason_in_def APIError_Is_def APIError_Unwrap_def api_is_def

lemma set_api_field_frame [simp]:
  "ae_RequestID (set_api_field e m) = ae_RequestID e" "ae_RawBody (set_api_field e m) = ae_RawBody e"
  "ae_Header (set_api_field e m) = ae_Header e"
  by (auto simp: set_api_field_def Let_def split: prod.splits json.splits option.splits)

lemma set_api_field_status:
  "\<not> field_matches ''StatusCode'' (fst m) \<Longrightarrow> ae_StatusCode (set_api_field e m) = ae_StatusCode e"
  by (auto simp: set_api_field_def Let_def split: prod.splits json.splits option.splits)

lemma set_api_fields_frame [simp]:
  "ae_RequestID (foldl set_api_field e ms) = ae_RequestID e"
  "ae_RawBody (foldl set_api_field e ms) = ae_RawBody e"
  by (induction ms arbitrary: e) simp_all

lemma set_api_fields_status:
  "\<forall>m\<in>set ms. \<not> field_matches ''StatusCode'' (fst m) \<Longrightarrow>
   ae_StatusCode (foldl set_api_field e ms) = ae_StatusCode e"
  by (induction ms arbitrary: e) (simp_all add: set_api_field_status)

text \<open>A body that does not name the untagged field.\<close>

definition status_free :: "string \<Rightarrow> bool" where
  "status_free body \<longleftrightarrow>
     (case parse_json body of
        Some (JObj ms) \<Rightarrow> list_all (\<lambda>m. \<not> field_matches ''StatusCode'' (fst m)) ms
      | _ \<Rightarrow> True)"

lemma decode_api_error_frame [simp]:
  "ae_RequestID (decode_api_error body e) = ae_RequestID e"
  "ae_RawBody (decode_api_error body e) = ae_RawBody e"
  by (auto simp: decode_api_error_def split: option.splits json.splits)

lemma decode_api_error_status:
  "status_free body \<Longrightarrow> ae_StatusCode (decode_api_error body e) = ae_StatusCode e"
  by (auto simp: decode_api_error_def status_free_def list_all_iff set_api_fields_status
      split: option.splits json.splits)

lemma api_is_rate_limit:
  "api_is a ErrRateLimited \<longleftrightarrow> ae_StatusCode a = 429 \<or> ae_Reason a \<in> {''RateLimit'', ''UsageLimit''}"
  by (auto simp: api_fields status_sentinel_def split: if_splits)

lemma api_is_plain:
  "ae_Reason a = [] \<Longrightarrow> api_is a t \<longleftrightarrow> status_sentinel (ae_StatusCode a) = Some t"
  by (auto simp: api_fields) (simp add: status_sentinel_def)

text \<open>A response is an error exactly when its status is not 2xx. Unless the body itself names a
  \<open>StatusCode\<close>, the error carries the status, body and request id of the response; it counts as a
  rate limit exactly for status 429 or a rate-limit reason, and without a reason it matches the
  sentinel of its status and no other.\<close>

theorem classify_response:
  assumes "status_free body"
  shows "(ClassifyResponse until (Some r) body = None \<longleftrightarrow> 200 \<le> rs_StatusCode r \<and> rs_StatusCode r < 300) \<and>
    (\<forall>e. ClassifyResponse until (Some r) body = Some e \<longrightarrow>
      (\<exists>a. AsAPIError (Some e) = Some a \<and> ae_StatusCode a = rs_StatusCode r \<and> ae_RawBody a = body \<and>
        RequestIDFromError (Some e) = extractRequestID (rs_Header r) \<and>
        (IsRateLimit (Some e) \<longleftrightarrow> rs_StatusCode r = 429 \<or> ae_Reason a \<in> {''RateLimit'', ''UsageLimit''}) \<and>
        (ae_Reason a = [] \<longrightarrow> (\<forall>t. is_err (Some e) t \<longleftrightarrow> status_sentinel (rs_StatusCode r) = Some t))))"
proof -
  let ?a0 = "\<lparr>ae_StatusCode = rs_StatusCode r, ae_Result = [], ae_Reason = [],
    ae_Message = [], ae_RequestID = extractRequestID (rs_Header r), ae_RawBody = body,
    ae_Header = rs_Header r\<rparr>"
  let ?a = "if 0 < length body then decode_api_error body ?a0 else ?a0"
  have f: "ae_StatusCode ?a = rs_StatusCode r" "ae_RawBody ?a = body"
    "ae_RequestID ?a = extractRequestID (rs_Header r)"
    using decode_api_error_status[OF assms] by simp_all
  have s: "status_sentinel 429 = Some ErrRateLimited" by (simp add: status_sentinel_def)
  show ?thesis
    using f s api_is_plain[of ?a]
    by (auto simp: ClassifyResponse_def Let_def AsAPIError_def RequestIDFromError_def IsRateLimit_def
        is_err_def api_is_rate_limit simp del: length_greater_0_conv)
qed

theorem classify_response_witness:
  "ClassifyResponse (\<lambda>_. None) (Some \<lparr>rs_StatusCode = 503, rs_Header = []\<rparr>) ''busy'' \<noteq> None"
proof -
  have "status_free ''busy''" by code_simp
  from classify_response[OF this, of "\<lambda>_. None" "\<lparr>rs_StatusCode = 503, rs_Header = []\<rparr>"]
  show ?thesis by simp
qed

definition hostile_body :: string where
  "hostile_body = [CHR 0x7B, CHR 0x22] @ ''statuscode'' @ [CHR 0x22] @ '':404'' @ [CHR 0x7D]"

text \<open>The body of an error response can replace its status: a 500 response whose JSON body has a
  member \<open>statuscode\<close> of 404 is classified as not found and not as a server error.\<close>

theorem classify_status_override:
  "let e = ClassifyResponse (\<lambda>_. None) (Some \<lparr>rs_StatusCode = 500, rs_Header = []\<rparr>) hostile_body
   in IsNotFound e \<and> \<not> IsInternalServerError e \<and> map_option ae_StatusCode (AsAPIError e) = Some 404"
proof -
  have pj: "parse_json hostile_body = Some (JObj [(''statuscode'', JNum ''404'')])" by code_simp
  have fm: "field_matches ''StatusCode'' ''statuscode''" by code_simp
  have pi: "ParseInt 64 ''404'' = Some 404"
    by (simp add: ParseInt_def ParseUint64_def is_digit_def digit_val_def)
  have ne: "hostile_body \<noteq> []" by (simp add: hostile_body_def)
  show ?thesis
    by (simp add: ClassifyResponse_def Let_def ne decode_api_error_def pj set_api_field_def fm pi
        IsNotFound_def IsInternalServerError_def is_err_def AsAPIError_def api_fields status_sentinel_def)
qed

end
