(* ===== verification/Retry.thy ===== *)
theory Retry
  imports Float64 HttpErrors
begin

text \<open>
  The retry policy of \<open>transport/retries.go\<close>: which requests may be sent again, and how long to
  wait, with \<open>math.Pow\<close> as the Go library computes it and durations in nanoseconds.
\<close>

section \<open>Policy\<close>

record RetryPolicy =
  MaxRetries :: int
  BaseDelay :: int
  MaxDelay :: int
  Multiplier :: f64
  Jitter :: bool

definition DefaultRetryPolicy :: RetryPolicy where
  "DefaultRetryPolicy =
     \<lparr>MaxRetries = 5, BaseDelay = 250000000, MaxDelay = 30 * time_Second, Multiplier = Fin 2,
      Jitter = True\<rparr>"

definition IsSafeMethod :: "string \<Rightarrow> bool" where
  "IsSafeMethod method =
     (if method = [] then True
      else let upper = ToUpper method in upper = ''GET'' \<or> upper = ''HEAD'')"

definition IsRetryable :: "string \<Rightarrow> int \<Rightarrow> err option \<Rightarrow> bool" where
  "IsRetryable method statusCode e =
     (if \<not> IsSafeMethod method then False
      else case e of
        Some x \<Rightarrow>
          if errors_is x EOF \<or> errors_is x ErrUnexpectedEOF then True
          else if errors_is x ECONNRESET \<or> errors_is x ECONNREFUSED \<or> errors_is x ETIMEDOUT then True
          else as_net x = Some True
      | None \<Rightarrow> statusCode \<in> {429, 502, 503, 504})"

section \<open>math.Pow\<close>

text \<open>\<open>math.Frexp\<close> of a positive value: a fraction in [1/2, 1) and a power of two.\<close>

definition frexp :: "rat \<Rightarrow> rat \<times> int" where
  "frexp x = (let e = flog2 x + 1 in (x / 2 powi e, e))"

definition half :: f64 where
  "half = Fin (1 / 2)"

function pow_loop :: "nat \<Rightarrow> f64 \<Rightarrow> int \<Rightarrow> f64 \<Rightarrow> int \<Rightarrow> f64 \<times> int" where
  "pow_loop i a1 ae x1 xe =
     (if i = 0 then (a1, ae)
      else if xe < - 4096 \<or> 4096 < xe then (a1, ae + xe)
      else
        let (a1', ae') = (if odd i then (f_mul a1 x1, ae + xe) else (a1, ae));
            sq = f_mul x1 x1
        in if f_less sq half then pow_loop (i div 2) a1' ae' (f_add sq sq) (2 * xe - 1)
           else pow_loop (i div 2) a1' ae' sq (2 * xe))"
  by pat_completeness auto
termination
  by (relation "measure (\<lambda>(i, _). i)") auto

declare pow_loop.simps [simp del]

text \<open>\<open>math.Pow x y\<close> for a finite \<open>x\<close> of at least one and an integral \<open>y\<close>; \<open>math.Ldexp\<close> is the
  final scaling.\<close>

definition Pow :: "rat \<Rightarrow> int \<Rightarrow> f64" where
  "Pow x y =
     (if y = 0 \<or> x = 1 then Fin 1
      else if y = 1 then Fin x
      else
        let (x1, xe) = frexp x;
            (a1, ae) = pow_loop (nat \<bar>y\<bar>) (Fin 1) 0 (Fin x1) xe;
            (a1, ae) = (if y < 0 then (f_div (Fin 1) a1, - ae) else (a1, ae))
        in case a1 of Fin r \<Rightarrow> f64_round (r * 2 powi ae) | _ \<Rightarrow> a1)"

section \<open>Backoff\<close>

text \<open>Conversion of a float to an \<open>int64\<close> duration: truncation, and no defined result out of
  range.\<close>

definition trunc_rat :: "rat \<Rightarrow> int" where
  "trunc_rat x = (if x < 0 then - \<lfloor>- x\<rfloor> else \<lfloor>x\<rfloor>)"

definition duration_of :: "f64 \<Rightarrow> int option" where
  "duration_of d =
     (case d of
        Fin x \<Rightarrow> if - (2 ^ 63) \<le> trunc_rat x \<and> trunc_rat x < 2 ^ 63 then Some (trunc_rat x) else None
      | _ \<Rightarrow> None)"

definition float_of_int :: "int \<Rightarrow> f64" where
  "float_of_int n = f64_round (of_int n)"

definition one_million :: f64 where
  "one_million = Fin 1000000"

text \<open>The effective base delay, maximum and multiplier.\<close>

definition backoff_bounds :: "RetryPolicy \<Rightarrow> int \<times> int \<times> rat" where
  "backoff_bounds p =
     (let defaults = DefaultRetryPolicy;
          baseDelay = (if BaseDelay p \<le> 0 then BaseDelay defaults else BaseDelay p);
          maxDelay0 = (if MaxDelay p \<le> 0 then MaxDelay defaults else MaxDelay p);
          maxDelay = (if maxDelay0 < baseDelay then baseDelay else maxDelay0);
          multiplier = (case Multiplier p of Fin m \<Rightarrow> if m < 1 then 2 else m | _ \<Rightarrow> 2)
      in (baseDelay, maxDelay, multiplier))"

text \<open>\<open>randomValue\<close> is what \<open>crypto/rand\<close> draws below a million, if it succeeds. The result is
  \<open>None\<close> when the language does not define the final conversion.\<close>

definition CalculateBackoff ::
  "RetryPolicy \<Rightarrow> (string \<Rightarrow> int option) \<Rightarrow> int option \<Rightarrow> int \<Rightarrow> string \<Rightarrow> int option" where
  "CalculateBackoff p until randomValue attempt retryAfterHeader =
     (let (baseDelay, maxDelay, multiplier) = backoff_bounds p;
          explicitDelay = parseRetryAfter until retryAfterHeader
      in if 0 < explicitDelay then Some (if maxDelay < explicitDelay then maxDelay else explicitDelay)
         else
           let delay0 = f_mul (float_of_int baseDelay) (Pow multiplier attempt);
               delay1 = (if IsInf delay0 \<or> IsNaN delay0 \<or> f_less (float_of_int maxDelay) delay0
                         then float_of_int maxDelay else delay0);
               delay2 = (if Jitter p
                         then f_mul delay1 (case randomValue of
                                None \<Rightarrow> Fin 1 | Some v \<Rightarrow> f_div (float_of_int v) one_million)
                         else delay1)
           in duration_of delay2)"

section \<open>Facts about rounding\<close>

lemma round_half_even_int: "round_half_even (of_int m) = m"
  by (simp add: round_half_even_def Let_def)

lemma round_half_even_le: "z \<le> of_int m \<Longrightarrow> round_half_even z \<le> m"
proof -
  assume z: "z \<le> of_int m"
  have fl: "of_int \<lfloor>z\<rfloor> \<le> z" "\<lfloor>z\<rfloor> \<le> m" using z by (simp, linarith)
  show ?thesis
  proof (cases "\<lfloor>z\<rfloor> = m")
    case True
    with z fl(1) have "z = of_int m" by simp
    then show ?thesis by (simp add: round_half_even_int)
  next
    case False
    with fl(2) show ?thesis by (simp add: round_half_even_def Let_def)
  qed
qed

lemma round_half_even_nonneg: "0 \<le> z \<Longrightarrow> 0 \<le> round_half_even z"
proof -
  assume "0 \<le> z"
  then have "0 \<le> \<lfloor>z\<rfloor>" by simp
  then show ?thesis by (simp add: round_half_even_def Let_def)
qed

lemma int_bits_bounds: "0 < n \<Longrightarrow> 2 ^ nat (int_bits n - 1) \<le> n \<and> n < 2 ^ nat (int_bits n) \<and> 0 < int_bits n"
proof (induction n rule: int_bits.induct)
  case (1 n)
  show ?case
  proof (cases "n = 1")
    case True
    then show ?thesis by (simp add: int_bits.simps[of 1] int_bits.simps[of 0])
  next
    case False
    with 1 have h: "2 ^ nat (int_bits (n div 2) - 1) \<le> n div 2" "n div 2 < 2 ^ nat (int_bits (n div 2))"
      "0 < int_bits (n div 2)" by auto
    have b: "int_bits n = int_bits (n div 2) + 1" using 1(2) by (simp add: int_bits.simps[of n])
    have p: "nat (int_bits n - 1) = Suc (nat (int_bits (n div 2) - 1))"
      "nat (int_bits n) = Suc (nat (int_bits (n div 2)))" using b h(3) by auto
    show ?thesis unfolding p power_Suc using h b by linarith
  qed
qed

lemma int_bits_rat: "0 < n \<Longrightarrow> (2::rat) powi (int_bits n - 1) \<le> of_int n \<and> of_int n < (2::rat) powi int_bits n"
proof -
  assume "0 < n"
  note b = int_bits_bounds[OF this]
  have "(2::rat) ^ nat k = 2 powi k" if "0 \<le> k" for k using that by (simp add: power_int_def)
  moreover have "(of_int (2 ^ nat (int_bits n - 1)) :: rat) \<le> of_int n" "(of_int n :: rat) < of_int (2 ^ nat (int_bits n))"
    using b by (simp_all only: of_int_le_iff of_int_less_iff)
  ultimately show ?thesis using b by simp
qed

lemma flog2_spec: "0 < x \<Longrightarrow> 2 powi flog2 x \<le> x \<and> x < 2 powi (flog2 x + 1)"
proof -
  assume x: "0 < x"
  obtain p q where pq: "quotient_of x = (p, q)" by fastforce
  have q: "0 < q" using quotient_of_denom_pos[OF pq] .
  have xe: "x = of_int p / of_int q" using quotient_of_div[OF pq] .
  with x q have p: "0 < p" by (simp add: zero_less_divide_iff)
  note bp = int_bits_rat[OF p] and bq = int_bits_rat[OF q]
  let ?k = "int_bits p - int_bits q"
  have up: "x < 2 powi (?k + 1)"
  proof -
    have "of_int p < (2::rat) powi int_bits p" using bp by blast
    also have "\<dots> = 2 powi (?k + 1) * 2 powi (int_bits q - 1)" by (simp add: power_int_add[symmetric])
    also have "\<dots> \<le> 2 powi (?k + 1) * of_int q" using bq by simp
    finally show ?thesis using q by (simp add: xe divide_less_eq)
  qed
  have lo: "2 powi (?k - 1) < x"
  proof -
    have "(2::rat) powi (?k - 1) * of_int q < 2 powi (?k - 1) * 2 powi int_bits q" using bq by simp
    also have "\<dots> = 2 powi (int_bits p - 1)" by (simp add: power_int_add[symmetric])
    also have "\<dots> \<le> of_int p" using bp by blast
    finally show ?thesis using q by (simp add: xe less_divide_eq)
  qed
  show ?thesis using up lo by (auto simp: flog2_def pq Let_def)
qed

lemma two_powi_less: "(2::rat) powi a < 2 powi b \<Longrightarrow> a < b"
  by (rule ccontr) (auto simp: not_less dest: power_int_increasing[of _ _ "2::rat"])

lemma div_powi_int:
  assumes "e \<le> 0"
  shows "of_int m / (2::rat) powi e = of_int (m * 2 ^ nat (- e))"
proof -
  have "(2::rat) powi e = inverse (2 ^ nat (- e))" using assms by (cases "e = 0") (simp_all add: power_int_def field_simps)
  then show ?thesis by (simp add: divide_inverse)
qed

lemma f64_round_below:
  assumes "0 \<le> x" "x \<le> of_int m" "m < 2 ^ 53"
  shows "\<exists>r. f64_round x = Fin r \<and> 0 \<le> r \<and> r \<le> of_int m"
proof (cases "x = 0")
  case True
  with assms show ?thesis by (simp add: f64_round_def)
next
  case False
  with assms(1) have x: "0 < x" by simp
  let ?e = "max (flog2 \<bar>x\<bar> - 52) (- 1074)"
  let ?z = "x / 2 powi ?e" and ?r = "of_int (round_half_even (x / 2 powi ?e)) * (2::rat) powi ?e"
  have "(2::rat) powi flog2 x \<le> x" using flog2_spec[OF x] by blast
  also have "x < 2 powi 53"
  proof -
    have "(of_int m :: rat) < of_int (2 ^ 53)" using assms(3) by (simp only: of_int_less_iff)
    then show ?thesis using assms(2) by simp
  qed
  finally have "flog2 x < 53" by (rule two_powi_less)
  then have e: "?e \<le> 0" using x by simp
  have "of_int m / (2::rat) powi ?e = of_int (m * 2 ^ nat (- ?e))"
    using e by (rule div_powi_int)
  then obtain k :: int where k: "of_int m / (2::rat) powi ?e = of_int k" by blast
  have "?z \<le> of_int k" unfolding k[symmetric] using assms(2) by (simp add: divide_right_mono)
  then have "round_half_even ?z \<le> k" by (rule round_half_even_le)
  then have "?r \<le> of_int k * 2 powi ?e" by simp
  then have r1: "?r \<le> of_int m" unfolding k[symmetric] by simp
  have "0 \<le> round_half_even ?z" using x by (intro round_half_even_nonneg) simp
  then have r0: "0 \<le> ?r" by simp
  have "\<not> 2 ^ 1024 \<le> \<bar>?r\<bar>"
  proof -
    have "(of_int m :: rat) < of_int (2 ^ 53)" using assms(3) by (simp only: of_int_less_iff)
    also have "(of_int (2 ^ 53) :: rat) < 2 ^ 1024" by simp
    finally show ?thesis using r0 r1 by simp
  qed
  then have "f64_round x = Fin ?r" using False by (simp add: f64_round_def Let_def)
  then show ?thesis using r0 r1 by blast
qed

lemma float_of_int_exact: "0 \<le> m \<Longrightarrow> m < 2 ^ 53 \<Longrightarrow> float_of_int m = Fin (of_int m)"
proof -
  assume m: "0 \<le> m" "m < 2 ^ 53"
  show ?thesis
  proof (cases "m = 0")
    case True
    then show ?thesis by (simp add: float_of_int_def f64_round_def)
  next
    case False
    let ?x = "of_int m :: rat"
    let ?e = "max (flog2 \<bar>?x\<bar> - 52) (- 1074)"
    have x: "0 < ?x" using False m by simp
    have "(2::rat) powi flog2 ?x \<le> ?x" using flog2_spec[OF x] by blast
    also have "?x < of_int (2 ^ 53)" using m(2) by (simp only: of_int_less_iff)
    also have "(of_int (2 ^ 53) :: rat) = 2 powi 53" by simp
    finally have "flog2 ?x < 53" by (rule two_powi_less)
    then have e: "?e \<le> 0" using x by simp
    have k: "?x / (2::rat) powi ?e = of_int (m * 2 ^ nat (- ?e))"
      using e by (rule div_powi_int)
    have "of_int (round_half_even (?x / 2 powi ?e)) * (2::rat) powi ?e = ?x"
      unfolding k round_half_even_int using k[symmetric] by simp
    moreover have "\<not> 2 ^ 1024 \<le> \<bar>?x\<bar>"
    proof -
      have "?x < of_int (2 ^ 53)" using m(2) by (simp only: of_int_less_iff)
      also have "(of_int (2 ^ 53) :: rat) < 2 ^ 1024" by simp
      finally show ?thesis using x by simp
    qed
    ultimately show ?thesis using False by (simp add: float_of_int_def f64_round_def Let_def)
  qed
qed

section \<open>The backoff is bounded\<close>

text \<open>Values that are not negative: every intermediate float of the computation.\<close>

definition f_nonneg :: "f64 \<Rightarrow> bool" where
  "f_nonneg a \<longleftrightarrow> (case a of NaN \<Rightarrow> True | Inf s \<Rightarrow> \<not> s | Fin r \<Rightarrow> 0 \<le> r)"

lemma f_nonneg_simps [simp]: "f_nonneg NaN" "f_nonneg (Inf s) \<longleftrightarrow> \<not> s" "f_nonneg (Fin r) \<longleftrightarrow> 0 \<le> r"
  by (simp_all add: f_nonneg_def)

lemma f64_round_nonneg [simp]: "0 \<le> x \<Longrightarrow> f_nonneg (f64_round x)"
  by (auto simp: f64_round_def Let_def round_half_even_nonneg)

lemma f_nonneg_mul: "f_nonneg a \<Longrightarrow> f_nonneg b \<Longrightarrow> f_nonneg (f_mul a b)"
  by (cases a; cases b) auto

lemma f_nonneg_add: "f_nonneg a \<Longrightarrow> f_nonneg b \<Longrightarrow> f_nonneg (f_add a b)"
  by (cases a; cases b) auto

lemma f_nonneg_div: "f_nonneg a \<Longrightarrow> f_nonneg b \<Longrightarrow> f_nonneg (f_div a b)"
  by (cases a; cases b) auto

lemma pow_loop_nonneg:
  "f_nonneg a1 \<Longrightarrow> f_nonneg x1 \<Longrightarrow> f_nonneg (fst (pow_loop i a1 ae x1 xe))"
proof (induction i a1 ae x1 xe rule: pow_loop.induct)
  case (1 i a1 ae x1 xe)
  obtain a ae' where p: "(if odd i then (f_mul a1 x1, ae + xe) else (a1, ae)) = (a, ae')" by fastforce
  have a: "f_nonneg a" using p 1(3,4) by (auto split: if_splits intro: f_nonneg_mul)
  have sq: "f_nonneg (f_mul x1 x1)" "f_nonneg (f_add (f_mul x1 x1) (f_mul x1 x1))"
    using 1(4) by (auto intro: f_nonneg_mul f_nonneg_add)
  show ?case
  proof (cases "i = 0 \<or> xe < - 4096 \<or> 4096 < xe")
    case True
    with 1(3) show ?thesis by (auto simp: pow_loop.simps[of i a1 ae x1 xe])
  next
    case False
    then show ?thesis
      using 1(1)[OF _ _ p[symmetric] refl refl _ a sq(2)] 1(2)[OF _ _ p[symmetric] refl refl _ a sq(1)] p
      by (auto simp: pow_loop.simps[of i a1 ae x1 xe] Let_def split: prod.splits)
  qed
qed

lemma Pow_nonneg: "1 \<le> x \<Longrightarrow> f_nonneg (Pow x y)"
proof -
  assume x: "1 \<le> x"
  obtain x1 xe where f: "frexp x = (x1, xe)" by fastforce
  have "0 \<le> x1" using f x by (auto simp: frexp_def Let_def)
  then have l: "f_nonneg (fst (pow_loop (nat \<bar>y\<bar>) (Fin 1) 0 (Fin x1) xe))"
    by (intro pow_loop_nonneg) auto
  obtain a ae where p: "pow_loop (nat \<bar>y\<bar>) (Fin 1) 0 (Fin x1) xe = (a, ae)" by fastforce
  have "f_nonneg a" "f_nonneg (f_div (Fin 1) a)" using l p f_nonneg_div[of "Fin 1" a] by auto
  then show ?thesis using x
    by (auto simp: Pow_def f p Let_def f_nonneg_def[of "f64.Fin _"] split: f64.splits)
qed

lemma trunc_rat_bounds: "0 \<le> r \<Longrightarrow> r \<le> of_int m \<Longrightarrow> 0 \<le> trunc_rat r \<and> trunc_rat r \<le> m"
  by (simp add: trunc_rat_def) linarith

lemma jitter_factor: "0 \<le> v \<Longrightarrow> v < 1000000 \<Longrightarrow>
  \<exists>j. f_div (float_of_int v) one_million = Fin j \<and> 0 \<le> j \<and> j \<le> 1"
  using f64_round_below[of "of_int v / 1000000" 1]
  by (simp add: float_of_int_exact one_million_def)

lemma backoff_bounds_spec:
  assumes "backoff_bounds p = (base, mx, mul)"
  shows "0 < base" "base \<le> mx" "1 \<le> mul"
    "MaxDelay p \<le> 2 ^ 52 \<Longrightarrow> BaseDelay p \<le> 2 ^ 52 \<Longrightarrow> mx < 2 ^ 53"
  using assms by (auto simp: backoff_bounds_def Let_def DefaultRetryPolicy_def time_Second_def
      split: if_splits f64.splits)

text \<open>The wait before a retry is always defined and never negative, and it never exceeds the
  policy's effective maximum, whatever the attempt number, the multiplier and the random draw; a
  positive Retry-After is obeyed exactly up to that maximum.\<close>

theorem backoff_bounded:
  assumes "BaseDelay p \<le> 2 ^ 52" "MaxDelay p \<le> 2 ^ 52" "\<forall>v. rnd = Some v \<longrightarrow> 0 \<le> v \<and> v < 1000000"
  shows "\<exists>d. CalculateBackoff p until rnd attempt h = Some d \<and> 0 \<le> d \<and>
    d \<le> fst (snd (backoff_bounds p)) \<and>
    (0 < parseRetryAfter until h \<longrightarrow> d = min (parseRetryAfter until h) (fst (snd (backoff_bounds p))))"
proof -
  obtain base mx mul where b: "backoff_bounds p = (base, mx, mul)" by (metis prod_cases3)
  note bs = backoff_bounds_spec[OF b]
  have mx: "0 \<le> mx" "mx < 2 ^ 53" using bs assms by auto
  show ?thesis
  proof (cases "0 < parseRetryAfter until h")
    case True
    with mx b show ?thesis by (auto simp: CalculateBackoff_def Let_def min_def)
  next
    case False
    define d0 where "d0 = f_mul (float_of_int base) (Pow mul attempt)"
    define d1 where "d1 = (if IsInf d0 \<or> IsNaN d0 \<or> f_less (float_of_int mx) d0 then float_of_int mx else d0)"
    define d2 where "d2 = (if Jitter p then f_mul d1 (case rnd of None \<Rightarrow> Fin 1
      | Some v \<Rightarrow> f_div (float_of_int v) one_million) else d1)"
    have fm: "float_of_int mx = Fin (of_int mx)" using mx by (rule float_of_int_exact)
    have "f_nonneg (float_of_int base)" using bs(1) by (simp add: float_of_int_def)
    then have "f_nonneg d0" unfolding d0_def using Pow_nonneg[OF bs(3)] by (rule f_nonneg_mul)
    then have "\<exists>r. d1 = Fin r \<and> 0 \<le> r \<and> r \<le> of_int mx"
      using mx by (cases d0) (auto simp: d1_def fm IsInf_def IsNaN_def not_less)
    then obtain r where r: "d1 = Fin r" "0 \<le> r" "r \<le> of_int mx" by blast
    obtain j where j: "(case rnd of None \<Rightarrow> Fin 1 | Some v \<Rightarrow> f_div (float_of_int v) one_million) = Fin j"
      "0 \<le> j" "j \<le> 1"
      using assms(3) jitter_factor by (cases rnd) auto
    have "r * j \<le> of_int mx" using mult_left_mono[OF j(3) r(2)] r(3) by simp
    with r j have "\<exists>q. d2 = Fin q \<and> 0 \<le> q \<and> q \<le> of_int mx"
      using f64_round_below[of "r * j" mx] mx(2) by (auto simp: d2_def)
    then obtain q where q: "d2 = Fin q" "0 \<le> q" "q \<le> of_int mx" by blast
    have "CalculateBackoff p until rnd attempt h = duration_of d2"
      using False b by (simp add: CalculateBackoff_def Let_def d2_def d1_def d0_def)
    then show ?thesis using trunc_rat_bounds[OF q(2,3)] q(1) mx b False
      by (auto simp: duration_of_def)
  qed
qed

theorem backoff_bounded_witness:
  "\<exists>d. CalculateBackoff DefaultRetryPolicy (\<lambda>_. None) (Some 500000) 3 [] = Some d \<and> 0 \<le> d \<and> d \<le> 30000000000"
  using backoff_bounded[of DefaultRetryPolicy "Some 500000" "\<lambda>_. None" 3 "[]"]
  by (auto simp: DefaultRetryPolicy_def backoff_bounds_def time_Second_def)

text \<open>With the largest representable maximum delay the language no longer defines the wait: the
  cap is compared and stored as a float, which rounds it up to a value no duration can hold.\<close>

theorem backoff_overflow:
  "CalculateBackoff \<lparr>MaxRetries = 5, BaseDelay = max_int64, MaxDelay = max_int64, Multiplier = Fin 2,
     Jitter = False\<rparr> until rnd 0 [] = None"
proof -
  have "int_bits 9223372036854775807 = 63" by (simp add: int_bits.simps)
  then have fl: "flog2 9223372036854775807 = 62"
    by (simp add: flog2_def Let_def int_bits.simps quotient_of_int[of 9223372036854775807, simplified])
  have "round_half_even (9223372036854775807 / 1024) = 9007199254740992"
    by (simp add: round_half_even_def Let_def floor_divide_of_int_eq[of 9223372036854775807 1024, simplified])
  then have "f64_round 9223372036854775807 = Fin (2 ^ 63)"
    by (simp add: f64_round_def fl)
  then have m: "float_of_int max_int64 = Fin (2 ^ 63)" by (simp add: float_of_int_def max_int64_def)
  have "int_bits 9223372036854775808 = 64" by (simp add: int_bits.simps)
  then have fl2: "flog2 9223372036854775808 = 63"
    by (simp add: flog2_def Let_def int_bits.simps quotient_of_int[of 9223372036854775808, simplified])
  have "round_half_even (of_int 4503599627370496) = 4503599627370496" by (rule round_half_even_int)
  then have "f64_round 9223372036854775808 = Fin 9223372036854775808"
    by (simp add: f64_round_def fl2)
  then have m2: "f_mul (Fin 9223372036854775808) (Fin 1) = Fin 9223372036854775808" by simp
  have "2 ^ 63 \<le> r \<Longrightarrow> \<not> trunc_rat r < 2 ^ 63" for r
    by (simp add: trunc_rat_def le_floor_iff not_less)
  moreover have "parseRetryAfter until [] = 0" by (simp add: parseRetryAfter_def)
  moreover have "backoff_bounds \<lparr>MaxRetries = 5, BaseDelay = max_int64, MaxDelay = max_int64,
      Multiplier = Fin 2, Jitter = False\<rparr> = (max_int64, max_int64, 2)"
    by (simp add: backoff_bounds_def Let_def max_int64_def)
  ultimately show ?thesis
    by (simp add: CalculateBackoff_def Let_def Pow_def m m2 duration_of_def IsInf_def IsNaN_def
        del: f_mul.simps)
qed

end
