(* ===== verification/Encoding.thy ===== *)
theory Encoding
  imports Json
begin

text \<open>
  The encodings the authentication code uses: UTF-8 runes with Go's treatment of invalid bytes,
  hexadecimal, standard base64, and the \<open>encoding/json\<close> encoder for strings and for maps of raw
  values (keys sorted, values compacted, HTML characters escaped).
\<close>

section \<open>Runes\<close>

definition byte :: "string \<Rightarrow> nat \<Rightarrow> nat" where
  "byte s i = (if i < length s then of_char (s ! i) else 0)"

definition cont_in :: "nat \<Rightarrow> nat \<Rightarrow> nat \<Rightarrow> bool" where
  "cont_in lo hi b \<longleftrightarrow> lo \<le> b \<and> b \<le> hi"

text \<open>The first rune and its width: an invalid or truncated sequence is one byte of U+FFFD.\<close>

definition rune_at :: "string \<Rightarrow> nat \<times> nat" where
  "rune_at s =
     (let b0 = byte s 0; b1 = byte s 1; b2 = byte s 2; b3 = byte s 3
      in if b0 < 128 then (b0, 1)
         else if 194 \<le> b0 \<and> b0 \<le> 223 \<and> cont_in 128 191 b1 then ((b0 - 192) * 64 + (b1 - 128), 2)
         else if 224 \<le> b0 \<and> b0 \<le> 239 \<and>
                 cont_in (if b0 = 224 then 160 else 128) (if b0 = 237 then 159 else 191) b1 \<and>
                 cont_in 128 191 b2
              then ((b0 - 224) * 4096 + (b1 - 128) * 64 + (b2 - 128), 3)
         else if 240 \<le> b0 \<and> b0 \<le> 244 \<and>
                 cont_in (if b0 = 240 then 144 else 128) (if b0 = 244 then 143 else 191) b1 \<and>
                 cont_in 128 191 b2 \<and> cont_in 128 191 b3
              then ((b0 - 240) * 262144 + (b1 - 128) * 4096 + (b2 - 128) * 64 + (b3 - 128), 4)
         else (65533, 1))"

function runes :: "string \<Rightarrow> nat list" where
  "runes s = (if s = [] then [] else let (r, w) = rune_at s in r # runes (drop (max 1 w) s))"
  by pat_completeness auto
termination
  by (relation "measure length") (auto simp: diff_less)

declare runes.simps [simp del]

lemma runes_ascii: "\<forall>c\<in>set s. of_char c < (128::nat) \<Longrightarrow> runes s = map of_char s"
proof (induction s)
  case (Cons c s)
  then have "rune_at (c # s) = (of_char c, 1)" by (simp add: rune_at_def byte_def)
  with Cons show ?case by (simp add: runes.simps[of "c # s"])
qed (simp add: runes.simps)

definition IsSpace :: "nat \<Rightarrow> bool" where
  "IsSpace r \<longleftrightarrow> r \<in> {9, 10, 11, 12, 13, 32, 133, 160, 5760, 8232, 8233, 8239, 8287, 12288} \<or>
     (8192 \<le> r \<and> r \<le> 8202)"

definition IsControl :: "nat \<Rightarrow> bool" where
  "IsControl r \<longleftrightarrow> r < 32 \<or> (127 \<le> r \<and> r < 160)"

section \<open>Hexadecimal\<close>

definition hex_digit :: "nat \<Rightarrow> char" where
  "hex_digit n = (if n < 10 then char_of (48 + n) else char_of (87 + n))"

fun hex_encode :: "string \<Rightarrow> string" where
  "hex_encode [] = []"
| "hex_encode (c # s) =
     (let n = of_char c :: nat in hex_digit (n div 16) # hex_digit (n mod 16) # hex_encode s)"

fun hex_decode :: "string \<Rightarrow> string option" where
  "hex_decode [] = Some []"
| "hex_decode [c] = None"
| "hex_decode (a # b # s) =
     (case (hex_val a, hex_val b) of
        (Some x, Some y) \<Rightarrow> map_option ((#) (char_of (16 * x + y))) (hex_decode s)
      | _ \<Rightarrow> None)"

lemma hex_val_digit: "n < 16 \<Longrightarrow> hex_val (hex_digit n) = Some n"
  by (auto simp: hex_val_def hex_digit_def Let_def)

lemma hex_roundtrip: "hex_decode (hex_encode s) = Some s"
proof (induction s)
  case (Cons c s)
  let ?n = "of_char c :: nat"
  have "?n < 256" by simp
  then have "?n div 16 < 16" "?n mod 16 < 16" by linarith+
  then show ?case using Cons
    by (simp add: Let_def hex_val_digit mult.commute[of 16])
qed simp

lemma length_hex_encode: "length (hex_encode s) = 2 * length s"
  by (induction s) (simp_all add: Let_def)

section \<open>Base64\<close>

definition b64_char :: "nat \<Rightarrow> char" where
  "b64_char n =
     (if n < 26 then char_of (65 + n) else if n < 52 then char_of (71 + n)
      else if n < 62 then char_of (n - 4) else if n = 62 then CHR ''+'' else CHR ''/'')"

fun b64_encode :: "string \<Rightarrow> string" where
  "b64_encode [] = []"
| "b64_encode [a] =
     (let x = of_char a :: nat
      in [b64_char (x div 4), b64_char (x mod 4 * 16), CHR ''='', CHR ''=''])"
| "b64_encode [a, b] =
     (let x = of_char a :: nat; y = of_char b :: nat
      in [b64_char (x div 4), b64_char (x mod 4 * 16 + y div 16), b64_char (y mod 16 * 4), CHR ''=''])"
| "b64_encode (a # b # c # s) =
     (let x = of_char a :: nat; y = of_char b :: nat; z = of_char c :: nat
      in b64_char (x div 4) # b64_char (x mod 4 * 16 + y div 16) #
         b64_char (y mod 16 * 4 + z div 64) # b64_char (z mod 64) # b64_encode s)"

definition b64_val :: "char \<Rightarrow> nat option" where
  "b64_val c =
     (let n = of_char c :: nat
      in if 65 \<le> n \<and> n \<le> 90 then Some (n - 65)
         else if 97 \<le> n \<and> n \<le> 122 then Some (n - 71)
         else if 48 \<le> n \<and> n \<le> 57 then Some (n + 4)
         else if c = CHR ''+'' then Some 62 else if c = CHR ''/'' then Some 63 else None)"

text \<open>The decoder on well-formed groups, the reading a server makes of the payload header.\<close>

fun b64_decode :: "string \<Rightarrow> string option" where
  "b64_decode [] = Some []"
| "b64_decode (a # b # c # d # s) =
     (case (b64_val a, b64_val b) of
        (Some w, Some x) \<Rightarrow>
          if c = CHR ''='' then
            (if d = CHR ''='' \<and> s = [] then Some [char_of (w * 4 + x div 16)] else None)
          else (case b64_val c of
            None \<Rightarrow> None
          | Some y \<Rightarrow>
              if d = CHR ''='' then
                (if s = [] then Some [char_of (w * 4 + x div 16), char_of (x mod 16 * 16 + y div 4)]
                 else None)
              else (case b64_val d of
                None \<Rightarrow> None
              | Some z \<Rightarrow>
                  map_option (\<lambda>r. char_of (w * 4 + x div 16) # char_of (x mod 16 * 16 + y div 4) #
                    char_of (y mod 4 * 64 + z) # r) (b64_decode s)))
      | _ \<Rightarrow> None)"
| "b64_decode _ = None"

lemma of_b64_char: "n < 64 \<Longrightarrow> of_char (b64_char n) =
    (if n < 26 then 65 + n else if n < 52 then 71 + n else if n < 62 then n - 4
     else if n = 62 then 43 else 47)"
  by (auto simp: b64_char_def)

lemma char_of_eq: "c = d \<longleftrightarrow> (of_char c :: nat) = of_char d"
  by simp

lemma b64_val_char: "n < 64 \<Longrightarrow> b64_val (b64_char n) = Some n \<and> b64_char n \<noteq> CHR ''=''"
  unfolding b64_val_def Let_def char_of_eq
  by (simp only: of_b64_char) auto

lemma bits_join: "k < n \<Longrightarrow> (a * n + k) div n = (a::nat)" "k < n \<Longrightarrow> (a * n + k) mod n = k"
  by simp_all

lemma b64_roundtrip: "b64_decode (b64_encode s) = Some s"
proof (induction s rule: b64_encode.induct)
  case (2 a)
  let ?x = "of_char a :: nat"
  have "?x < 256" by simp
  then have "?x div 4 < 64" "?x mod 4 * 16 < 64" "?x div 4 * 4 + ?x mod 4 * 16 div 16 = ?x"
    by (linarith, linarith, simp)
  then show ?case by (simp add: Let_def b64_val_char)
next
  case (3 a b)
  let ?x = "of_char a :: nat" and ?y = "of_char b :: nat"
  have "?x < 256" "?y < 256" by simp_all
  then have "?x div 4 < 64" "?x mod 4 * 16 + ?y div 16 < 64" "?y mod 16 * 4 < 64"
    "?y div 16 < 16" by linarith+
  then show ?case by (simp add: Let_def b64_val_char bits_join)
next
  case (4 a b c s)
  let ?x = "of_char a :: nat" and ?y = "of_char b :: nat" and ?z = "of_char c :: nat"
  have "?x < 256" "?y < 256" "?z < 256" by simp_all
  then have "?x div 4 < 64" "?x mod 4 * 16 + ?y div 16 < 64" "?y mod 16 * 4 + ?z div 64 < 64" "?z mod 64 < 64"
    "?y div 16 < 16" "?z div 64 < 4" by linarith+
  then show ?case using 4 by (simp add: Let_def b64_val_char bits_join)
qed simp

section \<open>The JSON encoder\<close>

definition hex2 :: "nat \<Rightarrow> string" where
  "hex2 n = [hex_digit (n div 16 mod 16), hex_digit (n mod 16)]"

text \<open>The escape \<open>json.Marshal\<close> writes for one byte of a string, HTML characters included. The two
  line separators U+2028 and U+2029 are handled in \<open>json_quote_chars\<close>.\<close>

definition quote_char :: "char \<Rightarrow> string" where
  "quote_char c =
     (let n = of_char c :: nat
      in if c = CHR 0x22 \<or> c = CHR 0x5C then [CHR 0x5C, c]
         else if n = 8 then [CHR 0x5C, CHR ''b''] else if n = 12 then [CHR 0x5C, CHR ''f'']
         else if n = 10 then [CHR 0x5C, CHR ''n''] else if n = 13 then [CHR 0x5C, CHR ''r'']
         else if n = 9 then [CHR 0x5C, CHR ''t'']
         else if n < 32 \<or> c = CHR ''<'' \<or> c = CHR ''>'' \<or> c = CHR 0x26
         then CHR 0x5C # ''u00'' @ hex2 n
         else [c])"

fun json_quote_chars :: "string \<Rightarrow> string" where
  "json_quote_chars [] = []"
| "json_quote_chars (c # s) =
     (if c = CHR 0xE2 \<and> take 2 s = [CHR 0x80, CHR 0xA8] then CHR 0x5C # ''u2028'' @ json_quote_chars (drop 2 s)
      else if c = CHR 0xE2 \<and> take 2 s = [CHR 0x80, CHR 0xA9] then CHR 0x5C # ''u2029'' @ json_quote_chars (drop 2 s)
      else quote_char c @ json_quote_chars s)"

definition json_quote :: "string \<Rightarrow> string" where
  "json_quote s = CHR 0x22 # json_quote_chars s @ [CHR 0x22]"

text \<open>\<open>json.RawMessage\<close>: the members of an object with the text of each value; a later member of
  the same name wins, as in a Go map.\<close>

fun raw_members :: "nat \<Rightarrow> string \<Rightarrow> (string \<times> string) list option" where
  "raw_members 0 s = None"
| "raw_members (Suc n) s =
     (case skip_ws s of
        CHR 0x22 # cs \<Rightarrow>
          (case parse_chars (Suc (length cs)) cs of
             None \<Rightarrow> None
           | Some (k, r) \<Rightarrow>
               (case skip_ws r of
                  CHR '':'' # r1 \<Rightarrow>
                    (let v0 = skip_ws r1
                     in case parse_json_value (2 * length v0 + 2) v0 of
                          None \<Rightarrow> None
                        | Some (_, r2) \<Rightarrow>
                            (let raw = take (length v0 - length r2) v0
                             in case skip_ws r2 of
                                  CHR '','' # r3 \<Rightarrow> map_option ((#) (k, raw)) (raw_members n r3)
                                | CHR 0x7D # _ \<Rightarrow> Some [(k, raw)]
                                | _ \<Rightarrow> None))
                | _ \<Rightarrow> None))
      | _ \<Rightarrow> None)"

text \<open>\<open>json.Unmarshal\<close> into a \<open>map[string]json.RawMessage\<close>: \<open>null\<close> leaves a nil map (the empty map
  here, as every caller replaces it), anything else but an object is an error.\<close>

definition unmarshal_raw_map :: "string \<Rightarrow> (string \<times> string) list option" where
  "unmarshal_raw_map s =
     (case parse_json s of
        Some (JObj []) \<Rightarrow> Some []
      | Some (JObj _) \<Rightarrow> raw_members (Suc (length s)) (drop 1 (skip_ws s))
      | Some JNull \<Rightarrow> Some []
      | _ \<Rightarrow> None)"

definition raw_map_put :: "string \<Rightarrow> string \<Rightarrow> (string \<times> string) list \<Rightarrow> (string \<times> string) list" where
  "raw_map_put k v m = (k, v) # filter (\<lambda>(k', _). k' \<noteq> k) m"

definition raw_map_of :: "(string \<times> string) list \<Rightarrow> (string \<times> string) list" where
  "raw_map_of ms = foldl (\<lambda>m (k, v). raw_map_put k v m) [] ms"

text \<open>Compaction of a raw value: white space outside strings goes, HTML characters are escaped.\<close>

fun compact :: "bool \<Rightarrow> bool \<Rightarrow> string \<Rightarrow> string" where
  "compact instr esc [] = []"
| "compact instr esc (c # s) =
     (if instr then
        (if c = CHR ''<'' \<or> c = CHR ''>'' \<or> c = CHR 0x26
         then CHR 0x5C # ''u00'' @ hex2 (of_char c) @ compact True False s
         else if c = CHR 0xE2 \<and> take 2 s = [CHR 0x80, CHR 0xA8]
         then CHR 0x5C # ''u2028'' @ compact True False (drop 2 s)
         else if c = CHR 0xE2 \<and> take 2 s = [CHR 0x80, CHR 0xA9]
         then CHR 0x5C # ''u2029'' @ compact True False (drop 2 s)
         else if esc then c # compact True False s
         else if c = CHR 0x5C then c # compact True True s
         else if c = CHR 0x22 then c # compact False False s
         else c # compact True False s)
      else if json_space c then compact False False s
      else if c = CHR 0x22 then c # compact True False s
      else c # compact False False s)"

fun string_le :: "string \<Rightarrow> string \<Rightarrow> bool" where
  "string_le [] t = True"
| "string_le (a # s) [] = False"
| "string_le (a # s) (b # t) =
     ((of_char a :: nat) < of_char b \<or> (a = b \<and> string_le s t))"

fun join :: "string \<Rightarrow> string list \<Rightarrow> string" where
  "join sep [] = []"
| "join sep [x] = x"
| "join sep (x # xs) = x @ sep @ join sep xs"

definition cmp_keys :: "string \<times> string \<Rightarrow> string \<times> string \<Rightarrow> int" where
  "cmp_keys a b = (if string_le (fst a) (fst b) then (if fst a = fst b then 0 else - 1) else 1)"

definition marshal_raw_map :: "(string \<times> string) list \<Rightarrow> string" where
  "marshal_raw_map m =
     CHR 0x7B # join '','' (map (\<lambda>(k, v). json_quote k @ '':'' @ compact False False v)
       (sort_by cmp_keys m)) @ [CHR 0x7D]"

end
