(* ===== verification/Auth.thy ===== *)
theory Auth
  imports Encoding HttpErrors
begin

text \<open>
  Authentication, \<open>auth/auth.go\<close>, \<open>auth/hmac.go\<close>, \<open>auth/bearer.go\<close> and \<open>auth/secrets.go\<close>: the
  HTTP request an authentication strategy edits, credential masking and validation, the nonce
  generators, the HMAC-SHA384 strategy and the OAuth bearer strategy. The keyed hash itself is
  the parameter \<open>mac\<close> (key, then message); the clock is the argument \<open>now\<close>, in nanoseconds since
  the epoch. Requests are values: an operation returns the edited request.
\<close>

section \<open>Requests\<close>

record url =
  url_scheme :: string
  url_host :: string
  url_user :: "string option"
  url_path :: string

datatype body = NilBody | NoBody | Bytes string | Stream string

record http_request =
  rq_method :: string
  rq_url :: "url option"
  rq_header :: "header option"
  rq_body :: body
  rq_getbody :: "(err + body) option"
  rq_contentlength :: int

text \<open>\<open>http.Header\<close> reads of a nil map find nothing.\<close>

definition hdr :: "http_request \<Rightarrow> header" where
  "hdr req = (case rq_header req of None \<Rightarrow> [] | Some h \<Rightarrow> h)"

definition set_header :: "string \<Rightarrow> string \<Rightarrow> http_request \<Rightarrow> http_request" where
  "set_header k v req = req\<lparr>rq_header := Some (header_set k v (hdr req))\<rparr>"

section \<open>Secrets\<close>

definition APIKey_String :: "string \<Rightarrow> string" where
  "APIKey_String raw =
     (if length raw \<le> 20 then ''[REDACTED_KEY]''
      else take 4 raw @ ''...'' @ drop (length raw - 4) raw)"

definition APISecret_String :: "string \<Rightarrow> string" where
  "APISecret_String s = ''[REDACTED_SECRET]''"

definition BearerToken_String :: "string \<Rightarrow> string" where
  "BearerToken_String t = ''[REDACTED_TOKEN]''"

definition APISecret_MarshalJSON :: "string \<Rightarrow> string" where
  "APISecret_MarshalJSON s = CHR 0x22 # ''[REDACTED_SECRET]'' @ [CHR 0x22]"

definition BearerToken_MarshalJSON :: "string \<Rightarrow> string" where
  "BearerToken_MarshalJSON t = CHR 0x22 # ''[REDACTED_TOKEN]'' @ [CHR 0x22]"

section \<open>Credential headers\<close>

definition auth_headers :: "string list" where
  "auth_headers = [''Authorization'', ''X-GEMINI-APIKEY'', ''X-GEMINI-NONCE'', ''X-GEMINI-PAYLOAD'',
     ''X-GEMINI-SIGNATURE'']"

definition clearAuthenticationHeaders :: "header \<Rightarrow> header" where
  "clearAuthenticationHeaders h = foldl (\<lambda>h k. header_del k h) h auth_headers"

definition validHeaderCredential :: "string \<Rightarrow> bool" where
  "validHeaderCredential value =
     (if TrimSpace value = [] then False
      else list_all (\<lambda>r. \<not> (IsSpace r \<or> IsControl r)) (runes value))"

section \<open>Nonces\<close>

datatype nonce_unit = UnixMilli | UnixSeconds

definition unit_of :: "nonce_unit \<Rightarrow> int \<Rightarrow> int" where
  "unit_of u t = (case u of UnixMilli \<Rightarrow> t div 1000000 | UnixSeconds \<Rightarrow> t div 1000000000)"

record monotonic_nonce =
  lastNonce :: int
  skewOffset :: int
  mn_unit :: nonce_unit

text \<open>A caller-supplied generator is an arbitrary sequence of strings.\<close>

datatype nonce_gen =
    Monotonic monotonic_nonce
  | TimeBased int
  | CustomNonce "nat \<Rightarrow> string" nat

definition newMonotonicNonce :: nonce_gen where
  "newMonotonicNonce = Monotonic \<lparr>lastNonce = 0, skewOffset = 0, mn_unit = UnixMilli\<rparr>"

definition newSecondNonce :: nonce_gen where
  "newSecondNonce = Monotonic \<lparr>lastNonce = 0, skewOffset = 0, mn_unit = UnixSeconds\<rparr>"

definition newTimeBasedNonce :: nonce_gen where
  "newTimeBasedNonce = TimeBased 0"

text \<open>The candidate value of one iteration of the compare-and-swap loop of \<open>monotonicNonce.Next\<close>.\<close>

definition nonce_candidate :: "int \<Rightarrow> int \<Rightarrow> int" where
  "nonce_candidate now prev = (if now \<le> prev then wrap64 (prev + 1) else now)"

definition Next_monotonic :: "int \<Rightarrow> monotonic_nonce \<Rightarrow> monotonic_nonce \<times> string" where
  "Next_monotonic now m =
     (let next_value = nonce_candidate (unit_of (mn_unit m) (now + skewOffset m)) (lastNonce m)
      in (m\<lparr>lastNonce := next_value\<rparr>, FormatInt next_value))"

definition Next_time_based :: "int \<Rightarrow> int \<Rightarrow> string" where
  "Next_time_based now skew = FormatInt (unit_of UnixSeconds (now + skew))"

definition Next :: "int \<Rightarrow> nonce_gen \<Rightarrow> nonce_gen \<times> string" where
  "Next now g =
     (case g of
        Monotonic m \<Rightarrow> (let (m', s) = Next_monotonic now m in (Monotonic m', s))
      | TimeBased skew \<Rightarrow> (g, Next_time_based now skew)
      | CustomNonce f n \<Rightarrow> (CustomNonce f (Suc n), f n))"

definition SetSkew :: "int \<Rightarrow> nonce_gen \<Rightarrow> nonce_gen" where
  "SetSkew skew g =
     (case g of
        Monotonic m \<Rightarrow> Monotonic (m\<lparr>skewOffset := skew\<rparr>)
      | TimeBased _ \<Rightarrow> TimeBased skew
      | CustomNonce f n \<Rightarrow> g)"

section \<open>The HMAC strategy\<close>

definition NonceModeMonotonic :: nat where "NonceModeMonotonic = 0"

definition NonceModeTimeBased :: nat where "NonceModeTimeBased = 1"

definition valid_nonce_mode :: "nat \<Rightarrow> bool" where
  "valid_nonce_mode m \<longleftrightarrow> m = NonceModeMonotonic \<or> m = NonceModeTimeBased"

record HMAC =
  hm_key :: string
  hm_secret :: string
  nonceMode :: nat
  nonces :: nonce_gen
  wsNonces :: nonce_gen
  requestGate :: bool
  configurationErr :: "err option"

datatype hmac_option = WithNonceMode nat | WithCustomNonceGenerator "(nat \<Rightarrow> string) option"

definition apply_hmac_option :: "HMAC \<Rightarrow> hmac_option \<Rightarrow> HMAC" where
  "apply_hmac_option h opt =
     (case opt of
        WithNonceMode mode \<Rightarrow>
          if \<not> valid_nonce_mode mode
          then h\<lparr>configurationErr := Some (EWrap (FormatInt (int mode)) [ESent ErrInvalidNonceMode])\<rparr>
          else let h1 = h\<lparr>nonceMode := mode\<rparr>
               in if mode = NonceModeTimeBased
                  then h1\<lparr>nonces := newTimeBasedNonce, wsNonces := newTimeBasedNonce\<rparr>
                  else h1\<lparr>nonces := newMonotonicNonce, wsNonces := newSecondNonce\<rparr>
      | WithCustomNonceGenerator gen \<Rightarrow>
          (case gen of None \<Rightarrow> h | Some f \<Rightarrow> h\<lparr>nonces := CustomNonce f 0\<rparr>))"

definition NewHMAC :: "string \<Rightarrow> string \<Rightarrow> hmac_option list \<Rightarrow> HMAC" where
  "NewHMAC key secret opts =
     foldl apply_hmac_option
       \<lparr>hm_key = key, hm_secret = secret, nonceMode = NonceModeMonotonic, nonces = newMonotonicNonce,
        wsNonces = newSecondNonce, requestGate = True, configurationErr = None\<rparr> opts"

definition NewTimeBasedHMAC :: "string \<Rightarrow> string \<Rightarrow> hmac_option list \<Rightarrow> HMAC" where
  "NewTimeBasedHMAC key secret opts = NewHMAC key secret (WithNonceMode NonceModeTimeBased # opts)"

definition HMAC_Validate :: "HMAC \<Rightarrow> err option" where
  "HMAC_Validate h =
     (if \<not> validHeaderCredential (hm_key h) \<or> TrimSpace (hm_secret h) = []
      then Some (ESent ErrInvalidHMACCredentials)
      else case configurationErr h of
        Some e \<Rightarrow> Some e
      | None \<Rightarrow>
          if \<not> valid_nonce_mode (nonceMode h)
          then Some (EWrap (FormatInt (int (nonceMode h))) [ESent ErrInvalidNonceMode]) else None)"

definition HMAC_Key :: "HMAC \<Rightarrow> string" where
  "HMAC_Key h = APIKey_String (hm_key h)"

text \<open>The request gate: taken when free, otherwise the caller waits. The argument \<open>done\<close> is the
  context's error if it ends first; with the gate free Go may pick either branch of the select, so
  \<open>prefer_done\<close> resolves the choice. The result \<open>Inr False\<close> means still waiting.\<close>

definition AcquireRequest :: "HMAC \<Rightarrow> err option \<Rightarrow> bool \<Rightarrow> HMAC \<times> (err + bool)" where
  "AcquireRequest h ctx_done prefer_done =
     (case HMAC_Validate h of
        Some e \<Rightarrow> (h, Inl e)
      | None \<Rightarrow>
          (case ctx_done of
             Some e \<Rightarrow>
               if requestGate h \<and> \<not> prefer_done then (h\<lparr>requestGate := False\<rparr>, Inr True)
               else (h, Inl e)
           | None \<Rightarrow>
               if requestGate h then (h\<lparr>requestGate := False\<rparr>, Inr True) else (h, Inr False)))"

definition ReleaseRequest :: "HMAC \<Rightarrow> HMAC" where
  "ReleaseRequest h = h\<lparr>requestGate := True\<rparr>"

definition NextNonce :: "int \<Rightarrow> HMAC \<Rightarrow> HMAC \<times> string" where
  "NextNonce now h = (let (g, s) = Next now (nonces h) in (h\<lparr>nonces := g\<rparr>, s))"

text \<open>\<open>skew\<close> is \<open>time.Until\<close> of the server's time.\<close>

definition CalibrateServerTime :: "int \<Rightarrow> HMAC \<Rightarrow> HMAC" where
  "CalibrateServerTime skew h = h\<lparr>nonces := SetSkew skew (nonces h), wsNonces := SetSkew skew (wsNonces h)\<rparr>"

text \<open>The payload map of a request before it is marshalled.\<close>

definition hmac_payload_map :: "string \<Rightarrow> string \<Rightarrow> (string \<times> string) list \<Rightarrow> (string \<times> string) list" where
  "hmac_payload_map requestPath nonce params =
     raw_map_put ''nonce'' (json_quote nonce)
       (raw_map_put ''request'' (json_quote requestPath) (raw_map_of params))"

definition BuildPayload :: "int \<Rightarrow> HMAC \<Rightarrow> string \<Rightarrow> string \<Rightarrow> HMAC \<times> (err + string)" where
  "BuildPayload now h requestPath customParams =
     (case HMAC_Validate h of
        Some e \<Rightarrow> (h, Inl e)
      | None \<Rightarrow>
          let trimmed = TrimSpace customParams; (h', nonce) = NextNonce now h
          in if trimmed \<noteq> [] \<and> trimmed \<noteq> ''null'' then
               (case unmarshal_raw_map trimmed of
                  None \<Rightarrow> (h', Inl (EWrap ''invalid json payload parameters'' []))
                | Some ms \<Rightarrow> (h', Inr (marshal_raw_map (hmac_payload_map requestPath nonce ms))))
             else (h', Inr (marshal_raw_map (hmac_payload_map requestPath nonce []))))"

definition SignString :: "(string \<Rightarrow> string \<Rightarrow> string) \<Rightarrow> HMAC \<Rightarrow> string \<Rightarrow> string" where
  "SignString mac h b64Payload =
     (if HMAC_Validate h \<noteq> None then [] else hex_encode (mac (hm_secret h) b64Payload))"

definition HMAC_Sign :: "(string \<Rightarrow> string \<Rightarrow> string) \<Rightarrow> HMAC \<Rightarrow> string \<Rightarrow> string" where
  "HMAC_Sign mac h b64Payload =
     (if HMAC_Validate h \<noteq> None then [] else hex_encode (mac (hm_secret h) b64Payload))"

definition VerifySignature :: "(string \<Rightarrow> string \<Rightarrow> string) \<Rightarrow> string \<Rightarrow> string \<Rightarrow> string \<Rightarrow> bool" where
  "VerifySignature mac secret b64Payload signature =
     (if TrimSpace secret = [] \<or> length signature \<noteq> 96 then False
      else case hex_decode signature of
        None \<Rightarrow> False
      | Some provided \<Rightarrow> mac secret b64Payload = provided)"

text \<open>The request always exists where \<open>Authenticate\<close> is called; \<open>ctx_err\<close> is \<open>ctx.Err()\<close>.\<close>

definition HMAC_Authenticate ::
  "(string \<Rightarrow> string \<Rightarrow> string) \<Rightarrow> int \<Rightarrow> err option \<Rightarrow> HMAC \<Rightarrow> http_request \<Rightarrow> string \<Rightarrow>
   HMAC \<times> http_request \<times> err option" where
  "HMAC_Authenticate mac now ctx_err h req payloadJSON =
     (if ctx_err \<noteq> None then (h, req, ctx_err)
      else case HMAC_Validate h of
        Some e \<Rightarrow> (h, req, Some e)
      | None \<Rightarrow>
          let req1 = req\<lparr>rq_header := Some (clearAuthenticationHeaders (hdr req))\<rparr>
          in case rq_url req of
               None \<Rightarrow> (h, req1, Some (EMsg ''gemini auth: request URL is nil''))
             | Some u \<Rightarrow>
                 (case BuildPayload now h (url_path u) payloadJSON of
                    (h', Inl e) \<Rightarrow> (h', req1, Some e)
                  | (h', Inr fullPayload) \<Rightarrow>
                      let b64Payload = b64_encode fullPayload;
                          signature = SignString mac h' b64Payload;
                          req2 = set_header ''Cache-Control'' ''no-cache''
                            (set_header ''X-GEMINI-SIGNATURE'' signature
                            (set_header ''X-GEMINI-PAYLOAD'' b64Payload
                            (set_header ''X-GEMINI-APIKEY'' (hm_key h')
                            (set_header ''Content-Length'' ''0''
                            (set_header ''Content-Type'' ''text/plain'' req1)))))
                      in (h', req2\<lparr>rq_body := NoBody, rq_contentlength := 0\<rparr>, None)))"

definition HMAC_AuthenticateWebSocket ::
  "(string \<Rightarrow> string \<Rightarrow> string) \<Rightarrow> int \<Rightarrow> err option \<Rightarrow> HMAC \<Rightarrow> http_request \<Rightarrow>
   HMAC \<times> http_request \<times> err option" where
  "HMAC_AuthenticateWebSocket mac now ctx_err h req =
     (if ctx_err \<noteq> None then (h, req, ctx_err)
      else case HMAC_Validate h of
        Some e \<Rightarrow> (h, req, Some e)
      | None \<Rightarrow>
          if nonceMode h \<noteq> NonceModeTimeBased then (h, req, Some (ESent ErrTimeBasedNonceRequired))
          else
            let req1 = req\<lparr>rq_header := Some (clearAuthenticationHeaders (hdr req))\<rparr>;
                (g, nonce) = Next now (wsNonces h);
                h' = h\<lparr>wsNonces := g\<rparr>;
                b64Payload = b64_encode nonce;
                signature = SignString mac h' b64Payload
            in (h', set_header ''X-GEMINI-SIGNATURE'' signature
                  (set_header ''X-GEMINI-PAYLOAD'' b64Payload
                  (set_header ''X-GEMINI-NONCE'' nonce
                  (set_header ''X-GEMINI-APIKEY'' (hm_key h') req1))), None))"

section \<open>The bearer strategy\<close>

text \<open>A token source: none (nil), a static token, or a caller's function, whose answers to
  successive calls are an arbitrary sequence.\<close>

datatype token_source =
    NilSource
  | StaticToken string
  | TokenFunc "nat \<Rightarrow> err + string" nat

definition token_char :: "char \<Rightarrow> bool" where
  "token_char c \<longleftrightarrow>
     (let n = of_char c :: nat
      in (97 \<le> n \<and> n \<le> 122) \<or> (65 \<le> n \<and> n \<le> 90) \<or> (48 \<le> n \<and> n \<le> 57) \<or> c \<in> set ''-._~+/='')"

definition validBearerToken :: "string \<Rightarrow> bool" where
  "validBearerToken value = (if TrimSpace value = [] then False else list_all token_char value)"

definition Bearer_Validate :: "token_source \<Rightarrow> err option" where
  "Bearer_Validate src =
     (case src of
        NilSource \<Rightarrow> Some (ESent ErrInvalidTokenSource)
      | StaticToken t \<Rightarrow>
          if validBearerToken t then None
          else Some (EWrap ''static token is empty or contains invalid characters'' [ESent ErrInvalidTokenSource])
      | TokenFunc f n \<Rightarrow> None)"

definition source_token :: "token_source \<Rightarrow> token_source \<times> (err + string)" where
  "source_token src =
     (case src of
        NilSource \<Rightarrow> (src, Inr [])
      | StaticToken t \<Rightarrow> (src, Inr t)
      | TokenFunc f n \<Rightarrow> (TokenFunc f (Suc n), f n))"

definition bearer_token :: "token_source \<Rightarrow> token_source \<times> (err + string)" where
  "bearer_token src =
     (case Bearer_Validate src of
        Some e \<Rightarrow> (src, Inl e)
      | None \<Rightarrow>
          (case source_token src of
             (src', Inl e) \<Rightarrow> (src', Inl (EWrap [] [ESent ErrTokenSourceFailure, e]))
           | (src', Inr rawToken) \<Rightarrow>
               (src', if TrimSpace rawToken = []
                      then Inl (EWrap ''token source returned an empty token'' [ESent ErrTokenSourceFailure])
                      else if \<not> validBearerToken rawToken
                      then Inl (EWrap ''token source returned invalid token characters'' [ESent ErrTokenSourceFailure])
                      else Inr rawToken)))"

definition oauth_payload_map :: "string \<Rightarrow> (string \<times> string) list \<Rightarrow> (string \<times> string) list" where
  "oauth_payload_map requestPath params =
     filter (\<lambda>(k, _). k \<noteq> ''nonce'')
       (raw_map_put ''request'' (json_quote requestPath) (raw_map_of params))"

definition buildOAuthPayload :: "string \<Rightarrow> string \<Rightarrow> err + string" where
  "buildOAuthPayload requestPath payloadJSON =
     (case unmarshal_raw_map payloadJSON of
        None \<Rightarrow> Inl (EWrap ''invalid json payload parameters'' [])
      | Some ms \<Rightarrow> Inr (marshal_raw_map (oauth_payload_map requestPath ms)))"

definition Bearer_Authenticate ::
  "token_source \<Rightarrow> http_request \<Rightarrow> string \<Rightarrow> token_source \<times> http_request \<times> err option" where
  "Bearer_Authenticate src req payloadJSON =
     (case Bearer_Validate src of
        Some e \<Rightarrow> (src, req, Some e)
      | None \<Rightarrow>
          (case rq_url req of
             None \<Rightarrow> (src, req, Some (EMsg ''gemini auth: request URL is nil''))
           | Some u \<Rightarrow>
               let req1 = req\<lparr>rq_header := Some (clearAuthenticationHeaders (hdr req))\<rparr>
               in case bearer_token src of
                    (src', Inl e) \<Rightarrow> (src', req1, Some e)
                  | (src', Inr rawToken) \<Rightarrow>
                      let req2 = set_header ''Authorization'' (''Bearer '' @ rawToken) req1;
                          payload = (if payloadJSON = [] then [CHR 0x7B, CHR 0x7D] else payloadJSON)
                      in case buildOAuthPayload (url_path u) payload of
                           Inl e \<Rightarrow> (src', req2, Some e)
                         | Inr p \<Rightarrow>
                             let req3 = set_header ''Content-Length'' ''0''
                                   (set_header ''Content-Type'' ''text/plain''
                                   (set_header ''X-GEMINI-PAYLOAD'' (b64_encode p) req2))
                             in (src', req3\<lparr>rq_body := NoBody, rq_contentlength := 0\<rparr>, None)))"

definition Bearer_AuthenticateWebSocket ::
  "token_source \<Rightarrow> http_request \<Rightarrow> token_source \<times> http_request \<times> err option" where
  "Bearer_AuthenticateWebSocket src req =
     (case Bearer_Validate src of
        Some e \<Rightarrow> (src, req, Some e)
      | None \<Rightarrow>
          let req1 = req\<lparr>rq_header := Some (clearAuthenticationHeaders (hdr req))\<rparr>
          in case bearer_token src of
               (src', Inl e) \<Rightarrow> (src', req1, Some e)
             | (src', Inr rawToken) \<Rightarrow>
                 (src', set_header ''Authorization'' (''Bearer '' @ rawToken) req1, None))"

end
