(* ===== verification/AuthSpec.thy ===== *)
theory AuthSpec
  imports Auth
begin

text \<open>
  What authentication promises: nonces stay unique and increasing under every interleaving of
  concurrent callers (the step relation \<open>nonce_step\<close> of the compare-and-swap loop), signatures
  verify, no credential of another scheme survives, and header values cannot carry control bytes.
  The interface \<open>auth_strategy\<close> is what the transport needs of a strategy; both strategies
  are instances.
\<close>

section \<open>The strategy interface\<close>

locale auth_strategy =
  fixes authenticate :: "nat \<Rightarrow> 's \<Rightarrow> http_request \<Rightarrow> string \<Rightarrow> 's \<times> http_request \<times> err option"
  assumes keeps_target: "authenticate n s req p = (s', req', e) \<Longrightarrow>
      rq_method req' = rq_method req \<and> rq_url req' = rq_url req"
    and empties_body: "authenticate n s req p = (s', req', None) \<Longrightarrow>
      rq_body req' = NoBody \<and> rq_contentlength req' = 0"

lemma set_header_frame [simp]:
  "rq_method (set_header k v req) = rq_method req" "rq_url (set_header k v req) = rq_url req"
  "rq_body (set_header k v req) = rq_body req" "rq_getbody (set_header k v req) = rq_getbody req"
  by (simp_all add: set_header_def)

lemma hdr_set_header [simp]: "hdr (set_header k v req) = header_set k v (hdr req)"
  by (simp add: set_header_def hdr_def)

lemma hdr_update_header [simp]: "hdr (req\<lparr>rq_header := Some h\<rparr>) = h"
  by (simp add: hdr_def)

lemma hdr_update_body [simp]: "hdr (rq_body_update f req) = hdr req" "hdr (rq_getbody_update g req) = hdr req"
  "hdr (rq_contentlength_update l req) = hdr req"
  by (simp_all add: hdr_def)

lemma HMAC_Authenticate_frame:
  "HMAC_Authenticate mac now c h req p = (h', req', e) \<Longrightarrow>
   rq_method req' = rq_method req \<and> rq_url req' = rq_url req \<and>
   (e = None \<longrightarrow> rq_body req' = NoBody \<and> rq_contentlength req' = 0)"
  by (auto simp: HMAC_Authenticate_def Let_def split: option.splits prod.splits sum.splits if_splits)

lemma Bearer_Authenticate_frame:
  "Bearer_Authenticate src req p = (src', req', e) \<Longrightarrow>
   rq_method req' = rq_method req \<and> rq_url req' = rq_url req \<and>
   (e = None \<longrightarrow> rq_body req' = NoBody \<and> rq_contentlength req' = 0)"
  by (auto simp: Bearer_Authenticate_def Let_def split: option.splits prod.splits sum.splits if_splits)

interpretation hmac_auth: auth_strategy
  "\<lambda>n h req p. HMAC_Authenticate mac (clock n) (ctx n) h req p" for mac clock ctx
  by unfold_locales (auto dest: HMAC_Authenticate_frame)

interpretation bearer_auth: auth_strategy "\<lambda>n src req p. Bearer_Authenticate src req p"
  by unfold_locales (auto dest: Bearer_Authenticate_frame)

section \<open>Concurrent nonces\<close>

text \<open>
  A thread in \<open>monotonicNonce.Next\<close>: outside, about to load the last nonce with its clock reading,
  or about to swap with the value it loaded. The state is the shared word and the nonces returned
  so far, oldest first.
\<close>

datatype nonce_thread = NonceIdle | NonceLoad int | NonceSwap int int

record nonce_state =
  ns_last :: int
  ns_threads :: "nat \<Rightarrow> nonce_thread"
  ns_log :: "int list"

inductive nonce_step :: "nonce_state \<Rightarrow> nonce_state \<Rightarrow> bool" where
  nonce_call: "ns_threads s t = NonceIdle \<Longrightarrow>
    nonce_step s (s\<lparr>ns_threads := (ns_threads s)(t := NonceLoad now)\<rparr>)"
| nonce_load: "ns_threads s t = NonceLoad now \<Longrightarrow>
    nonce_step s (s\<lparr>ns_threads := (ns_threads s)(t := NonceSwap now (ns_last s))\<rparr>)"
| nonce_swap: "ns_threads s t = NonceSwap now prev \<Longrightarrow> ns_last s = prev \<Longrightarrow>
    nonce_step s (s\<lparr>ns_last := nonce_candidate now prev, ns_threads := (ns_threads s)(t := NonceIdle),
      ns_log := ns_log s @ [nonce_candidate now prev]\<rparr>)"
| nonce_retry: "ns_threads s t = NonceSwap now prev \<Longrightarrow> ns_last s \<noteq> prev \<Longrightarrow>
    nonce_step s (s\<lparr>ns_threads := (ns_threads s)(t := NonceLoad now)\<rparr>)"

definition nonce_init :: nonce_state where
  "nonce_init = \<lparr>ns_last = 0, ns_threads = (\<lambda>_. NonceIdle), ns_log = []\<rparr>"

inductive nonce_reachable :: "nonce_state \<Rightarrow> bool" where
  nonce_start: "nonce_reachable nonce_init"
| nonce_more: "nonce_reachable s \<Longrightarrow> nonce_step s s' \<Longrightarrow> nonce_reachable s'"

inductive_cases nonce_stepE: "nonce_step s s'"

definition nonce_inv :: "nonce_state \<Rightarrow> bool" where
  "nonce_inv s \<longleftrightarrow> ns_last s = last (0 # ns_log s) \<and>
     ((\<forall>x\<in>set (ns_log s). x < max_int64) \<longrightarrow> sorted_wrt (<) (0 # ns_log s) )"

lemma nonce_candidate_grows:
  "- (2 ^ 63) \<le> prev \<Longrightarrow> prev < max_int64 \<Longrightarrow> prev < nonce_candidate now prev \<and> now \<le> nonce_candidate now prev"
  by (simp add: nonce_candidate_def wrap64_id max_int64_def)

lemma sorted_wrt_last_le: "sorted_wrt (<) (x # xs) \<Longrightarrow> y \<in> set (x # xs) \<Longrightarrow> y \<le> last (x # (xs :: int list))"
  by (induction xs arbitrary: x y) force+

lemma nonce_inv_step:
  assumes "nonce_step s s'" "nonce_inv s"
  shows "nonce_inv s'"
  using assms(1)
proof (cases rule: nonce_step.cases)
  case (nonce_swap t now prev)
  show ?thesis
  proof (cases "\<forall>x\<in>set (ns_log s). x < max_int64")
    case True
    with assms(2) have so: "sorted_wrt (<) (0 # ns_log s)" by (simp add: nonce_inv_def)
    have l: "prev = last (0 # ns_log s)" using assms(2) nonce_swap by (simp add: nonce_inv_def)
    have "0 \<le> prev" using sorted_wrt_last_le[OF so, of 0] l by simp
    moreover have "prev < max_int64"
    proof (cases "ns_log s = []")
      case False
      then have "prev \<in> set (ns_log s)" using l by simp
      with True show ?thesis by blast
    qed (use l in \<open>simp add: max_int64_def\<close>)
    ultimately have g: "prev < nonce_candidate now prev" using nonce_candidate_grows[of prev now] by simp
    have "\<forall>y\<in>set (0 # ns_log s). y < nonce_candidate now prev"
    proof
      fix y assume "y \<in> set (0 # ns_log s)"
      then have "y \<le> prev" using sorted_wrt_last_le[OF so] l by blast
      with g show "y < nonce_candidate now prev" by linarith
    qed
    with so have "sorted_wrt (<) (0 # (ns_log s @ [nonce_candidate now prev]))"
      by (auto simp: sorted_wrt_append)
    then show ?thesis using nonce_swap by (simp add: nonce_inv_def)
  next
    case False
    then show ?thesis using nonce_swap by (auto simp: nonce_inv_def)
  qed
qed (use assms(2) in \<open>auto simp: nonce_inv_def\<close>)

lemma nonce_reachable_inv: "nonce_reachable s \<Longrightarrow> nonce_inv s"
proof (induction rule: nonce_reachable.induct)
  case nonce_start
  show ?case by (simp add: nonce_inv_def nonce_init_def)
qed (rule nonce_inv_step)

section \<open>Headers after authentication\<close>

lemma canonical_auth_headers:
  "CanonicalHeaderKey ''Authorization'' = ''Authorization''"
  "CanonicalHeaderKey ''X-GEMINI-APIKEY'' = ''X-Gemini-Apikey''"
  "CanonicalHeaderKey ''X-GEMINI-NONCE'' = ''X-Gemini-Nonce''"
  "CanonicalHeaderKey ''X-GEMINI-PAYLOAD'' = ''X-Gemini-Payload''"
  "CanonicalHeaderKey ''X-GEMINI-SIGNATURE'' = ''X-Gemini-Signature''"
  "CanonicalHeaderKey ''Content-Type'' = ''Content-Type''"
  "CanonicalHeaderKey ''Content-Length'' = ''Content-Length''"
  "CanonicalHeaderKey ''Cache-Control'' = ''Cache-Control''"
  by code_simp+

lemma clear_headers_get: "k \<in> set auth_headers \<Longrightarrow> header_get (clearAuthenticationHeaders h) k = []"
  by (auto simp: clearAuthenticationHeaders_def auth_headers_def header_get_del canonical_auth_headers)

lemma HMAC_Authenticate_ok:
  assumes "HMAC_Authenticate mac now c h req p = (h', req', None)"
  shows "\<exists>u full. HMAC_Validate h = None \<and> HMAC_Validate h' = None \<and> hm_key h' = hm_key h \<and>
    hm_secret h' = hm_secret h \<and> rq_url req = Some u \<and> BuildPayload now h (url_path u) p = (h', Inr full) \<and>
    hdr req' = header_set ''Cache-Control'' ''no-cache''
      (header_set ''X-GEMINI-SIGNATURE'' (hex_encode (mac (hm_secret h) (b64_encode full)))
      (header_set ''X-GEMINI-PAYLOAD'' (b64_encode full) (header_set ''X-GEMINI-APIKEY'' (hm_key h)
      (header_set ''Content-Length'' ''0'' (header_set ''Content-Type'' ''text/plain''
      (clearAuthenticationHeaders (hdr req)))))))"
proof -
  have v: "HMAC_Validate h = None" and c: "c = None"
    using assms by (auto simp: HMAC_Authenticate_def split: if_splits option.splits)
  obtain u where u: "rq_url req = Some u"
    using assms v c by (auto simp: HMAC_Authenticate_def Let_def split: option.splits)
  obtain h1 r where b: "BuildPayload now h (url_path u) p = (h1, r)" by fastforce
  obtain full where full: "r = Inr full" "h1 = h'"
    using assms v c u b by (cases r) (auto simp: HMAC_Authenticate_def Let_def)
  have k: "hm_key h' = hm_key h" "hm_secret h' = hm_secret h" "HMAC_Validate h' = None"
    using b full v by (auto simp: BuildPayload_def NextNonce_def Let_def HMAC_Validate_def
        split: if_splits option.splits prod.splits)
  have "hdr req' = header_set ''Cache-Control'' ''no-cache''
      (header_set ''X-GEMINI-SIGNATURE'' (hex_encode (mac (hm_secret h) (b64_encode full)))
      (header_set ''X-GEMINI-PAYLOAD'' (b64_encode full) (header_set ''X-GEMINI-APIKEY'' (hm_key h)
      (header_set ''Content-Length'' ''0'' (header_set ''Content-Type'' ''text/plain''
      (clearAuthenticationHeaders (hdr req)))))))"
    using assms v c u b full k by (auto simp: HMAC_Authenticate_def Let_def SignString_def)
  with v k u b full show ?thesis by blast
qed

lemma validBearerToken_chars: "validBearerToken t \<Longrightarrow> t \<noteq> [] \<and> (\<forall>c\<in>set t. token_char c)"
  by (auto simp: validBearerToken_def list_all_iff split: if_splits)

section \<open>A concrete strategy and request\<close>

definition demo_hmac :: HMAC where
  "demo_hmac = NewHMAC ''key'' ''secret'' []"

definition demo_url :: url where
  "demo_url = \<lparr>url_scheme = ''https'', url_host = ''api.gemini.com'', url_user = None, url_path = ''/v1/x''\<rparr>"

definition demo_request :: http_request where
  "demo_request = \<lparr>rq_method = ''POST'', rq_url = Some demo_url, rq_header = None, rq_body = NilBody,
     rq_getbody = None, rq_contentlength = 0\<rparr>"

lemma TrimSpace_demo: "TrimSpace ''key'' = ''key''" "TrimSpace ''secret'' = ''secret''" "TrimSpace ''tok'' = ''tok''"
proof -
  have c: "CHR ''k'' \<notin> space_bytes" "CHR ''y'' \<notin> space_bytes" "CHR ''s'' \<notin> space_bytes"
    "CHR ''t'' \<notin> space_bytes"
    by (simp_all add: space_bytes_def space_encodings_def ascii_spaces_def)
  show "TrimSpace ''key'' = ''key''" "TrimSpace ''secret'' = ''secret''" "TrimSpace ''tok'' = ''tok''"
    by (rule TrimSpace_id, simp add: c)+
qed

lemma demo_hmac_valid: "HMAC_Validate demo_hmac = None"
proof -
  have "list_all (\<lambda>r. \<not> (IsSpace r \<or> IsControl r)) (runes ''key'')"
    by (simp add: runes_ascii IsSpace_def IsControl_def)
  then show ?thesis
    by (simp add: demo_hmac_def NewHMAC_def HMAC_Validate_def validHeaderCredential_def TrimSpace_demo
        valid_nonce_mode_def)
qed

lemma HMAC_Authenticate_accepts:
  assumes "HMAC_Validate h = None" "rq_url req = Some u"
  shows "\<exists>h' req'. HMAC_Authenticate mac now None h req [] = (h', req', None)"
  using assms by (auto simp: HMAC_Authenticate_def BuildPayload_def Let_def split: prod.splits)

section \<open>Properties\<close>

text \<open>C27: However concurrent callers interleave, the nonces the monotonic generator hands out are
  strictly increasing in the order they are claimed, so no two calls get the same one (as long as
  they stay below the largest 64-bit value).\<close>

theorem nonces_strictly_increase:
  assumes "nonce_reachable s" "\<forall>x\<in>set (ns_log s). x < max_int64"
  shows "sorted_wrt (<) (ns_log s) \<and> distinct (ns_log s) \<and> (\<forall>x\<in>set (ns_log s). 0 < x \<and> x \<le> ns_last s)"
proof -
  have so: "sorted_wrt (<) (0 # ns_log s)" "ns_last s = last (0 # ns_log s)"
    using nonce_reachable_inv[OF assms(1)] assms(2) by (simp_all add: nonce_inv_def)
  then have "distinct (ns_log s)" by (auto simp: strict_sorted_iff)
  with so show ?thesis using sorted_wrt_last_le[OF so(1)] by auto
qed

theorem nonces_strictly_increase_witness:
  "\<exists>s. nonce_reachable s \<and> ns_log s = [5, 6] \<and> distinct (ns_log s)"
proof -
  define s1 where "s1 = nonce_init\<lparr>ns_threads := (\<lambda>_. NonceIdle)(0 := NonceLoad 5)\<rparr>"
  define s2 where "s2 = s1\<lparr>ns_threads := (ns_threads s1)(1 := NonceLoad 4)\<rparr>"
  define s3 where "s3 = s2\<lparr>ns_threads := (ns_threads s2)(0 := NonceSwap 5 0)\<rparr>"
  define s4 where "s4 = s3\<lparr>ns_last := 5, ns_threads := (ns_threads s3)(0 := NonceIdle), ns_log := [5]\<rparr>"
  define s5 where "s5 = s4\<lparr>ns_threads := (ns_threads s4)(1 := NonceSwap 4 5)\<rparr>"
  define s6 where "s6 = s5\<lparr>ns_last := 6, ns_threads := (ns_threads s5)(1 := NonceIdle), ns_log := [5, 6]\<rparr>"
  have t1: "nonce_step nonce_init s1" unfolding s1_def
    using nonce_call[of nonce_init 0 5] by (simp add: nonce_init_def)
  have t2: "nonce_step s1 s2" unfolding s2_def
    using nonce_call[of s1 1 4] by (simp add: s1_def nonce_init_def)
  have t3: "nonce_step s2 s3" unfolding s3_def
    using nonce_load[of s2 0 5] by (simp add: s1_def s2_def nonce_init_def)
  have t4: "nonce_step s3 s4" unfolding s4_def
    using nonce_swap[of s3 0 5 0] by (simp add: s1_def s2_def s3_def nonce_init_def nonce_candidate_def)
  have t5: "nonce_step s4 s5" unfolding s5_def
    using nonce_load[of s4 1 4] by (simp add: s1_def s2_def s3_def s4_def nonce_init_def)
  have t6: "nonce_step s5 s6" unfolding s6_def
    using nonce_swap[of s5 1 4 5]
    by (simp add: s1_def s2_def s3_def s4_def s5_def nonce_init_def nonce_candidate_def wrap64_id)
  have r: "nonce_reachable s6"
    by (rule nonce_more[OF nonce_more[OF nonce_more[OF nonce_more[OF nonce_more[OF nonce_more[OF
            nonce_start t1] t2] t3] t4] t5] t6])
  have "ns_log s6 = [5, 6]" by (simp add: s6_def)
  with nonces_strictly_increase[OF r] r show ?thesis by (auto simp: max_int64_def)
qed

text \<open>C24: A request the HMAC strategy signs carries the key, a payload header that decodes to the
  payload built for its path, and a signature that \<open>VerifySignature\<close> accepts for that payload
  under the secret; it carries no bearer token and no stale nonce header, its method and URL are
  unchanged and its body is empty. (The keyed hash is any function with 48-byte results.)\<close>

theorem hmac_authenticate_sound:
  assumes "\<forall>k m. length (mac k m) = 48"
    and "HMAC_Authenticate mac now ctx h req p = (h', req', None)"
  shows "\<exists>u full. rq_url req = Some u \<and> snd (BuildPayload now h (url_path u) p) = Inr full \<and>
    header_get (hdr req') ''X-GEMINI-APIKEY'' = hm_key h \<and>
    b64_decode (header_get (hdr req') ''X-GEMINI-PAYLOAD'') = Some full \<and>
    VerifySignature mac (hm_secret h) (header_get (hdr req') ''X-GEMINI-PAYLOAD'')
      (header_get (hdr req') ''X-GEMINI-SIGNATURE'') \<and>
    header_get (hdr req') ''Authorization'' = [] \<and> header_get (hdr req') ''X-GEMINI-NONCE'' = [] \<and>
    rq_method req' = rq_method req \<and> rq_url req' = rq_url req \<and> rq_body req' = NoBody"
proof -
  obtain u full where a: "HMAC_Validate h = None" "rq_url req = Some u"
    "BuildPayload now h (url_path u) p = (h', Inr full)"
    "hdr req' = header_set ''Cache-Control'' ''no-cache''
      (header_set ''X-GEMINI-SIGNATURE'' (hex_encode (mac (hm_secret h) (b64_encode full)))
      (header_set ''X-GEMINI-PAYLOAD'' (b64_encode full) (header_set ''X-GEMINI-APIKEY'' (hm_key h)
      (header_set ''Content-Length'' ''0'' (header_set ''Content-Type'' ''text/plain''
      (clearAuthenticationHeaders (hdr req)))))))"
    using HMAC_Authenticate_ok[OF assms(2)] by blast
  have "TrimSpace (hm_secret h) \<noteq> []" using a(1) by (auto simp: HMAC_Validate_def split: if_splits)
  then have v: "VerifySignature mac (hm_secret h) b (hex_encode (mac (hm_secret h) b))" for b
    using assms(1) by (simp add: VerifySignature_def length_hex_encode hex_roundtrip)
  show ?thesis
    using a v HMAC_Authenticate_frame[OF assms(2)]
    by (simp add: header_get_set canonical_auth_headers b64_roundtrip clear_headers_get auth_headers_def)
qed

theorem hmac_authenticate_sound_witness:
  "\<exists>h' req'. HMAC_Authenticate (\<lambda>k m. replicate 48 (CHR ''a'')) 0 None demo_hmac demo_request [] = (h', req', None) \<and>
     header_get (hdr req') ''X-GEMINI-APIKEY'' = ''key''"
proof -
  let ?mac = "\<lambda>(k::string) (m::string). replicate 48 (CHR ''a'')"
  obtain h' req' where a: "HMAC_Authenticate ?mac 0 None demo_hmac demo_request [] = (h', req', None)"
    using HMAC_Authenticate_accepts[OF demo_hmac_valid, of demo_request demo_url ?mac 0]
    by (auto simp: demo_request_def)
  have k: "hm_key demo_hmac = ''key''" by (simp add: demo_hmac_def NewHMAC_def)
  have "\<forall>k m. length (?mac k m) = 48" by simp
  from hmac_authenticate_sound[OF this a] k a show ?thesis by auto
qed

text \<open>An accepted bearer token cannot inject anything: after successful authentication the
  Authorization header is \<open>Bearer\<close> and a non-empty token of letters, digits and \<open>-._~+/=\<close> only,
  every HMAC header of an earlier scheme but the payload is gone, and the body is empty.\<close>

theorem bearer_authenticate_sound:
  assumes "Bearer_Authenticate src req p = (src', req', None)"
  shows "\<exists>t. header_get (hdr req') ''Authorization'' = ''Bearer '' @ t \<and> t \<noteq> [] \<and>
    (\<forall>c\<in>set t. token_char c) \<and> header_get (hdr req') ''X-GEMINI-APIKEY'' = [] \<and>
    header_get (hdr req') ''X-GEMINI-SIGNATURE'' = [] \<and> header_get (hdr req') ''X-GEMINI-NONCE'' = [] \<and>
    rq_method req' = rq_method req \<and> rq_url req' = rq_url req \<and> rq_body req' = NoBody"
proof -
  obtain s1 t where t: "bearer_token src = (s1, Inr t)"
    using assms by (auto simp: Bearer_Authenticate_def Let_def split: option.splits prod.splits sum.splits)
  then have tv: "validBearerToken t"
    by (auto simp: bearer_token_def split: option.splits prod.splits sum.splits if_splits)
  have "\<exists>b. hdr req' = header_set ''Content-Length'' ''0'' (header_set ''Content-Type'' ''text/plain''
      (header_set ''X-GEMINI-PAYLOAD'' b (header_set ''Authorization'' (''Bearer '' @ t)
      (clearAuthenticationHeaders (hdr req)))))"
    using assms t by (auto simp: Bearer_Authenticate_def Let_def split: option.splits sum.splits)
  then show ?thesis using validBearerToken_chars[OF tv] Bearer_Authenticate_frame[OF assms]
    by (auto simp: header_get_set canonical_auth_headers clear_headers_get auth_headers_def)
qed

theorem bearer_authenticate_sound_witness:
  "\<exists>req'. Bearer_Authenticate (StaticToken ''tok'') demo_request [] = (StaticToken ''tok'', req', None) \<and>
     rq_body req' = NoBody"
proof -
  have v: "validBearerToken ''tok''" unfolding validBearerToken_def TrimSpace_demo by code_simp
  have u: "unmarshal_raw_map [CHR 0x7B, CHR 0x7D] = Some []" by code_simp
  obtain req' where a: "Bearer_Authenticate (StaticToken ''tok'') demo_request [] = (StaticToken ''tok'', req', None)"
    using v u by (auto simp: Bearer_Authenticate_def Bearer_Validate_def bearer_token_def source_token_def
        demo_request_def buildOAuthPayload_def Let_def TrimSpace_demo)
  from bearer_authenticate_sound[OF a] a show ?thesis by blast
qed

text \<open>The signed payload always names the SDK's own request path and nonce: whatever members the
  caller's parameters have, those two are overwritten and every other member keeps the caller's last
  value for it; an OAuth payload names the path and never a nonce.\<close>

theorem payload_not_spoofable:
  "map_of (hmac_payload_map path nonce params) k =
     (if k = ''nonce'' then Some (json_quote nonce) else if k = ''request'' then Some (json_quote path)
      else map_of (rev params) k) \<and>
   map_of (oauth_payload_map path params) k =
     (if k = ''nonce'' then None else if k = ''request'' then Some (json_quote path)
      else map_of (rev params) k)"
proof -
  have filt: "map_of (filter (\<lambda>(k', _). k' \<noteq> k0) m) k = (if k = k0 then None else map_of m k)" for k0 k
    and m :: "(string \<times> string) list"
    by (induction m) auto
  have put: "map_of (raw_map_put k0 v m) k = (if k = k0 then Some v else map_of m k)" for k0 v k
    and m :: "(string \<times> string) list"
    by (simp add: raw_map_put_def filt)
  have fold: "map_of (foldl (\<lambda>m (k, v). raw_map_put k v m) m0 params) k = (map_of m0 ++ map_of (rev params)) k" for m0 k
    by (induction params arbitrary: m0) (auto simp: put map_add_def split: option.splits)
  show ?thesis
    by (simp add: hmac_payload_map_def oauth_payload_map_def put filt raw_map_of_def fold)
qed

end
