(* ===== verification/Transport.thy ===== *)
theory Transport
  imports Retry AuthSpec
begin

text \<open>
  The HTTP client of \<open>transport/transport.go\<close>: validation of a request, authentication, the
  attempt loop with its retries, response reading and error normalisation, with the hook calls of
  \<open>transport/hooks.go\<close> recorded in order. What the outside world does during a call (the network's
  answer to each attempt, the context, the random draws, the clock) is the argument \<open>env\<close>, a
  function of the attempt number; the authentication strategy is a function as in the interface
  \<open>auth_strategy\<close>.
\<close>

section \<open>The environment of a call\<close>

text \<open>What \<open>http.Client.Do\<close> returns. A response brings the bytes its body delivers and the error
  that ends them, if any.\<close>

datatype do_result =
    DoErr err
  | DoNil
  | DoResp http_response string "err option"

record exec_env =
  ev_ctx :: "nat \<Rightarrow> err option"
  ev_do :: "nat \<Rightarrow> http_request \<Rightarrow> do_result"
  ev_wait :: "nat \<Rightarrow> err option"
  ev_rand :: "nat \<Rightarrow> int option"
  ev_until :: "string \<Rightarrow> int option"
  ev_client_agent :: string

text \<open>What a call does that others can see: the requests on the wire and the hook calls.\<close>

datatype exec_event =
    Sent http_request
  | OnRequestStart
  | OnRequestEnd "int option" "err option"
  | OnRetry int "int option" "err option"
  | OnRateLimit int

text \<open>The client: its configuration, and its authentication as a function with a state.\<close>

type_synonym 's authenticator = "nat \<Rightarrow> 's \<Rightarrow> http_request \<Rightarrow> string \<Rightarrow> 's \<times> http_request \<times> err option"

record 's client =
  cl_auth :: "'s authenticator option"
  cl_acquire :: "'s \<Rightarrow> err option"
  cl_calibrate :: "'s \<Rightarrow> string \<Rightarrow> 's"
  cl_retry :: RetryPolicy
  cl_userAgent :: string
  cl_configErr :: "err option"

record 's exec_state =
  xs_auth :: 's
  xs_req :: http_request
  xs_resp :: "http_response option"
  xs_body :: string
  xs_err :: "err option"
  xs_trace :: "exec_event list"

definition emit :: "exec_event \<Rightarrow> 's exec_state \<Rightarrow> 's exec_state" where
  "emit e st = st\<lparr>xs_trace := xs_trace st @ [e]\<rparr>"

definition end_hook :: "http_response option \<Rightarrow> err option \<Rightarrow> 's exec_state \<Rightarrow> 's exec_state" where
  "end_hook resp e st = emit (OnRequestEnd (map_option rs_StatusCode resp) e) st"

section \<open>Helpers\<close>

definition resetUnauthenticatedRequest :: "http_request \<Rightarrow> http_request" where
  "resetUnauthenticatedRequest req =
     (let hasGeminiAuthentication =
            list_ex (\<lambda>k. header_get (hdr req) k \<noteq> [])
              [''X-GEMINI-APIKEY'', ''X-GEMINI-NONCE'', ''X-GEMINI-PAYLOAD'', ''X-GEMINI-SIGNATURE''];
          req1 = req\<lparr>rq_header := Some (foldl (\<lambda>h k. header_del k h) (hdr req)
            [''Authorization'', ''X-GEMINI-APIKEY'', ''X-GEMINI-NONCE'', ''X-GEMINI-PAYLOAD'',
             ''X-GEMINI-SIGNATURE''])\<rparr>
      in if \<not> hasGeminiAuthentication then req1
         else req1\<lparr>rq_header := Some (foldl (\<lambda>h k. header_del k h) (hdr req1)
                [''Content-Type'', ''Content-Length'', ''Cache-Control'']),
                rq_body := NoBody, rq_getbody := None, rq_contentlength := 0\<rparr>)"

definition normalizeTransportError :: "err \<Rightarrow> err" where
  "normalizeTransportError e =
     (if errors_is e Canceled then e
      else if errors_is e CtxDeadlineExceeded then EWrap [] [ESent ErrDeadlineExceeded, e]
      else if as_net e = Some True then EWrap [] [ESent ErrDeadlineExceeded, e]
      else e)"

definition maxResponseBodyBytes :: nat where
  "maxResponseBodyBytes = 33554432"

text \<open>The limited read: the bytes beyond the limit, and an error after them, are not seen.\<close>

definition readResponseBody :: "string \<Rightarrow> err option \<Rightarrow> err + string" where
  "readResponseBody bytes read_err =
     (if maxResponseBodyBytes < length bytes then Inl (ESent ErrBodyExceededLimit)
      else case read_err of Some e \<Rightarrow> Inl e | None \<Rightarrow> Inr bytes)"

section \<open>Execute\<close>

text \<open>The checks before any network access.\<close>

definition check_request :: "'s client \<Rightarrow> http_request option \<Rightarrow> err + http_request" where
  "check_request c request =
     (case cl_configErr c of
        Some e \<Rightarrow> Inl e
      | None \<Rightarrow>
          (case request of
             None \<Rightarrow> Inl (EMsg ''gemini transport: nil request'')
           | Some req \<Rightarrow>
               (case rq_url req of
                  None \<Rightarrow> Inl (EMsg ''gemini transport: request URL is nil'')
                | Some u \<Rightarrow>
                    if url_host u = [] \<or> url_user u \<noteq> None then Inl (ESent ErrInvalidRequestURL)
                    else if \<not> EqualFold (url_scheme u) ''https'' then Inl (ESent ErrHTTPSRequired)
                    else Inr req)))"

definition default_headers :: "'s client \<Rightarrow> string \<Rightarrow> http_request \<Rightarrow> http_request" where
  "default_headers c agent req =
     (let r0 = req\<lparr>rq_header := Some (hdr req)\<rparr>;
          r1 = (if cl_userAgent c \<noteq> [] \<and> header_get (hdr r0) ''User-Agent'' = []
                then set_header ''User-Agent'' (cl_userAgent c) r0 else r0)
      in if header_get (hdr r1) ''X-Gemini-Client-User-Agent'' = []
         then set_header ''X-Gemini-Client-User-Agent'' agent r1 else r1)"

text \<open>Authentication before the first attempt, or the public path's reset and JSON body.\<close>

definition apply_auth ::
  "'s client \<Rightarrow> string \<Rightarrow> 's exec_state \<Rightarrow> 's exec_state \<times> err option" where
  "apply_auth c payloadJSON st =
     (case cl_auth c of
        Some authenticate \<Rightarrow>
          (case authenticate 0 (xs_auth st) (xs_req st) payloadJSON of
             (s, req, e) \<Rightarrow>
               (st\<lparr>xs_auth := s, xs_req := req\<rparr>,
                map_option (\<lambda>e. EWrap ''gemini transport: auth failed'' [e]) e))
      | None \<Rightarrow>
          let req = resetUnauthenticatedRequest (xs_req st)
          in if 0 < length payloadJSON
             then (st\<lparr>xs_req := (set_header ''Content-Type'' ''application/json'' req)
                      \<lparr>rq_getbody := Some (Inr (Bytes payloadJSON)), rq_body := Bytes payloadJSON,
                       rq_contentlength := int (length payloadJSON)\<rparr>\<rparr>, None)
             else (st\<lparr>xs_req := req\<rparr>, None))"

definition requestReplayable :: "http_request \<Rightarrow> bool" where
  "requestReplayable req \<longleftrightarrow> rq_body req = NilBody \<or> rq_body req = NoBody \<or> rq_getbody req \<noteq> None"

text \<open>Before every attempt but the first: sign again, or rewind the body.\<close>

definition prepare_attempt ::
  "'s client \<Rightarrow> string \<Rightarrow> nat \<Rightarrow> 's exec_state \<Rightarrow> 's exec_state \<times> err option" where
  "prepare_attempt c payloadJSON attempt st =
     (if attempt = 0 then (st, None)
      else case cl_auth c of
        Some authenticate \<Rightarrow>
          (case authenticate attempt (xs_auth st) (xs_req st) payloadJSON of
             (s, req, e) \<Rightarrow>
               (st\<lparr>xs_auth := s, xs_req := req\<rparr>,
                map_option (\<lambda>e. EWrap ''gemini transport: auth re-sign failed'' [e]) e))
      | None \<Rightarrow>
          (case rq_getbody (xs_req st) of
             None \<Rightarrow> (st, None)
           | Some (Inl e) \<Rightarrow> (st, Some (EWrap ''gemini transport: recreating request body'' [e]))
           | Some (Inr b) \<Rightarrow> (st\<lparr>xs_req := (xs_req st)\<lparr>rq_body := b\<rparr>\<rparr>, None)))"

text \<open>One call of the network. The captured body keeps its value when no response arrives.\<close>

definition call_once :: "'s client \<Rightarrow> exec_env \<Rightarrow> nat \<Rightarrow> 's exec_state \<Rightarrow> 's exec_state" where
  "call_once c env attempt st0 =
     (let st = emit (Sent (xs_req st0)) st0
      in case ev_do env attempt (xs_req st) of
           DoErr e \<Rightarrow> st\<lparr>xs_resp := None, xs_err := Some e\<rparr>
         | DoNil \<Rightarrow> st\<lparr>xs_resp := None, xs_err := Some (ESent ErrNoResponse)\<rparr>
         | DoResp r bytes read_err \<Rightarrow>
             let st1 = (case readResponseBody bytes read_err of
                          Inl e \<Rightarrow> st\<lparr>xs_resp := Some r, xs_body := [], xs_err := Some e\<rparr>
                        | Inr b \<Rightarrow> st\<lparr>xs_resp := Some r, xs_body := b, xs_err := None\<rparr>)
             in st1\<lparr>xs_auth := cl_calibrate c (xs_auth st1) (header_get (rs_Header r) ''Date'')\<rparr>)"

definition succeeded :: "'s exec_state \<Rightarrow> bool" where
  "succeeded st \<longleftrightarrow> xs_err st = None \<and>
     (case xs_resp st of None \<Rightarrow> False | Some r \<Rightarrow> 200 \<le> rs_StatusCode r \<and> rs_StatusCode r < 300)"

definition status_of :: "'s exec_state \<Rightarrow> int" where
  "status_of st = (case xs_resp st of None \<Rightarrow> 0 | Some r \<Rightarrow> rs_StatusCode r)"

definition retry_after_of :: "'s exec_state \<Rightarrow> string" where
  "retry_after_of st = (case xs_resp st of None \<Rightarrow> [] | Some r \<Rightarrow> header_get (rs_Header r) ''Retry-After'')"

definition rate_limit_hook :: "exec_env \<Rightarrow> 's exec_state \<Rightarrow> 's exec_state" where
  "rate_limit_hook env st =
     (if status_of st = 429 then emit (OnRateLimit (parseRetryAfter (ev_until env) (retry_after_of st))) st
      else st)"

definition wants_retry :: "'s client \<Rightarrow> bool \<Rightarrow> nat \<Rightarrow> 's exec_state \<Rightarrow> bool" where
  "wants_retry c replayable attempt st \<longleftrightarrow>
     int attempt < MaxRetries (cl_retry c) \<and> replayable \<and>
     IsRetryable (rq_method (xs_req st)) (status_of st) (xs_err st)"

text \<open>The results of \<open>Execute\<close>: returning nothing but an error, or response, body and error.\<close>

definition fail_with :: "http_response option \<Rightarrow> err \<Rightarrow> 's exec_state \<Rightarrow> 's exec_state" where
  "fail_with hook_resp e st = (end_hook hook_resp (Some e) st)\<lparr>xs_resp := None, xs_body := [], xs_err := Some e\<rparr>"

definition finish :: "exec_env \<Rightarrow> 's exec_state \<Rightarrow> 's exec_state" where
  "finish env st =
     (let classifiedErr = (case xs_err st of
            Some e \<Rightarrow> Some (normalizeTransportError e)
          | None \<Rightarrow> ClassifyResponse (ev_until env) (xs_resp st) (xs_body st))
      in (end_hook (xs_resp st) classifiedErr st)\<lparr>xs_err := classifiedErr\<rparr>)"

text \<open>The loop. \<open>n\<close> is the number of attempts that may still follow the current one, so the
  recursion is structural and the loop ends whatever the environment does.\<close>

fun attempts ::
  "'s client \<Rightarrow> exec_env \<Rightarrow> string \<Rightarrow> bool \<Rightarrow> nat \<Rightarrow> nat \<Rightarrow> 's exec_state \<Rightarrow> 's exec_state" where
  "attempts c env payloadJSON replayable n attempt st =
     (case ev_ctx env attempt of
        Some e \<Rightarrow> fail_with (xs_resp st) (normalizeTransportError e) st
      | None \<Rightarrow>
          (case prepare_attempt c payloadJSON attempt st of
             (st1, Some e) \<Rightarrow> fail_with None e st1
           | (st1, None) \<Rightarrow>
               let st2 = call_once c env attempt st1
               in if succeeded st2 then end_hook (xs_resp st2) None st2
                  else
                    let st3 = rate_limit_hook env st2
                    in if wants_retry c replayable attempt st3 then
                         let backoff = CalculateBackoff (cl_retry c) (ev_until env) (ev_rand env attempt)
                               (int attempt) (retry_after_of st3);
                             st4 = emit (OnRetry (int attempt + 1) backoff (xs_err st3)) st3
                         in (case ev_wait env attempt of
                               Some e \<Rightarrow> fail_with (xs_resp st4) (normalizeTransportError e) st4
                             | None \<Rightarrow>
                                 (case n of
                                    0 \<Rightarrow> finish env st4
                                  | Suc n' \<Rightarrow> attempts c env payloadJSON replayable n' (Suc attempt) st4))
                       else finish env st3))"

definition nil_request :: http_request where
  "nil_request = \<lparr>rq_method = [], rq_url = None, rq_header = None, rq_body = NilBody,
     rq_getbody = None, rq_contentlength = 0\<rparr>"

definition Execute ::
  "'s client \<Rightarrow> exec_env \<Rightarrow> 's \<Rightarrow> http_request option \<Rightarrow> string \<Rightarrow> 's exec_state" where
  "Execute c env s request payloadJSON =
     (case check_request c request of
        Inl e \<Rightarrow> \<lparr>xs_auth = s, xs_req = (case request of Some r \<Rightarrow> r | None \<Rightarrow> nil_request), xs_resp = None,
                  xs_body = [], xs_err = Some e, xs_trace = []\<rparr>
      | Inr req \<Rightarrow>
          let st0 = \<lparr>xs_auth = s, xs_req = default_headers c (ev_client_agent env) req, xs_resp = None,
                     xs_body = [], xs_err = None, xs_trace = [OnRequestStart]\<rparr>
          in case cl_acquire c s of
               Some e \<Rightarrow> fail_with None e st0
             | None \<Rightarrow>
                 (case apply_auth c payloadJSON st0 of
                    (st1, Some e) \<Rightarrow> fail_with None e st1
                  | (st1, None) \<Rightarrow>
                      attempts c env payloadJSON (requestReplayable (xs_req st1))
                        (nat (MaxRetries (cl_retry c))) 0 st1))"

section \<open>Requests with a JSON payload\<close>

text \<open>The caller's payload comes as its JSON encoding (or the encoder's error), the target URL as
  \<open>net/url\<close> parses it. On success the body and the response header are returned.\<close>

definition RequestRaw ::
  "'s client \<Rightarrow> exec_env \<Rightarrow> 's \<Rightarrow> string \<Rightarrow> err + url \<Rightarrow> err + string \<Rightarrow> 's \<times> (err + string \<times> header)" where
  "RequestRaw c env s method target payload =
     (case cl_configErr c of
        Some e \<Rightarrow> (s, Inl e)
      | None \<Rightarrow>
          (case payload of
             Inl e \<Rightarrow> (s, Inl (EWrap ''gemini transport: marshaling payload'' [e]))
           | Inr payloadBytes \<Rightarrow>
               (case target of
                  Inl e \<Rightarrow> (s, Inl (EWrap ''gemini transport: creating request'' [e]))
                | Inr u \<Rightarrow>
                    let req = \<lparr>rq_method = (if method = [] then ''GET'' else method), rq_url = Some u,
                          rq_header = Some [], rq_body = NilBody, rq_getbody = None, rq_contentlength = 0\<rparr>;
                        st = Execute c env s (Some req) payloadBytes
                    in (xs_auth st,
                        case xs_err st of
                          Some e \<Rightarrow> Inl e
                        | None \<Rightarrow>
                            Inr (xs_body st, case xs_resp st of Some r \<Rightarrow> rs_Header r | None \<Rightarrow> [])))))"

text \<open>\<open>Request\<close> decodes a non-empty body into the caller's target with the decoder it is given.\<close>

definition Request ::
  "'s client \<Rightarrow> exec_env \<Rightarrow> 's \<Rightarrow> string \<Rightarrow> err + url \<Rightarrow> err + string \<Rightarrow> (string \<Rightarrow> err + 'a) option \<Rightarrow>
   's \<times> (err + 'a option)" where
  "Request c env s method target payload decoder =
     (case RequestRaw c env s method target payload of
        (s', Inl e) \<Rightarrow> (s', Inl e)
      | (s', Inr (body, _)) \<Rightarrow>
          (case decoder of
             None \<Rightarrow> (s', Inr None)
           | Some dec \<Rightarrow>
               if 0 < length body then
                 (case dec body of
                    Inl e \<Rightarrow> (s', Inl (EWrap ''gemini transport: unmarshaling response'' [e]))
                  | Inr v \<Rightarrow> (s', Inr (Some v)))
               else (s', Inr None)))"

end
