(* ===== verification/TransportSpec.thy ===== *)
theory TransportSpec
  imports Transport
begin

text \<open>
  What \<open>Execute\<close> promises for every environment: how often and where a request is sent, that
  mutating requests are sent at most once, that every started call ends with exactly one end hook,
  and what a call without error returns.
\<close>

section \<open>Traces\<close>

fun sends :: "exec_event list \<Rightarrow> http_request list" where
  "sends [] = []"
| "sends (Sent r # es) = r # sends es"
| "sends (_ # es) = sends es"

definition quiet :: "exec_event list \<Rightarrow> bool" where
  "quiet tr \<longleftrightarrow> (\<forall>e\<in>set tr. case e of OnRequestStart \<Rightarrow> False | OnRequestEnd _ _ \<Rightarrow> False | _ \<Rightarrow> True)"

lemma sends_append [simp]: "sends (xs @ ys) = sends xs @ sends ys"
  by (induction xs rule: sends.induct) simp_all

lemma quiet_simps [simp]: "quiet []" "quiet (xs @ ys) \<longleftrightarrow> quiet xs \<and> quiet ys" "quiet [Sent r]"
  "quiet [OnRetry i b e]" "quiet [OnRateLimit d]"
  by (auto simp: quiet_def)

text \<open>The client's strategy keeps the contract of the interface.\<close>

definition strategy_ok :: "'s client \<Rightarrow> bool" where
  "strategy_ok c \<longleftrightarrow> (case cl_auth c of None \<Rightarrow> True | Some a \<Rightarrow> auth_strategy a)"

section \<open>The steps of one attempt\<close>

text \<open>Where a state's request goes, and on the public path which header it has.\<close>

definition same_target :: "'s client \<Rightarrow> http_request \<Rightarrow> http_request \<Rightarrow> bool" where
  "same_target c r r' \<longleftrightarrow> rq_method r' = rq_method r \<and> rq_url r' = rq_url r \<and>
     (cl_auth c = None \<longrightarrow> rq_header r' = rq_header r)"

lemma same_target_refl [simp]: "same_target c r r"
  by (simp add: same_target_def)

lemma same_target_trans: "same_target c r r' \<Longrightarrow> same_target c r' r'' \<Longrightarrow> same_target c r r''"
  by (simp add: same_target_def)

lemma strategy_keeps:
  "strategy_ok c \<Longrightarrow> cl_auth c = Some a \<Longrightarrow> a n s r p = (s', r', e) \<Longrightarrow>
   rq_method r' = rq_method r \<and> rq_url r' = rq_url r"
  using auth_strategy.keeps_target[of a n s r p s' r' e] by (simp add: strategy_ok_def)

lemma prepare_attempt_frame:
  assumes "strategy_ok c" "prepare_attempt c p a st = (st1, e)"
  shows "xs_trace st1 = xs_trace st \<and> same_target c (xs_req st) (xs_req st1)"
  using assms(2) strategy_keeps[OF assms(1)]
  by (auto simp: prepare_attempt_def same_target_def
      split: if_splits option.splits prod.splits sum.splits)

lemma call_once_frame:
  "xs_trace (call_once c env a st) = xs_trace st @ [Sent (xs_req st)] \<and> xs_req (call_once c env a st) = xs_req st"
  by (auto simp: call_once_def Let_def emit_def split: do_result.splits sum.splits)

lemma rate_limit_hook_frame:
  "\<exists>tr. xs_trace (rate_limit_hook env st) = xs_trace st @ tr \<and> sends tr = [] \<and> quiet tr \<and>
    xs_req (rate_limit_hook env st) = xs_req st"
  by (cases "status_of st = 429") (auto simp: rate_limit_hook_def emit_def)

lemma wants_retry_bound: "wants_retry c rep a st \<Longrightarrow>
  rep \<and> IsSafeMethod (rq_method (xs_req st)) \<and> int a < MaxRetries (cl_retry c)"
  by (auto simp: wants_retry_def IsRetryable_def split: if_splits)

section \<open>The loop\<close>

text \<open>What a run of the loop adds: a trace of attempts closed by one end hook that reports the
  result, at most \<open>k\<close> sends, all to the target of the state's request.\<close>

definition run_ok :: "'s client \<Rightarrow> nat \<Rightarrow> 's exec_state \<Rightarrow> 's exec_state \<Rightarrow> bool" where
  "run_ok c k st st' \<longleftrightarrow>
     (\<exists>tr x. xs_trace st' = xs_trace st @ tr @ [OnRequestEnd x (xs_err st')] \<and> quiet tr \<and>
        length (sends tr) \<le> k \<and> (\<forall>r\<in>set (sends tr). same_target c (xs_req st) r)) \<and>
     (xs_err st' = None \<longrightarrow> (\<exists>r. xs_resp st' = Some r \<and> 200 \<le> rs_StatusCode r \<and> rs_StatusCode r < 300))"

lemma run_ok_fail: "run_ok c k st (fail_with x e st)"
  by (auto simp: run_ok_def fail_with_def end_hook_def emit_def intro!: exI[of _ "[]"])

lemma run_ok_finish: "run_ok c k st (finish env st)"
  by (auto simp: run_ok_def finish_def end_hook_def emit_def Let_def ClassifyResponse_def
      intro!: exI[of _ "[]"] split: option.splits if_splits)

lemma run_ok_success: "succeeded st \<Longrightarrow> run_ok c k st (end_hook (xs_resp st) None st)"
  by (auto simp: run_ok_def succeeded_def end_hook_def emit_def intro!: exI[of _ "[]"] split: option.splits)

text \<open>Composition: a prefix that makes \<open>j\<close> sends, then a run that makes at most \<open>k\<close>.\<close>

lemma run_ok_prefix:
  assumes "run_ok c k st1 st'" "xs_trace st1 = xs_trace st @ tr" "quiet tr"
    "\<forall>r\<in>set (sends tr). same_target c (xs_req st) r" "same_target c (xs_req st) (xs_req st1)"
  shows "run_ok c (length (sends tr) + k) st st'"
proof -
  obtain tr' x where t: "xs_trace st' = xs_trace st1 @ tr' @ [OnRequestEnd x (xs_err st')]" "quiet tr'"
    "length (sends tr') \<le> k" "\<forall>r\<in>set (sends tr'). same_target c (xs_req st1) r"
    using assms(1) by (auto simp: run_ok_def)
  have "\<forall>r\<in>set (sends (tr @ tr')). same_target c (xs_req st) r"
    using t(4) assms(4,5) same_target_trans[of c "xs_req st" "xs_req st1"] by auto
  with t assms show ?thesis unfolding run_ok_def
    by (intro conjI exI[of _ "tr @ tr'"] exI[of _ x]) auto
qed

lemma run_ok_mono: "run_ok c k st st' \<Longrightarrow> k \<le> l \<Longrightarrow> run_ok c l st st'"
  unfolding run_ok_def by (meson le_trans)

declare attempts.simps [simp del]

text \<open>One attempt, given what happens when it wants another one.\<close>

lemma attempts_step_gen:
  assumes ok: "strategy_ok c"
    and more: "\<And>st4. rep \<Longrightarrow> IsSafeMethod (rq_method (xs_req st4)) \<Longrightarrow>
      run_ok c n st4 (case m of 0 \<Rightarrow> finish env st4 | Suc n' \<Rightarrow> attempts c env p rep n' (Suc a) st4)"
  shows "run_ok c (if rep \<and> IsSafeMethod (rq_method (xs_req st)) then Suc n else 1) st
    (attempts c env p rep m a st)"
proof (cases "ev_ctx env a")
  case (Some e)
  then show ?thesis by (simp add: attempts.simps run_ok_fail)
next
  case ctx: None
  obtain st1 e where pr: "prepare_attempt c p a st = (st1, e)" by fastforce
  note fr = prepare_attempt_frame[OF ok pr]
  have from1: "run_ok c k st st'" if "run_ok c k st1 st'" for k st'
    using run_ok_prefix[OF that, of st "[]"] fr by simp
  show ?thesis
  proof (cases e)
    case (Some err)
    then show ?thesis using ctx pr by (simp add: attempts.simps from1 run_ok_fail)
  next
    case None
    let ?st2 = "call_once c env a st1"
    let ?st3 = "rate_limit_hook env ?st2"
    note c1 = call_once_frame[of c env a st1]
    obtain tr where r3: "xs_trace ?st3 = xs_trace ?st2 @ tr" "sends tr = []" "quiet tr" "xs_req ?st3 = xs_req ?st2"
      using rate_limit_hook_frame by blast
    have m: "rq_method (xs_req ?st3) = rq_method (xs_req st)"
      using fr c1 r3 by (simp add: same_target_def)
    have from2: "run_ok c (Suc k) st st'" if "run_ok c k ?st2 st'" for k st'
      using from1[OF run_ok_prefix[OF that, of st1 "[Sent (xs_req st1)]"]] c1 by simp
    have from3: "run_ok c (Suc k) st st'" if "run_ok c k ?st3 st'" for k st'
      using from2[OF run_ok_prefix[OF that r3(1,3)]] r3 by simp
    show ?thesis
    proof (cases "succeeded ?st2 \<or> \<not> wants_retry c rep a ?st3")
      case True
      then have "run_ok c 1 st (attempts c env p rep m a st)"
        using ctx pr None from2[OF run_ok_success, of 0] from3[OF run_ok_finish, of 0]
        by (auto simp: attempts.simps Let_def)
      then show ?thesis by (rule run_ok_mono) simp
    next
      case False
      then have w: "rep" "IsSafeMethod (rq_method (xs_req ?st3))" using wants_retry_bound by auto
      define ev where "ev = OnRetry (int a + 1) (CalculateBackoff (cl_retry c) (ev_until env)
        (ev_rand env a) (int a) (retry_after_of ?st3)) (xs_err ?st3)"
      have q: "quiet [ev]" "sends [ev] = []" by (simp_all add: ev_def)
      have from4: "run_ok c (Suc k) st st'" if "run_ok c k (emit ev ?st3) st'" for k st'
        using from3[OF run_ok_prefix[OF that, of ?st3 "[ev]"]] q by (simp add: emit_def)
      have "rq_method (xs_req (emit ev ?st3)) = rq_method (xs_req ?st3)" by (simp add: emit_def)
      then have m4: "run_ok c n (emit ev ?st3) (case m of 0 \<Rightarrow> finish env (emit ev ?st3)
          | Suc n' \<Rightarrow> attempts c env p rep n' (Suc a) (emit ev ?st3))"
        using w by (intro more) simp_all
      have "attempts c env p rep m a st = (case ev_wait env a of
          Some e \<Rightarrow> fail_with (xs_resp (emit ev ?st3)) (normalizeTransportError e) (emit ev ?st3)
        | None \<Rightarrow> (case m of 0 \<Rightarrow> finish env (emit ev ?st3)
            | Suc n' \<Rightarrow> attempts c env p rep n' (Suc a) (emit ev ?st3)))"
        unfolding ev_def using False ctx pr None
        by (simp add: attempts.simps[of c env p rep m a st] Let_def)
      then have "run_ok c (Suc n) st (attempts c env p rep m a st)"
        using from4[OF run_ok_fail, of n] from4[OF m4] by (simp split: option.splits)
      then show ?thesis using w m by simp
    qed
  qed
qed

lemma attempts_ok:
  assumes "strategy_ok c"
  shows "run_ok c (if rep \<and> IsSafeMethod (rq_method (xs_req st)) then Suc n else 1) st
    (attempts c env p rep n a st)"
proof (induction n arbitrary: a st)
  case 0
  show ?case by (intro attempts_step_gen[OF assms]) (simp add: run_ok_finish)
next
  case (Suc n)
  have "run_ok c (Suc n) st4 (attempts c env p rep n (Suc a) st4)"
    if "rep" "IsSafeMethod (rq_method (xs_req st4))" for st4
    using Suc.IH[of st4 "Suc a"] that by simp
  then show ?case by (intro attempts_step_gen[OF assms]) simp
qed

section \<open>Execute\<close>

lemma default_headers_target:
  "rq_method (default_headers c agent req) = rq_method req \<and> rq_url (default_headers c agent req) = rq_url req"
  by (simp add: default_headers_def Let_def)

lemma apply_auth_frame:
  assumes "strategy_ok c" "apply_auth c p st = (st1, e)"
  shows "xs_trace st1 = xs_trace st \<and> rq_method (xs_req st1) = rq_method (xs_req st) \<and>
    rq_url (xs_req st1) = rq_url (xs_req st)"
proof (cases "cl_auth c")
  case None
  have "rq_method (resetUnauthenticatedRequest r) = rq_method r \<and> rq_url (resetUnauthenticatedRequest r) = rq_url r" for r
    by (simp add: resetUnauthenticatedRequest_def Let_def)
  with None assms(2) show ?thesis by (auto simp: apply_auth_def Let_def split: if_splits)
next
  case (Some a)
  then show ?thesis using assms(2) strategy_keeps[OF assms(1) Some]
    by (auto simp: apply_auth_def split: prod.splits)
qed

text \<open>On the public path no SDK credential is left on the request.\<close>

definition no_credentials :: "http_request \<Rightarrow> bool" where
  "no_credentials req \<longleftrightarrow> (\<forall>k\<in>set auth_headers. header_get (hdr req) k = [])"

lemma reset_no_credentials: "no_credentials (resetUnauthenticatedRequest req)"
  by (auto simp: no_credentials_def resetUnauthenticatedRequest_def Let_def auth_headers_def
      header_get_del canonical_auth_headers)

lemma apply_auth_public:
  assumes "cl_auth c = None" "apply_auth c p st = (st1, e)"
  shows "no_credentials (xs_req st1)"
  using assms reset_no_credentials[of "xs_req st"]
  by (auto simp: apply_auth_def Let_def no_credentials_def auth_headers_def header_get_set
      canonical_auth_headers split: if_splits)

lemma check_request_Inr:
  "check_request c request = Inr req \<Longrightarrow> request = Some req \<and>
   (\<exists>u. rq_url req = Some u \<and> EqualFold (url_scheme u) ''https'' \<and> url_host u \<noteq> [] \<and> url_user u = None)"
  by (auto simp: check_request_def split: option.splits if_splits)

lemma Execute_cases:
  assumes "strategy_ok c"
  obtains e where "check_request c request = Inl e" "xs_err (Execute c env s request p) = Some e"
      "xs_trace (Execute c env s request p) = []"
    | req st1 k where "check_request c request = Inr req"
      "xs_trace st1 = [OnRequestStart]" "rq_method (xs_req st1) = rq_method req" "rq_url (xs_req st1) = rq_url req"
      "run_ok c k st1 (Execute c env s request p)"
      "k \<le> Suc (nat (MaxRetries (cl_retry c)))" "\<not> IsSafeMethod (rq_method req) \<Longrightarrow> k \<le> 1"
      "cl_auth c = None \<Longrightarrow> k = 0 \<or> no_credentials (xs_req st1)"
proof (cases "check_request c request")
  case (Inl e)
  with that(1) show ?thesis by (simp add: Execute_def)
next
  case (Inr req)
  let ?st0 = "\<lparr>xs_auth = s, xs_req = default_headers c (ev_client_agent env) req, xs_resp = None,
    xs_body = [], xs_err = None, xs_trace = [OnRequestStart]\<rparr>"
  note t0 = default_headers_target[of c "ev_client_agent env" req]
  show ?thesis
  proof (cases "cl_acquire c s")
    case (Some e)
    then have "Execute c env s request p = fail_with None e ?st0" using Inr by (simp add: Execute_def Let_def)
    with that(2)[OF Inr, of ?st0 0] t0 run_ok_fail[of c 0 ?st0] show ?thesis by simp
  next
    case None
    obtain st1 e where aa: "apply_auth c p ?st0 = (st1, e)" by fastforce
    note f = apply_auth_frame[OF assms aa]
    have st1: "xs_trace st1 = [OnRequestStart]" "rq_method (xs_req st1) = rq_method req"
      "rq_url (xs_req st1) = rq_url req" using f t0 by simp_all
    show ?thesis
    proof (cases e)
      case (Some err)
      then have "Execute c env s request p = fail_with None err st1"
        using Inr None aa by (simp add: Execute_def Let_def)
      with that(2)[OF Inr st1, of 0] run_ok_fail[of c 0 st1] show ?thesis by simp
    next
      case none: None
      let ?rep = "requestReplayable (xs_req st1)" and ?n = "nat (MaxRetries (cl_retry c))"
      have "Execute c env s request p = attempts c env p ?rep ?n 0 st1"
        using Inr None none aa by (simp add: Execute_def Let_def)
      then show ?thesis using attempts_ok[OF assms, of ?rep st1 ?n env p 0] st1(2) apply_auth_public[OF _ aa]
        by (intro that(2)[OF Inr st1]) (auto split: if_splits)
    qed
  qed
qed

section \<open>A concrete client\<close>

definition demo_client :: "unit client" where
  "demo_client = \<lparr>cl_auth = None, cl_acquire = (\<lambda>_. None), cl_calibrate = (\<lambda>s _. s),
     cl_retry = \<lparr>MaxRetries = 1, BaseDelay = 1, MaxDelay = 1, Multiplier = Fin 2, Jitter = False\<rparr>,
     cl_userAgent = ''gemini-go/0.1.0'', cl_configErr = None\<rparr>"

definition demo_get :: http_request where
  "demo_get = demo_request\<lparr>rq_method := ''GET''\<rparr>"

text \<open>The first attempt is answered 503 with a body, the second fails with \<open>io.EOF\<close>.\<close>

definition demo_env :: exec_env where
  "demo_env = \<lparr>ev_ctx = (\<lambda>_. None),
     ev_do = (\<lambda>n _. if n = 0 then DoResp \<lparr>rs_StatusCode = 503, rs_Header = []\<rparr> ''busy'' None
                     else DoErr (EUrl (ESent EOF))),
     ev_wait = (\<lambda>_. None), ev_rand = (\<lambda>_. None), ev_until = (\<lambda>_. None), ev_client_agent = ''ua''\<rparr>"

lemma demo_client_ok: "strategy_ok demo_client"
  by (simp add: strategy_ok_def demo_client_def)

lemma demo_check: "check_request demo_client (Some demo_get) = Inr demo_get"
  by (simp add: check_request_def demo_client_def demo_get_def demo_request_def demo_url_def)

lemma demo_prepare: "rq_getbody (xs_req st) = None \<Longrightarrow> prepare_attempt demo_client [] a st = (st, None)"
  by (simp add: prepare_attempt_def demo_client_def)

lemma demo_call0: "call_once demo_client demo_env 0 st = st\<lparr>xs_trace := xs_trace st @ [Sent (xs_req st)],
    xs_resp := Some \<lparr>rs_StatusCode = 503, rs_Header = []\<rparr>, xs_body := ''busy'', xs_err := None\<rparr>"
  by (simp add: call_once_def demo_env_def demo_client_def readResponseBody_def maxResponseBodyBytes_def
      emit_def Let_def)

lemma demo_call1: "call_once demo_client demo_env (Suc 0) st = st\<lparr>xs_trace := xs_trace st @ [Sent (xs_req st)],
    xs_resp := None, xs_err := Some (EUrl (ESent EOF))\<rparr>"
  by (simp add: call_once_def demo_env_def emit_def Let_def)

lemma demo_second:
  assumes "rq_getbody (xs_req st) = None"
  shows "attempts demo_client demo_env [] True 0 (Suc 0) st =
    st\<lparr>xs_trace := xs_trace st @ [Sent (xs_req st), OnRequestEnd None (Some (EUrl (ESent EOF)))],
      xs_resp := None, xs_err := Some (EUrl (ESent EOF))\<rparr>"
proof -
  have "ev_ctx demo_env (Suc 0) = None" "MaxRetries (cl_retry demo_client) = 1"
    by (simp_all add: demo_env_def demo_client_def)
  then show ?thesis using demo_prepare[OF assms]
    by (simp add: attempts.simps[of _ _ _ _ 0] demo_call1 succeeded_def rate_limit_hook_def status_of_def
        wants_retry_def finish_def normalizeTransportError_def end_hook_def emit_def Let_def)
qed

lemma demo_first:
  assumes "rq_getbody (xs_req st) = None" "rq_method (xs_req st) = ''GET''"
  shows "\<exists>b. attempts demo_client demo_env [] True (Suc 0) 0 st =
    attempts demo_client demo_env [] True 0 (Suc 0) (st\<lparr>xs_resp := Some \<lparr>rs_StatusCode = 503, rs_Header = []\<rparr>, xs_body := ''busy'',
      xs_err := None, xs_trace := xs_trace st @ [Sent (xs_req st), OnRetry 1 b None]\<rparr>)"
proof -
  have safe: "IsSafeMethod ''GET''" by code_simp
  have e: "ev_ctx demo_env 0 = None" "ev_wait demo_env 0 = None" "MaxRetries (cl_retry demo_client) = 1"
    by (simp_all add: demo_env_def demo_client_def)
  then show ?thesis using demo_prepare[OF assms(1)] assms(2) safe
    apply (intro exI[of _ "CalculateBackoff (cl_retry demo_client) (ev_until demo_env) (ev_rand demo_env 0) 0 []"])
    by (simp add: attempts.simps[of _ _ _ _ "Suc 0"] demo_call0 succeeded_def rate_limit_hook_def status_of_def
        wants_retry_def IsRetryable_def emit_def Let_def retry_after_of_def header_get_def)
qed

lemma demo_run:
  "let st = Execute demo_client demo_env () (Some demo_get) [] in
   xs_resp st = None \<and> xs_body st = ''busy'' \<and> xs_err st = Some (EUrl (ESent EOF)) \<and>
   length (sends (xs_trace st)) = 2"
proof -
  define st1 where "st1 = fst (apply_auth demo_client [] \<lparr>xs_auth = (), xs_req = default_headers demo_client ''ua'' demo_get,
    xs_resp = None, xs_body = [], xs_err = None, xs_trace = [OnRequestStart]\<rparr>)"
  have q: "rq_method (xs_req st1) = ''GET''" "rq_getbody (xs_req st1) = None" "rq_body (xs_req st1) \<in> {NilBody, NoBody}"
    "xs_trace st1 = [OnRequestStart]"
    by (simp_all add: st1_def apply_auth_def demo_client_def resetUnauthenticatedRequest_def Let_def
        default_headers_def demo_get_def demo_request_def)
  have "Execute demo_client demo_env () (Some demo_get) [] = attempts demo_client demo_env [] True (Suc 0) 0 st1"
  proof -
    have c: "cl_auth demo_client = None" "cl_acquire demo_client () = None" "MaxRetries (cl_retry demo_client) = 1"
      "ev_client_agent demo_env = ''ua''" by (simp_all add: demo_client_def demo_env_def)
    have "apply_auth demo_client [] \<lparr>xs_auth = (), xs_req = default_headers demo_client ''ua'' demo_get,
        xs_resp = None, xs_body = [], xs_err = None, xs_trace = [OnRequestStart]\<rparr> = (st1, None)"
      by (simp add: st1_def apply_auth_def c Let_def)
    moreover have "requestReplayable (xs_req st1)" using q(3) by (auto simp: requestReplayable_def)
    ultimately show ?thesis by (simp add: Execute_def demo_check c Let_def)
  qed
  also obtain b where "\<dots> = attempts demo_client demo_env [] True 0 (Suc 0) (st1\<lparr>xs_resp := Some \<lparr>rs_StatusCode = 503, rs_Header = []\<rparr>, xs_body := ''busy'',
      xs_err := None, xs_trace := xs_trace st1 @ [Sent (xs_req st1), OnRetry 1 b None]\<rparr>)"
    using demo_first[OF q(2,1)] by blast
  finally show ?thesis using q by (simp add: demo_second Let_def)
qed

section \<open>Properties\<close>

text \<open>C23: Retries are safe and bounded: whatever the network answers, a call sends at most one
  request more than the configured retries, and a request whose method is not GET or HEAD is never
  sent twice.\<close>

theorem execute_sends_bounded:
  assumes "strategy_ok c"
  shows "length (sends (xs_trace (Execute c env s request p))) \<le> Suc (nat (MaxRetries (cl_retry c))) \<and>
    (\<forall>r. request = Some r \<and> \<not> IsSafeMethod (rq_method r) \<longrightarrow>
      length (sends (xs_trace (Execute c env s request p))) \<le> 1)"
proof (rule Execute_cases[OF assms, of request env s p])
  fix req st1 k
  assume r: "check_request c request = Inr req" "xs_trace st1 = [OnRequestStart]"
    "run_ok c k st1 (Execute c env s request p)" "k \<le> Suc (nat (MaxRetries (cl_retry c)))"
    "\<not> IsSafeMethod (rq_method req) \<Longrightarrow> k \<le> 1"
  have "request = Some req" using check_request_Inr[OF r(1)] by blast
  moreover have "length (sends (xs_trace (Execute c env s request p))) \<le> k"
    using r(2,3) by (auto simp: run_ok_def)
  ultimately show ?thesis using r(4,5) by (auto intro: le_trans)
qed auto

text \<open>Nothing leaves over an insecure or ambiguous URL: every request a call puts on the wire has
  the caller's method and URL, whose scheme is https and which names a host and carries no user
  information.\<close>

theorem execute_https_only:
  assumes "strategy_ok c" "r \<in> set (sends (xs_trace (Execute c env s request p)))"
  shows "\<exists>req u. request = Some req \<and> rq_method r = rq_method req \<and> rq_url r = Some u \<and> rq_url req = Some u \<and>
    EqualFold (url_scheme u) ''https'' \<and> url_host u \<noteq> [] \<and> url_user u = None"
proof (rule Execute_cases[OF assms(1), of request env s p])
  fix req st1 k
  assume r: "check_request c request = Inr req" "xs_trace st1 = [OnRequestStart]"
    "rq_method (xs_req st1) = rq_method req" "rq_url (xs_req st1) = rq_url req"
    "run_ok c k st1 (Execute c env s request p)"
  have "same_target c (xs_req st1) r" using r(2,5) assms(2) by (auto simp: run_ok_def)
  then show ?thesis using check_request_Inr[OF r(1)] r(3,4) by (auto simp: same_target_def)
qed (use assms(2) in auto)

theorem execute_https_only_witness:
  "\<exists>r. r \<in> set (sends (xs_trace (Execute demo_client demo_env () (Some demo_get) []))) \<and>
     rq_method r = ''GET''"
proof -
  have "sends (xs_trace (Execute demo_client demo_env () (Some demo_get) [])) \<noteq> []"
    using demo_run by (auto simp: Let_def)
  then obtain r where r: "r \<in> set (sends (xs_trace (Execute demo_client demo_env () (Some demo_get) [])))"
    by (meson hd_in_set)
  with execute_https_only[OF demo_client_ok r] show ?thesis by (auto simp: demo_get_def)
qed

theorem execute_sends_bounded_witness:
  "length (sends (xs_trace (Execute demo_client demo_env () (Some demo_get) []))) = 2 \<and>
   length (sends (xs_trace (Execute demo_client demo_env () (Some demo_request) []))) \<le> 1"
proof -
  have "\<not> IsSafeMethod ''POST''" by code_simp
  then show ?thesis
    using demo_run execute_sends_bounded[OF demo_client_ok, of demo_env "()" "Some demo_request" "[]"]
    by (simp add: Let_def demo_request_def)
qed

text \<open>Public calls carry no SDK credentials: without an authentication strategy every request put
  on the wire has none of the SDK's credential headers, even when the caller reuses a request that
  was authenticated before.\<close>

theorem execute_public_clean:
  assumes "cl_auth c = None" "r \<in> set (sends (xs_trace (Execute c env s request p)))"
  shows "\<forall>k\<in>set auth_headers. header_get (hdr r) k = []"
proof -
  have ok: "strategy_ok c" using assms(1) by (simp add: strategy_ok_def)
  show ?thesis
  proof (rule Execute_cases[OF ok, of request env s p])
    fix req st1 k
    assume h: "xs_trace st1 = [OnRequestStart]" "run_ok c k st1 (Execute c env s request p)"
      "cl_auth c = None \<Longrightarrow> k = 0 \<or> no_credentials (xs_req st1)"
    obtain tr where tr: "r \<in> set (sends tr)" "length (sends tr) \<le> k" "\<forall>r\<in>set (sends tr). same_target c (xs_req st1) r"
      using h(1,2) assms(2) by (auto simp: run_ok_def)
    then have "same_target c (xs_req st1) r" "0 < k"
      using length_pos_if_in_set[OF tr(1)] by (blast, linarith)
    then show ?thesis using h(3)[OF assms(1)] assms(1)
      by (auto simp: same_target_def no_credentials_def hdr_def)
  qed (use assms(2) in auto)
qed

theorem execute_public_clean_witness:
  "\<exists>r. r \<in> set (sends (xs_trace (Execute demo_client demo_env () (Some demo_get) []))) \<and>
     header_get (hdr r) ''X-GEMINI-APIKEY'' = []"
proof -
  have "sends (xs_trace (Execute demo_client demo_env () (Some demo_get) [])) \<noteq> []"
    using demo_run by (auto simp: Let_def)
  then obtain r where "r \<in> set (sends (xs_trace (Execute demo_client demo_env () (Some demo_get) [])))"
    by (meson hd_in_set)
  with execute_public_clean[of demo_client, OF _ this] show ?thesis
    by (auto simp: demo_client_def auth_headers_def)
qed

text \<open>Hooks pair up and tell the outcome: a call either fails before it starts, with no hook and no
  request, or runs the start hook first, the end hook last and once, with the very error it returns;
  a call without an error returns a 2xx response.\<close>

theorem execute_hooks_paired:
  assumes "strategy_ok c"
  shows "let st = Execute c env s request p in
    (xs_trace st = [] \<and> xs_err st \<noteq> None \<or>
     (\<exists>tr x. xs_trace st = OnRequestStart # tr @ [OnRequestEnd x (xs_err st)] \<and> quiet tr)) \<and>
    (xs_err st = None \<longrightarrow> (\<exists>r. xs_resp st = Some r \<and> 200 \<le> rs_StatusCode r \<and> rs_StatusCode r < 300))"
proof (rule Execute_cases[OF assms, of request env s p])
  fix req st1 k
  assume "xs_trace st1 = [OnRequestStart]" "run_ok c k st1 (Execute c env s request p)"
  then show ?thesis unfolding Let_def run_ok_def by auto
qed (auto simp: Let_def)

theorem execute_hooks_paired_witness:
  "\<exists>tr x. xs_trace (Execute demo_client demo_env () (Some demo_get) []) =
     OnRequestStart # tr @ [OnRequestEnd x (Some (EUrl (ESent EOF)))] \<and> quiet tr"
  using execute_hooks_paired[OF demo_client_ok, of demo_env "()" "Some demo_get" "[]"] demo_run
  by (auto simp: Let_def)

text \<open>A retried call that ends in a network failure returns the body of an earlier attempt: no
  response, the error of the last attempt, and the bytes of the 503 answer before it.\<close>

theorem execute_stale_body:
  "\<exists>c env req. let st = Execute c env () (Some req) [] in
     xs_resp st = None \<and> xs_err st = Some (EUrl (ESent EOF)) \<and> xs_body st = ''busy''"
  using demo_run by (auto simp: Let_def)

end
