(* ===== verification/Trading.thy ===== *)
theory Trading
  imports Transport
begin

text \<open>
  The service layer of \<open>services/base.go\<close> and the order entry of \<open>services/trading.go\<close>: the URL a
  service call goes to, the order request each helper builds, its options and its validation, and
  the guarded account-wide cancellation. A trading operation takes as an argument \<open>post\<close>, which gives
  the answer to a request posted to a path (the decoded response of \<open>service_post\<close>, or its error);
  the request and response records are those of \<open>generated/trading/types.gen.go\<close>.
\<close>

section \<open>Services\<close>

definition TrimRightByte :: "char \<Rightarrow> string \<Rightarrow> string" where
  "TrimRightByte c s = rev (dropWhile (\<lambda>x. x = c) (rev s))"

definition TrimLeftByte :: "char \<Rightarrow> string \<Rightarrow> string" where
  "TrimLeftByte c s = dropWhile (\<lambda>x. x = c) s"

definition service_url :: "string \<Rightarrow> string \<Rightarrow> string" where
  "service_url baseURL path =
     TrimRightByte (CHR ''/'') baseURL @ ''/'' @ TrimLeftByte (CHR ''/'') path"

text \<open>\<open>parse_url\<close> is the URL parser of the standard library; a service may lack its client.\<close>

record 's base_service =
  bs_client :: "'s client option"
  bs_baseURL :: string

definition service_request ::
  "(string \<Rightarrow> err + url) \<Rightarrow> 's base_service \<Rightarrow> exec_env \<Rightarrow> 's \<Rightarrow> string \<Rightarrow> string \<Rightarrow> err + string \<Rightarrow>
   (string \<Rightarrow> err + 'a) option \<Rightarrow> 's \<times> (err + 'a option)" where
  "service_request parse_url b env s method path payload decoder =
     (case bs_client b of
        None \<Rightarrow> (s, Inl (ESent ErrInvalidServiceConfiguration))
      | Some c \<Rightarrow>
          if TrimSpace (bs_baseURL b) = [] then
            (s, Inl (case cl_configErr c of
                       Some e \<Rightarrow> e | None \<Rightarrow> ESent ErrInvalidServiceConfiguration))
          else Request c env s method (parse_url (service_url (bs_baseURL b) path)) payload decoder)"

definition service_post ::
  "(string \<Rightarrow> err + url) \<Rightarrow> 's base_service \<Rightarrow> exec_env \<Rightarrow> 's \<Rightarrow> string \<Rightarrow> err + string \<Rightarrow>
   (string \<Rightarrow> err + 'a) option \<Rightarrow> 's \<times> (err + 'a option)" where
  "service_post parse_url b env s path payload decoder =
     service_request parse_url b env s ''POST'' path payload decoder"

definition service_get ::
  "(string \<Rightarrow> err + url) \<Rightarrow> 's base_service \<Rightarrow> exec_env \<Rightarrow> 's \<Rightarrow> string \<Rightarrow>
   (string \<Rightarrow> err + 'a) option \<Rightarrow> 's \<times> (err + 'a option)" where
  "service_get parse_url b env s path decoder =
     service_request parse_url b env s ''GET'' path (Inr []) decoder"

section \<open>Order records\<close>

text \<open>A \<open>TimestampType\<close> is a raw JSON value.\<close>

type_synonym timestamp_type = string

record new_order_request =
  no_Account :: "string option"
  no_Amount :: string
  no_ClientOrderId :: "string option"
  no_MarginOrder :: "bool option"
  no_Nonce :: int
  no_Options :: "string list option"
  no_Price :: string
  no_Request :: string
  no_Side :: string
  no_StopPrice :: "string option"
  no_Symbol :: string
  no_Type :: string

definition FillOrKill :: string where "FillOrKill = ''fill-or-kill''"
definition ImmediateOrCancel :: string where "ImmediateOrCancel = ''immediate-or-cancel''"
definition MakerOrCancel :: string where "MakerOrCancel = ''maker-or-cancel''"

definition SideBuy :: string where "SideBuy = ''buy''"
definition SideSell :: string where "SideSell = ''sell''"

definition TypeExchangeLimit :: string where "TypeExchangeLimit = ''exchange limit''"
definition TypeExchangeMarket :: string where "TypeExchangeMarket = ''exchange market''"
definition TypeExchangeStopLimit :: string where "TypeExchangeStopLimit = ''exchange stop limit''"

record limit_order_response =
  lo_AvgExecutionPrice :: "string option"
  lo_ClientOrderId :: "string option"
  lo_Exchange :: "string option"
  lo_ExecutedAmount :: "string option"
  lo_Id :: "string option"
  lo_IsCancelled :: "bool option"
  lo_IsHidden :: "bool option"
  lo_IsLive :: "bool option"
  lo_Options :: "string list option"
  lo_OrderId :: "string option"
  lo_OriginalAmount :: "string option"
  lo_Price :: "string option"
  lo_RemainingAmount :: "string option"
  lo_Side :: "string option"
  lo_Symbol :: "string option"
  lo_Timestamp :: "timestamp_type option"
  lo_Timestampms :: "timestamp_type option"
  lo_Type :: "string option"
  lo_WasForced :: "bool option"

record cancel_order_request =
  co_Account :: "string option"
  co_Nonce :: timestamp_type
  co_OrderId :: nat
  co_Request :: string

record cancel_order_response =
  cr_AvgExecutionPrice :: "string option"
  cr_Exchange :: "string option"
  cr_ExecutedAmount :: "string option"
  cr_Id :: "string option"
  cr_IsCancelled :: "bool option"
  cr_IsHidden :: "bool option"
  cr_IsLive :: "bool option"
  cr_Options :: "string list option"
  cr_OrderId :: "string option"
  cr_OriginalAmount :: "string option"
  cr_Price :: "string option"
  cr_Reason :: "string option"
  cr_RemainingAmount :: "string option"
  cr_Side :: "string option"
  cr_Symbol :: "string option"
  cr_Timestamp :: "timestamp_type option"
  cr_Timestampms :: "timestamp_type option"
  cr_Type :: "string option"
  cr_WasForced :: "bool option"

section \<open>New orders\<close>

definition validateNewOrderRequest :: "new_order_request option \<Rightarrow> err option" where
  "validateNewOrderRequest request =
     (case request of
        None \<Rightarrow> Some (EMsg ''gemini trading: order request is required'')
      | Some req \<Rightarrow>
          (case no_StopPrice req of
             None \<Rightarrow>
               if no_Type req = TypeExchangeStopLimit
               then Some (EMsg ''gemini trading: stop-limit orders require stop price'') else None
           | Some stop \<Rightarrow>
               if TrimSpace stop = []
               then Some (EMsg ''gemini trading: stop price must be a non-empty decimal'')
               else if no_Type req \<noteq> TypeExchangeStopLimit
               then Some (EMsg ''gemini trading: stop price is only valid for stop-limit orders'')
               else if (case no_Options req of Some os \<Rightarrow> 0 < length os | None \<Rightarrow> False)
               then Some (EMsg ''gemini trading: stop-limit orders cannot use execution options'')
               else case ParseDecimal (no_Price req) of
                 Inl _ \<Rightarrow> Some (EMsg ''gemini trading: stop-limit price must be a positive decimal'')
               | Inr price \<Rightarrow>
                   if \<not> IsPositive price
                   then Some (EMsg ''gemini trading: stop-limit price must be a positive decimal'')
                   else case ParseDecimal stop of
                     Inl _ \<Rightarrow> Some (EMsg ''gemini trading: stop price must be a positive decimal'')
                   | Inr stopPrice \<Rightarrow>
                       if \<not> IsPositive stopPrice
                       then Some (EMsg ''gemini trading: stop price must be a positive decimal'')
                       else if no_Side req = SideBuy then
                         (if 0 \<le> Cmp stopPrice price
                          then Some (EMsg ''gemini trading: buy stop price must be below the limit price'')
                          else None)
                       else if no_Side req = SideSell then
                         (if Cmp stopPrice price \<le> 0
                          then Some (EMsg ''gemini trading: sell stop price must be above the limit price'')
                          else None)
                       else Some (EMsg ''gemini trading: stop-limit order side must be buy or sell'')))"

definition NewOrder ::
  "(string \<Rightarrow> new_order_request \<Rightarrow> err + limit_order_response) \<Rightarrow> new_order_request option \<Rightarrow>
   err + limit_order_response" where
  "NewOrder post request =
     (case validateNewOrderRequest request of
        Some e \<Rightarrow> Inl e
      | None \<Rightarrow> post ''/v1/order/new'' (the request))"

type_synonym order_option = "new_order_request \<Rightarrow> new_order_request"

definition WithClientOrderID :: "string \<Rightarrow> order_option" where
  "WithClientOrderID clientOrderID req = req\<lparr>no_ClientOrderId := Some clientOrderID\<rparr>"

definition withOrderAccount :: "string \<Rightarrow> order_option" where
  "withOrderAccount acct req = req\<lparr>no_Account := Some acct\<rparr>"

definition WithStopPrice :: "decimal \<Rightarrow> order_option" where
  "WithStopPrice stopPrice req =
     req\<lparr>no_StopPrice := Some (DecimalString stopPrice), no_Type := TypeExchangeStopLimit,
         no_Options := None\<rparr>"

definition build_order ::
  "string \<Rightarrow> string \<Rightarrow> decimal \<Rightarrow> decimal \<Rightarrow> string option \<Rightarrow> order_option list \<Rightarrow> new_order_request" where
  "build_order side symbol amount price optType opts =
     foldl (\<lambda>req opt. opt req)
       \<lparr>no_Account = None, no_Amount = DecimalString amount, no_ClientOrderId = None,
        no_MarginOrder = None, no_Nonce = 0, no_Options = map_option (\<lambda>o1. [o1]) optType,
        no_Price = DecimalString price, no_Request = [], no_Side = side, no_StopPrice = None,
        no_Symbol = symbol, no_Type = TypeExchangeLimit\<rparr> opts"

definition buildAndExecuteOrder ::
  "(string \<Rightarrow> new_order_request \<Rightarrow> err + limit_order_response) \<Rightarrow> string \<Rightarrow> string \<Rightarrow> decimal \<Rightarrow> decimal \<Rightarrow>
   string option \<Rightarrow> order_option list \<Rightarrow> err + limit_order_response" where
  "buildAndExecuteOrder post side symbol amount price optType opts =
     NewOrder post (Some (build_order side symbol amount price optType opts))"

definition PostOnlyBid where
  "PostOnlyBid post symbol amount price opts =
     buildAndExecuteOrder post SideBuy symbol amount price (Some MakerOrCancel) opts"

definition PostOnlyAsk where
  "PostOnlyAsk post symbol amount price opts =
     buildAndExecuteOrder post SideSell symbol amount price (Some MakerOrCancel) opts"

definition LimitBuy where
  "LimitBuy post symbol amount price opts =
     buildAndExecuteOrder post SideBuy symbol amount price None opts"

definition LimitSell where
  "LimitSell post symbol amount price opts =
     buildAndExecuteOrder post SideSell symbol amount price None opts"

definition ImmediateOrCancelBuy where
  "ImmediateOrCancelBuy post symbol amount price opts =
     buildAndExecuteOrder post SideBuy symbol amount price (Some ImmediateOrCancel) opts"

definition ImmediateOrCancelSell where
  "ImmediateOrCancelSell post symbol amount price opts =
     buildAndExecuteOrder post SideSell symbol amount price (Some ImmediateOrCancel) opts"

section \<open>Cancellation and queries\<close>

definition CancelOrder ::
  "(string \<Rightarrow> cancel_order_request \<Rightarrow> err + cancel_order_response) \<Rightarrow> cancel_order_request \<Rightarrow>
   err + cancel_order_response option" where
  "CancelOrder post req = (case post ''/v1/order/cancel'' req of Inl e \<Rightarrow> Inl e | Inr res \<Rightarrow> Inr (Some res))"

record cancel_all_request =
  ca_Account :: "string option"
  ca_Nonce :: timestamp_type
  ca_Request :: string

definition CancelAllOrders ::
  "(string \<Rightarrow> cancel_all_request \<Rightarrow> err + 'a) \<Rightarrow> cancel_all_request option \<Rightarrow> bool list \<Rightarrow> err + 'a" where
  "CancelAllOrders post request confirms =
     (if length confirms \<noteq> 1 \<or> \<not> confirms ! 0 then Inl (ESent ErrCancelConfirmationRequired)
      else post ''/v1/order/cancel/all''
             (case request of Some r \<Rightarrow> r | None \<Rightarrow> \<lparr>ca_Account = None, ca_Nonce = [], ca_Request = []\<rparr>))"

record order_status_request =
  os_Account :: "string option"
  os_ClientOrderId :: "string option"
  os_IncludeTrades :: "bool option"
  os_Nonce :: timestamp_type
  os_OrderId :: nat
  os_Request :: string

definition GetOrderStatus ::
  "(string \<Rightarrow> order_status_request \<Rightarrow> err + limit_order_response) \<Rightarrow> order_status_request \<Rightarrow>
   err + limit_order_response" where
  "GetOrderStatus post req = post ''/v1/order/status'' req"

definition GetOrderStatusByID ::
  "(string \<Rightarrow> order_status_request \<Rightarrow> err + limit_order_response) \<Rightarrow> nat \<Rightarrow> err + limit_order_response" where
  "GetOrderStatusByID post orderID =
     GetOrderStatus post \<lparr>os_Account = None, os_ClientOrderId = None, os_IncludeTrades = None, os_Nonce = [],
       os_OrderId = orderID, os_Request = []\<rparr>"

record active_orders_request =
  ao_Account :: "string option"
  ao_Nonce :: timestamp_type
  ao_Request :: string

definition GetActiveOrders ::
  "(string \<Rightarrow> active_orders_request \<Rightarrow> err + limit_order_response list) \<Rightarrow> active_orders_request option \<Rightarrow>
   err + limit_order_response list" where
  "GetActiveOrders post request =
     post ''/v1/orders'' (case request of Some r \<Rightarrow> r | None \<Rightarrow> \<lparr>ao_Account = None, ao_Nonce = [], ao_Request = []\<rparr>)"

record my_trades_request =
  mt_Account :: "string option"
  mt_LimitTrades :: "int option"
  mt_Nonce :: timestamp_type
  mt_Request :: string
  mt_Symbol :: "string option"
  mt_Timestamp :: "timestamp_type option"

definition GetPastTrades ::
  "(string \<Rightarrow> my_trades_request \<Rightarrow> err + 'a list) \<Rightarrow> my_trades_request \<Rightarrow> err + 'a list" where
  "GetPastTrades post req = post ''/v1/mytrades'' req"

definition GetPastTradesBySymbol ::
  "(string \<Rightarrow> my_trades_request \<Rightarrow> err + 'a list) \<Rightarrow> string \<Rightarrow> int list \<Rightarrow> err + 'a list" where
  "GetPastTradesBySymbol post symbol limitTrades =
     GetPastTrades post \<lparr>mt_Account = None,
       mt_LimitTrades = (if 0 < length limitTrades \<and> 0 < limitTrades ! 0 then Some (limitTrades ! 0) else None),
       mt_Nonce = [], mt_Request = [], mt_Symbol = Some symbol, mt_Timestamp = None\<rparr>"

text \<open>Both volume requests carry the same three fields.\<close>

record volume_request =
  vr_Account :: "string option"
  vr_Nonce :: timestamp_type
  vr_Request :: string

definition volume_body :: "volume_request option \<Rightarrow> volume_request" where
  "volume_body request =
     (case request of Some r \<Rightarrow> r | None \<Rightarrow> \<lparr>vr_Account = None, vr_Nonce = [], vr_Request = []\<rparr>)"

definition GetTradingVolume ::
  "(string \<Rightarrow> volume_request \<Rightarrow> err + 'a list) \<Rightarrow> volume_request option \<Rightarrow> err + 'a list" where
  "GetTradingVolume post request = post ''/v1/tradevolume'' (volume_body request)"

definition GetNotionalTradingVolume ::
  "(string \<Rightarrow> volume_request \<Rightarrow> err + 'a) \<Rightarrow> volume_request option \<Rightarrow> err + 'a" where
  "GetNotionalTradingVolume post request = post ''/v1/notionalvolume'' (volume_body request)"

end
