(* ===== verification/TradingSpec.thy ===== *)
theory TradingSpec
  imports Trading DecimalText
begin

text \<open>
  What the order helpers of \<open>services/trading.go\<close> post: the abstract condition under which a request
  passes the validation of \<open>NewOrder\<close>, stated over the rationals its texts denote, and the requests
  the post-only helpers build under the options that do not turn the order into a stop-limit order.
\<close>

section \<open>Validation\<close>

text \<open>A stop price belongs to stop-limit orders, without execution options, on the right side of the
  limit price.\<close>

definition stop_side_ok :: "string \<Rightarrow> decimal \<Rightarrow> decimal \<Rightarrow> bool" where
  "stop_side_ok side price stop \<longleftrightarrow>
     side = SideBuy \<and> rv stop < rv price \<or> side = SideSell \<and> rv price < rv stop"

definition order_ok :: "new_order_request \<Rightarrow> bool" where
  "order_ok req \<longleftrightarrow>
     (case no_StopPrice req of
        None \<Rightarrow> no_Type req \<noteq> TypeExchangeStopLimit
      | Some stop \<Rightarrow>
          no_Type req = TypeExchangeStopLimit \<and> no_Options req \<in> {None, Some []} \<and>
          (\<exists>p s. ParseDecimal (no_Price req) = Inr p \<and> ParseDecimal stop = Inr s \<and>
             0 < rv p \<and> 0 < rv s \<and> stop_side_ok (no_Side req) p s))"

lemma parse_blank: "TrimSpace s = [] \<Longrightarrow> ParseDecimal s = Inl ErrInvalidDecimal"
  by (simp add: ParseDecimal_def)

lemma side_names [simp]: "SideBuy \<noteq> SideSell" "SideSell \<noteq> SideBuy"
  by (simp_all add: SideBuy_def SideSell_def)

lemma Cmp_parsed:
  assumes "ParseDecimal a = Inr p" "ParseDecimal b = Inr s"
  shows "Cmp s p = int_cmp (rv s) (rv p)"
  using assms Cmp_rv ParseDecimal_scale_ok by blast

lemma validate_stop:
  assumes "no_StopPrice req = Some stop" "no_Type req = TypeExchangeStopLimit"
    "ParseDecimal (no_Price req) = Inr p" "ParseDecimal stop = Inr s"
  shows "validateNewOrderRequest (Some req) = None \<longleftrightarrow>
    no_Options req \<in> {None, Some []} \<and> 0 < rv p \<and> 0 < rv s \<and> stop_side_ok (no_Side req) p s"
proof -
  have "TrimSpace stop \<noteq> []" using assms(4) parse_blank by force
  then show ?thesis using assms Cmp_parsed[OF assms(3,4)]
    by (auto simp: validateNewOrderRequest_def stop_side_ok_def IsPositive_iff split: option.splits)
qed

lemma validate_iff: "validateNewOrderRequest (Some req) = None \<longleftrightarrow> order_ok req"
proof (cases "no_StopPrice req")
  case None
  then show ?thesis by (simp add: validateNewOrderRequest_def order_ok_def)
next
  case (Some stop)
  show ?thesis
  proof (cases "no_Type req = TypeExchangeStopLimit \<and> (\<exists>p. ParseDecimal (no_Price req) = Inr p) \<and> (\<exists>s. ParseDecimal stop = Inr s)")
    case True
    then obtain p s where "no_Type req = TypeExchangeStopLimit" "ParseDecimal (no_Price req) = Inr p"
      "ParseDecimal stop = Inr s" by blast
    with Some show ?thesis using validate_stop[OF Some] by (simp add: order_ok_def)
  next
    case False
    then have "validateNewOrderRequest (Some req) \<noteq> None"
      using Some by (auto simp: validateNewOrderRequest_def split: sum.splits)
    moreover have "\<not> order_ok req" using False Some by (auto simp: order_ok_def)
    ultimately show ?thesis by blast
  qed
qed

lemma NewOrder_posts: "order_ok req \<Longrightarrow> NewOrder post (Some req) = post ''/v1/order/new'' req"
  using validate_iff[of req] by (simp add: NewOrder_def)

lemma NewOrder_refuses:
  assumes "\<not> order_ok req"
  shows "\<exists>e. \<forall>post'. NewOrder post' (Some req) = Inl e"
proof -
  obtain e where "validateNewOrderRequest (Some req) = Some e" using assms validate_iff[of req] by auto
  then have "\<forall>post'. NewOrder post' (Some req) = Inl e" by (simp add: NewOrder_def)
  then show ?thesis by blast
qed

text \<open>NewOrder posts a request exactly when it is one the exchange's rules allow: a stop price only
  on a stop-limit order without execution options, both prices positive, the stop strictly below the
  limit for a buy and strictly above it for a sell (as rationals, whatever the texts). Every other
  request is refused with an error that does not depend on the exchange, and nothing is posted.\<close>

theorem new_order_guard:
  "(\<forall>req. order_ok req \<longrightarrow> NewOrder post (Some req) = post ''/v1/order/new'' req) \<and>
   (\<forall>req. \<not> order_ok req \<longrightarrow> (\<exists>e. \<forall>post'. NewOrder post' (Some req) = Inl e)) \<and>
   (\<exists>e. \<forall>post'. NewOrder post' None = Inl e)"
  using NewOrder_posts NewOrder_refuses by (simp add: NewOrder_def validateNewOrderRequest_def)

definition demo_stop_order :: new_order_request where
  "demo_stop_order = WithStopPrice \<lparr>dval = Some 11, dscale = 0\<rparr>
     (build_order SideSell ''BTCUSD'' \<lparr>dval = Some 5, dscale = 1\<rparr> \<lparr>dval = Some 10, dscale = 0\<rparr> None [])"

theorem new_order_guard_witness:
  "NewOrder (\<lambda>path req. Inl (EMsg path)) (Some demo_stop_order) = Inl (EMsg ''/v1/order/new'')"
proof -
  have "validateNewOrderRequest (Some demo_stop_order) = None" by code_simp
  then have "order_ok demo_stop_order" using validate_iff by blast
  then show ?thesis using new_order_guard[of "\<lambda>path req. Inl (EMsg path)"] by simp
qed

section \<open>The helpers\<close>

text \<open>The options that leave the type of the order alone.\<close>

definition plain_option :: "order_option \<Rightarrow> bool" where
  "plain_option opt \<longleftrightarrow> (\<exists>c. opt = WithClientOrderID c) \<or> (\<exists>a. opt = withOrderAccount a)"

text \<open>What such options cannot change.\<close>

definition fixed_fields ::
  "new_order_request \<Rightarrow> string \<times> string \<times> string \<times> string \<times> string \<times> string list option \<times> string option" where
  "fixed_fields q = (no_Side q, no_Symbol q, no_Type q, no_Amount q, no_Price q, no_Options q, no_StopPrice q)"

lemma plain_option_fixed: "plain_option opt \<Longrightarrow> fixed_fields (opt q) = fixed_fields q"
  by (auto simp: plain_option_def fixed_fields_def WithClientOrderID_def withOrderAccount_def)

lemma plain_options_fixed:
  "\<forall>opt\<in>set opts. plain_option opt \<Longrightarrow> fixed_fields (foldl (\<lambda>req opt. opt req) q opts) = fixed_fields q"
  by (induction opts arbitrary: q) (simp_all add: plain_option_fixed)

lemma build_order_fixed:
  assumes "\<forall>opt\<in>set opts. plain_option opt"
  shows "fixed_fields (build_order side symbol amount price optType opts) =
    (side, symbol, TypeExchangeLimit, DecimalString amount, DecimalString price, map_option (\<lambda>o1. [o1]) optType, None)"
  unfolding build_order_def plain_options_fixed[OF assms] by (simp add: fixed_fields_def)

lemma fixed_order_ok: "fixed_fields q = (side, symbol, TypeExchangeLimit, a, p, os, None) \<Longrightarrow> order_ok q"
  by (simp add: fixed_fields_def order_ok_def TypeExchangeLimit_def TypeExchangeStopLimit_def)

text \<open>A request posted for an order of two exact decimals, read back.\<close>

definition posts_order ::
  "err + limit_order_response \<Rightarrow> (string \<Rightarrow> new_order_request \<Rightarrow> err + limit_order_response) \<Rightarrow> string \<Rightarrow> string \<Rightarrow>
   decimal \<Rightarrow> decimal \<Rightarrow> string list option \<Rightarrow> bool" where
  "posts_order result post side symbol amount price os \<longleftrightarrow>
     (\<exists>q. result = post ''/v1/order/new'' q \<and> no_Side q = side \<and> no_Symbol q = symbol \<and>
        no_Type q = TypeExchangeLimit \<and> no_StopPrice q = None \<and> no_Options q = os \<and>
        ParseDecimal (no_Amount q) = Inr amount \<and> ParseDecimal (no_Price q) = Inr price)"

lemma build_and_execute_posts:
  assumes "\<forall>opt\<in>set opts. plain_option opt" "printable amount" "printable price"
  shows "posts_order (buildAndExecuteOrder post side symbol amount price optType opts) post side symbol amount price
    (map_option (\<lambda>o1. [o1]) optType)"
proof -
  define q where "q = build_order side symbol amount price optType opts"
  have f: "fixed_fields q = (side, symbol, TypeExchangeLimit, DecimalString amount, DecimalString price,
      map_option (\<lambda>o1. [o1]) optType, None)"
    unfolding q_def by (rule build_order_fixed[OF assms(1)])
  have "buildAndExecuteOrder post side symbol amount price optType opts = post ''/v1/order/new'' q"
    using NewOrder_posts[OF fixed_order_ok[OF f]] by (simp add: buildAndExecuteOrder_def q_def)
  then show ?thesis
    using f ParseDecimal_String[OF assms(2)] ParseDecimal_String[OF assms(3)]
    unfolding posts_order_def fixed_fields_def by auto
qed

text \<open>With options that set the client order id or the account, every helper posts one limit order of
  its side and symbol whose amount and price texts read back as exactly the decimals given; the post-only
  helpers mark it maker-or-cancel, the immediate-or-cancel helpers immediate-or-cancel, the plain ones
  nothing, and none of them is refused locally.\<close>

theorem order_helpers_exact:
  assumes "\<forall>opt\<in>set opts. plain_option opt" "printable amount" "printable price"
  shows "posts_order (PostOnlyBid post symbol amount price opts) post SideBuy symbol amount price (Some [MakerOrCancel]) \<and>
    posts_order (PostOnlyAsk post symbol amount price opts) post SideSell symbol amount price (Some [MakerOrCancel]) \<and>
    posts_order (LimitBuy post symbol amount price opts) post SideBuy symbol amount price None \<and>
    posts_order (LimitSell post symbol amount price opts) post SideSell symbol amount price None \<and>
    posts_order (ImmediateOrCancelBuy post symbol amount price opts) post SideBuy symbol amount price (Some [ImmediateOrCancel]) \<and>
    posts_order (ImmediateOrCancelSell post symbol amount price opts) post SideSell symbol amount price (Some [ImmediateOrCancel])"
  using build_and_execute_posts[OF assms, of post _ symbol "Some _"]
    build_and_execute_posts[OF assms, of post _ symbol None]
  by (simp add: PostOnlyBid_def PostOnlyAsk_def LimitBuy_def LimitSell_def ImmediateOrCancelBuy_def ImmediateOrCancelSell_def)

theorem order_helpers_exact_witness:
  "posts_order (PostOnlyBid (\<lambda>path req. Inl (EMsg path)) ''BTCUSD'' \<lparr>dval = Some 5, dscale = 1\<rparr> \<lparr>dval = Some 7, dscale = 0\<rparr>
     [WithClientOrderID ''a''])
     (\<lambda>path req. Inl (EMsg path)) SideBuy ''BTCUSD'' \<lparr>dval = Some 5, dscale = 1\<rparr> \<lparr>dval = Some 7, dscale = 0\<rparr> (Some [MakerOrCancel])"
proof -
  have o: "\<forall>opt\<in>set [WithClientOrderID ''a'']. plain_option opt" by (auto simp: plain_option_def)
  have p: "printable \<lparr>dval = Some 5, dscale = 1\<rparr>" "printable \<lparr>dval = Some 7, dscale = 0\<rparr>"
    by (simp_all add: printable_def normalized_def nat_str.simps)
  show ?thesis using order_helpers_exact[OF o p] by blast
qed

text \<open>A stop price added to a post-only helper drops the maker-or-cancel mark: what is posted, if
  anything, is a stop-limit order without execution options.\<close>

lemma stop_option_not_post_only:
  "\<exists>q. PostOnlyAsk post symbol amount price [WithStopPrice stop] = NewOrder post (Some q) \<and>
    no_Type q = TypeExchangeStopLimit \<and> no_Options q = None \<and> no_StopPrice q = Some (DecimalString stop)"
  by (rule exI [of _ "WithStopPrice stop (build_order SideSell symbol amount price (Some MakerOrCancel) [])"])
    (simp add: PostOnlyAsk_def buildAndExecuteOrder_def build_order_def WithStopPrice_def)

section \<open>The account-wide cancellation\<close>

text \<open>Without exactly one explicit confirmation nothing is posted.\<close>

lemma cancel_all_needs_confirmation:
  "(\<exists>e. \<forall>post'. CancelAllOrders post' request confirms = Inl e) \<or> confirms = [True]"
  by (cases confirms) (auto simp: CancelAllOrders_def)

end
