(* ===== verification/Reconciler.thy ===== *)
theory Reconciler
  imports Trading "HOL-Library.AList"
begin

text \<open>
  The quote reconciler of \<open>services/reconciler.go\<close>: the ledger of resting orders, the matching of
  desired quotes against it, the bounded worker pool and one reconciliation cycle (\<open>Sync\<close>), the
  hydration of the ledger and the emergency cancellation. A Go map is an association list with
  distinct keys; its order is the (arbitrary) iteration order. A cycle runs two phases without
  holding the ledger's lock: what happens meanwhile (the order in which the workers finish, the
  exchange's answers, the context, the stream events applied to the ledger) is the argument \<open>ph\<close>.
\<close>

section \<open>State\<close>

record desired_quote =
  dq_Side :: string
  dq_Price :: decimal
  dq_Amount :: decimal
  dq_ClientOrderID :: string

record resting_order =
  ro_OrderID :: string
  ro_ClientOrderID :: string
  ro_Side :: string
  ro_Price :: decimal
  ro_Amount :: decimal
  ro_OriginalAmount :: decimal

type_synonym ledger = "(string \<times> resting_order) list"

record reconcile_result =
  rr_Kept :: nat
  rr_Cancelled :: nat
  rr_Placed :: nat
  rr_Errors :: "err list"

text \<open>\<open>errors.Join\<close> is an error without text of its own around its operands.\<close>

definition ReconcileResult_Err :: "reconcile_result option \<Rightarrow> err option" where
  "ReconcileResult_Err r =
     (case r of None \<Rightarrow> None | Some x \<Rightarrow> if rr_Errors x = [] then None else Some (EWrap [] (rr_Errors x)))"

record quote_reconciler =
  qr_trading :: bool
  qr_ws :: bool
  qr_streaming :: bool
  qr_symbol :: string
  qr_account :: string
  qr_toleranceBps :: f64
  qr_tickSize :: decimal
  qr_lotSize :: decimal
  qr_maxConcurrent :: int
  qr_resting :: ledger

type_synonym reconciler_option = "quote_reconciler \<Rightarrow> quote_reconciler"

definition WithToleranceBps :: "f64 \<Rightarrow> reconciler_option" where
  "WithToleranceBps bps r = r\<lparr>qr_toleranceBps := bps\<rparr>"

definition WithQuantization :: "decimal \<Rightarrow> decimal \<Rightarrow> reconciler_option" where
  "WithQuantization tickSize lotSize r = r\<lparr>qr_tickSize := tickSize, qr_lotSize := lotSize\<rparr>"

definition WithMaxConcurrentRequests :: "int \<Rightarrow> reconciler_option" where
  "WithMaxConcurrentRequests limit r = (if 0 < limit then r\<lparr>qr_maxConcurrent := limit\<rparr> else r)"

definition WithAccount :: "string \<Rightarrow> reconciler_option" where
  "WithAccount acct r = r\<lparr>qr_account := TrimSpace acct\<rparr>"

definition NewQuoteReconciler ::
  "bool \<Rightarrow> bool \<Rightarrow> string \<Rightarrow> reconciler_option list \<Rightarrow> quote_reconciler" where
  "NewQuoteReconciler trading ws symbol opts =
     foldl (\<lambda>r opt. opt r)
       \<lparr>qr_trading = trading, qr_ws = ws, qr_streaming = False, qr_symbol = ToUpper (TrimSpace symbol),
        qr_account = [], qr_toleranceBps = Fin 0, qr_tickSize = Zero, qr_lotSize = Zero,
        qr_maxConcurrent = 4, qr_resting = []\<rparr> opts"

definition accountPointer :: "quote_reconciler \<Rightarrow> string option" where
  "accountPointer r = (if qr_account r = [] then None else Some (qr_account r))"

definition validateCancelResponse :: "cancel_order_response option \<Rightarrow> err option" where
  "validateCancelResponse response =
     (case response of
        None \<Rightarrow> Some (EMsg ''gemini reconciler: cancel response was empty'')
      | Some res \<Rightarrow>
          (case cr_IsLive res of
             Some is_live \<Rightarrow>
               if is_live then Some (EMsg ''gemini reconciler: cancelled order is still live'') else None
           | None \<Rightarrow>
               if cr_IsCancelled res = Some True then None
               else Some (EMsg ''gemini reconciler: cancel response did not prove that the order is no longer live'')))"

section \<open>The ledger\<close>

text \<open>\<open>restingOrdersByAge\<close>: numeric order ids first, ascending, then the others by their text.\<close>

fun string_less :: "string \<Rightarrow> string \<Rightarrow> bool" where
  "string_less s [] = False"
| "string_less [] (y # ys) = True"
| "string_less (x # xs) (y # ys) =
     (if (of_char x :: nat) < of_char y then True
      else if (of_char y :: nat) < of_char x then False else string_less xs ys)"

definition older :: "resting_order \<Rightarrow> resting_order \<Rightarrow> bool" where
  "older a b =
     (case (ParseUint64 (ro_OrderID a), ParseUint64 (ro_OrderID b)) of
        (Some i, Some j) \<Rightarrow> i < j
      | (Some _, None) \<Rightarrow> True
      | (None, Some _) \<Rightarrow> False
      | (None, None) \<Rightarrow> string_less (ro_OrderID a) (ro_OrderID b))"

definition cmp_age :: "resting_order \<Rightarrow> resting_order \<Rightarrow> int" where
  "cmp_age a b = (if older a b then - 1 else if older b a then 1 else 0)"

definition restingOrdersByAge :: "ledger \<Rightarrow> resting_order list" where
  "restingOrdersByAge resting = sort_by cmp_age (map snd resting)"

definition sameRestingOrder :: "resting_order \<Rightarrow> resting_order \<Rightarrow> bool" where
  "sameRestingOrder a b \<longleftrightarrow>
     ro_OrderID a = ro_OrderID b \<and> ro_ClientOrderID a = ro_ClientOrderID b \<and> ro_Side a = ro_Side b \<and>
     Cmp (ro_Price a) (ro_Price b) = 0 \<and> Cmp (ro_Amount a) (ro_Amount b) = 0 \<and>
     Cmp (ro_OriginalAmount a) (ro_OriginalAmount b) = 0"

definition deleteRestingIfUnchanged :: "ledger \<Rightarrow> resting_order \<Rightarrow> ledger" where
  "deleteRestingIfUnchanged resting expected =
     (case map_of resting (ro_OrderID expected) of
        None \<Rightarrow> resting
      | Some current \<Rightarrow>
          if sameRestingOrder current expected then AList.delete (ro_OrderID expected) resting else resting)"

definition add_if_absent :: "ledger \<Rightarrow> resting_order \<Rightarrow> ledger" where
  "add_if_absent resting p =
     (if map_of resting (ro_OrderID p) = None then AList.update (ro_OrderID p) p resting else resting)"

definition ActiveOrders :: "quote_reconciler \<Rightarrow> resting_order list" where
  "ActiveOrders r = map snd (qr_resting r)"

section \<open>Targets\<close>

definition quote_key :: "desired_quote \<Rightarrow> string" where
  "quote_key q = dq_Side q @ ''|'' @ DecimalString (dq_Price q) @ ''|'' @ DecimalString (dq_Amount q)"

text \<open>The quoted text of the invalid side is left out of its error message.
  One iteration of the loop of \<open>normalizeTargets\<close>, and the loop with its set of seen keys.\<close>

definition clean_target :: "quote_reconciler \<Rightarrow> desired_quote \<Rightarrow> err + desired_quote" where
  "clean_target r target =
     (let q0 = target\<lparr>dq_Side := ToLower (TrimSpace (dq_Side target))\<rparr>
      in if dq_Side q0 \<noteq> ''buy'' \<and> dq_Side q0 \<noteq> ''sell''
         then Inl (EMsg ''gemini reconciler: invalid order side'')
         else if \<not> IsPositive (dq_Price q0) \<or> \<not> IsPositive (dq_Amount q0)
         then Inl (EMsg (''gemini reconciler: price and amount must be positive for '' @ dq_Side q0 @ '' quote''))
         else
           let q1 = (if \<not> IsZero (qr_tickSize r)
                     then q0\<lparr>dq_Price := QuantizePrice (dq_Price q0) (qr_tickSize r)\<rparr> else q0);
               q = (if \<not> IsZero (qr_lotSize r)
                    then q1\<lparr>dq_Amount := QuantizeAmount (dq_Amount q1) (qr_lotSize r)\<rparr> else q1)
           in if \<not> IsPositive (dq_Price q) \<or> \<not> IsPositive (dq_Amount q)
              then Inl (EMsg (''gemini reconciler: quantization produced a non-positive '' @ dq_Side q @ '' quote''))
              else Inr q)"

fun normalize_loop ::
  "quote_reconciler \<Rightarrow> string list \<Rightarrow> desired_quote list \<Rightarrow> err + desired_quote list" where
  "normalize_loop r seen [] = Inr []"
| "normalize_loop r seen (target # targets) =
     (case clean_target r target of
        Inl e \<Rightarrow> Inl e
      | Inr q \<Rightarrow>
          if quote_key q \<in> set seen then Inl (EMsg (''gemini reconciler: duplicate target quote '' @ quote_key q))
          else case normalize_loop r (quote_key q # seen) targets of
            Inl e \<Rightarrow> Inl e
          | Inr qs \<Rightarrow> Inr (q # qs))"

definition normalizeTargets :: "quote_reconciler \<Rightarrow> desired_quote list \<Rightarrow> err + desired_quote list" where
  "normalizeTargets r targets =
     (if qr_symbol r = [] then Inl (EMsg ''gemini reconciler: symbol is required'')
      else if IsNaN (qr_toleranceBps r) \<or> IsInf (qr_toleranceBps r) \<or> f_less (qr_toleranceBps r) (Fin 0)
      then Inl (EMsg ''gemini reconciler: tolerance must be finite and non-negative'')
      else if (\<not> IsZero (qr_tickSize r) \<and> \<not> IsPositive (qr_tickSize r)) \<or>
              (\<not> IsZero (qr_lotSize r) \<and> \<not> IsPositive (qr_lotSize r))
      then Inl (EMsg ''gemini reconciler: tick and lot sizes must be positive'')
      else normalize_loop r [] targets)"

section \<open>Matching\<close>

definition price_match :: "quote_reconciler \<Rightarrow> decimal \<Rightarrow> decimal \<Rightarrow> bool" where
  "price_match r p target =
     (if Cmp p target = 0 then True
      else if f_less (Fin 0) (qr_toleranceBps r) then
        (case BpsDiffChecked p target of
           Inl _ \<Rightarrow> False
         | Inr diffBps \<Rightarrow> f_le (f_abs diffBps) (qr_toleranceBps r))
      else False)"

definition order_matches :: "quote_reconciler \<Rightarrow> desired_quote \<Rightarrow> resting_order \<Rightarrow> bool" where
  "order_matches r target ord \<longleftrightarrow>
     ro_Side ord = dq_Side target \<and> price_match r (ro_Price ord) (dq_Price target) \<and>
     Cmp (ro_Amount ord) (dq_Amount target) = 0"

text \<open>The matching loop: for each target in order the first unmatched resting order that fits. The
  results are the matched order ids, the indices of the matched targets and the number kept.\<close>

fun match_loop ::
  "quote_reconciler \<Rightarrow> resting_order list \<Rightarrow> nat \<Rightarrow> desired_quote list \<Rightarrow> string list \<Rightarrow> nat list \<Rightarrow> nat \<Rightarrow>
   string list \<times> nat list \<times> nat" where
  "match_loop r ages tIdx [] mr mt kept = (mr, mt, kept)"
| "match_loop r ages tIdx (target # targets) mr mt kept =
     (case find (\<lambda>ord. ro_OrderID ord \<notin> set mr \<and> order_matches r target ord) ages of
        None \<Rightarrow> match_loop r ages (Suc tIdx) targets mr mt kept
      | Some ord \<Rightarrow>
          match_loop r ages (Suc tIdx) targets (ro_OrderID ord # mr) (tIdx # mt) (Suc kept))"

record sync_plan =
  pl_kept :: nat
  pl_cancel :: "resting_order list"
  pl_place :: "desired_quote list"

definition plan_sync :: "quote_reconciler \<Rightarrow> desired_quote list \<Rightarrow> sync_plan" where
  "plan_sync r cleanTargets =
     (let (mr, mt, kept) = match_loop r (restingOrdersByAge (qr_resting r)) 0 cleanTargets [] [] 0
      in \<lparr>pl_kept = kept,
          pl_cancel = map snd (filter (\<lambda>(ordID, _). ordID \<notin> set mr) (qr_resting r)),
          pl_place = map snd (filter (\<lambda>(tIdx, _). tIdx \<notin> set mt) (enumerate 0 cleanTargets))\<rparr>)"

section \<open>Order events\<close>

record order_event =
  oe_EventType :: string
  oe_EventTime :: int
  oe_Symbol :: string
  oe_ClientOrderID :: string
  oe_Side :: string
  oe_OrderType :: string
  oe_TimeInForce :: string
  oe_Quantity :: string
  oe_Price :: string
  oe_StopPrice :: string
  oe_EventOutcome :: string
  oe_ExecutionType :: string
  oe_OrderStatus :: string
  oe_OrderRejectReason :: string
  oe_OrderID :: int
  oe_RemainingQty :: string
  oe_ExecutedQty :: string
  oe_LastExecutedPrice :: string
  oe_LastExecutedQty :: string
  oe_FeeAmount :: string
  oe_FeeAsset :: string
  oe_TradeTime :: int
  oe_TradeID :: int
  oe_IsMaker :: bool

definition parse_positive :: "string \<Rightarrow> decimal option" where
  "parse_positive s =
     (case ParseDecimal s of Inr d \<Rightarrow> if IsPositive d then Some d else None | Inl _ \<Rightarrow> None)"

definition is_side :: "string \<Rightarrow> bool" where
  "is_side side \<longleftrightarrow> side = ''buy'' \<or> side = ''sell''"

text \<open>The four branches on the status: a new order, an amendment, an end, a partial fill.\<close>

definition apply_new :: "string \<Rightarrow> string \<Rightarrow> order_event \<Rightarrow> ledger \<Rightarrow> ledger" where
  "apply_new ordID side evt l =
     (case (parse_positive (oe_Price evt), parse_positive (oe_Quantity evt)) of
        (Some p, Some q) \<Rightarrow>
          if is_side side
          then AList.update ordID \<lparr>ro_OrderID = ordID, ro_ClientOrderID = oe_ClientOrderID evt, ro_Side = side,
                 ro_Price = p, ro_Amount = q, ro_OriginalAmount = q\<rparr> l
          else l
      | _ \<Rightarrow> l)"

text \<open>The remaining quantity of an amendment: an error, a closed order, or a quantity.\<close>

datatype remaining_qty = BadRemaining | NothingLeft | Remaining decimal

definition amended_remaining :: "order_event \<Rightarrow> decimal \<Rightarrow> remaining_qty" where
  "amended_remaining evt original =
     (if TrimSpace (oe_RemainingQty evt) \<noteq> [] then
        (case ParseDecimal (oe_RemainingQty evt) of
           Inl _ \<Rightarrow> BadRemaining
         | Inr parsedRemaining \<Rightarrow>
             if GreaterThan parsedRemaining original then BadRemaining
             else if \<not> IsPositive parsedRemaining then NothingLeft
             else Remaining parsedRemaining)
      else Remaining original)"

definition apply_amended :: "string \<Rightarrow> string \<Rightarrow> order_event \<Rightarrow> ledger \<Rightarrow> ledger" where
  "apply_amended ordID side evt l =
     (case (parse_positive (oe_Price evt), parse_positive (oe_Quantity evt)) of
        (Some p, Some original) \<Rightarrow>
          (case amended_remaining evt original of
             BadRemaining \<Rightarrow> l
           | NothingLeft \<Rightarrow> AList.delete ordID l
           | Remaining rem \<Rightarrow>
               (case map_of l ordID of
                  Some current \<Rightarrow>
                    if oe_Side evt \<noteq> [] \<and> \<not> is_side side then l
                    else
                      let c1 = current\<lparr>ro_Price := p, ro_Amount := rem, ro_OriginalAmount := original\<rparr>;
                          c2 = (if oe_ClientOrderID evt \<noteq> []
                                then c1\<lparr>ro_ClientOrderID := oe_ClientOrderID evt\<rparr> else c1);
                          c3 = (if oe_Side evt \<noteq> [] then c2\<lparr>ro_Side := side\<rparr> else c2)
                      in AList.update ordID c3 l
                | None \<Rightarrow>
                    if is_side side
                    then AList.update ordID \<lparr>ro_OrderID = ordID, ro_ClientOrderID = oe_ClientOrderID evt,
                           ro_Side = side, ro_Price = p, ro_Amount = rem, ro_OriginalAmount = original\<rparr> l
                    else l))
      | _ \<Rightarrow> l)"

definition apply_partial :: "string \<Rightarrow> string \<Rightarrow> order_event \<Rightarrow> ledger \<Rightarrow> ledger" where
  "apply_partial ordID side evt l =
     (case ParseDecimal (oe_RemainingQty evt) of
        Inl _ \<Rightarrow> l
      | Inr rem \<Rightarrow>
          if \<not> IsPositive rem then AList.delete ordID l
          else case map_of l ordID of
            Some current \<Rightarrow>
              if GreaterThan rem (ro_OriginalAmount current) then l
              else AList.update ordID (current\<lparr>ro_Amount := rem\<rparr>) l
          | None \<Rightarrow>
              (case parse_positive (oe_Price evt) of
                 None \<Rightarrow> l
               | Some p \<Rightarrow>
                   if \<not> is_side side then l
                   else
                     let q = (case parse_positive (oe_Quantity evt) of
                                None \<Rightarrow> Some rem
                              | Some q \<Rightarrow> if LessThan q rem then None else Some q)
                     in case q of
                          None \<Rightarrow> l
                        | Some q \<Rightarrow>
                            AList.update ordID \<lparr>ro_OrderID = ordID, ro_ClientOrderID = oe_ClientOrderID evt,
                              ro_Side = side, ro_Price = p, ro_Amount = rem, ro_OriginalAmount = q\<rparr> l))"

definition apply_event :: "string \<Rightarrow> ledger \<Rightarrow> order_event \<Rightarrow> ledger" where
  "apply_event symbol l evt =
     (if oe_Symbol evt \<noteq> [] \<and> ToUpper (TrimSpace (oe_Symbol evt)) \<noteq> symbol then l
      else if oe_OrderID evt \<le> 0 then l
      else
        let ordID = FormatInt (oe_OrderID evt); status = ToUpper (oe_OrderStatus evt);
            side = ToLower (TrimSpace (oe_Side evt))
        in if status \<in> {''NEW'', ''ACCEPTED'', ''BOOKED'', ''OPEN''} then apply_new ordID side evt l
           else if status \<in> {''MODIFIED'', ''AMENDED'', ''REPLACED''} then apply_amended ordID side evt l
           else if status \<in> {''CANCELED'', ''CANCELLED'', ''FILLED'', ''EXPIRED'', ''REJECTED''}
           then AList.delete ordID l
           else if status = ''PARTIALLY_FILLED'' then apply_partial ordID side evt l
           else l)"

definition ApplyOrderEvent :: "quote_reconciler \<Rightarrow> order_event option \<Rightarrow> quote_reconciler" where
  "ApplyOrderEvent r event =
     (case event of
        None \<Rightarrow> r
      | Some evt \<Rightarrow> r\<lparr>qr_resting := apply_event (qr_symbol r) (qr_resting r) evt\<rparr>)"

section \<open>Hydration\<close>

text \<open>The ledger entry of one open order the exchange lists; \<open>None\<close> when the loop skips it.\<close>

definition hydrate_order :: "string \<Rightarrow> limit_order_response \<Rightarrow> (string \<times> resting_order) option" where
  "hydrate_order symbol ord =
     (if (case lo_Symbol ord of Some s \<Rightarrow> ToUpper (TrimSpace s) \<noteq> symbol | None \<Rightarrow> False) then None
      else case (lo_OrderId ord, lo_Price ord, lo_OriginalAmount ord) of
        (Some ordID, Some price, Some originalAmount) \<Rightarrow>
          (case (ParseDecimal price, ParseDecimal originalAmount) of
             (Inr p, Inr origAmount) \<Rightarrow>
               let a = (case lo_ExecutedAmount ord of
                          Some executed \<Rightarrow>
                            (case parse_positive executed of
                               Some e \<Rightarrow> Sub origAmount e | None \<Rightarrow> origAmount)
                        | None \<Rightarrow> origAmount)
               in if \<not> IsPositive a then None
                  else case lo_Side ord of
                    None \<Rightarrow> None
                  | Some side \<Rightarrow>
                      if side = SideBuy \<or> side = SideSell then
                        Some (ordID, \<lparr>ro_OrderID = ordID,
                          ro_ClientOrderID = (case lo_ClientOrderId ord of Some c \<Rightarrow> c | None \<Rightarrow> []),
                          ro_Side = side, ro_Price = p, ro_Amount = a, ro_OriginalAmount = origAmount\<rparr>)
                      else None
           | _ \<Rightarrow> None)
      | _ \<Rightarrow> None)"

definition hydrate_ledger :: "string \<Rightarrow> limit_order_response list \<Rightarrow> ledger" where
  "hydrate_ledger symbol orders =
     foldl (\<lambda>l ord. case hydrate_order symbol ord of None \<Rightarrow> l | Some (k, v) \<Rightarrow> AList.update k v l) [] orders"

definition Hydrate ::
  "quote_reconciler \<Rightarrow> (string \<Rightarrow> active_orders_request \<Rightarrow> err + limit_order_response list) \<Rightarrow>
   quote_reconciler \<times> err option" where
  "Hydrate r exchange =
     (if \<not> qr_trading r then (r, Some (EMsg ''gemini reconciler: trading service not configured''))
      else case GetActiveOrders exchange
                  (Some \<lparr>ao_Account = accountPointer r, ao_Nonce = [], ao_Request = []\<rparr>) of
        Inl e \<Rightarrow> (r, Some e)
      | Inr orders \<Rightarrow> (r\<lparr>qr_resting := hydrate_ledger (qr_symbol r) orders\<rparr>, None))"

end
