(* ===== verification/WorkerPool.thy ===== *)
theory WorkerPool
  imports Prelude
begin

text \<open>
  The bounded worker pool \<open>runBounded\<close> of \<open>services/reconciler.go\<close> as a small-step relation: every
  worker checks the context, claims the next index with the atomic counter, runs the item and
  starts over; the context may be cancelled at any moment. The state counts the workers at each
  program point and lists the claimed items that are running and that have finished.
\<close>

section \<open>Steps\<close>

record pool =
  wp_next :: nat
  wp_idle :: nat
  wp_checked :: nat
  wp_exited :: nat
  wp_running :: "nat list"
  wp_done :: "nat list"
  wp_cancelled :: bool

definition pool_workers :: "int \<Rightarrow> nat \<Rightarrow> nat" where
  "pool_workers limit n = (if limit \<le> 0 \<or> int n < limit then n else nat limit)"

definition pool_start :: "nat \<Rightarrow> pool" where
  "pool_start w = \<lparr>wp_next = 0, wp_idle = w, wp_checked = 0, wp_exited = 0, wp_running = [],
     wp_done = [], wp_cancelled = False\<rparr>"

inductive pool_step :: "nat \<Rightarrow> pool \<Rightarrow> pool \<Rightarrow> bool" for n where
  pool_cancel: "\<not> wp_cancelled s \<Longrightarrow> pool_step n s (s\<lparr>wp_cancelled := True\<rparr>)"
| pool_check: "\<not> wp_cancelled s \<Longrightarrow> wp_idle s = Suc k \<Longrightarrow>
    pool_step n s (s\<lparr>wp_idle := k, wp_checked := Suc (wp_checked s)\<rparr>)"
| pool_stop: "wp_cancelled s \<Longrightarrow> wp_idle s = Suc k \<Longrightarrow>
    pool_step n s (s\<lparr>wp_idle := k, wp_exited := Suc (wp_exited s)\<rparr>)"
| pool_claim: "wp_checked s = Suc k \<Longrightarrow> wp_next s < n \<Longrightarrow>
    pool_step n s (s\<lparr>wp_checked := k, wp_running := wp_next s # wp_running s, wp_next := Suc (wp_next s)\<rparr>)"
| pool_drained: "wp_checked s = Suc k \<Longrightarrow> \<not> wp_next s < n \<Longrightarrow>
    pool_step n s (s\<lparr>wp_checked := k, wp_exited := Suc (wp_exited s), wp_next := Suc (wp_next s)\<rparr>)"
| pool_finish: "wp_running s = xs @ i # ys \<Longrightarrow>
    pool_step n s (s\<lparr>wp_running := xs @ ys, wp_done := wp_done s @ [i], wp_idle := Suc (wp_idle s)\<rparr>)"

inductive_cases pool_stepE: "pool_step n s s'"

inductive pool_reachable :: "nat \<Rightarrow> nat \<Rightarrow> pool \<Rightarrow> bool" for n w where
  pool_init: "pool_reachable n w (pool_start w)"
| pool_next: "pool_reachable n w s \<Longrightarrow> pool_step n s s' \<Longrightarrow> pool_reachable n w s'"

text \<open>\<open>wg.Wait\<close> returns when every worker has exited.\<close>

definition pool_waited :: "nat \<Rightarrow> pool \<Rightarrow> bool" where
  "pool_waited w s \<longleftrightarrow> wp_exited s = w"

text \<open>Every step makes progress towards that: the number of steps a state can still take.\<close>

definition pool_work :: "nat \<Rightarrow> pool \<Rightarrow> nat" where
  "pool_work n s = (if wp_cancelled s then 0 else 1) + 3 * (n - wp_next s) + 2 * wp_idle s +
     wp_checked s + 3 * length (wp_running s)"

section \<open>The invariant\<close>

definition pool_inv :: "nat \<Rightarrow> nat \<Rightarrow> pool \<Rightarrow> bool" where
  "pool_inv n w s \<longleftrightarrow>
     distinct (wp_running s @ wp_done s) \<and>
     set (wp_running s @ wp_done s) = {..<min (wp_next s) n} \<and>
     wp_idle s + wp_checked s + wp_exited s + length (wp_running s) = w \<and>
     (0 < wp_exited s \<and> \<not> wp_cancelled s \<longrightarrow> n \<le> wp_next s)"

lemma pool_inv_start: "pool_inv n w (pool_start w)"
  by (simp add: pool_inv_def pool_start_def)

lemma pool_inv_step:
  assumes "pool_step n s s'" "pool_inv n w s"
  shows "pool_inv n w s'"
  using assms
proof (cases rule: pool_step.cases)
  case (pool_claim k)
  have "{..<min (Suc (wp_next s)) n} = insert (wp_next s) {..<min (wp_next s) n}"
    using pool_claim by auto
  then show ?thesis using pool_claim assms(2) by (auto simp: pool_inv_def)
next
  case (pool_finish xs i ys)
  then show ?thesis using assms(2) by (auto simp: pool_inv_def)
qed (auto simp: pool_inv_def)

lemma pool_reachable_inv: "pool_reachable n w s \<Longrightarrow> pool_inv n w s"
  by (induction rule: pool_reachable.induct) (auto intro: pool_inv_start pool_inv_step)

lemma pool_work_decreases:
  assumes "pool_step n s s'"
  shows "pool_work n s' < pool_work n s"
  using assms by (cases rule: pool_step.cases) (auto simp: pool_work_def)

lemma pool_progress:
  assumes "pool_inv n w s" "\<not> pool_waited w s"
  shows "\<exists>s'. pool_step n s s'"
proof -
  have "wp_idle s + wp_checked s + length (wp_running s) \<noteq> 0"
    using assms by (auto simp: pool_inv_def pool_waited_def)
  then consider k where "wp_idle s = Suc k" | k where "wp_checked s = Suc k"
    | i ys where "wp_running s = [] @ i # ys"
    by (cases "wp_idle s"; cases "wp_checked s"; cases "wp_running s") auto
  then show ?thesis
  proof cases
    case 1
    then show ?thesis by (cases "wp_cancelled s") (blast intro: pool_check pool_stop)+
  next
    case 2
    then show ?thesis by (cases "wp_next s < n") (blast intro: pool_claim pool_drained)+
  next
    case 3
    then show ?thesis by (blast intro: pool_finish)
  qed
qed

section \<open>Schedules\<close>

text \<open>What a finished run leaves behind: the items of a prefix of the list, each once, in the order
  they finished; all of them when the context was never cancelled.\<close>

definition valid_schedule :: "nat \<Rightarrow> nat list \<Rightarrow> bool \<Rightarrow> bool" where
  "valid_schedule n order cancelled \<longleftrightarrow>
     distinct order \<and> (\<exists>k\<le>n. set order = {..<k}) \<and> (\<not> cancelled \<longrightarrow> set order = {..<n})"

lemma pool_schedule:
  assumes "pool_reachable n w s" "pool_waited w s" "0 < w"
  shows "valid_schedule n (wp_done s) (wp_cancelled s)"
proof -
  have i: "pool_inv n w s" using assms(1) by (rule pool_reachable_inv)
  then have r: "wp_running s = []" using assms(2) by (auto simp: pool_inv_def pool_waited_def)
  have d: "distinct (wp_done s)" "set (wp_done s) = {..<min (wp_next s) n}"
    using i r by (simp_all add: pool_inv_def)
  have m: "set (wp_done s) = {..<n}" if "\<not> wp_cancelled s"
  proof -
    have "n \<le> wp_next s" using i assms(2,3) that by (auto simp: pool_inv_def pool_waited_def)
    then show ?thesis unfolding d(2) by (simp add: min_absorb2)
  qed
  show ?thesis unfolding valid_schedule_def using d m min.cobounded2 by blast
qed

lemma valid_scheduleD:
  assumes "valid_schedule n order c"
  shows "distinct order" "i \<in> set order \<Longrightarrow> i < n" "\<not> c \<Longrightarrow> mset order = mset [0..<n]"
proof -
  show "distinct order" using assms by (simp add: valid_schedule_def)
  obtain k where "k \<le> n" "set order = {..<k}" using assms by (auto simp: valid_schedule_def)
  then show "i \<in> set order \<Longrightarrow> i < n" by simp
  show "mset order = mset [0..<n]" if "\<not> c"
  proof -
    have "distinct order" "set order = set [0..<n]"
      using assms that by (simp_all add: valid_schedule_def lessThan_atLeast0)
    then show ?thesis using set_eq_iff_mset_eq_distinct[of order "[0..<n]"] by simp
  qed
qed

section \<open>Properties\<close>

text \<open>C22: The worker pool is safe and live under every interleaving: never more workers than allowed
  run an item, no item runs twice and the items started are a prefix of the list; as long as some
  worker has not exited a step is possible, every step brings the end closer, and once all have
  exited without a cancellation every item has been processed exactly once.\<close>

theorem worker_pool_correct:
  assumes "pool_reachable n (pool_workers limit n) s" "0 < n"
  shows "length (wp_running s) \<le> pool_workers limit n \<and>
    (0 < limit \<longrightarrow> length (wp_running s) \<le> nat limit) \<and>
    distinct (wp_running s @ wp_done s) \<and> (\<exists>k\<le>n. set (wp_running s @ wp_done s) = {..<k}) \<and>
    (\<forall>s'. pool_step n s s' \<longrightarrow> pool_work n s' < pool_work n s) \<and>
    (\<not> pool_waited (pool_workers limit n) s \<longrightarrow> (\<exists>s'. pool_step n s s')) \<and>
    (pool_waited (pool_workers limit n) s \<longrightarrow> valid_schedule n (wp_done s) (wp_cancelled s))"
proof -
  have i: "pool_inv n (pool_workers limit n) s" using assms(1) by (rule pool_reachable_inv)
  have w: "0 < pool_workers limit n" "0 < limit \<longrightarrow> pool_workers limit n \<le> nat limit"
    using assms(2) by (auto simp: pool_workers_def)
  have l: "length (wp_running s) \<le> pool_workers limit n" using i by (simp add: pool_inv_def)
  have k: "\<exists>k\<le>n. set (wp_running s @ wp_done s) = {..<k}"
    using i by (intro exI[of _ "min (wp_next s) n"]) (simp add: pool_inv_def)
  have "distinct (wp_running s @ wp_done s)" using i by (simp add: pool_inv_def)
  then show ?thesis
    using l k w pool_work_decreases pool_progress[OF i] pool_schedule[OF assms(1) _ w(1)] by auto
qed

theorem worker_pool_correct_witness:
  "\<exists>s. pool_reachable 1 (pool_workers 4 1) s \<and> wp_running s = [0] \<and>
     length (wp_running s) \<le> pool_workers 4 1"
proof -
  have w: "pool_workers 4 (Suc 0) = Suc 0" by (simp add: pool_workers_def)
  let ?s1 = "(pool_start 1)\<lparr>wp_idle := 0, wp_checked := Suc 0\<rparr>"
  let ?s2 = "?s1\<lparr>wp_checked := 0, wp_running := [0], wp_next := Suc 0\<rparr>"
  have "pool_step 1 (pool_start 1) ?s1"
    using pool_check[of "pool_start 1" 0 1] by (simp add: pool_start_def)
  moreover have "pool_step 1 ?s1 ?s2"
    using pool_claim[of ?s1 0 1] by (simp add: pool_start_def)
  ultimately have "pool_reachable 1 1 ?s2" by (blast intro: pool_init pool_next)
  then have r: "pool_reachable 1 (pool_workers 4 1) ?s2" by (simp add: w)
  from worker_pool_correct[OF r] r show ?thesis by (intro exI[of _ ?s2]) simp
qed

end
