(* ===== verification/SyncCycle.thy ===== *)
theory SyncCycle
  imports Reconciler WorkerPool
begin

text \<open>
  The operations of the quote reconciler that talk to the exchange, \<open>services/reconciler.go\<close>:
  one cycle \<open>Sync\<close> with its cancel and placement phases, and \<open>CancelAll\<close>. Each phase runs its items
  on the worker pool; \<open>ph_order\<close> is the order in which the items finish (a \<open>valid_schedule\<close>, as the
  theory \<open>WorkerPool\<close> shows), \<open>ph_ctx\<close> what the item reads from the context, \<open>ph_done\<close> the context's
  error after the phase and \<open>ph_events\<close> the stream events applied to the ledger meanwhile.
\<close>

section \<open>Phases\<close>

record phase =
  ph_order :: "nat list"
  ph_ctx :: "nat \<Rightarrow> err option"
  ph_done :: "err option"
  ph_events :: "order_event list"

definition runBounded ::
  "phase \<Rightarrow> 'a list \<Rightarrow> (nat \<Rightarrow> 'a \<Rightarrow> 's \<Rightarrow> 's) \<Rightarrow> 's \<Rightarrow> 's \<times> err option" where
  "runBounded ph items fn s =
     (if items = [] then (s, None)
      else (foldl (\<lambda>s i. fn i (items ! i) s) s (ph_order ph), ph_done ph))"

definition apply_events :: "string \<Rightarrow> order_event list \<Rightarrow> ledger \<Rightarrow> ledger" where
  "apply_events symbol evts l = foldl (apply_event symbol) l evts"

text \<open>The requests a cycle sends, in order, and the state its workers share.\<close>

datatype sync_request = SentCancel cancel_order_request | SentOrder new_order_request

record 'a work_state =
  ws_errors :: "err list"
  ws_good :: "'a list"
  ws_sent :: "sync_request list"

section \<open>Cancelling\<close>

type_synonym cancel_exchange = "nat \<Rightarrow> string \<Rightarrow> cancel_order_request \<Rightarrow> err + cancel_order_response"

text \<open>One cancellation: parse the id, post, check that the answer proves the order dead.\<close>

definition cancel_one ::
  "string option \<Rightarrow> cancel_exchange \<Rightarrow> nat \<Rightarrow> resting_order \<Rightarrow> resting_order work_state \<Rightarrow>
   resting_order work_state" where
  "cancel_one acct exchange i ord st =
     (case ParseUint64 (ro_OrderID ord) of
        None \<Rightarrow> st\<lparr>ws_errors := ws_errors st @ [EWrap (''invalid order id '' @ ro_OrderID ord) [EMsg []]]\<rparr>
      | Some idInt \<Rightarrow>
          let req = \<lparr>co_Account = acct, co_Nonce = [], co_OrderId = idInt, co_Request = []\<rparr>;
              st1 = st\<lparr>ws_sent := ws_sent st @ [SentCancel req]\<rparr>
          in case (case CancelOrder (exchange i) req of
                     Inl e \<Rightarrow> Some e | Inr res \<Rightarrow> validateCancelResponse res) of
               Some e \<Rightarrow>
                 st1\<lparr>ws_errors := ws_errors st1 @ [EWrap (''failed to cancel order '' @ ro_OrderID ord) [e]]\<rparr>
             | None \<Rightarrow> st1\<lparr>ws_good := ws_good st1 @ [ord]\<rparr>)"

text \<open>In \<open>Sync\<close> every item looks at the context first.\<close>

definition cancel_quote ::
  "string option \<Rightarrow> phase \<Rightarrow> cancel_exchange \<Rightarrow> nat \<Rightarrow> resting_order \<Rightarrow> resting_order work_state \<Rightarrow>
   resting_order work_state" where
  "cancel_quote acct ph exchange i ord st =
     (case ph_ctx ph i of
        Some e \<Rightarrow> st\<lparr>ws_errors := ws_errors st @ [EWrap (''cancelling order '' @ ro_OrderID ord) [e]]\<rparr>
      | None \<Rightarrow> cancel_one acct exchange i ord st)"

definition empty_work :: "'a work_state" where
  "empty_work = \<lparr>ws_errors = [], ws_good = [], ws_sent = []\<rparr>"

definition cancel_phase ::
  "quote_reconciler \<Rightarrow> phase \<Rightarrow> cancel_exchange \<Rightarrow> resting_order list \<Rightarrow> resting_order work_state" where
  "cancel_phase r ph exchange toCancel =
     (case runBounded ph toCancel (cancel_quote (accountPointer r) ph exchange) empty_work of
        (st, None) \<Rightarrow> st
      | (st, Some e) \<Rightarrow> st\<lparr>ws_errors := ws_errors st @ [EWrap ''cancelling quotes'' [e]]\<rparr>)"

section \<open>Placing\<close>

type_synonym place_exchange = "nat \<Rightarrow> string \<Rightarrow> new_order_request \<Rightarrow> err + limit_order_response"

definition quote_options :: "quote_reconciler \<Rightarrow> desired_quote \<Rightarrow> order_option list" where
  "quote_options r t =
     (if dq_ClientOrderID t \<noteq> [] then [WithClientOrderID (dq_ClientOrderID t)] else []) @
     (if qr_account r \<noteq> [] then [withOrderAccount (qr_account r)] else [])"

definition not_live :: "limit_order_response \<Rightarrow> bool" where
  "not_live res \<longleftrightarrow> lo_IsCancelled res = Some True \<or> lo_IsLive res = Some False"

text \<open>The request a quote posts; it always passes the validation of \<open>NewOrder\<close>.\<close>

definition quote_request :: "quote_reconciler \<Rightarrow> desired_quote \<Rightarrow> new_order_request" where
  "quote_request r t =
     build_order (if dq_Side t = ''buy'' then SideBuy else SideSell) (qr_symbol r) (dq_Amount t) (dq_Price t)
       (Some MakerOrCancel) (quote_options r t)"

definition place_quote ::
  "quote_reconciler \<Rightarrow> phase \<Rightarrow> place_exchange \<Rightarrow> nat \<Rightarrow> desired_quote \<Rightarrow> resting_order work_state \<Rightarrow>
   resting_order work_state" where
  "place_quote r ph exchange i t st =
     (case ph_ctx ph i of
        Some e \<Rightarrow> st\<lparr>ws_errors := ws_errors st @ [EWrap (''placing '' @ dq_Side t @ '' quote'') [e]]\<rparr>
      | None \<Rightarrow>
          let opts = quote_options r t;
              sent = (if is_side (dq_Side t) then [SentOrder (quote_request r t)] else []);
              st1 = st\<lparr>ws_sent := ws_sent st @ sent\<rparr>;
              res =
                (if dq_Side t = ''buy'' then PostOnlyBid (exchange i) (qr_symbol r) (dq_Amount t) (dq_Price t) opts
                 else if dq_Side t = ''sell'' then PostOnlyAsk (exchange i) (qr_symbol r) (dq_Amount t) (dq_Price t) opts
                 else Inl (EMsg ''invalid order side''));
              failed = (\<lambda>e. st1\<lparr>ws_errors := ws_errors st1 @ [EWrap (''failed to place '' @ dq_Side t @ '' quote @ '' @
                              DecimalString (dq_Price t)) [e]]\<rparr>)
          in case res of
               Inl e \<Rightarrow> failed e
             | Inr response \<Rightarrow>
                 if not_live response then failed (EMsg ''exchange did not leave the order live'')
                 else case lo_OrderId response of
                   None \<Rightarrow> failed (EMsg ''exchange returned no order ID'')
                 | Some ordID \<Rightarrow>
                     if TrimSpace ordID = [] then failed (EMsg ''exchange returned no order ID'')
                     else st1\<lparr>ws_good := ws_good st1 @
                            [\<lparr>ro_OrderID = ordID, ro_ClientOrderID = dq_ClientOrderID t, ro_Side = dq_Side t,
                              ro_Price = dq_Price t, ro_Amount = dq_Amount t, ro_OriginalAmount = dq_Amount t\<rparr>]\<rparr>)"

definition place_phase ::
  "quote_reconciler \<Rightarrow> phase \<Rightarrow> place_exchange \<Rightarrow> desired_quote list \<Rightarrow> resting_order work_state" where
  "place_phase r ph exchange toPlace =
     (case runBounded ph toPlace (place_quote r ph exchange) empty_work of
        (st, None) \<Rightarrow> st
      | (st, Some e) \<Rightarrow> st\<lparr>ws_errors := ws_errors st @ [EWrap ''placing quotes'' [e]]\<rparr>)"

section \<open>The cycle\<close>

record sync_outcome =
  so_reconciler :: quote_reconciler
  so_result :: "err + reconcile_result"
  so_sent :: "sync_request list"

definition Sync ::
  "quote_reconciler \<Rightarrow> desired_quote list \<Rightarrow> phase \<Rightarrow> cancel_exchange \<Rightarrow> phase \<Rightarrow> place_exchange \<Rightarrow> sync_outcome" where
  "Sync r targets ph1 cancel ph2 place =
     (if \<not> qr_trading r
      then \<lparr>so_reconciler = r, so_result = Inl (EMsg ''gemini reconciler: trading service not configured''), so_sent = []\<rparr>
      else case normalizeTargets r targets of
        Inl e \<Rightarrow> \<lparr>so_reconciler = r, so_result = Inl e, so_sent = []\<rparr>
      | Inr cleanTargets \<Rightarrow>
          let plan = plan_sync r cleanTargets;
              st1 = cancel_phase r ph1 cancel (pl_cancel plan);
              l1 = foldl deleteRestingIfUnchanged (apply_events (qr_symbol r) (ph_events ph1) (qr_resting r)) (ws_good st1);
              r1 = r\<lparr>qr_resting := l1\<rparr>
          in if 0 < length (ws_errors st1) then
               \<lparr>so_reconciler = r1,
                so_result = Inr \<lparr>rr_Kept = pl_kept plan, rr_Cancelled = length (ws_good st1), rr_Placed = 0,
                                  rr_Errors = ws_errors st1\<rparr>,
                so_sent = ws_sent st1\<rparr>
             else
               let st2 = place_phase r ph2 place (pl_place plan);
                   l2 = foldl add_if_absent (apply_events (qr_symbol r) (ph_events ph2) l1) (ws_good st2)
               in \<lparr>so_reconciler = r\<lparr>qr_resting := l2\<rparr>,
                   so_result = Inr \<lparr>rr_Kept = pl_kept plan, rr_Cancelled = length (ws_good st1),
                                     rr_Placed = length (ws_good st2), rr_Errors = ws_errors st2\<rparr>,
                   so_sent = ws_sent st1 @ ws_sent st2\<rparr>)"

section \<open>The emergency cancellation\<close>

definition CancelAll ::
  "quote_reconciler \<Rightarrow> phase \<Rightarrow> cancel_exchange \<Rightarrow> quote_reconciler \<times> err option \<times> sync_request list" where
  "CancelAll r ph exchange =
     (if \<not> qr_trading r
      then (r, Some (EMsg ''gemini reconciler: trading service not configured''), [])
      else
        let orders = map snd (qr_resting r);
            (st0, done_err) = runBounded ph orders (cancel_one (accountPointer r) exchange) empty_work;
            st = (case done_err of None \<Rightarrow> st0
                  | Some e \<Rightarrow> st0\<lparr>ws_errors := ws_errors st0 @ [EWrap ''cancelling orders'' [e]]\<rparr>);
            l = foldl deleteRestingIfUnchanged (apply_events (qr_symbol r) (ph_events ph) (qr_resting r)) (ws_good st)
        in (r\<lparr>qr_resting := l\<rparr>,
            if 0 < length (ws_errors st) then Some (EWrap [] (ws_errors st)) else None, ws_sent st))"

end
