(* ===== verification/SyncSpec.thy ===== *)
theory SyncSpec
  imports SyncCycle
begin

text \<open>
  What the quote reconciler guarantees: the invariant of its ledger, the matching of quotes as a
  multiset difference, no placement before every stale order is proved dead, and convergence of a
  cycle that reports no error.
\<close>

section \<open>Values of orders and quotes\<close>

text \<open>Orders and quotes are compared by side, price value and amount value.\<close>

type_synonym quote_value = "string \<times> rat \<times> rat"

definition order_value :: "resting_order \<Rightarrow> quote_value" where
  "order_value ord = (ro_Side ord, rv (ro_Price ord), rv (ro_Amount ord))"

definition target_value :: "desired_quote \<Rightarrow> quote_value" where
  "target_value t = (dq_Side t, rv (dq_Price t), rv (dq_Amount t))"

definition order_scales :: "resting_order \<Rightarrow> bool" where
  "order_scales ord \<longleftrightarrow> scale_ok (ro_Price ord) \<and> scale_ok (ro_Amount ord) \<and> scale_ok (ro_OriginalAmount ord)"

definition target_scales :: "desired_quote \<Rightarrow> bool" where
  "target_scales t \<longleftrightarrow> scale_ok (dq_Price t) \<and> scale_ok (dq_Amount t)"

definition no_tolerance :: "quote_reconciler \<Rightarrow> bool" where
  "no_tolerance r \<longleftrightarrow> \<not> f_less (Fin 0) (qr_toleranceBps r)"

lemma Cmp_zero: "scale_ok a \<Longrightarrow> scale_ok b \<Longrightarrow> Cmp a b = 0 \<longleftrightarrow> rv a = rv b"
  by (simp add: Cmp_rv)

lemma Cmp_self [simp]: "Cmp d d = 0"
  by (simp add: Cmp_def alignScale_def Let_def)

lemma sameRestingOrder_self [simp]: "sameRestingOrder a a"
  by (simp add: sameRestingOrder_def)

lemma order_matches_value:
  "no_tolerance r \<Longrightarrow> order_scales ord \<Longrightarrow> target_scales t \<Longrightarrow>
   order_matches r t ord \<longleftrightarrow> order_value ord = target_value t"
  by (auto simp: order_matches_def price_match_def no_tolerance_def order_value_def target_value_def
      order_scales_def target_scales_def Cmp_zero)

section \<open>Matching as a multiset difference\<close>

abbreviation unmatched_orders :: "resting_order list \<Rightarrow> string list \<Rightarrow> resting_order list" where
  "unmatched_orders ages mr \<equiv> filter (\<lambda>ord. ro_OrderID ord \<notin> set mr) ages"

abbreviation unmatched_targets :: "nat \<Rightarrow> desired_quote list \<Rightarrow> nat list \<Rightarrow> desired_quote list" where
  "unmatched_targets i ts mt \<equiv> map snd (filter (\<lambda>(tIdx, _). tIdx \<notin> set mt) (enumerate i ts))"

lemma find_filter: "find (\<lambda>x. P x \<and> Q x) xs = find Q (filter P xs)"
  by (induction xs) auto

lemma find_SomeD: "find P xs = Some x \<Longrightarrow> x \<in> set xs \<and> P x"
  by (auto simp: find_Some_iff)

text \<open>Indices only ever name targets the loop has passed.\<close>

lemma match_loop_indices:
  "match_loop r ages i ts mr mt kept = (mr', mt', kept') \<Longrightarrow>
   set mt \<subseteq> set mt' \<and> set mt' \<subseteq> set mt \<union> {i..<i + length ts}"
  by (induction ts arbitrary: i mr mt kept) (fastforce split: option.splits)+

lemma remove_matched:
  assumes "distinct (map ro_OrderID ages)" "ord \<in> set ages" "ro_OrderID ord \<notin> set mr"
  shows "mset (unmatched_orders ages (ro_OrderID ord # mr)) + {#ord#} = mset (unmatched_orders ages mr)"
  using assms
proof (induction ages)
  case (Cons a ages)
  show ?case
  proof (cases "a = ord")
    case True
    then have "\<forall>x\<in>set ages. ro_OrderID x \<noteq> ro_OrderID ord" using Cons.prems(1) by (auto simp: image_iff)
    then have "unmatched_orders ages (ro_OrderID ord # mr) = unmatched_orders ages mr"
      by (intro filter_cong) auto
    then show ?thesis using True Cons.prems by simp
  next
    case False
    then have "ord \<in> set ages" "ro_OrderID a \<noteq> ro_OrderID ord" using Cons.prems by (auto simp: image_iff)
    then show ?thesis using Cons by (auto simp: add_mset_commute)
  qed
qed simp

lemma match_loop_values:
  assumes "match_loop r ages i ts mr mt kept = (mr', mt', kept')"
    and "no_tolerance r" "distinct (map ro_OrderID ages)" "\<forall>ord\<in>set ages. order_scales ord"
    "\<forall>t\<in>set ts. target_scales t" "\<forall>m\<in>set mt. m < i"
  shows "image_mset order_value (mset (unmatched_orders ages mr')) =
      image_mset order_value (mset (unmatched_orders ages mr)) - image_mset target_value (mset ts) \<and>
    image_mset target_value (mset (unmatched_targets i ts mt')) =
      image_mset target_value (mset ts) - image_mset order_value (mset (unmatched_orders ages mr)) \<and>
    kept' + length (unmatched_targets i ts mt') = kept + length ts \<and>
    kept' + length (unmatched_orders ages mr') = kept + length (unmatched_orders ages mr) \<and>
    set mr \<subseteq> set mr' \<and> set mr' \<subseteq> set mr \<union> ro_OrderID ` set ages"
  using assms
proof (induction ts arbitrary: i mr mt kept)
  case (Cons t ts)
  let ?U = "unmatched_orders ages mr"
  have m: "order_matches r t ord \<longleftrightarrow> order_value ord = target_value t" if "ord \<in> set ages" for ord
    using order_matches_value Cons.prems(2,4,5) that by simp
  show ?case
  proof (cases "find (\<lambda>ord. ro_OrderID ord \<notin> set mr \<and> order_matches r t ord) ages")
    case None
    have rest: "match_loop r ages (Suc i) ts mr mt kept = (mr', mt', kept')" using Cons.prems(1) None by simp
    have "i \<notin> set mt'" using match_loop_indices[OF rest] Cons.prems(6) by auto
    moreover have "target_value t \<notin># image_mset order_value (mset ?U)"
      using None m by (auto simp: find_None_iff)
    ultimately show ?thesis using Cons.IH[OF rest Cons.prems(2-4)] Cons.prems(5,6)
      by (auto simp: less_Suc_eq diff_add_mset_swap)
  next
    case (Some ord)
    then have ord: "ord \<in> set ages" "ro_OrderID ord \<notin> set mr" "order_value ord = target_value t"
      using find_SomeD[OF Some] m by auto
    have rest: "match_loop r ages (Suc i) ts (ro_OrderID ord # mr) (i # mt) (Suc kept) = (mr', mt', kept')"
      using Cons.prems(1) Some by simp
    have i: "i \<in> set mt'" using match_loop_indices[OF rest] by auto
    note u = remove_matched[OF Cons.prems(3) ord(1,2)]
    have U: "image_mset order_value (mset ?U) =
      add_mset (target_value t) (image_mset order_value (mset (unmatched_orders ages (ro_OrderID ord # mr))))"
      using arg_cong[OF u, of "image_mset order_value"] ord(3) by simp
    have "length (unmatched_orders ages (ro_OrderID ord # mr)) + 1 = length ?U"
      using arg_cong[OF u, of size] by (simp only: size_union size_mset size_single)
    with Cons.IH[OF rest Cons.prems(2-4)] Cons.prems(5,6) i ord(1) U show ?thesis
      by (auto simp: less_Suc_eq)
  qed
qed simp

section \<open>The ledger's invariant\<close>

definition entry_ok :: "string \<Rightarrow> resting_order \<Rightarrow> bool" where
  "entry_ok k ord \<longleftrightarrow>
     ro_OrderID ord = k \<and> is_side (ro_Side ord) \<and> 0 < rv (ro_Amount ord) \<and>
     rv (ro_Amount ord) \<le> rv (ro_OriginalAmount ord) \<and> order_scales ord"

definition ledger_ok :: "ledger \<Rightarrow> bool" where
  "ledger_ok l \<longleftrightarrow> distinct (map fst l) \<and> (\<forall>(k, ord)\<in>set l. entry_ok k ord)"

lemma ledger_ok_Nil [simp]: "ledger_ok []"
  by (simp add: ledger_ok_def)

lemma set_update_subset: "set (AList.update k v l) \<subseteq> insert (k, v) (set l)"
  by (induction l) auto

lemma set_delete_subset: "set (AList.delete k l) \<subseteq> set l"
  by (auto simp: AList.delete_eq)

lemma ledger_ok_update: "ledger_ok l \<Longrightarrow> entry_ok k ord \<Longrightarrow> ledger_ok (AList.update k ord l)"
  using set_update_subset[of k ord l] by (auto simp: ledger_ok_def distinct_update)

lemma ledger_ok_delete: "ledger_ok l \<Longrightarrow> ledger_ok (AList.delete k l)"
  using set_delete_subset[of k l] by (auto simp: ledger_ok_def distinct_delete)

lemma ledger_ok_lookup: "ledger_ok l \<Longrightarrow> map_of l k = Some ord \<Longrightarrow> entry_ok k ord"
  by (auto simp: ledger_ok_def dest: map_of_SomeD)

lemma ledger_ok_deleteRestingIfUnchanged: "ledger_ok l \<Longrightarrow> ledger_ok (deleteRestingIfUnchanged l ord)"
  by (auto simp: deleteRestingIfUnchanged_def ledger_ok_delete split: option.splits)

lemma ledger_ok_add_if_absent:
  "ledger_ok l \<Longrightarrow> entry_ok (ro_OrderID p) p \<Longrightarrow> ledger_ok (add_if_absent l p)"
  by (simp add: add_if_absent_def ledger_ok_update)

lemma foldl_invariant: "P s \<Longrightarrow> (\<And>s x. P s \<Longrightarrow> x \<in> set xs \<Longrightarrow> P (f s x)) \<Longrightarrow> P (foldl f s xs)"
  by (induction xs arbitrary: s) auto

lemma parse_positive_Some:
  "parse_positive s = Some d \<Longrightarrow> 0 < rv d \<and> scale_ok d"
  by (auto simp: parse_positive_def IsPositive_iff ParseDecimal_scale_ok split: sum.splits if_splits)

lemma GreaterThan_rv: "scale_ok a \<Longrightarrow> scale_ok b \<Longrightarrow> GreaterThan a b \<longleftrightarrow> rv b < rv a"
  by (simp add: GreaterThan_def Cmp_rv)

lemma LessThan_rv: "scale_ok a \<Longrightarrow> scale_ok b \<Longrightarrow> LessThan a b \<longleftrightarrow> rv a < rv b"
  by (simp add: LessThan_def Cmp_rv)

lemma ledger_ok_new: "ledger_ok l \<Longrightarrow> ledger_ok (apply_new ordID side evt l)"
  by (auto simp: apply_new_def entry_ok_def order_scales_def dest!: parse_positive_Some
      intro!: ledger_ok_update split: option.splits)

lemma amended_remaining_ok:
  assumes "amended_remaining evt original = Remaining d" "0 < rv original" "scale_ok original"
  shows "0 < rv d \<and> rv d \<le> rv original \<and> scale_ok d"
  using assms GreaterThan_rv[OF ParseDecimal_scale_ok assms(3)]
  by (auto simp: amended_remaining_def IsPositive_iff ParseDecimal_scale_ok split: if_splits sum.splits)

lemma ledger_ok_amended:
  assumes "ledger_ok l"
  shows "ledger_ok (apply_amended ordID side evt l)"
proof -
  have "ledger_ok (case amended_remaining evt q of BadRemaining \<Rightarrow> l | NothingLeft \<Rightarrow> AList.delete ordID l
      | Remaining rem \<Rightarrow> (case map_of l ordID of
          Some current \<Rightarrow> if oe_Side evt \<noteq> [] \<and> \<not> is_side side then l
            else let c1 = current\<lparr>ro_Price := p, ro_Amount := rem, ro_OriginalAmount := q\<rparr>;
                     c2 = (if oe_ClientOrderID evt \<noteq> [] then c1\<lparr>ro_ClientOrderID := oe_ClientOrderID evt\<rparr> else c1);
                     c3 = (if oe_Side evt \<noteq> [] then c2\<lparr>ro_Side := side\<rparr> else c2)
                 in AList.update ordID c3 l
        | None \<Rightarrow> if is_side side then AList.update ordID \<lparr>ro_OrderID = ordID,
            ro_ClientOrderID = oe_ClientOrderID evt, ro_Side = side, ro_Price = p, ro_Amount = rem,
            ro_OriginalAmount = q\<rparr> l else l))"
    if "parse_positive (oe_Price evt) = Some p" "parse_positive (oe_Quantity evt) = Some q" for p q
    using assms parse_positive_Some[OF that(1)] parse_positive_Some[OF that(2)] amended_remaining_ok[of evt q]
    by (auto simp: Let_def entry_ok_def order_scales_def intro!: ledger_ok_update ledger_ok_delete
        dest: ledger_ok_lookup split: remaining_qty.splits option.splits)
  then show ?thesis using assms by (auto simp: apply_amended_def split: option.splits)
qed

lemma ledger_ok_partial:
  assumes "ledger_ok l"
  shows "ledger_ok (apply_partial ordID side evt l)"
proof (cases "ParseDecimal (oe_RemainingQty evt)")
  case (Inr d)
  have d: "scale_ok d" using Inr by (rule ParseDecimal_scale_ok)
  have "entry_ok ordID (current\<lparr>ro_Amount := d\<rparr>)"
    if "map_of l ordID = Some current" "IsPositive d" "\<not> GreaterThan d (ro_OriginalAmount current)" for current
    using ledger_ok_lookup[OF assms that(1)] that(2,3) d
    by (auto simp: entry_ok_def order_scales_def IsPositive_iff GreaterThan_rv)
  moreover have "rv d \<le> rv q" if "parse_positive x = Some q" "\<not> LessThan q d" for x q
    using that d parse_positive_Some[OF that(1)] by (simp add: LessThan_rv)
  ultimately show ?thesis using assms Inr d
    by (auto simp: apply_partial_def Let_def entry_ok_def order_scales_def IsPositive_iff
        dest: parse_positive_Some intro!: ledger_ok_update ledger_ok_delete split: option.splits)
qed (use assms in \<open>simp add: apply_partial_def\<close>)

lemma ledger_ok_event: "ledger_ok l \<Longrightarrow> ledger_ok (apply_event symbol l evt)"
  by (simp add: apply_event_def Let_def ledger_ok_new ledger_ok_amended ledger_ok_partial ledger_ok_delete)

lemma ledger_ok_events: "ledger_ok l \<Longrightarrow> ledger_ok (apply_events symbol evts l)"
  unfolding apply_events_def by (rule foldl_invariant) (auto intro: ledger_ok_event)

lemma hydrate_order_ok:
  assumes "hydrate_order symbol ord = Some (k, v)"
  shows "entry_ok k v"
proof -
  have "0 < rv a \<and> rv a \<le> rv q \<and> scale_ok a"
    if "a = (case lo_ExecutedAmount ord of
          Some executed \<Rightarrow> (case parse_positive executed of Some e \<Rightarrow> Sub q e | None \<Rightarrow> q)
        | None \<Rightarrow> q)" "IsPositive a" "ParseDecimal w = Inr q" for a q w
  proof -
    have q: "scale_within 1000 q" using ParseDecimal_Inr[OF that(3)] by simp
    have "rv (Sub q e) \<le> rv q \<and> scale_ok (Sub q e)" if "parse_positive x = Some e" for x e
    proof -
      have "ParseDecimal x = Inr e" using that by (auto simp: parse_positive_def split: sum.splits if_splits)
      then have "scale_within 1000 e" using ParseDecimal_Inr by blast
      then show ?thesis using q scale_within_Add(2)[of 1000 q e] scale_within_ok[of 1000] Sub_rv[of q e]
          parse_positive_Some[OF that] by auto
    qed
    then show ?thesis using that q scale_within_ok[of 1000 q] by (auto simp: IsPositive_iff split: option.splits)
  qed
  then show ?thesis using assms
    by (auto simp: hydrate_order_def Let_def entry_ok_def order_scales_def is_side_def SideBuy_def
        SideSell_def ParseDecimal_scale_ok split: if_splits option.splits sum.splits)
qed

lemma ledger_ok_hydrate: "ledger_ok (hydrate_ledger symbol orders)"
  unfolding hydrate_ledger_def
  by (rule foldl_invariant) (auto intro: ledger_ok_update hydrate_order_ok split: option.splits)

section \<open>The plan\<close>

definition ledger_values :: "ledger \<Rightarrow> quote_value multiset" where
  "ledger_values l = image_mset order_value (mset (map snd l))"

definition target_values :: "desired_quote list \<Rightarrow> quote_value multiset" where
  "target_values ts = image_mset target_value (mset ts)"

lemma ages_mset: "mset (restingOrdersByAge l) = mset (map snd l)"
  by (simp add: restingOrdersByAge_def)

lemma ledger_ids: "ledger_ok l \<Longrightarrow> map ro_OrderID (map snd l) = map fst l"
  by (induction l) (auto simp: ledger_ok_def entry_ok_def)

lemma ages_distinct: "ledger_ok l \<Longrightarrow> distinct (map ro_OrderID (restingOrdersByAge l))"
  using ledger_ids[of l] ages_mset[of l] by (metis mset_eq_imp_distinct_iff ledger_ok_def mset_map)

lemma ledger_scales: "ledger_ok l \<Longrightarrow> ord \<in> snd ` set l \<Longrightarrow> order_scales ord"
  by (auto simp: ledger_ok_def entry_ok_def)

lemma filter_ledger_ids:
  "ledger_ok l \<Longrightarrow> map snd (filter (\<lambda>(k, _). P k) l) = filter (\<lambda>ord. P (ro_OrderID ord)) (map snd l)"
  by (induction l) (auto simp: ledger_ok_def entry_ok_def)

lemma plan_sync_values:
  assumes "ledger_ok (qr_resting r)" "no_tolerance r" "\<forall>t\<in>set ts. target_scales t"
  shows "image_mset order_value (mset (pl_cancel (plan_sync r ts))) =
      ledger_values (qr_resting r) - target_values ts"
    "target_values (pl_place (plan_sync r ts)) = target_values ts - ledger_values (qr_resting r)"
    "pl_kept (plan_sync r ts) + length (pl_place (plan_sync r ts)) = length ts"
    "pl_kept (plan_sync r ts) + length (pl_cancel (plan_sync r ts)) = length (qr_resting r)"
proof -
  let ?l = "qr_resting r" and ?ages = "restingOrdersByAge (qr_resting r)"
  obtain mr mt kept where m: "match_loop r ?ages 0 ts [] [] 0 = (mr, mt, kept)" by (metis prod_cases3)
  have sc: "\<forall>ord\<in>set ?ages. order_scales ord"
    using ledger_scales[OF assms(1)] ages_mset[of ?l] by (metis list.set_map set_mset_mset)
  note v = match_loop_values[OF m assms(2) ages_distinct[OF assms(1)] sc assms(3)]
  have c: "mset (pl_cancel (plan_sync r ts)) = mset (unmatched_orders ?ages mr)"
    using m filter_ledger_ids[OF assms(1), of "\<lambda>k. k \<notin> set mr"] ages_mset[of ?l]
    by (simp add: plan_sync_def Let_def)
  have p: "pl_place (plan_sync r ts) = unmatched_targets 0 ts mt" "pl_kept (plan_sync r ts) = kept"
    using m by (simp_all add: plan_sync_def Let_def)
  have a: "length ?ages = length ?l" using arg_cong[OF ages_mset[of ?l], of size] by (simp only: size_mset length_map)
  show "image_mset order_value (mset (pl_cancel (plan_sync r ts))) = ledger_values ?l - target_values ts"
    "target_values (pl_place (plan_sync r ts)) = target_values ts - ledger_values ?l"
    "pl_kept (plan_sync r ts) + length (pl_place (plan_sync r ts)) = length ts"
    using v by (simp_all add: c p ledger_values_def target_values_def ages_mset)
  have "length (pl_cancel (plan_sync r ts)) = length (unmatched_orders ?ages mr)"
    using arg_cong[OF c, of size] by (simp only: size_mset)
  then show "pl_kept (plan_sync r ts) + length (pl_cancel (plan_sync r ts)) = length ?l"
    using v p(2) a by simp
qed

section \<open>The phases\<close>

definition cancel_proved :: "string option \<Rightarrow> cancel_exchange \<Rightarrow> nat \<Rightarrow> resting_order \<Rightarrow> bool" where
  "cancel_proved acct exchange i ord \<longleftrightarrow>
     (\<exists>n res. ParseUint64 (ro_OrderID ord) = Some n \<and>
        exchange i ''/v1/order/cancel'' \<lparr>co_Account = acct, co_Nonce = [], co_OrderId = n, co_Request = []\<rparr> = Inr res \<and>
        validateCancelResponse (Some res) = None)"

lemma cancel_one_cases:
  "(\<exists>e. ws_errors (cancel_one acct ex i ord st) = ws_errors st @ [e]) \<or>
   (ws_errors (cancel_one acct ex i ord st) = ws_errors st \<and> cancel_proved acct ex i ord \<and>
    ws_good (cancel_one acct ex i ord st) = ws_good st @ [ord])"
  by (auto simp: cancel_one_def cancel_proved_def CancelOrder_def Let_def split: option.splits sum.splits)

lemma cancel_one_sent:
  "\<exists>qs. ws_sent (cancel_one acct ex i ord st) = ws_sent st @ map SentCancel qs"
  by (auto simp: cancel_one_def Let_def split: option.splits intro: exI[of _ "[]"] exI[of _ "[q]" for q])

lemma cancel_quote_cases:
  "(\<exists>e. ws_errors (cancel_quote acct ph ex i ord st) = ws_errors st @ [e]) \<or>
   (ws_errors (cancel_quote acct ph ex i ord st) = ws_errors st \<and> cancel_proved acct ex i ord \<and>
    ws_good (cancel_quote acct ph ex i ord st) = ws_good st @ [ord])"
  using cancel_one_cases[of acct ex i ord st] by (auto simp: cancel_quote_def split: option.splits)

lemma cancel_quote_sent:
  "\<exists>qs. ws_sent (cancel_quote acct ph ex i ord st) = ws_sent st @ map SentCancel qs"
  using cancel_one_sent[of acct ex i ord st]
  by (auto simp: cancel_quote_def split: option.splits intro: exI[of _ "[]"])

text \<open>A phase without an error: every item of the schedule succeeded, in schedule order.\<close>

lemma work_fold_ok:
  assumes step: "\<And>i st. (\<exists>e. ws_errors (f i st) = ws_errors st @ [e]) \<or>
      (ws_errors (f i st) = ws_errors st \<and> (\<exists>g. ws_good (f i st) = ws_good st @ [g] \<and> ok i g))"
    and "ws_errors (foldl (\<lambda>st i. f i st) st order) = []"
  shows "ws_errors st = [] \<and>
    (\<exists>gs. ws_good (foldl (\<lambda>st i. f i st) st order) = ws_good st @ gs \<and> list_all2 ok order gs)"
  using assms(2)
proof (induction order arbitrary: st)
  case (Cons i order)
  from Cons.IH[of "f i st"] Cons.prems obtain gs where
    e: "ws_errors (f i st) = []" and
    g: "ws_good (foldl (\<lambda>st i. f i st) (f i st) order) = ws_good (f i st) @ gs" "list_all2 ok order gs"
    by auto
  then obtain g' where "ws_errors st = []" "ws_good (f i st) = ws_good st @ [g']" "ok i g'"
    using step[where i = i and st = st] by auto
  then show ?case using g by (intro conjI exI[of _ "g' # gs"]) simp_all
qed simp

lemma foldl_sent:
  assumes "\<And>i st. \<exists>qs. ws_sent (f i st) = ws_sent st @ map g qs"
  shows "\<exists>qs. ws_sent (foldl (\<lambda>st i. f i st) st order) = ws_sent st @ map g qs"
proof (induction order arbitrary: st)
  case (Cons i order)
  obtain a b where "ws_sent (f i st) = ws_sent st @ map g a"
    "ws_sent (foldl (\<lambda>st i. f i st) (f i st) order) = ws_sent (f i st) @ map g b"
    using assms Cons.IH by blast
  then show ?case by (auto intro: exI[of _ "a @ b"])
qed (auto intro: exI[of _ "[]"])

lemma schedule_items:
  assumes "valid_schedule (length items) order False"
  shows "mset (map ((!) items) order) = mset items"
proof -
  have "mset (map ((!) items) order) = image_mset ((!) items) (mset [0..<length items])"
    using valid_scheduleD(3)[OF assms] by simp
  also have "\<dots> = mset (map ((!) items) [0..<length items])" by (simp only: mset_map)
  finally show ?thesis by (simp only: map_nth)
qed

lemma cancel_phase_ok:
  assumes "ws_errors (cancel_phase r ph ex items) = []"
    and "valid_schedule (length items) (ph_order ph) (ph_done ph \<noteq> None)"
  shows "mset (ws_good (cancel_phase r ph ex items)) = mset items \<and>
    (\<forall>i<length items. cancel_proved (accountPointer r) ex i (items ! i))"
proof (cases "items = []")
  case False
  let ?f = "\<lambda>i st. cancel_quote (accountPointer r) ph ex i (items ! i) st"
  let ?st = "foldl (\<lambda>st i. ?f i st) empty_work (ph_order ph)"
  have d: "ph_done ph = None" and c: "cancel_phase r ph ex items = ?st"
    using assms(1) False by (auto simp: cancel_phase_def runBounded_def split: option.splits)
  have v: "valid_schedule (length items) (ph_order ph) False" using assms(2) d by simp
  let ?ok = "\<lambda>i g. g = items ! i \<and> cancel_proved (accountPointer r) ex i (items ! i)"
  obtain gs where g: "ws_good ?st = gs" "list_all2 ?ok (ph_order ph) gs"
    using work_fold_ok[of ?f ?ok empty_work "ph_order ph"] cancel_quote_cases[of "accountPointer r" ph ex] assms(1) c
    by (fastforce simp: empty_work_def)
  then have "gs = map ((!) items) (ph_order ph)"
    by (auto simp: list_all2_conv_all_nth intro!: nth_equalityI)
  moreover have "cancel_proved (accountPointer r) ex i (items ! i)" if "i < length items" for i
  proof -
    have "i \<in> set (ph_order ph)" using v that by (simp add: valid_schedule_def)
    then show ?thesis using g(2) by (auto simp: list_all2_conv_all_nth in_set_conv_nth)
  qed
  ultimately show ?thesis using g(1) schedule_items[OF v] c by simp
qed (simp add: cancel_phase_def runBounded_def empty_work_def)

lemma cancel_phase_sent: "\<exists>qs. ws_sent (cancel_phase r ph ex items) = map SentCancel qs"
proof -
  have "\<exists>qs. ws_sent (foldl (\<lambda>st i. cancel_quote (accountPointer r) ph ex i (items ! i) st) empty_work (ph_order ph)) =
      ws_sent (empty_work :: resting_order work_state) @ map SentCancel qs"
    by (rule foldl_sent[where f = "\<lambda>i st. cancel_quote (accountPointer r) ph ex i (items ! i) st"])
      (rule cancel_quote_sent)
  then show ?thesis
    by (cases "ph_done ph") (auto simp: cancel_phase_def runBounded_def empty_work_def intro: exI[of _ "[]"])
qed

section \<open>Placement\<close>

lemma build_order_fields:
  "no_StopPrice (quote_request r t) = None" "no_Type (quote_request r t) = TypeExchangeLimit"
  "no_Options (quote_request r t) = Some [MakerOrCancel]" "no_Symbol (quote_request r t) = qr_symbol r"
  "no_Price (quote_request r t) = DecimalString (dq_Price t)"
  "no_Amount (quote_request r t) = DecimalString (dq_Amount t)"
  "no_Account (quote_request r t) = accountPointer r"
  by (simp_all add: quote_request_def build_order_def quote_options_def WithClientOrderID_def
      withOrderAccount_def accountPointer_def)

lemma quote_request_valid: "validateNewOrderRequest (Some (quote_request r t)) = None"
  by (simp add: validateNewOrderRequest_def build_order_fields TypeExchangeLimit_def TypeExchangeStopLimit_def)

lemma post_only_result:
  assumes "is_side (dq_Side t)"
  shows "(if dq_Side t = ''buy'' then PostOnlyBid ex (qr_symbol r) (dq_Amount t) (dq_Price t) (quote_options r t)
     else if dq_Side t = ''sell'' then PostOnlyAsk ex (qr_symbol r) (dq_Amount t) (dq_Price t) (quote_options r t)
     else Inl err) = ex ''/v1/order/new'' (quote_request r t)"
  using assms quote_request_valid[of r t]
  by (auto simp: is_side_def PostOnlyBid_def PostOnlyAsk_def buildAndExecuteOrder_def NewOrder_def quote_request_def)

definition placed_for :: "quote_reconciler \<Rightarrow> place_exchange \<Rightarrow> nat \<Rightarrow> desired_quote \<Rightarrow> resting_order \<Rightarrow> bool" where
  "placed_for r ex i t ord \<longleftrightarrow>
     ro_Side ord = dq_Side t \<and> ro_Price ord = dq_Price t \<and> ro_Amount ord = dq_Amount t \<and>
     ro_OriginalAmount ord = dq_Amount t \<and>
     (\<exists>res. ex i ''/v1/order/new'' (quote_request r t) = Inr res \<and> lo_OrderId res = Some (ro_OrderID ord))"

lemma place_quote_cases:
  assumes "is_side (dq_Side t)"
  shows "(\<exists>e. ws_errors (place_quote r ph ex i t st) = ws_errors st @ [e]) \<or>
   (ws_errors (place_quote r ph ex i t st) = ws_errors st \<and>
    (\<exists>g. ws_good (place_quote r ph ex i t st) = ws_good st @ [g] \<and> placed_for r ex i t g))"
  unfolding place_quote_def Let_def post_only_result[OF assms]
  by (auto simp: placed_for_def split: option.splits sum.splits)

lemma place_quote_good:
  assumes "is_side (dq_Side t)"
  shows "\<exists>gs. ws_good (place_quote r ph ex i t st) = ws_good st @ gs \<and> (\<forall>g\<in>set gs. placed_for r ex i t g)"
  unfolding place_quote_def Let_def post_only_result[OF assms]
  by (auto simp: placed_for_def split: option.splits sum.splits)

lemma place_phase_ok:
  assumes "ws_errors (place_phase r ph ex items) = []" "\<forall>t\<in>set items. is_side (dq_Side t)"
    and "valid_schedule (length items) (ph_order ph) (ph_done ph \<noteq> None)"
  obtains gs where "ws_good (place_phase r ph ex items) = gs" "length gs = length (if items = [] then [] else ph_order ph)"
    "items \<noteq> [] \<Longrightarrow> list_all2 (\<lambda>i g. i < length items \<and> placed_for r ex i (items ! i) g) (ph_order ph) gs"
    "image_mset order_value (mset gs) = target_values items"
proof (cases "items = []")
  case True
  then show thesis by (intro that[of "[]"]) (simp_all add: place_phase_def runBounded_def empty_work_def target_values_def)
next
  case False
  let ?f = "\<lambda>i st. place_quote r ph ex i (items ! i) st"
  let ?st = "foldl (\<lambda>st i. ?f i st) empty_work (ph_order ph)"
  have d: "ph_done ph = None" and c: "place_phase r ph ex items = ?st"
    using assms(1) False by (auto simp: place_phase_def runBounded_def split: option.splits)
  have v: "valid_schedule (length items) (ph_order ph) False" using assms(3) d by simp
  have lt: "i < length items" if "i \<in> set (ph_order ph)" for i using valid_scheduleD(2)[OF v] that .
  let ?ok = "\<lambda>i g. i < length items \<and> placed_for r ex i (items ! i) g"
  let ?fg = "\<lambda>i st. if i < length items then ?f i st else st\<lparr>ws_errors := ws_errors st @ [EMsg []]\<rparr>"
  have same: "foldl (\<lambda>st i. ?fg i st) st order = foldl (\<lambda>st i. ?f i st) st order"
    if "\<forall>i\<in>set order. i < length items" for st order
    using that by (induction order arbitrary: st) auto
  then have eq: "foldl (\<lambda>st i. ?fg i st) empty_work (ph_order ph) = ?st" using lt by blast
  have step: "(\<exists>e. ws_errors (?fg i st) = ws_errors st @ [e]) \<or>
      (ws_errors (?fg i st) = ws_errors st \<and> (\<exists>g. ws_good (?fg i st) = ws_good st @ [g] \<and> ?ok i g))" for i st
    using place_quote_cases[of "items ! i" r ph ex i st] assms(2) by auto
  have "ws_errors (foldl (\<lambda>st i. ?fg i st) empty_work (ph_order ph)) = []" using assms(1) eq c by simp
  from work_fold_ok[of ?fg ?ok, OF step this] obtain gs where g: "ws_good ?st = gs" "list_all2 ?ok (ph_order ph) gs"
    unfolding eq by (auto simp: empty_work_def)
  have "map order_value gs = map target_value (map ((!) items) (ph_order ph))"
    using g(2) by (auto simp: list_all2_conv_all_nth placed_for_def order_value_def target_value_def
        intro!: nth_equalityI)
  then have "image_mset order_value (mset gs) = image_mset target_value (mset (map ((!) items) (ph_order ph)))"
    by (metis mset_map)
  then have "image_mset order_value (mset gs) = target_values items"
    unfolding target_values_def schedule_items[OF v] .
  then show thesis using that[of gs] g c False list_all2_lengthD[OF g(2)] by simp
qed

section \<open>The ledger after a phase\<close>

text \<open>Without concurrent events the confirmed cancellations are removed and nothing else.\<close>

lemma foldl_delete:
  assumes "ledger_ok l" "\<forall>ord\<in>set gs. map_of l (ro_OrderID ord) = Some ord" "distinct (map ro_OrderID gs)"
  shows "foldl deleteRestingIfUnchanged l gs = filter (\<lambda>(k, _). k \<notin> ro_OrderID ` set gs) l"
  using assms
proof (induction gs arbitrary: l)
  case (Cons g gs)
  have d: "deleteRestingIfUnchanged l g = AList.delete (ro_OrderID g) l"
    using Cons.prems(2) by (simp add: deleteRestingIfUnchanged_def)
  have m: "map_of (AList.delete (ro_OrderID g) l) (ro_OrderID ord) = Some ord" if "ord \<in> set gs" for ord
  proof -
    have "ro_OrderID ord \<noteq> ro_OrderID g" using Cons.prems(3) that by (auto simp: image_iff)
    then show ?thesis using Cons.prems(2) that by (simp add: AList.delete_conv')
  qed
  have "foldl deleteRestingIfUnchanged (AList.delete (ro_OrderID g) l) gs =
    filter (\<lambda>(k, _). k \<notin> ro_OrderID ` set gs) (AList.delete (ro_OrderID g) l)"
    using Cons.prems m by (intro Cons.IH ledger_ok_delete) simp_all
  also have "\<dots> = filter (\<lambda>(k, _). k \<notin> ro_OrderID ` set (g # gs)) l"
    by (auto simp: AList.delete_eq intro!: filter_cong)
  finally show ?case by (simp add: d)
qed simp

lemma foldl_add:
  assumes "distinct (map ro_OrderID gs)" "\<forall>ord\<in>set gs. ro_OrderID ord \<notin> fst ` set l"
  shows "foldl add_if_absent l gs = l @ map (\<lambda>ord. (ro_OrderID ord, ord)) gs"
  using assms
proof (induction gs arbitrary: l)
  case (Cons g gs)
  have u: "add_if_absent l g = l @ [(ro_OrderID g, g)]"
  proof -
    have n: "ro_OrderID g \<notin> fst ` set l" using Cons.prems(2) by simp
    then have "map_of l (ro_OrderID g) = None" by (simp add: map_of_eq_None_iff)
    moreover have "AList.update (ro_OrderID g) g l = l @ [(ro_OrderID g, g)]"
      using n by (induction l) auto
    ultimately show ?thesis by (simp add: add_if_absent_def)
  qed
  have "foldl add_if_absent (l @ [(ro_OrderID g, g)]) gs =
    (l @ [(ro_OrderID g, g)]) @ map (\<lambda>ord. (ro_OrderID ord, ord)) gs"
    using Cons.prems by (intro Cons.IH) (auto simp: image_iff)
  then show ?case by (simp add: u)
qed simp

end
