(* ===== verification/SyncProps.thy ===== *)
theory SyncProps
  imports SyncSpec
begin

text \<open>
  The properties of the quote reconciler: its ledger invariant, the plan of a cycle as a multiset
  difference, the order of its two phases, its convergence, and the duplicate quotes it misses.
\<close>

section \<open>Quantised targets\<close>

definition small_scale :: "decimal \<Rightarrow> bool" where
  "small_scale d \<longleftrightarrow> \<bar>dscale (ensureInit d)\<bar> \<le> 1000"

definition settings_ok :: "quote_reconciler \<Rightarrow> bool" where
  "settings_ok r \<longleftrightarrow> small_scale (qr_tickSize r) \<and> small_scale (qr_lotSize r)"

lemma Div_scale: "Div d e (Some p) = Inr q \<Longrightarrow> 0 \<le> p \<Longrightarrow> scale_within p q"
  by (auto simp: Div_def Let_def split: if_splits intro!: scale_within_normalize)
    (simp_all add: scale_within_def)

lemma RoundToTick_scale: "scale_ok d \<Longrightarrow> small_scale t \<Longrightarrow> scale_ok (RoundToTick d t)"
proof -
  assume a: "scale_ok d" "small_scale t"
  have "scale_ok (Mul q t)" "scale_ok (Mul (Sub q one_decimal) t)" if "Div d t (Some 0) = Inr q" for q
    using Div_scale[OF that] scale_within_Add(2)[of 0 q one_decimal] a(2) scale_ok_Mul_unit
    by (simp_all add: small_scale_def)
  then show ?thesis using a(1) by (auto simp: RoundToTick_def Let_def split: sum.splits)
qed

lemma clean_target_ok:
  assumes "clean_target r t = Inr q" "target_scales t" "settings_ok r"
  shows "target_scales q \<and> is_side (dq_Side q) \<and> 0 < rv (dq_Price q) \<and> 0 < rv (dq_Amount q)"
  using assms RoundToTick_scale
  by (auto simp: clean_target_def Let_def target_scales_def settings_ok_def is_side_def IsPositive_iff
      QuantizePrice_def QuantizeAmount_def split: if_splits)

lemma normalize_loop_ok:
  assumes "normalize_loop r seen ts = Inr qs" "\<forall>t\<in>set ts. target_scales t" "settings_ok r"
  shows "\<forall>q\<in>set qs. target_scales q \<and> is_side (dq_Side q) \<and> 0 < rv (dq_Price q) \<and> 0 < rv (dq_Amount q)"
  using assms
proof (induction r seen ts arbitrary: qs rule: normalize_loop.induct)
  case (2 r seen t ts)
  then show ?case using clean_target_ok[of r t] by (fastforce split: sum.splits if_splits)
qed simp

lemma normalizeTargets_ok:
  assumes "normalizeTargets r ts = Inr qs" "\<forall>t\<in>set ts. target_scales t" "settings_ok r"
  shows "\<forall>q\<in>set qs. target_scales q \<and> is_side (dq_Side q) \<and> 0 < rv (dq_Price q) \<and> 0 < rv (dq_Amount q)"
  using assms normalize_loop_ok by (auto simp: normalizeTargets_def split: if_splits)

lemma pl_place_subset: "set (pl_place (plan_sync r ts)) \<subseteq> set ts"
  by (auto simp: plan_sync_def Let_def in_set_enumerate_eq split: prod.splits)

lemma pl_cancel_subset: "set (pl_cancel (plan_sync r ts)) \<subseteq> snd ` set (qr_resting r)"
  by (auto simp: plan_sync_def Let_def split: prod.splits)

section \<open>What the phases add to the ledger\<close>

lemma place_phase_good:
  assumes "\<forall>t\<in>set items. is_side (dq_Side t)" "\<forall>i\<in>set (ph_order ph). i < length items"
  shows "\<forall>g\<in>set (ws_good (place_phase r ph ex items)). \<exists>i<length items. placed_for r ex i (items ! i) g"
proof (cases "items = []")
  case False
  let ?P = "\<lambda>st :: resting_order work_state. \<forall>g\<in>set (ws_good st). \<exists>i<length items. placed_for r ex i (items ! i) g"
  have "?P (foldl (\<lambda>st i. place_quote r ph ex i (items ! i) st) empty_work (ph_order ph))"
  proof (rule foldl_invariant[where P = ?P])
    fix st i assume a: "?P st" "i \<in> set (ph_order ph)"
    then have i: "i < length items" using assms(2) by blast
    then have "is_side (dq_Side (items ! i))" using assms(1) by simp
    from place_quote_good[OF this, of r ph ex i st] a(1) i
    show "?P (place_quote r ph ex i (items ! i) st)" by auto
  qed (simp add: empty_work_def)
  then show ?thesis using False by (cases "ph_done ph") (simp_all add: place_phase_def runBounded_def)
qed (simp add: place_phase_def runBounded_def empty_work_def)

lemma place_phase_sent:
  "\<exists>qs. ws_sent (place_phase r ph ex items) = map (SentOrder \<circ> quote_request r) qs"
proof -
  have step: "\<exists>qs. ws_sent (place_quote r ph ex i t st) = ws_sent st @ map (SentOrder \<circ> quote_request r) qs"
    for i t st
    by (auto simp: place_quote_def Let_def split: option.splits sum.splits
        intro: exI[of _ "[]"] exI[of _ "[t]"])
  have "\<exists>qs. ws_sent (foldl (\<lambda>st i. place_quote r ph ex i (items ! i) st) empty_work (ph_order ph)) =
      ws_sent (empty_work :: resting_order work_state) @ map (SentOrder \<circ> quote_request r) qs"
    by (rule foldl_sent[where f = "\<lambda>i st. place_quote r ph ex i (items ! i) st"]) (rule step)
  then show ?thesis
    by (cases "ph_done ph") (auto simp: place_phase_def runBounded_def empty_work_def intro: exI[of _ "[]"])
qed

lemma ledger_ok_deletes: "ledger_ok l \<Longrightarrow> ledger_ok (foldl deleteRestingIfUnchanged l gs)"
  by (rule foldl_invariant[where P = ledger_ok]) (auto intro: ledger_ok_deleteRestingIfUnchanged)

lemma placed_entry_ok:
  assumes "placed_for r ex i t g" "target_scales t" "is_side (dq_Side t)" "0 < rv (dq_Amount t)"
  shows "entry_ok (ro_OrderID g) g"
  using assms by (auto simp: placed_for_def entry_ok_def order_scales_def target_scales_def)

lemma ledger_ok_adds:
  assumes "ledger_ok l" "\<forall>g\<in>set gs. entry_ok (ro_OrderID g) g"
  shows "ledger_ok (foldl add_if_absent l gs)"
  by (rule foldl_invariant[where P = ledger_ok]) (use assms in \<open>auto intro: ledger_ok_add_if_absent\<close>)

section \<open>A cycle that succeeds\<close>

definition schedule_ok :: "phase \<Rightarrow> nat \<Rightarrow> bool" where
  "schedule_ok ph n \<longleftrightarrow> valid_schedule n (ph_order ph) (ph_done ph \<noteq> None)"

lemma schedule_ok_bounds: "schedule_ok ph n \<Longrightarrow> \<forall>i\<in>set (ph_order ph). i < n"
  unfolding schedule_ok_def using valid_scheduleD(2) by blast

text \<open>The exchange never hands out an order id twice.\<close>

definition fresh_ids :: "quote_reconciler \<Rightarrow> place_exchange \<Rightarrow> bool" where
  "fresh_ids r place \<longleftrightarrow>
     (\<forall>i p q res x. place i p q = Inr res \<and> lo_OrderId res = Some x \<longrightarrow> x \<notin> fst ` set (qr_resting r)) \<and>
     (\<forall>i j p p' q q' a b x. i \<noteq> j \<and> place i p q = Inr a \<and> place j p' q' = Inr b \<and> lo_OrderId a = Some x \<longrightarrow>
        lo_OrderId b \<noteq> Some x)"

lemma clean_target_resting: "clean_target (r\<lparr>qr_resting := l\<rparr>) t = clean_target r t"
proof -
  have "qr_tickSize (r\<lparr>qr_resting := l\<rparr>) = qr_tickSize r" "qr_lotSize (r\<lparr>qr_resting := l\<rparr>) = qr_lotSize r"
    by simp_all
  then show ?thesis unfolding clean_target_def by (simp only:)
qed

lemma normalize_loop_resting: "normalize_loop (r\<lparr>qr_resting := l\<rparr>) seen ts = normalize_loop r seen ts"
  by (induction ts arbitrary: seen) (simp_all add: clean_target_resting split: sum.split)

lemma normalizeTargets_resting: "normalizeTargets (r\<lparr>qr_resting := l\<rparr>) ts = normalizeTargets r ts"
  by (simp add: normalizeTargets_def normalize_loop_resting)

lemma normalize_loop_length: "normalize_loop r seen ts = Inr qs \<Longrightarrow> length qs = length ts"
proof (induction ts arbitrary: seen qs)
  case (Cons t ts)
  then show ?case by (fastforce split: sum.splits if_splits)
qed simp

lemma normalizeTargets_length: "normalizeTargets r ts = Inr qs \<Longrightarrow> length qs = length ts"
  by (auto simp: normalizeTargets_def normalize_loop_length split: if_splits)

text \<open>The ledger after the confirmed cancellations of a plan: exactly the orders it keeps.\<close>

lemma cancelled_ledger:
  assumes "ledger_ok (qr_resting r)" "mset gs = mset (pl_cancel (plan_sync r ts))"
  shows "ledger_values (foldl deleteRestingIfUnchanged (qr_resting r) gs) +
      image_mset order_value (mset (pl_cancel (plan_sync r ts))) = ledger_values (qr_resting r)"
    "set (foldl deleteRestingIfUnchanged (qr_resting r) gs) \<subseteq> set (qr_resting r)"
proof -
  let ?l = "qr_resting r"
  obtain mr mt kept where m: "match_loop r (restingOrdersByAge ?l) 0 ts [] [] 0 = (mr, mt, kept)"
    by (metis prod_cases3)
  have c: "pl_cancel (plan_sync r ts) = map snd (filter (\<lambda>(k, _). k \<notin> set mr) ?l)"
    using m by (simp add: plan_sync_def Let_def)
  have ids: "map ro_OrderID (pl_cancel (plan_sync r ts)) = map fst (filter (\<lambda>(k, _). k \<notin> set mr) ?l)"
    using assms(1) unfolding c by (auto simp: ledger_ok_def entry_ok_def)
  have d: "distinct (map fst ?l)" using assms(1) by (simp add: ledger_ok_def)
  have set_gs: "set gs = set (pl_cancel (plan_sync r ts))" using assms(2) by (metis set_mset_mset)
  have "distinct (map ro_OrderID (pl_cancel (plan_sync r ts)))"
    unfolding ids using d by (rule distinct_map_filter)
  then have dg: "distinct (map ro_OrderID gs)" using assms(2) by (metis mset_eq_imp_distinct_iff mset_map)
  have mo: "\<forall>ord\<in>set gs. map_of ?l (ro_OrderID ord) = Some ord"
  proof
    fix ord assume "ord \<in> set gs"
    then obtain k where "(k, ord) \<in> set ?l" unfolding set_gs c by auto
    then show "map_of ?l (ro_OrderID ord) = Some ord"
      using assms(1) by (auto simp: ledger_ok_def entry_ok_def intro!: map_of_is_SomeI)
  qed
  have ks: "ro_OrderID ` set gs = fst ` set (filter (\<lambda>(k, _). k \<notin> set mr) ?l)"
    using arg_cong[OF ids, of set] unfolding set_gs by simp
  have "k \<notin> ro_OrderID ` set gs \<longleftrightarrow> \<not> k \<notin> set mr" if "(k, v) \<in> set ?l" for k v
    using that unfolding ks by (auto intro: rev_image_eqI)
  then have "foldl deleteRestingIfUnchanged ?l gs = filter (\<lambda>(k, _). \<not> k \<notin> set mr) ?l"
    unfolding foldl_delete[OF assms(1) mo dg] by (intro filter_cong) auto
  moreover have "mset (filter (\<lambda>(k, _). \<not> k \<notin> set mr) ?l) + mset (filter (\<lambda>(k, _). k \<notin> set mr) ?l) = mset ?l"
    by (induction ?l) auto
  ultimately show "ledger_values (foldl deleteRestingIfUnchanged ?l gs) +
      image_mset order_value (mset (pl_cancel (plan_sync r ts))) = ledger_values ?l"
    "set (foldl deleteRestingIfUnchanged ?l gs) \<subseteq> set ?l"
    unfolding c ledger_values_def by (simp_all only: mset_map flip: image_mset_union) auto
qed

lemma distinct_placed_ids:
  assumes "list_all2 (\<lambda>i g. i < length items \<and> placed_for r ex i (items ! i) g) order gs"
    and "distinct order" "fresh_ids r ex"
  shows "distinct (map ro_OrderID gs)"
  unfolding distinct_conv_nth
proof (intro allI impI)
  fix a b assume ab: "a < length (map ro_OrderID gs)" "b < length (map ro_OrderID gs)" "a \<noteq> b"
  have l: "length order = length gs" using list_all2_lengthD[OF assms(1)] .
  have "placed_for r ex (order ! a) (items ! (order ! a)) (gs ! a)"
    "placed_for r ex (order ! b) (items ! (order ! b)) (gs ! b)"
    using list_all2_nthD[OF assms(1)] ab l by auto
  moreover have "order ! a \<noteq> order ! b" using assms(2) ab l by (simp add: nth_eq_iff_index_eq)
  ultimately have "ro_OrderID (gs ! a) \<noteq> ro_OrderID (gs ! b)"
    using assms(3) unfolding placed_for_def fresh_ids_def by metis
  then show "map ro_OrderID gs ! a \<noteq> map ro_OrderID gs ! b" using ab by simp
qed

lemma fresh_placed:
  assumes "placed_for r ex i t g" "fresh_ids r ex"
  shows "ro_OrderID g \<notin> fst ` set (qr_resting r)"
  using assms unfolding placed_for_def fresh_ids_def by metis

lemma mset_diff_cover: "C + (A - B) = A \<Longrightarrow> C + (B - A) = (B :: 'a multiset)"
proof (rule multiset_eqI)
  fix x assume "C + (A - B) = A"
  then have "count (C + (A - B)) x = count A x" by simp
  then show "count (C + (B - A)) x = count B x" by simp
qed

section \<open>Properties\<close>

text \<open>C20: The plan of a cycle is the multiset difference of desired quotes and resting orders (by side,
  price and amount value, with no tolerance configured): it cancels exactly the orders in excess,
  places exactly the quotes that are missing and keeps the largest possible number of orders.\<close>

theorem plan_is_difference:
  assumes "ledger_ok (qr_resting r)" "no_tolerance r" "\<forall>t\<in>set ts. target_scales t"
  shows "image_mset order_value (mset (pl_cancel (plan_sync r ts))) =
      ledger_values (qr_resting r) - target_values ts \<and>
    target_values (pl_place (plan_sync r ts)) = target_values ts - ledger_values (qr_resting r) \<and>
    pl_kept (plan_sync r ts) = size (target_values ts \<inter># ledger_values (qr_resting r))"
proof -
  note v = plan_sync_values[OF assms]
  have "size (target_values ts - ledger_values (qr_resting r)) = length (pl_place (plan_sync r ts))"
    using arg_cong[OF v(2), of size] by (simp add: target_values_def)
  moreover have "target_values ts =
      target_values ts \<inter># ledger_values (qr_resting r) + (target_values ts - ledger_values (qr_resting r))"
    by (rule multiset_eqI) simp
  then have "size (target_values ts) = size (target_values ts \<inter># ledger_values (qr_resting r)) +
      size (target_values ts - ledger_values (qr_resting r))"
    by (metis size_union)
  moreover have "size (target_values ts) = length ts" by (simp add: target_values_def)
  ultimately show ?thesis using v by simp
qed

text \<open>C17: A cycle never adds exposure before the old one is gone: every order it sends is a
  maker-or-cancel order sent after all its cancellations, and only when for every order of its plan
  to cancel the exchange's answer proved that order dead.\<close>

theorem no_order_before_cancels:
  assumes "SentOrder q \<in> set (so_sent (Sync r ts ph1 cancel ph2 place))" "normalizeTargets r ts = Inr clean"
    and "schedule_ok ph1 (length (pl_cancel (plan_sync r clean)))"
  shows "(\<forall>i<length (pl_cancel (plan_sync r clean)).
      cancel_proved (accountPointer r) cancel i (pl_cancel (plan_sync r clean) ! i)) \<and>
    no_Options q = Some [MakerOrCancel] \<and>
    (\<exists>cs os. so_sent (Sync r ts ph1 cancel ph2 place) = map SentCancel cs @ map SentOrder os)"
proof -
  let ?p = "plan_sync r clean"
  let ?st1 = "cancel_phase r ph1 cancel (pl_cancel ?p)" and ?st2 = "place_phase r ph2 place (pl_place ?p)"
  obtain cs where cs: "ws_sent ?st1 = map SentCancel cs" using cancel_phase_sent by blast
  obtain os where os: "ws_sent ?st2 = map (SentOrder \<circ> quote_request r) os" using place_phase_sent by blast
  have "SentOrder q \<notin> set (ws_sent ?st1)" unfolding cs by auto
  then have t: "qr_trading r" and e: "ws_errors ?st1 = []"
    and s: "so_sent (Sync r ts ph1 cancel ph2 place) = ws_sent ?st1 @ ws_sent ?st2"
    using assms(1,2) by (auto simp: Sync_def Let_def split: if_splits)
  have "SentOrder q \<in> set (ws_sent ?st2)" using assms(1) s \<open>SentOrder q \<notin> set (ws_sent ?st1)\<close> by simp
  then have "no_Options q = Some [MakerOrCancel]" unfolding os by (auto simp: build_order_fields)
  moreover have "so_sent (Sync r ts ph1 cancel ph2 place) = map SentCancel cs @ map SentOrder (map (quote_request r) os)"
    using s cs os by simp
  moreover have "\<forall>i<length (pl_cancel ?p). cancel_proved (accountPointer r) cancel i (pl_cancel ?p ! i)"
    using cancel_phase_ok[OF e] assms(3) by (simp add: schedule_ok_def)
  ultimately show ?thesis by blast
qed

text \<open>C18: Reconciliation converges in one cycle: when a cycle reports no error, with no price or amount
  tolerance configured, no event of the stream during the cycle, and an exchange that gives every order a
  fresh id, the ledger holds exactly the desired quotes, every quote was kept or placed,
  and repeating the cycle with the same quotes keeps them all and sends nothing.\<close>

theorem sync_converges:
  assumes "ledger_ok (qr_resting r)" "no_tolerance r" "settings_ok r" "\<forall>t\<in>set ts. target_scales t"
    and "normalizeTargets r ts = Inr clean" "so_result (Sync r ts ph1 cancel ph2 place) = Inr res" "rr_Errors res = []"
    and "ph_events ph1 = []" "ph_events ph2 = []"
    and "schedule_ok ph1 (length (pl_cancel (plan_sync r clean)))"
    and "schedule_ok ph2 (length (pl_place (plan_sync r clean)))" "fresh_ids r place"
  shows "ledger_values (qr_resting (so_reconciler (Sync r ts ph1 cancel ph2 place))) = target_values clean \<and>
    rr_Kept res + rr_Placed res = length ts \<and>
    (let again = Sync (so_reconciler (Sync r ts ph1 cancel ph2 place)) ts ph1' cancel' ph2' place' in
      so_sent again = [] \<and>
      so_result again = Inr \<lparr>rr_Kept = length ts, rr_Cancelled = 0, rr_Placed = 0, rr_Errors = []\<rparr>)"
proof -
  let ?p = "plan_sync r clean" and ?l = "qr_resting r"
  let ?st1 = "cancel_phase r ph1 cancel (pl_cancel ?p)" and ?st2 = "place_phase r ph2 place (pl_place ?p)"
  let ?l1 = "foldl deleteRestingIfUnchanged ?l (ws_good ?st1)"
  let ?l2 = "foldl add_if_absent ?l1 (ws_good ?st2)" and ?r2 = "r\<lparr>qr_resting := foldl add_if_absent
    (foldl deleteRestingIfUnchanged ?l (ws_good ?st1)) (ws_good ?st2)\<rparr>"
  have cl: "\<forall>q\<in>set clean. target_scales q \<and> is_side (dq_Side q) \<and> 0 < rv (dq_Price q) \<and> 0 < rv (dq_Amount q)"
    using normalizeTargets_ok[OF assms(5,4,3)] .
  then have ts: "\<forall>t\<in>set clean. target_scales t" and sd: "\<forall>t\<in>set (pl_place ?p). is_side (dq_Side t)"
    using pl_place_subset by blast+
  note v = plan_sync_values[OF assms(1,2) ts]
  have t: "qr_trading r" and e1: "ws_errors ?st1 = []" and e2: "ws_errors ?st2 = []"
    and so: "so_reconciler (Sync r ts ph1 cancel ph2 place) = ?r2"
    and res: "rr_Kept res = pl_kept ?p" "rr_Placed res = length (ws_good ?st2)"
    using assms(5-9) by (auto simp: Sync_def Let_def apply_events_def split: if_splits)
  have m1: "mset (ws_good ?st1) = mset (pl_cancel ?p)"
    using cancel_phase_ok[OF e1] assms(10) by (simp add: schedule_ok_def)
  note l1 = cancelled_ledger[OF assms(1) m1]
  obtain gs where g: "ws_good ?st2 = gs" "image_mset order_value (mset gs) = target_values (pl_place ?p)"
    "pl_place ?p \<noteq> [] \<Longrightarrow> list_all2 (\<lambda>i g. i < length (pl_place ?p) \<and> placed_for r place i (pl_place ?p ! i) g) (ph_order ph2) gs"
    "length gs = length (if pl_place ?p = [] then [] else ph_order ph2)"
    by (rule place_phase_ok[OF e2 sd assms(11)[unfolded schedule_ok_def]]) blast
  have placed: "\<exists>i<length (pl_place ?p). placed_for r place i (pl_place ?p ! i) g" if "g \<in> set gs" for g
  proof (cases "pl_place ?p = []")
    case False
    then show ?thesis using g(3) that by (fastforce simp: list_all2_conv_all_nth in_set_conv_nth)
  qed (use g(4) that in simp)
  have d: "distinct (map ro_OrderID gs)"
  proof (cases "pl_place ?p = []")
    case False
    have "distinct (ph_order ph2)" using assms(11) valid_scheduleD(1) unfolding schedule_ok_def by blast
    then show ?thesis using distinct_placed_ids[OF g(3)[OF False] _ assms(12)] by blast
  qed (use g(4) in simp)
  have nf: "\<forall>ord\<in>set gs. ro_OrderID ord \<notin> fst ` set ?l1"
  proof
    fix ord assume "ord \<in> set gs"
    then have "ro_OrderID ord \<notin> fst ` set ?l" using placed fresh_placed[OF _ assms(12)] by blast
    then show "ro_OrderID ord \<notin> fst ` set ?l1" using l1(2) by blast
  qed
  have l2: "?l2 = ?l1 @ map (\<lambda>ord. (ro_OrderID ord, ord)) gs"
    using foldl_add[OF d nf] g(1) by simp
  have "ledger_values ?l2 = ledger_values ?l1 + (target_values clean - ledger_values ?l)"
    unfolding l2 using g(2) v(2) by (simp add: ledger_values_def comp_def multiset.map_comp)
  moreover have "ledger_values ?l1 + (ledger_values ?l - target_values clean) = ledger_values ?l"
    using l1(1) v(1) by simp
  ultimately have lv: "ledger_values ?l2 = target_values clean" using mset_diff_cover by metis
  have ok2: "ledger_ok ?l2"
  proof (rule ledger_ok_adds[OF ledger_ok_deletes[OF assms(1)]], intro ballI)
    fix ord assume "ord \<in> set (ws_good ?st2)"
    then obtain i where i: "i < length (pl_place ?p)" "placed_for r place i (pl_place ?p ! i) ord"
      using placed g(1) by blast
    then have "pl_place ?p ! i \<in> set clean" using pl_place_subset nth_mem by blast
    then show "entry_ok (ro_OrderID ord) ord" using placed_entry_ok[OF i(2)] cl by blast
  qed
  have n2: "no_tolerance ?r2" using assms(2) by (simp add: no_tolerance_def)
  have "ledger_ok (qr_resting ?r2)" using ok2 by simp
  note v2 = plan_sync_values[OF this n2 ts]
  have c2: "pl_cancel (plan_sync ?r2 clean) = []" using v2(1) lv by simp
  have p2: "pl_place (plan_sync ?r2 clean) = []" using v2(2) lv by (simp add: target_values_def)
  have len: "length clean = length ts" using normalizeTargets_length[OF assms(5)] .
  have k2: "pl_kept (plan_sync ?r2 clean) = length ts" using v2(3) p2 len by simp
  have again: "so_sent (Sync ?r2 ts ph1' cancel' ph2' place') = [] \<and>
      so_result (Sync ?r2 ts ph1' cancel' ph2' place') =
        Inr \<lparr>rr_Kept = length ts, rr_Cancelled = 0, rr_Placed = 0, rr_Errors = []\<rparr>"
    using t normalizeTargets_resting[where r = r] assms(5) c2 p2 k2
    by (simp add: Sync_def Let_def cancel_phase_def place_phase_def runBounded_def empty_work_def)
  have "length gs = length (pl_place ?p)"
    using arg_cong[OF g(2), of size] by (simp add: target_values_def)
  then have "rr_Kept res + rr_Placed res = length ts" using res v(3) len g(1) by simp
  then show ?thesis using lv again unfolding so Let_def by simp
qed

text \<open>C21: The ledger stays sound under every operation, with any order events interleaved with a cycle:
  each order id occurs once and names its own entry, every entry is a buy or a sell with a positive
  amount that never exceeds its original amount.\<close>

theorem ledger_invariant:
  assumes "ledger_ok (qr_resting r)" "settings_ok r" "\<forall>t\<in>set ts. target_scales t"
    and "\<forall>clean. normalizeTargets r ts = Inr clean \<longrightarrow> schedule_ok ph2 (length (pl_place (plan_sync r clean)))"
  shows "ledger_ok (qr_resting (NewQuoteReconciler tr ws s [])) \<and>
    ledger_ok (qr_resting (ApplyOrderEvent r e)) \<and> ledger_ok (qr_resting (fst (Hydrate r exchange))) \<and>
    ledger_ok (qr_resting (so_reconciler (Sync r ts ph1 cancel ph2 place))) \<and>
    ledger_ok (qr_resting (fst (CancelAll r ph1 cancel)))"
proof (intro conjI)
  show "ledger_ok (qr_resting (NewQuoteReconciler tr ws s []))" by (simp add: NewQuoteReconciler_def)
  show "ledger_ok (qr_resting (ApplyOrderEvent r e))"
    using assms(1) by (auto simp: ApplyOrderEvent_def ledger_ok_event split: option.splits)
  show "ledger_ok (qr_resting (fst (Hydrate r exchange)))"
    using assms(1) by (auto simp: Hydrate_def ledger_ok_hydrate split: sum.splits)
  show "ledger_ok (qr_resting (fst (CancelAll r ph1 cancel)))"
    using assms(1) by (auto simp: CancelAll_def Let_def ledger_ok_deletes ledger_ok_events split: prod.splits)
  show "ledger_ok (qr_resting (so_reconciler (Sync r ts ph1 cancel ph2 place)))"
  proof (cases "normalizeTargets r ts")
    case (Inr clean)
    let ?p = "plan_sync r clean"
    have cl: "\<forall>q\<in>set clean. target_scales q \<and> is_side (dq_Side q) \<and> 0 < rv (dq_Price q) \<and> 0 < rv (dq_Amount q)"
      using normalizeTargets_ok[OF Inr assms(3,2)] .
    then have sd: "\<forall>t\<in>set (pl_place ?p). is_side (dq_Side t)" using pl_place_subset by blast
    have b: "\<forall>i\<in>set (ph_order ph2). i < length (pl_place ?p)" using assms(4) Inr schedule_ok_bounds by blast
    have "entry_ok (ro_OrderID g) g" if good: "g \<in> set (ws_good (place_phase r ph2 place (pl_place ?p)))" for g
    proof -
      obtain i where i: "i < length (pl_place ?p)" "placed_for r place i (pl_place ?p ! i) g"
        using place_phase_good[OF sd b] good by blast
      then have "pl_place ?p ! i \<in> set clean" using pl_place_subset nth_mem by blast
      then show ?thesis using placed_entry_ok[OF i(2)] cl by blast
    qed
    then show ?thesis using assms(1) Inr
      by (auto simp: Sync_def Let_def intro!: ledger_ok_adds ledger_ok_events ledger_ok_deletes)
  qed (use assms(1) in \<open>auto simp: Sync_def\<close>)
qed

section \<open>Witnesses\<close>

definition demo_reconciler :: quote_reconciler where
  "demo_reconciler =
     \<lparr>qr_trading = True, qr_ws = True, qr_streaming = False, qr_symbol = ''BTCUSD'', qr_account = [],
      qr_toleranceBps = Fin 0, qr_tickSize = Zero, qr_lotSize = Zero, qr_maxConcurrent = 4,
      qr_resting = [(''7'', \<lparr>ro_OrderID = ''7'', ro_ClientOrderID = [], ro_Side = ''buy'',
        ro_Price = \<lparr>dval = Some 90, dscale = 0\<rparr>, ro_Amount = one_decimal, ro_OriginalAmount = one_decimal\<rparr>)]\<rparr>"

definition demo_quote :: desired_quote where
  "demo_quote = \<lparr>dq_Side = ''buy'', dq_Price = \<lparr>dval = Some 95, dscale = 0\<rparr>, dq_Amount = one_decimal,
     dq_ClientOrderID = []\<rparr>"

definition dead_response :: cancel_order_response where
  "dead_response = \<lparr>cr_AvgExecutionPrice = None, cr_Exchange = None, cr_ExecutedAmount = None, cr_Id = None,
     cr_IsCancelled = None, cr_IsHidden = None, cr_IsLive = Some False, cr_Options = None, cr_OrderId = None,
     cr_OriginalAmount = None, cr_Price = None, cr_Reason = None, cr_RemainingAmount = None, cr_Side = None,
     cr_Symbol = None, cr_Timestamp = None, cr_Timestampms = None, cr_Type = None, cr_WasForced = None\<rparr>"

definition live_response :: "string \<Rightarrow> limit_order_response" where
  "live_response ordID = \<lparr>lo_AvgExecutionPrice = None, lo_ClientOrderId = None, lo_Exchange = None,
     lo_ExecutedAmount = None, lo_Id = None, lo_IsCancelled = None, lo_IsHidden = None, lo_IsLive = Some True,
     lo_Options = None, lo_OrderId = Some ordID, lo_OriginalAmount = None, lo_Price = None,
     lo_RemainingAmount = None, lo_Side = None, lo_Symbol = None, lo_Timestamp = None, lo_Timestampms = None,
     lo_Type = None, lo_WasForced = None\<rparr>"

definition demo_phase :: phase where
  "demo_phase = \<lparr>ph_order = [0], ph_ctx = (\<lambda>_. None), ph_done = None, ph_events = []\<rparr>"

definition demo_cancel :: cancel_exchange where
  "demo_cancel i path q = Inr dead_response"

definition demo_place :: place_exchange where
  "demo_place i path q = Inr (live_response (CHR ''9'' # replicate i (CHR ''0'')))"

lemma demo_clean: "normalizeTargets demo_reconciler [demo_quote] = Inr [demo_quote]"
  by code_simp

lemma demo_plan: "plan_sync demo_reconciler [demo_quote] =
    \<lparr>pl_kept = 0, pl_cancel = [snd (hd (qr_resting demo_reconciler))], pl_place = [demo_quote]\<rparr>"
  by code_simp

lemma demo_ledger_ok: "ledger_ok (qr_resting demo_reconciler)"
  by (simp add: demo_reconciler_def ledger_ok_def entry_ok_def is_side_def order_scales_def rv_one scale_ok_def[of "\<lparr>dval = Some 90, dscale = 0\<rparr>"])

lemma demo_settings: "no_tolerance demo_reconciler" "settings_ok demo_reconciler" "\<forall>t\<in>set [demo_quote]. target_scales t"
  by (simp_all add: demo_reconciler_def no_tolerance_def settings_ok_def small_scale_def Zero_def
      demo_quote_def target_scales_def scale_ok_def one_decimal_def)

lemma demo_schedule: "schedule_ok demo_phase (Suc 0)"
  by (auto simp: schedule_ok_def demo_phase_def valid_schedule_def)

lemma demo_cancelled:
  "cancel_phase demo_reconciler demo_phase demo_cancel [snd (hd (qr_resting demo_reconciler))] =
     \<lparr>ws_errors = [], ws_good = [snd (hd (qr_resting demo_reconciler))],
      ws_sent = [SentCancel \<lparr>co_Account = None, co_Nonce = [], co_OrderId = 7, co_Request = []\<rparr>]\<rparr>"
proof -
  have p: "ParseUint64 ''7'' = Some 7" by (simp add: ParseUint64_def is_digit_def digit_val_def)
  show ?thesis
    by (simp add: cancel_phase_def runBounded_def demo_phase_def cancel_quote_def cancel_one_def p Let_def
        demo_cancel_def dead_response_def CancelOrder_def validateCancelResponse_def empty_work_def
        demo_reconciler_def accountPointer_def)
qed

lemma demo_placed:
  "place_phase demo_reconciler demo_phase demo_place [demo_quote] =
     \<lparr>ws_errors = [], ws_good = [\<lparr>ro_OrderID = ''9'', ro_ClientOrderID = [], ro_Side = ''buy'',
        ro_Price = \<lparr>dval = Some 95, dscale = 0\<rparr>, ro_Amount = one_decimal, ro_OriginalAmount = one_decimal\<rparr>],
      ws_sent = [SentOrder (quote_request demo_reconciler demo_quote)]\<rparr>"
  by code_simp

lemma demo_sync:
  "so_sent (Sync demo_reconciler [demo_quote] demo_phase demo_cancel demo_phase demo_place) =
     [SentCancel \<lparr>co_Account = None, co_Nonce = [], co_OrderId = 7, co_Request = []\<rparr>,
      SentOrder (quote_request demo_reconciler demo_quote)]"
  "so_result (Sync demo_reconciler [demo_quote] demo_phase demo_cancel demo_phase demo_place) =
     Inr \<lparr>rr_Kept = 0, rr_Cancelled = 1, rr_Placed = 1, rr_Errors = []\<rparr>"
proof -
  have "qr_trading demo_reconciler" by (simp add: demo_reconciler_def)
  then show "so_sent (Sync demo_reconciler [demo_quote] demo_phase demo_cancel demo_phase demo_place) =
     [SentCancel \<lparr>co_Account = None, co_Nonce = [], co_OrderId = 7, co_Request = []\<rparr>,
      SentOrder (quote_request demo_reconciler demo_quote)]"
    "so_result (Sync demo_reconciler [demo_quote] demo_phase demo_cancel demo_phase demo_place) =
     Inr \<lparr>rr_Kept = 0, rr_Cancelled = 1, rr_Placed = 1, rr_Errors = []\<rparr>"
    unfolding Sync_def demo_clean by (simp_all add: Let_def demo_plan demo_cancelled demo_placed)
qed

lemma demo_fresh: "fresh_ids demo_reconciler demo_place"
  by (auto simp: fresh_ids_def demo_place_def live_response_def demo_reconciler_def)

theorem plan_is_difference_witness:
  "pl_kept (plan_sync demo_reconciler [demo_quote]) =
     size (target_values [demo_quote] \<inter># ledger_values (qr_resting demo_reconciler))"
  using plan_is_difference[OF demo_ledger_ok demo_settings(1,3)] by blast

theorem no_order_before_cancels_witness:
  "cancel_proved None demo_cancel 0 (snd (hd (qr_resting demo_reconciler)))"
proof -
  have s: "SentOrder (quote_request demo_reconciler demo_quote) \<in>
      set (so_sent (Sync demo_reconciler [demo_quote] demo_phase demo_cancel demo_phase demo_place))"
    by (simp add: demo_sync)
  have "schedule_ok demo_phase (length (pl_cancel (plan_sync demo_reconciler [demo_quote])))"
    using demo_schedule by (simp add: demo_plan)
  from no_order_before_cancels[OF s demo_clean this, THEN conjunct1]
  have "cancel_proved (accountPointer demo_reconciler) demo_cancel 0 (snd (hd (qr_resting demo_reconciler)))"
    unfolding demo_plan by simp
  then show ?thesis by (simp add: accountPointer_def demo_reconciler_def)
qed

theorem sync_converges_witness:
  "so_sent (Sync (so_reconciler (Sync demo_reconciler [demo_quote] demo_phase demo_cancel demo_phase demo_place))
     [demo_quote] demo_phase demo_cancel demo_phase demo_place) = []"
proof -
  have s: "schedule_ok demo_phase (length (pl_cancel (plan_sync demo_reconciler [demo_quote])))"
    "schedule_ok demo_phase (length (pl_place (plan_sync demo_reconciler [demo_quote])))"
    using demo_schedule by (simp_all add: demo_plan)
  have e: "ph_events demo_phase = []" by (simp add: demo_phase_def)
  have r: "rr_Errors \<lparr>rr_Kept = 0, rr_Cancelled = 1, rr_Placed = 1, rr_Errors = []\<rparr> = []" by simp
  show ?thesis
    using sync_converges[OF demo_ledger_ok demo_settings demo_clean demo_sync(2) r e e s demo_fresh,
        of demo_phase demo_cancel demo_phase demo_place] by (simp add: Let_def)
qed

theorem ledger_invariant_witness:
  "ledger_ok (qr_resting (so_reconciler (Sync demo_reconciler [demo_quote] demo_phase demo_cancel demo_phase demo_place)))"
proof -
  have "\<forall>clean. normalizeTargets demo_reconciler [demo_quote] = Inr clean \<longrightarrow>
      schedule_ok demo_phase (length (pl_place (plan_sync demo_reconciler clean)))"
    using demo_schedule by (simp add: demo_clean demo_plan)
  from ledger_invariant[OF demo_ledger_ok demo_settings(2,3) this] show ?thesis by blast
qed

section \<open>Duplicate quotes\<close>

text \<open>The duplicate check compares texts, not values: without a tick size two quotes of the same
  price, one written as 1.0 and one as 1, are both accepted and both placed.\<close>

theorem duplicate_quote_missed:
  "\<exists>q1 q2. dq_Side q1 = dq_Side q2 \<and> Equal (dq_Price q1) (dq_Price q2) \<and> Equal (dq_Amount q1) (dq_Amount q2) \<and>
     normalizeTargets (demo_reconciler\<lparr>qr_resting := []\<rparr>) [q1, q2] = Inr [q1, q2] \<and>
     pl_place (plan_sync (demo_reconciler\<lparr>qr_resting := []\<rparr>) [q1, q2]) = [q1, q2]"
proof -
  let ?q = "\<lambda>p. \<lparr>dq_Side = ''buy'', dq_Price = p, dq_Amount = one_decimal, dq_ClientOrderID = []\<rparr>"
  have "Equal \<lparr>dval = Some 10, dscale = 1\<rparr> one_decimal" by code_simp
  moreover have "Equal one_decimal one_decimal" by (simp add: Equal_def)
  moreover have "normalizeTargets (demo_reconciler\<lparr>qr_resting := []\<rparr>) [?q \<lparr>dval = Some 10, dscale = 1\<rparr>, ?q one_decimal] =
      Inr [?q \<lparr>dval = Some 10, dscale = 1\<rparr>, ?q one_decimal]" by code_simp
  moreover have "pl_place (plan_sync (demo_reconciler\<lparr>qr_resting := []\<rparr>) [?q \<lparr>dval = Some 10, dscale = 1\<rparr>, ?q one_decimal]) =
      [?q \<lparr>dval = Some 10, dscale = 1\<rparr>, ?q one_decimal]" by code_simp
  ultimately show ?thesis by (intro exI[of _ "?q \<lparr>dval = Some 10, dscale = 1\<rparr>"] exI[of _ "?q one_decimal"]) simp
qed

end
