(* ===== verification/OrderStream.thy ===== *)
theory OrderStream
  imports SyncProps
begin

text \<open>
  The order-event stream of \<open>services/reconciler_stream.go\<close>: events buffered while the ledger is
  hydrated from the exchange's snapshot, then replayed, then applied as they arrive, with recovery
  after a reconnect. Two threads hydrate: the caller of \<open>StartStreaming\<close> and the reader goroutine
  (which reads no event meanwhile); \<open>hydrationMu\<close> keeps them apart. Every step below is one critical
  section of \<open>handoffMu\<close> or of the ledger's lock.

  Six fields are history variables, which no step reads: \<open>os_base\<close>, the last snapshot installed;
  \<open>os_applied\<close>, the events applied to the ledger since; \<open>os_log\<close> and \<open>os_taken\<close>, the events received
  and the events kept (repeated deliveries apart) since the subscription or the last reconnect;
  \<open>os_old\<close>, those of them already applied when the last snapshot was requested; and \<open>os_late\<close>,
  whether the caller requested its snapshot when the buffering was already over.
\<close>

section \<open>The buffer\<close>

definition maxPendingOrderEvents :: nat where
  "maxPendingOrderEvents = 4096"

text \<open>\<open>enqueuePendingOrderEvent\<close>: the new buffer, the new keys and whether the event is accounted for.
  The key of an event is the whole event.\<close>

definition enqueuePendingOrderEvent ::
  "order_event list \<Rightarrow> order_event list \<Rightarrow> order_event \<Rightarrow> order_event list \<times> order_event list \<times> bool" where
  "enqueuePendingOrderEvent pending keys evt =
     (if evt \<in> set keys then (pending, keys, True)
      else if maxPendingOrderEvents \<le> length pending then (pending, keys, False)
      else (pending @ [evt], evt # keys, True))"

section \<open>Threads and state\<close>

datatype hydrator =
    HIdle
  | HFetch nat
  | HLoop nat
  | HBatch nat "order_event list"
  | HReturned
  | HFailed

definition holds_lock :: "hydrator \<Rightarrow> bool" where
  "holds_lock h \<longleftrightarrow> (case h of HFetch _ \<Rightarrow> True | HLoop _ \<Rightarrow> True | HBatch _ _ \<Rightarrow> True | _ \<Rightarrow> False)"

record order_stream =
  os_ledger :: ledger
  os_generation :: nat
  os_hydrating :: bool
  os_recovering :: bool
  os_pending :: "order_event list"
  os_keys :: "order_event list option"
  os_overflow :: bool
  os_base :: ledger
  os_applied :: "order_event list"
  os_log :: "order_event list"
  os_taken :: "order_event list"
  os_old :: "order_event list"
  os_late :: bool

definition stream_start :: "ledger \<Rightarrow> order_stream" where
  "stream_start l = \<lparr>os_ledger = l, os_generation = 0, os_hydrating = True, os_recovering = False,
     os_pending = [], os_keys = Some [], os_overflow = False, os_base = l, os_applied = [], os_log = [],
     os_taken = [], os_old = [], os_late = False\<rparr>"

text \<open>The reader's handling of an order event and of a reconnect. \<open>os_keys\<close> is \<open>None\<close> for the nil map
  that a completed hydration leaves: writing to it would panic, which is the result \<open>None\<close>.\<close>

definition on_order_event :: "string \<Rightarrow> order_stream \<Rightarrow> order_event \<Rightarrow> order_stream option" where
  "on_order_event symbol s evt =
     (if os_hydrating s then
        (case os_keys s of
           None \<Rightarrow> None
         | Some keys \<Rightarrow>
             (case enqueuePendingOrderEvent (os_pending s) keys evt of
                (pending, keys', queued) \<Rightarrow>
                  Some (s\<lparr>os_pending := pending, os_keys := Some keys',
                          os_overflow := (os_overflow s \<or> \<not> queued), os_log := os_log s @ [evt],
                          os_taken := (if length (os_pending s) < length pending
                                       then os_taken s @ [evt] else os_taken s)\<rparr>)))
      else Some (s\<lparr>os_ledger := apply_event symbol (os_ledger s) evt, os_log := os_log s @ [evt],
                   os_taken := os_taken s @ [evt], os_applied := os_applied s @ [evt]\<rparr>))"

definition on_reconnecting :: "order_stream \<Rightarrow> order_stream" where
  "on_reconnecting s =
     (if os_recovering s then s
      else s\<lparr>os_generation := Suc (os_generation s), os_hydrating := True, os_pending := [],
             os_keys := Some [], os_overflow := False, os_recovering := True, os_log := [],
             os_taken := [], os_old := []\<rparr>)"

text \<open>A thread with the lock reads the generation and requests the snapshot.\<close>

definition hydrate_begin :: "order_stream \<Rightarrow> hydrator \<times> order_stream" where
  "hydrate_begin s =
     (HFetch (os_generation s),
      s\<lparr>os_old := take (length (os_taken s) - length (os_pending s)) (os_taken s)\<rparr>)"

text \<open>One step of a thread inside \<open>hydrateAndReplay\<close>; \<open>orders\<close> is the exchange's answer when the
  thread is waiting for it.\<close>

definition hydrate_step ::
  "string \<Rightarrow> err + limit_order_response list \<Rightarrow> hydrator \<Rightarrow> order_stream \<Rightarrow> hydrator \<times> order_stream" where
  "hydrate_step symbol orders h s =
     (case h of
        HFetch g \<Rightarrow>
          (case orders of
             Inl _ \<Rightarrow> (if g \<noteq> os_generation s then HReturned else HFailed, s)
           | Inr os \<Rightarrow> (HLoop g, s\<lparr>os_ledger := hydrate_ledger symbol os, os_base := hydrate_ledger symbol os,
                                    os_applied := []\<rparr>))
      | HLoop g \<Rightarrow>
          if g \<noteq> os_generation s then (HReturned, s)
          else if os_overflow s then (HFailed, s)
          else if os_pending s = [] then (HReturned, s\<lparr>os_keys := None, os_overflow := False, os_hydrating := False\<rparr>)
          else (HBatch g (os_pending s), s\<lparr>os_pending := []\<rparr>)
      | HBatch g batch \<Rightarrow>
          (case batch of
             [] \<Rightarrow> (HLoop g, s)
           | evt # rest \<Rightarrow> (HBatch g rest, s\<lparr>os_ledger := apply_event symbol (os_ledger s) evt,
                                             os_applied := os_applied s @ [evt]\<rparr>))
      | _ \<Rightarrow> (h, s))"

text \<open>The whole: the caller's hydrator, the reader's hydrator (idle while it reads) and the state.\<close>

type_synonym stream_config = "hydrator \<times> hydrator \<times> order_stream"

inductive stream_step :: "string \<Rightarrow> stream_config \<Rightarrow> stream_config \<Rightarrow> bool" for symbol where
  stream_event: "on_order_event symbol s evt = Some s' \<Longrightarrow> stream_step symbol (h, HIdle, s) (h, HIdle, s')"
| stream_reconnecting: "stream_step symbol (h, HIdle, s) (h, HIdle, on_reconnecting s)"
| stream_connected: "os_recovering s \<Longrightarrow> \<not> holds_lock h \<Longrightarrow> hydrate_begin s = (k, s') \<Longrightarrow>
    stream_step symbol (h, HIdle, s) (h, k, s')"
| stream_caller_start: "\<not> holds_lock k \<Longrightarrow> hydrate_begin s = (h, s') \<Longrightarrow>
    stream_step symbol (HIdle, k, s) (h, k, s'\<lparr>os_late := (\<not> os_hydrating s)\<rparr>)"
| stream_caller: "holds_lock h \<Longrightarrow> hydrate_step symbol orders h s = (h', s') \<Longrightarrow>
    stream_step symbol (h, k, s) (h', k, s')"
| stream_reader: "holds_lock k \<Longrightarrow> hydrate_step symbol orders k s = (k', s') \<Longrightarrow>
    stream_step symbol (h, k, s) (h, k', s')"
| stream_recovered: "stream_step symbol (h, HReturned, s) (h, HIdle, s\<lparr>os_recovering := False\<rparr>)"

inductive_cases stream_stepE: "stream_step symbol c c'"

inductive stream_reachable :: "string \<Rightarrow> stream_config \<Rightarrow> bool" for symbol where
  stream_init: "stream_reachable symbol (HIdle, HIdle, stream_start l)"
| stream_next: "stream_reachable symbol c \<Longrightarrow> stream_step symbol c c' \<Longrightarrow> stream_reachable symbol c'"

section \<open>The invariant\<close>

text \<open>The events a thread hydrating the current generation has swapped out but not applied; the
  events the snapshot has on top of it at that point.\<close>

definition thread_ok :: "order_stream \<Rightarrow> hydrator \<Rightarrow> bool" where
  "thread_ok s h \<longleftrightarrow>
     (case h of
        HFetch g \<Rightarrow> g = os_generation s \<longrightarrow> os_taken s = os_old s @ os_pending s
      | HLoop g \<Rightarrow> g = os_generation s \<longrightarrow> os_taken s = os_old s @ os_applied s @ os_pending s
      | HBatch g es \<Rightarrow> g = os_generation s \<longrightarrow> os_taken s = os_old s @ os_applied s @ es @ os_pending s
      | _ \<Rightarrow> True)"

definition thread_gen :: "hydrator \<Rightarrow> nat option" where
  "thread_gen h = (case h of HFetch g \<Rightarrow> Some g | HLoop g \<Rightarrow> Some g | HBatch g _ \<Rightarrow> Some g | _ \<Rightarrow> None)"

lemma thread_gen_simps [simp]:
  "thread_gen HIdle = None" "thread_gen (HFetch g) = Some g" "thread_gen (HLoop g) = Some g"
  "thread_gen (HBatch g es) = Some g" "thread_gen HReturned = None" "thread_gen HFailed = None"
  by (simp_all add: thread_gen_def)

lemma thread_ok_simps [simp]:
  "thread_ok s HIdle" "thread_ok s HReturned" "thread_ok s HFailed"
  "thread_ok s (HFetch g) \<longleftrightarrow> (g = os_generation s \<longrightarrow> os_taken s = os_old s @ os_pending s)"
  "thread_ok s (HLoop g) \<longleftrightarrow> (g = os_generation s \<longrightarrow> os_taken s = os_old s @ os_applied s @ os_pending s)"
  "thread_ok s (HBatch g es) \<longleftrightarrow>
     (g = os_generation s \<longrightarrow> os_taken s = os_old s @ os_applied s @ es @ os_pending s)"
  by (simp_all add: thread_ok_def)

lemma thread_ok_no_gen: "thread_gen h = None \<Longrightarrow> thread_ok s h"
  by (cases h) simp_all

lemma holds_lock_gen: "holds_lock h \<longleftrightarrow> thread_gen h \<noteq> None"
  by (auto simp: holds_lock_def thread_gen_def split: hydrator.splits)

text \<open>Facts about the buffer alone, and the invariant of a configuration.\<close>

definition buffer_ok :: "order_stream \<Rightarrow> bool" where
  "buffer_ok s \<longleftrightarrow>
     (\<exists>x. os_taken s = x @ os_pending s) \<and>
     (os_hydrating s \<longrightarrow> (\<exists>ks. os_keys s = Some ks \<and> set ks \<subseteq> set (os_taken s))) \<and>
     (\<not> os_hydrating s \<longrightarrow> os_pending s = [] \<and> \<not> os_overflow s) \<and>
     (\<not> os_overflow s \<longrightarrow> set (os_taken s) = set (os_log s))"

definition stream_inv :: "string \<Rightarrow> stream_config \<Rightarrow> bool" where
  "stream_inv symbol c \<longleftrightarrow>
     (case c of (h, k, s) \<Rightarrow>
        os_ledger s = apply_events symbol (os_applied s) (os_base s) \<and> buffer_ok s \<and>
        \<not> (holds_lock h \<and> holds_lock k) \<and>
        (\<forall>g. thread_gen h = Some g \<longrightarrow> g \<le> os_generation s) \<and>
        (\<forall>g. thread_gen k = Some g \<longrightarrow> g = os_generation s) \<and>
        (\<forall>g. thread_gen h = Some g \<and> g < os_generation s \<longrightarrow> os_hydrating s) \<and>
        (\<not> os_late s \<longrightarrow>
          thread_ok s h \<and> thread_ok s k \<and> (holds_lock h \<longrightarrow> os_hydrating s) \<and>
          (\<not> os_hydrating s \<and> \<not> holds_lock k \<and> k \<noteq> HFailed \<longrightarrow> os_taken s = os_old s @ os_applied s)))"

lemma apply_events_snoc: "apply_events symbol (es @ [e]) l = apply_event symbol (apply_events symbol es l) e"
  by (simp add: apply_events_def)

lemma apply_events_Nil [simp]: "apply_events symbol [] l = l"
  by (simp add: apply_events_def)

lemma stream_inv_start: "stream_inv symbol (HIdle, HIdle, stream_start l)"
  by (simp add: stream_inv_def stream_start_def buffer_ok_def thread_ok_def thread_gen_def holds_lock_gen)

lemma hydrate_begin_inv:
  assumes "buffer_ok s" "hydrate_begin s = (h, s')"
  shows "h = HFetch (os_generation s)" "thread_ok s' h" "buffer_ok s'" "os_taken s' = os_old s' @ os_pending s'"
  using assms by (auto simp: hydrate_begin_def buffer_ok_def thread_ok_def)

text \<open>An event reaches the buffer, or the ledger when no thread hydrates the current generation.\<close>

lemma on_order_event_defined: "buffer_ok s \<Longrightarrow> on_order_event symbol s evt \<noteq> None"
  by (auto simp: buffer_ok_def on_order_event_def split: prod.splits)

lemma on_order_event_cases:
  assumes "on_order_event symbol s evt = Some s'" "buffer_ok s"
  obtains (repeated) "os_hydrating s" "evt \<in> set (os_taken s)" "s' = s\<lparr>os_log := os_log s @ [evt]\<rparr>"
  | (overflow) "os_hydrating s" "s' = s\<lparr>os_overflow := True, os_log := os_log s @ [evt]\<rparr>"
  | (buffered) ks where "os_hydrating s" "os_keys s = Some ks"
    "s' = s\<lparr>os_pending := os_pending s @ [evt], os_keys := Some (evt # ks), os_log := os_log s @ [evt],
            os_taken := os_taken s @ [evt]\<rparr>"
  | (direct) "\<not> os_hydrating s"
    "s' = s\<lparr>os_ledger := apply_event symbol (os_ledger s) evt, os_log := os_log s @ [evt],
            os_taken := os_taken s @ [evt], os_applied := os_applied s @ [evt]\<rparr>"
proof (cases "os_hydrating s")
  case True
  then obtain ks where ks: "os_keys s = Some ks" "set ks \<subseteq> set (os_taken s)"
    using assms(2) by (auto simp: buffer_ok_def)
  consider "evt \<in> set ks" | "evt \<notin> set ks" "maxPendingOrderEvents \<le> length (os_pending s)"
    | "evt \<notin> set ks" "\<not> maxPendingOrderEvents \<le> length (os_pending s)" by blast
  then show thesis
  proof cases
    case 1
    then have "s' = s\<lparr>os_log := os_log s @ [evt]\<rparr>"
      using assms(1) True ks(1) by (auto simp: on_order_event_def enqueuePendingOrderEvent_def)
    then show thesis using repeated True ks(2) 1 by blast
  next
    case 2
    then show thesis using overflow assms(1) True ks(1)
      by (auto simp: on_order_event_def enqueuePendingOrderEvent_def)
  next
    case 3
    then show thesis using buffered assms(1) True ks(1)
      by (auto simp: on_order_event_def enqueuePendingOrderEvent_def)
  qed
next
  case False
  then show thesis using direct assms(1) by (auto simp: on_order_event_def)
qed

lemma on_order_event_inv:
  assumes "on_order_event symbol s evt = Some s'" "stream_inv symbol (h, HIdle, s)"
  shows "stream_inv symbol (h, HIdle, s')"
proof -
  have "buffer_ok s" using assms(2) by (simp add: stream_inv_def)
  with assms(1) show ?thesis
  proof (cases rule: on_order_event_cases)
    case repeated
    then show ?thesis using assms(2)
      by (auto simp: stream_inv_def buffer_ok_def thread_ok_def holds_lock_gen thread_gen_def split: hydrator.splits)
  next
    case overflow
    then show ?thesis using assms(2)
      by (auto simp: stream_inv_def buffer_ok_def thread_ok_def holds_lock_gen thread_gen_def split: hydrator.splits)
  next
    case (buffered ks)
    then show ?thesis using assms(2)
      by (auto simp: stream_inv_def buffer_ok_def thread_ok_def holds_lock_gen thread_gen_def split: hydrator.splits)
  next
    case direct
    then have "\<not> os_late s \<longrightarrow> \<not> holds_lock h" using assms(2) by (simp add: stream_inv_def)
    with direct show ?thesis using assms(2)
      by (auto simp: stream_inv_def buffer_ok_def thread_ok_def holds_lock_gen thread_gen_def apply_events_snoc
          split: hydrator.splits)
  qed
qed

lemma on_reconnecting_inv:
  assumes "stream_inv symbol (h, HIdle, s)"
  shows "stream_inv symbol (h, HIdle, on_reconnecting s)"
proof -
  have "g \<noteq> Suc (os_generation s)" if "thread_gen h = Some g" for g
    using assms that by (auto simp: stream_inv_def)
  then show ?thesis using assms
    by (auto simp: on_reconnecting_def stream_inv_def buffer_ok_def thread_ok_def holds_lock_gen thread_gen_def
        less_Suc_eq_le split: hydrator.splits)
qed

text \<open>The steps of a hydrating thread.\<close>

lemma hydrate_step_cases:
  assumes "hydrate_step symbol orders h s = (h', s')" "holds_lock h"
  obtains (stale) g where "thread_gen h = Some g" "g \<noteq> os_generation s" "h' = HReturned" "s' = s"
  | (failed) "h' = HFailed" "s' = s"
  | (loaded) g l where "h = HFetch g" "h' = HLoop g" "s' = s\<lparr>os_ledger := l, os_base := l, os_applied := []\<rparr>"
  | (finished) "h = HLoop (os_generation s)" "\<not> os_overflow s" "os_pending s = []"
    "h' = HReturned" "s' = s\<lparr>os_keys := None, os_overflow := False, os_hydrating := False\<rparr>"
  | (batched) "h = HLoop (os_generation s)" "h' = HBatch (os_generation s) (os_pending s)" "s' = s\<lparr>os_pending := []\<rparr>"
  | (drained) g where "h = HBatch g []" "h' = HLoop g" "s' = s"
  | (replayed) g e es where "h = HBatch g (e # es)" "h' = HBatch g es"
    "s' = s\<lparr>os_ledger := apply_event symbol (os_ledger s) e, os_applied := os_applied s @ [e]\<rparr>"
proof (cases h)
  case (HFetch g)
  show thesis
  proof (cases orders)
    case (Inl e)
    then have e: "h' = (if g \<noteq> os_generation s then HReturned else HFailed)" "s' = s"
      using assms(1) HFetch by (auto simp: hydrate_step_def)
    show thesis
    proof (cases "g = os_generation s")
      case True
      with e show thesis by (intro failed) simp_all
    next
      case False
      with e HFetch show thesis by (intro stale [of g]) simp_all
    qed
  next
    case (Inr os)
    then show thesis using assms(1) HFetch by (intro loaded) (auto simp: hydrate_step_def)
  qed
next
  case (HLoop g)
  note step = assms(1) [unfolded HLoop hydrate_step_def, simplified]
  consider "g \<noteq> os_generation s" | "g = os_generation s" "os_overflow s"
    | "g = os_generation s" "\<not> os_overflow s" "os_pending s = []"
    | "g = os_generation s" "\<not> os_overflow s" "os_pending s \<noteq> []" by blast
  then show thesis
  proof cases
    case 1
    with step HLoop show thesis by (intro stale [of g]) auto
  next
    case 2
    with step show thesis by (intro failed) auto
  next
    case 3
    with step HLoop show thesis by (intro finished) auto
  next
    case 4
    with step HLoop show thesis by (intro batched) auto
  qed
next
  case (HBatch g es)
  show thesis
  proof (cases es)
    case Nil
    with assms(1) HBatch show thesis by (intro drained) (auto simp: hydrate_step_def)
  next
    case (Cons e es')
    with assms(1) HBatch show thesis by (intro replayed) (auto simp: hydrate_step_def)
  qed
qed (use assms(2) in \<open>simp_all add: holds_lock_def\<close>)

lemma hydrate_step_buffer_ok:
  assumes "hydrate_step symbol orders h s = (h', s')" "holds_lock h" "buffer_ok s"
  shows "buffer_ok s'"
  using assms(1,2)
proof (cases rule: hydrate_step_cases)
  case batched
  then show ?thesis using assms(3) by (auto simp: buffer_ok_def)
qed (use assms(3) in \<open>simp_all add: buffer_ok_def\<close>)

lemma hydrate_step_caller_inv:
  assumes "hydrate_step symbol orders h s = (h', s')" "holds_lock h" "stream_inv symbol (h, k, s)"
  shows "stream_inv symbol (h', k, s')"
proof -
  have k: "thread_gen k = None" using assms(2,3) by (auto simp: stream_inv_def holds_lock_gen)
  note tk = thread_ok_no_gen [OF k]
  have b: "buffer_ok s'" using hydrate_step_buffer_ok [OF assms(1,2)] assms(3) by (simp add: stream_inv_def)
  note inv = assms(3) [unfolded stream_inv_def prod.case]
  from assms(1,2) show ?thesis
  proof (cases rule: hydrate_step_cases)
    case (stale g)
    then show ?thesis using inv b k tk by (simp add: stream_inv_def holds_lock_gen)
  next
    case failed
    then show ?thesis using inv b k tk assms(2) by (simp add: stream_inv_def holds_lock_gen)
  next
    case (loaded g l)
    then show ?thesis using inv b k tk by (simp add: stream_inv_def holds_lock_gen)
  next
    case finished
    then show ?thesis using inv b k tk by (simp add: stream_inv_def holds_lock_gen)
  next
    case batched
    then show ?thesis using inv b k tk by (simp add: stream_inv_def holds_lock_gen)
  next
    case (drained g)
    then show ?thesis using inv b k tk by (simp add: stream_inv_def holds_lock_gen)
  next
    case (replayed g e es)
    then show ?thesis using inv b k tk by (simp add: stream_inv_def holds_lock_gen apply_events_snoc)
  qed
qed

lemma hydrate_step_reader_inv:
  assumes "hydrate_step symbol orders k s = (k', s')" "holds_lock k" "stream_inv symbol (h, k, s)"
  shows "stream_inv symbol (h, k', s')"
proof -
  have h: "thread_gen h = None" using assms(2,3) by (auto simp: stream_inv_def holds_lock_gen)
  note th = thread_ok_no_gen [OF h]
  have b: "buffer_ok s'" using hydrate_step_buffer_ok [OF assms(1,2)] assms(3) by (simp add: stream_inv_def)
  note inv = assms(3) [unfolded stream_inv_def prod.case]
  from assms(1,2) show ?thesis
  proof (cases rule: hydrate_step_cases)
    case (stale g)
    then show ?thesis using inv by simp
  next
    case failed
    then show ?thesis using inv b h th by (simp add: stream_inv_def holds_lock_gen)
  next
    case (loaded g l)
    then show ?thesis using inv b h th by (simp add: stream_inv_def holds_lock_gen)
  next
    case finished
    have "\<not> os_late s \<Longrightarrow> os_taken s = os_old s @ os_applied s"
      using inv finished(1,3) by simp
    moreover have "os_ledger s = apply_events symbol (os_applied s) (os_base s)" using inv by blast
    ultimately show ?thesis using b h th by (simp add: stream_inv_def holds_lock_gen finished(4,5))
  next
    case batched
    have "\<not> os_late s \<Longrightarrow> os_taken s = os_old s @ os_applied s @ os_pending s"
      using inv batched(1) by simp
    moreover have "os_ledger s = apply_events symbol (os_applied s) (os_base s)" using inv by blast
    ultimately show ?thesis using b h th by (simp add: stream_inv_def holds_lock_gen batched(2,3))
  next
    case (drained g)
    then show ?thesis using inv b h th by (simp add: stream_inv_def holds_lock_gen)
  next
    case (replayed g e es)
    then show ?thesis using inv b h th by (simp add: stream_inv_def holds_lock_gen apply_events_snoc)
  qed
qed

section \<open>Every reachable state\<close>

lemma stream_step_inv:
  assumes "stream_step symbol c c'" "stream_inv symbol c"
  shows "stream_inv symbol c'"
  using assms
proof (cases rule: stream_step.cases)
  case stream_event
  then show ?thesis using on_order_event_inv assms(2) by blast
next
  case stream_reconnecting
  then show ?thesis using on_reconnecting_inv assms(2) by blast
next
  case (stream_connected s h k s')
  then have h: "thread_gen h = None" by (simp add: holds_lock_gen)
  note inv = assms(2) [unfolded stream_connected(1) stream_inv_def prod.case]
  note b = hydrate_begin_inv [OF _ stream_connected(5)]
  have eq: "s' = s\<lparr>os_old := os_old s'\<rparr>" using stream_connected(5) by (auto simp: hydrate_begin_def)
  have "os_ledger s' = apply_events symbol (os_applied s') (os_base s')" using inv eq by (cases s; cases s') simp
  moreover have "os_generation s' = os_generation s" using eq by (cases s; cases s') simp
  ultimately show ?thesis using b inv h thread_ok_no_gen [OF h]
    by (simp add: stream_connected(2) stream_inv_def holds_lock_gen)
next
  case (stream_caller_start k s h s')
  then have k: "thread_gen k = None" by (simp add: holds_lock_gen)
  note inv = assms(2) [unfolded stream_caller_start(1) stream_inv_def prod.case]
  note b = hydrate_begin_inv [OF _ stream_caller_start(4)]
  have eq: "s' = s\<lparr>os_old := os_old s'\<rparr>" using stream_caller_start(4) by (auto simp: hydrate_begin_def)
  have "os_ledger s' = apply_events symbol (os_applied s') (os_base s')" using inv eq by (cases s; cases s') simp
  moreover have "os_generation s' = os_generation s" "os_hydrating s' = os_hydrating s"
    using eq by (cases s; cases s'; simp)+
  moreover have "thread_ok (s'\<lparr>os_late := False\<rparr>) h" using b inv by simp
  moreover have "buffer_ok (s'\<lparr>os_late := x\<rparr>)" for x using b inv by (simp add: buffer_ok_def)
  ultimately show ?thesis using b(1) inv k thread_ok_no_gen [OF k]
    by (cases "os_hydrating s") (simp_all add: stream_caller_start(2) stream_inv_def holds_lock_gen)
next
  case stream_caller
  then show ?thesis using hydrate_step_caller_inv assms(2) by blast
next
  case stream_reader
  then show ?thesis using hydrate_step_reader_inv assms(2) by blast
next
  case (stream_recovered h s)
  then show ?thesis using assms(2) by (cases h) (simp_all add: stream_inv_def buffer_ok_def holds_lock_gen)
qed

lemma stream_reachable_inv: "stream_reachable symbol c \<Longrightarrow> stream_inv symbol c"
  by (induction rule: stream_reachable.induct) (auto intro: stream_inv_start stream_step_inv)

text \<open>C19: In every interleaving of events, reconnects, and the two hydrating threads the reader's write
  to the key map never meets a nil map. In every interleaving but those in which the caller requests its
  snapshot after the reader's hydration has ended the buffering (\<open>os_late\<close>: there events are lost, as
  \<open>stream_startup_race\<close> shows), once no hydration is in progress and none has failed, the
  events kept are all the events received since the subscription or the last reconnect (repeats apart),
  and the ledger is the last snapshot followed, in order, by exactly the kept events that had not been
  applied when that snapshot was requested.\<close>

theorem stream_no_event_lost:
  assumes "stream_reachable symbol (h, k, s)"
  shows "on_order_event symbol s evt \<noteq> None \<and>
    (\<not> os_late s \<and> \<not> os_hydrating s \<and> \<not> holds_lock k \<and> k \<noteq> HFailed \<longrightarrow>
       set (os_taken s) = set (os_log s) \<and> os_taken s = os_old s @ os_applied s \<and>
       os_ledger s = apply_events symbol (os_applied s) (os_base s))"
proof -
  note inv = stream_reachable_inv [OF assms, unfolded stream_inv_def prod.case]
  then have b: "buffer_ok s" by blast
  have "set (os_taken s) = set (os_log s)" if "\<not> os_hydrating s"
    using b that by (simp add: buffer_ok_def)
  then show ?thesis using inv on_order_event_defined [OF b] by blast
qed

section \<open>Concrete runs\<close>

definition demo_event :: order_event where
  "demo_event = \<lparr>oe_EventType = [], oe_EventTime = 0, oe_Symbol = [], oe_ClientOrderID = [], oe_Side = ''buy'',
     oe_OrderType = [], oe_TimeInForce = [], oe_Quantity = ''2'', oe_Price = ''1'', oe_StopPrice = [],
     oe_EventOutcome = [], oe_ExecutionType = [], oe_OrderStatus = ''NEW'', oe_OrderRejectReason = [],
     oe_OrderID = 7, oe_RemainingQty = [], oe_ExecutedQty = [], oe_LastExecutedPrice = [],
     oe_LastExecutedQty = [], oe_FeeAmount = [], oe_FeeAsset = [], oe_TradeTime = 0, oe_TradeID = 0,
     oe_IsMaker = False\<rparr>"

text \<open>An event arrives while the caller waits for the snapshot, and is replayed after it.\<close>

lemma demo_stream_run:
  "stream_reachable ''X'' (HReturned, HIdle,
     (stream_start [])\<lparr>os_ledger := apply_event ''X'' [] demo_event, os_hydrating := False, os_keys := None,
        os_applied := [demo_event], os_log := [demo_event], os_taken := [demo_event]\<rparr>)"
  (is "stream_reachable _ (_, _, ?final)")
proof -
  let ?r = "stream_reachable ''X''"
  let ?s = "stream_start []"
  let ?s1 = "?s\<lparr>os_pending := [demo_event], os_keys := Some [demo_event], os_log := [demo_event], os_taken := [demo_event]\<rparr>"
  note caller = stream_next [OF _ stream_caller [of _ _ "Inr []"]]
  have "?r (HFetch 0, HIdle, ?s)"
    by (rule stream_next [OF stream_init [of _ "[]"]], use stream_caller_start [of HIdle ?s "HFetch 0" ?s]
      in \<open>simp add: stream_start_def hydrate_begin_def holds_lock_gen\<close>)
  then have "?r (HFetch 0, HIdle, ?s1)"
    by (rule stream_next [OF _ stream_event [of _ _ demo_event]])
      (simp add: on_order_event_def stream_start_def enqueuePendingOrderEvent_def maxPendingOrderEvents_def)
  then have "?r (HLoop 0, HIdle, ?s1)"
    by (rule caller) (simp_all add: hydrate_step_def holds_lock_gen hydrate_ledger_def stream_start_def)
  then have "?r (HBatch 0 [demo_event], HIdle, ?s1\<lparr>os_pending := []\<rparr>)"
    by (rule caller) (simp_all add: hydrate_step_def holds_lock_gen stream_start_def)
  then have "?r (HBatch 0 [], HIdle, ?s1\<lparr>os_pending := [], os_ledger := apply_event ''X'' [] demo_event, os_applied := [demo_event]\<rparr>)"
    by (rule caller) (simp_all add: hydrate_step_def holds_lock_gen stream_start_def)
  then have "?r (HLoop 0, HIdle, ?s1\<lparr>os_pending := [], os_ledger := apply_event ''X'' [] demo_event, os_applied := [demo_event]\<rparr>)"
    by (rule caller) (simp_all add: hydrate_step_def holds_lock_gen stream_start_def)
  then show "?r (HReturned, HIdle, ?final)"
    by (rule caller) (simp_all add: hydrate_step_def holds_lock_gen stream_start_def)
qed

theorem stream_no_event_lost_witness:
  "apply_event ''X'' [] demo_event = apply_events ''X'' [demo_event] []"
proof -
  let ?s = "(stream_start [])\<lparr>os_ledger := apply_event ''X'' [] demo_event, os_hydrating := False,
     os_keys := None, os_applied := [demo_event], os_log := [demo_event], os_taken := [demo_event]\<rparr>"
  have "\<not> os_late ?s \<and> \<not> os_hydrating ?s \<and> \<not> holds_lock HIdle \<and> HIdle \<noteq> HFailed"
    by (simp add: stream_start_def holds_lock_gen)
  then have "os_ledger ?s = apply_events ''X'' (os_applied ?s) (os_base ?s)"
    using stream_no_event_lost [OF demo_stream_run, of demo_event] by blast
  then show ?thesis by (simp add: stream_start_def)
qed

text \<open>The startup race: when the reader completes a reconnect's hydration before the caller of
  StartStreaming begins its own, the caller's snapshot is installed with the buffering already over, and
  an event applied while the exchange answered is erased: the order it opened is missing from the
  ledger although the stream is healthy and nothing is in progress.\<close>

theorem stream_startup_race:
  "\<exists>s. stream_reachable ''X'' (HReturned, HIdle, s) \<and> \<not> os_hydrating s \<and> \<not> os_overflow s \<and> \<not> os_recovering s \<and>
     os_log s = [demo_event] \<and> os_ledger s = [] \<and> apply_event ''X'' [] demo_event \<noteq> []"
proof -
  let ?r = "stream_reachable ''X''"
  let ?s = "stream_start []"
  let ?s1 = "?s\<lparr>os_generation := 1, os_recovering := True\<rparr>"
  let ?s2 = "?s\<lparr>os_generation := 1, os_hydrating := False, os_keys := None\<rparr>"
  let ?s3 = "?s2\<lparr>os_late := True\<rparr>"
  let ?s4 = "?s3\<lparr>os_log := [demo_event], os_taken := [demo_event]\<rparr>"
  note caller = stream_next [OF _ stream_caller [of _ _ "Inr []"]]
  note reader = stream_next [OF _ stream_reader [of _ _ "Inr []"]]
  have "?r (HIdle, HIdle, ?s1)"
    using stream_next [OF stream_init stream_reconnecting]
    by (simp add: on_reconnecting_def stream_start_def)
  then have "?r (HIdle, HFetch 1, ?s1)"
    by (rule stream_next [OF _ stream_connected]) (simp_all add: hydrate_begin_def stream_start_def holds_lock_gen)
  then have "?r (HIdle, HLoop 1, ?s1)"
    by (rule reader) (simp_all add: hydrate_step_def holds_lock_gen stream_start_def hydrate_ledger_def)
  then have "?r (HIdle, HReturned, ?s1\<lparr>os_hydrating := False, os_keys := None\<rparr>)"
    by (rule reader) (simp_all add: hydrate_step_def holds_lock_gen stream_start_def)
  from stream_next [OF this stream_recovered] have "?r (HIdle, HIdle, ?s2)"
    by (simp add: stream_start_def)
  then have "?r (HFetch 1, HIdle, ?s3)"
    by (rule stream_next) (use stream_caller_start [of HIdle ?s2 "HFetch 1" ?s2] in
      \<open>simp add: hydrate_begin_def stream_start_def holds_lock_gen\<close>)
  then have "?r (HFetch 1, HIdle, ?s4\<lparr>os_ledger := apply_event ''X'' [] demo_event, os_applied := [demo_event]\<rparr>)"
    by (rule stream_next [OF _ stream_event [of _ _ demo_event]]) (simp add: on_order_event_def stream_start_def)
  then have "?r (HLoop 1, HIdle, ?s4)"
    by (rule caller) (simp_all add: hydrate_step_def holds_lock_gen stream_start_def hydrate_ledger_def)
  then have "?r (HReturned, HIdle, ?s4)"
    by (rule caller) (simp_all add: hydrate_step_def holds_lock_gen stream_start_def)
  moreover have "apply_event ''X'' [] demo_event \<noteq> []" by code_simp
  ultimately show ?thesis by (intro exI [of _ ?s4]) (simp add: stream_start_def)
qed

end
