(* ===== verification/Responses.thy ===== *)
theory Responses
  imports Json HttpErrors
begin

text \<open>
  Correlated answers of the websocket: \<open>ResponseFrame.UnmarshalJSON\<close> and \<open>decodeResponseID\<close> of
  \<open>websocket/models.go\<close>, and the part of \<open>dispatchResponse\<close> (\<open>websocket/client_requests.go\<close>) that
  decides what a payload is. A raw message is the JSON value it holds; decoding reports an error by
  \<open>None\<close>, a value of the wrong type is one, \<open>null\<close> leaves a number or a text as it is.
\<close>

record response_error =
  rx_Code :: int
  rx_Message :: string
  rx_Msg :: string

record response_frame =
  rp_ID :: string
  rp_Status :: int
  rp_Result :: "json option"
  rp_Error :: "response_error option"

section \<open>Decoding\<close>

definition decode_int :: "json \<Rightarrow> int option" where
  "decode_int v = (case v of JNum t \<Rightarrow> ParseInt 64 t | _ \<Rightarrow> None)"

definition decode_text :: "json \<Rightarrow> string option" where
  "decode_text v = (case v of JStr s \<Rightarrow> Some s | _ \<Rightarrow> None)"

definition decodeResponseID :: "json \<Rightarrow> string option" where
  "decodeResponseID raw =
     (case raw of
        JStr s \<Rightarrow> Some s
      | JNull \<Rightarrow> Some []
      | JNum t \<Rightarrow> Some t
      | _ \<Rightarrow> None)"

text \<open>A field of the result, with the flag that no member had a wrong type.\<close>

definition store :: "'b option \<Rightarrow> ('b \<Rightarrow> 'a \<Rightarrow> 'a) \<Rightarrow> 'a \<times> bool \<Rightarrow> 'a \<times> bool" where
  "store value put acc = (case value of Some x \<Rightarrow> (put x (fst acc), snd acc) | None \<Rightarrow> (fst acc, False))"

definition set_error_field :: "response_error \<times> bool \<Rightarrow> string \<times> json \<Rightarrow> response_error \<times> bool" where
  "set_error_field acc m =
     (case m of (k, v) \<Rightarrow>
        if v = JNull then acc
        else if field_matches ''code'' k then store (decode_int v) (\<lambda>n e. e\<lparr>rx_Code := n\<rparr>) acc
        else if field_matches ''message'' k then store (decode_text v) (\<lambda>s e. e\<lparr>rx_Message := s\<rparr>) acc
        else if field_matches ''msg'' k then store (decode_text v) (\<lambda>s e. e\<lparr>rx_Msg := s\<rparr>) acc
        else acc)"

definition decode_error_payload :: "response_error option \<Rightarrow> json \<Rightarrow> response_error option \<times> bool" where
  "decode_error_payload old v =
     (case v of
        JNull \<Rightarrow> (None, True)
      | JObj ms \<Rightarrow>
          (case foldl set_error_field
                  (case old of Some e \<Rightarrow> e | None \<Rightarrow> \<lparr>rx_Code = 0, rx_Message = [], rx_Msg = []\<rparr>, True) ms of
             (e, ok) \<Rightarrow> (Some e, ok))
      | _ \<Rightarrow> (old, False))"

text \<open>The members of the frame; the id is kept raw until the end.\<close>

definition set_frame_field ::
  "(json option \<times> response_frame) \<times> bool \<Rightarrow> string \<times> json \<Rightarrow> (json option \<times> response_frame) \<times> bool" where
  "set_frame_field acc m =
     (case m of (k, v) \<Rightarrow>
        if field_matches ''id'' k then ((Some v, snd (fst acc)), snd acc)
        else if field_matches ''status'' k then
          (if v = JNull then acc else store (decode_int v) (\<lambda>n (raw, f). (raw, f\<lparr>rp_Status := n\<rparr>)) acc)
        else if field_matches ''result'' k then
          ((fst (fst acc), (snd (fst acc))\<lparr>rp_Result := Some v\<rparr>), snd acc)
        else if field_matches ''error'' k then
          (case decode_error_payload (rp_Error (snd (fst acc))) v of
             (e, ok) \<Rightarrow> ((fst (fst acc), (snd (fst acc))\<lparr>rp_Error := e\<rparr>), snd acc \<and> ok))
        else acc)"

definition fill_message :: "response_error \<Rightarrow> response_error" where
  "fill_message e = (if rx_Message e = [] \<and> rx_Msg e \<noteq> [] then e\<lparr>rx_Message := rx_Msg e\<rparr> else e)"

definition UnmarshalJSON_response :: "(string \<times> json) list \<Rightarrow> response_frame option" where
  "UnmarshalJSON_response ms =
     (case foldl set_frame_field ((None, \<lparr>rp_ID = [], rp_Status = 0, rp_Result = None, rp_Error = None\<rparr>), True) ms of
        ((raw, f), ok) \<Rightarrow>
          if \<not> ok then None
          else
            let f1 = f\<lparr>rp_Error := map_option fill_message (rp_Error f)\<rparr>
            in case raw of
                 None \<Rightarrow> Some f1
               | Some JNull \<Rightarrow> Some f1
               | Some v \<Rightarrow> map_option (\<lambda>i. f1\<lparr>rp_ID := i\<rparr>) (decodeResponseID v))"

text \<open>A field of an anonymous struct of raw messages: the last member of that name.\<close>

definition raw_field :: "string \<Rightarrow> (string \<times> json) list \<Rightarrow> json option" where
  "raw_field name ms = map_option snd (find (\<lambda>m. field_matches name (fst m)) (rev ms))"

section \<open>What a payload is\<close>

datatype payload_kind = NoResponse | BadResponse "string option" | GoodResponse response_frame

definition payload_kind_of :: "string \<Rightarrow> payload_kind" where
  "payload_kind_of payload =
     (case parse_json payload of
        Some (JObj ms) \<Rightarrow>
          (case (raw_field ''id'' ms, raw_field ''status'' ms) of
             (Some rawID, Some rawStatus) \<Rightarrow>
               let responseID = decodeResponseID rawID;
                   id_ok = (responseID \<noteq> None \<and> responseID \<noteq> Some []);
                   status_ok = (decode_int rawStatus \<noteq> None)
               in (case UnmarshalJSON_response ms of
                     Some response \<Rightarrow>
                       if id_ok \<and> status_ok then GoodResponse response
                       else BadResponse (if id_ok then responseID else None)
                   | None \<Rightarrow> BadResponse (if id_ok then responseID else None))
           | _ \<Rightarrow> NoResponse)
      | _ \<Rightarrow> NoResponse)"

section \<open>Lemmas\<close>

lemma find_snoc: "find P (xs @ [x]) = (case find P xs of Some y \<Rightarrow> Some y | None \<Rightarrow> if P x then Some x else None)"
  by (induction xs) auto

lemma frame_raw_id:
  "fst (fst (foldl set_frame_field acc ms)) =
     (case raw_field ''id'' ms of Some v \<Rightarrow> Some v | None \<Rightarrow> fst (fst acc))"
proof (induction ms arbitrary: acc)
  case (Cons m ms)
  have "fst (fst (set_frame_field acc m)) = (if field_matches ''id'' (fst m) then Some (snd m) else fst (fst acc))"
    by (auto simp: set_frame_field_def store_def split: prod.splits option.splits if_splits)
  then show ?case
    by (auto simp: Cons raw_field_def find_snoc split: option.splits)
qed (simp add: raw_field_def)

text \<open>The answer that is delivered carries the id it is looked up with.\<close>

lemma good_response_id:
  assumes "payload_kind_of payload = GoodResponse response"
  shows "rp_ID response \<noteq> [] \<and> (\<exists>ms raw. parse_json payload = Some (JObj ms) \<and> raw_field ''id'' ms = Some raw \<and>
    decodeResponseID raw = Some (rp_ID response))"
proof -
  from assms obtain ms raw status where ms: "parse_json payload = Some (JObj ms)" "raw_field ''id'' ms = Some raw"
    "raw_field ''status'' ms = Some status"
    by (auto simp: payload_kind_of_def split: option.splits json.splits)
  then have r: "UnmarshalJSON_response ms = Some response" "decodeResponseID raw \<noteq> Some []" "decodeResponseID raw \<noteq> None"
    using assms by (auto simp: payload_kind_of_def Let_def split: option.splits if_splits)
  have "fst (fst (foldl set_frame_field ((None, \<lparr>rp_ID = [], rp_Status = 0, rp_Result = None, rp_Error = None\<rparr>), True) ms)) = Some raw"
    using ms(2) by (simp add: frame_raw_id)
  then have "decodeResponseID raw = Some (rp_ID response)"
    using r by (cases raw) (auto simp: UnmarshalJSON_response_def Let_def decodeResponseID_def split: prod.splits if_splits)
  then show ?thesis using ms r by auto
qed

end
