(* ===== verification/Subscriptions.thy ===== *)
theory Subscriptions
  imports HttpErrors "HOL-Library.AList"
begin

text \<open>
  The subscription tables of the websocket client, \<open>websocket/client.go\<close> and
  \<open>websocket/client_subscriptions.go\<close>: the eleven tables of subscribers, the active feeds that a
  reconnect replays, the variants of a feed that exclude each other, and the generation numbers that
  keep an old frame from being taken for the snapshot of a new subscription. A subscription is a
  number, its channel's state whether it is in \<open>wc_closed\<close>; a table is selected by its
  \<open>feed_kind\<close>, as \<open>getMap\<close> and \<open>setMap\<close> select it in the code. The operations are split at the wire
  request, during which the locks are free; \<open>sub_env\<close> says what happens there.
\<close>

section \<open>Tables\<close>

datatype feed_kind =
    DepthFeed | PartialDepthFeed | TradeFeed | TickerFeed | ContractFeed | OrderFeed | BalanceFeed
  | PositionFeed | SettleFeed | RFQPublicFeed | RFQPrivateFeed

type_synonym sub_map = "(string \<times> nat list) list"

type_synonym sub_tables = "feed_kind \<Rightarrow> sub_map"

definition newSubTables :: sub_tables where
  "newSubTables = (\<lambda>_. [])"

definition subs_of :: "sub_map \<Rightarrow> string \<Rightarrow> nat list" where
  "subs_of m key = (case map_of m key of Some subs \<Rightarrow> subs | None \<Rightarrow> [])"

definition addMapSub :: "sub_map \<Rightarrow> string \<Rightarrow> nat \<Rightarrow> sub_map" where
  "addMapSub m key sub = AList.update key (subs_of m key @ [sub]) m"

definition removeMapSub :: "sub_map \<Rightarrow> string \<Rightarrow> sub_map \<times> nat list \<times> bool" where
  "removeMapSub m key =
     (case map_of m key of
        None \<Rightarrow> (m, [], False)
      | Some subs \<Rightarrow> (AList.delete key m, subs, True))"

record request_frame =
  rf_ID :: int
  rf_Method :: string
  rf_Params :: "string list"

datatype connection_state = StateDisconnected | StateConnecting | StateConnected | StateReconnecting | StateClosed

definition ConnectionState_String :: "connection_state \<Rightarrow> string" where
  "ConnectionState_String s =
     (case s of
        StateDisconnected \<Rightarrow> ''Disconnected''
      | StateConnecting \<Rightarrow> ''Connecting''
      | StateConnected \<Rightarrow> ''Connected''
      | StateReconnecting \<Rightarrow> ''Reconnecting''
      | StateClosed \<Rightarrow> ''Closed'')"

record ws_client =
  wc_auth :: bool
  wc_privateOnly :: bool
  wc_snapshotMode :: bool
  wc_state :: connection_state
  wc_tables :: sub_tables
  wc_activeFeeds :: "(string \<times> request_frame) list"
  wc_snapshotPending :: "(string \<times> nat) list"
  wc_generation :: nat
  wc_reqID :: int
  wc_nextSub :: nat
  wc_closed :: "nat list"

definition new_ws_client :: "bool \<Rightarrow> bool \<Rightarrow> bool \<Rightarrow> ws_client" where
  "new_ws_client authenticated privateOnly snapshotMode =
     \<lparr>wc_auth = authenticated, wc_privateOnly = privateOnly, wc_snapshotMode = snapshotMode,
      wc_state = StateDisconnected, wc_tables = newSubTables, wc_activeFeeds = [],
      wc_snapshotPending = [], wc_generation = 0, wc_reqID = 0, wc_nextSub = 0, wc_closed = []\<rparr>"

text \<open>The errors of the subscription operations.\<close>

datatype ws_error =
    WsErr err
  | WsMsg string
  | SubscriptionVariantMismatch string string
  | SubscribeSendFailed ws_error
  | RFQScopeConflict string

section \<open>Names of feeds\<close>

definition normalizeSymbol :: "string \<Rightarrow> ws_error + string" where
  "normalizeSymbol symbol =
     (let normalized = ToUpper (TrimSpace symbol)
      in if normalized = [] then Inl (WsMsg ''gemini websocket: symbol is required'') else Inr normalized)"

definition millisecond :: int where "millisecond = 1000000"

definition depthIntervalSuffix :: "int \<Rightarrow> ws_error + string" where
  "depthIntervalSuffix interval =
     (if interval = 0 then Inr ''depth''
      else if interval = 100 * millisecond then Inr ''depth@100ms''
      else Inl (WsMsg ''gemini websocket: depth interval must be 0 or 100ms''))"

definition partialDepthStreamSuffix :: "int \<Rightarrow> int \<Rightarrow> ws_error + string" where
  "partialDepthStreamSuffix requested interval =
     (let levels = (if requested = 0 then 10 else requested)
      in if levels \<noteq> 5 \<and> levels \<noteq> 10 \<and> levels \<noteq> 20
         then Inl (WsMsg ''gemini websocket: partial depth levels must be 5, 10, or 20'')
         else
           let suffix = ''depth'' @ FormatInt levels
           in if interval = 0 then Inr suffix
              else if interval \<noteq> 100 * millisecond
              then Inl (WsMsg ''gemini websocket: partial depth interval must be 0 or 100ms'')
              else Inr (suffix @ ''@100ms''))"

definition accountStreamName :: "string \<Rightarrow> int \<Rightarrow> ws_error + string" where
  "accountStreamName base interval =
     (if interval = 0 then Inr (base @ ''@account'')
      else if interval = 1000 * millisecond then Inr (base @ ''@account@1s'')
      else Inl (WsMsg ''gemini websocket: account stream interval must be 0 or 1s''))"

definition ScopeAccount :: string where "ScopeAccount = ''account''"
definition ScopeSession :: string where "ScopeSession = ''session''"

text \<open>\<open>strings.Cut\<close> at a separator of one byte, \<open>strings.HasSuffix\<close> and \<open>strings.TrimSuffix\<close>.\<close>

definition CutByte :: "char \<Rightarrow> string \<Rightarrow> string \<times> string \<times> bool" where
  "CutByte c s =
     (if c \<in> set s then (takeWhile (\<lambda>x. x \<noteq> c) s, tl (dropWhile (\<lambda>x. x \<noteq> c) s), True) else (s, [], False))"

definition has_suffix :: "string \<Rightarrow> string \<Rightarrow> bool" where
  "has_suffix s e \<longleftrightarrow> length e \<le> length s \<and> drop (length s - length e) s = e"

definition TrimSuffix :: "string \<Rightarrow> string \<Rightarrow> string" where
  "TrimSuffix s e = (if has_suffix s e then take (length s - length e) s else s)"

definition feed_key :: "string \<Rightarrow> string \<Rightarrow> string \<Rightarrow> string" where
  "feed_key feedPrefix normSymbol streamSuffix =
     (if streamSuffix = ''contractStatus'' then ''contractStatus''
      else feedPrefix @ '':'' @ normSymbol @ ''@'' @ streamSuffix)"

definition feed_stream :: "string \<Rightarrow> string \<Rightarrow> string" where
  "feed_stream normSymbol streamSuffix =
     (if streamSuffix = ''contractStatus'' then ''contractStatus''
      else ToLower normSymbol @ ''@'' @ streamSuffix)"

definition subscriptionVariantFamily :: "string \<Rightarrow> string" where
  "subscriptionVariantFamily feedKey =
     (if has_prefix feedKey ''depth:'' \<or> has_prefix feedKey ''partialDepth:'' then
        (case CutByte (CHR '':'') feedKey of
           (_, rest, ok) \<Rightarrow>
             if \<not> ok then []
             else case CutByte (CHR ''@'') rest of
               (symbol, _, ok2) \<Rightarrow> if \<not> ok2 \<or> symbol = [] then [] else ''depth:'' @ symbol)
      else case find (has_prefix feedKey) [''orders@'', ''balances@'', ''positions@''] of
        Some prefix \<Rightarrow> TrimSuffix prefix ''@''
      | None \<Rightarrow> [])"

definition validateActiveSubscriptionVariant :: "ws_client \<Rightarrow> string \<Rightarrow> string \<Rightarrow> ws_error option" where
  "validateActiveSubscriptionVariant c requestedKey requestedStream =
     (let family = subscriptionVariantFamily requestedKey
      in if family = [] then None
         else case find (\<lambda>activeKey. activeKey \<noteq> requestedKey \<and> subscriptionVariantFamily activeKey = family)
                     (map fst (wc_activeFeeds c)) of
           Some activeKey \<Rightarrow> Some (SubscriptionVariantMismatch activeKey requestedStream)
         | None \<Rightarrow> None)"

section \<open>The critical sections\<close>

text \<open>Subscribing: the new client, the request frame, the new subscription and whether the feed must be
  requested on the wire.\<close>

definition new_frame :: "ws_client \<Rightarrow> string \<Rightarrow> string \<Rightarrow> request_frame" where
  "new_frame c method stream = \<lparr>rf_ID = wc_reqID c + 1, rf_Method = method, rf_Params = [stream]\<rparr>"

definition register_public ::
  "feed_kind \<Rightarrow> string \<Rightarrow> string \<Rightarrow> string \<Rightarrow> ws_client \<Rightarrow> ws_error + ws_client \<times> request_frame \<times> nat \<times> bool" where
  "register_public kind feedPrefix streamSuffix normSymbol c =
     (let feedKey = feed_key feedPrefix normSymbol streamSuffix;
          stream = feed_stream normSymbol streamSuffix;
          req = new_frame c ''SUBSCRIBE'' stream;
          sub = wc_nextSub c
      in case validateActiveSubscriptionVariant c feedKey stream of
           Some e \<Rightarrow> Inl e
         | None \<Rightarrow>
             let need = (map_of (wc_activeFeeds c) feedKey = None);
                 c1 = c\<lparr>wc_reqID := wc_reqID c + 1, wc_nextSub := Suc sub,
                        wc_tables := (wc_tables c)(kind := addMapSub (wc_tables c kind) normSymbol sub)\<rparr>;
                 c2 = (if need then c1\<lparr>wc_activeFeeds := AList.update feedKey req (wc_activeFeeds c)\<rparr> else c1);
                 c3 = (if need \<and> feedPrefix = ''depth'' \<and> wc_snapshotMode c
                       then c2\<lparr>wc_generation := Suc (wc_generation c),
                               wc_snapshotPending := AList.update normSymbol (Suc (wc_generation c)) (wc_snapshotPending c)\<rparr>
                       else c2)
             in Inr (c3, req, sub, need))"

text \<open>A refused subscription: \<open>removePublicSubscription\<close> and \<open>removePrivateSubscription\<close>.\<close>

definition close_subs :: "nat list \<Rightarrow> ws_client \<Rightarrow> ws_client" where
  "close_subs subs c = c\<lparr>wc_closed := wc_closed c @ subs\<rparr>"

definition set_subs :: "sub_map \<Rightarrow> string \<Rightarrow> nat list \<Rightarrow> sub_map" where
  "set_subs m key subs = (if subs = [] then AList.delete key m else AList.update key subs m)"

definition removePublicSubscription ::
  "feed_kind \<Rightarrow> string \<Rightarrow> string \<Rightarrow> string \<Rightarrow> nat \<Rightarrow> ws_client \<Rightarrow> ws_client" where
  "removePublicSubscription kind feedPrefix feedKey symbol target c =
     (let list = subs_of (wc_tables c kind) symbol;
          remaining = filter (\<lambda>sub. sub \<noteq> target) list;
          c1 = c\<lparr>wc_tables := (wc_tables c)(kind := set_subs (wc_tables c kind) symbol remaining)\<rparr>;
          c2 = (if remaining = [] then c1\<lparr>wc_activeFeeds := AList.delete feedKey (wc_activeFeeds c)\<rparr> else c1);
          c3 = (if remaining = [] \<and> feedPrefix = ''depth''
                then c2\<lparr>wc_snapshotPending := AList.delete symbol (wc_snapshotPending c)\<rparr> else c2)
      in close_subs [target] (if target \<in> set list then c3 else c))"

definition removePrivateSubscription :: "feed_kind \<Rightarrow> string \<Rightarrow> nat \<Rightarrow> ws_client \<Rightarrow> ws_client" where
  "removePrivateSubscription kind feedName target c =
     (let current = subs_of (wc_tables c kind) feedName;
          remaining = filter (\<lambda>sub. sub \<noteq> target) current;
          c1 = c\<lparr>wc_tables := (wc_tables c)(kind := set_subs (wc_tables c kind) feedName remaining)\<rparr>;
          c2 = (if remaining = [] then c1\<lparr>wc_activeFeeds := AList.delete feedName (wc_activeFeeds c)\<rparr> else c1)
      in close_subs [target] (if target \<in> set current then c2 else c))"

text \<open>Unsubscribing a public feed: \<open>None\<close> when nobody is subscribed, otherwise the new client, with the
  subscriptions closed, and whether the feed must be cancelled on the wire.\<close>

definition unregister_public ::
  "feed_kind \<Rightarrow> string \<Rightarrow> string \<Rightarrow> string \<Rightarrow> ws_client \<Rightarrow> ws_error + (ws_client \<times> bool) option" where
  "unregister_public kind feedPrefix streamSuffix normSymbol c =
     (let feedKey = feed_key feedPrefix normSymbol streamSuffix;
          stream = feed_stream normSymbol streamSuffix;
          isContract = (streamSuffix = ''contractStatus'')
      in case (if isContract then None else validateActiveSubscriptionVariant c feedKey stream) of
           Some e \<Rightarrow> Inl e
         | None \<Rightarrow>
             (case removeMapSub (wc_tables c kind) normSymbol of
                (newMap, subs, exists) \<Rightarrow>
                  if \<not> exists then Inr None
                  else
                    let c1 = c\<lparr>wc_tables := (wc_tables c)(kind := newMap)\<rparr>;
                        need = (if isContract then wc_tables c1 ContractFeed = [] else True);
                        c2 = (if isContract \<and> \<not> need then c1
                              else c1\<lparr>wc_activeFeeds := AList.delete feedKey (wc_activeFeeds c)\<rparr>);
                        c3 = (if \<not> isContract \<and> feedPrefix = ''depth''
                              then c2\<lparr>wc_snapshotPending := AList.delete normSymbol (wc_snapshotPending c),
                                      wc_generation := Suc (wc_generation c)\<rparr>
                              else c2)
                    in Inr (Some (close_subs subs c3, need \<and> wc_state c = StateConnected))))"

text \<open>Private feeds; the public RFQ stream uses the same section without the variant check, whose
  family is empty for it.\<close>

definition register_private ::
  "feed_kind \<Rightarrow> string \<Rightarrow> ws_client \<Rightarrow> ws_error + ws_client \<times> request_frame \<times> nat \<times> bool" where
  "register_private kind feedName c =
     (let req = new_frame c ''SUBSCRIBE'' feedName;
          sub = wc_nextSub c
      in case validateActiveSubscriptionVariant c feedName feedName of
           Some e \<Rightarrow> Inl e
         | None \<Rightarrow>
             let need = (subs_of (wc_tables c kind) feedName = []);
                 c1 = c\<lparr>wc_reqID := wc_reqID c + 1, wc_nextSub := Suc sub,
                        wc_tables := (wc_tables c)(kind := addMapSub (wc_tables c kind) feedName sub)\<rparr>;
                 c2 = (if need then c1\<lparr>wc_activeFeeds := AList.update feedName req (wc_activeFeeds c)\<rparr> else c1)
             in Inr (c2, req, sub, need))"

definition unregister_private :: "feed_kind \<Rightarrow> string \<Rightarrow> ws_client \<Rightarrow> ws_client \<times> bool" where
  "unregister_private kind feedName c =
     (let subs = subs_of (wc_tables c kind) feedName
      in if subs = [] then (c\<lparr>wc_activeFeeds := AList.delete feedName (wc_activeFeeds c)\<rparr>, False)
         else
           (close_subs subs
             (c\<lparr>wc_tables := (wc_tables c)(kind := AList.delete feedName (wc_tables c kind)),
                wc_activeFeeds := AList.delete feedName (wc_activeFeeds c)\<rparr>),
            wc_state c = StateConnected))"

text \<open>Closing one channel of a private feed.\<close>

definition unregister_channel :: "feed_kind \<Rightarrow> string \<Rightarrow> nat \<Rightarrow> ws_client \<Rightarrow> ws_client \<times> bool" where
  "unregister_channel kind feedName target c =
     (let subs = subs_of (wc_tables c kind) feedName
      in if target \<notin> set subs then (c, False)
         else
           let remaining = remove1 target subs;
               c1 = c\<lparr>wc_tables := (wc_tables c)(kind := set_subs (wc_tables c kind) feedName remaining)\<rparr>;
               need = (remaining = []);
               c2 = (if need then c1\<lparr>wc_activeFeeds := AList.delete feedName (wc_activeFeeds c)\<rparr> else c1)
           in (close_subs [target] c2, need \<and> wc_state c = StateConnected))"

text \<open>The public RFQ stream: no variant is checked.\<close>

definition register_global :: "feed_kind \<Rightarrow> string \<Rightarrow> ws_client \<Rightarrow> ws_client \<times> request_frame \<times> nat \<times> bool" where
  "register_global kind feedName c =
     (let req = new_frame c ''SUBSCRIBE'' feedName;
          sub = wc_nextSub c;
          need = (subs_of (wc_tables c kind) feedName = []);
          c1 = c\<lparr>wc_reqID := wc_reqID c + 1, wc_nextSub := Suc sub,
                 wc_tables := (wc_tables c)(kind := addMapSub (wc_tables c kind) feedName sub)\<rparr>;
          c2 = (if need then c1\<lparr>wc_activeFeeds := AList.update feedName req (wc_activeFeeds c)\<rparr> else c1)
      in (c2, req, sub, need))"

text \<open>A dead connection: every subscriber's channel is closed (\<open>failSubscriptionsIfCurrentLocked\<close> on a
  current lifecycle, and the same section of \<open>Close\<close>).\<close>

definition all_subs :: "sub_tables \<Rightarrow> nat list" where
  "all_subs tables =
     concat (map (\<lambda>kind. concat (map snd (tables kind)))
       [DepthFeed, PartialDepthFeed, TradeFeed, TickerFeed, ContractFeed, OrderFeed, BalanceFeed,
        PositionFeed, SettleFeed, RFQPublicFeed, RFQPrivateFeed])"

definition failSubscriptions :: "ws_client \<Rightarrow> ws_client" where
  "failSubscriptions c =
     close_subs (all_subs (wc_tables c))
       (c\<lparr>wc_tables := newSubTables, wc_activeFeeds := [], wc_snapshotPending := []\<rparr>)"

section \<open>Snapshots and replay\<close>

definition differentialDepthSymbol :: "string \<Rightarrow> string option" where
  "differentialDepthSymbol stream =
     (case find (\<lambda>suffix. has_suffix stream suffix \<and> TrimSuffix stream suffix \<noteq> []) [''@depth@100ms'', ''@depth''] of
        Some suffix \<Rightarrow> Some (TrimSuffix stream suffix)
      | None \<Rightarrow> None)"

definition markSnapshotPending :: "ws_client \<Rightarrow> request_frame \<Rightarrow> ws_client" where
  "markSnapshotPending c frame =
     (if \<not> wc_snapshotMode c \<or> rf_Params frame = [] then c
      else case differentialDepthSymbol (rf_Params frame ! 0) of
        None \<Rightarrow> c
      | Some symbol \<Rightarrow>
          c\<lparr>wc_generation := Suc (wc_generation c),
            wc_snapshotPending := AList.update (ToUpper symbol) (Suc (wc_generation c)) (wc_snapshotPending c)\<rparr>)"

definition consumeSnapshotPending :: "ws_client \<Rightarrow> string \<Rightarrow> nat \<Rightarrow> bool \<times> ws_client" where
  "consumeSnapshotPending c symbol frameGeneration =
     (case map_of (wc_snapshotPending c) (ToUpper symbol) of
        None \<Rightarrow> (False, c)
      | Some pendingGeneration \<Rightarrow>
          if frameGeneration < pendingGeneration then (False, c)
          else (True, c\<lparr>wc_snapshotPending := AList.delete (ToUpper symbol) (wc_snapshotPending c)\<rparr>))"

definition sameRequestFrame :: "request_frame \<Rightarrow> request_frame \<Rightarrow> bool" where
  "sameRequestFrame a b \<longleftrightarrow>
     rf_ID a = rf_ID b \<and> rf_Method a = rf_Method b \<and> length (rf_Params a) = length (rf_Params b) \<and>
     list_all2 (=) (rf_Params a) (rf_Params b)"

text \<open>The replay after a reconnect. \<open>re_current\<close> says whether the lifecycle is still the caller's at a
  check (two per feed), \<open>re_world\<close> what other threads did to the client before a feed's turn,
  \<open>re_wire\<close> how the request of a feed ended.\<close>

record replay_env =
  re_current :: "nat \<Rightarrow> bool"
  re_gate :: "nat \<Rightarrow> ws_error option"
  re_world :: "nat \<Rightarrow> ws_client \<Rightarrow> ws_client"
  re_wire :: "nat \<Rightarrow> request_frame \<Rightarrow> ws_error option"

fun replay_feeds ::
  "replay_env \<Rightarrow> nat \<Rightarrow> (string \<times> request_frame) list \<Rightarrow> ws_client \<Rightarrow> request_frame list \<Rightarrow> ws_error list \<Rightarrow>
   ws_client \<times> request_frame list \<times> ws_error list" where
  "replay_feeds env i [] c sent errs = (c, sent, errs)"
| "replay_feeds env i ((key, frame) # feeds) c sent errs =
     (if \<not> re_current env (2 * i) then (c, sent, [])
      else case re_gate env i of
        Some e \<Rightarrow> replay_feeds env (Suc i) feeds c sent (errs @ [e])
      | None \<Rightarrow>
          if \<not> re_current env (2 * i + 1) then (c, sent, [])
          else
            let c1 = re_world env i c;
                stillCurrent = (case map_of (wc_activeFeeds c1) key of
                                  Some current \<Rightarrow> sameRequestFrame current frame | None \<Rightarrow> False)
            in if \<not> stillCurrent then replay_feeds env (Suc i) feeds c1 sent errs
               else replay_feeds env (Suc i) feeds c1 (sent @ [frame])
                      (case re_wire env i frame of Some e \<Rightarrow> errs @ [e] | None \<Rightarrow> errs))"

definition replay_begin :: "ws_client \<Rightarrow> (string \<times> request_frame) list \<times> ws_client" where
  "replay_begin c = (wc_activeFeeds c, foldl markSnapshotPending c (map snd (wc_activeFeeds c)))"

definition resubscribeActiveFeeds ::
  "ws_error option \<Rightarrow> bool \<Rightarrow> replay_env \<Rightarrow> ws_client \<Rightarrow> ws_client \<times> request_frame list \<times> ws_error list" where
  "resubscribeActiveFeeds gate current env c =
     (case gate of
        Some e \<Rightarrow> (c, [], [e])
      | None \<Rightarrow>
          if \<not> current then (c, [], [])
          else case replay_begin c of (feeds, c1) \<Rightarrow> replay_feeds env 0 feeds c1 [] [])"

section \<open>The operations\<close>

text \<open>What happens around the sections: the connection attempt, the acquisition of the feed's gate,
  and the wire request with everything other threads do until it is answered.\<close>

record sub_env =
  se_connect :: "ws_client \<Rightarrow> ws_client \<times> ws_error option"
  se_gate :: "ws_error option"
  se_wire :: "ws_client \<Rightarrow> string list \<Rightarrow> ws_client \<times> ws_error option"

definition request_feed ::
  "sub_env \<Rightarrow> (ws_client \<Rightarrow> ws_client) \<Rightarrow> ws_client \<times> request_frame \<times> nat \<times> bool \<Rightarrow> ws_client \<times> (ws_error + nat)" where
  "request_feed env remove registered =
     (case registered of (c, req, sub, need) \<Rightarrow>
        if \<not> need then (c, Inr sub)
        else case se_wire env c (rf_Params req) of
          (c1, None) \<Rightarrow> (c1, Inr sub)
        | (c1, Some e) \<Rightarrow> (remove c1, Inl (SubscribeSendFailed e)))"

definition subscribePublicFeed ::
  "sub_env \<Rightarrow> feed_kind \<Rightarrow> string \<Rightarrow> string \<Rightarrow> string \<Rightarrow> ws_client \<Rightarrow> ws_client \<times> (ws_error + nat)" where
  "subscribePublicFeed env kind feedPrefix streamSuffix symbol c =
     (case normalizeSymbol symbol of
        Inl e \<Rightarrow> (c, Inl e)
      | Inr normSymbol \<Rightarrow>
          (case se_connect env c of
             (c1, Some e) \<Rightarrow> (c1, Inl e)
           | (c1, None) \<Rightarrow>
               (case se_gate env of
                  Some e \<Rightarrow> (c1, Inl e)
                | None \<Rightarrow>
                    (case register_public kind feedPrefix streamSuffix normSymbol c1 of
                       Inl e \<Rightarrow> (c1, Inl e)
                     | Inr (c2, req, sub, need) \<Rightarrow>
                         request_feed env
                           (removePublicSubscription kind feedPrefix (feed_key feedPrefix normSymbol streamSuffix) normSymbol sub)
                           (c2, req, sub, need)))))"

definition unsubscribe_feed ::
  "sub_env \<Rightarrow> string \<Rightarrow> ws_client \<times> bool \<Rightarrow> ws_client \<times> ws_error option" where
  "unsubscribe_feed env stream unregistered =
     (case unregistered of (c, need) \<Rightarrow> if need then se_wire env c [stream] else (c, None))"

definition unsubscribePublicFeed ::
  "sub_env \<Rightarrow> feed_kind \<Rightarrow> string \<Rightarrow> string \<Rightarrow> string \<Rightarrow> ws_client \<Rightarrow> ws_client \<times> ws_error option" where
  "unsubscribePublicFeed env kind feedPrefix streamSuffix symbol c =
     (case normalizeSymbol symbol of
        Inl e \<Rightarrow> (c, Some e)
      | Inr normSymbol \<Rightarrow>
          (case se_gate env of
             Some e \<Rightarrow> (c, Some e)
           | None \<Rightarrow>
               (case unregister_public kind feedPrefix streamSuffix normSymbol c of
                  Inl e \<Rightarrow> (c, Some e)
                | Inr None \<Rightarrow> (c, None)
                | Inr (Some unregistered) \<Rightarrow>
                    unsubscribe_feed env (feed_stream normSymbol streamSuffix) unregistered)))"

definition subscribePrivateFeed ::
  "sub_env \<Rightarrow> feed_kind \<Rightarrow> string \<Rightarrow> ws_client \<Rightarrow> ws_client \<times> (ws_error + nat)" where
  "subscribePrivateFeed env kind feedName c =
     (if \<not> wc_auth c then (c, Inl (WsErr (ESent ErrAuthenticationRequired)))
      else case se_connect env c of
        (c1, Some e) \<Rightarrow> (c1, Inl e)
      | (c1, None) \<Rightarrow>
          (case se_gate env of
             Some e \<Rightarrow> (c1, Inl e)
           | None \<Rightarrow>
               (case register_private kind feedName c1 of
                  Inl e \<Rightarrow> (c1, Inl e)
                | Inr (c2, req, sub, need) \<Rightarrow>
                    request_feed env (removePrivateSubscription kind feedName sub) (c2, req, sub, need))))"

definition subscribeGlobalFeed ::
  "sub_env \<Rightarrow> feed_kind \<Rightarrow> string \<Rightarrow> ws_client \<Rightarrow> ws_client \<times> (ws_error + nat)" where
  "subscribeGlobalFeed env kind feedName c =
     (case se_connect env c of
        (c1, Some e) \<Rightarrow> (c1, Inl e)
      | (c1, None) \<Rightarrow>
          (case se_gate env of
             Some e \<Rightarrow> (c1, Inl e)
           | None \<Rightarrow>
               (case register_global kind feedName c1 of (c2, req, sub, need) \<Rightarrow>
                  request_feed env (removePrivateSubscription kind feedName sub) (c2, req, sub, need))))"

definition unsubscribePrivateFeed ::
  "sub_env \<Rightarrow> feed_kind \<Rightarrow> string \<Rightarrow> ws_client \<Rightarrow> ws_client \<times> ws_error option" where
  "unsubscribePrivateFeed env kind feedName c =
     (case se_gate env of
        Some e \<Rightarrow> (c, Some e)
      | None \<Rightarrow> unsubscribe_feed env feedName (unregister_private kind feedName c))"

definition unsubscribePrivateFeedChannel ::
  "sub_env \<Rightarrow> feed_kind \<Rightarrow> string \<Rightarrow> nat option \<Rightarrow> ws_client \<Rightarrow> ws_client \<times> ws_error option" where
  "unsubscribePrivateFeedChannel env kind feedName target c =
     (case target of
        None \<Rightarrow> (c, None)
      | Some sub \<Rightarrow>
          (case se_gate env of
             Some e \<Rightarrow> (c, Some e)
           | None \<Rightarrow> unsubscribe_feed env feedName (unregister_channel kind feedName sub c)))"

section \<open>The public interface\<close>

definition SubscribeTrades where
  "SubscribeTrades env symbol = subscribePublicFeed env TradeFeed ''trade'' ''trade'' symbol"
definition SubscribeBookTicker where
  "SubscribeBookTicker env symbol = subscribePublicFeed env TickerFeed ''bookTicker'' ''bookTicker'' symbol"
definition SubscribeContractStatus where
  "SubscribeContractStatus env symbol = subscribePublicFeed env ContractFeed ''contractStatus'' ''contractStatus'' symbol"
definition UnsubscribeTrades where
  "UnsubscribeTrades env symbol = unsubscribePublicFeed env TradeFeed ''trade'' ''trade'' symbol"
definition UnsubscribeBookTicker where
  "UnsubscribeBookTicker env symbol = unsubscribePublicFeed env TickerFeed ''bookTicker'' ''bookTicker'' symbol"
definition UnsubscribeContractStatus where
  "UnsubscribeContractStatus env symbol = unsubscribePublicFeed env ContractFeed ''contractStatus'' ''contractStatus'' symbol"

definition valid_scope :: "string \<Rightarrow> bool" where
  "valid_scope scope \<longleftrightarrow> scope = ScopeAccount \<or> scope = ScopeSession"

definition order_scope_error :: ws_error where
  "order_scope_error = WsMsg ''gemini websocket: order stream scope must be account or session''"

definition SubscribeOrderEventsWithScope ::
  "sub_env \<Rightarrow> string \<Rightarrow> ws_client \<Rightarrow> ws_client \<times> (ws_error + nat)" where
  "SubscribeOrderEventsWithScope env scope c =
     (if \<not> valid_scope scope then (c, Inl order_scope_error)
      else subscribePrivateFeed env OrderFeed (''orders@'' @ scope) c)"
definition SubscribeOrderEvents where
  "SubscribeOrderEvents env = SubscribeOrderEventsWithScope env ScopeAccount"
definition UnsubscribeOrderEventsWithScope ::
  "sub_env \<Rightarrow> string \<Rightarrow> ws_client \<Rightarrow> ws_client \<times> ws_error option" where
  "UnsubscribeOrderEventsWithScope env scope c =
     (if \<not> valid_scope scope then (c, Some order_scope_error)
      else unsubscribePrivateFeed env OrderFeed (''orders@'' @ scope) c)"
definition UnsubscribeOrderEvents where
  "UnsubscribeOrderEvents env = UnsubscribeOrderEventsWithScope env ScopeAccount"
definition UnsubscribeOrderEventsChannelWithScope ::
  "sub_env \<Rightarrow> string \<Rightarrow> nat option \<Rightarrow> ws_client \<Rightarrow> ws_client \<times> ws_error option" where
  "UnsubscribeOrderEventsChannelWithScope env scope ch c =
     (if \<not> valid_scope scope then (c, Some order_scope_error)
      else unsubscribePrivateFeedChannel env OrderFeed (''orders@'' @ scope) ch c)"
definition UnsubscribeOrderEventsChannel where
  "UnsubscribeOrderEventsChannel env ch = UnsubscribeOrderEventsChannelWithScope env ScopeAccount ch"

text \<open>Balances and positions, with their interval.\<close>

definition subscribe_account_stream ::
  "sub_env \<Rightarrow> feed_kind \<Rightarrow> string \<Rightarrow> int \<Rightarrow> ws_client \<Rightarrow> ws_client \<times> (ws_error + nat)" where
  "subscribe_account_stream env kind base interval c =
     (case accountStreamName base interval of
        Inl e \<Rightarrow> (c, Inl e) | Inr feedName \<Rightarrow> subscribePrivateFeed env kind feedName c)"
definition unsubscribe_account_stream ::
  "sub_env \<Rightarrow> feed_kind \<Rightarrow> string \<Rightarrow> int \<Rightarrow> ws_client \<Rightarrow> ws_client \<times> ws_error option" where
  "unsubscribe_account_stream env kind base interval c =
     (case accountStreamName base interval of
        Inl e \<Rightarrow> (c, Some e) | Inr feedName \<Rightarrow> unsubscribePrivateFeed env kind feedName c)"
definition SubscribeBalancesWithOptions where
  "SubscribeBalancesWithOptions env = subscribe_account_stream env BalanceFeed ''balances''"
definition SubscribeBalances where "SubscribeBalances env = SubscribeBalancesWithOptions env 0"
definition UnsubscribeBalancesWithOptions where
  "UnsubscribeBalancesWithOptions env = unsubscribe_account_stream env BalanceFeed ''balances''"
definition UnsubscribeBalances where "UnsubscribeBalances env = UnsubscribeBalancesWithOptions env 0"
definition SubscribePositionsWithOptions where
  "SubscribePositionsWithOptions env = subscribe_account_stream env PositionFeed ''positions''"
definition SubscribePositions where "SubscribePositions env = SubscribePositionsWithOptions env 0"
definition UnsubscribePositionsWithOptions where
  "UnsubscribePositionsWithOptions env = unsubscribe_account_stream env PositionFeed ''positions''"
definition UnsubscribePositions where "UnsubscribePositions env = UnsubscribePositionsWithOptions env 0"
definition SubscribeSettlements where
  "SubscribeSettlements env = subscribePrivateFeed env SettleFeed ''settlements@account''"
definition UnsubscribeSettlements where
  "UnsubscribeSettlements env = unsubscribePrivateFeed env SettleFeed ''settlements@account''"

text \<open>The RFQ streams of \<open>websocket/rfq.go\<close>; the scope mutex is held throughout.\<close>

definition SubscribeRFQEvents where
  "SubscribeRFQEvents env = subscribeGlobalFeed env RFQPublicFeed ''requestForQuote''"
definition UnsubscribeRFQEvents where
  "UnsubscribeRFQEvents env = unsubscribePrivateFeed env RFQPublicFeed ''requestForQuote''"

definition ensureRFQScopeAvailable :: "ws_client \<Rightarrow> string \<Rightarrow> ws_error option" where
  "ensureRFQScopeAvailable c scope =
     (case find (\<lambda>(feed, subscriptions). feed \<noteq> ''requestForQuote@'' @ scope \<and> 0 < length subscriptions)
             (wc_tables c RFQPrivateFeed) of
        Some (feed, _) \<Rightarrow> Some (RFQScopeConflict feed)
      | None \<Rightarrow> None)"

definition rfq_scope_error :: ws_error where
  "rfq_scope_error = WsMsg ''gemini websocket: RFQ stream scope must be account or session''"

definition SubscribeRFQDeliveries :: "sub_env \<Rightarrow> string \<Rightarrow> ws_client \<Rightarrow> ws_client \<times> (ws_error + nat)" where
  "SubscribeRFQDeliveries env scope c =
     (if \<not> valid_scope scope then (c, Inl rfq_scope_error)
      else case ensureRFQScopeAvailable c scope of
        Some e \<Rightarrow> (c, Inl e)
      | None \<Rightarrow> subscribePrivateFeed env RFQPrivateFeed (''requestForQuote@'' @ scope) c)"

definition UnsubscribeRFQDeliveries :: "sub_env \<Rightarrow> string \<Rightarrow> ws_client \<Rightarrow> ws_client \<times> ws_error option" where
  "UnsubscribeRFQDeliveries env scope c =
     (if \<not> valid_scope scope then (c, Some rfq_scope_error)
      else unsubscribePrivateFeed env RFQPrivateFeed (''requestForQuote@'' @ scope) c)"

end
