(* ===== verification/Connection.thy ===== *)
theory Connection
  imports Responses Subscriptions "HOL-Library.Multiset"
begin

text \<open>
  The lifecycle of the websocket connection, \<open>websocket/client_connection.go\<close>, and the requests
  correlated over it, \<open>websocket/client_requests.go\<close>. Each operation is split where the code leaves
  \<open>c.mu\<close>: what it does in one critical section is one function on the client. Sockets, the channels
  that waiters of a connection attempt hold (\<open>connectDone\<close>) and the channels of pending requests are
  numbers; a socket is open while it is in \<open>cn_sockets\<close>. The lifecycle counter is unbounded. The
  subscriptions are the \<open>ws_client\<close> of \<open>Subscriptions\<close>, whose state field is the client's state.
\<close>

section \<open>State\<close>

datatype conn_error =
    ConnClosed
  | ConnAuthRequired
  | ConnNoDialer
  | ConnConfig string
  | ConnNotConnected
  | ConnDial err
  | ConnRead err
  | ConnTooLarge int int
  | ConnMalformed
  | ConnSlowConsumer
  | ConnResubscribe "ws_error list"
  | ConnFailed conn_error
  | ConnReplayFailed conn_error
  | ConnReplayLost
  | ConnReconnectAuth err
  | ConnMaxReconnects "err option"
  | ConnRequest string int int string

type_synonym request_result = "conn_error + response_frame"

record ws_conn =
  cn_ws :: ws_client
  cn_config :: "conn_error option"
  cn_dialer :: bool
  cn_auto :: bool
  cn_max :: int
  cn_limit :: int
  cn_conn :: "nat option"
  cn_sockets :: "nat list"
  cn_nextSocket :: nat
  cn_lifecycle :: nat
  cn_gate :: bool
  cn_done :: bool
  cn_replay :: bool
  cn_connectDone :: "nat option"
  cn_nextDone :: nat
  cn_closedDone :: "nat list"
  cn_connectErr :: "conn_error option"
  cn_pending :: "(string \<times> nat) list"
  cn_reqID :: nat
  cn_results :: "(nat \<times> request_result) list"
  cn_events :: "(connection_state \<times> conn_error option) list"

definition State :: "ws_conn \<Rightarrow> connection_state" where
  "State c = wc_state (cn_ws c)"

definition new_ws_conn :: "ws_client \<Rightarrow> conn_error option \<Rightarrow> bool \<Rightarrow> bool \<Rightarrow> int \<Rightarrow> int \<Rightarrow> ws_conn" where
  "new_ws_conn ws config dialer auto maxReconnects limit =
     \<lparr>cn_ws = ws, cn_config = config, cn_dialer = dialer, cn_auto = auto, cn_max = maxReconnects,
      cn_limit = limit, cn_conn = None, cn_sockets = [], cn_nextSocket = 0, cn_lifecycle = 0,
      cn_gate = True, cn_done = False, cn_replay = False, cn_connectDone = None, cn_nextDone = 0,
      cn_closedDone = [], cn_connectErr = None, cn_pending = [], cn_reqID = 0, cn_results = [],
      cn_events = []\<rparr>"

text \<open>A published event is recorded; its delivery to the event channels is not part of the model.\<close>

definition publishEvent :: "connection_state \<Rightarrow> conn_error option \<Rightarrow> ws_conn \<Rightarrow> ws_conn" where
  "publishEvent s e c = c\<lparr>cn_events := cn_events c @ [(s, e)]\<rparr>"

definition store_state :: "connection_state \<Rightarrow> ws_conn \<Rightarrow> ws_conn" where
  "store_state s c = c\<lparr>cn_ws := (cn_ws c)\<lparr>wc_state := s\<rparr>\<rparr>"

definition setState :: "connection_state \<Rightarrow> conn_error option \<Rightarrow> ws_conn \<Rightarrow> ws_conn" where
  "setState s e c = publishEvent s e (store_state s c)"

definition set_gate :: "bool \<Rightarrow> ws_conn \<Rightarrow> ws_conn" where
  "set_gate free c = c\<lparr>cn_gate := free\<rparr>"

definition close_socket :: "nat \<Rightarrow> ws_conn \<Rightarrow> ws_conn" where
  "close_socket k c = c\<lparr>cn_sockets := removeAll k (cn_sockets c)\<rparr>"

definition drop_conn :: "ws_conn \<Rightarrow> ws_conn" where
  "drop_conn c = (case cn_conn c of Some k \<Rightarrow> (close_socket k c)\<lparr>cn_conn := None\<rparr> | None \<Rightarrow> c)"

definition startConnectAttempt :: "ws_conn \<Rightarrow> ws_conn" where
  "startConnectAttempt c =
     (let c1 = c\<lparr>cn_lifecycle := Suc (cn_lifecycle c), cn_connectErr := None\<rparr>;
          fresh = c1\<lparr>cn_connectDone := Some (cn_nextDone c), cn_nextDone := Suc (cn_nextDone c)\<rparr>
      in case cn_connectDone c of
           None \<Rightarrow> fresh
         | Some d \<Rightarrow> if d \<in> set (cn_closedDone c) then fresh else c1)"

definition broadcastConnect :: "conn_error option \<Rightarrow> ws_conn \<Rightarrow> ws_conn" where
  "broadcastConnect e c =
     (let c1 = c\<lparr>cn_connectErr := e\<rparr>
      in case cn_connectDone c of
           None \<Rightarrow> c1
         | Some d \<Rightarrow> if d \<in> set (cn_closedDone c) then c1 else c1\<lparr>cn_closedDone := d # cn_closedDone c\<rparr>)"

section \<open>Requests\<close>

text \<open>The result channel of a request has room for one result; \<open>cn_results\<close> records what was sent to it.\<close>

definition send_result :: "nat \<Rightarrow> request_result \<Rightarrow> ws_conn \<Rightarrow> ws_conn" where
  "send_result ch r c = c\<lparr>cn_results := (ch, r) # cn_results c\<rparr>"

definition registerPendingForConn :: "string \<Rightarrow> nat \<Rightarrow> ws_conn \<Rightarrow> conn_error + nat \<times> ws_conn" where
  "registerPendingForConn i ch c =
     (if State c = StateClosed then Inl ConnClosed
      else case cn_conn c of
        None \<Rightarrow> Inl ConnNotConnected
      | Some k \<Rightarrow>
          if State c \<noteq> StateConnected then Inl ConnNotConnected
          else Inr (k, c\<lparr>cn_pending := AList.update i ch (cn_pending c)\<rparr>))"

definition removePending :: "string \<Rightarrow> ws_conn \<Rightarrow> ws_conn" where
  "removePending i c = c\<lparr>cn_pending := AList.delete i (cn_pending c)\<rparr>"

definition failPending :: "conn_error \<Rightarrow> ws_conn \<Rightarrow> ws_conn" where
  "failPending e c =
     c\<lparr>cn_pending := [], cn_results := map (\<lambda>(i, ch). (ch, Inl e)) (cn_pending c) @ cn_results c\<rparr>"

definition request_outcome :: "response_frame \<Rightarrow> request_result" where
  "request_outcome response =
     (if rp_Status response < 200 \<or> 300 \<le> rp_Status response then
        (case rp_Error response of
           None \<Rightarrow> Inl (ConnRequest (rp_ID response) (rp_Status response) 0 [])
         | Some e \<Rightarrow>
             Inl (ConnRequest (rp_ID response) (rp_Status response) (rx_Code e)
               (if rx_Message e = [] then rx_Msg e else rx_Message e)))
      else Inr response)"

definition take_pending :: "string \<Rightarrow> request_result \<Rightarrow> ws_conn \<Rightarrow> ws_conn" where
  "take_pending i r c =
     (case map_of (cn_pending c) i of
        None \<Rightarrow> c
      | Some ch \<Rightarrow> send_result ch r (removePending i c))"

definition dispatchResponse :: "string \<Rightarrow> ws_conn \<Rightarrow> bool \<times> conn_error option \<times> ws_conn" where
  "dispatchResponse payload c =
     (case payload_kind_of payload of
        NoResponse \<Rightarrow> (False, None, c)
      | BadResponse None \<Rightarrow> (True, Some ConnMalformed, c)
      | BadResponse (Some i) \<Rightarrow> (True, Some ConnMalformed, take_pending i (Inl ConnMalformed) c)
      | GoodResponse response \<Rightarrow> (True, None, take_pending (rp_ID response) (request_outcome response) c))"

section \<open>Connecting\<close>

datatype connect_action = ConnectReturn "conn_error option" | ConnectWait "nat option" | ConnectNew

definition Connect_check :: "ws_conn \<Rightarrow> connect_action" where
  "Connect_check c =
     (if cn_config c \<noteq> None then ConnectReturn (cn_config c)
      else if State c = StateClosed then ConnectReturn (Some ConnClosed)
      else if wc_privateOnly (cn_ws c) \<and> \<not> wc_auth (cn_ws c) then ConnectReturn (Some ConnAuthRequired)
      else if cn_conn c \<noteq> None \<and> State c = StateConnected \<and> \<not> cn_replay c then ConnectReturn None
      else if State c = StateConnecting \<or> State c = StateReconnecting \<or> cn_replay c
      then ConnectWait (cn_connectDone c)
      else if \<not> cn_dialer c then ConnectReturn (Some ConnNoDialer)
      else ConnectNew)"

definition Connect_woken :: "ws_conn \<Rightarrow> connect_action" where
  "Connect_woken c =
     (if State c = StateConnected \<and> \<not> cn_replay c then ConnectReturn None
      else if State c = StateClosed then ConnectReturn (Some ConnClosed)
      else case cn_connectErr c of
        Some e \<Rightarrow> ConnectReturn (Some (ConnFailed e))
      | None \<Rightarrow> Connect_check c)"

text \<open>\<open>connectNew\<close> after it has the lifecycle gate: an attempt begins, or the outcome of \<open>Connect\<close>, where
  \<open>None\<close> means that it looks again.\<close>

definition connectNew_begin :: "ws_conn \<Rightarrow> conn_error option option + ws_conn" where
  "connectNew_begin c =
     (if State c = StateClosed then Inl (Some (Some ConnClosed))
      else if wc_privateOnly (cn_ws c) \<and> \<not> wc_auth (cn_ws c) then Inl (Some (Some ConnAuthRequired))
      else if cn_conn c \<noteq> None \<and> State c = StateConnected \<and> \<not> cn_replay c then Inl (Some None)
      else if State c \<noteq> StateDisconnected then Inl None
      else if \<not> cn_dialer c then Inl (Some (Some ConnNoDialer))
      else Inr (startConnectAttempt (set_gate False (setState StateConnecting None c))))"

text \<open>A dialer opens at most one socket. \<open>install\<close> makes it the client's connection.\<close>

definition open_socket :: "ws_conn \<Rightarrow> nat \<times> ws_conn" where
  "open_socket c =
     (cn_nextSocket c, c\<lparr>cn_sockets := cn_nextSocket c # cn_sockets c, cn_nextSocket := Suc (cn_nextSocket c)\<rparr>)"

definition install :: "nat \<Rightarrow> ws_conn \<Rightarrow> ws_conn" where
  "install k c = set_gate True ((store_state StateConnected (c\<lparr>cn_conn := Some k\<rparr>))\<lparr>cn_replay := True\<rparr>)"

text \<open>The code dials before it takes \<open>c.mu\<close>. Until the critical section after the dial installs or closes the new
  socket, only a local variable of the dialing goroutine holds it, so the model opens it in that section; the
  dial's cancellation by \<open>Close\<close> is one of the outcomes \<open>dialErr\<close>.\<close>

definition connectNew_dialed :: "err option \<Rightarrow> ws_conn \<Rightarrow> conn_error option \<times> ws_conn" where
  "connectNew_dialed dialErr c =
     (case dialErr of
        None \<Rightarrow>
          (case open_socket c of (k, c1) \<Rightarrow>
             if State c1 = StateClosed
             then (Some ConnClosed, set_gate True (broadcastConnect (Some ConnClosed) (close_socket k c1)))
             else (None, install k c1))
      | Some e \<Rightarrow>
          if State c = StateClosed
          then (Some ConnClosed, set_gate True (broadcastConnect (Some ConnClosed) c))
          else (Some (ConnDial e),
                set_gate True (broadcastConnect (Some (ConnDial e)) (setState StateDisconnected (Some (ConnDial e)) c))))"

definition replay_finished :: "nat \<Rightarrow> ws_conn \<Rightarrow> ws_conn" where
  "replay_finished lifecycle c =
     (if State c = StateConnected \<and> cn_lifecycle c = lifecycle
      then broadcastConnect None (publishEvent StateConnected None (c\<lparr>cn_replay := False\<rparr>))
      else c)"

definition connectNew_finish :: "nat \<Rightarrow> ws_conn \<Rightarrow> conn_error option option \<times> ws_conn" where
  "connectNew_finish lifecycle c =
     (if State c = StateConnected \<and> cn_lifecycle c = lifecycle then (Some None, replay_finished lifecycle c)
      else
        ((if State c = StateClosed then Some (Some ConnClosed)
          else if State c = StateReconnecting \<or> State c = StateConnecting then None
          else Some (Some (ConnReplayFailed
                 (case cn_connectErr c of Some e \<Rightarrow> e | None \<Rightarrow> ConnReplayLost)))), c))"

text \<open>\<open>failSubscriptionsIfCurrentLocked\<close>: the gate is held.\<close>

definition failSubscriptionsIfCurrent :: "nat \<Rightarrow> conn_error \<Rightarrow> ws_conn \<Rightarrow> ws_conn" where
  "failSubscriptionsIfCurrent lifecycle e c =
     (if cn_lifecycle c \<noteq> lifecycle \<or> State c = StateClosed then c
      else
        let c1 = c\<lparr>cn_ws := failSubscriptions (cn_ws c)\<rparr>
        in publishEvent (State c1) (Some e) c1)"

text \<open>A replay that failed: \<open>None\<close> when the connection is no longer its own, otherwise the new client
  and the lifecycle whose subscriptions are to be failed.\<close>

definition handleResubscribeFailure :: "nat \<Rightarrow> conn_error \<Rightarrow> ws_conn \<Rightarrow> (nat \<times> ws_conn) option" where
  "handleResubscribeFailure lifecycle e c =
     (if State c \<noteq> StateClosed \<and> cn_lifecycle c = lifecycle then
        let c1 = drop_conn (c\<lparr>cn_replay := False\<rparr>);
            cleanup = Suc (cn_lifecycle c1);
            c2 = c1\<lparr>cn_lifecycle := cleanup\<rparr>
        in Some (cleanup, broadcastConnect (Some e) (setState StateDisconnected (Some e) c2))
      else None)"

section \<open>Reading and reconnecting\<close>

definition readPump_check :: "nat \<Rightarrow> ws_conn \<Rightarrow> nat option" where
  "readPump_check lifecycle c =
     (if State c = StateClosed \<or> cn_lifecycle c \<noteq> lifecycle then None else cn_conn c)"

definition too_large :: "string \<Rightarrow> ws_conn \<Rightarrow> conn_error option" where
  "too_large payload c =
     (if 0 < cn_limit c \<and> cn_limit c < int (length payload)
      then Some (ConnTooLarge (int (length payload)) (cn_limit c)) else None)"

text \<open>A dropped connection: the lifecycle to clean up for, whether the subscriptions fail and whether a
  reconnect loop starts.\<close>

definition readPump_failed :: "nat \<Rightarrow> conn_error \<Rightarrow> ws_conn \<Rightarrow> (nat \<times> bool \<times> bool \<times> ws_conn) option" where
  "readPump_failed lifecycle e c =
     (if State c = StateClosed \<or> cn_lifecycle c \<noteq> lifecycle then None
      else if State c = StateDisconnected \<and> cn_conn c = None then None
      else
        let c1 = (drop_conn c)\<lparr>cn_replay := False\<rparr>
        in if cn_auto c then
             (let c2 = failPending e (startConnectAttempt (setState StateReconnecting (Some e) c1))
              in Some (cn_lifecycle c2, e = ConnSlowConsumer, True, c2))
           else
             (let c2 = setState StateDisconnected (Some e) c1;
                  c3 = failPending e (broadcastConnect (Some e) (c2\<lparr>cn_lifecycle := Suc (cn_lifecycle c2)\<rparr>))
              in Some (cn_lifecycle c3, True, False, c3)))"

text \<open>The reconnect loop: whether it goes on before a dial, what it does with the dialed connection, and
  how it gives up.\<close>

definition reconnect_goes_on :: "nat \<Rightarrow> ws_conn \<Rightarrow> bool" where
  "reconnect_goes_on lifecycle c \<longleftrightarrow>
     \<not> (State c = StateClosed \<or> cn_lifecycle c \<noteq> lifecycle) \<and> \<not> (State c = StateConnected \<and> cn_conn c \<noteq> None)"

definition reconnect_installed :: "nat \<Rightarrow> ws_conn \<Rightarrow> bool \<times> ws_conn" where
  "reconnect_installed lifecycle c =
     (case open_socket c of (k, c1) \<Rightarrow>
        if \<not> reconnect_goes_on lifecycle c1 then (False, set_gate True (close_socket k c1))
        else (True, install k c1))"

definition token_failure :: "err \<Rightarrow> bool" where
  "token_failure e \<longleftrightarrow> errors_is e ErrTokenSourceFailure \<or> errors_is e ErrInvalidTokenSource"

definition reconnect_stopped :: "nat \<Rightarrow> conn_error \<Rightarrow> ws_conn \<Rightarrow> ws_conn option" where
  "reconnect_stopped lifecycle e c =
     (if State c = StateClosed \<or> cn_lifecycle c \<noteq> lifecycle then None
      else Some (broadcastConnect (Some e) (setState StateDisconnected (Some e) c)))"

definition attempts_exhausted :: "ws_conn \<Rightarrow> nat \<Rightarrow> bool" where
  "attempts_exhausted c attempt \<longleftrightarrow> 0 < cn_max c \<and> cn_max c < int attempt"

section \<open>Closing\<close>

definition Close_begin :: "ws_conn \<Rightarrow> ws_conn" where
  "Close_begin c =
     drop_conn (failPending ConnClosed (broadcastConnect (Some ConnClosed)
       ((setState StateClosed None c)\<lparr>cn_done := True\<rparr>)))"

definition Close_tables :: "ws_conn \<Rightarrow> ws_conn" where
  "Close_tables c = c\<lparr>cn_ws := failSubscriptions (cn_ws c)\<rparr>"

end
