(* ===== verification/ConnectionSpec.thy ===== *)
theory ConnectionSpec
  imports Connection
begin

text \<open>
  The connection under concurrency. A configuration is the client and the multiset of the goroutines
  that are under way in it: callers of \<open>Connect\<close>, the read pump, the reconnect loop, failing replays
  and callers waiting for an answer. A step is one critical section of one of them. The network, the
  exchange and the scheduler are free; the subscription operations may change anything but the state.
\<close>

section \<open>Goroutines\<close>

datatype routine =
    Waiting nat
  | Dialing nat
  | Replaying nat
  | ReplayFailed nat conn_error
  | Pumping nat
  | PumpGot nat string
  | PumpFailed nat conn_error
  | CleaningUp nat conn_error bool bool
  | Sleeping nat nat "err option"
  | Redialing nat nat
  | GaveUp nat conn_error
  | Requesting string nat
  | Closing

type_synonym conn_config = "ws_conn \<times> routine multiset"

fun holds_gate :: "routine \<Rightarrow> bool" where
  "holds_gate (Dialing l) = True"
| "holds_gate (CleaningUp l e f r) = True"
| "holds_gate (Redialing l a) = True"
| "holds_gate _ = False"

text \<open>The routine that will end the connection attempt of a lifecycle.\<close>

fun drives :: "nat \<Rightarrow> routine \<Rightarrow> bool" where
  "drives l (Dialing m) = (m = l)"
| "drives l (Replaying m) = (m = l)"
| "drives l (ReplayFailed m e) = (m = l)"
| "drives l (CleaningUp m e f r) = (m = l \<and> r)"
| "drives l (Sleeping m a e) = (m = l)"
| "drives l (Redialing m a) = (m = l)"
| "drives l _ = False"

text \<open>The read pump of a lifecycle.\<close>

fun pumps :: "nat \<Rightarrow> routine \<Rightarrow> bool" where
  "pumps l (Pumping m) = (m = l)"
| "pumps l (PumpGot m p) = (m = l)"
| "pumps l (PumpFailed m e) = (m = l)"
| "pumps l _ = False"

fun routine_lifecycle :: "routine \<Rightarrow> nat option" where
  "routine_lifecycle (Dialing l) = Some l"
| "routine_lifecycle (Replaying l) = Some l"
| "routine_lifecycle (ReplayFailed l e) = Some l"
| "routine_lifecycle (Pumping l) = Some l"
| "routine_lifecycle (PumpGot l p) = Some l"
| "routine_lifecycle (PumpFailed l e) = Some l"
| "routine_lifecycle (CleaningUp l e f r) = Some l"
| "routine_lifecycle (Sleeping l a e) = Some l"
| "routine_lifecycle (Redialing l a) = Some l"
| "routine_lifecycle (GaveUp l e) = Some l"
| "routine_lifecycle _ = None"

definition clean_up :: "nat \<Rightarrow> conn_error \<Rightarrow> bool \<Rightarrow> ws_conn \<Rightarrow> ws_conn" where
  "clean_up l e f c = set_gate True (if f then failSubscriptionsIfCurrent l e c else c)"

definition after_clean_up :: "nat \<Rightarrow> bool \<Rightarrow> routine multiset" where
  "after_clean_up l r = (if r then {#Sleeping l 1 None#} else {#})"

inductive conn_step :: "conn_config \<Rightarrow> conn_config \<Rightarrow> bool" where
  wait: "Connect_check c = ConnectWait (Some d) \<Longrightarrow> conn_step (c, ts) (c, add_mset (Waiting d) ts)"
| woken: "d \<in> set (cn_closedDone c) \<Longrightarrow> conn_step (c, add_mset (Waiting d) ts) (c, ts)"
| wait_cancelled: "conn_step (c, add_mset (Waiting d) ts) (c, ts)"
| dial: "cn_config c = None \<Longrightarrow> cn_gate c \<Longrightarrow> connectNew_begin c = Inr c' \<Longrightarrow>
    conn_step (c, ts) (c', add_mset (Dialing (cn_lifecycle c')) ts)"
| dialed: "connectNew_dialed None c = (None, c') \<Longrightarrow>
    conn_step (c, add_mset (Dialing l) ts) (c', add_mset (Replaying l) (add_mset (Pumping l) ts))"
| dial_failed: "connectNew_dialed dialErr c = (Some e, c') \<Longrightarrow> conn_step (c, add_mset (Dialing l) ts) (c', ts)"
| replayed: "conn_step (c, add_mset (Replaying l) ts) (replay_finished l c, ts)"
| replay_refused: "conn_step (c, add_mset (Replaying l) ts) (c, add_mset (ReplayFailed l e) ts)"
| replay_failed: "cn_gate c \<Longrightarrow> handleResubscribeFailure l e c = Some (l', c') \<Longrightarrow>
    conn_step (c, add_mset (ReplayFailed l e) ts) (set_gate False c', add_mset (CleaningUp l' e True False) ts)"
| replay_stale: "cn_gate c \<and> handleResubscribeFailure l e c = None \<or> cn_done c \<Longrightarrow>
    conn_step (c, add_mset (ReplayFailed l e) ts) (c, ts)"
| pump_read: "readPump_check l c = Some k \<Longrightarrow> too_large payload c = None \<Longrightarrow>
    conn_step (c, add_mset (Pumping l) ts) (c, add_mset (PumpGot l payload) ts)"
| pump_too_large: "readPump_check l c = Some k \<Longrightarrow> too_large payload c = Some e \<Longrightarrow>
    conn_step (c, add_mset (Pumping l) ts) (c, add_mset (PumpFailed l e) ts)"
| pump_dropped: "readPump_check l c = Some k \<Longrightarrow>
    conn_step (c, add_mset (Pumping l) ts) (c, add_mset (PumpFailed l (ConnRead e)) ts)"
| pump_ends: "readPump_check l c = None \<Longrightarrow> conn_step (c, add_mset (Pumping l) ts) (c, ts)"
| pump_stale: "cn_lifecycle c \<noteq> l \<Longrightarrow> conn_step (c, add_mset (PumpGot l payload) ts) (c, ts)"
| pump_response: "dispatchResponse payload c = (True, None, c') \<Longrightarrow>
    conn_step (c, add_mset (PumpGot l payload) ts) (c', add_mset (Pumping l) ts)"
| pump_malformed: "dispatchResponse payload c = (handled, Some e, c') \<Longrightarrow>
    conn_step (c, add_mset (PumpGot l payload) ts) (c', add_mset (PumpFailed l e) ts)"
| pump_frame: "dispatchResponse payload c = (False, None, c') \<Longrightarrow>
    conn_step (c, add_mset (PumpGot l payload) ts) (c', add_mset (Pumping l) ts)"
| pump_slow: "dispatchResponse payload c = (False, None, c') \<Longrightarrow>
    conn_step (c, add_mset (PumpGot l payload) ts) (c', add_mset (PumpFailed l ConnSlowConsumer) ts)"
| pump_closed: "cn_done c \<Longrightarrow> conn_step (c, add_mset (PumpGot l payload) ts) (c, ts)"
| pump_failed: "cn_gate c \<Longrightarrow> readPump_failed l e c = Some (l', f, r, c') \<Longrightarrow>
    conn_step (c, add_mset (PumpFailed l e) ts) (set_gate False c', add_mset (CleaningUp l' e f r) ts)"
| pump_gives_up: "cn_gate c \<and> readPump_failed l e c = None \<or> cn_done c \<Longrightarrow>
    conn_step (c, add_mset (PumpFailed l e) ts) (c, ts)"
| cleaned_up: "conn_step (c, add_mset (CleaningUp l e f r) ts) (clean_up l e f c, after_clean_up l r + ts)"
| sleep_closed: "cn_done c \<Longrightarrow>
    conn_step (c, add_mset (Sleeping l a e) ts) (broadcastConnect (Some ConnClosed) c, ts)"
| sleep_stale: "\<not> attempts_exhausted c a \<Longrightarrow> \<not> reconnect_goes_on l c \<Longrightarrow>
    conn_step (c, add_mset (Sleeping l a e) ts) (c, ts)"
| redial: "\<not> attempts_exhausted c a \<Longrightarrow> reconnect_goes_on l c \<Longrightarrow> cn_gate c \<Longrightarrow>
    conn_step (c, add_mset (Sleeping l a e) ts) (set_gate False c, add_mset (Redialing l a) ts)"
| redialed: "reconnect_installed l c = (True, c') \<Longrightarrow>
    conn_step (c, add_mset (Redialing l a) ts) (c', add_mset (Replaying l) (add_mset (Pumping l) ts))"
| redial_stale: "reconnect_installed l c = (False, c') \<Longrightarrow> conn_step (c, add_mset (Redialing l a) ts) (c', ts)"
| redial_failed: "\<not> token_failure e \<Longrightarrow>
    conn_step (c, add_mset (Redialing l a) ts) (set_gate True c, add_mset (Sleeping l (Suc a) (Some e)) ts)"
| redial_refused: "token_failure e \<Longrightarrow> reconnect_stopped l (ConnReconnectAuth e) (set_gate True c) = Some c' \<Longrightarrow>
    conn_step (c, add_mset (Redialing l a) ts) (c', add_mset (GaveUp l (ConnReconnectAuth e)) ts)"
| redial_refused_stale: "token_failure e \<Longrightarrow> reconnect_stopped l (ConnReconnectAuth e) (set_gate True c) = None \<Longrightarrow>
    conn_step (c, add_mset (Redialing l a) ts) (set_gate True c, ts)"
| exhausted: "attempts_exhausted c a \<Longrightarrow> reconnect_stopped l (ConnMaxReconnects e) c = Some c' \<Longrightarrow>
    conn_step (c, add_mset (Sleeping l a e) ts) (c', add_mset (GaveUp l (ConnMaxReconnects e)) ts)"
| exhausted_stale: "attempts_exhausted c a \<Longrightarrow> reconnect_stopped l (ConnMaxReconnects e) c = None \<Longrightarrow>
    conn_step (c, add_mset (Sleeping l a e) ts) (c, ts)"
| gave_up: "cn_gate c \<Longrightarrow> conn_step (c, add_mset (GaveUp l e) ts) (failSubscriptionsIfCurrent l e c, ts)"
| gave_up_stale: "cn_lifecycle c \<noteq> l \<or> cn_done c \<Longrightarrow> conn_step (c, add_mset (GaveUp l e) ts) (c, ts)"
| register: "registerPendingForConn (FormatInt (int (cn_reqID c))) (cn_reqID c) c = Inr (k, c') \<Longrightarrow>
    conn_step (c, ts) (c'\<lparr>cn_reqID := Suc (cn_reqID c)\<rparr>,
      add_mset (Requesting (FormatInt (int (cn_reqID c))) (cn_reqID c)) ts)"
| answered: "(ch, r) \<in> set (cn_results c) \<Longrightarrow> conn_step (c, add_mset (Requesting i ch) ts) (c, ts)"
| abandoned: "conn_step (c, add_mset (Requesting i ch) ts) (removePending i c, ts)"
| socket_closed: "conn_step (c, ts) (close_socket k c, ts)"
| close: "State c \<noteq> StateClosed \<Longrightarrow> conn_step (c, ts) (Close_begin c, add_mset Closing ts)"
| closed: "\<forall>t\<in>#ts. \<forall>l. \<not> pumps l t \<and> \<not> (\<exists>a e. t = Sleeping l a e) \<and> (\<forall>a. t \<noteq> Redialing l a) \<Longrightarrow>
    conn_step (c, add_mset Closing ts) (Close_tables c, ts)"
| subscribed: "wc_state w = State c \<Longrightarrow> wc_auth w = wc_auth (cn_ws c) \<Longrightarrow> wc_privateOnly w = wc_privateOnly (cn_ws c) \<Longrightarrow> conn_step (c, ts) (c\<lparr>cn_ws := w\<rparr>, ts)"

inductive conn_reachable :: "conn_config \<Rightarrow> bool" where
  conn_init: "wc_state ws = StateDisconnected \<Longrightarrow> conn_reachable (new_ws_conn ws config dialer auto maxReconnects limit, {#})"
| conn_next: "conn_reachable cfg \<Longrightarrow> conn_step cfg cfg' \<Longrightarrow> conn_reachable cfg'"

section \<open>The invariant\<close>

definition attempting :: "ws_conn \<Rightarrow> bool" where
  "attempting c \<longleftrightarrow> State c = StateConnecting \<or> State c = StateReconnecting \<or> State c = StateConnected \<and> cn_replay c"

fun fits :: "connection_state \<Rightarrow> routine \<Rightarrow> bool" where
  "fits s (Dialing l) = (s = StateConnecting)"
| "fits s (Replaying l) = (s = StateConnected)"
| "fits s (ReplayFailed l e) = (s = StateConnected)"
| "fits s (CleaningUp l e f r) = (s = (if r then StateReconnecting else StateDisconnected))"
| "fits s (Sleeping l a e) = (s = StateReconnecting)"
| "fits s (Redialing l a) = (s = StateReconnecting)"
| "fits s (GaveUp l e) = (s = StateDisconnected)"
| "fits s _ = True"

definition client_ok :: "ws_conn \<Rightarrow> bool" where
  "client_ok c \<longleftrightarrow>
     (cn_done c \<longleftrightarrow> State c = StateClosed) \<and> (cn_conn c = None \<longleftrightarrow> State c \<noteq> StateConnected) \<and>
     (\<forall>k\<in>set (cn_sockets c). cn_conn c = Some k) \<and>
     (cn_replay c \<longrightarrow> State c = StateConnected \<or> State c = StateClosed) \<and>
     (\<forall>d\<in>set (cn_closedDone c). d < cn_nextDone c) \<and>
     (case cn_connectDone c of None \<Rightarrow> \<not> attempting c
      | Some d \<Rightarrow> d < cn_nextDone c \<and> (d \<in> set (cn_closedDone c) \<longleftrightarrow> \<not> attempting c))"

definition routine_ok :: "ws_conn \<Rightarrow> routine \<Rightarrow> bool" where
  "routine_ok c t \<longleftrightarrow>
     (\<forall>l. routine_lifecycle t = Some l \<longrightarrow> l \<le> cn_lifecycle c) \<and>
     (holds_gate t \<longrightarrow> routine_lifecycle t = Some (cn_lifecycle c)) \<and>
     (State c \<noteq> StateClosed \<and> routine_lifecycle t = Some (cn_lifecycle c) \<longrightarrow> fits (State c) t) \<and>
     (\<forall>d. t = Waiting d \<longrightarrow> d \<in> set (cn_closedDone c) \<or> cn_connectDone c = Some d)"

definition counts_ok :: "ws_conn \<Rightarrow> routine multiset \<Rightarrow> bool" where
  "counts_ok c ts \<longleftrightarrow>
     size (filter_mset holds_gate ts) = (if cn_gate c then 0 else 1) \<and>
     (State c \<noteq> StateClosed \<longrightarrow>
        size (filter_mset (drives (cn_lifecycle c)) ts) = (if attempting c then 1 else 0) \<and>
        size (filter_mset (pumps (cn_lifecycle c)) ts) = (if State c = StateConnected then 1 else 0))"

fun conn_inv :: "conn_config \<Rightarrow> bool" where
  "conn_inv (c, ts) \<longleftrightarrow> client_ok c \<and> (\<forall>t\<in>#ts. routine_ok c t) \<and> counts_ok c ts"

named_theorems conn_defs

lemmas [conn_defs] = State_def publishEvent_def store_state_def setState_def set_gate_def close_socket_def drop_conn_def
  startConnectAttempt_def broadcastConnect_def

lemma step_wait_inv: "Connect_check c = ConnectWait (Some d) \<Longrightarrow> conn_inv (c, ts) \<Longrightarrow> conn_inv (c, add_mset (Waiting d) ts)"
  by (auto simp: routine_ok_def counts_ok_def Connect_check_def split: if_splits)

lemma drop_routine: "conn_inv (c, add_mset t ts) \<Longrightarrow> \<not> holds_gate t \<Longrightarrow>
    (State c \<noteq> StateClosed \<Longrightarrow> \<not> drives (cn_lifecycle c) t \<and> \<not> pumps (cn_lifecycle c) t) \<Longrightarrow> conn_inv (c, ts)"
  by (auto simp: counts_ok_def)

lemma no_routines:
  assumes "\<forall>t\<in>#ts. routine_ok c t" "cn_lifecycle c < l"
  shows "filter_mset (drives l) ts = {#}" "filter_mset (pumps l) ts = {#}"
proof -
  have "\<not> drives l t \<and> \<not> pumps l t" if "t \<in># ts" for t
  proof -
    have "\<forall>m. routine_lifecycle t = Some m \<longrightarrow> m < l" using assms that by (auto simp: routine_ok_def)
    then show ?thesis by (cases t) auto
  qed
  then show "filter_mset (drives l) ts = {#}" "filter_mset (pumps l) ts = {#}" by (auto simp:)
qed

lemma step_dial_inv:
  assumes "cn_gate c" "connectNew_begin c = Inr c'" "conn_inv (c, ts)"
  shows "conn_inv (c', add_mset (Dialing (cn_lifecycle c')) ts)"
proof -
  have st: "State c = StateDisconnected" and c': "c' = startConnectAttempt (set_gate False (setState StateConnecting None c))"
    using assms(2) by (auto simp: connectNew_begin_def split: if_splits)
  have l: "cn_lifecycle c' = Suc (cn_lifecycle c)" and s': "State c' = StateConnecting" and g: "\<not> cn_gate c'"
    by (auto simp: c' conn_defs Let_def split: option.splits)
  have ok: "client_ok c'"
    using assms(3) st by (auto simp: client_ok_def attempting_def c' conn_defs Let_def split: option.splits)
  note n = no_routines[of ts c "cn_lifecycle c'"]
  have r: "routine_ok c' t" if "t \<in># ts" for t
  proof -
    have t: "routine_ok c t" using assms(3) that by simp
    have h: "\<not> holds_gate t" using assms(1,3) that by (auto simp: counts_ok_def)
    have "d \<in> set (cn_closedDone c') \<or> cn_connectDone c' = Some d" if "d \<in> set (cn_closedDone c) \<or> cn_connectDone c = Some d" for d
      using that by (auto simp: c' conn_defs Let_def split: option.splits)
    then show ?thesis using t h l by (fastforce simp: routine_ok_def)
  qed
  show ?thesis using ok r n assms l s' g by (auto simp: routine_ok_def counts_ok_def attempting_def)
qed

text \<open>What the invariant reads of the client; sockets may disappear.\<close>

definition same_conn :: "ws_conn \<Rightarrow> ws_conn \<Rightarrow> bool" where
  "same_conn c c' \<longleftrightarrow>
     State c' = State c \<and> cn_gate c' = cn_gate c \<and> cn_done c' = cn_done c \<and> cn_conn c' = cn_conn c \<and>
     set (cn_sockets c') \<subseteq> set (cn_sockets c) \<and> cn_lifecycle c' = cn_lifecycle c \<and> cn_replay c' = cn_replay c \<and>
     cn_connectDone c' = cn_connectDone c \<and> cn_nextDone c' = cn_nextDone c \<and> cn_closedDone c' = cn_closedDone c"

lemma same_conn_refl [simp]: "same_conn c c"
  by (simp add: same_conn_def)

lemma same_conn_inv: "same_conn c c' \<Longrightarrow> conn_inv (c, ts) \<Longrightarrow> conn_inv (c', ts)"
  by (auto simp: same_conn_def client_ok_def routine_ok_def counts_ok_def attempting_def split: option.splits)

lemma take_pending_same: "same_conn c (take_pending i r c)"
  by (simp add: take_pending_def send_result_def removePending_def same_conn_def State_def split: option.split)

lemma dispatch_same: "dispatchResponse payload c = (handled, e, c') \<Longrightarrow> same_conn c c'"
  using take_pending_same by (auto simp: dispatchResponse_def split: payload_kind.splits option.splits)

lemma removePending_same: "same_conn c (removePending i c)"
  by (simp add: removePending_def same_conn_def State_def)

lemma fail_state [simp]: "wc_state (failSubscriptions w) = wc_state w"
  by (simp add: failSubscriptions_def close_subs_def)

lemma failSubscriptions_same: "same_conn c (failSubscriptionsIfCurrent l e c)"
  by (simp add: failSubscriptionsIfCurrent_def Let_def same_conn_def publishEvent_def State_def)

lemma register_same: "registerPendingForConn i ch c = Inr (k, c') \<Longrightarrow> same_conn c (c'\<lparr>cn_reqID := n\<rparr>)"
  by (auto simp: registerPendingForConn_def same_conn_def State_def split: option.splits if_splits)

lemma routine_replaced:
  assumes "conn_inv (c, add_mset t ts)" "holds_gate u = holds_gate t" "routine_ok c u"
    "State c \<noteq> StateClosed \<Longrightarrow> drives (cn_lifecycle c) u = drives (cn_lifecycle c) t \<and> pumps (cn_lifecycle c) u = pumps (cn_lifecycle c) t"
  shows "conn_inv (c, add_mset u ts)"
  using assms by (auto simp: counts_ok_def)

lemma routine_added: "conn_inv (c, ts) \<Longrightarrow> routine_lifecycle t = None \<Longrightarrow> (\<forall>d. t \<noteq> Waiting d) \<Longrightarrow> conn_inv (c, add_mset t ts)"
  by (cases t) (auto simp: routine_ok_def counts_ok_def)

text \<open>The routine that drives an attempt before it has a connection is the only one of its lifecycle.\<close>

lemma driver_alone:
  assumes "conn_inv (c, add_mset t ts)" "State c = StateConnecting \<or> State c = StateReconnecting" "drives (cn_lifecycle c) t"
  shows "\<forall>u\<in>#ts. routine_lifecycle u \<noteq> Some (cn_lifecycle c) \<and> \<not> holds_gate u"
proof (intro ballI)
  fix u assume u: "u \<in># ts"
  have "routine_ok c u" using assms(1) u by simp
  moreover have "\<not> drives (cn_lifecycle c) u" "\<not> pumps (cn_lifecycle c) u"
    using assms u by (auto simp: counts_ok_def attempting_def split: if_splits)
  ultimately show "routine_lifecycle u \<noteq> Some (cn_lifecycle c) \<and> \<not> holds_gate u"
    using assms(2) by (cases u) (auto simp: routine_ok_def split: if_splits)
qed

lemma routine_kept:
  assumes "routine_ok c u" "routine_lifecycle u \<noteq> Some (cn_lifecycle c)" "\<not> holds_gate u" "cn_lifecycle c' = cn_lifecycle c"
    "cn_connectDone c' = cn_connectDone c" "set (cn_closedDone c) \<subseteq> set (cn_closedDone c')"
  shows "routine_ok c' u"
  using assms by (auto simp: routine_ok_def)

lemma no_such_routines:
  assumes "\<forall>u\<in>#ts. routine_lifecycle u \<noteq> Some l"
  shows "\<forall>u\<in>#ts. \<not> drives l u \<and> \<not> pumps l u"
proof (intro ballI)
  fix u assume "u \<in># ts"
  then have "routine_lifecycle u \<noteq> Some l" using assms by blast
  then show "\<not> drives l u \<and> \<not> pumps l u" by (cases u) auto
qed

text \<open>The end of an attempt without a connection, and its success.\<close>

lemma attempt_over:
  assumes "conn_inv (c, add_mset t ts)" "State c = StateConnecting \<or> State c = StateReconnecting" "drives (cn_lifecycle c) t"
    "State c' = StateDisconnected" "cn_done c' = cn_done c" "cn_gate c'" "cn_conn c' = None" "cn_sockets c' = []" "cn_lifecycle c' = cn_lifecycle c"
    "cn_replay c' = cn_replay c" "cn_connectDone c' = cn_connectDone c" "cn_nextDone c' = cn_nextDone c"
    "set (cn_closedDone c') = set (cn_closedDone c) \<union> set_option (cn_connectDone c)"
  shows "conn_inv (c', ts)"
proof -
  note a = driver_alone[OF assms(1-3)]
  have "routine_ok c' u" if "u \<in># ts" for u
    by (rule routine_kept[of c]) (use assms a that in auto)
  moreover have "client_ok c'"
    using assms by (auto simp: client_ok_def attempting_def split: option.splits)
  moreover have "counts_ok c' ts"
    using assms no_such_routines[of ts "cn_lifecycle c"] a by (auto simp: counts_ok_def attempting_def)
  ultimately show ?thesis by simp
qed

lemma attempt_installed:
  assumes "conn_inv (c, add_mset t ts)" "State c = StateConnecting \<or> State c = StateReconnecting" "drives (cn_lifecycle c) t"
    "State c' = StateConnected" "cn_done c' = cn_done c" "cn_gate c'" "cn_conn c' = Some k" "set (cn_sockets c') \<subseteq> {k}" "cn_lifecycle c' = cn_lifecycle c"
    "cn_replay c'" "cn_connectDone c' = cn_connectDone c" "cn_nextDone c' = cn_nextDone c" "cn_closedDone c' = cn_closedDone c"
  shows "conn_inv (c', add_mset (Replaying (cn_lifecycle c)) (add_mset (Pumping (cn_lifecycle c)) ts))"
proof -
  note a = driver_alone[OF assms(1-3)]
  have "routine_ok c' u" if "u \<in># ts" for u
    by (rule routine_kept[of c]) (use assms a that in auto)
  moreover have "client_ok c'"
    using assms by (auto simp: client_ok_def attempting_def split: option.splits)
  moreover have "counts_ok c' (add_mset (Replaying (cn_lifecycle c)) (add_mset (Pumping (cn_lifecycle c)) ts))"
    using assms no_such_routines[of ts "cn_lifecycle c"] a by (auto simp: counts_ok_def attempting_def)
  ultimately show ?thesis using assms by (auto simp: routine_ok_def)
qed

lemma no_sockets: "conn_inv (c, ts) \<Longrightarrow> State c \<noteq> StateConnected \<Longrightarrow> cn_conn c = None \<and> cn_sockets c = []"
  by (cases "cn_sockets c") (auto simp: client_ok_def)

lemma step_dialed_inv:
  assumes "connectNew_dialed None c = (None, c')" "conn_inv (c, add_mset (Dialing l) ts)"
  shows "conn_inv (c', add_mset (Replaying l) (add_mset (Pumping l) ts))"
proof -
  have n: "State c \<noteq> StateClosed" and c': "c' = install (cn_nextSocket c) (snd (open_socket c))"
    using assms(1) by (auto simp: connectNew_dialed_def open_socket_def conn_defs split: if_splits)
  then have l: "l = cn_lifecycle c" "State c = StateConnecting" using assms(2) by (auto simp: routine_ok_def)
  show ?thesis unfolding l(1)
    by (rule attempt_installed[OF assms(2), where k = "cn_nextSocket c"])
      (use l no_sockets[OF assms(2)] in \<open>auto simp: c' install_def open_socket_def conn_defs\<close>)
qed

lemma connected_socket:
  assumes "conn_inv (c, ts)" "State c = StateConnected"
  obtains k where "cn_conn c = Some k" "set (cn_sockets c) \<subseteq> {k}"
proof -
  obtain k where "cn_conn c = Some k" using assms by (auto simp: client_ok_def)
  moreover from this have "set (cn_sockets c) \<subseteq> {k}" using assms by (auto simp: client_ok_def)
  ultimately show ?thesis using that by blast
qed

text \<open>After \<open>Close\<close> nobody waits on an open channel, and a broadcast changes nothing.\<close>

lemma closed_broadcast:
  assumes "conn_inv (c, ts)" "State c = StateClosed"
  shows "same_conn c (broadcastConnect e c)"
  using assms by (auto simp: same_conn_def conn_defs Let_def client_ok_def attempting_def split: option.splits)

lemma closed_release:
  assumes "conn_inv (c, add_mset t ts)" "State c = StateClosed" "holds_gate t"
  shows "conn_inv (set_gate True c, ts)"
  using assms by (auto simp: client_ok_def routine_ok_def counts_ok_def attempting_def set_gate_def State_def split: option.splits if_splits)

lemma same_conn_gate: "same_conn c c' \<Longrightarrow> same_conn (set_gate b c) (set_gate b c')"
  by (simp add: same_conn_def set_gate_def State_def)

lemma step_dial_failed_inv:
  assumes "connectNew_dialed dialErr c = (Some e, c')" "conn_inv (c, add_mset (Dialing l) ts)"
  shows "conn_inv (c', ts)"
proof (cases "State c = StateClosed")
  case True
  have "cn_sockets c = []" "\<forall>d. cn_connectDone c = Some d \<longrightarrow> d \<in> set (cn_closedDone c)"
    using no_sockets[OF assms(2)] assms(2) True by (auto simp: client_ok_def attempting_def)
  then have "same_conn (set_gate True c) c'"
    using assms(1) True
    by (auto simp: connectNew_dialed_def open_socket_def conn_defs Let_def same_conn_def split: option.splits)
  then show ?thesis by (rule same_conn_inv) (simp add: closed_release[OF assms(2) True] del: conn_inv.simps)
next
  case False
  then obtain x where c': "c' = set_gate True (broadcastConnect (Some x) (setState StateDisconnected (Some x) c))"
    using assms(1) by (auto simp: connectNew_dialed_def open_socket_def conn_defs split: option.splits if_splits)
  have l: "l = cn_lifecycle c" "State c = StateConnecting" using assms(2) False by (auto simp: routine_ok_def)
  show ?thesis
    by (rule attempt_over[OF assms(2)])
      (use l no_sockets[OF assms(2)] in \<open>auto simp: c' conn_defs Let_def split: option.splits\<close>)
qed

lemma step_replayed_inv:
  assumes "conn_inv (c, add_mset (Replaying l) ts)"
  shows "conn_inv (replay_finished l c, ts)"
proof (cases "State c = StateConnected \<and> cn_lifecycle c = l")
  case True
  then show ?thesis
    using assms by (auto simp: replay_finished_def conn_defs Let_def client_ok_def routine_ok_def counts_ok_def attempting_def
        split: option.splits if_splits)
next
  case False
  then have "State c = StateClosed \<or> l \<noteq> cn_lifecycle c" using assms by (auto simp: routine_ok_def)
  then show ?thesis using False drop_routine[OF assms] by (auto simp: replay_finished_def)
qed

text \<open>A connection that is given up starts a new lifecycle.\<close>

lemma routine_old:
  assumes "routine_ok c u" "cn_lifecycle c < cn_lifecycle c'" "\<not> holds_gate u"
    "cn_connectDone c' = cn_connectDone c \<or> (\<forall>d. cn_connectDone c = Some d \<longrightarrow> d \<in> set (cn_closedDone c))"
    "set (cn_closedDone c) \<subseteq> set (cn_closedDone c')"
  shows "routine_ok c' u"
  using assms by (fastforce simp: routine_ok_def)

lemma connection_dropped:
  assumes "conn_inv (c, add_mset t ts)" "cn_gate c" "client_ok c'" "cn_lifecycle c' = Suc (cn_lifecycle c)"
    "cn_connectDone c' = cn_connectDone c \<or> (\<forall>d. cn_connectDone c = Some d \<longrightarrow> d \<in> set (cn_closedDone c))"
    "set (cn_closedDone c) \<subseteq> set (cn_closedDone c')" "State c' = (if r then StateReconnecting else StateDisconnected)"
  shows "conn_inv (set_gate False c', add_mset (CleaningUp (cn_lifecycle c') e f r) ts)"
proof -
  have g: "\<not> holds_gate u" if "u \<in># ts" for u using assms(1,2) that by (auto simp: counts_ok_def split: if_splits)
  have "routine_ok c' u" if "u \<in># ts" for u
    by (rule routine_old[of c]) (use assms g that in auto)
  moreover have "same_conn (set_gate False c') (c'\<lparr>cn_gate := False\<rparr>)" by (simp add: conn_defs same_conn_def)
  moreover have "\<forall>u\<in>#add_mset t ts. routine_ok c u" using assms(1) by simp
  note n = no_routines[OF this, of "cn_lifecycle c'"]
  ultimately show ?thesis
    using assms n g by (auto simp: client_ok_def routine_ok_def counts_ok_def attempting_def set_gate_def State_def split: option.splits if_splits)
qed

lemma step_replay_failed_inv:
  assumes "cn_gate c" "handleResubscribeFailure l e c = Some (l', c')" "conn_inv (c, add_mset (ReplayFailed l e) ts)"
  shows "conn_inv (set_gate False c', add_mset (CleaningUp l' e True False) ts)"
proof -
  have l: "l = cn_lifecycle c" "State c = StateConnected"
    using assms(2,3) by (auto simp: handleResubscribeFailure_def routine_ok_def split: if_splits)
  obtain k where k: "cn_conn c = Some k" "set (cn_sockets c) \<subseteq> {k}" by (rule connected_socket[OF assms(3) l(2)])
  have at: "attempting c" using assms(3) l by (auto simp: counts_ok_def split: if_splits)
  have c': "client_ok c'" "cn_lifecycle c' = Suc (cn_lifecycle c)" "l' = cn_lifecycle c'" "cn_connectDone c' = cn_connectDone c"
    "set (cn_closedDone c) \<subseteq> set (cn_closedDone c')" "State c' = StateDisconnected"
    using assms(2,3) k at l
    by (auto simp: handleResubscribeFailure_def conn_defs Let_def client_ok_def attempting_def split: option.splits if_splits)
  show ?thesis unfolding c'(3)
    by (rule connection_dropped[OF assms(3,1)]) (use c' in auto)
qed

lemma reconnecting_ok:
  fixes e :: conn_error
  assumes "client_ok c" "State c = StateConnected"
  defines "c' \<equiv> failPending e (startConnectAttempt (setState StateReconnecting (Some e)
    (c\<lparr>cn_sockets := [], cn_conn := None, cn_replay := False\<rparr>)))"
  shows "client_ok c'" "cn_lifecycle c' = Suc (cn_lifecycle c)" "State c' = StateReconnecting"
    "cn_connectDone c' = cn_connectDone c \<or> (\<forall>d. cn_connectDone c = Some d \<longrightarrow> d \<in> set (cn_closedDone c))"
    "set (cn_closedDone c) \<subseteq> set (cn_closedDone c')"
  using assms(1,2)
  by (auto simp: c'_def failPending_def conn_defs Let_def client_ok_def attempting_def split: option.splits if_splits)

lemma disconnecting_ok:
  fixes e :: conn_error
  assumes "client_ok c" "State c = StateConnected"
  defines "c1 \<equiv> setState StateDisconnected (Some e) (c\<lparr>cn_sockets := [], cn_conn := None, cn_replay := False\<rparr>)"
  defines "c' \<equiv> failPending e (broadcastConnect (Some e) (c1\<lparr>cn_lifecycle := Suc (cn_lifecycle c1)\<rparr>))"
  shows "client_ok c'" "cn_lifecycle c' = Suc (cn_lifecycle c)" "State c' = StateDisconnected"
    "cn_connectDone c' = cn_connectDone c" "set (cn_closedDone c) \<subseteq> set (cn_closedDone c')"
  using assms(1,2)
  by (auto simp: c'_def c1_def failPending_def conn_defs Let_def client_ok_def attempting_def split: option.splits if_splits)

lemma pump_connected: "conn_inv (c, add_mset t ts) \<Longrightarrow> pumps (cn_lifecycle c) t \<Longrightarrow> State c = StateConnected \<or> State c = StateClosed"
  by (auto simp: counts_ok_def split: if_splits)

lemma no_other: "set xs \<subseteq> {k} \<Longrightarrow> removeAll k xs = []"
  by (induction xs) auto

lemma step_pump_failed_inv:
  assumes "cn_gate c" "readPump_failed l e c = Some (l', f, r, c')" "conn_inv (c, add_mset (PumpFailed l e) ts)"
  shows "conn_inv (set_gate False c', add_mset (CleaningUp l' e f r) ts)"
proof -
  have l: "l = cn_lifecycle c" "State c \<noteq> StateClosed"
    using assms(2) by (auto simp: readPump_failed_def split: if_splits)
  then have s: "State c = StateConnected" using pump_connected[OF assms(3)] by auto
  obtain k where k: "cn_conn c = Some k" "set (cn_sockets c) \<subseteq> {k}" by (rule connected_socket[OF assms(3) s])
  define c1 where "c1 = c\<lparr>cn_sockets := [], cn_conn := None, cn_replay := False\<rparr>"
  have c1: "(drop_conn c)\<lparr>cn_replay := False\<rparr> = c1"
    using k no_other[OF k(2)] by (simp add: drop_conn_def close_socket_def c1_def)
  have ok: "client_ok c" using assms(3) by simp
  have c': "client_ok c'" "cn_lifecycle c' = Suc (cn_lifecycle c)" "l' = cn_lifecycle c'"
    "cn_connectDone c' = cn_connectDone c \<or> (\<forall>d. cn_connectDone c = Some d \<longrightarrow> d \<in> set (cn_closedDone c))"
    "set (cn_closedDone c) \<subseteq> set (cn_closedDone c')" "State c' = (if r then StateReconnecting else StateDisconnected)"
    using assms(2) s l(1) ok c1 reconnecting_ok[OF ok s, of e] disconnecting_ok[OF ok s, of e]
    by (auto simp: readPump_failed_def Let_def c1_def split: if_splits)
  show ?thesis unfolding c'(3)
    by (rule connection_dropped[OF assms(3,1)]) (use c' in auto)
qed

lemma step_pump_ends_inv:
  assumes "readPump_check l c = None" "conn_inv (c, add_mset (Pumping l) ts)"
  shows "conn_inv (c, ts)"
proof (rule drop_routine[OF assms(2)])
  assume "State c \<noteq> StateClosed"
  then show "\<not> drives (cn_lifecycle c) (Pumping l) \<and> \<not> pumps (cn_lifecycle c) (Pumping l)"
    using assms pump_connected[OF assms(2)] by (auto simp: readPump_check_def client_ok_def split: if_splits)
qed simp

lemma step_pump_gives_up_inv:
  assumes "readPump_failed l e c = None \<or> cn_done c" "conn_inv (c, add_mset (PumpFailed l e) ts)"
  shows "conn_inv (c, ts)"
proof (rule drop_routine[OF assms(2)])
  assume "State c \<noteq> StateClosed"
  then show "\<not> drives (cn_lifecycle c) (PumpFailed l e) \<and> \<not> pumps (cn_lifecycle c) (PumpFailed l e)"
    using assms pump_connected[OF assms(2)] by (auto simp: readPump_failed_def client_ok_def Let_def split: if_splits)
qed simp

lemma step_replay_stale_inv:
  assumes "handleResubscribeFailure l e c = None \<or> cn_done c" "conn_inv (c, add_mset (ReplayFailed l e) ts)"
  shows "conn_inv (c, ts)"
  by (rule drop_routine[OF assms(2)]) (use assms in \<open>auto simp: handleResubscribeFailure_def client_ok_def Let_def split: if_splits\<close>)

lemma step_cleaned_up_inv:
  assumes "conn_inv (c, add_mset (CleaningUp l e f r) ts)"
  shows "conn_inv (clean_up l e f c, after_clean_up l r + ts)"
proof -
  have "conn_inv (set_gate True c, after_clean_up l r + ts)"
    using assms by (auto simp: client_ok_def routine_ok_def counts_ok_def attempting_def set_gate_def State_def after_clean_up_def
        split: option.splits if_splits)
  moreover have "same_conn (set_gate True c) (clean_up l e f c)"
    using same_conn_gate[OF failSubscriptions_same] by (simp add: clean_up_def)
  ultimately show ?thesis using same_conn_inv by blast
qed

lemma sleeping_current:
  assumes "conn_inv (c, add_mset (Sleeping l a e) ts)" "State c \<noteq> StateClosed" "l = cn_lifecycle c"
  shows "State c = StateReconnecting"
  using assms by (auto simp: routine_ok_def)

lemma step_redial_inv:
  assumes "reconnect_goes_on l c" "cn_gate c" "conn_inv (c, add_mset (Sleeping l a e) ts)"
  shows "conn_inv (set_gate False c, add_mset (Redialing l a) ts)"
  using assms
  by (auto simp: reconnect_goes_on_def client_ok_def routine_ok_def counts_ok_def attempting_def set_gate_def State_def split: option.splits if_splits)

lemma redialing_current:
  assumes "conn_inv (c, add_mset (Redialing l a) ts)" "State c \<noteq> StateClosed"
  shows "l = cn_lifecycle c" "State c = StateReconnecting"
  using assms by (auto simp: routine_ok_def)

lemma open_socket_simps:
  "State (snd (open_socket c)) = State c" "cn_lifecycle (snd (open_socket c)) = cn_lifecycle c" "cn_conn (snd (open_socket c)) = cn_conn c"
  by (simp_all add: open_socket_def State_def)

lemma step_redialed_inv:
  assumes "reconnect_installed l c = (True, c')" "conn_inv (c, add_mset (Redialing l a) ts)"
  shows "conn_inv (c', add_mset (Replaying l) (add_mset (Pumping l) ts))"
proof -
  have n: "State c \<noteq> StateClosed" and c': "c' = install (cn_nextSocket c) (snd (open_socket c))"
    using assms(1) by (auto simp: reconnect_installed_def reconnect_goes_on_def open_socket_def State_def split: if_splits)
  note l = redialing_current[OF assms(2) n]
  show ?thesis unfolding l(1)
    by (rule attempt_installed[OF assms(2), where k = "cn_nextSocket c"])
      (use l no_sockets[OF assms(2)] in \<open>auto simp: c' install_def open_socket_def conn_defs\<close>)
qed

lemma step_redial_stale_inv:
  assumes "reconnect_installed l c = (False, c')" "conn_inv (c, add_mset (Redialing l a) ts)"
  shows "conn_inv (c', ts)"
proof -
  have st: "State c = StateClosed"
  proof (rule ccontr)
    assume n: "State c \<noteq> StateClosed"
    show False using redialing_current[OF assms(2) n] assms(1)
      by (auto simp: reconnect_installed_def reconnect_goes_on_def open_socket_def State_def split: if_splits)
  qed
  then have "cn_sockets c = []" using no_sockets[OF assms(2)] by simp
  then have "same_conn (set_gate True c) c'"
    using assms(1) by (auto simp: reconnect_installed_def open_socket_def same_conn_def set_gate_def close_socket_def State_def split: if_splits)
  then show ?thesis by (rule same_conn_inv) (simp add: closed_release[OF assms(2) st] del: conn_inv.simps)
qed

lemma step_redial_failed_inv:
  assumes "conn_inv (c, add_mset (Redialing l a) ts)"
  shows "conn_inv (set_gate True c, add_mset (Sleeping l b e) ts)"
  using assms by (auto simp: client_ok_def routine_ok_def counts_ok_def attempting_def set_gate_def State_def split: option.splits if_splits)

text \<open>A reconnect loop that stops: the connection is disconnected, its waiters are released.\<close>

lemma stopped_inv:
  assumes "reconnect_stopped l e c1 = Some c'" "conn_inv (c, add_mset t ts)" "c1 = c \<or> c1 = set_gate True c" "cn_gate c1"
    "drives l t" "l = cn_lifecycle c \<Longrightarrow> State c \<noteq> StateClosed \<Longrightarrow> State c = StateReconnecting"
  shows "conn_inv (c', add_mset (GaveUp l e) ts)"
proof -
  have l: "l = cn_lifecycle c" "State c \<noteq> StateClosed" and c': "c' = broadcastConnect (Some e) (setState StateDisconnected (Some e) c1)"
    using assms(1,3) by (auto simp: reconnect_stopped_def set_gate_def State_def split: if_splits)
  have s: "State c = StateReconnecting" using assms(6) l by blast
  have "conn_inv (c', ts)"
    by (rule attempt_over[OF assms(2)])
      (use l s assms(3-5) no_sockets[OF assms(2)] in \<open>auto simp: c' conn_defs Let_def split: option.splits\<close>)
  moreover have "State c' = StateDisconnected" "cn_lifecycle c' = cn_lifecycle c"
    using assms(3) by (auto simp: c' conn_defs Let_def split: option.splits)
  ultimately show ?thesis using l by (auto simp: routine_ok_def counts_ok_def)
qed

lemma step_exhausted_inv:
  assumes "reconnect_stopped l e c = Some c'" "conn_inv (c, add_mset (Sleeping l a x) ts)"
  shows "conn_inv (c', add_mset (GaveUp l e) ts)"
proof -
  have l: "l = cn_lifecycle c" "State c \<noteq> StateClosed" using assms(1) by (auto simp: reconnect_stopped_def split: if_splits)
  then have s: "State c = StateReconnecting" using sleeping_current[OF assms(2)] by simp
  have "\<forall>u\<in>#ts. \<not> holds_gate u" using driver_alone[OF assms(2)] s l by simp
  then have none: "size (filter_mset holds_gate (add_mset (Sleeping l a x) ts)) = 0" by simp
  have "size (filter_mset holds_gate (add_mset (Sleeping l a x) ts)) = (if cn_gate c then 0 else 1)"
    using assms(2) unfolding conn_inv.simps counts_ok_def by blast
  then have "cn_gate c" unfolding none by (simp split: if_splits)
  then show ?thesis using stopped_inv[OF assms] s l by simp
qed

lemma step_sleep_gone_inv:
  assumes "conn_inv (c, add_mset (Sleeping l a e) ts)" "State c = StateClosed \<or> l \<noteq> cn_lifecycle c"
  shows "conn_inv (c, ts)"
  by (rule drop_routine[OF assms(1)]) (use assms(2) in auto)

lemma step_sleep_stale_inv:
  assumes "\<not> reconnect_goes_on l c" "conn_inv (c, add_mset (Sleeping l a e) ts)"
  shows "conn_inv (c, ts)"
  by (rule step_sleep_gone_inv[OF assms(2)]) (use assms sleeping_current[OF assms(2)] in \<open>auto simp: reconnect_goes_on_def\<close>)

lemma step_close_inv:
  assumes "conn_inv (c, ts)"
  shows "conn_inv (Close_begin c, add_mset Closing ts)"
proof -
  have "client_ok c" using assms by simp
  then have "client_ok (Close_begin c)"
    by (auto simp: Close_begin_def failPending_def conn_defs Let_def client_ok_def attempting_def split: option.splits)
  moreover have b: "State (Close_begin c) = StateClosed" "cn_gate (Close_begin c) = cn_gate c" "cn_lifecycle (Close_begin c) = cn_lifecycle c"
    "cn_connectDone (Close_begin c) = cn_connectDone c" "set (cn_closedDone c) \<subseteq> set (cn_closedDone (Close_begin c))"
    by (auto simp: Close_begin_def failPending_def conn_defs Let_def split: option.splits)
  moreover have "routine_ok (Close_begin c) t" if "t \<in># ts" for t
    using assms that b by (auto simp: routine_ok_def)
  moreover have "counts_ok (Close_begin c) (add_mset Closing ts)" using assms b by (auto simp: counts_ok_def)
  ultimately show ?thesis by (auto simp: routine_ok_def)
qed

lemma conn_inv_start: "wc_state ws = StateDisconnected \<Longrightarrow> conn_inv (new_ws_conn ws config dialer auto maxReconnects limit, {#})"
  by (simp add: new_ws_conn_def client_ok_def counts_ok_def attempting_def State_def)

lemma done_closed: "conn_inv (c, ts) \<Longrightarrow> cn_done c \<Longrightarrow> State c = StateClosed"
  by (simp add: client_ok_def)

lemma drop_plain: "conn_inv (c, add_mset t ts) \<Longrightarrow> routine_lifecycle t = None \<Longrightarrow> conn_inv (c, ts)"
  using drop_routine[of c t ts] by (cases t) (simp_all del: conn_inv.simps)

text \<open>A routine that becomes another of the same lifecycle with the same role.\<close>

lemma same_role:
  assumes "conn_inv (c, add_mset t ts)" "routine_lifecycle u = routine_lifecycle t" "\<forall>d. u \<noteq> Waiting d" "holds_gate u = holds_gate t"
    "\<forall>l. drives l u = drives l t \<and> pumps l u = pumps l t" "\<forall>s. fits s t \<longrightarrow> fits s u"
  shows "conn_inv (c, add_mset u ts)"
proof -
  have "size (filter_mset (drives l) (add_mset u ts)) = size (filter_mset (drives l) (add_mset t ts))"
    "size (filter_mset (pumps l) (add_mset u ts)) = size (filter_mset (pumps l) (add_mset t ts))"
    "size (filter_mset holds_gate (add_mset u ts)) = size (filter_mset holds_gate (add_mset t ts))" for l
    using assms(4,5) by (simp_all del: filter_mset_eq_mempty_iff)
  then have "counts_ok c (add_mset u ts)" using assms(1) unfolding conn_inv.simps counts_ok_def by presburger
  moreover have "routine_ok c u" using assms(1-4,6) by (auto simp: routine_ok_def)
  ultimately show ?thesis using assms(1) by simp
qed

lemma pump_again:
  assumes "conn_inv (c, add_mset (PumpGot l p) ts)" "dispatchResponse p c = (h, x, c')" "u = Pumping l \<or> u = PumpFailed l e"
  shows "conn_inv (c', add_mset u ts)"
  by (rule same_conn_inv[OF dispatch_same[OF assms(2)]], rule same_role[OF assms(1)]) (use assms(3) in auto)

lemma conn_step_inv:
  assumes "conn_step cfg cfg'" "conn_inv cfg"
  shows "conn_inv cfg'"
  using assms
proof (induction rule: conn_step.induct)
  case wait then show ?case by (rule step_wait_inv)
next
  case woken show ?case by (rule drop_plain[OF woken.prems]) simp
next
  case wait_cancelled show ?case by (rule drop_plain[OF wait_cancelled.prems]) simp
next
  case dial show ?case by (rule step_dial_inv[OF dial(2,3) dial.prems])
next
  case dialed show ?case by (rule step_dialed_inv[OF dialed(1) dialed.prems])
next
  case dial_failed show ?case by (rule step_dial_failed_inv[OF dial_failed(1) dial_failed.prems])
next
  case replayed then show ?case by (rule step_replayed_inv)
next
  case replay_refused show ?case by (rule same_role[OF replay_refused.prems]) auto
next
  case replay_failed show ?case by (rule step_replay_failed_inv[OF replay_failed(1,2) replay_failed.prems])
next
  case replay_stale show ?case by (rule step_replay_stale_inv[OF _ replay_stale.prems]) (use replay_stale(1) in blast)
next
  case pump_read show ?case by (rule same_role[OF pump_read.prems]) auto
next
  case pump_too_large show ?case by (rule same_role[OF pump_too_large.prems]) auto
next
  case pump_dropped show ?case by (rule same_role[OF pump_dropped.prems]) auto
next
  case pump_ends show ?case by (rule step_pump_ends_inv[OF pump_ends(1) pump_ends.prems])
next
  case pump_stale show ?case by (rule drop_routine[OF pump_stale.prems]) (use pump_stale(1) in auto)
next
  case pump_response show ?case by (rule pump_again[OF pump_response.prems pump_response(1)]) simp
next
  case pump_malformed show ?case by (rule pump_again[OF pump_malformed.prems pump_malformed(1)]) simp
next
  case pump_frame show ?case by (rule pump_again[OF pump_frame.prems pump_frame(1)]) simp
next
  case pump_slow show ?case by (rule pump_again[OF pump_slow.prems pump_slow(1)]) simp
next
  case pump_closed
  show ?case by (rule drop_routine[OF pump_closed.prems]) (use done_closed[OF pump_closed.prems] pump_closed(1) in auto)
next
  case pump_failed show ?case by (rule step_pump_failed_inv[OF pump_failed(1,2) pump_failed.prems])
next
  case pump_gives_up show ?case by (rule step_pump_gives_up_inv[OF _ pump_gives_up.prems]) (use pump_gives_up(1) in blast)
next
  case cleaned_up then show ?case by (rule step_cleaned_up_inv)
next
  case (sleep_closed c l a e ts)
  have st: "State c = StateClosed" by (rule done_closed[OF sleep_closed.prems sleep_closed(1)])
  have "conn_inv (c, ts)" by (rule step_sleep_gone_inv[OF sleep_closed.prems]) (use st in blast)
  then show ?case using same_conn_inv[OF closed_broadcast] st by blast
next
  case sleep_stale show ?case by (rule step_sleep_stale_inv[OF sleep_stale(2) sleep_stale.prems])
next
  case redial show ?case by (rule step_redial_inv[OF redial(2,3) redial.prems])
next
  case redialed show ?case by (rule step_redialed_inv[OF redialed(1) redialed.prems])
next
  case redial_stale show ?case by (rule step_redial_stale_inv[OF redial_stale(1) redial_stale.prems])
next
  case redial_failed show ?case by (rule step_redial_failed_inv[OF redial_failed.prems])
next
  case (redial_refused e l c c' a ts)
  have n: "State c \<noteq> StateClosed" "l = cn_lifecycle c"
    using redial_refused(2) by (auto simp: reconnect_stopped_def set_gate_def State_def split: if_splits)
  have s: "State c = StateReconnecting" by (rule redialing_current(2)[OF redial_refused.prems n(1)])
  show ?case
    by (rule stopped_inv[OF redial_refused(2) redial_refused.prems]) (simp_all add: set_gate_def s)
next
  case (redial_refused_stale e l c a ts)
  have "State c = StateClosed"
  proof (rule ccontr)
    assume "State c \<noteq> StateClosed"
    then show False using redialing_current[OF redial_refused_stale.prems] redial_refused_stale(2)
      by (auto simp: reconnect_stopped_def set_gate_def State_def split: if_splits)
  qed
  then show ?case using closed_release[OF redial_refused_stale.prems] by simp
next
  case exhausted show ?case by (rule step_exhausted_inv[OF exhausted(2) exhausted.prems])
next
  case exhausted_stale
  show ?case by (rule step_sleep_gone_inv[OF exhausted_stale.prems])
      (use exhausted_stale(2) in \<open>auto simp: reconnect_stopped_def split: if_splits\<close>)
next
  case (gave_up c l e ts)
  have "conn_inv (c, ts)" by (rule drop_routine[OF gave_up.prems]) auto
  then show ?case by (rule same_conn_inv[OF failSubscriptions_same])
next
  case gave_up_stale show ?case by (rule drop_routine[OF gave_up_stale.prems]) auto
next
  case (register c k c' ts)
  show ?case by (rule routine_added[OF same_conn_inv[OF register_same[OF register(1)] register.prems]]) auto
next
  case answered show ?case by (rule drop_plain[OF answered.prems]) simp
next
  case (abandoned c i ch ts)
  have "conn_inv (c, ts)" by (rule drop_plain[OF abandoned.prems]) simp
  then show ?case by (rule same_conn_inv[OF removePending_same])
next
  case (socket_closed c ts k)
  have "same_conn c (close_socket k c)" by (auto simp: same_conn_def close_socket_def State_def)
  then show ?case using same_conn_inv socket_closed.prems by blast
next
  case close then show ?case using step_close_inv by blast
next
  case (closed ts c)
  have "conn_inv (c, ts)" by (rule drop_plain[OF closed.prems]) simp
  moreover have "same_conn c (Close_tables c)" by (simp add: same_conn_def Close_tables_def State_def)
  ultimately show ?case using same_conn_inv by blast
next
  case (subscribed w c ts)
  have "same_conn c (c\<lparr>cn_ws := w\<rparr>)" using subscribed(1) by (simp add: same_conn_def State_def)
  then show ?case using same_conn_inv subscribed.prems by blast
qed

lemma conn_reachable_inv: "conn_reachable cfg \<Longrightarrow> conn_inv cfg"
proof (induction rule: conn_reachable.induct)
  case conn_init then show ?case by (rule conn_inv_start)
next
  case conn_next then show ?case using conn_step_inv by blast
qed

end
