(* ===== verification/ConnectionProps.thy ===== *)
theory ConnectionProps
  imports ConnectionSpec
begin

text \<open>
  What the connection promises in every reachable configuration: one socket with one reader, waiting
  callers of \<open>Connect\<close> that somebody will wake, requests answered once and with their own answer, a
  cleanup that never touches a newer connection, and a close that is final; and the request that a
  failed replay leaves without an answer.
\<close>

section \<open>Requests\<close>

lemma FormatInt_inj: "FormatInt (int m) = FormatInt (int n) \<Longrightarrow> m = n"
  using digits_acc_nat_str by (metis FormatInt_def nat_int not_less of_nat_0_le_iff option.inject)

definition own_answer :: "nat \<Rightarrow> request_result \<Rightarrow> bool" where
  "own_answer ch r \<longleftrightarrow> (\<forall>response. r = Inr response \<longrightarrow>
     rp_ID response = FormatInt (int ch) \<and> 200 \<le> rp_Status response \<and> rp_Status response < 300)"

definition channels :: "ws_conn \<Rightarrow> nat set" where
  "channels c = fst ` set (cn_results c)"

fun req_inv :: "conn_config \<Rightarrow> bool" where
  "req_inv (c, ts) \<longleftrightarrow>
     distinct (map fst (cn_pending c)) \<and> distinct (map fst (cn_results c)) \<and>
     (\<forall>(ch, r)\<in>set (cn_results c). ch < cn_reqID c \<and> own_answer ch r) \<and>
     (\<forall>(i, ch)\<in>set (cn_pending c). ch \<notin> channels c \<and> Requesting i ch \<in># ts) \<and>
     (\<forall>i ch. Requesting i ch \<in># ts \<longrightarrow> i = FormatInt (int ch) \<and> ch < cn_reqID c \<and> count ts (Requesting i ch) = 1 \<and>
        ((i, ch) \<in> set (cn_pending c) \<or> ch \<in> channels c)) \<and>
     (State c = StateClosed \<longrightarrow> cn_pending c = [])"

lemma req_request:
  assumes "req_inv (c, ts)" "Requesting i ch \<in># ts"
  shows "i = FormatInt (int ch)" "ch < cn_reqID c" "count ts (Requesting i ch) = 1" "(i, ch) \<in> set (cn_pending c) \<or> ch \<in> channels c"
  using assms by auto

lemma req_pending:
  assumes "req_inv (c, ts)" "(i, ch) \<in> set (cn_pending c)"
  shows "ch \<notin> channels c" "Requesting i ch \<in># ts"
  using assms by auto

lemma req_result: "req_inv (c, ts) \<Longrightarrow> (ch, r) \<in> set (cn_results c) \<Longrightarrow> ch < cn_reqID c \<and> own_answer ch r"
  by auto

lemma req_distinct: "req_inv (c, ts) \<Longrightarrow> distinct (map fst (cn_pending c)) \<and> distinct (map fst (cn_results c))"
  by simp

lemma req_invI:
  assumes "distinct (map fst (cn_pending c))" "distinct (map fst (cn_results c))"
    "\<And>ch r. (ch, r) \<in> set (cn_results c) \<Longrightarrow> ch < cn_reqID c \<and> own_answer ch r"
    "\<And>i ch. (i, ch) \<in> set (cn_pending c) \<Longrightarrow> ch \<notin> channels c \<and> Requesting i ch \<in># ts"
    "\<And>i ch. Requesting i ch \<in># ts \<Longrightarrow> i = FormatInt (int ch) \<and> ch < cn_reqID c \<and> count ts (Requesting i ch) = 1 \<and>
      ((i, ch) \<in> set (cn_pending c) \<or> ch \<in> channels c)"
    "State c = StateClosed \<Longrightarrow> cn_pending c = []"
  shows "req_inv (c, ts)"
  using assms by auto

text \<open>A step that leaves the requests alone.\<close>

definition same_requests :: "ws_conn \<Rightarrow> ws_conn \<Rightarrow> bool" where
  "same_requests c c' \<longleftrightarrow>
     cn_pending c' = cn_pending c \<and> cn_results c' = cn_results c \<and> cn_reqID c' = cn_reqID c \<and>
     (State c' = StateClosed \<longrightarrow> State c = StateClosed)"

lemma same_requests_refl [simp]: "same_requests c c"
  by (simp add: same_requests_def)

lemma req_same:
  assumes "req_inv (c, ts)" "same_requests c c'" "\<And>i ch. count ts' (Requesting i ch) = count ts (Requesting i ch)"
  shows "req_inv (c', ts')"
proof -
  have m: "Requesting i ch \<in># ts' \<longleftrightarrow> Requesting i ch \<in># ts" for i ch
    using assms(3)[of i ch] by (simp flip: count_greater_zero_iff)
  show ?thesis
    using assms(1,2) unfolding req_inv.simps same_requests_def channels_def m assms(3) by auto
qed

lemma same_broadcast: "same_requests c (broadcastConnect e c)"
  by (simp add: broadcastConnect_def Let_def same_requests_def State_def split: option.split)

lemma same_requests_trans: "same_requests a b \<Longrightarrow> same_requests b c \<Longrightarrow> same_requests a c"
  by (simp add: same_requests_def)

lemma same_set_gate: "same_requests c (set_gate b c)"
  by (simp add: set_gate_def same_requests_def State_def)

lemma same_dial: "connectNew_begin c = Inr c' \<Longrightarrow> same_requests c c'"
  by (auto simp: connectNew_begin_def conn_defs Let_def same_requests_def split: if_splits option.splits)

lemma same_dialed: "connectNew_dialed e c = (x, c') \<Longrightarrow> same_requests c c'"
  by (auto simp: connectNew_dialed_def open_socket_def install_def conn_defs Let_def same_requests_def split: if_splits option.splits)

lemma same_replayed: "same_requests c (replay_finished l c)"
  by (simp add: replay_finished_def conn_defs Let_def same_requests_def split: option.split)

lemma same_handle: "handleResubscribeFailure l e c = Some (l', c') \<Longrightarrow> same_requests c c'"
  by (auto simp: handleResubscribeFailure_def conn_defs Let_def same_requests_def split: if_splits option.splits)

lemma same_fail: "same_requests c (failSubscriptionsIfCurrent l e c)"
  by (simp add: failSubscriptionsIfCurrent_def publishEvent_def State_def Let_def same_requests_def)

lemma same_clean_up: "same_requests c (clean_up l e f c)"
  using same_requests_trans[OF same_fail same_set_gate] same_set_gate by (simp add: clean_up_def)

lemma same_reinstalled: "reconnect_installed l c = (b, c') \<Longrightarrow> same_requests c c'"
  by (auto simp: reconnect_installed_def open_socket_def install_def conn_defs same_requests_def split: if_splits)

lemma same_stopped: "reconnect_stopped l e c = Some c' \<Longrightarrow> same_requests c c'"
  by (auto simp: reconnect_stopped_def conn_defs Let_def same_requests_def split: if_splits option.splits)

text \<open>The operations on the pending requests.\<close>

lemma update_fresh: "k \<notin> fst ` set al \<Longrightarrow> AList.update k v al = al @ [(k, v)]"
  by (induction al) auto

lemma register_req:
  assumes "req_inv (c, ts)" "registerPendingForConn (FormatInt (int (cn_reqID c))) (cn_reqID c) c = Inr (k, c')"
  shows "req_inv (c'\<lparr>cn_reqID := Suc (cn_reqID c)\<rparr>, add_mset (Requesting (FormatInt (int (cn_reqID c))) (cn_reqID c)) ts)"
proof -
  let ?n = "cn_reqID c" let ?i = "FormatInt (int ?n)" let ?c = "c'\<lparr>cn_reqID := Suc ?n\<rparr>"
  note r = req_request[OF assms(1)] and p = req_pending[OF assms(1)]
  have c': "c' = c\<lparr>cn_pending := AList.update ?i ?n (cn_pending c)\<rparr>" "State c \<noteq> StateClosed"
    using assms(2) by (auto simp: registerPendingForConn_def split: option.splits if_splits)
  have none: "Requesting ?i ?n \<notin># ts" using r(2)[of ?i ?n] by blast
  have fresh: "?i \<notin> fst ` set (cn_pending c)"
  proof
    assume "?i \<in> fst ` set (cn_pending c)"
    then obtain ch where "(?i, ch) \<in> set (cn_pending c)" by force
    then have "Requesting ?i ch \<in># ts" by (rule p(2))
    then show False using r(1)[of ?i ch] FormatInt_inj none by metis
  qed
  have q: "cn_pending ?c = cn_pending c @ [(?i, ?n)]" "cn_results ?c = cn_results c" "cn_reqID ?c = Suc ?n" "channels ?c = channels c"
    "State ?c = State c"
    using c'(1) fresh by (simp_all add: update_fresh channels_def State_def)
  have n: "?n \<notin> channels c" using req_result[OF assms(1)] by (force simp: channels_def)
  show ?thesis
  proof (rule req_invI)
    show "distinct (map fst (cn_pending ?c))" using req_distinct[OF assms(1)] fresh by (simp add: q)
    show "distinct (map fst (cn_results ?c))" using req_distinct[OF assms(1)] by (simp add: q)
    show "ch < cn_reqID ?c \<and> own_answer ch x" if "(ch, x) \<in> set (cn_results ?c)" for ch x
      using req_result[OF assms(1)] that by (fastforce simp: q)
    show "ch \<notin> channels ?c \<and> Requesting i ch \<in># add_mset (Requesting ?i ?n) ts" if "(i, ch) \<in> set (cn_pending ?c)" for i ch
      using p[of i ch] n that by (auto simp: q)
    show "i = FormatInt (int ch) \<and> ch < cn_reqID ?c \<and> count (add_mset (Requesting ?i ?n) ts) (Requesting i ch) = 1 \<and>
        ((i, ch) \<in> set (cn_pending ?c) \<or> ch \<in> channels ?c)" if m: "Requesting i ch \<in># add_mset (Requesting ?i ?n) ts" for i ch
    proof (cases "ch = ?n")
      case True
      then have "i = ?i" using m r(2)[of i ch] by auto
      then show ?thesis using True none by (simp add: q not_in_iff)
    next
      case False
      then have "Requesting i ch \<in># ts" using m by simp
      then show ?thesis using r[of i ch] False by (auto simp: q)
    qed
  qed (use c'(2) in \<open>simp add: q\<close>)
qed

lemma set_delete: "set (AList.delete i al) = {p \<in> set al. fst p \<noteq> i}"
  by (induction al) auto

lemma pending_unique:
  assumes "distinct (map fst al)" "(i, a) \<in> set al" "(i, b) \<in> set al"
  shows "a = b"
  using assms by (metis eq_key_imp_eq_value)

lemma take_req:
  assumes "req_inv (c, ts)" "\<And>ch. i = FormatInt (int ch) \<Longrightarrow> own_answer ch r"
  shows "req_inv (take_pending i r c, ts)"
proof (cases "map_of (cn_pending c) i")
  case None
  then show ?thesis using assms(1) by (simp add: take_pending_def)
next
  case (Some ch)
  then have ch: "(i, ch) \<in> set (cn_pending c)" by (rule map_of_SomeD)
  let ?c = "take_pending i r c"
  note rq = req_request[OF assms(1)] and p = req_pending[OF assms(1)]
  have c': "cn_pending ?c = AList.delete i (cn_pending c)" "cn_results ?c = (ch, r) # cn_results c" "cn_reqID ?c = cn_reqID c"
    "State ?c = State c" "channels ?c = insert ch (channels c)"
    using Some by (simp_all add: take_pending_def send_result_def removePending_def State_def channels_def)
  note i = rq(1,2)[OF p(2)[OF ch]]
  have same: "j = i" if "(j, ch) \<in> set (cn_pending c)" for j using rq(1)[OF p(2)[OF that]] i(1) by simp
  have here: "(j, ch') \<in> set (cn_pending c) \<Longrightarrow> j \<noteq> i \<or> ch' = ch" for j ch'
    using pending_unique[of "cn_pending c" i ch' ch] ch req_distinct[OF assms(1)] by blast
  show ?thesis
  proof (rule req_invI)
    show "distinct (map fst (cn_pending ?c))" using req_distinct[OF assms(1)] by (simp add: c' distinct_delete)
    show "distinct (map fst (cn_results ?c))"
      using req_distinct[OF assms(1)] p(1)[OF ch] by (simp add: c' channels_def)
    show "ch' < cn_reqID ?c \<and> own_answer ch' x" if "(ch', x) \<in> set (cn_results ?c)" for ch' x
      using req_result[OF assms(1), of ch' x] assms(2)[OF i(1)] i(2) that by (auto simp: c')
    show "ch' \<notin> channels ?c \<and> Requesting j ch' \<in># ts" if "(j, ch') \<in> set (cn_pending ?c)" for j ch'
      using p[of j ch'] same that by (auto simp: c' set_delete)
    show "j = FormatInt (int ch') \<and> ch' < cn_reqID ?c \<and> count ts (Requesting j ch') = 1 \<and>
        ((j, ch') \<in> set (cn_pending ?c) \<or> ch' \<in> channels ?c)" if "Requesting j ch' \<in># ts" for j ch'
      using rq[OF that] here[of j ch'] by (auto simp: c' set_delete)
    show "cn_pending ?c = []" if "State ?c = StateClosed" using assms(1) that by (simp add: c')
  qed
qed

lemma dispatch_req:
  assumes "req_inv (c, ts)" "dispatchResponse payload c = (handled, e, c')"
  shows "req_inv (c', ts)"
proof -
  have "own_answer ch (Inl x)" for ch x by (simp add: own_answer_def)
  moreover have "own_answer ch (request_outcome response)" if "rp_ID response = FormatInt (int ch)" for ch response
    using that by (auto simp: own_answer_def request_outcome_def split: option.splits if_splits)
  ultimately show ?thesis
    using assms take_req[OF assms(1)]
    by (auto simp: dispatchResponse_def split: payload_kind.splits option.splits simp del: req_inv.simps)
qed

lemma failPending_req:
  assumes "req_inv (c, ts)"
  shows "req_inv (failPending e c, ts)"
proof -
  let ?c = "failPending e c"
  note rq = req_request[OF assms] and p = req_pending[OF assms]
  have inj: "inj_on snd (set (cn_pending c))"
  proof (rule inj_onI, clarsimp)
    fix i j ch assume "(i, ch) \<in> set (cn_pending c)" "(j, ch) \<in> set (cn_pending c)"
    then show "i = j" using rq(1)[OF p(2), of i ch] rq(1)[OF p(2), of j ch] by simp
  qed
  have "distinct (cn_pending c)" using req_distinct[OF assms] by (simp add: distinct_map)
  then have d: "distinct (map snd (cn_pending c))" using inj by (simp add: distinct_map)
  have c': "cn_pending ?c = []" "cn_results ?c = map (\<lambda>(i, ch). (ch, Inl e)) (cn_pending c) @ cn_results c" "cn_reqID ?c = cn_reqID c"
    by (simp_all add: failPending_def)
  have ch: "channels ?c = snd ` set (cn_pending c) \<union> channels c"
    by (force simp: channels_def c')
  have m: "map fst (cn_results ?c) = map snd (cn_pending c) @ map fst (cn_results c)"
    by (simp add: c' case_prod_beta comp_def)
  have no: "snd ` set (cn_pending c) \<inter> channels c = {}" using p(1) by auto
  show ?thesis
  proof (rule req_invI)
    show "distinct (map fst (cn_results ?c))"
      unfolding m using req_distinct[OF assms] d no by (auto simp: channels_def)
    show "ch < cn_reqID ?c \<and> own_answer ch r" if "(ch, r) \<in> set (cn_results ?c)" for ch r
      using that rq(2)[OF p(2)] req_result[OF assms] by (fastforce simp: c' own_answer_def)
    show "i = FormatInt (int ch) \<and> ch < cn_reqID ?c \<and> count ts (Requesting i ch) = 1 \<and>
        ((i, ch) \<in> set (cn_pending ?c) \<or> ch \<in> channels ?c)" if "Requesting i ch \<in># ts" for i ch
      using rq[OF that] by (force simp: c'(1,3) ch)
  qed (simp_all add: c'(1))
qed

lemma remove_req:
  assumes "req_inv (c, add_mset (Requesting i ch) ts)"
  shows "req_inv (removePending i c, ts)"
proof -
  let ?c = "removePending i c"
  note rq = req_request[OF assms] and p = req_pending[OF assms]
  have c': "cn_pending ?c = AList.delete i (cn_pending c)" "cn_results ?c = cn_results c" "cn_reqID ?c = cn_reqID c" "State ?c = State c"
    "channels ?c = channels c"
    by (simp_all add: removePending_def State_def channels_def)
  have i: "i = FormatInt (int ch)" "Requesting i ch \<notin># ts" using rq(1,3)[of i ch] by (simp_all add: not_in_iff)
  have other: "j \<noteq> i" if "Requesting j ch' \<in># ts" for j ch'
  proof
    assume j: "j = i"
    have "j = FormatInt (int ch')" by (rule rq(1)) (simp add: that)
    then have "ch' = ch" using j i(1) FormatInt_inj by simp
    then show False using that i(2) j by blast
  qed
  show ?thesis
  proof (rule req_invI)
    show "distinct (map fst (cn_pending ?c))" "distinct (map fst (cn_results ?c))"
      using req_distinct[OF assms] by (simp_all add: c' distinct_delete)
    show "ch' < cn_reqID ?c \<and> own_answer ch' r" if "(ch', r) \<in> set (cn_results ?c)" for ch' r
      using req_result[OF assms] that by (simp add: c')
    show "ch' \<notin> channels ?c \<and> Requesting j ch' \<in># ts" if "(j, ch') \<in> set (cn_pending ?c)" for j ch'
      using p[of j ch'] that by (auto simp: c' set_delete)
    show "j = FormatInt (int ch') \<and> ch' < cn_reqID ?c \<and> count ts (Requesting j ch') = 1 \<and>
        ((j, ch') \<in> set (cn_pending ?c) \<or> ch' \<in> channels ?c)" if m: "Requesting j ch' \<in># ts" for j ch'
      using rq[of j ch'] other[OF m] m by (auto simp: c' set_delete)
    show "cn_pending ?c = []" if "State ?c = StateClosed" using assms that by (simp add: c')
  qed
qed

lemma same_started: "same_requests c (startConnectAttempt c)"
  by (simp add: startConnectAttempt_def Let_def same_requests_def State_def split: option.split)

lemma same_drop: "same_requests c (drop_conn c)"
  by (simp add: drop_conn_def close_socket_def same_requests_def State_def split: option.split)

lemma pump_failed_req:
  assumes "readPump_failed l e c = Some (l', f, r, c')" "req_inv (c, ts)"
  shows "req_inv (c', ts)"
proof -
  define c1 where "c1 = (drop_conn c)\<lparr>cn_replay := False\<rparr>"
  let ?a = "startConnectAttempt (setState StateReconnecting (Some e) c1)"
  let ?d = "setState StateDisconnected (Some e) c1"
  let ?b = "broadcastConnect (Some e) (?d\<lparr>cn_lifecycle := Suc (cn_lifecycle ?d)\<rparr>)"
  have c1: "same_requests c c1" using same_drop[of c] by (simp add: c1_def same_requests_def State_def)
  have "same_requests c (setState StateReconnecting (Some e) c1)" "same_requests c (?d\<lparr>cn_lifecycle := Suc (cn_lifecycle ?d)\<rparr>)"
    using c1 by (simp_all add: setState_def publishEvent_def store_state_def same_requests_def State_def)
  then have "same_requests c ?a" "same_requests c ?b"
    using same_requests_trans same_started same_broadcast by blast+
  moreover have "c' = failPending e ?a \<or> c' = failPending e ?b"
    using assms(1) by (auto simp: readPump_failed_def Let_def c1_def split: if_splits)
  ultimately show ?thesis using failPending_req[OF req_same[OF assms(2)]] by blast
qed

lemma close_req:
  assumes "req_inv (c, ts)"
  shows "req_inv (Close_begin c, add_mset Closing ts)"
proof -
  let ?c = "broadcastConnect (Some ConnClosed) ((setState StateClosed None c)\<lparr>cn_done := True\<rparr>)"
  let ?f = "failPending ConnClosed ?c"
  have f: "cn_pending ?c = cn_pending c" "cn_results ?c = cn_results c" "cn_reqID ?c = cn_reqID c"
    by (simp_all add: conn_defs Let_def split: option.split)
  have "req_inv (failPending ConnClosed c, ts)" by (rule failPending_req[OF assms])
  moreover have "cn_pending ?f = []" "cn_results ?f = cn_results (failPending ConnClosed c)" "cn_reqID ?f = cn_reqID (failPending ConnClosed c)"
    "cn_pending (failPending ConnClosed c) = []"
    using f by (simp_all add: failPending_def)
  ultimately have "req_inv (?f, ts)" by (simp add: channels_def)
  then show ?thesis unfolding Close_begin_def by (rule req_same[OF _ same_drop]) simp
qed

lemma conn_step_req:
  assumes "conn_step cfg cfg'" "req_inv cfg"
  shows "req_inv cfg'"
  using assms
proof (induction rule: conn_step.induct)
  case dial show ?case by (rule req_same[OF dial.prems same_dial[OF dial(3)]]) simp
next
  case dialed show ?case by (rule req_same[OF dialed.prems same_dialed[OF dialed(1)]]) simp
next
  case dial_failed show ?case by (rule req_same[OF dial_failed.prems same_dialed[OF dial_failed(1)]]) simp
next
  case replayed show ?case by (rule req_same[OF replayed.prems same_replayed]) simp
next
  case replay_failed
  show ?case by (rule req_same[OF replay_failed.prems same_requests_trans[OF same_handle[OF replay_failed(2)] same_set_gate]]) simp
next
  case (pump_response payload c c' l ts)
  then have "req_inv (c', add_mset (PumpGot l payload) ts)" using dispatch_req by blast
  then show ?case by (rule req_same) simp_all
next
  case (pump_malformed payload c handled e c' l ts)
  then have "req_inv (c', add_mset (PumpGot l payload) ts)" using dispatch_req by blast
  then show ?case by (rule req_same) simp_all
next
  case (pump_frame payload c c' l ts)
  then have "req_inv (c', add_mset (PumpGot l payload) ts)" using dispatch_req by blast
  then show ?case by (rule req_same) simp_all
next
  case (pump_slow payload c c' l ts)
  then have "req_inv (c', add_mset (PumpGot l payload) ts)" using dispatch_req by blast
  then show ?case by (rule req_same) simp_all
next
  case (pump_failed c l e l' f r c' ts)
  have "req_inv (c', add_mset (PumpFailed l e) ts)" by (rule pump_failed_req[OF pump_failed(2) pump_failed.prems])
  then show ?case by (rule req_same[OF _ same_set_gate]) simp
next
  case (cleaned_up c l e f r ts)
  show ?case by (rule req_same[OF cleaned_up same_clean_up]) (simp add: after_clean_up_def)
next
  case sleep_closed show ?case by (rule req_same[OF sleep_closed.prems same_broadcast]) simp
next
  case redial show ?case by (rule req_same[OF redial.prems same_set_gate]) simp
next
  case redialed show ?case by (rule req_same[OF redialed.prems same_reinstalled[OF redialed(1)]]) simp
next
  case redial_stale show ?case by (rule req_same[OF redial_stale.prems same_reinstalled[OF redial_stale(1)]]) simp
next
  case redial_failed show ?case by (rule req_same[OF redial_failed.prems same_set_gate]) simp
next
  case redial_refused
  show ?case by (rule req_same[OF redial_refused.prems same_requests_trans[OF same_set_gate same_stopped[OF redial_refused(2)]]]) simp
next
  case redial_refused_stale show ?case by (rule req_same[OF redial_refused_stale.prems same_set_gate]) simp
next
  case exhausted show ?case by (rule req_same[OF exhausted.prems same_stopped[OF exhausted(2)]]) simp
next
  case gave_up show ?case by (rule req_same[OF gave_up.prems same_fail]) simp
next
  case register show ?case by (rule register_req[OF register.prems register(1)])
next
  case (answered ch r c i ts)
  have ch: "ch \<in> channels c" using answered(1) by (force simp: channels_def)
  note rq = req_request[OF answered.prems] and p = req_pending[OF answered.prems]
  have here: "Requesting i ch \<notin># ts" using rq(3)[of i ch] by (simp add: not_in_iff)
  show ?case
  proof (rule req_invI)
    show "distinct (map fst (cn_pending c))" "distinct (map fst (cn_results c))" using req_distinct[OF answered.prems] by blast+
    show "ch' < cn_reqID c \<and> own_answer ch' r" if "(ch', r) \<in> set (cn_results c)" for ch' r
      by (rule req_result[OF answered.prems that])
    show "ch' \<notin> channels c \<and> Requesting j ch' \<in># ts" if "(j, ch') \<in> set (cn_pending c)" for j ch'
      using p[OF that] ch by auto
    show "j = FormatInt (int ch') \<and> ch' < cn_reqID c \<and> count ts (Requesting j ch') = 1 \<and>
        ((j, ch') \<in> set (cn_pending c) \<or> ch' \<in> channels c)" if m: "Requesting j ch' \<in># ts" for j ch'
    proof -
      have "Requesting j ch' \<noteq> Requesting i ch" using m here by blast
      then show ?thesis using rq[of j ch'] m by auto
    qed
    show "cn_pending c = []" if "State c = StateClosed" using answered.prems that by simp
  qed
next
  case abandoned then show ?case by (rule remove_req)
next
  case (socket_closed c ts k)
  show ?case by (rule req_same[OF socket_closed]) (simp_all add: close_socket_def same_requests_def State_def)
next
  case close then show ?case using close_req by blast
next
  case (closed ts c)
  show ?case by (rule req_same[OF closed.prems]) (simp_all add: Close_tables_def same_requests_def State_def)
next
  case (subscribed w c ts)
  show ?case by (rule req_same[OF subscribed.prems]) (use subscribed(1) in \<open>simp_all add: same_requests_def State_def\<close>)
qed (erule req_same; simp)+

lemma conn_reachable_req: "conn_reachable cfg \<Longrightarrow> req_inv cfg"
proof (induction rule: conn_reachable.induct)
  case conn_init then show ?case by (simp add: new_ws_conn_def State_def)
next
  case conn_next then show ?case using conn_step_req by blast
qed

section \<open>The connection\<close>

text \<open>C1: In every reachable configuration of the websocket client: it has a connection exactly in the
  state Connected, no socket but that connection is open, at most one goroutine holds the lifecycle
  gate, and unless the client is closed exactly one read pump serves the connection while there is one
  and exactly one goroutine drives the connection attempt while there is one.\<close>

theorem connection_invariant:
  assumes "conn_reachable (c, ts)"
  shows "(cn_conn c \<noteq> None \<longleftrightarrow> State c = StateConnected) \<and> (\<forall>k\<in>set (cn_sockets c). cn_conn c = Some k) \<and>
    size (filter_mset holds_gate ts) \<le> 1 \<and> (cn_done c \<longleftrightarrow> State c = StateClosed) \<and>
    (State c \<noteq> StateClosed \<longrightarrow>
      size (filter_mset (pumps (cn_lifecycle c)) ts) = (if State c = StateConnected then 1 else 0) \<and>
      size (filter_mset (drives (cn_lifecycle c)) ts) = (if attempting c then 1 else 0))"
proof -
  have "client_ok c" "counts_ok c ts" using conn_reachable_inv[OF assms] by simp_all
  then show ?thesis unfolding client_ok_def counts_ok_def by (simp split: if_splits)
qed

text \<open>The gate is free for whoever drives an attempt without holding it.\<close>

lemma gate_free:
  assumes "conn_inv (c, add_mset t ts)" "drives (cn_lifecycle c) t" "\<not> holds_gate t" "State c \<noteq> StateClosed"
  shows "cn_gate c"
proof (rule ccontr)
  assume g: "\<not> cn_gate c"
  have ok: "\<forall>u\<in>#add_mset t ts. routine_ok c u" and n: "counts_ok c (add_mset t ts)" using assms(1) by simp_all
  have "size (filter_mset holds_gate ts) = 1" using n g assms(3) by (simp add: counts_ok_def)
  then have "filter_mset holds_gate ts \<noteq> {#}" by (metis size_empty zero_neq_one)
  then obtain u where u: "u \<in># ts" "holds_gate u" by auto
  have "attempting c" using n assms(2,4) by (auto simp: counts_ok_def split: if_splits)
  moreover have "routine_lifecycle u = Some (cn_lifecycle c)" "fits (State c) u" using ok u assms(4) by (auto simp: routine_ok_def)
  ultimately have "drives (cn_lifecycle c) u" using u(2) by (cases u) (auto simp: attempting_def split: if_splits)
  then have "add_mset t {#u#} \<subseteq># filter_mset (drives (cn_lifecycle c)) (add_mset t ts)" using u(1) assms(2) by simp
  then have le: "size (add_mset t {#u#}) \<le> size (filter_mset (drives (cn_lifecycle c)) (add_mset t ts))" by (rule size_mset_mono)
  have eq: "size (filter_mset (drives (cn_lifecycle c)) (add_mset t ts)) = (if attempting c then 1 else 0)"
    using n assms(4) unfolding counts_ok_def by blast
  show False using le unfolding eq by (simp split: if_splits)
qed

text \<open>A driver can always go on.\<close>

lemma driver_goes_on:
  assumes "conn_inv (c, add_mset t ts)" "drives (cn_lifecycle c) t" "State c \<noteq> StateClosed"
  shows "\<exists>c' us. conn_step (c, add_mset t ts) (c', us + ts)"
proof (cases t)
  case (Dialing l)
  let ?c = "install (cn_nextSocket c) (snd (open_socket c))"
  have "connectNew_dialed None c = (None, ?c)"
    using assms(3) by (simp add: connectNew_dialed_def open_socket_def State_def)
  from conn_step.dialed[OF this, of l ts] show ?thesis
    by (intro exI[of _ ?c] exI[of _ "{#Replaying l, Pumping l#}"]) (simp add: Dialing)
next
  case (Replaying l)
  show ?thesis using conn_step.replayed[of c l ts]
    by (intro exI[of _ "replay_finished l c"] exI[of _ "{#}"]) (simp add: Replaying)
next
  case (ReplayFailed l e)
  have g: "cn_gate c" by (rule gate_free[OF assms(1,2) _ assms(3)]) (simp add: ReplayFailed)
  show ?thesis
  proof (cases "handleResubscribeFailure l e c")
    case None
    show ?thesis using conn_step.replay_stale[of c l e ts] g None
      by (intro exI[of _ c] exI[of _ "{#}"]) (simp add: ReplayFailed)
  next
    case (Some r)
    obtain l' c' where r: "r = (l', c')" by (cases r)
    show ?thesis using conn_step.replay_failed[OF g, of l e l' c' ts] Some r
      by (intro exI[of _ "set_gate False c'"] exI[of _ "{#CleaningUp l' e True False#}"]) (simp add: ReplayFailed)
  qed
next
  case (CleaningUp l e f r)
  then show ?thesis using conn_step.cleaned_up by blast
next
  case (Sleeping l a e)
  have g: "cn_gate c" by (rule gate_free[OF assms(1,2) _ assms(3)]) (simp add: Sleeping)
  have l: "l = cn_lifecycle c" using assms(2) Sleeping by simp
  have s: "State c = StateReconnecting" by (rule sleeping_current[OF assms(1)[unfolded Sleeping] assms(3) l])
  show ?thesis
  proof (cases "attempts_exhausted c a")
    case True
    obtain c' where c': "reconnect_stopped l (ConnMaxReconnects e) c = Some c'"
      using s l by (simp add: reconnect_stopped_def)
    show ?thesis using conn_step.exhausted[OF True c', of ts]
      by (intro exI[of _ c'] exI[of _ "{#GaveUp l (ConnMaxReconnects e)#}"]) (simp add: Sleeping)
  next
    case False
    have go: "reconnect_goes_on l c" using s l by (simp add: reconnect_goes_on_def)
    show ?thesis using conn_step.redial[OF False go g, of e ts]
      by (intro exI[of _ "set_gate False c"] exI[of _ "{#Redialing l a#}"]) (simp add: Sleeping)
  qed
next
  case (Redialing l a)
  have "\<not> token_failure (EMsg [])" by (simp add: token_failure_def)
  from conn_step.redial_failed[OF this, of c l a ts] show ?thesis
    by (intro exI[of _ "set_gate True c"] exI[of _ "{#Sleeping l (Suc a) (Some (EMsg []))#}"]) (simp add: Redialing)
qed (use assms(2) in auto)

text \<open>C2: A caller of \<open>Connect\<close> never waits for nothing: in every reachable configuration, when \<open>Connect\<close>
  decides to wait there is a channel and it is open, and the channel of a waiting caller is already
  closed, or it is the one of the current attempt, which exactly one goroutine drives, and that
  goroutine is able to take its next step.\<close>

theorem connect_waiters_released:
  assumes "conn_reachable (c, ts)"
  shows "(\<forall>d. Connect_check c = ConnectWait d \<longrightarrow> d \<noteq> None \<and> d \<notin> Some ` set (cn_closedDone c)) \<and>
    (\<forall>d. Waiting d \<in># ts \<and> d \<notin> set (cn_closedDone c) \<longrightarrow>
      cn_connectDone c = Some d \<and>
      (\<exists>t us. ts = add_mset t us \<and> filter_mset (drives (cn_lifecycle c)) ts = {#t#} \<and>
        (\<exists>c' new. conn_step (c, ts) (c', new + us))))"
proof -
  have inv: "conn_inv (c, ts)" by (rule conn_reachable_inv[OF assms])
  then have ok: "client_ok c" and r: "\<forall>t\<in>#ts. routine_ok c t" and n: "counts_ok c ts" by simp_all
  have "d \<noteq> None \<and> d \<notin> Some ` set (cn_closedDone c)" if w: "Connect_check c = ConnectWait d" for d
  proof -
    have "attempting c" "d = cn_connectDone c"
      using w ok by (auto simp: Connect_check_def attempting_def client_ok_def split: if_splits)
    then show ?thesis using ok by (auto simp: client_ok_def split: option.splits)
  qed
  moreover have "cn_connectDone c = Some d \<and> (\<exists>t us. ts = add_mset t us \<and> filter_mset (drives (cn_lifecycle c)) ts = {#t#} \<and>
        (\<exists>c' new. conn_step (c, ts) (c', new + us)))" if w: "Waiting d \<in># ts" "d \<notin> set (cn_closedDone c)" for d
  proof -
    have d: "cn_connectDone c = Some d" using r w by (auto simp: routine_ok_def)
    then have a: "attempting c" using ok w(2) by (simp add: client_ok_def)
    then have s: "State c \<noteq> StateClosed" by (auto simp: attempting_def)
    then have "size (filter_mset (drives (cn_lifecycle c)) ts) = 1" using n a by (simp add: counts_ok_def)
    then obtain t where t: "filter_mset (drives (cn_lifecycle c)) ts = {#t#}" using size_1_singleton_mset by blast
    then have "t \<in># filter_mset (drives (cn_lifecycle c)) ts" by simp
    then have m: "t \<in># ts" "drives (cn_lifecycle c) t" by simp_all
    then obtain us where us: "ts = add_mset t us" by (metis multi_member_split)
    show ?thesis using d t us driver_goes_on[OF inv[unfolded us] m(2) s] by blast
  qed
  ultimately show ?thesis by blast
qed

section \<open>Answers, cleanups, close\<close>

text \<open>C3: In every reachable configuration a request is answered at most once, a waiting request is
  registered or answered but never both, nothing is registered that nobody waits for, a successful
  answer carries the id of its request and a 2xx status, and a closed client has no registered request.\<close>

theorem requests_answered_once:
  assumes "conn_reachable (c, ts)"
  shows "distinct (map fst (cn_results c)) \<and>
    (\<forall>i ch. Requesting i ch \<in># ts \<longrightarrow> (map_of (cn_pending c) i = Some ch) \<noteq> (ch \<in> fst ` set (cn_results c))) \<and>
    (\<forall>(i, ch)\<in>set (cn_pending c). Requesting i ch \<in># ts) \<and>
    (\<forall>(ch, r)\<in>set (cn_results c). \<forall>response. r = Inr response \<longrightarrow>
       rp_ID response = FormatInt (int ch) \<and> 200 \<le> rp_Status response \<and> rp_Status response < 300) \<and>
    (State c = StateClosed \<longrightarrow> cn_pending c = [])"
proof -
  have inv: "req_inv (c, ts)" by (rule conn_reachable_req[OF assms])
  note rq = req_request[OF inv] and p = req_pending[OF inv]
  have "(map_of (cn_pending c) i = Some ch) \<noteq> (ch \<in> fst ` set (cn_results c))" if "Requesting i ch \<in># ts" for i ch
    using rq(4)[OF that] p(1)[of i ch] req_distinct[OF inv] map_of_SomeD[of "cn_pending c" i ch] map_of_is_SomeI[of "cn_pending c" i ch]
    unfolding channels_def by blast
  moreover have "\<forall>(i, ch)\<in>set (cn_pending c). Requesting i ch \<in># ts" using p(2) by auto
  moreover have "\<forall>(ch, r)\<in>set (cn_results c). \<forall>response. r = Inr response \<longrightarrow>
       rp_ID response = FormatInt (int ch) \<and> 200 \<le> rp_Status response \<and> rp_Status response < 300"
    using req_result[OF inv] unfolding own_answer_def by fastforce
  ultimately show ?thesis using inv by simp
qed

text \<open>A cleanup of a lost connection closes subscriptions only while no newer connection exists: when
  it closes any, its lifecycle is the current one and the client is disconnected or reconnecting with
  no connection; a cleanup of an older lifecycle changes nothing. A drop with automatic reconnect closes
  them only when the consumer was too slow.\<close>

theorem stale_cleanup_harmless:
  assumes "conn_reachable (c, ts)" "CleaningUp l e f r \<in># ts \<or> GaveUp l e \<in># ts"
  shows "(failSubscriptionsIfCurrent l e c \<noteq> c \<longrightarrow>
      l = cn_lifecycle c \<and> State c \<in> {StateDisconnected, StateReconnecting} \<and> cn_conn c = None) \<and>
    (l \<noteq> cn_lifecycle c \<longrightarrow> failSubscriptionsIfCurrent l e c = c) \<and>
    (\<forall>m x l' f' c'. cn_auto c \<and> readPump_failed m x c = Some (l', f', True, c') \<longrightarrow>
       f' = (x = ConnSlowConsumer) \<and> wc_tables (cn_ws c') = wc_tables (cn_ws c) \<and>
       wc_activeFeeds (cn_ws c') = wc_activeFeeds (cn_ws c))"
proof -
  have inv: "client_ok c" "\<forall>t\<in>#ts. routine_ok c t" using conn_reachable_inv[OF assms(1)] by simp_all
  have "State c = StateDisconnected \<or> State c = StateReconnecting" if "State c \<noteq> StateClosed" "l = cn_lifecycle c"
  proof -
    obtain t where t: "t \<in># ts" "t = CleaningUp l e f r \<or> t = GaveUp l e" using assms(2) by blast
    then have "routine_ok c t" using inv(2) by blast
    then have "fits (State c) t" using that t(2) unfolding routine_ok_def by force
    then show ?thesis using t(2) by (auto split: if_splits)
  qed
  moreover have "wc_tables (cn_ws c') = wc_tables (cn_ws c) \<and> wc_activeFeeds (cn_ws c') = wc_activeFeeds (cn_ws c) \<and> f' = (x = ConnSlowConsumer)"
    if "cn_auto c" "readPump_failed m x c = Some (l', f', True, c')" for m x l' f' c'
    using that by (auto simp: readPump_failed_def failPending_def conn_defs Let_def split: if_splits option.splits)
  moreover have "cn_conn c = None" if "State c \<noteq> StateConnected" using inv(1) that by (simp add: client_ok_def)
  moreover have "failSubscriptionsIfCurrent l e c = c" if "l \<noteq> cn_lifecycle c \<or> State c = StateClosed"
    using that by (auto simp: failSubscriptionsIfCurrent_def)
  ultimately show ?thesis by fastforce
qed

lemma step_stays_closed:
  assumes "conn_step cfg cfg'" "State (fst cfg) = StateClosed"
  shows "State (fst cfg') = StateClosed"
  using assms
proof (induction rule: conn_step.induct)
  case dial then show ?case by (simp add: connectNew_begin_def split: if_splits)
next
  case dialed then show ?case by (auto simp: connectNew_dialed_def open_socket_def State_def split: if_splits)
next
  case dial_failed
  then show ?case by (auto simp: connectNew_dialed_def open_socket_def conn_defs Let_def split: if_splits option.splits)
next
  case replay_failed then show ?case by (simp add: handleResubscribeFailure_def)
next
  case pump_response then show ?case using dispatch_same by (force simp: same_conn_def)
next
  case pump_malformed then show ?case using dispatch_same by (force simp: same_conn_def)
next
  case pump_frame then show ?case using dispatch_same by (force simp: same_conn_def)
next
  case pump_slow then show ?case using dispatch_same by (force simp: same_conn_def)
next
  case pump_failed then show ?case by (simp add: readPump_failed_def)
next
  case cleaned_up then show ?case by (simp add: clean_up_def failSubscriptionsIfCurrent_def set_gate_def State_def)
next
  case redial then show ?case by (simp add: reconnect_goes_on_def)
next
  case redialed then show ?case by (auto simp: reconnect_installed_def reconnect_goes_on_def open_socket_def State_def)
next
  case redial_stale
  then show ?case by (auto simp: reconnect_installed_def open_socket_def conn_defs split: if_splits)
next
  case redial_refused then show ?case by (simp add: reconnect_stopped_def set_gate_def State_def)
next
  case exhausted then show ?case by (simp add: reconnect_stopped_def)
next
  case register then show ?case by (simp add: registerPendingForConn_def)
qed (simp_all add: replay_finished_def failSubscriptionsIfCurrent_def Close_tables_def removePending_def conn_defs Let_def split: option.split)

text \<open>C4: \<open>Close\<close> is final: whatever is still under way, a closed client stays closed, has no connection,
  no open socket and no registered request, refuses requests, and \<open>Connect\<close> never starts an attempt.\<close>

theorem close_is_final:
  assumes "conn_reachable (c, ts)" "State c = StateClosed" "conn_step\<^sup>*\<^sup>* (c, ts) (c', ts')"
  shows "State c' = StateClosed \<and> cn_conn c' = None \<and> cn_sockets c' = [] \<and> cn_pending c' = [] \<and>
    registerPendingForConn i ch c' = Inl ConnClosed \<and>
    (\<forall>d. Connect_check c' \<noteq> ConnectWait d) \<and> Connect_check c' \<noteq> ConnectNew \<and> (\<forall>x. connectNew_begin c' \<noteq> Inr x)"
proof -
  have "conn_reachable (c', ts') \<and> State c' = StateClosed"
    using assms(3,1,2)
  proof (induction "(c', ts')" arbitrary: c' ts' rule: rtranclp_induct)
    case (step cfg)
    obtain d us where cfg: "cfg = (d, us)" by (cases cfg)
    then have "conn_reachable (d, us) \<and> State d = StateClosed" using step by blast
    then show ?case using conn_next[OF _ step(2)] step_stays_closed[OF step(2)] cfg by simp
  qed simp
  moreover from this have "cn_conn c' = None \<and> cn_sockets c' = []" "req_inv (c', ts')"
    using no_sockets[OF conn_reachable_inv] conn_reachable_req by force+
  ultimately show ?thesis
    by (auto simp: registerPendingForConn_def Connect_check_def connectNew_begin_def)
qed

section \<open>A replay that fails\<close>

text \<open>The run of a client whose first replay is refused while a request waits for its answer.\<close>

definition demo_refusal :: conn_error where "demo_refusal = ConnResubscribe []"

definition demo0 :: ws_conn where "demo0 = new_ws_conn (new_ws_client False False False) None True True 0 0"
definition demo1 :: ws_conn where "demo1 = startConnectAttempt (set_gate False (setState StateConnecting None demo0))"
definition demo2 :: ws_conn where "demo2 = install 0 (snd (open_socket demo1))"
definition demo3 :: ws_conn where "demo3 = demo2\<lparr>cn_pending := [(FormatInt (int 0), 0)], cn_reqID := Suc 0\<rparr>"
definition demo4 :: ws_conn where
  "demo4 = broadcastConnect (Some demo_refusal) (setState StateDisconnected (Some demo_refusal)
     ((drop_conn (demo3\<lparr>cn_replay := False\<rparr>))\<lparr>cn_lifecycle := 2\<rparr>))"
definition demo5 :: ws_conn where "demo5 = clean_up 2 demo_refusal True (set_gate False demo4)"

lemmas demo_defs = demo0_def demo1_def demo2_def demo3_def demo4_def new_ws_conn_def new_ws_client_def conn_defs install_def
  open_socket_def Let_def

lemma demo_fields:
  "State demo0 = StateDisconnected" "cn_gate demo0" "cn_config demo0 = None"
  "State demo1 = StateConnecting" "cn_lifecycle demo1 = 1" "\<not> cn_gate demo1" "cn_connectDone demo1 = Some 0" "cn_closedDone demo1 = []"
  "State demo2 = StateConnected" "cn_conn demo2 = Some 0" "cn_pending demo2 = []" "cn_reqID demo2 = 0" "cn_lifecycle demo2 = 1" "cn_gate demo2"
  "State demo3 = StateConnected" "cn_lifecycle demo3 = 1" "cn_gate demo3" "cn_conn demo3 = Some 0" "cn_results demo3 = []"
  "State demo4 = StateDisconnected" "cn_conn demo4 = None" "cn_sockets demo4 = []" "cn_lifecycle demo4 = 2"
  "cn_pending demo4 = [(FormatInt (int 0), 0)]" "cn_results demo4 = []"
  by (simp_all add: demo_defs)

lemma demo_step1: "conn_step (demo0, {#}) (demo1, {#Dialing 1#})"
proof -
  have "connectNew_begin demo0 = Inr demo1"
    by (simp add: connectNew_begin_def demo_fields) (simp add: demo1_def demo0_def new_ws_conn_def new_ws_client_def)
  from conn_step.dial[OF demo_fields(3,2) this, of "{#}"] show ?thesis by (simp add: demo_fields)
qed

lemma demo_step2: "conn_step (demo1, {#Dialing 1#}) (demo2, {#Replaying 1, Pumping 1#})"
proof -
  have "cn_nextSocket demo1 = 0" by (simp add: demo_defs)
  then have "connectNew_dialed None demo1 = (None, demo2)"
    using demo_fields(4) by (simp add: connectNew_dialed_def open_socket_def demo2_def State_def)
  from conn_step.dialed[OF this, of 1 "{#}"] show ?thesis by simp
qed

lemma demo_step3: "conn_step (demo2, {#Replaying 1, Pumping 1#}) (demo3, {#Requesting (FormatInt (int 0)) 0, Replaying 1, Pumping 1#})"
proof -
  have "registerPendingForConn (FormatInt (int (cn_reqID demo2))) (cn_reqID demo2) demo2 =
      Inr (0, demo2\<lparr>cn_pending := [(FormatInt (int 0), 0)]\<rparr>)"
    by (simp add: registerPendingForConn_def demo_fields)
  from conn_step.register[OF this, of "{#Replaying 1, Pumping 1#}"] show ?thesis
    by (simp add: demo_fields demo3_def)
qed

abbreviation (input) waiting_request :: routine where "waiting_request \<equiv> Requesting (FormatInt (int 0)) 0"

lemma demo_step4: "conn_step (demo3, {#Replaying 1, Pumping 1, waiting_request#}) (demo3, {#ReplayFailed 1 demo_refusal, Pumping 1, waiting_request#})"
  by (rule replay_refused)

lemma demo_step5: "conn_step (demo3, {#ReplayFailed 1 demo_refusal, Pumping 1, waiting_request#})
    (set_gate False demo4, {#CleaningUp 2 demo_refusal True False, Pumping 1, waiting_request#})"
proof -
  have "handleResubscribeFailure 1 demo_refusal demo3 = Some (2, demo4)"
    by (simp add: handleResubscribeFailure_def demo_fields demo4_def Let_def drop_conn_def close_socket_def numeral_2_eq_2)
  from conn_step.replay_failed[OF demo_fields(17) this] show ?thesis by blast
qed

lemma demo_step6: "conn_step (set_gate False demo4, {#CleaningUp 2 demo_refusal True False, Pumping 1, waiting_request#})
    (demo5, {#Pumping 1, waiting_request#})"
  using cleaned_up[of "set_gate False demo4" 2 demo_refusal True False "{#Pumping 1, waiting_request#}"]
  by (simp add: demo5_def after_clean_up_def)

lemma demo5_fields: "State demo5 = StateDisconnected" "cn_conn demo5 = None" "cn_sockets demo5 = []" "cn_lifecycle demo5 = 2"
    "cn_pending demo5 = [(FormatInt (int 0), 0)]" "cn_results demo5 = []"
proof -
  have "same_conn (set_gate True demo4) demo5"
    using same_conn_gate[OF failSubscriptions_same[of "set_gate False demo4" 2 demo_refusal], of True]
    by (simp add: demo5_def clean_up_def set_gate_def)
  then show "State demo5 = StateDisconnected" "cn_conn demo5 = None" "cn_sockets demo5 = []" "cn_lifecycle demo5 = 2"
    using demo_fields by (simp_all add: same_conn_def set_gate_def State_def)
  have "same_requests demo4 demo5"
    using same_requests_trans[OF same_set_gate same_clean_up] by (simp add: demo5_def)
  then show "cn_pending demo5 = [(FormatInt (int 0), 0)]" "cn_results demo5 = []"
    using demo_fields by (simp_all add: same_requests_def)
qed

lemma demo_step7: "conn_step (demo5, {#Pumping 1, waiting_request#}) (demo5, {#waiting_request#})"
  by (rule pump_ends) (simp add: readPump_check_def demo5_fields)

lemma demo_reachable: "conn_reachable (demo3, {#Replaying 1, Pumping 1, waiting_request#})" "conn_reachable (demo5, {#waiting_request#})"
proof -
  have "conn_reachable (demo0, {#})" unfolding demo0_def by (rule conn_init) (simp add: new_ws_client_def)
  then have "conn_reachable (demo3, {#waiting_request, Replaying 1, Pumping 1#})"
    using demo_step1 demo_step2 demo_step3 conn_next by blast
  moreover have "{#waiting_request, Replaying 1, Pumping 1#} = {#Replaying 1, Pumping 1, waiting_request#}" by simp
  ultimately show 3: "conn_reachable (demo3, {#Replaying 1, Pumping 1, waiting_request#})" by metis
  then show "conn_reachable (demo5, {#waiting_request#})"
    using demo_step4 demo_step5 demo_step6 demo_step7 conn_next by blast
qed

text \<open>A request that was sent on a connection whose replay fails is left without an answer: the client is
  disconnected, no socket is open, nobody else is under way, and the request is still registered. A
  drop of the connection noticed by the read pump would have failed it.\<close>

theorem replay_failure_strands_request:
  "\<exists>c. conn_reachable (c, {#Requesting (FormatInt (int 0)) 0#}) \<and> State c = StateDisconnected \<and> cn_sockets c = [] \<and>
    map_of (cn_pending c) (FormatInt (int 0)) = Some 0 \<and> cn_results c = [] \<and>
    (\<forall>d ts l e l' f r c'. readPump_failed l e d = Some (l', f, r, c') \<longrightarrow> cn_pending c' = [])"
proof -
  have "cn_pending c' = []" if "readPump_failed l e d = Some (l', f, r, c')" for d l e l' f r c'
    using that by (auto simp: readPump_failed_def failPending_def Let_def split: if_splits)
  then show ?thesis
    using demo_reachable(2) demo5_fields by (intro exI[of _ demo5]) simp
qed

section \<open>Witnesses\<close>

theorem connection_invariant_witness:
  "cn_conn demo3 \<noteq> None \<and> size (filter_mset (pumps 1) {#Replaying 1, Pumping 1, Requesting (FormatInt (int 0)) 0#}) = 1"
  using connection_invariant[OF demo_reachable(1)] by (simp add: demo_fields)

lemma demo_waiting: "conn_reachable (demo3, {#Waiting 0, Replaying 1, Pumping 1, waiting_request#})"
proof -
  have "cn_config demo3 = None" "cn_replay demo3" "cn_connectDone demo3 = Some 0" "\<not> wc_privateOnly (cn_ws demo3)"
    by (simp_all add: demo_defs)
  then have "Connect_check demo3 = ConnectWait (Some 0)" by (simp add: Connect_check_def demo_fields)
  then show ?thesis using conn_next[OF demo_reachable(1)] conn_step.wait by blast
qed

theorem connect_waiters_released_witness:
  "\<exists>t us. {#Waiting 0, Replaying 1, Pumping 1, Requesting (FormatInt (int 0)) 0#} = add_mset t us \<and>
     (\<exists>c' new. conn_step (demo3, {#Waiting 0, Replaying 1, Pumping 1, Requesting (FormatInt (int 0)) 0#}) (c', new + us))"
proof -
  have "cn_closedDone demo3 = []" by (simp add: demo_defs)
  then have "0 \<notin> set (cn_closedDone demo3)" by simp
  moreover have "Waiting 0 \<in># {#Waiting 0, Replaying 1, Pumping 1, waiting_request#}" by simp
  ultimately show ?thesis using connect_waiters_released[OF demo_waiting] by blast
qed

theorem requests_answered_once_witness:
  "map_of (cn_pending demo3) (FormatInt (int 0)) = Some 0 \<and> 0 \<notin> fst ` set (cn_results demo3)"
  using requests_answered_once[OF demo_reachable(1)] by (simp add: demo_fields)

lemma demo_cleaning: "conn_reachable (set_gate False demo4, {#CleaningUp 2 demo_refusal True False, Pumping 1, waiting_request#})"
  using demo_reachable(1) demo_step4 demo_step5 conn_next by blast

theorem stale_cleanup_harmless_witness:
  "failSubscriptionsIfCurrent 2 demo_refusal (set_gate False demo4) = set_gate False demo4 \<or>
     State (set_gate False demo4) \<in> {StateDisconnected, StateReconnecting} \<and> cn_conn (set_gate False demo4) = None"
proof -
  have "CleaningUp 2 demo_refusal True False \<in># {#CleaningUp 2 demo_refusal True False, Pumping 1, waiting_request#}" by simp
  then show ?thesis using stale_cleanup_harmless[OF demo_cleaning, THEN conjunct1] by blast
qed

theorem close_is_final_witness:
  "Connect_check (Close_begin demo0) \<noteq> ConnectNew \<and> registerPendingForConn ''1'' 1 (Close_begin demo0) = Inl ConnClosed"
proof -
  have "conn_reachable (demo0, {#})" unfolding demo0_def by (rule conn_init) (simp add: new_ws_client_def)
  moreover have "conn_step (demo0, {#}) (Close_begin demo0, {#Closing#})" by (rule close) (simp add: demo_fields)
  ultimately have "conn_reachable (Close_begin demo0, {#Closing#})" by (rule conn_next)
  moreover have "State (Close_begin demo0) = StateClosed"
    by (simp add: Close_begin_def failPending_def conn_defs Let_def split: option.split)
  ultimately show ?thesis using close_is_final by blast
qed

end
