(* ===== verification/SubscriptionSpec.thy ===== *)
theory SubscriptionSpec
  imports Subscriptions
begin

text \<open>
  The subscriptions under concurrency. A configuration is the client and the feeds whose gate is held:
  by a subscription or an unsubscription waiting for the exchange. The steps are the critical sections,
  in any order that the gates allow; the exchange may accept or refuse at any time, and the connection
  may die at any time, which closes every subscription whatever the gates. The invariant relates the
  tables, seen as a function \<open>T\<close> from kinds and symbols (or names) to subscribers, to the set \<open>A\<close> of
  the active feeds' keys.
\<close>

section \<open>Feeds\<close>

definition public_feed :: "feed_kind \<Rightarrow> string \<Rightarrow> string \<Rightarrow> bool" where
  "public_feed kind feedPrefix streamSuffix \<longleftrightarrow>
     (kind = DepthFeed \<and> feedPrefix = ''depth'' \<and> streamSuffix \<in> {''depth'', ''depth@100ms''}) \<or>
     (kind = PartialDepthFeed \<and> feedPrefix = ''partialDepth'' \<and>
        streamSuffix \<in> {''depth5'', ''depth10'', ''depth20'', ''depth5@100ms'', ''depth10@100ms'', ''depth20@100ms''}) \<or>
     (kind = TradeFeed \<and> feedPrefix = ''trade'' \<and> streamSuffix = ''trade'') \<or>
     (kind = TickerFeed \<and> feedPrefix = ''bookTicker'' \<and> streamSuffix = ''bookTicker'') \<or>
     (kind = ContractFeed \<and> feedPrefix = ''contractStatus'' \<and> streamSuffix = ''contractStatus'')"

definition private_feed :: "feed_kind \<Rightarrow> string \<Rightarrow> bool" where
  "private_feed kind feedName \<longleftrightarrow>
     (kind = OrderFeed \<and> feedName \<in> {''orders@account'', ''orders@session''}) \<or>
     (kind = BalanceFeed \<and> feedName \<in> {''balances@account'', ''balances@account@1s''}) \<or>
     (kind = PositionFeed \<and> feedName \<in> {''positions@account'', ''positions@account@1s''}) \<or>
     (kind = SettleFeed \<and> feedName = ''settlements@account'') \<or>
     (kind = RFQPrivateFeed \<and> feedName \<in> {''requestForQuote@account'', ''requestForQuote@session''})"

definition global_feed :: "feed_kind \<Rightarrow> string \<Rightarrow> bool" where
  "global_feed kind feedName \<longleftrightarrow> kind = RFQPublicFeed \<and> feedName = ''requestForQuote''"

text \<open>A normalised symbol that the key of a depth feed can be parsed back to.\<close>

definition symbol_ok :: "string \<Rightarrow> bool" where
  "symbol_ok s \<longleftrightarrow> s \<noteq> [] \<and> hd s \<noteq> CHR ''@'' \<and> ToUpper s = s"

text \<open>The keys under which subscribers of a table entry can be active.\<close>

definition key_ok :: "feed_kind \<Rightarrow> string \<Rightarrow> string \<Rightarrow> bool" where
  "key_ok kind x key \<longleftrightarrow>
     (\<exists>feedPrefix streamSuffix. public_feed kind feedPrefix streamSuffix \<and> symbol_ok x \<and>
        key = feed_key feedPrefix x streamSuffix) \<or>
     (private_feed kind x \<or> global_feed kind x) \<and> key = x"

lemma public_feed_prefix: "public_feed kind p f \<Longrightarrow> CHR '':'' \<notin> set p"
  by (auto simp: public_feed_def)

lemma lower_letters:
  "to_upper_char (CHR ''b'') \<noteq> CHR ''b''" "to_upper_char (CHR ''c'') \<noteq> CHR ''c''"
  "to_upper_char (CHR ''d'') \<noteq> CHR ''d''" "to_upper_char (CHR ''t'') \<noteq> CHR ''t''"
  by code_simp+

lemma public_feed_suffix_lower: "public_feed kind p f \<Longrightarrow> f \<noteq> [] \<and> to_upper_char (hd f) \<noteq> hd f"
  using lower_letters by (auto simp: public_feed_def)

lemma public_feed_kind: "public_feed kind p f \<Longrightarrow> public_feed kind' p f' \<Longrightarrow> kind = kind'"
  by (auto simp: public_feed_def)

lemma public_contract: "public_feed kind p f \<Longrightarrow> f = ''contractStatus'' \<longleftrightarrow> kind = ContractFeed"
  by (auto simp: public_feed_def)

text \<open>The symbol of a key is what precedes its first lower-case letter, less the separator.\<close>

lemma upper_prefix_unique:
  assumes "ToUpper s = s" "ToUpper s' = s'" "f \<noteq> []" "f' \<noteq> []" "to_upper_char (hd f) \<noteq> hd f"
    "to_upper_char (hd f') \<noteq> hd f'" "s @ CHR ''@'' # f = s' @ CHR ''@'' # f'"
  shows "s = s' \<and> f = f'"
proof -
  have up: "takeWhile (\<lambda>c. to_upper_char c = c) (s @ CHR ''@'' # f) = s @ [CHR ''@'']"
    if "ToUpper s = s" "f \<noteq> []" "to_upper_char (hd f) \<noteq> hd f" for s f
  proof -
    have "\<forall>c\<in>set s. to_upper_char c = c"
      using that(1) by (induction s) (simp_all add: ToUpper_def)
    moreover have "to_upper_char (CHR ''@'') = CHR ''@''" by code_simp
    ultimately show ?thesis using that(2,3) by (cases f) (simp_all add: takeWhile_append2)
  qed
  have "s @ [CHR ''@''] = s' @ [CHR ''@'']"
    using up[OF assms(1,3,5)] up[OF assms(2,4,6)] assms(7) by simp
  then show ?thesis using assms(7) by simp
qed

lemma cut_prefix_unique:
  assumes "c \<notin> set p" "c \<notin> set p'" "p @ c # r = p' @ c # r'"
  shows "p = p' \<and> r = r'"
proof -
  have "takeWhile (\<lambda>x. x \<noteq> c) (p @ c # r) = p" if "c \<notin> set p" for p r
    using that by (induction p) auto
  from this[OF assms(1), of r] this[OF assms(2), of r'] assms(3) have "p = p'" by simp
  then show ?thesis using assms(3) by simp
qed

lemma feed_key_unique:
  assumes "public_feed k p f" "public_feed k' p' f'" "symbol_ok x" "symbol_ok x'"
    "feed_key p x f = feed_key p' x' f'"
  shows "k = k' \<and> p = p' \<and> f = f' \<and> (k \<noteq> ContractFeed \<longrightarrow> x = x')"
proof (cases "f = ''contractStatus'' \<or> f' = ''contractStatus''")
  case True
  have no: "CHR '':'' \<notin> set ''contractStatus''" by simp
  from True have "f = ''contractStatus''" "f' = ''contractStatus''"
    using assms(5) no by (auto simp: feed_key_def split: if_splits; (metis in_set_conv_decomp no))+
  then show ?thesis using assms(1,2) by (auto simp: public_feed_def)
next
  case False
  then have eq: "p @ CHR '':'' # (x @ CHR ''@'' # f) = p' @ CHR '':'' # (x' @ CHR ''@'' # f')"
    using assms(5) by (simp add: feed_key_def)
  note cut = cut_prefix_unique[OF public_feed_prefix[OF assms(1)] public_feed_prefix[OF assms(2)] eq]
  have "x = x' \<and> f = f'"
    using upper_prefix_unique[of x x' f f'] cut public_feed_suffix_lower[OF assms(1)]
      public_feed_suffix_lower[OF assms(2)] assms(3,4) by (simp add: symbol_ok_def)
  then show ?thesis using cut public_feed_kind assms(1,2) by blast
qed

text \<open>A name contains no colon, a key of a public feed does, except the shared one of the contracts.\<close>

lemma name_no_colon: "private_feed k x \<or> global_feed k x \<Longrightarrow> CHR '':'' \<notin> set x \<and> x \<noteq> ''contractStatus''"
  by (auto simp: private_feed_def global_feed_def)

lemma feed_key_not_name: "private_feed k x \<or> global_feed k x \<Longrightarrow> feed_key p s f \<noteq> x"
  using name_no_colon[of k x] by (auto simp: feed_key_def)

lemma name_kind: "private_feed k x \<or> global_feed k x \<Longrightarrow> private_feed k' x \<or> global_feed k' x \<Longrightarrow> k = k'"
  by (auto simp: private_feed_def global_feed_def)

lemma key_ok_unique:
  assumes "key_ok k x key" "key_ok k' x' key"
  shows "k = k' \<and> (k \<noteq> ContractFeed \<longrightarrow> x = x')"
  using assms feed_key_unique[of k _ _ k' _ _ x x'] feed_key_not_name name_kind
  unfolding key_ok_def by metis

lemma key_ok_name: "private_feed k x \<or> global_feed k x \<Longrightarrow> key_ok k x key \<longleftrightarrow> key = x"
  by (auto simp: key_ok_def public_feed_def private_feed_def global_feed_def)

lemma key_ok_contract: "key_ok ContractFeed x key \<longleftrightarrow> symbol_ok x \<and> key = ''contractStatus''"
  by (auto simp: key_ok_def public_feed_def private_feed_def global_feed_def feed_key_def)

section \<open>Variants\<close>

lemma takeWhile_before: "takeWhile (\<lambda>x. x \<noteq> c) (s @ c # f) = takeWhile (\<lambda>x. x \<noteq> c) s"
  by (induction s) auto

lemma CutByte_append: "c \<notin> set p \<Longrightarrow> CutByte c (p @ c # r) = (p, r, True)"
  unfolding CutByte_def by (induction p) auto

lemma CutByte_fst: "fst (CutByte c (s @ c # f)) = takeWhile (\<lambda>x. x \<noteq> c) s" "snd (snd (CutByte c (s @ c # f)))"
  by (simp_all add: CutByte_def takeWhile_before)

lemma depth_family:
  assumes "symbol_ok x" "p = ''depth'' \<or> p = ''partialDepth''" "f \<noteq> ''contractStatus''"
  shows "subscriptionVariantFamily (feed_key p x f) = ''depth:'' @ takeWhile (\<lambda>c. c \<noteq> CHR ''@'') x"
proof -
  let ?rest = "x @ CHR ''@'' # f"
  have key: "feed_key p x f = p @ CHR '':'' # ?rest" using assms(3) by (simp add: feed_key_def)
  have "CHR '':'' \<notin> set p" using assms(2) by auto
  then have cut: "CutByte (CHR '':'') (p @ CHR '':'' # ?rest) = (p, ?rest, True)" by (rule CutByte_append)
  obtain symbol r ok where cut2: "CutByte (CHR ''@'') ?rest = (symbol, r, ok)" by (cases "CutByte (CHR ''@'') ?rest")
  then have sym: "symbol = takeWhile (\<lambda>c. c \<noteq> CHR ''@'') x" "ok"
    using CutByte_fst[of "CHR ''@''" x f] unfolding cut2 by simp_all
  have ne: "takeWhile (\<lambda>c. c \<noteq> CHR ''@'') x \<noteq> []"
    using assms(1) unfolding symbol_ok_def by (cases x) simp_all
  have "has_prefix (p @ CHR '':'' # ?rest) ''depth:'' \<or> has_prefix (p @ CHR '':'' # ?rest) ''partialDepth:''"
    using assms(2) by (auto simp: has_prefix_def)
  then show ?thesis using sym ne by (simp add: subscriptionVariantFamily_def key cut cut2)
qed

lemma key_ok_same_family:
  assumes "key_ok k x key" "key_ok k x key'" "key \<noteq> key'"
  shows "subscriptionVariantFamily key = subscriptionVariantFamily key' \<and> subscriptionVariantFamily key \<noteq> []"
proof (cases "private_feed k x \<or> global_feed k x")
  case True
  then show ?thesis using assms key_ok_name[OF True] by simp
next
  case False
  obtain p f where 1: "public_feed k p f" "symbol_ok x" "key = feed_key p x f"
    using False assms(1) by (auto simp: key_ok_def)
  obtain p' f' where 2: "public_feed k p' f'" "key' = feed_key p' x f'"
    using False assms(2) by (auto simp: key_ok_def)
  have "p = p'" "f \<noteq> f'" using 1 2 assms(3) by (auto simp: public_feed_def)
  then have "p = ''depth'' \<or> p = ''partialDepth''" "f \<noteq> ''contractStatus''" "f' \<noteq> ''contractStatus''"
    using 1 2 by (auto simp: public_feed_def)
  then show ?thesis using 1 2 \<open>p = p'\<close> depth_family by auto
qed

section \<open>Tables and active feeds\<close>

definition one_variant :: "string set \<Rightarrow> bool" where
  "one_variant A \<longleftrightarrow>
     (\<forall>key\<in>A. \<forall>key'\<in>A. subscriptionVariantFamily key \<noteq> [] \<and>
        subscriptionVariantFamily key = subscriptionVariantFamily key' \<longrightarrow> key = key')"

definition feeds_match :: "(feed_kind \<Rightarrow> string \<Rightarrow> nat list) \<Rightarrow> string set \<Rightarrow> bool" where
  "feeds_match T A \<longleftrightarrow>
     (\<forall>k x. T k x \<noteq> [] \<longrightarrow> (\<exists>key\<in>A. key_ok k x key)) \<and>
     (\<forall>key\<in>A. \<exists>k x. key_ok k x key \<and> T k x \<noteq> []) \<and> one_variant A"

definition put :: "feed_kind \<Rightarrow> string \<Rightarrow> nat list \<Rightarrow> (feed_kind \<Rightarrow> string \<Rightarrow> nat list) \<Rightarrow> feed_kind \<Rightarrow> string \<Rightarrow> nat list" where
  "put k x l T = (\<lambda>k' x'. if k' = k \<and> x' = x then l else T k' x')"

lemma put_simps: "put k x l T k x = l" "k' \<noteq> k \<or> x' \<noteq> x \<Longrightarrow> put k x l T k' x' = T k' x'"
  by (auto simp: put_def)

lemma feeds_matchD:
  assumes "feeds_match T A"
  shows "T k x \<noteq> [] \<Longrightarrow> \<exists>key\<in>A. key_ok k x key" "key \<in> A \<Longrightarrow> \<exists>k x. key_ok k x key \<and> T k x \<noteq> []"
    "one_variant A"
  using assms unfolding feeds_match_def by blast+

lemma feeds_match_empty: "feeds_match (\<lambda>_ _. []) {}"
  by (simp add: feeds_match_def one_variant_def)

lemma feeds_match_start:
  assumes "feeds_match T A" "key_ok k x key" "l \<noteq> []"
    "\<forall>key'\<in>A. key' \<noteq> key \<longrightarrow> subscriptionVariantFamily key = [] \<or> subscriptionVariantFamily key' \<noteq> subscriptionVariantFamily key"
  shows "feeds_match (put k x l T) (insert key A)"
proof -
  have "one_variant (insert key A)" using assms(1,4) unfolding feeds_match_def one_variant_def by auto
  moreover have "\<exists>key'\<in>insert key A. key_ok k' x' key'" if "put k x l T k' x' \<noteq> []" for k' x'
    using that assms(1,2) by (cases "k' = k \<and> x' = x") (auto simp: put_def feeds_match_def)
  moreover have "\<exists>k' x'. key_ok k' x' key' \<and> put k x l T k' x' \<noteq> []" if m: "key' \<in> insert key A" for key'
  proof (cases "key' = key")
    case True
    then show ?thesis using assms(2,3) by (metis put_simps(1))
  next
    case False
    then obtain k' x' where "key_ok k' x' key'" "T k' x' \<noteq> []" using feeds_matchD(2)[OF assms(1), of key'] m by blast
    then show ?thesis using assms(3) by (metis put_def)
  qed
  ultimately show ?thesis by (auto simp: feeds_match_def)
qed

lemma feeds_match_more:
  assumes "feeds_match T A" "T k x \<noteq> []" "l \<noteq> []"
  shows "feeds_match (put k x l T) A"
  using assms unfolding feeds_match_def put_def by (metis (mono_tags, lifting))

lemma feeds_match_stop:
  assumes "feeds_match T A" "key_ok k x key" "k \<noteq> ContractFeed" "\<forall>key'\<in>A. key_ok k x key' \<longrightarrow> key' = key"
  shows "feeds_match (put k x [] T) (A - {key})"
proof -
  have "one_variant (A - {key})" using assms(1) by (auto simp: feeds_match_def one_variant_def)
  moreover have "\<exists>key'\<in>A - {key}. key_ok k' x' key'" if "put k x [] T k' x' \<noteq> []" for k' x'
  proof -
    have ne: "\<not> (k' = k \<and> x' = x)" "T k' x' \<noteq> []" using that by (auto simp: put_def split: if_splits)
    then obtain key' where k: "key' \<in> A" "key_ok k' x' key'" using feeds_matchD(1)[OF assms(1)] by blast
    then have "key' \<noteq> key" using key_ok_unique[OF assms(2)] ne assms(3) by blast
    then show ?thesis using k by blast
  qed
  moreover have "\<exists>k' x'. key_ok k' x' key' \<and> put k x [] T k' x' \<noteq> []" if m: "key' \<in> A - {key}" for key'
  proof -
    obtain k' x' where k: "key_ok k' x' key'" "T k' x' \<noteq> []" using feeds_matchD(2)[OF assms(1), of key'] m by blast
    then have "\<not> (k' = k \<and> x' = x)" using assms(4) m by blast
    then show ?thesis using k by (metis put_simps(2))
  qed
  ultimately show ?thesis by (auto simp: feeds_match_def)
qed

lemma feeds_match_stop_contract:
  assumes "feeds_match T A" "symbol_ok x" "\<forall>y. y \<noteq> x \<longrightarrow> T ContractFeed y = []"
  shows "feeds_match (put ContractFeed x [] T) (A - {''contractStatus''})"
proof -
  have "one_variant (A - {''contractStatus''})" using assms(1) by (auto simp: feeds_match_def one_variant_def)
  moreover have "\<exists>key'\<in>A - {''contractStatus''}. key_ok k' x' key'" if "put ContractFeed x [] T k' x' \<noteq> []" for k' x'
  proof -
    have ne: "k' \<noteq> ContractFeed" "T k' x' \<noteq> []" using that assms(3) by (auto simp: put_def split: if_splits)
    then obtain key' where k: "key' \<in> A" "key_ok k' x' key'" using feeds_matchD(1)[OF assms(1)] by blast
    then have "key' \<noteq> ''contractStatus''"
      using key_ok_unique[of k' x' key' ContractFeed x] assms(2) ne by (auto simp: key_ok_contract)
    then show ?thesis using k by blast
  qed
  moreover have "\<exists>k' x'. key_ok k' x' key' \<and> put ContractFeed x [] T k' x' \<noteq> []"
    if m: "key' \<in> A - {''contractStatus''}" for key'
  proof -
    obtain k' x' where k: "key_ok k' x' key'" "T k' x' \<noteq> []" using feeds_matchD(2)[OF assms(1), of key'] m by blast
    then have "k' \<noteq> ContractFeed" using m by (auto simp: key_ok_contract)
    then show ?thesis using k by (metis put_simps(2))
  qed
  ultimately show ?thesis by (auto simp: feeds_match_def)
qed

lemma feeds_match_keep_contract:
  assumes "feeds_match T A" "y \<noteq> x" "T ContractFeed y \<noteq> []"
  shows "feeds_match (put ContractFeed x [] T) A"
proof -
  have y: "key_ok ContractFeed y ''contractStatus''" "''contractStatus'' \<in> A"
    using feeds_matchD(1)[OF assms(1,3)] by (auto simp: key_ok_contract)
  have "\<exists>k' x'. key_ok k' x' key' \<and> put ContractFeed x [] T k' x' \<noteq> []" if m: "key' \<in> A" for key'
  proof -
    obtain k' x' where k: "key_ok k' x' key'" "T k' x' \<noteq> []" using feeds_matchD(2)[OF assms(1), of key'] m by blast
    show ?thesis
    proof (cases "k' = ContractFeed")
      case True
      then have "key' = ''contractStatus''" using k(1) key_ok_contract by simp
      moreover have "put ContractFeed x [] T ContractFeed y \<noteq> []" using assms(2,3) by (simp add: put_def)
      ultimately show ?thesis using y(1) by blast
    next
      case False
      then show ?thesis using k by (metis put_simps(2))
    qed
  qed
  moreover have "\<exists>key'\<in>A. key_ok k' x' key'" if "put ContractFeed x [] T k' x' \<noteq> []" for k' x'
    using that assms(1) by (auto simp: put_def feeds_match_def split: if_splits)
  ultimately show ?thesis using assms(1) by (auto simp: feeds_match_def)
qed

section \<open>Subscribers\<close>

definition subs_ok :: "(feed_kind \<Rightarrow> string \<Rightarrow> nat list) \<Rightarrow> nat \<Rightarrow> nat set \<Rightarrow> bool" where
  "subs_ok T n C \<longleftrightarrow>
     (\<forall>k x. distinct (T k x)) \<and> (\<forall>k x. \<forall>s\<in>set (T k x). s < n \<and> s \<notin> C) \<and>
     (\<forall>k x k' x' s. s \<in> set (T k x) \<and> s \<in> set (T k' x') \<longrightarrow> k = k' \<and> x = x') \<and> (\<forall>s\<in>C. s < n)"

lemma subs_ok_empty: "\<forall>s\<in>C. s < n \<Longrightarrow> subs_ok (\<lambda>_ _. []) n C"
  by (simp add: subs_ok_def)

lemma subs_ok_add:
  assumes "subs_ok T n C"
  shows "subs_ok (put k x (T k x @ [n]) T) (Suc n) C"
proof -
  have d: "distinct (T k' x')" "s \<in> set (T k' x') \<Longrightarrow> s < n \<and> s \<notin> C" "s \<in> C \<Longrightarrow> s < n"
    "s \<in> set (T k' x') \<Longrightarrow> s \<in> set (T k'' x'') \<Longrightarrow> k' = k'' \<and> x' = x''" for k' x' k'' x'' s
    using assms unfolding subs_ok_def by blast+
  have m: "s \<in> set (put k x (T k x @ [n]) T k' x') \<longleftrightarrow> s \<in> set (T k' x') \<or> (s = n \<and> k' = k \<and> x' = x)" for s k' x'
    by (auto simp: put_def)
  have n: "n \<notin> set (T k' x')" for k' x' using d(2)[of n k' x'] by blast
  show ?thesis unfolding subs_ok_def m
  proof (intro conjI allI ballI impI)
    fix k' x' show "distinct (put k x (T k x @ [n]) T k' x')" using d(1) n by (simp add: put_def)
  next
    fix s assume "s \<in> C" then show "s < Suc n" using d(3) by (simp add: less_SucI)
  next
    fix k' x' s assume "s \<in> set (put k x (T k x @ [n]) T k' x')"
    then show "s < Suc n" "s \<notin> C" unfolding m using d(2)[of s k' x'] d(3)[of n] by (auto simp: less_Suc_eq)
  next
    fix k' x' k'' x'' s
    assume "(s \<in> set (T k' x') \<or> s = n \<and> k' = k \<and> x' = x) \<and> (s \<in> set (T k'' x'') \<or> s = n \<and> k'' = k \<and> x'' = x)"
    then show "k' = k''" "x' = x''" using d(4)[of s k' x' k'' x''] n by auto
  qed
qed

lemma subs_ok_remove:
  assumes "subs_ok T n C" "set l \<subseteq> set (T k x)" "distinct l" "\<forall>s\<in>D. s < n" "set l \<inter> D = {}"
    "\<forall>k' x'. \<not> (k' = k \<and> x' = x) \<longrightarrow> set (T k' x') \<inter> D = {}"
  shows "subs_ok (put k x l T) n (C \<union> D)"
proof -
  have m: "set (put k x l T k' x') \<subseteq> set (T k' x')" for k' x' using assms(2) by (auto simp: put_def)
  have e: "set (put k x l T k' x') \<inter> D = {}" for k' x' using assms(5,6) by (auto simp: put_def)
  have "distinct (put k x l T k' x')" for k' x' using assms(1,3) by (auto simp: put_def subs_ok_def)
  then show ?thesis using assms(1,4) m e unfolding subs_ok_def by (meson UnE disjoint_iff subsetD)
qed

text \<open>The view of a client.\<close>

definition subscribers :: "ws_client \<Rightarrow> feed_kind \<Rightarrow> string \<Rightarrow> nat list" where
  "subscribers c kind x = subs_of (wc_tables c kind) x"

definition active_keys :: "ws_client \<Rightarrow> string set" where
  "active_keys c = fst ` set (wc_activeFeeds c)"

definition tidy :: "sub_map \<Rightarrow> bool" where
  "tidy m \<longleftrightarrow> distinct (map fst m) \<and> [] \<notin> snd ` set m"

lemma subs_of_update: "subs_of (AList.update key l m) x = (if x = key then l else subs_of m x)"
  by (simp add: subs_of_def update_conv')

lemma subs_of_delete: "subs_of (AList.delete key m) x = (if x = key then [] else subs_of m x)"
  by (simp add: subs_of_def delete_conv')

lemma subs_of_set_subs: "subs_of (set_subs m key l) x = (if x = key then l else subs_of m x)"
  by (simp add: set_subs_def subs_of_update subs_of_delete)

lemmas subs_of_simps = subs_of_update subs_of_delete subs_of_set_subs addMapSub_def

lemma snd_set_update: "snd ` set (AList.update k v m) \<subseteq> insert v (snd ` set m)"
  by (induction m) auto

lemma snd_set_delete: "snd ` set (AList.delete k m) \<subseteq> snd ` set m"
  by (induction m) auto

lemma tidy_update: "tidy m \<Longrightarrow> l \<noteq> [] \<Longrightarrow> tidy (AList.update key l m)"
  using snd_set_update[of key l m] by (auto simp: tidy_def distinct_update)

lemma tidy_delete: "tidy m \<Longrightarrow> tidy (AList.delete key m)"
  using snd_set_delete[of key m] by (auto simp: tidy_def distinct_delete)

lemma tidy_set_subs: "tidy m \<Longrightarrow> tidy (set_subs m key l)"
  by (simp add: set_subs_def tidy_update tidy_delete)

lemma tidy_addMapSub: "tidy m \<Longrightarrow> tidy (addMapSub m key sub)"
  by (simp add: addMapSub_def tidy_update)

lemma tidy_lookup: "tidy m \<Longrightarrow> map_of m x = (if subs_of m x = [] then None else Some (subs_of m x))"
proof (cases "map_of m x")
  case (Some l)
  assume "tidy m"
  moreover have "l \<in> snd ` set m" using map_of_SomeD[OF Some] by force
  ultimately have "l \<noteq> []" by (metis tidy_def)
  then show ?thesis using Some by (simp add: subs_of_def)
qed (simp add: subs_of_def)

lemma tidy_empty_iff: "tidy m \<Longrightarrow> m = [] \<longleftrightarrow> (\<forall>x. subs_of m x = [])"
proof (cases m)
  case (Cons e es)
  assume "tidy m"
  then have "snd e \<noteq> []" using Cons by (auto simp: tidy_def)
  then show ?thesis using Cons by (cases e) (auto simp: subs_of_def)
qed (simp add: subs_of_def)

lemma tidy_entry: "tidy m \<Longrightarrow> (x, l) \<in> set m \<Longrightarrow> subs_of m x = l"
  by (auto simp: tidy_def subs_of_def map_of_eq_Some_iff)

lemma keys_update: "fst ` set (AList.update k v m) = insert k (fst ` set m)"
  by (induction m) auto

lemma keys_delete: "fst ` set (AList.delete k m) = fst ` set m - {k}"
  by (induction m) auto

section \<open>What the sections do\<close>

definition stream_frame :: "string \<Rightarrow> request_frame \<Rightarrow> bool" where
  "stream_frame key fr \<longleftrightarrow>
     rf_Method fr = ''SUBSCRIBE'' \<and>
     (\<exists>k x. key_ok k x key \<and>
        (\<exists>p f. public_feed k p f \<and> key = feed_key p x f \<and> rf_Params fr = [feed_stream x f]) \<or>
        (private_feed k x \<or> global_feed k x) \<and> key = x \<and> rf_Params fr = [x])"

definition same_rest :: "ws_client \<Rightarrow> ws_client \<Rightarrow> bool" where
  "same_rest c c' \<longleftrightarrow> wc_snapshotMode c' = wc_snapshotMode c \<and> wc_state c' = wc_state c \<and> wc_auth c' = wc_auth c"

definition clean_tables :: "ws_client \<Rightarrow> bool" where
  "clean_tables c \<longleftrightarrow>
     (\<forall>k. tidy (wc_tables c k)) \<and> distinct (map fst (wc_activeFeeds c)) \<and>
     (\<forall>(key, fr)\<in>set (wc_activeFeeds c). stream_frame key fr)"

text \<open>A section that gives entry \<open>(k, x)\<close> the subscribers \<open>l\<close>, makes \<open>A\<close> the active keys, closes
  \<open>D\<close> and moves the counter to \<open>n\<close>.\<close>

definition effect ::
  "ws_client \<Rightarrow> ws_client \<Rightarrow> feed_kind \<Rightarrow> string \<Rightarrow> nat list \<Rightarrow> string set \<Rightarrow> nat set \<Rightarrow> nat \<Rightarrow> bool" where
  "effect c c' k x l A D n \<longleftrightarrow>
     subscribers c' = put k x l (subscribers c) \<and> active_keys c' = A \<and>
     set (wc_closed c') = set (wc_closed c) \<union> D \<and> wc_nextSub c' = n"

lemma subscribers_put:
  assumes "wc_tables c' = (wc_tables c)(k := m)" "\<And>y. subs_of m y = (if y = x then l else subs_of (wc_tables c k) y)"
  shows "subscribers c' = put k x l (subscribers c)"
  unfolding put_def by (rule ext, rule ext) (simp add: subscribers_def assms)

lemma map_of_None_iff: "map_of m x = None \<longleftrightarrow> x \<notin> fst ` set m"
  by (simp add: map_of_eq_None_iff)

lemma validate_None:
  assumes "validateActiveSubscriptionVariant c key stream = None"
  shows "\<forall>key'\<in>active_keys c. key' \<noteq> key \<longrightarrow>
    subscriptionVariantFamily key = [] \<or> subscriptionVariantFamily key' \<noteq> subscriptionVariantFamily key"
  using assms
  by (auto simp: validateActiveSubscriptionVariant_def active_keys_def Let_def find_None_iff split: if_splits option.splits)

lemma clean_tables_update:
  assumes "clean_tables c" "wc_tables c' = (wc_tables c)(k := m)" "tidy m"
    "wc_activeFeeds c' = wc_activeFeeds c \<or> wc_activeFeeds c' = AList.delete key (wc_activeFeeds c) \<or>
      wc_activeFeeds c' = AList.update key fr (wc_activeFeeds c) \<and> stream_frame key fr"
  shows "clean_tables c'"
proof -
  have "set (AList.delete key xs) \<subseteq> set xs" for xs :: "(string \<times> request_frame) list" by (induction xs) auto
  moreover have "set (AList.update key fr xs) \<subseteq> insert (key, fr) (set xs)" for xs by (induction xs) auto
  ultimately have "set (wc_activeFeeds c') \<subseteq> set (wc_activeFeeds c) \<or>
      stream_frame key fr \<and> set (wc_activeFeeds c') \<subseteq> insert (key, fr) (set (wc_activeFeeds c))"
    using assms(4) by fastforce
  then have "\<forall>(key, fr)\<in>set (wc_activeFeeds c'). stream_frame key fr"
    using assms(1) unfolding clean_tables_def by blast
  moreover have "distinct (map fst (wc_activeFeeds c'))"
    using assms(1,4) unfolding clean_tables_def by (auto simp: distinct_update distinct_delete)
  moreover have "tidy (wc_tables c' k')" for k' using assms(1-3) by (simp add: clean_tables_def)
  ultimately show ?thesis by (simp add: clean_tables_def)
qed

lemma register_public_effect:
  assumes "register_public k p f x c = Inr (c', req, sub, need)" "clean_tables c" "public_feed k p f" "symbol_ok x"
  shows "effect c c' k x (subscribers c k x @ [wc_nextSub c]) (insert (feed_key p x f) (active_keys c)) {} (Suc (wc_nextSub c))"
    "clean_tables c'" "sub = wc_nextSub c" "need \<longleftrightarrow> feed_key p x f \<notin> active_keys c"
    "\<forall>key'\<in>active_keys c. key' \<noteq> feed_key p x f \<longrightarrow>
       subscriptionVariantFamily (feed_key p x f) = [] \<or> subscriptionVariantFamily key' \<noteq> subscriptionVariantFamily (feed_key p x f)"
proof -
  let ?key = "feed_key p x f"
  have v: "validateActiveSubscriptionVariant c ?key (feed_stream x f) = None"
    using assms(1) by (simp add: register_public_def Let_def split: option.splits)
  then show "\<forall>key'\<in>active_keys c. key' \<noteq> ?key \<longrightarrow>
       subscriptionVariantFamily ?key = [] \<or> subscriptionVariantFamily key' \<noteq> subscriptionVariantFamily ?key"
    by (rule validate_None)
  have n: "need \<longleftrightarrow> map_of (wc_activeFeeds c) ?key = None" and "sub = wc_nextSub c"
    and t: "wc_tables c' = (wc_tables c)(k := addMapSub (wc_tables c k) x (wc_nextSub c))"
    and a: "wc_activeFeeds c' = (if need then AList.update ?key (new_frame c ''SUBSCRIBE'' (feed_stream x f)) (wc_activeFeeds c)
        else wc_activeFeeds c)"
    and r: "wc_closed c' = wc_closed c" "wc_nextSub c' = Suc (wc_nextSub c)"
    using assms(1) v by (auto simp: register_public_def Let_def)
  show "sub = wc_nextSub c" by fact
  show nn: "need \<longleftrightarrow> ?key \<notin> active_keys c" using n by (simp add: active_keys_def map_of_eq_None_iff)
  have "active_keys c' = insert ?key (active_keys c)"
    using a nn by (auto simp: active_keys_def keys_update)
  moreover have "subscribers c' = put k x (subscribers c k x @ [wc_nextSub c]) (subscribers c)"
    by (rule subscribers_put[OF t]) (simp add: addMapSub_def subs_of_update subscribers_def)
  ultimately show "effect c c' k x (subscribers c k x @ [wc_nextSub c]) (insert ?key (active_keys c)) {} (Suc (wc_nextSub c))"
    using r by (simp add: effect_def)
  have "stream_frame ?key (new_frame c ''SUBSCRIBE'' (feed_stream x f))"
    using assms(3,4) by (auto simp: stream_frame_def new_frame_def key_ok_def)
  then show "clean_tables c'"
    using clean_tables_update[OF assms(2) t] a assms(2) by (metis clean_tables_def tidy_addMapSub)
qed

lemma register_private_global: "register_private k x c = Inr r \<Longrightarrow> register_global k x c = r"
  by (auto simp: register_private_def register_global_def Let_def split: option.splits)

lemma register_name_effect:
  assumes "register_global k x c = (c', req, sub, need)"
    "clean_tables c" "private_feed k x \<or> global_feed k x"
    "feeds_match (subscribers c) (active_keys c)"
  shows "effect c c' k x (subscribers c k x @ [wc_nextSub c]) (insert x (active_keys c)) {} (Suc (wc_nextSub c))"
    "clean_tables c'" "sub = wc_nextSub c"
proof -
  have n: "need \<longleftrightarrow> subscribers c k x = []" and s: "sub = wc_nextSub c"
    and t: "wc_tables c' = (wc_tables c)(k := addMapSub (wc_tables c k) x (wc_nextSub c))"
    and a: "wc_activeFeeds c' = (if need then AList.update x (new_frame c ''SUBSCRIBE'' x) (wc_activeFeeds c)
        else wc_activeFeeds c)"
    and r: "wc_closed c' = wc_closed c" "wc_nextSub c' = Suc (wc_nextSub c)"
    using assms(1) by (auto simp: register_global_def Let_def subscribers_def)
  show "sub = wc_nextSub c" by (rule s)
  have "x \<in> active_keys c" if "\<not> need"
  proof -
    have "subscribers c k x \<noteq> []" using that n by simp
    then obtain key where "key \<in> active_keys c" "key_ok k x key" using feeds_matchD(1)[OF assms(4)] by blast
    then show ?thesis using key_ok_name[OF assms(3)] by simp
  qed
  then have "active_keys c' = insert x (active_keys c)" using a by (auto simp: active_keys_def keys_update)
  moreover have "subscribers c' = put k x (subscribers c k x @ [wc_nextSub c]) (subscribers c)"
    by (rule subscribers_put[OF t]) (simp add: addMapSub_def subs_of_update subscribers_def)
  ultimately show "effect c c' k x (subscribers c k x @ [wc_nextSub c]) (insert x (active_keys c)) {} (Suc (wc_nextSub c))"
    using r by (simp add: effect_def)
  have "stream_frame x (new_frame c ''SUBSCRIBE'' x)"
    using assms(3) by (auto simp: stream_frame_def new_frame_def)
  then show "clean_tables c'"
    using clean_tables_update[OF assms(2) t] a assms(2) by (metis clean_tables_def tidy_addMapSub)
qed

lemma put_same: "put k x (T k x) T = T"
  by (auto simp: put_def fun_eq_iff)

lemma active_keys_delete:
  "wc_activeFeeds c' = AList.delete key (wc_activeFeeds c) \<Longrightarrow> active_keys c' = active_keys c - {key}"
  by (simp add: active_keys_def keys_delete)

lemma remove_public_effect:
  assumes "clean_tables c" "c' = removePublicSubscription k p key x s c"
  defines "l \<equiv> filter (\<lambda>y. y \<noteq> s) (subscribers c k x)"
  shows "effect c c' k x l (if s \<in> set (subscribers c k x) \<and> l = [] then active_keys c - {key} else active_keys c) {s} (wc_nextSub c)"
    "clean_tables c'"
proof -
  show "effect c c' k x l (if s \<in> set (subscribers c k x) \<and> l = [] then active_keys c - {key} else active_keys c) {s} (wc_nextSub c)"
  proof (cases "s \<in> set (subscribers c k x)")
    case True
    have t: "wc_tables c' = (wc_tables c)(k := set_subs (wc_tables c k) x l)"
      using True by (simp add: assms(2) l_def subscribers_def removePublicSubscription_def close_subs_def Let_def)
    have "subscribers c' = put k x l (subscribers c)"
      by (rule subscribers_put[OF t]) (simp add: subs_of_set_subs)
    moreover have "wc_activeFeeds c' = (if l = [] then AList.delete key (wc_activeFeeds c) else wc_activeFeeds c)"
      "wc_closed c' = wc_closed c @ [s]" "wc_nextSub c' = wc_nextSub c"
      using True by (simp_all add: assms(2) l_def subscribers_def removePublicSubscription_def close_subs_def Let_def)
    ultimately show ?thesis using True by (simp add: effect_def active_keys_def keys_delete)
  next
    case False
    then have "l = subscribers c k x" by (auto simp: l_def filter_id_conv)
    moreover have "c' = close_subs [s] c"
      using False by (simp add: assms(2) removePublicSubscription_def Let_def subscribers_def)
    moreover have "subscribers (close_subs [s] c) = subscribers c" "active_keys (close_subs [s] c) = active_keys c"
      by (simp_all add: close_subs_def subscribers_def active_keys_def fun_eq_iff)
    ultimately show ?thesis using False by (simp add: effect_def put_same close_subs_def)
  qed
  have "wc_tables c' = (wc_tables c)(k := (if s \<in> set (subscribers c k x) then set_subs (wc_tables c k) x l else wc_tables c k))"
    "wc_activeFeeds c' = wc_activeFeeds c \<or> wc_activeFeeds c' = AList.delete key (wc_activeFeeds c)"
    by (auto simp: assms(2) l_def subscribers_def removePublicSubscription_def close_subs_def Let_def)
  moreover have "tidy (if s \<in> set (subscribers c k x) then set_subs (wc_tables c k) x l else wc_tables c k)"
    using assms(1) tidy_set_subs by (simp add: clean_tables_def)
  ultimately show "clean_tables c'" using clean_tables_update[OF assms(1)] by blast
qed

lemma remove_private_as_public:
  "removePrivateSubscription k x s c = removePublicSubscription k [] x x s c"
  by (simp add: removePrivateSubscription_def removePublicSubscription_def Let_def)

lemma unregister_name_effect:
  assumes "clean_tables c" "unregister_private k x c = (c', w)"
  shows "effect c c' k x [] (active_keys c - {x}) (set (subscribers c k x)) (wc_nextSub c)" "clean_tables c'"
proof -
  have t: "wc_tables c' = (wc_tables c)(k := (if subscribers c k x = [] then wc_tables c k else AList.delete x (wc_tables c k)))"
    and a: "wc_activeFeeds c' = AList.delete x (wc_activeFeeds c)"
    and r: "wc_closed c' = wc_closed c @ subscribers c k x" "wc_nextSub c' = wc_nextSub c"
    using assms(2) by (auto simp: unregister_private_def close_subs_def subscribers_def Let_def split: if_splits)
  have "subscribers c' = put k x [] (subscribers c)"
    by (rule subscribers_put[OF t]) (auto simp: subs_of_delete subscribers_def)
  then show "effect c c' k x [] (active_keys c - {x}) (set (subscribers c k x)) (wc_nextSub c)"
    using active_keys_delete[OF a] r by (simp add: effect_def)
  show "clean_tables c'"
    using clean_tables_update[OF assms(1) t] a assms(1) by (metis clean_tables_def tidy_delete)
qed

lemma unregister_channel_effect:
  assumes "clean_tables c" "unregister_channel k x s c = (c', w)"
  defines "l \<equiv> remove1 s (subscribers c k x)"
  shows "s \<notin> set (subscribers c k x) \<and> c' = c \<or> s \<in> set (subscribers c k x) \<and>
      effect c c' k x l (if l = [] then active_keys c - {x} else active_keys c) {s} (wc_nextSub c)" "clean_tables c'"
proof -
  show "s \<notin> set (subscribers c k x) \<and> c' = c \<or> s \<in> set (subscribers c k x) \<and>
      effect c c' k x l (if l = [] then active_keys c - {x} else active_keys c) {s} (wc_nextSub c)"
  proof (cases "s \<in> set (subscribers c k x)")
    case True
    have t: "wc_tables c' = (wc_tables c)(k := set_subs (wc_tables c k) x l)"
      using True assms(2) by (auto simp: l_def subscribers_def unregister_channel_def close_subs_def Let_def split: if_splits)
    have "subscribers c' = put k x l (subscribers c)"
      by (rule subscribers_put[OF t]) (simp add: subs_of_set_subs)
    moreover have "wc_activeFeeds c' = (if l = [] then AList.delete x (wc_activeFeeds c) else wc_activeFeeds c)"
      "wc_closed c' = wc_closed c @ [s]" "wc_nextSub c' = wc_nextSub c"
      using True assms(2) by (auto simp: l_def subscribers_def unregister_channel_def close_subs_def Let_def split: if_splits)
    ultimately show ?thesis using True by (simp add: effect_def active_keys_def keys_delete)
  qed (use assms(2) in \<open>simp add: unregister_channel_def subscribers_def\<close>)
  have "wc_tables c' = (wc_tables c)(k := (if s \<in> set (subscribers c k x) then set_subs (wc_tables c k) x l else wc_tables c k))"
    "wc_activeFeeds c' = wc_activeFeeds c \<or> wc_activeFeeds c' = AList.delete x (wc_activeFeeds c)"
    using assms(2) by (auto simp: l_def subscribers_def unregister_channel_def close_subs_def Let_def split: if_splits)
  moreover have "tidy (if s \<in> set (subscribers c k x) then set_subs (wc_tables c k) x l else wc_tables c k)"
    using assms(1) tidy_set_subs by (simp add: clean_tables_def)
  ultimately show "clean_tables c'" using clean_tables_update[OF assms(1)] by blast
qed

lemma unregister_public_effect:
  assumes "clean_tables c" "unregister_public k p f x c = Inr (Some (c', w))" "public_feed k p f"
  shows "effect c c' k x []
      (if k = ContractFeed \<and> (\<exists>y. y \<noteq> x \<and> subscribers c k y \<noteq> []) then active_keys c else active_keys c - {feed_key p x f})
      (set (subscribers c k x)) (wc_nextSub c)" "clean_tables c'" "subscribers c k x \<noteq> []"
    "k \<noteq> ContractFeed \<Longrightarrow> \<forall>key'\<in>active_keys c. key' \<noteq> feed_key p x f \<longrightarrow>
       subscriptionVariantFamily (feed_key p x f) = [] \<or> subscriptionVariantFamily key' \<noteq> subscriptionVariantFamily (feed_key p x f)"
proof -
  have ct: "f = ''contractStatus'' \<longleftrightarrow> k = ContractFeed" using public_contract[OF assms(3)] .
  note tm = assms(1)[unfolded clean_tables_def, THEN conjunct1, rule_format, of k]
  have m: "map_of (wc_tables c k) x = Some (subscribers c k x)" and ne: "subscribers c k x \<noteq> []"
    using assms(2) tidy_lookup[OF tm, of x]
    by (auto simp: unregister_public_def removeMapSub_def subscribers_def Let_def split: option.splits if_splits)
  show "subscribers c k x \<noteq> []" by (rule ne)
  show "\<forall>key'\<in>active_keys c. key' \<noteq> feed_key p x f \<longrightarrow>
       subscriptionVariantFamily (feed_key p x f) = [] \<or> subscriptionVariantFamily key' \<noteq> subscriptionVariantFamily (feed_key p x f)"
    if "k \<noteq> ContractFeed"
    using assms(2) that ct
    by (intro validate_None[of c _ "feed_stream x f"]) (auto simp: unregister_public_def Let_def split: option.splits if_splits)
  have t: "wc_tables c' = (wc_tables c)(k := AList.delete x (wc_tables c k))"
    and r: "wc_closed c' = wc_closed c @ subscribers c k x" "wc_nextSub c' = wc_nextSub c"
    and a: "wc_activeFeeds c' = (if k = ContractFeed \<and> AList.delete x (wc_tables c k) \<noteq> [] then wc_activeFeeds c
        else AList.delete (feed_key p x f) (wc_activeFeeds c))"
    using assms(2) m ct
    by (auto simp: unregister_public_def removeMapSub_def close_subs_def Let_def split: option.splits if_splits)
  have sub: "subscribers c' = put k x [] (subscribers c)"
    by (rule subscribers_put[OF t]) (simp add: subs_of_delete)
  have "AList.delete x (wc_tables c k) \<noteq> [] \<longleftrightarrow> (\<exists>y. y \<noteq> x \<and> subscribers c k y \<noteq> [])"
    using tidy_empty_iff[OF tidy_delete[OF tm, of x]] by (auto simp: subs_of_delete subscribers_def)
  then show "effect c c' k x []
      (if k = ContractFeed \<and> (\<exists>y. y \<noteq> x \<and> subscribers c k y \<noteq> []) then active_keys c else active_keys c - {feed_key p x f})
      (set (subscribers c k x)) (wc_nextSub c)"
    using sub r a by (auto simp: effect_def active_keys_def keys_delete)
  show "clean_tables c'"
    using clean_tables_update[OF assms(1) t] a tidy_delete[OF tm] by metis
qed

section \<open>Steps\<close>

datatype pending_op =
    PendingPublic feed_kind string string nat
  | PendingPrivate feed_kind nat
  | PendingUnsubscribe feed_kind

fun op_kind :: "pending_op \<Rightarrow> feed_kind" where
  "op_kind (PendingPublic k p x s) = k"
| "op_kind (PendingPrivate k s) = k"
| "op_kind (PendingUnsubscribe k) = k"

type_synonym sub_config = "ws_client \<times> (string \<times> pending_op) list"

definition hold :: "bool \<Rightarrow> string \<Rightarrow> pending_op \<Rightarrow> (string \<times> pending_op) list \<Rightarrow> (string \<times> pending_op) list" where
  "hold waits key p_op g = (if waits then (key, p_op) # g else g)"

text \<open>Both operations on RFQ deliveries hold the scope mutex until they return.\<close>

definition rfq_free :: "feed_kind \<Rightarrow> (string \<times> pending_op) list \<Rightarrow> bool" where
  "rfq_free k g \<longleftrightarrow> k = RFQPrivateFeed \<longrightarrow> RFQPrivateFeed \<notin> op_kind ` snd ` set g"

definition rfq_scope_ok :: "feed_kind \<Rightarrow> string \<Rightarrow> ws_client \<Rightarrow> bool" where
  "rfq_scope_ok k name c \<longleftrightarrow> k = RFQPrivateFeed \<longrightarrow>
     (\<exists>scope. valid_scope scope \<and> name = ''requestForQuote@'' @ scope \<and> ensureRFQScopeAvailable c scope = None)"

text \<open>A step is labelled with the normalised symbol its call names, when it names one.\<close>

inductive sub_step :: "string option \<Rightarrow> sub_config \<Rightarrow> sub_config \<Rightarrow> bool" where
  step_public: "public_feed k p f \<Longrightarrow> normalizeSymbol symbol = Inr x \<Longrightarrow>
    feed_key p x f \<notin> fst ` set g \<Longrightarrow> register_public k p f x c = Inr (c', req, sub, need) \<Longrightarrow>
    sub_step (Some x) (c, g) (c', hold need (feed_key p x f) (PendingPublic k p x sub) g)"
| step_private: "private_feed k x \<Longrightarrow> wc_auth c \<Longrightarrow> x \<notin> fst ` set g \<Longrightarrow> rfq_free k g \<Longrightarrow> rfq_scope_ok k x c \<Longrightarrow>
    register_private k x c = Inr (c', req, sub, need) \<Longrightarrow>
    sub_step None (c, g) (c', hold need x (PendingPrivate k sub) g)"
| step_global: "global_feed k x \<Longrightarrow> x \<notin> fst ` set g \<Longrightarrow> register_global k x c = (c', req, sub, need) \<Longrightarrow>
    sub_step None (c, g) (c', hold need x (PendingPrivate k sub) g)"
| step_unpublic: "public_feed k p f \<Longrightarrow> normalizeSymbol symbol = Inr x \<Longrightarrow>
    feed_key p x f \<notin> fst ` set g \<Longrightarrow> unregister_public k p f x c = Inr (Some (c', waits)) \<Longrightarrow>
    sub_step (Some x) (c, g) (c', hold waits (feed_key p x f) (PendingUnsubscribe k) g)"
| step_unprivate: "private_feed k x \<or> global_feed k x \<Longrightarrow> x \<notin> fst ` set g \<Longrightarrow> rfq_free k g \<Longrightarrow>
    unregister_private k x c = (c', waits) \<Longrightarrow>
    sub_step None (c, g) (c', hold waits x (PendingUnsubscribe k) g)"
| step_channel: "private_feed k x \<Longrightarrow> x \<notin> fst ` set g \<Longrightarrow> unregister_channel k x s c = (c', waits) \<Longrightarrow>
    sub_step None (c, g) (c', hold waits x (PendingUnsubscribe k) g)"
| step_answered: "sub_step None (c, g1 @ (key, p_op) # g2) (c, g1 @ g2)"
| step_refused_public: "sub_step None (c, g1 @ (key, PendingPublic k p x s) # g2)
    (removePublicSubscription k p key x s c, g1 @ g2)"
| step_refused_private: "sub_step None (c, g1 @ (key, PendingPrivate k s) # g2)
    (removePrivateSubscription k key s c, g1 @ g2)"
| step_lost: "sub_step None (c, g) (failSubscriptions c, g)"
| step_state: "sub_step None (c, g) (c\<lparr>wc_state := st\<rparr>, g)"
| step_snapshot: "sub_step None (c, g) (snd (consumeSnapshotPending c symbol frameGeneration), g)"
| step_replay: "sub_step None (c, g) (snd (replay_begin c), g)"

definition any_step :: "sub_config \<Rightarrow> sub_config \<Rightarrow> bool" where
  "any_step cfg cfg' \<longleftrightarrow> (\<exists>named. sub_step named cfg cfg')"

text \<open>What calls that name only symbols of \<open>S\<close> can reach.\<close>

inductive sub_reachable :: "string set \<Rightarrow> sub_config \<Rightarrow> bool" for S where
  sub_init: "sub_reachable S (new_ws_client authenticated privateOnly snapshotMode, [])"
| sub_next: "sub_reachable S cfg \<Longrightarrow> sub_step named cfg cfg' \<Longrightarrow> set_option named \<subseteq> S \<Longrightarrow> sub_reachable S cfg'"

text \<open>The symbols whose depth feeds the client can tell apart: their first character does not end them.\<close>

definition plain_symbols :: "string set \<Rightarrow> bool" where
  "plain_symbols S \<longleftrightarrow> (\<forall>x\<in>S. hd x \<noteq> CHR ''@'')"

section \<open>The invariant\<close>

definition op_ok ::
  "(feed_kind \<Rightarrow> string \<Rightarrow> nat list) \<Rightarrow> string set \<Rightarrow> nat \<Rightarrow> string \<Rightarrow> pending_op \<Rightarrow> bool" where
  "op_ok T A n key p_op \<longleftrightarrow>
     (case p_op of
        PendingPublic k p x s \<Rightarrow>
          (\<exists>f. public_feed k p f \<and> key = feed_key p x f) \<and> symbol_ok x \<and> s < n \<and>
          (s \<in> set (T k x) \<longrightarrow> key \<in> A) \<and>
          (\<forall>k' x'. s \<in> set (T k' x') \<longrightarrow> k' = k \<and> x' = x) \<and>
          (k = ContractFeed \<longrightarrow> (\<forall>y. T ContractFeed y \<noteq> [] \<longrightarrow> y = x \<and> T ContractFeed y = [s]))
      | PendingPrivate k s \<Rightarrow>
          (private_feed k key \<or> global_feed k key) \<and> s < n \<and>
          (\<forall>k' x'. s \<in> set (T k' x') \<longrightarrow> k' = k \<and> x' = key)
      | PendingUnsubscribe k \<Rightarrow> True)"

definition gates_ok ::
  "(feed_kind \<Rightarrow> string \<Rightarrow> nat list) \<Rightarrow> string set \<Rightarrow> nat \<Rightarrow> (string \<times> pending_op) list \<Rightarrow> bool" where
  "gates_ok T A n g \<longleftrightarrow> distinct (map fst g) \<and> (\<forall>(key, p_op)\<in>set g. op_ok T A n key p_op)"

definition sub_inv :: "sub_config \<Rightarrow> bool" where
  "sub_inv cfg \<longleftrightarrow>
     (case cfg of (c, g) \<Rightarrow>
        clean_tables c \<and> feeds_match (subscribers c) (active_keys c) \<and>
        subs_ok (subscribers c) (wc_nextSub c) (set (wc_closed c)) \<and>
        gates_ok (subscribers c) (active_keys c) (wc_nextSub c) g)"

lemma sub_invD:
  assumes "sub_inv (c, g)"
  shows "clean_tables c" "feeds_match (subscribers c) (active_keys c)"
    "subs_ok (subscribers c) (wc_nextSub c) (set (wc_closed c))"
    "gates_ok (subscribers c) (active_keys c) (wc_nextSub c) g"
  using assms by (simp_all add: sub_inv_def)

lemma contract_key: "public_feed ContractFeed p f \<Longrightarrow> feed_key p x f = ''contractStatus''"
  by (auto simp: public_feed_def feed_key_def)

lemma op_ok_other:
  assumes "op_ok T A n key p_op" "key \<noteq> key2" "\<forall>s\<in>set l. s < n \<longrightarrow> s \<in> set (T k2 x2)"
    "k2 = ContractFeed \<longrightarrow> key2 = ''contractStatus''" "A - {key2} \<subseteq> A'" "n \<le> n'"
  shows "op_ok (put k2 x2 l T) A' n' key p_op"
proof -
  have old: "s < n \<Longrightarrow> s \<in> set (put k2 x2 l T k' x') \<Longrightarrow> s \<in> set (T k' x')" for s k' x'
    using assms(3) by (auto simp: put_def split: if_splits)
  show ?thesis
  proof (cases p_op)
    case (PendingPublic k p x s)
    then have o: "\<exists>f. public_feed k p f \<and> key = feed_key p x f" "symbol_ok x" "s < n"
      "s \<in> set (T k x) \<longrightarrow> key \<in> A" "\<forall>k' x'. s \<in> set (T k' x') \<longrightarrow> k' = k \<and> x' = x"
      "k = ContractFeed \<longrightarrow> (\<forall>y. T ContractFeed y \<noteq> [] \<longrightarrow> y = x \<and> T ContractFeed y = [s])"
      using assms(1) unfolding op_ok_def PendingPublic pending_op.case by blast+
    have "k2 \<noteq> ContractFeed" if "k = ContractFeed"
      using o(1) that assms(2,4) contract_key by blast
    then have "put k2 x2 l T ContractFeed y = T ContractFeed y" if "k = ContractFeed" for y
      using that by (auto simp: put_def)
    then have "k = ContractFeed \<longrightarrow> (\<forall>y. put k2 x2 l T ContractFeed y \<noteq> [] \<longrightarrow> y = x \<and> put k2 x2 l T ContractFeed y = [s])"
      using o(6) by metis
    moreover have "s \<in> set (put k2 x2 l T k x) \<longrightarrow> key \<in> A'" using old[OF o(3)] o(4) assms(2,5) by blast
    moreover have "s < n'" using o(3) assms(6) by simp
    moreover have "\<forall>k' x'. s \<in> set (put k2 x2 l T k' x') \<longrightarrow> k' = k \<and> x' = x" using o(5) old[OF o(3)] by blast
    ultimately show ?thesis unfolding op_ok_def PendingPublic pending_op.case
      using o(1,2) by blast
  next
    case (PendingPrivate k s)
    then show ?thesis using assms(1,6) old unfolding op_ok_def PendingPrivate pending_op.case
      by (meson order_less_le_trans)
  qed (simp add: op_ok_def)
qed

lemma gates_ok_other:
  assumes "gates_ok T A n g" "key2 \<notin> fst ` set g" "\<forall>s\<in>set l. s < n \<longrightarrow> s \<in> set (T k2 x2)"
    "k2 = ContractFeed \<longrightarrow> key2 = ''contractStatus''" "A - {key2} \<subseteq> A'" "n \<le> n'"
  shows "gates_ok (put k2 x2 l T) A' n' g"
  unfolding gates_ok_def
proof (intro conjI ballI)
  show "distinct (map fst g)" using assms(1) by (simp add: gates_ok_def)
  fix z assume z: "z \<in> set g"
  obtain key p_op where e: "z = (key, p_op)" by (cases z)
  have "op_ok T A n key p_op" using assms(1) z e by (auto simp: gates_ok_def)
  moreover have "key \<noteq> key2" using z e assms(2) by force
  ultimately show "case z of (key, p_op) \<Rightarrow> op_ok (put k2 x2 l T) A' n' key p_op"
    using op_ok_other[of T A n key p_op key2 l k2 x2 A' n'] assms(3-6) e by simp
qed

lemma gates_ok_hold:
  "gates_ok T A n g \<Longrightarrow> key \<notin> fst ` set g \<Longrightarrow> (waits \<Longrightarrow> op_ok T A n key p_op) \<Longrightarrow> gates_ok T A n (hold waits key p_op g)"
  by (auto simp: gates_ok_def hold_def)

lemma gates_ok_drop:
  assumes "gates_ok T A n (g1 @ (key, p_op) # g2)"
  shows "gates_ok T A n (g1 @ g2)" "key \<notin> fst ` set (g1 @ g2)" "op_ok T A n key p_op"
  using assms by (auto simp: gates_ok_def)

section \<open>Every step keeps the invariant\<close>

text \<open>The common form: one entry changes, \<open>D\<close> is closed, the feed's gate is free.\<close>

lemma effect_inv:
  assumes "effect c c' k x l A D n" "clean_tables c'" "feeds_match (put k x l (subscribers c)) A"
    "subs_ok (put k x l (subscribers c)) n (set (wc_closed c) \<union> D)"
    "gates_ok (put k x l (subscribers c)) A n g"
  shows "sub_inv (c', g)"
  using assms by (simp add: sub_inv_def effect_def)

lemma normalized_fixed:
  assumes "normalizeSymbol symbol = Inr x"
  shows "x \<noteq> [] \<and> ToUpper x = x"
proof -
  have "to_upper_char (to_upper_char c) = to_upper_char c" for c
  proof (cases "97 \<le> (of_char c :: nat) \<and> (of_char c :: nat) \<le> 122")
    case True
    then have "to_upper_char c = char_of (of_char c - 32 :: nat)" by (simp add: to_upper_char_def Let_def)
    moreover have "(of_char c - 32 :: nat) < 97" "(of_char c - 32 :: nat) < 256" using True by linarith+
    ultimately show ?thesis unfolding to_upper_char_def Let_def by simp
  next
    case False
    then have "to_upper_char c = c" by (simp only: to_upper_char_def Let_def if_False)
    then show ?thesis by simp
  qed
  then have "ToUpper (ToUpper s) = ToUpper s" for s by (simp add: ToUpper_def)
  then show ?thesis using assms by (auto simp: normalizeSymbol_def Let_def split: if_splits)
qed

lemma normalized_symbol_ok: "normalizeSymbol symbol = Inr x \<Longrightarrow> hd x \<noteq> CHR ''@'' \<Longrightarrow> symbol_ok x"
  using normalized_fixed by (simp add: symbol_ok_def)

lemma sub_inv_start: "sub_inv (new_ws_client authenticated privateOnly snapshotMode, [])"
  by (simp add: sub_inv_def new_ws_client_def clean_tables_def tidy_def newSubTables_def subscribers_def[abs_def]
      active_keys_def subs_of_def feeds_match_empty subs_ok_empty gates_ok_def)

lemma subs_fresh: "subs_ok T n C \<Longrightarrow> n \<notin> set (T k x)"
  unfolding subs_ok_def by blast

lemma subs_unique: "subs_ok T n C \<Longrightarrow> s \<in> set (T k x) \<Longrightarrow> s \<in> set (T k' x') \<Longrightarrow> k = k' \<and> x = x'"
  unfolding subs_ok_def by blast

lemma subs_below: "subs_ok T n C \<Longrightarrow> s \<in> set (T k x) \<Longrightarrow> s < n"
  unfolding subs_ok_def by blast

lemma gates_ok_start:
  assumes "gates_ok T A n g" "key \<notin> fst ` set g" "subs_ok T n C" "k = ContractFeed \<longrightarrow> key = ''contractStatus''"
    "need \<Longrightarrow> op_ok (put k x (T k x @ [n]) T) (insert key A) (Suc n) key p_op"
  shows "gates_ok (put k x (T k x @ [n]) T) (insert key A) (Suc n) (hold need key p_op g)"
proof (rule gates_ok_hold)
  show "gates_ok (put k x (T k x @ [n]) T) (insert key A) (Suc n) g"
    using gates_ok_other[OF assms(1,2), of "T k x @ [n]" k x "insert key A" "Suc n"] assms(4) by auto
qed (use assms(2,5) in simp_all)

lemma put_new_unique:
  assumes "subs_ok T n C" "n \<in> set (put k x (T k x @ [n]) T k' x')"
  shows "k' = k \<and> x' = x"
  using assms(2) subs_fresh[OF assms(1), of k' x'] by (auto simp: put_def split: if_splits)

lemma step_public_inv:
  assumes "public_feed k p f" "symbol_ok x" "feed_key p x f \<notin> fst ` set g"
    "register_public k p f x c = Inr (c', req, sub, need)" "sub_inv (c, g)"
  shows "sub_inv (c', hold need (feed_key p x f) (PendingPublic k p x sub) g)"
proof -
  note inv = sub_invD[OF assms(5)]
  note r = register_public_effect[OF assms(4) inv(1) assms(1,2)]
  let ?T = "subscribers c" and ?n = "wc_nextSub c" and ?key = "feed_key p x f"
  let ?T' = "put k x (?T k x @ [?n]) ?T"
  have key: "key_ok k x ?key" using assms(1,2) by (auto simp: key_ok_def)
  have contract: "k = ContractFeed \<longrightarrow> ?key = ''contractStatus''" using assms(1) contract_key by blast
  have "op_ok ?T' (insert ?key (active_keys c)) (Suc ?n) ?key (PendingPublic k p x sub)" if "need"
  proof -
    have "?T ContractFeed y = []" if k: "k = ContractFeed" for y
      using feeds_matchD(1)[OF inv(2), of ContractFeed y] r(4) \<open>need\<close> contract k by (auto simp: key_ok_contract)
    then have "k = ContractFeed \<longrightarrow> (\<forall>y. ?T' ContractFeed y \<noteq> [] \<longrightarrow> y = x \<and> ?T' ContractFeed y = [?n])"
      by (auto simp: put_def)
    then show ?thesis
      using assms(1,2) put_new_unique[OF inv(3)] r(3) unfolding op_ok_def pending_op.case by blast
  qed
  then have "gates_ok ?T' (insert ?key (active_keys c)) (Suc ?n) (hold need ?key (PendingPublic k p x sub) g)"
    using gates_ok_start[OF inv(4) assms(3) inv(3) contract] by blast
  moreover have "feeds_match ?T' (insert ?key (active_keys c))"
    by (rule feeds_match_start[OF inv(2) key _ r(5)]) simp
  moreover have "subs_ok ?T' (Suc ?n) (set (wc_closed c) \<union> {})" using subs_ok_add[OF inv(3)] by simp
  ultimately show ?thesis by (intro effect_inv[OF r(1,2)])
qed

lemma step_name_inv:
  assumes "private_feed k x \<or> global_feed k x" "x \<notin> fst ` set g"
    "register_global k x c = (c', req, sub, need)" "sub_inv (c, g)"
    "\<forall>key'\<in>active_keys c. key' \<noteq> x \<longrightarrow> subscriptionVariantFamily x = [] \<or> subscriptionVariantFamily key' \<noteq> subscriptionVariantFamily x"
  shows "sub_inv (c', hold need x (PendingPrivate k sub) g)"
proof -
  note inv = sub_invD[OF assms(4)]
  note r = register_name_effect[OF assms(3) inv(1) assms(1) inv(2)]
  let ?T = "subscribers c" and ?n = "wc_nextSub c"
  let ?T' = "put k x (?T k x @ [?n]) ?T"
  have key: "key_ok k x x" using assms(1) key_ok_name by blast
  have "k \<noteq> ContractFeed" using assms(1) by (auto simp: private_feed_def global_feed_def)
  moreover have "op_ok ?T' (insert x (active_keys c)) (Suc ?n) x (PendingPrivate k sub)"
    using assms(1) put_new_unique[OF inv(3)] r(3) unfolding op_ok_def pending_op.case by blast
  ultimately have "gates_ok ?T' (insert x (active_keys c)) (Suc ?n) (hold need x (PendingPrivate k sub) g)"
    using gates_ok_start[OF inv(4) assms(2) inv(3)] by blast
  moreover have "feeds_match ?T' (insert x (active_keys c))"
    by (rule feeds_match_start[OF inv(2) key _ assms(5)]) simp
  moreover have "subs_ok ?T' (Suc ?n) (set (wc_closed c) \<union> {})" using subs_ok_add[OF inv(3)] by simp
  ultimately show ?thesis by (intro effect_inv[OF r(1,2)])
qed

lemma register_private_variants:
  assumes "register_private k x c = Inr r"
  shows "\<forall>key'\<in>active_keys c. key' \<noteq> x \<longrightarrow>
    subscriptionVariantFamily x = [] \<or> subscriptionVariantFamily key' \<noteq> subscriptionVariantFamily x"
  using assms by (intro validate_None[of c x x]) (auto simp: register_private_def Let_def split: option.splits)

lemma global_variants: "global_feed k x \<Longrightarrow> subscriptionVariantFamily x = []"
  unfolding global_feed_def by (elim conjE, simp, code_simp)

text \<open>Removing subscribers: \<open>l\<close> is left at the entry, \<open>D\<close> is closed.\<close>

lemma subs_removed:
  assumes "subs_ok T n C" "set l \<subseteq> set (T k x)" "distinct l" "D \<subseteq> set (T k x)" "set l \<inter> D = {}"
  shows "subs_ok (put k x l T) n (C \<union> D)"
proof (rule subs_ok_remove[OF assms(1-3) _ assms(5)])
  show "\<forall>s\<in>D. s < n" using subs_below[OF assms(1)] assms(4) by blast
  show "\<forall>k' x'. \<not> (k' = k \<and> x' = x) \<longrightarrow> set (T k' x') \<inter> D = {}"
    using subs_unique[OF assms(1)] assms(4) by blast
qed

lemma gates_shrunk:
  assumes "gates_ok T A n g" "key \<notin> fst ` set g" "set l \<subseteq> set (T k x)" "k = ContractFeed \<longrightarrow> key = ''contractStatus''"
    "A - {key} \<subseteq> A'"
  shows "gates_ok (put k x l T) A' n g"
  using gates_ok_other[OF assms(1,2), of l k x A' n] assms(3-5) by blast

lemma stop_unique:
  assumes "one_variant A" "key \<in> A" "key_ok k x key"
  shows "\<forall>key'\<in>A. key_ok k x key' \<longrightarrow> key' = key"
  using key_ok_same_family[OF assms(3)] assms unfolding one_variant_def by blast

lemma refused_inv:
  assumes "clean_tables c" "feeds_match (subscribers c) (active_keys c)"
    "subs_ok (subscribers c) (wc_nextSub c) (set (wc_closed c))"
    "gates_ok (subscribers c) (active_keys c) (wc_nextSub c) g" "key \<notin> fst ` set g"
    "key_ok k x key" "s < wc_nextSub c" "\<forall>k' x'. s \<in> set (subscribers c k' x') \<longrightarrow> k' = k \<and> x' = x"
    "s \<in> set (subscribers c k x) \<longrightarrow> key \<in> active_keys c"
    "k = ContractFeed \<longrightarrow> (\<forall>y. subscribers c ContractFeed y \<noteq> [] \<longrightarrow> y = x)"
  shows "sub_inv (removePublicSubscription k p key x s c, g)"
proof -
  let ?T = "subscribers c" and ?c' = "removePublicSubscription k p key x s c"
  let ?l = "filter (\<lambda>y. y \<noteq> s) (?T k x)"
  let ?A = "if s \<in> set (?T k x) \<and> ?l = [] then active_keys c - {key} else active_keys c"
  note e = remove_public_effect[OF assms(1), of ?c' k p key x s, simplified]
  have contract: "k = ContractFeed \<longrightarrow> key = ''contractStatus''" using assms(6) key_ok_contract by blast
  have m: "feeds_match (put k x ?l ?T) ?A"
  proof (cases "s \<in> set (?T k x)")
    case False
    then have "?l = ?T k x" by (auto simp: filter_id_conv)
    then have "put k x ?l ?T = ?T" using put_same[of k x ?T] by (simp only:)
    then show ?thesis using False assms(2) by simp
  next
    case True
    show ?thesis
    proof (cases "?l = []")
      case False
      have "?T k x \<noteq> []" using True by auto
      then show ?thesis using feeds_match_more[OF assms(2) _ False] False by simp
    next
      case l: True
      show ?thesis
      proof (cases "k = ContractFeed")
        case True
        have "symbol_ok x" using assms(6) True key_ok_contract by blast
        moreover have "\<forall>y. y \<noteq> x \<longrightarrow> ?T ContractFeed y = []" using assms(10) True by blast
        ultimately show ?thesis
          using feeds_match_stop_contract[OF assms(2)] contract True l \<open>s \<in> set (?T k x)\<close> by simp
      next
        case False
        have "\<forall>key'\<in>active_keys c. key_ok k x key' \<longrightarrow> key' = key"
          using stop_unique[OF feeds_matchD(3)[OF assms(2)] _ assms(6)] assms(9) True by blast
        then show ?thesis using feeds_match_stop[OF assms(2,6) False] l True by simp
      qed
    qed
  qed
  have "subs_ok (put k x ?l ?T) (wc_nextSub c) (set (wc_closed c) \<union> {s})"
  proof (rule subs_ok_remove[OF assms(3)])
    show "distinct ?l" using assms(3) by (simp add: subs_ok_def)
    show "\<forall>k' x'. \<not> (k' = k \<and> x' = x) \<longrightarrow> set (?T k' x') \<inter> {s} = {}" using assms(8) by blast
  qed (use assms(7) in auto)
  moreover have "gates_ok (put k x ?l ?T) ?A (wc_nextSub c) g"
    by (rule gates_shrunk[OF assms(4,5) _ contract]) auto
  ultimately show ?thesis using effect_inv[OF e m] by blast
qed

lemma step_refused_public_inv:
  assumes "sub_inv (c, g1 @ (key, PendingPublic k p x s) # g2)"
  shows "sub_inv (removePublicSubscription k p key x s c, g1 @ g2)"
proof -
  note inv = sub_invD[OF assms]
  note g = gates_ok_drop[OF inv(4)]
  have o: "\<exists>f. public_feed k p f \<and> key = feed_key p x f" "symbol_ok x" "s < wc_nextSub c"
    "s \<in> set (subscribers c k x) \<longrightarrow> key \<in> active_keys c"
    "\<forall>k' x'. s \<in> set (subscribers c k' x') \<longrightarrow> k' = k \<and> x' = x"
    "k = ContractFeed \<longrightarrow> (\<forall>y. subscribers c ContractFeed y \<noteq> [] \<longrightarrow> y = x)"
    using g(3) unfolding op_ok_def pending_op.case by blast+
  have "key_ok k x key" using o(1,2) by (auto simp: key_ok_def)
  then show ?thesis using refused_inv[OF inv(1-3) g(1,2) _ o(3,5,4,6)] by blast
qed

lemma step_refused_private_inv:
  assumes "sub_inv (c, g1 @ (key, PendingPrivate k s) # g2)"
  shows "sub_inv (removePrivateSubscription k key s c, g1 @ g2)"
proof -
  note inv = sub_invD[OF assms]
  note g = gates_ok_drop[OF inv(4)]
  have o: "private_feed k key \<or> global_feed k key" "s < wc_nextSub c"
    "\<forall>k' x'. s \<in> set (subscribers c k' x') \<longrightarrow> k' = k \<and> x' = key"
    using g(3) unfolding op_ok_def pending_op.case by blast+
  have key: "key_ok k key key" using o(1) key_ok_name by blast
  have "key \<in> active_keys c" if "s \<in> set (subscribers c k key)"
  proof -
    have "subscribers c k key \<noteq> []" using that by auto
    then obtain key' where "key' \<in> active_keys c" "key_ok k key key'" using feeds_matchD(1)[OF inv(2)] by blast
    then show ?thesis using key_ok_name[OF o(1)] by simp
  qed
  moreover have "k \<noteq> ContractFeed" using o(1) by (auto simp: private_feed_def global_feed_def)
  ultimately show ?thesis
    unfolding remove_private_as_public using refused_inv[OF inv(1-3) g(1,2) key o(2,3)] by blast
qed

lemma op_ok_unsubscribe [simp]: "op_ok T A n key (PendingUnsubscribe k)"
  by (simp add: op_ok_def)

lemma step_unpublic_inv:
  assumes "public_feed k p f" "symbol_ok x" "feed_key p x f \<notin> fst ` set g"
    "unregister_public k p f x c = Inr (Some (c', waits))" "sub_inv (c, g)"
  shows "sub_inv (c', hold waits (feed_key p x f) (PendingUnsubscribe k) g)"
proof -
  note inv = sub_invD[OF assms(5)]
  note e = unregister_public_effect[OF inv(1) assms(4,1)]
  let ?T = "subscribers c" and ?key = "feed_key p x f"
  let ?A = "if k = ContractFeed \<and> (\<exists>y. y \<noteq> x \<and> ?T k y \<noteq> []) then active_keys c else active_keys c - {?key}"
  have key: "key_ok k x ?key" using assms(1,2) by (auto simp: key_ok_def)
  have contract: "k = ContractFeed \<longrightarrow> ?key = ''contractStatus''" using assms(1) contract_key by blast
  have "feeds_match (put k x [] ?T) ?A"
  proof (cases "k = ContractFeed")
    case True
    then show ?thesis
      using feeds_match_keep_contract[OF inv(2), of _ x] feeds_match_stop_contract[OF inv(2) assms(2)] contract by auto
  next
    case False
    have "\<forall>key'\<in>active_keys c. key_ok k x key' \<longrightarrow> key' = ?key"
      using e(4)[OF False] key_ok_same_family[OF key] by metis
    then show ?thesis using feeds_match_stop[OF inv(2) key False] False by simp
  qed
  moreover have "subs_ok (put k x [] ?T) (wc_nextSub c) (set (wc_closed c) \<union> set (?T k x))"
    by (rule subs_removed[OF inv(3)]) auto
  moreover have "gates_ok (put k x [] ?T) ?A (wc_nextSub c) (hold waits ?key (PendingUnsubscribe k) g)"
    by (rule gates_ok_hold[OF gates_shrunk[OF inv(4) assms(3) _ contract]]) (use assms(3) in auto)
  ultimately show ?thesis using effect_inv[OF e(1,2)] by blast
qed

lemma step_unprivate_inv:
  assumes "private_feed k x \<or> global_feed k x" "x \<notin> fst ` set g"
    "unregister_private k x c = (c', waits)" "sub_inv (c, g)"
  shows "sub_inv (c', hold waits x (PendingUnsubscribe k) g)"
proof -
  note inv = sub_invD[OF assms(4)]
  note e = unregister_name_effect[OF inv(1) assms(3)]
  have k: "k \<noteq> ContractFeed" using assms(1) by (auto simp: private_feed_def global_feed_def)
  have "feeds_match (put k x [] (subscribers c)) (active_keys c - {x})"
    by (rule feeds_match_stop[OF inv(2) _ k]) (use key_ok_name[OF assms(1)] in auto)
  moreover have "subs_ok (put k x [] (subscribers c)) (wc_nextSub c) (set (wc_closed c) \<union> set (subscribers c k x))"
    by (rule subs_removed[OF inv(3)]) auto
  moreover have "gates_ok (put k x [] (subscribers c)) (active_keys c - {x}) (wc_nextSub c) (hold waits x (PendingUnsubscribe k) g)"
    by (rule gates_ok_hold[OF gates_shrunk[OF inv(4) assms(2)]]) (use assms(2) k in auto)
  ultimately show ?thesis using effect_inv[OF e] by blast
qed

lemma step_channel_inv:
  assumes "private_feed k x" "x \<notin> fst ` set g" "unregister_channel k x s c = (c', waits)" "sub_inv (c, g)"
  shows "sub_inv (c', hold waits x (PendingUnsubscribe k) g)"
proof -
  note inv = sub_invD[OF assms(4)]
  note e = unregister_channel_effect[OF inv(1) assms(3)]
  let ?T = "subscribers c"
  let ?l = "remove1 s (?T k x)"
  let ?A = "if ?l = [] then active_keys c - {x} else active_keys c"
  have n: "private_feed k x \<or> global_feed k x" using assms(1) by blast
  have k: "k \<noteq> ContractFeed" using assms(1) by (auto simp: private_feed_def)
  from e(1) show ?thesis
  proof (elim disjE conjE)
    assume "c' = c"
    then show ?thesis using inv gates_ok_hold[OF inv(4) assms(2)] by (simp add: sub_inv_def)
  next
    assume s: "s \<in> set (?T k x)" and eff: "effect c c' k x ?l ?A {s} (wc_nextSub c)"
    have d: "distinct (?T k x)" using inv(3) by (simp add: subs_ok_def)
    have "feeds_match (put k x ?l ?T) ?A"
    proof (cases "?l = []")
      case True
      then show ?thesis using feeds_match_stop[OF inv(2) _ k, of x x] key_ok_name[OF n] by simp
    next
      case False
      have "?T k x \<noteq> []" using s by auto
      then show ?thesis using feeds_match_more[OF inv(2) _ False] False by simp
    qed
    moreover have "subs_ok (put k x ?l ?T) (wc_nextSub c) (set (wc_closed c) \<union> {s})"
      by (rule subs_removed[OF inv(3)]) (use s d in \<open>auto simp: set_remove1_eq\<close>)
    moreover have "gates_ok (put k x ?l ?T) ?A (wc_nextSub c) (hold waits x (PendingUnsubscribe k) g)"
      by (rule gates_ok_hold[OF gates_shrunk[OF inv(4) assms(2)]]) (use assms(2) k d in \<open>auto simp: set_remove1_eq\<close>)
    ultimately show ?thesis using effect_inv[OF eff e(2)] by blast
  qed
qed

lemma all_subs_below:
  assumes "clean_tables c" "subs_ok (subscribers c) n C"
  shows "\<forall>s\<in>set (all_subs (wc_tables c)). s < n"
proof
  fix s assume "s \<in> set (all_subs (wc_tables c))"
  then obtain k x l where "(x, l) \<in> set (wc_tables c k)" "s \<in> set l"
    by (auto simp: all_subs_def)
  then have "s \<in> set (subscribers c k x)"
    using tidy_entry[of "wc_tables c k" x l] assms(1) by (auto simp: clean_tables_def subscribers_def)
  then show "s < n" using subs_below[OF assms(2)] by blast
qed

lemma step_lost_inv:
  assumes "sub_inv (c, g)"
  shows "sub_inv (failSubscriptions c, g)"
proof -
  note inv = sub_invD[OF assms]
  have t: "subscribers (failSubscriptions c) = (\<lambda>_ _. [])" "active_keys (failSubscriptions c) = {}"
    by (simp_all add: failSubscriptions_def close_subs_def subscribers_def active_keys_def newSubTables_def
        subs_of_def fun_eq_iff)
  have "clean_tables (failSubscriptions c)"
    by (simp add: failSubscriptions_def close_subs_def clean_tables_def newSubTables_def tidy_def)
  moreover have "subs_ok (\<lambda>_ _. []) (wc_nextSub c) (set (wc_closed (failSubscriptions c)))"
    using all_subs_below[OF inv(1,3)] inv(3)
    by (intro subs_ok_empty) (auto simp: failSubscriptions_def close_subs_def subs_ok_def)
  moreover have "wc_nextSub (failSubscriptions c) = wc_nextSub c" by (simp add: failSubscriptions_def close_subs_def)
  moreover have "op_ok (\<lambda>_ _. []) {} n key p_op" if "op_ok T A n key p_op" for T A n key p_op
    using that unfolding op_ok_def by (cases p_op) simp_all
  then have "gates_ok (\<lambda>_ _. []) {} (wc_nextSub c) g"
    using inv(4) unfolding gates_ok_def by blast
  ultimately show ?thesis using feeds_match_empty by (simp add: sub_inv_def t)
qed

text \<open>The remaining steps do not touch what the invariant speaks of.\<close>

definition same_feeds :: "ws_client \<Rightarrow> ws_client \<Rightarrow> bool" where
  "same_feeds c c' \<longleftrightarrow> wc_tables c' = wc_tables c \<and> wc_activeFeeds c' = wc_activeFeeds c \<and>
     wc_closed c' = wc_closed c \<and> wc_nextSub c' = wc_nextSub c"

lemma same_feeds_inv: "same_feeds c c' \<Longrightarrow> sub_inv (c, g) \<Longrightarrow> sub_inv (c', g)"
  by (simp add: same_feeds_def sub_inv_def clean_tables_def subscribers_def[abs_def] active_keys_def)

lemma mark_same_feeds: "same_feeds c (markSnapshotPending c fr)"
  by (simp add: markSnapshotPending_def same_feeds_def split: option.splits)

lemma replay_same_feeds: "same_feeds c (foldl markSnapshotPending c frs)"
proof (induction frs arbitrary: c)
  case (Cons fr frs)
  then show ?case using mark_same_feeds[of c fr] Cons[of "markSnapshotPending c fr"] by (simp add: same_feeds_def)
qed (simp add: same_feeds_def)

lemma consume_same_feeds: "same_feeds c (snd (consumeSnapshotPending c symbol g))"
  by (simp add: consumeSnapshotPending_def same_feeds_def split: option.splits)

lemma sub_step_inv:
  assumes "sub_step named cfg cfg'" "sub_inv cfg" "plain_symbols (set_option named)"
  shows "sub_inv cfg'"
  using assms(1)
proof (cases rule: sub_step.cases)
  case (step_public k p f symbol x)
  then have "symbol_ok x" using normalized_symbol_ok assms(3) by (auto simp: plain_symbols_def)
  then show ?thesis using step_public step_public_inv assms(2) by blast
next
  case step_private
  then show ?thesis using step_name_inv register_private_global register_private_variants assms(2) by blast
next
  case step_global
  then show ?thesis using step_name_inv global_variants assms(2) by blast
next
  case (step_unpublic k p f symbol x)
  then have "symbol_ok x" using normalized_symbol_ok assms(3) by (auto simp: plain_symbols_def)
  then show ?thesis using step_unpublic step_unpublic_inv assms(2) by blast
next
  case step_unprivate
  then show ?thesis using step_unprivate_inv assms(2) by blast
next
  case step_channel
  then show ?thesis using step_channel_inv assms(2) by blast
next
  case (step_answered c g1 key p_op g2)
  note inv = sub_invD[OF assms(2)[unfolded step_answered(2)]]
  show ?thesis using inv(1-3) gates_ok_drop(1)[OF inv(4)] by (simp add: step_answered(3) sub_inv_def)
next
  case step_refused_public
  then show ?thesis using step_refused_public_inv assms(2) by blast
next
  case step_refused_private
  then show ?thesis using step_refused_private_inv assms(2) by blast
next
  case step_lost
  then show ?thesis using step_lost_inv assms(2) by blast
next
  case (step_state c g st)
  have "same_feeds c (c\<lparr>wc_state := st\<rparr>)" by (simp add: same_feeds_def)
  then show ?thesis using step_state same_feeds_inv assms(2) by blast
next
  case step_snapshot
  then show ?thesis using same_feeds_inv[OF consume_same_feeds] assms(2) by blast
next
  case (step_replay c g)
  then show ?thesis using same_feeds_inv[OF replay_same_feeds] assms(2) by (simp add: replay_begin_def)
qed

lemma sub_reachable_inv:
  assumes "sub_reachable S cfg" "plain_symbols S"
  shows "sub_inv cfg"
  using assms
proof (induction rule: sub_reachable.induct)
  case (sub_next cfg named cfg')
  moreover have "plain_symbols (set_option named)" using sub_next by (auto simp: plain_symbols_def)
  ultimately show ?case using sub_step_inv by blast
qed (rule sub_inv_start)

end
