(* ===== verification/SubscriptionProps.thy ===== *)
theory SubscriptionProps
  imports SubscriptionSpec
begin

text \<open>
  What the subscriptions promise in every reachable configuration: tables and active feeds agree, a
  reconnect requests again what has a subscriber, and a frame read before a subscription is never
  taken for its snapshot.
\<close>

section \<open>Tables and feeds\<close>

text \<open>C5: In every configuration of the websocket client's subscriptions that calls whose normalised symbols do not
  start with an at sign can reach (in any order of subscribing, unsubscribing, refusals by the exchange, lost
  connections and replays): an entry with subscribers has exactly one active feed, every active feed has a
  subscriber, no two variants of one stream are active together, every subscriber's channel is open, and no
  channel is in two entries. A symbol that starts with an at sign is accepted by the code and excluded here: it
  breaks the property (\<open>at_symbol_leaves_feed\<close>).\<close>

theorem feeds_match_subscribers:
  assumes "sub_reachable S (c, g)" "plain_symbols S"
  shows "(\<forall>k x. subscribers c k x \<noteq> [] \<longrightarrow> (\<exists>!key. key \<in> active_keys c \<and> key_ok k x key)) \<and>
    (\<forall>key\<in>active_keys c. \<exists>k x. key_ok k x key \<and> subscribers c k x \<noteq> []) \<and>
    one_variant (active_keys c) \<and>
    (\<forall>k x. \<forall>s\<in>set (subscribers c k x). s \<notin> set (wc_closed c)) \<and>
    (\<forall>k x k' x' s. s \<in> set (subscribers c k x) \<and> s \<in> set (subscribers c k' x') \<longrightarrow> k = k' \<and> x = x')"
proof -
  note inv = sub_invD[OF sub_reachable_inv[OF assms]]
  note m = feeds_matchD[OF inv(2)]
  have "\<exists>!key. key \<in> active_keys c \<and> key_ok k x key" if "subscribers c k x \<noteq> []" for k x
    using m(1)[OF that] stop_unique[OF m(3)] by blast
  then show ?thesis using m(2,3) inv(3) unfolding subs_ok_def by blast
qed

section \<open>Replay\<close>

definition frame_for :: "feed_kind \<Rightarrow> string \<Rightarrow> request_frame \<Rightarrow> bool" where
  "frame_for k x fr \<longleftrightarrow>
     rf_Method fr = ''SUBSCRIBE'' \<and>
     ((\<exists>p f. public_feed k p f \<and> rf_Params fr = [feed_stream x f]) \<or>
      (private_feed k x \<or> global_feed k x) \<and> rf_Params fr = [x])"

lemma stream_frame_for:
  assumes "stream_frame key fr" "key_ok k x key"
  shows "frame_for k x fr"
proof -
  from assms(1) obtain k' x' where kx: "key_ok k' x' key"
    "(\<exists>p f. public_feed k' p f \<and> key = feed_key p x' f \<and> rf_Params fr = [feed_stream x' f]) \<or>
     (private_feed k' x' \<or> global_feed k' x') \<and> key = x' \<and> rf_Params fr = [x']" and m: "rf_Method fr = ''SUBSCRIBE''"
    unfolding stream_frame_def using key_ok_name by blast
  have u: "k' = k" "k \<noteq> ContractFeed \<Longrightarrow> x' = x" using key_ok_unique[OF kx(1) assms(2)] by auto
  from kx(2) show ?thesis
  proof (elim disjE exE conjE)
    fix p f assume pf: "public_feed k' p f" "rf_Params fr = [feed_stream x' f]"
    have "feed_stream x' f = feed_stream x f"
      using u pf(1) by (cases "k = ContractFeed") (auto simp: feed_stream_def public_contract)
    then show ?thesis using pf u(1) m by (auto simp: frame_for_def)
  next
    assume "private_feed k' x'" "rf_Params fr = [x']"
    moreover have "k' \<noteq> ContractFeed" using \<open>private_feed k' x'\<close> by (auto simp: private_feed_def)
    ultimately show ?thesis using u m by (auto simp: frame_for_def)
  next
    assume "global_feed k' x'" "rf_Params fr = [x']"
    moreover have "k' \<noteq> ContractFeed" using \<open>global_feed k' x'\<close> by (auto simp: global_feed_def)
    ultimately show ?thesis using u m by (auto simp: frame_for_def)
  qed
qed

lemma sameRequestFrame_refl [simp]: "sameRequestFrame fr fr"
  by (simp add: sameRequestFrame_def list.rel_eq)

text \<open>A replay nobody interferes with, and the errors of the feeds the exchange refused.\<close>

definition undisturbed :: "replay_env \<Rightarrow> bool" where
  "undisturbed env \<longleftrightarrow> (\<forall>i. re_current env i) \<and> (\<forall>i. re_gate env i = None) \<and> (\<forall>i c. re_world env i c = c)"

definition refusals :: "replay_env \<Rightarrow> nat \<Rightarrow> request_frame list \<Rightarrow> ws_error list" where
  "refusals env i frs =
     concat (map (\<lambda>(j, fr). case re_wire env j fr of Some e \<Rightarrow> [e] | None \<Rightarrow> []) (enumerate i frs))"

lemma refusals_simps:
  "refusals env i [] = []"
  "refusals env i (fr # frs) = (case re_wire env i fr of Some e \<Rightarrow> [e] | None \<Rightarrow> []) @ refusals env (Suc i) frs"
  by (simp_all add: refusals_def)

lemma replay_feeds_undisturbed:
  assumes "undisturbed env" "\<forall>(key, fr)\<in>set feeds. map_of (wc_activeFeeds c) key = Some fr"
  shows "replay_feeds env i feeds c sent errs = (c, sent @ map snd feeds, errs @ refusals env i (map snd feeds))"
  using assms(2)
proof (induction feeds arbitrary: i sent errs)
  case (Cons feed feeds)
  obtain key fr where f: "feed = (key, fr)" by (cases feed)
  have "map_of (wc_activeFeeds c) key = Some fr" using Cons.prems f by simp
  moreover have "re_current env (2 * i)" "re_current env (2 * i + 1)" "re_gate env i = None" "re_world env i c = c"
    using assms(1) by (simp_all only: undisturbed_def)
  ultimately show ?case using Cons by (simp add: f refusals_simps split: option.splits)
qed (simp add: refusals_simps)

text \<open>C7: A replay after a reconnect that nothing disturbs requests each active feed exactly once, reports
  exactly the refusals of the exchange, and every table entry that has a subscriber is among the feeds
  requested again, as long as no call named a symbol that starts with an at sign.\<close>

theorem replay_restores_feeds:
  assumes "sub_reachable S (c, g)" "plain_symbols S" "undisturbed env"
  shows "case resubscribeActiveFeeds None True env c of
    (c', sent, errs) \<Rightarrow>
      sent = map snd (wc_activeFeeds c) \<and> length sent = card (active_keys c) \<and>
      errs = refusals env 0 sent \<and> wc_activeFeeds c' = wc_activeFeeds c \<and>
      (\<forall>k x. subscribers c k x \<noteq> [] \<longrightarrow> (\<exists>fr\<in>set sent. frame_for k x fr))"
proof -
  note inv = sub_invD[OF sub_reachable_inv[OF assms(1,2)]]
  let ?c1 = "foldl markSnapshotPending c (map snd (wc_activeFeeds c))"
  have a: "wc_activeFeeds ?c1 = wc_activeFeeds c" using replay_same_feeds by (simp add: same_feeds_def)
  have d: "distinct (map fst (wc_activeFeeds c))" and st: "\<forall>(key, fr)\<in>set (wc_activeFeeds c). stream_frame key fr"
    using inv(1) by (simp_all add: clean_tables_def)
  have "\<forall>(key, fr)\<in>set (wc_activeFeeds c). map_of (wc_activeFeeds ?c1) key = Some fr"
    using d by (auto simp: a)
  then have "resubscribeActiveFeeds None True env c =
      (?c1, map snd (wc_activeFeeds c), refusals env 0 (map snd (wc_activeFeeds c)))"
    using replay_feeds_undisturbed[OF assms(3), of "wc_activeFeeds c" ?c1] by (simp add: resubscribeActiveFeeds_def replay_begin_def)
  moreover have "length (wc_activeFeeds c) = card (active_keys c)"
    using distinct_card[OF d] by (simp add: active_keys_def)
  moreover have "\<exists>fr\<in>snd ` set (wc_activeFeeds c). frame_for k x fr" if sub: "subscribers c k x \<noteq> []" for k x
  proof -
    obtain key where key: "key \<in> active_keys c" "key_ok k x key" using feeds_matchD(1)[OF inv(2) sub] by blast
    then obtain fr where "(key, fr) \<in> set (wc_activeFeeds c)" by (auto simp: active_keys_def)
    then show ?thesis using st stream_frame_for[OF _ key(2)] by force
  qed
  ultimately show ?thesis by (simp add: a)
qed

section \<open>Snapshots\<close>

text \<open>No pending snapshot of \<open>x\<close> accepts a frame of generation \<open>n\<close>.\<close>

definition fenced :: "string \<Rightarrow> nat \<Rightarrow> ws_client \<Rightarrow> bool" where
  "fenced x n c \<longleftrightarrow> n \<le> wc_generation c \<and> (\<forall>m. map_of (wc_snapshotPending c) x = Some m \<longrightarrow> n < m)"

lemma fenced_same:
  "wc_generation c' = wc_generation c \<Longrightarrow> wc_snapshotPending c' = wc_snapshotPending c \<Longrightarrow> fenced x n c \<Longrightarrow> fenced x n c'"
  by (simp add: fenced_def)

lemma fenced_raised:
  "wc_generation c' = Suc (wc_generation c) \<Longrightarrow> wc_snapshotPending c' = AList.update y (Suc (wc_generation c)) (wc_snapshotPending c) \<Longrightarrow>
   fenced x n c \<Longrightarrow> fenced x n c'"
  by (auto simp: fenced_def update_conv')

lemma fenced_deleted:
  "wc_generation c \<le> wc_generation c' \<Longrightarrow> wc_snapshotPending c' = AList.delete y (wc_snapshotPending c) \<Longrightarrow>
   fenced x n c \<Longrightarrow> fenced x n c'"
  by (auto simp: fenced_def delete_conv')

lemma mark_fenced: "fenced x n c \<Longrightarrow> fenced x n (markSnapshotPending c fr)"
  by (auto simp: markSnapshotPending_def intro: fenced_raised split: option.splits)

lemma marks_fenced: "fenced x n c \<Longrightarrow> fenced x n (foldl markSnapshotPending c frs)"
  by (induction frs arbitrary: c) (simp_all add: mark_fenced)

lemma register_fenced:
  assumes "register_public k p f y c = Inr (c', req, sub, need)" "fenced x n c"
  shows "fenced x n c'"
  using assms
  by (auto simp: register_public_def Let_def fenced_def update_conv' split: option.splits if_splits)

lemma unregister_fenced:
  assumes "unregister_public k p f y c = Inr (Some (c', waits))" "fenced x n c"
  shows "fenced x n c'"
  using assms
  by (auto simp: unregister_public_def removeMapSub_def close_subs_def Let_def fenced_def delete_conv'
      split: option.splits if_splits)

lemma remove_fenced:
  assumes "fenced x n c"
  shows "fenced x n (removePublicSubscription k p key y s c)"
  using assms by (auto simp: removePublicSubscription_def close_subs_def Let_def fenced_def delete_conv')

lemma names_fenced:
  "register_global k y c = (c', req, sub, need) \<Longrightarrow> fenced x n c \<Longrightarrow> fenced x n c'"
  "unregister_private k y c = (c', waits) \<Longrightarrow> fenced x n c \<Longrightarrow> fenced x n c'"
  "unregister_channel k y s c = (c', waits) \<Longrightarrow> fenced x n c \<Longrightarrow> fenced x n c'"
  by (auto simp: register_global_def unregister_private_def unregister_channel_def close_subs_def fenced_def Let_def
      split: if_splits)

lemma consume_fenced: "fenced x n c \<Longrightarrow> fenced x n (snd (consumeSnapshotPending c y m))"
  by (auto simp: consumeSnapshotPending_def intro: fenced_deleted split: option.splits)

lemma step_fenced:
  assumes "sub_step named cfg cfg'" "fenced x n (fst cfg)"
  shows "fenced x n (fst cfg')"
  using assms(1)
proof (cases rule: sub_step.cases)
  case step_public then show ?thesis using register_fenced assms(2) by auto
next
  case step_private then show ?thesis using names_fenced(1) register_private_global assms(2) by fastforce
next
  case step_global then show ?thesis using names_fenced(1) assms(2) by fastforce
next
  case step_unpublic then show ?thesis using unregister_fenced assms(2) by auto
next
  case step_unprivate then show ?thesis using names_fenced(2) assms(2) by fastforce
next
  case step_channel then show ?thesis using names_fenced(3) assms(2) by fastforce
next
  case step_refused_public then show ?thesis using remove_fenced assms(2) by auto
next
  case step_refused_private
  then show ?thesis using remove_fenced assms(2) by (simp add: remove_private_as_public)
next
  case step_lost then show ?thesis using assms(2) by (simp add: failSubscriptions_def close_subs_def fenced_def)
next
  case step_replay then show ?thesis using marks_fenced assms(2) by (simp add: replay_begin_def)
qed (use assms(2) consume_fenced in \<open>auto simp: fenced_def\<close>)

lemma steps_fenced:
  assumes "any_step\<^sup>*\<^sup>* cfg cfg'" "fenced x n (fst cfg)"
  shows "fenced x n (fst cfg')"
  using assms by (induction rule: rtranclp_induct) (auto simp: any_step_def intro: step_fenced)

text \<open>A new differential feed in snapshot mode raises the generation above every frame read before it.\<close>

lemma register_marks:
  assumes "register_public k ''depth'' f x c = Inr (c', req, sub, True)" "wc_snapshotMode c"
  shows "map_of (wc_snapshotPending c') x = Some (Suc (wc_generation c))" "wc_generation c' = Suc (wc_generation c)"
  using assms by (auto simp: register_public_def Let_def update_conv' split: option.splits if_splits)

lemma consume_clears: "fst (consumeSnapshotPending c x m) \<Longrightarrow>
    map_of (wc_snapshotPending (snd (consumeSnapshotPending c x m))) (ToUpper x) = None"
  by (auto simp: consumeSnapshotPending_def delete_conv' split: option.splits)

text \<open>C6: When a differential depth subscription has to be requested in snapshot mode, the frames read
  before it (whose generation is at most the client's at that moment) are never taken for its snapshot,
  whatever happens afterwards, the first frame read after it is, and a snapshot is consumed at most
  once: after a consumption no frame is accepted until the feed is requested again.\<close>

theorem stale_frame_fenced:
  assumes "register_public DepthFeed ''depth'' f x c = Inr (c1, req, sub, True)" "wc_snapshotMode c"
    "normalizeSymbol symbol = Inr x" "any_step\<^sup>*\<^sup>* (c1, g1) (c2, g2)" "n \<le> wc_generation c"
  shows "\<not> fst (consumeSnapshotPending c2 x n) \<and>
    fst (consumeSnapshotPending c1 x (wc_generation c1)) \<and>
    (\<forall>m m'. fst (consumeSnapshotPending c2 x m) \<longrightarrow>
       \<not> fst (consumeSnapshotPending (snd (consumeSnapshotPending c2 x m)) x m'))"
proof -
  note x = conjunct2[OF normalized_fixed[OF assms(3)]]
  note r = register_marks[OF assms(1,2)]
  have "fenced x n c1" using r assms(5) by (simp add: fenced_def)
  then have "fenced x n c2" using steps_fenced[OF assms(4)] by simp
  then have "\<not> fst (consumeSnapshotPending c2 x n)"
    by (auto simp: consumeSnapshotPending_def fenced_def x split: option.splits)
  moreover have "fst (consumeSnapshotPending c1 x (wc_generation c1))"
    by (simp add: consumeSnapshotPending_def x r)
  moreover have "\<not> fst (consumeSnapshotPending d x m')" if "map_of (wc_snapshotPending d) x = None" for d m'
    using that by (simp add: consumeSnapshotPending_def x)
  ultimately show ?thesis using consume_clears[of c2 x] x by metis
qed

section \<open>Witnesses\<close>

text \<open>A client in snapshot mode that subscribes the differential depth of one symbol.\<close>

definition wit_client :: ws_client where
  "wit_client = new_ws_client False False True"

definition wit_subscribed :: ws_client where
  "wit_subscribed =
     (case register_public DepthFeed ''depth'' ''depth'' ''BTC'' wit_client of
        Inr (c, _) \<Rightarrow> c | Inl _ \<Rightarrow> wit_client)"

lemma wit_normalize: "normalizeSymbol ''btc'' = Inr ''BTC''"
  by code_simp

lemma wit_register:
  "register_public DepthFeed ''depth'' ''depth'' ''BTC'' wit_client =
    Inr (wit_subscribed, \<lparr>rf_ID = 1, rf_Method = ''SUBSCRIBE'', rf_Params = [''btc@depth'']\<rparr>, 0, True)"
proof -
  have "validateActiveSubscriptionVariant wit_client key stream = None" for key stream
    by (simp add: validateActiveSubscriptionVariant_def wit_client_def new_ws_client_def Let_def)
  moreover have "feed_stream ''BTC'' ''depth'' = ''btc@depth''" by code_simp
  ultimately show ?thesis
    by (simp add: wit_subscribed_def register_public_def Let_def new_frame_def wit_client_def new_ws_client_def)
qed

lemma wit_step:
  "sub_step (Some ''BTC'') (wit_client, []) (wit_subscribed, hold True (feed_key ''depth'' ''BTC'' ''depth'') (PendingPublic DepthFeed ''depth'' ''BTC'' 0) [])"
  by (rule step_public[OF _ wit_normalize _ wit_register]) (simp_all add: public_feed_def)

lemma wit_reachable:
  "sub_reachable {''BTC''} (wit_subscribed, hold True (feed_key ''depth'' ''BTC'' ''depth'') (PendingPublic DepthFeed ''depth'' ''BTC'' 0) [])"
  by (rule sub_next[OF sub_init[of _ False False True, folded wit_client_def] wit_step]) simp

lemma wit_plain: "plain_symbols {''BTC''}"
  by (simp add: plain_symbols_def)

theorem feeds_match_subscribers_witness:
  "subscribers wit_subscribed DepthFeed ''BTC'' = [0] \<and>
    (\<exists>!key. key \<in> active_keys wit_subscribed \<and> key_ok DepthFeed ''BTC'' key)"
proof -
  have "subscribers wit_subscribed DepthFeed ''BTC'' = [0]"
    using wit_register
    by (auto simp: wit_subscribed_def wit_client_def new_ws_client_def register_public_def Let_def subscribers_def addMapSub_def newSubTables_def subs_of_def
        split: option.splits)
  then show ?thesis using feeds_match_subscribers[OF wit_reachable wit_plain] by simp
qed

definition wit_env :: replay_env where
  "wit_env = \<lparr>re_current = (\<lambda>_. True), re_gate = (\<lambda>_. None), re_world = (\<lambda>_ c. c), re_wire = (\<lambda>_ _. None)\<rparr>"

theorem replay_restores_feeds_witness:
  "case resubscribeActiveFeeds None True wit_env wit_subscribed of (c', sent, errs) \<Rightarrow>
     length sent = card (active_keys wit_subscribed)"
  using replay_restores_feeds[OF wit_reachable wit_plain, of wit_env] by (auto simp: undisturbed_def wit_env_def)

theorem stale_frame_fenced_witness:
  "\<not> fst (consumeSnapshotPending wit_subscribed ''BTC'' 0)"
  using stale_frame_fenced[OF wit_register _ wit_normalize rtranclp.rtrancl_refl, of 0]
  by (simp add: wit_client_def new_ws_client_def)

section \<open>A symbol that starts with an at sign\<close>

text \<open>Two partial depths of one such symbol: their keys have no family, so the client does not take them for
  variants of each other.\<close>

definition at_key :: "string \<Rightarrow> string" where
  "at_key f = feed_key ''partialDepth'' ''@X'' f"

lemma at_family: "f = ''depth5'' \<or> f = ''depth10'' \<Longrightarrow> subscriptionVariantFamily (at_key f) = []"
  by (elim disjE; hypsubst) code_simp+

definition at_started :: "string \<Rightarrow> ws_client \<Rightarrow> ws_client" where
  "at_started f c = (case register_public PartialDepthFeed ''partialDepth'' f ''@X'' c of Inr (c', _) \<Rightarrow> c' | Inl _ \<Rightarrow> c)"

lemma at_valid: "f = ''depth5'' \<or> f = ''depth10'' \<Longrightarrow> validateActiveSubscriptionVariant c (feed_key ''partialDepth'' ''@X'' f) stream = None"
  using at_family by (simp add: validateActiveSubscriptionVariant_def at_key_def)

lemma at_register:
  assumes "f = ''depth5'' \<or> f = ''depth10''"
  shows "\<exists>req need. register_public PartialDepthFeed ''partialDepth'' f ''@X'' c = Inr (at_started f c, req, wc_nextSub c, need)"
  using at_valid[OF assms] by (simp add: at_started_def register_public_def Let_def)

lemma at_effect:
  assumes "f = ''depth5'' \<or> f = ''depth10''"
  shows "active_keys (at_started f c) = insert (at_key f) (active_keys c)"
    "wc_tables (at_started f c) = (wc_tables c)(PartialDepthFeed := addMapSub (wc_tables c PartialDepthFeed) ''@X'' (wc_nextSub c))"
  using at_valid[OF assms]
  by (auto simp: at_started_def at_key_def register_public_def Let_def active_keys_def dom_update map_of_eq_None_iff)

lemma at_reached:
  assumes "sub_reachable {''@X''} (c, [])" "f = ''depth5'' \<or> f = ''depth10''"
  shows "sub_reachable {''@X''} (at_started f c, [])"
proof -
  obtain req need where r: "register_public PartialDepthFeed ''partialDepth'' f ''@X'' c = Inr (at_started f c, req, wc_nextSub c, need)"
    using at_register[OF assms(2)] by blast
  have n: "normalizeSymbol ''@x'' = Inr ''@X''" by code_simp
  have "sub_step (Some ''@X'') (c, []) (at_started f c, hold need (feed_key ''partialDepth'' ''@X'' f) (PendingPublic PartialDepthFeed ''partialDepth'' ''@X'' (wc_nextSub c)) [])"
    by (rule step_public[OF _ n _ r]) (use assms(2) in \<open>auto simp: public_feed_def\<close>)
  then have *: "sub_reachable {''@X''} (at_started f c, hold need (feed_key ''partialDepth'' ''@X'' f) (PendingPublic PartialDepthFeed ''partialDepth'' ''@X'' (wc_nextSub c)) [])"
    using sub_next[OF assms(1)] by simp
  show ?thesis
  proof (cases need)
    case True
    show ?thesis
      by (rule sub_next[OF *, of None])
        (use True step_answered[of "at_started f c" "[]" _ _ "[]"] in \<open>simp_all add: hold_def\<close>)
  qed (use * in \<open>simp add: hold_def\<close>)
qed

text \<open>Unsubscribing the one ends every subscription of the symbol and leaves the other feed active for nobody.\<close>

theorem at_symbol_leaves_feed:
  "\<exists>c g. sub_reachable {''@X''} (c, g) \<and> active_keys c = {''partialDepth:@X@depth10''} \<and> (\<forall>k x. subscribers c k x = [])"
proof -
  define c2 where "c2 = at_started ''depth10'' (at_started ''depth5'' (new_ws_client False False False))"
  have keys: "at_key ''depth5'' = ''partialDepth:@X@depth5''" "at_key ''depth10'' = ''partialDepth:@X@depth10''"
    unfolding at_key_def by code_simp+
  have r: "sub_reachable {''@X''} (c2, [])" using at_reached[OF at_reached[OF sub_init]] by (simp add: c2_def)
  have active: "active_keys c2 = {at_key ''depth5'', at_key ''depth10''}"
    by (auto simp: c2_def at_effect new_ws_client_def) (simp add: active_keys_def)
  obtain l where tables: "wc_tables c2 = newSubTables(PartialDepthFeed := [(''@X'', l)])"
    by (simp add: c2_def at_effect) (auto simp: new_ws_client_def newSubTables_def addMapSub_def subs_of_def)
  obtain c3 waits where u: "unregister_public PartialDepthFeed ''partialDepth'' ''depth5'' ''@X'' c2 = Inr (Some (c3, waits))"
    and c3: "wc_tables c3 = newSubTables(PartialDepthFeed := [])" "wc_activeFeeds c3 = AList.delete (at_key ''depth5'') (wc_activeFeeds c2)"
    by (simp add: unregister_public_def Let_def at_valid tables removeMapSub_def close_subs_def at_key_def)
  have a: "active_keys c3 = {''partialDepth:@X@depth10''}" using active by (auto simp: active_keys_def c3 keys_delete keys)
  have s: "\<forall>k x. subscribers c3 k x = []" by (simp add: subscribers_def c3 newSubTables_def subs_of_def)
  have n: "normalizeSymbol ''@x'' = Inr ''@X''" by code_simp
  have "sub_step (Some ''@X'') (c2, []) (c3, hold waits (feed_key ''partialDepth'' ''@X'' ''depth5'') (PendingUnsubscribe PartialDepthFeed) [])"
    by (rule step_unpublic[OF _ n _ u]) (simp_all add: public_feed_def)
  then have "sub_reachable {''@X''} (c3, hold waits (feed_key ''partialDepth'' ''@X'' ''depth5'') (PendingUnsubscribe PartialDepthFeed) [])"
    by (rule sub_next[OF r]) simp
  then show ?thesis using a s by blast
qed

end
