(* ===== verification/OAuth.thy ===== *)
theory OAuth
  imports Auth
begin

text \<open>
  \<open>oauth/oauth.go\<close>: the configuration checks, the PKCE authorization URL, the token requests, the
  loopback callback and the refreshable token source. Times are nanoseconds; a token without an expiry
  (Go's zero time) has none. Parsing and printing URLs and queries, the test for a loopback address, the digest, the
  random bytes, the clock and the network are arguments. The token source is split where the code
  leaves \<open>s.mu\<close>.
\<close>

section \<open>Data\<close>

datatype oauth_sentinel =
    ErrInvalidConfig | ErrInvalidRedirectURL | ErrInvalidPKCE | ErrStateMismatch | ErrBrowserOpenerRequired
  | ErrRedirectNotAllowed | ErrInvalidToken | ErrRefreshTokenUnavailable | ErrTokenRefresh | ErrTokenUpdate
  | ErrTokenEndpoint

datatype oauth_error =
    OSent oauth_sentinel
  | OWrap oauth_sentinel string
  | ORefresh oauth_error
  | OUpdate string
  | OEndpoint int string string
  | ODenied string string
  | OOther string

record oauth_config =
  oc_ClientID :: string
  oc_ClientSecret :: string
  oc_AuthURL :: string
  oc_TokenURL :: string
  oc_RedirectURL :: string
  oc_Scopes :: "string list"

record oauth_token =
  ot_AccessToken :: string
  ot_RefreshToken :: string
  ot_TokenType :: string
  ot_ExpiresAt :: "int option"
  ot_Scope :: string

record oauth_url = url +
  ou_RawQuery :: string
  ou_Fragment :: string

record oauth_env =
  oe_parse :: "string \<Rightarrow> oauth_url option"
  oe_print :: "oauth_url \<Rightarrow> string"
  oe_loopback :: "string \<Rightarrow> bool"
  oe_sha256 :: "string \<Rightarrow> string"
  oe_query :: "string \<Rightarrow> (string \<times> string) list"

definition defaultEarlyExpiry :: int where "defaultEarlyExpiry = 30000000000"
definition maxTokenResponseBytes :: nat where "maxTokenResponseBytes = 65536"

text \<open>The printed form of a token; \<open>quote\<close> is the verb \<open>%q\<close> and \<open>time\<close> the RFC 3339 format.\<close>

definition secretPresence :: "string \<Rightarrow> string" where
  "secretPresence value = (if TrimSpace value = [] then ''<unset>'' else ''<redacted>'')"

definition Token_String :: "(string \<Rightarrow> string) \<Rightarrow> (int option \<Rightarrow> string) \<Rightarrow> oauth_token \<Rightarrow> string" where
  "Token_String quote time t =
     ''oauth.Token{AccessToken:'' @ secretPresence (ot_AccessToken t) @ '', RefreshToken:'' @
     secretPresence (ot_RefreshToken t) @ '', TokenType:'' @ quote (ot_TokenType t) @ '', ExpiresAt:'' @
     time (ot_ExpiresAt t) @ '', Scope:'' @ quote (ot_Scope t) @ ''}''"

definition Config_String :: "(string \<Rightarrow> string) \<Rightarrow> bool \<Rightarrow> oauth_config \<Rightarrow> string" where
  "Config_String quote client c =
     ''oauth.Config{ClientID:'' @ quote (oc_ClientID c) @ '', ClientSecret:'' @ secretPresence (oc_ClientSecret c) @
     '', Endpoint:{AuthURL:'' @ quote (oc_AuthURL c) @ '', TokenURL:'' @ quote (oc_TokenURL c) @ ''}, RedirectURL:'' @
     quote (oc_RedirectURL c) @ '', Scopes:'' @ quote (join '','' (oc_Scopes c)) @ '', HTTPClientConfigured:'' @
     (if client then ''true'' else ''false'') @ ''}''"

definition Valid :: "oauth_token \<Rightarrow> int \<Rightarrow> int \<Rightarrow> bool" where
  "Valid t now earlyExpiry \<longleftrightarrow>
     TrimSpace (ot_AccessToken t) \<noteq> [] \<and>
     (case ot_ExpiresAt t of None \<Rightarrow> True | Some e \<Rightarrow> now + earlyExpiry < e)"

section \<open>Checks\<close>

definition validateHTTPSURL :: "oauth_env \<Rightarrow> string \<Rightarrow> string \<Rightarrow> oauth_error option" where
  "validateHTTPSURL env raw name =
     (let bad = Some (OWrap ErrInvalidConfig (name @ '' must be an HTTPS URL without userinfo, query, or fragment''))
      in case oe_parse env (TrimSpace raw) of
           None \<Rightarrow> bad
         | Some u \<Rightarrow>
             if url_host u = [] \<or> \<not> EqualFold (url_scheme u) ''https'' \<or> url_user u \<noteq> None \<or> ou_RawQuery u \<noteq> [] \<or>
                ou_Fragment u \<noteq> []
             then bad else None)"

definition validAccessToken :: "string \<Rightarrow> bool" where
  "validAccessToken value = (if TrimSpace value = [] then False else list_all token_char value)"

text \<open>\<open>URL.Hostname\<close> and \<open>URL.Port\<close> of \<open>net/url\<close>.\<close>

definition split_host_port :: "string \<Rightarrow> string \<times> string" where
  "split_host_port hostPort =
     (let after = rev (takeWhile (\<lambda>c. c \<noteq> CHR '':'') (rev hostPort));
          colon = CHR '':'' \<in> set hostPort;
          (host, port) =
            (if colon \<and> list_all is_digit after
             then (take (length hostPort - length after - 1) hostPort, after) else (hostPort, []))
      in if has_prefix host ''['' \<and> host \<noteq> [] \<and> last host = CHR '']''
         then (butlast (tl host), port) else (host, port))"

definition Hostname :: "oauth_url \<Rightarrow> string" where "Hostname u = fst (split_host_port (url_host u))"
definition Port :: "oauth_url \<Rightarrow> string" where "Port u = snd (split_host_port (url_host u))"

definition isLoopbackHost :: "oauth_env \<Rightarrow> string \<Rightarrow> bool" where
  "isLoopbackHost env host \<longleftrightarrow> EqualFold host ''localhost'' \<or> oe_loopback env host"

definition validateRedirectURL :: "oauth_env \<Rightarrow> string \<Rightarrow> oauth_error option" where
  "validateRedirectURL env raw =
     (case oe_parse env (TrimSpace raw) of
        None \<Rightarrow> Some (OWrap ErrInvalidRedirectURL ''redirect URL must be absolute and cannot contain userinfo, query, or fragment'')
      | Some u \<Rightarrow>
          if url_host u = [] \<or> url_user u \<noteq> None \<or> ou_RawQuery u \<noteq> [] \<or> ou_Fragment u \<noteq> [] \<or> url_path u = []
          then Some (OWrap ErrInvalidRedirectURL ''redirect URL must be absolute and cannot contain userinfo, query, or fragment'')
          else if \<not> EqualFold (url_scheme u) ''https'' \<and> \<not> EqualFold (url_scheme u) ''http''
          then Some (OWrap ErrInvalidRedirectURL ''redirect URL must use HTTPS or loopback HTTP'')
          else if EqualFold (url_scheme u) ''http'' \<and> \<not> isLoopbackHost env (Hostname u)
          then Some (OWrap ErrInvalidRedirectURL ''HTTP redirects are allowed only on loopback hosts'')
          else None)"

definition validateLoopbackRedirect :: "oauth_env \<Rightarrow> string \<Rightarrow> oauth_error option" where
  "validateLoopbackRedirect env raw =
     (case validateRedirectURL env raw of
        Some e \<Rightarrow> Some e
      | None \<Rightarrow>
          (case oe_parse env (TrimSpace raw) of
             None \<Rightarrow> None
           | Some u \<Rightarrow>
               if \<not> EqualFold (url_scheme u) ''http'' \<or> \<not> isLoopbackHost env (Hostname u) \<or> Port u = [] \<or> Port u = ''0''
               then Some (OWrap ErrInvalidRedirectURL ''Login requires a fixed HTTP loopback redirect port'')
               else None))"

fun normalizedScopesChecked :: "string list \<Rightarrow> oauth_error + string list" where
  "normalizedScopesChecked [] = Inr []"
| "normalizedScopesChecked (raw # scopes) =
     (let scope = TrimSpace raw
      in if scope = [] \<or> list_ex (\<lambda>c. c \<in> {CHR '' '', CHR 0x09, CHR 0x0D, CHR 0x0A}) scope
         then Inl (OWrap ErrInvalidConfig ''scopes must be non-empty single values'')
         else case normalizedScopesChecked scopes of Inl e \<Rightarrow> Inl e | Inr r \<Rightarrow> Inr (scope # r))"

definition normalizedScopes :: "string list \<Rightarrow> string" where
  "normalizedScopes scopes = join '','' (case normalizedScopesChecked scopes of Inl _ \<Rightarrow> [] | Inr r \<Rightarrow> r)"

definition validateState :: "string \<Rightarrow> oauth_error option" where
  "validateState state =
     (if TrimSpace state = [] \<or> list_ex (\<lambda>c. c \<in> {CHR 0x0D, CHR 0x0A}) state
      then Some (OWrap ErrInvalidPKCE ''state is required'') else None)"

definition verifier_char :: "char \<Rightarrow> bool" where
  "verifier_char c \<longleftrightarrow>
     (let n = of_char c :: nat
      in (65 \<le> n \<and> n \<le> 90) \<or> (97 \<le> n \<and> n \<le> 122) \<or> (48 \<le> n \<and> n \<le> 57) \<or> c \<in> set ''-._~'')"

definition validateVerifier :: "string \<Rightarrow> oauth_error option" where
  "validateVerifier verifier =
     (if length verifier < 43 \<or> 128 < length verifier \<or>
         list_ex (\<lambda>c. c \<in> {CHR '' '', CHR 0x09, CHR 0x0D, CHR 0x0A}) verifier
      then Some (OWrap ErrInvalidPKCE ''verifier must be 43 to 128 characters'')
      else if \<not> list_all verifier_char verifier
      then Some (OWrap ErrInvalidPKCE ''verifier contains an invalid character'') else None)"

definition validateTokenRequest :: "oauth_env \<Rightarrow> oauth_config \<Rightarrow> oauth_error option" where
  "validateTokenRequest env c =
     (if TrimSpace (oc_ClientID c) = [] then Some (OWrap ErrInvalidConfig ''client ID is required'')
      else validateHTTPSURL env (oc_TokenURL c) ''token endpoint'')"

definition validate_config :: "oauth_env \<Rightarrow> oauth_config \<Rightarrow> oauth_error option" where
  "validate_config env c =
     (case validateTokenRequest env c of
        Some e \<Rightarrow> Some e
      | None \<Rightarrow>
          (case validateHTTPSURL env (oc_AuthURL c) ''authorization endpoint'' of
             Some e \<Rightarrow> Some e
           | None \<Rightarrow>
               (case validateRedirectURL env (oc_RedirectURL c) of
                  Some e \<Rightarrow> Some e
                | None \<Rightarrow> (case normalizedScopesChecked (oc_Scopes c) of Inl e \<Rightarrow> Some e | Inr _ \<Rightarrow> None))))"

definition secureStringEqual :: "string \<Rightarrow> string \<Rightarrow> bool" where
  "secureStringEqual left right = (if length left \<noteq> length right then False else list_all2 (=) left right)"

section \<open>Requests\<close>

text \<open>\<open>base64.RawURLEncoding\<close>.\<close>

definition url_char :: "char \<Rightarrow> char" where
  "url_char c = (if c = CHR ''+'' then CHR ''-'' else if c = CHR ''/'' then CHR ''_'' else c)"

definition RawURLEncoding :: "string \<Rightarrow> string" where
  "RawURLEncoding s = map url_char (filter (\<lambda>c. c \<noteq> CHR ''='') (b64_encode s))"

definition pkceChallenge :: "oauth_env \<Rightarrow> string \<Rightarrow> string" where
  "pkceChallenge env verifier = RawURLEncoding (oe_sha256 env verifier)"

definition GeneratePKCE :: "oauth_env \<Rightarrow> string option \<Rightarrow> oauth_error + string \<times> string" where
  "GeneratePKCE env raw =
     (case raw of
        None \<Rightarrow> Inl (OOther ''generate PKCE verifier'')
      | Some bytes \<Rightarrow> let verifier = RawURLEncoding bytes in Inr (verifier, pkceChallenge env verifier))"

definition GenerateState :: "string option \<Rightarrow> oauth_error + string" where
  "GenerateState raw =
     (case raw of None \<Rightarrow> Inl (OOther ''generate OAuth state'') | Some bytes \<Rightarrow> Inr (RawURLEncoding bytes))"

text \<open>\<open>url.QueryEscape\<close> and \<open>url.Values.Encode\<close>: the pairs sorted by key.\<close>

definition query_plain :: "char \<Rightarrow> bool" where
  "query_plain c \<longleftrightarrow>
     (let n = of_char c :: nat
      in (65 \<le> n \<and> n \<le> 90) \<or> (97 \<le> n \<and> n \<le> 122) \<or> (48 \<le> n \<and> n \<le> 57) \<or> c \<in> set ''-_.~'')"

definition QueryEscape :: "string \<Rightarrow> string" where
  "QueryEscape s =
     concat (map (\<lambda>c. if query_plain c then [c] else if c = CHR '' '' then ''+''
                      else CHR ''%'' # map to_upper_char (hex_encode [c])) s)"

definition Values_Encode :: "(string \<times> string) list \<Rightarrow> string" where
  "Values_Encode form =
     join ''&'' (map (\<lambda>(k, v). QueryEscape k @ ''='' @ QueryEscape v) (sort_by cmp_keys form))"

definition Values_Set :: "string \<Rightarrow> string \<Rightarrow> (string \<times> string) list \<Rightarrow> (string \<times> string) list" where
  "Values_Set k v form = filter (\<lambda>p. fst p \<noteq> k) form @ [(k, v)]"

definition auth_params :: "oauth_env \<Rightarrow> oauth_config \<Rightarrow> (string \<times> string) list \<Rightarrow> string \<Rightarrow> string \<Rightarrow> (string \<times> string) list" where
  "auth_params env c query state verifier =
     (let params = Values_Set ''code_challenge_method'' ''S256'' (Values_Set ''code_challenge'' (pkceChallenge env verifier)
            (Values_Set ''state'' state (Values_Set ''redirect_uri'' (oc_RedirectURL c)
              (Values_Set ''response_type'' ''code'' (Values_Set ''client_id'' (oc_ClientID c) query)))));
          scope = normalizedScopes (oc_Scopes c)
      in if scope \<noteq> [] then Values_Set ''scope'' scope params else params)"

definition AuthCodeURL :: "oauth_env \<Rightarrow> oauth_config \<Rightarrow> string \<Rightarrow> string \<Rightarrow> oauth_error + string" where
  "AuthCodeURL env c state verifier =
     (case validate_config env c of
        Some e \<Rightarrow> Inl e
      | None \<Rightarrow>
          (case validateState state of
             Some e \<Rightarrow> Inl e
           | None \<Rightarrow>
               (case validateVerifier verifier of
                  Some e \<Rightarrow> Inl e
                | None \<Rightarrow>
                    (case oe_parse env (oc_AuthURL c) of
                       None \<Rightarrow> Inl (OOther ''parse authorization endpoint'')
                     | Some u \<Rightarrow>
                         Inr (oe_print env (u\<lparr>ou_RawQuery := Values_Encode (auth_params env c (oe_query env (ou_RawQuery u)) state verifier)\<rparr>))))))"

text \<open>The decoded body of a token response, with the flag that it decoded without an error.\<close>

record token_response =
  tr_AccessToken :: string
  tr_RefreshToken :: string
  tr_TokenType :: string
  tr_ExpiresIn :: "int option"
  tr_Scope :: string
  tr_Error :: string
  tr_Description :: string

definition put_text :: "(string \<Rightarrow> token_response \<Rightarrow> token_response) \<Rightarrow> json \<Rightarrow> token_response \<times> bool \<Rightarrow> token_response \<times> bool" where
  "put_text put v acc =
     (case v of JNull \<Rightarrow> acc | JStr s \<Rightarrow> (put s (fst acc), snd acc) | _ \<Rightarrow> (fst acc, False))"

definition set_token_field :: "token_response \<times> bool \<Rightarrow> string \<times> json \<Rightarrow> token_response \<times> bool" where
  "set_token_field acc m =
     (case m of (k, v) \<Rightarrow>
        if field_matches ''access_token'' k then put_text (\<lambda>s t. t\<lparr>tr_AccessToken := s\<rparr>) v acc
        else if field_matches ''refresh_token'' k then put_text (\<lambda>s t. t\<lparr>tr_RefreshToken := s\<rparr>) v acc
        else if field_matches ''token_type'' k then put_text (\<lambda>s t. t\<lparr>tr_TokenType := s\<rparr>) v acc
        else if field_matches ''expires_in'' k then
          (case v of
             JNull \<Rightarrow> ((fst acc)\<lparr>tr_ExpiresIn := None\<rparr>, snd acc)
           | JNum t \<Rightarrow>
               (case ParseInt 64 t of
                  Some n \<Rightarrow> ((fst acc)\<lparr>tr_ExpiresIn := Some n\<rparr>, snd acc)
                | None \<Rightarrow> ((fst acc)\<lparr>tr_ExpiresIn := Some (case tr_ExpiresIn (fst acc) of Some n \<Rightarrow> n | None \<Rightarrow> 0)\<rparr>, False))
           | _ \<Rightarrow> ((fst acc)\<lparr>tr_ExpiresIn := Some (case tr_ExpiresIn (fst acc) of Some n \<Rightarrow> n | None \<Rightarrow> 0)\<rparr>, False))
        else if field_matches ''scope'' k then put_text (\<lambda>s t. t\<lparr>tr_Scope := s\<rparr>) v acc
        else if field_matches ''error'' k then put_text (\<lambda>s t. t\<lparr>tr_Error := s\<rparr>) v acc
        else if field_matches ''error_description'' k then put_text (\<lambda>s t. t\<lparr>tr_Description := s\<rparr>) v acc
        else acc)"

definition decode_token_response :: "string \<Rightarrow> token_response \<times> bool" where
  "decode_token_response body =
     (let zero = \<lparr>tr_AccessToken = [], tr_RefreshToken = [], tr_TokenType = [], tr_ExpiresIn = None, tr_Scope = [],
                  tr_Error = [], tr_Description = []\<rparr>
      in case parse_json body of
           Some (JObj ms) \<Rightarrow> foldl set_token_field (zero, True) ms
         | Some JNull \<Rightarrow> (zero, True)
         | _ \<Rightarrow> (zero, False))"

definition maxExpirySeconds :: int where "maxExpirySeconds = 9223372036"

definition token_of_response :: "int \<Rightarrow> int \<Rightarrow> string \<Rightarrow> oauth_error + oauth_token" where
  "token_of_response now status body =
     (if maxTokenResponseBytes < length body then Inl (OWrap ErrInvalidToken ''token response exceeds 65536 bytes'')
      else case decode_token_response body of (r, decoded) \<Rightarrow>
        if status < 200 \<or> 300 \<le> status \<or> tr_Error r \<noteq> [] then Inl (OEndpoint status (tr_Error r) (tr_Description r))
        else if \<not> decoded then Inl (OWrap ErrInvalidToken ''decode token response'')
        else if \<not> validAccessToken (tr_AccessToken r) then Inl (OWrap ErrInvalidToken ''token response has no usable access token'')
        else if (case tr_ExpiresIn r of Some n \<Rightarrow> n < 0 | None \<Rightarrow> False) then Inl (OWrap ErrInvalidToken ''token expiry is negative'')
        else if \<not> EqualFold (if tr_TokenType r = [] then ''Bearer'' else tr_TokenType r) ''Bearer''
        then Inl (OWrap ErrInvalidToken ''unsupported token type'')
        else
          let token = \<lparr>ot_AccessToken = tr_AccessToken r, ot_RefreshToken = tr_RefreshToken r, ot_TokenType = ''Bearer'',
                       ot_ExpiresAt = None, ot_Scope = tr_Scope r\<rparr>
          in case tr_ExpiresIn r of
               None \<Rightarrow> Inr token
             | Some n \<Rightarrow>
                 if maxExpirySeconds < n then Inl (OWrap ErrInvalidToken ''token expiry is too large'')
                 else Inr (token\<lparr>ot_ExpiresAt := Some (now + n * 1000000000)\<rparr>))"

text \<open>The network answers the encoded form with an error or with a status and the first bytes of the body;
  redirects are refused by the client.\<close>

type_synonym token_endpoint = "string \<Rightarrow> string \<Rightarrow> oauth_error + int \<times> string"

definition tokenRequest :: "token_endpoint \<Rightarrow> int \<Rightarrow> oauth_config \<Rightarrow> (string \<times> string) list \<Rightarrow> oauth_error + oauth_token" where
  "tokenRequest endpoint now c form =
     (case endpoint (oc_TokenURL c) (Values_Encode form) of
        Inl e \<Rightarrow> Inl e
      | Inr (status, body) \<Rightarrow> token_of_response now status (take (Suc maxTokenResponseBytes) body))"

definition with_secret :: "oauth_config \<Rightarrow> (string \<times> string) list \<Rightarrow> (string \<times> string) list" where
  "with_secret c form = form @ (if oc_ClientSecret c \<noteq> [] then [(''client_secret'', oc_ClientSecret c)] else [])"

definition Exchange ::
  "oauth_env \<Rightarrow> token_endpoint \<Rightarrow> int \<Rightarrow> oauth_config \<Rightarrow> string \<Rightarrow> string \<Rightarrow> oauth_error + oauth_token" where
  "Exchange env endpoint now c code verifier =
     (case validate_config env c of
        Some e \<Rightarrow> Inl e
      | None \<Rightarrow>
          if TrimSpace code = [] then Inl (OWrap ErrInvalidPKCE ''authorization code is required'')
          else case validateVerifier verifier of
            Some e \<Rightarrow> Inl e
          | None \<Rightarrow>
              tokenRequest endpoint now c (with_secret c
                [(''grant_type'', ''authorization_code''), (''client_id'', oc_ClientID c), (''code'', code),
                 (''redirect_uri'', oc_RedirectURL c), (''code_verifier'', verifier)]))"

definition Refresh :: "oauth_env \<Rightarrow> token_endpoint \<Rightarrow> int \<Rightarrow> oauth_config \<Rightarrow> string \<Rightarrow> oauth_error + oauth_token" where
  "Refresh env endpoint now c refreshToken =
     (case validateTokenRequest env c of
        Some e \<Rightarrow> Inl e
      | None \<Rightarrow>
          if TrimSpace refreshToken = [] then Inl (OSent ErrRefreshTokenUnavailable)
          else tokenRequest endpoint now c (with_secret c
            [(''grant_type'', ''refresh_token''), (''client_id'', oc_ClientID c), (''refresh_token'', refreshToken)]))"

section \<open>Authorization\<close>

definition Authorize ::
  "oauth_env \<Rightarrow> token_endpoint \<Rightarrow> int \<Rightarrow> string option \<Rightarrow> string option \<Rightarrow>
   (string \<Rightarrow> oauth_error + string \<times> string) option \<Rightarrow> oauth_config \<Rightarrow> oauth_error + oauth_token" where
  "Authorize env endpoint now raw1 raw2 handler c =
     (case handler of
        None \<Rightarrow> Inl (OSent ErrBrowserOpenerRequired)
      | Some consent \<Rightarrow>
          (case validate_config env c of
             Some e \<Rightarrow> Inl e
           | None \<Rightarrow>
               (case GeneratePKCE env raw1 of
                  Inl e \<Rightarrow> Inl e
                | Inr (verifier, _) \<Rightarrow>
                    (case GenerateState raw2 of
                       Inl e \<Rightarrow> Inl e
                     | Inr state \<Rightarrow>
                         (case AuthCodeURL env c state verifier of
                            Inl e \<Rightarrow> Inl e
                          | Inr authURL \<Rightarrow>
                              (case consent authURL of
                                 Inl e \<Rightarrow> Inl e
                               | Inr (code, returnedState) \<Rightarrow>
                                   if \<not> secureStringEqual state returnedState then Inl (OSent ErrStateMismatch)
                                   else Exchange env endpoint now c code verifier))))))"

text \<open>The handler of the loopback server: a request with the first values of its query, the flag whether a
  result was delivered, the delivered result and the HTTP status of the answer.\<close>

record callback_request =
  cb_URILength :: nat
  cb_Method :: string
  cb_State :: string
  cb_Error :: string
  cb_Description :: string
  cb_Code :: string

type_synonym callback_result = "oauth_error + string \<times> string"

definition callback_handler :: "string \<Rightarrow> bool \<Rightarrow> callback_request \<Rightarrow> bool \<times> callback_result option \<times> int" where
  "callback_handler expectedState delivered r =
     (if 8192 < cb_URILength r then (delivered, None, 414)
      else if cb_Method r \<noteq> ''GET'' then (delivered, None, 405)
      else if \<not> secureStringEqual expectedState (cb_State r) then (delivered, None, 400)
      else if cb_Error r \<noteq> [] then
        (True, if delivered then None else Some (Inl (ODenied (cb_Error r) (cb_Description r))), 200)
      else if cb_Code r = [] then (delivered, None, 400)
      else (True, if delivered then None else Some (Inr (cb_Code r, cb_State r)), 200))"

fun callback_serve :: "string \<Rightarrow> bool \<Rightarrow> callback_request list \<Rightarrow> callback_result list" where
  "callback_serve expectedState delivered [] = []"
| "callback_serve expectedState delivered (r # rs) =
     (case callback_handler expectedState delivered r of
        (d, None, _) \<Rightarrow> callback_serve expectedState d rs
      | (d, Some result, _) \<Rightarrow> result # callback_serve expectedState d rs)"

text \<open>\<open>Login\<close>: the callback's requests come as a function of the opened URL, \<open>state_of\<close> reads its state
  parameter, \<open>listen\<close> is the outcome of binding the loopback address; without a result the wait ends with
  \<open>stopped\<close>.\<close>

definition loopbackCallback ::
  "oauth_error option \<Rightarrow> (string \<Rightarrow> string) \<Rightarrow> (string \<Rightarrow> oauth_error option) \<Rightarrow> (string \<Rightarrow> callback_request list) \<Rightarrow>
   oauth_error \<Rightarrow> string \<Rightarrow> callback_result" where
  "loopbackCallback listen state_of openBrowser requests stopped authURL =
     (case validateState (state_of authURL) of
        Some e \<Rightarrow> Inl e
      | None \<Rightarrow>
          (case listen of
             Some e \<Rightarrow> Inl e
           | None \<Rightarrow>
               (case openBrowser authURL of
                  Some e \<Rightarrow> Inl e
                | None \<Rightarrow>
                    (case callback_serve (state_of authURL) False (requests authURL) of
                       [] \<Rightarrow> Inl stopped
                     | result # _ \<Rightarrow> result))))"

definition Login ::
  "oauth_env \<Rightarrow> token_endpoint \<Rightarrow> int \<Rightarrow> string option \<Rightarrow> string option \<Rightarrow> oauth_error option \<Rightarrow> (string \<Rightarrow> string) \<Rightarrow>
   (string \<Rightarrow> oauth_error option) option \<Rightarrow> (string \<Rightarrow> callback_request list) \<Rightarrow> oauth_error \<Rightarrow> oauth_config \<Rightarrow>
   oauth_error + oauth_token" where
  "Login env endpoint now raw1 raw2 listen state_of openBrowser requests stopped c =
     (case openBrowser of
        None \<Rightarrow> Inl (OSent ErrBrowserOpenerRequired)
      | Some opener \<Rightarrow>
          (case validateLoopbackRedirect env (oc_RedirectURL c) of
             Some e \<Rightarrow> Inl e
           | None \<Rightarrow>
               Authorize env endpoint now raw1 raw2 (Some (loopbackCallback listen state_of opener requests stopped)) c))"

section \<open>The token source\<close>

record oauth_source =
  os_config :: oauth_config
  os_early :: int
  os_hasUpdate :: bool
  os_token :: oauth_token
  os_refreshing :: "nat option"
  os_next :: nat
  os_outcomes :: "(nat \<times> (oauth_error + string)) list"

datatype source_option = WithTokenUpdate bool | WithEarlyExpiry int | WithClock bool

fun apply_source_option :: "source_option \<Rightarrow> oauth_source \<Rightarrow> oauth_error + oauth_source" where
  "apply_source_option (WithTokenUpdate given) s = Inr (s\<lparr>os_hasUpdate := given\<rparr>)"
| "apply_source_option (WithEarlyExpiry d) s =
     (if d < 0 then Inl (OWrap ErrInvalidConfig ''early expiry cannot be negative'') else Inr (s\<lparr>os_early := d\<rparr>))"
| "apply_source_option (WithClock given) s =
     (if \<not> given then Inl (OWrap ErrInvalidConfig ''clock cannot be nil'') else Inr s)"

fun apply_source_options :: "source_option option list \<Rightarrow> oauth_source \<Rightarrow> oauth_error + oauth_source" where
  "apply_source_options [] s = Inr s"
| "apply_source_options (None # opts) s = apply_source_options opts s"
| "apply_source_options (Some opt # opts) s =
     (case apply_source_option opt s of Inl e \<Rightarrow> Inl e | Inr s' \<Rightarrow> apply_source_options opts s')"

definition NewTokenSource ::
  "oauth_env \<Rightarrow> oauth_config \<Rightarrow> oauth_token \<Rightarrow> source_option option list \<Rightarrow> oauth_error + oauth_source" where
  "NewTokenSource env config initial opts =
     (case validateTokenRequest env config of
        Some e \<Rightarrow> Inl e
      | None \<Rightarrow>
          if TrimSpace (ot_AccessToken initial) = [] \<and> TrimSpace (ot_RefreshToken initial) = [] then Inl (OSent ErrInvalidToken)
          else if TrimSpace (ot_AccessToken initial) \<noteq> [] \<and> \<not> validAccessToken (ot_AccessToken initial)
          then Inl (OWrap ErrInvalidToken ''access token contains invalid characters'')
          else
            let token = (if ot_TokenType initial = [] then initial\<lparr>ot_TokenType := ''Bearer''\<rparr> else initial)
            in if \<not> EqualFold (ot_TokenType token) ''Bearer'' then Inl (OWrap ErrInvalidToken ''unsupported token type'')
               else apply_source_options opts
                 \<lparr>os_config = config, os_early = defaultEarlyExpiry, os_hasUpdate = False, os_token = token,
                  os_refreshing = None, os_next = 0, os_outcomes = []\<rparr>)"

text \<open>The first critical section of \<open>Token\<close>: an answer, a wait for the refresh under way, or a new refresh
  with the refresh token it uses.\<close>

datatype token_action = TokenReturn "oauth_error + string" | TokenWait nat | TokenRefresh nat string

definition Token_begin :: "int \<Rightarrow> oauth_source \<Rightarrow> token_action \<times> oauth_source" where
  "Token_begin now s =
     (if Valid (os_token s) now (os_early s) then (TokenReturn (Inr (ot_AccessToken (os_token s))), s)
      else if TrimSpace (ot_RefreshToken (os_token s)) = [] then (TokenReturn (Inl (OSent ErrRefreshTokenUnavailable)), s)
      else case os_refreshing s of
        Some n \<Rightarrow> (TokenWait n, s)
      | None \<Rightarrow>
          (TokenRefresh (os_next s) (ot_RefreshToken (os_token s)),
           s\<lparr>os_refreshing := Some (os_next s), os_next := Suc (os_next s)\<rparr>))"

definition fill_refreshed :: "string \<Rightarrow> oauth_token \<Rightarrow> oauth_token" where
  "fill_refreshed refreshToken t =
     (let t1 = (if ot_RefreshToken t = [] then t\<lparr>ot_RefreshToken := refreshToken\<rparr> else t)
      in if ot_TokenType t1 = [] then t1\<lparr>ot_TokenType := ''Bearer''\<rparr> else t1)"

text \<open>Between the sections: the refresh and the application's callback, whose answer is \<open>update\<close>.\<close>

definition refreshed_token ::
  "oauth_env \<Rightarrow> token_endpoint \<Rightarrow> int \<Rightarrow> (oauth_token \<Rightarrow> string option) \<Rightarrow> string \<Rightarrow> oauth_source \<Rightarrow> oauth_error + oauth_token" where
  "refreshed_token env endpoint now update refreshToken s =
     (case Refresh env endpoint now (os_config s) refreshToken of
        Inl e \<Rightarrow> Inl e
      | Inr t \<Rightarrow>
          let filled = fill_refreshed refreshToken t
          in if os_hasUpdate s then (case update filled of Some cause \<Rightarrow> Inl (OUpdate cause) | None \<Rightarrow> Inr filled)
             else Inr filled)"

text \<open>The last section of a refresh, and what a waiter gets once it is done.\<close>

definition Token_finish :: "nat \<Rightarrow> oauth_error + oauth_token \<Rightarrow> oauth_source \<Rightarrow> oauth_source" where
  "Token_finish n result s =
     (case result of
        Inr t \<Rightarrow> s\<lparr>os_token := t, os_refreshing := None, os_outcomes := (n, Inr (ot_AccessToken t)) # os_outcomes s\<rparr>
      | Inl e \<Rightarrow> s\<lparr>os_refreshing := None, os_outcomes := (n, Inl e) # os_outcomes s\<rparr>)"

definition Token_wait :: "nat \<Rightarrow> oauth_source \<Rightarrow> (oauth_error + string) option" where
  "Token_wait n s =
     (case map_of (os_outcomes s) n of
        None \<Rightarrow> None
      | Some (Inl e) \<Rightarrow> Some (Inl (ORefresh e))
      | Some (Inr token) \<Rightarrow> Some (Inr token))"

end
