(* ===== verification/OAuthSpec.thy ===== *)
theory OAuthSpec
  imports OAuth "HOL-Library.Multiset"
begin

text \<open>
  What the OAuth helpers promise: a token source refreshes once at a time whatever its callers do, a
  token that is handed out is one the bearer strategy accepts, \<open>Login\<close> exchanges only the code of a
  callback that carried its own state, and printing never shows a secret.
\<close>

section \<open>The token source under concurrency\<close>

text \<open>The goroutines of a source: callers that wait for a refresh, and the refresh, asking the endpoint
  with a refresh token or about to publish its result.\<close>

datatype source_routine =
    Awaiting nat
  | Refreshing nat string
  | Finishing nat "oauth_error + oauth_token"

type_synonym source_config = "oauth_source \<times> source_routine multiset"

fun refreshes :: "source_routine \<Rightarrow> nat option" where
  "refreshes (Awaiting n) = None"
| "refreshes (Refreshing n tok) = Some n"
| "refreshes (Finishing n r) = Some n"

inductive source_step :: "source_config \<Rightarrow> source_config \<Rightarrow> bool" where
  ask_wait: "Token_begin now s = (TokenWait n, s') \<Longrightarrow> source_step (s, ts) (s', add_mset (Awaiting n) ts)"
| ask_refresh: "Token_begin now s = (TokenRefresh n tok, s') \<Longrightarrow>
    source_step (s, ts) (s', add_mset (Awaiting n) (add_mset (Refreshing n tok) ts))"
| refreshed: "source_step (s, add_mset (Refreshing n tok) ts)
    (s, add_mset (Finishing n (refreshed_token env endpoint now update tok s)) ts)"
| finish: "source_step (s, add_mset (Finishing n r) ts) (Token_finish n r s, ts)"
| got: "Token_wait n s = Some r \<Longrightarrow> source_step (s, add_mset (Awaiting n) ts) (s, ts)"
| cancelled: "source_step (s, add_mset (Awaiting n) ts) (s, ts)"

inductive source_reachable :: "source_config \<Rightarrow> bool" where
  source_init: "NewTokenSource env config initial opts = Inr s \<Longrightarrow> source_reachable (s, {#})"
| source_next: "source_reachable cfg \<Longrightarrow> source_step cfg cfg' \<Longrightarrow> source_reachable cfg'"

definition token_ok :: "oauth_token \<Rightarrow> bool" where
  "token_ok t \<longleftrightarrow> TrimSpace (ot_AccessToken t) = [] \<or> validAccessToken (ot_AccessToken t)"

fun routine_fits :: "oauth_source \<Rightarrow> source_routine \<Rightarrow> bool" where
  "routine_fits s (Awaiting n) = (os_refreshing s = Some n \<or> n \<in> fst ` set (os_outcomes s))"
| "routine_fits s (Refreshing n tok) = (os_refreshing s = Some n \<and> tok = ot_RefreshToken (os_token s) \<and> TrimSpace tok \<noteq> [])"
| "routine_fits s (Finishing n r) = (os_refreshing s = Some n \<and>
     (\<forall>t. r = Inr t \<longrightarrow> validAccessToken (ot_AccessToken t) \<and> ot_RefreshToken t \<noteq> []))"

fun source_inv :: "source_config \<Rightarrow> bool" where
  "source_inv (s, ts) \<longleftrightarrow>
     token_ok (os_token s) \<and> (\<forall>t\<in>#ts. routine_fits s t) \<and>
     size (filter_mset (\<lambda>t. refreshes t \<noteq> None) ts) = (if os_refreshing s = None then 0 else 1) \<and>
     (\<forall>(n, r)\<in>set (os_outcomes s). n < os_next s \<and> (\<forall>a. r = Inr a \<longrightarrow> validAccessToken a)) \<and>
     distinct (map fst (os_outcomes s)) \<and>
     (\<forall>n. os_refreshing s = Some n \<longrightarrow> n < os_next s \<and> n \<notin> fst ` set (os_outcomes s))"

lemma apply_options_keep: "apply_source_options opts s = Inr s' \<Longrightarrow>
    os_token s' = os_token s \<and> os_refreshing s' = os_refreshing s \<and> os_outcomes s' = os_outcomes s \<and> os_next s' = os_next s \<and>
    os_config s' = os_config s \<and> (0 \<le> os_early s \<longrightarrow> 0 \<le> os_early s')"
proof (induction opts s rule: apply_source_options.induct)
  case (3 opt opts s)
  then show ?case by (cases opt) (auto split: sum.splits if_splits)
qed auto

lemma new_source_token:
  assumes "NewTokenSource env config initial opts = Inr s"
  shows "token_ok (os_token s)" "os_refreshing s = None" "os_outcomes s = []" "0 \<le> os_early s"
    "validateTokenRequest env (os_config s) = None"
  using assms
  by (auto simp: NewTokenSource_def token_ok_def defaultEarlyExpiry_def Let_def split: option.splits if_splits dest!: apply_options_keep)

lemma source_inv_start: "NewTokenSource env config initial opts = Inr s \<Longrightarrow> source_inv (s, {#})"
  using new_source_token[of env config initial opts s] by simp

lemma guard_Inr: "((if b then Inl e else x) = Inr t) = (\<not> b \<and> x = Inr t)"
  by simp

lemma token_of_response_ok:
  assumes "token_of_response now status body = Inr t"
  shows "validAccessToken (ot_AccessToken t)" "ot_TokenType t = ''Bearer''" "200 \<le> status" "status < 300"
    "length body \<le> maxTokenResponseBytes" "\<forall>e. ot_ExpiresAt t = Some e \<longrightarrow> now \<le> e"
proof -
  obtain r decoded where d: "decode_token_response body = (r, decoded)" by fastforce
  note def = assms[unfolded token_of_response_def d prod.case Let_def]
  note guards = def[unfolded guard_Inr]
  show "length body \<le> maxTokenResponseBytes" "200 \<le> status" "status < 300" using guards by linarith+
  have access: "validAccessToken (tr_AccessToken r)"
    and expiry: "\<not> (case tr_ExpiresIn r of Some n \<Rightarrow> n < 0 | None \<Rightarrow> False)" using guards by blast+
  have token: "t = \<lparr>ot_AccessToken = tr_AccessToken r, ot_RefreshToken = tr_RefreshToken r, ot_TokenType = ''Bearer'',
      ot_ExpiresAt = map_option (\<lambda>n. now + n * 1000000000) (tr_ExpiresIn r), ot_Scope = tr_Scope r\<rparr>"
    using guards[THEN conjunct2, THEN conjunct2, THEN conjunct2, THEN conjunct2, THEN conjunct2, THEN conjunct2]
    by (cases "tr_ExpiresIn r") (auto simp: guard_Inr)
  show "validAccessToken (ot_AccessToken t)" "ot_TokenType t = ''Bearer''" using access by (simp_all add: token)
  show "\<forall>e. ot_ExpiresAt t = Some e \<longrightarrow> now \<le> e" using expiry by (auto simp: token)
qed

lemma tokenRequest_ok:
  assumes "tokenRequest endpoint now c form = Inr t"
  obtains status body where "endpoint (oc_TokenURL c) (Values_Encode form) = Inr (status, body)"
    "token_of_response now status (take (Suc maxTokenResponseBytes) body) = Inr t"
  using assms by (auto simp: tokenRequest_def split: sum.splits)

lemma refresh_ok: "Refresh env endpoint now c tok = Inr t \<Longrightarrow> validAccessToken (ot_AccessToken t) \<and> TrimSpace tok \<noteq> []"
  using token_of_response_ok(1) by (auto simp: Refresh_def elim!: tokenRequest_ok split: option.splits if_splits)

lemma TrimSpace_nonempty: "TrimSpace tok \<noteq> [] \<Longrightarrow> tok \<noteq> []"
  by auto

lemma refreshed_ok:
  assumes "refreshed_token env endpoint now update tok s = Inr t"
  shows "validAccessToken (ot_AccessToken t)" "ot_RefreshToken t \<noteq> []" "os_hasUpdate s \<Longrightarrow> update t = None"
proof -
  obtain u where u: "Refresh env endpoint now (os_config s) tok = Inr u" "t = fill_refreshed tok u"
    "os_hasUpdate s \<longrightarrow> update t = None"
    using assms by (auto simp: refreshed_token_def Let_def split: sum.splits if_splits option.splits)
  then show "os_hasUpdate s \<Longrightarrow> update t = None" by simp
  show "validAccessToken (ot_AccessToken t)" "ot_RefreshToken t \<noteq> []"
    using conjunct1[OF refresh_ok[OF u(1)]] TrimSpace_nonempty[OF conjunct2[OF refresh_ok[OF u(1)]]]
    by (simp_all add: u(2) fill_refreshed_def)
qed

lemma refresher_only:
  assumes "source_inv (s, add_mset t ts)" "refreshes t \<noteq> None"
  shows "\<forall>u\<in>#ts. refreshes u = None"
  using assms by (auto split: if_splits)

lemma source_step_inv:
  assumes "source_step cfg cfg'" "source_inv cfg"
  shows "source_inv cfg'"
  using assms
proof (induction rule: source_step.induct)
  case ask_wait then show ?case by (auto simp: Token_begin_def split: if_splits option.splits)
next
  case (ask_refresh now s n tok s' ts)
  then have s: "os_refreshing s = None" "n = os_next s" "tok = ot_RefreshToken (os_token s)" "TrimSpace tok \<noteq> []"
    "s' = s\<lparr>os_refreshing := Some n, os_next := Suc n\<rparr>"
    by (auto simp: Token_begin_def split: if_splits option.splits)
  have none: "\<forall>u\<in>#ts. refreshes u = None" using ask_refresh.prems s(1) by simp
  have "routine_fits s' u" if "u \<in># ts" for u
  proof -
    have "routine_fits s u" "refreshes u = None" using ask_refresh.prems that none by auto
    then show ?thesis using s(1) by (cases u) (auto simp: s(5))
  qed
  moreover have "n \<notin> fst ` set (os_outcomes s)" using ask_refresh.prems s(2) by auto
  ultimately show ?case using ask_refresh.prems s none by (auto simp: less_Suc_eq)
next
  case (refreshed s n tok ts env endpoint now update)
  then show ?case using refreshed_ok[of env endpoint now update tok s] by auto
next
  case (finish s n r ts)
  then have n: "os_refreshing s = Some n" by simp
  have none: "\<forall>u\<in>#ts. refreshes u = None" by (rule refresher_only[OF finish.prems]) simp
  have f: "os_refreshing (Token_finish n r s) = None" "fst ` set (os_outcomes (Token_finish n r s)) = insert n (fst ` set (os_outcomes s))"
    by (auto simp: Token_finish_def split: sum.splits)
  have "routine_fits (Token_finish n r s) u" if "u \<in># ts" for u
  proof -
    have "routine_fits s u" "refreshes u = None" using finish.prems that none by auto
    then show ?thesis using n f by (cases u) auto
  qed
  moreover have "filter_mset (\<lambda>t. refreshes t \<noteq> None) ts = {#}" using none by simp
  ultimately show ?case
    using finish.prems n by (cases r) (auto simp: Token_finish_def token_ok_def)
qed auto

lemma source_reachable_inv: "source_reachable cfg \<Longrightarrow> source_inv cfg"
  by (induction rule: source_reachable.induct) (auto intro: source_inv_start source_step_inv simp del: source_inv.simps)

lemma access_token_bearer: "validAccessToken = validBearerToken"
  by (simp add: fun_eq_iff validAccessToken_def validBearerToken_def)

text \<open>C8: In every interleaving of callers of a token source there is at most one refresh under way; a
  waiting caller's refresh is that one or has its result; the refresh uses the refresh token in place;
  and every token handed out, from the cache or by a refresh, is one the bearer strategy accepts, the
  cached one only while it is valid.\<close>

theorem oauth_single_flight:
  assumes "source_reachable (s, ts)"
  shows "size (filter_mset (\<lambda>t. refreshes t \<noteq> None) ts) \<le> 1 \<and>
    (\<forall>n. Awaiting n \<in># ts \<longrightarrow> Token_wait n s \<noteq> None \<or>
       os_refreshing s = Some n \<and> (\<exists>t\<in>#ts. refreshes t = Some n)) \<and>
    (\<forall>n tok. Refreshing n tok \<in># ts \<longrightarrow> tok = ot_RefreshToken (os_token s)) \<and>
    (\<forall>n a. Token_wait n s = Some (Inr a) \<longrightarrow> validBearerToken a) \<and>
    (\<forall>now a s'. Token_begin now s = (TokenReturn (Inr a), s') \<longrightarrow>
       validBearerToken a \<and> s' = s \<and> a = ot_AccessToken (os_token s) \<and> Valid (os_token s) now (os_early s))"
proof -
  have inv: "source_inv (s, ts)" by (rule source_reachable_inv[OF assms])
  then have n: "size (filter_mset (\<lambda>t. refreshes t \<noteq> None) ts) = (if os_refreshing s = None then 0 else 1)"
    and fits: "\<forall>t\<in>#ts. routine_fits s t" by simp_all
  have busy: "\<exists>t\<in>#ts. refreshes t = Some n" if "os_refreshing s = Some n" for n
  proof -
    have "size (filter_mset (\<lambda>t. refreshes t \<noteq> None) ts) = 1" using n that by simp
    then have "filter_mset (\<lambda>t. refreshes t \<noteq> None) ts \<noteq> {#}" by (metis size_empty zero_neq_one)
    then obtain t where t: "t \<in># ts" "refreshes t \<noteq> None" by auto
    then have "routine_fits s t" using fits by blast
    then have "refreshes t = Some n" using t(2) that by (cases t) auto
    then show ?thesis using t(1) by blast
  qed
  have wait: "Token_wait n s \<noteq> None \<or> os_refreshing s = Some n" if "Awaiting n \<in># ts" for n
  proof -
    have "os_refreshing s = Some n \<or> n \<in> fst ` set (os_outcomes s)" using fits that by force
    then have "map_of (os_outcomes s) n \<noteq> None \<or> os_refreshing s = Some n" by (metis map_of_eq_None_iff)
    then show ?thesis by (auto simp: Token_wait_def split: option.splits sum.splits)
  qed
  have answer: "validBearerToken a" if "Token_wait n s = Some (Inr a)" for n a
    using inv that map_of_SomeD[of "os_outcomes s" n "Inr a"]
    by (fastforce simp: Token_wait_def access_token_bearer[symmetric] split: option.splits sum.splits)
  have cached: "validBearerToken a \<and> s' = s \<and> a = ot_AccessToken (os_token s) \<and> Valid (os_token s) now (os_early s)"
    if "Token_begin now s = (TokenReturn (Inr a), s')" for now a s'
    using inv that by (auto simp: Token_begin_def Valid_def token_ok_def access_token_bearer[symmetric] split: if_splits option.splits)
  show ?thesis using n fits busy wait answer cached by (fastforce split: if_splits)
qed


section \<open>Exchanged tokens\<close>

lemma secureStringEqual_eq: "secureStringEqual = (=)"
  by (auto simp: fun_eq_iff secureStringEqual_def list.rel_eq)

lemma validate_config_token: "validate_config env c = None \<Longrightarrow> validateTokenRequest env c = None"
  by (simp add: validate_config_def split: option.splits)

definition https_endpoint :: "oauth_env \<Rightarrow> string \<Rightarrow> bool" where
  "https_endpoint env raw \<longleftrightarrow>
     (\<exists>u. oe_parse env (TrimSpace raw) = Some u \<and> url_host u \<noteq> [] \<and> EqualFold (url_scheme u) ''https'' \<and> url_user u = None)"

lemma validateTokenRequest_https: "validateTokenRequest env c = None \<Longrightarrow> https_endpoint env (oc_TokenURL c)"
  by (auto simp: validateTokenRequest_def validateHTTPSURL_def https_endpoint_def Let_def split: if_splits option.splits)

text \<open>A request that ended with a token: what was sent and what came back.\<close>

definition token_from ::
  "oauth_env \<Rightarrow> token_endpoint \<Rightarrow> int \<Rightarrow> oauth_config \<Rightarrow> (string \<times> string) list \<Rightarrow> oauth_token \<Rightarrow> bool" where
  "token_from env endpoint now c form t \<longleftrightarrow>
     https_endpoint env (oc_TokenURL c) \<and>
     (\<exists>status body. endpoint (oc_TokenURL c) (Values_Encode (with_secret c form)) = Inr (status, body) \<and>
        200 \<le> status \<and> status < 300 \<and> length body \<le> maxTokenResponseBytes) \<and>
     validBearerToken (ot_AccessToken t) \<and> ot_TokenType t = ''Bearer'' \<and> (\<forall>e. ot_ExpiresAt t = Some e \<longrightarrow> now \<le> e)"

lemma take_Suc_short: "length (take (Suc n) xs) \<le> n \<Longrightarrow> length xs \<le> n"
  by simp

lemma tokenRequest_from:
  assumes "validateTokenRequest env c = None" "tokenRequest endpoint now c (with_secret c form) = Inr t"
  shows "token_from env endpoint now c form t"
proof -
  obtain status body where e: "endpoint (oc_TokenURL c) (Values_Encode (with_secret c form)) = Inr (status, body)"
    and t: "token_of_response now status (take (Suc maxTokenResponseBytes) body) = Inr t"
    by (rule tokenRequest_ok[OF assms(2)])
  then show ?thesis
    using token_of_response_ok[OF t] take_Suc_short[of maxTokenResponseBytes body] validateTokenRequest_https[OF assms(1)]
    by (simp add: token_from_def access_token_bearer)
qed

definition exchange_form :: "oauth_config \<Rightarrow> string \<Rightarrow> string \<Rightarrow> (string \<times> string) list" where
  "exchange_form c code verifier =
     [(''grant_type'', ''authorization_code''), (''client_id'', oc_ClientID c), (''code'', code),
      (''redirect_uri'', oc_RedirectURL c), (''code_verifier'', verifier)]"

definition refresh_form :: "oauth_config \<Rightarrow> string \<Rightarrow> (string \<times> string) list" where
  "refresh_form c refreshToken =
     [(''grant_type'', ''refresh_token''), (''client_id'', oc_ClientID c), (''refresh_token'', refreshToken)]"

lemma exchange_token_from:
  assumes "Exchange env endpoint now c code verifier = Inr t"
  shows "token_from env endpoint now c (exchange_form c code verifier) t"
proof -
  have "validateTokenRequest env c = None" "tokenRequest endpoint now c (with_secret c (exchange_form c code verifier)) = Inr t"
    using assms by (auto simp: Exchange_def exchange_form_def validate_config_token split: option.splits if_splits)
  then show ?thesis by (rule tokenRequest_from)
qed

lemma refresh_token_from:
  assumes "Refresh env endpoint now c refreshToken = Inr t"
  shows "token_from env endpoint now c (refresh_form c refreshToken) t"
proof -
  have "validateTokenRequest env c = None" "tokenRequest endpoint now c (with_secret c (refresh_form c refreshToken)) = Inr t"
    using assms by (auto simp: Refresh_def refresh_form_def split: option.splits if_splits)
  then show ?thesis by (rule tokenRequest_from)
qed

text \<open>A token that \<open>Exchange\<close> or \<open>Refresh\<close> returns came from one request to an HTTPS token endpoint
  with exactly the caller's code and verifier, or its refresh token, answered with a 2xx status and at most
  64 KB; it is a bearer token the bearer strategy accepts and has not expired when it arrives.\<close>

theorem oauth_token_sound:
  assumes "Exchange env endpoint now c code verifier = Inr t \<and> form = exchange_form c code verifier \<or>
    Refresh env endpoint now c refreshToken = Inr t \<and> form = refresh_form c refreshToken"
  shows "token_from env endpoint now c form t"
  using assms exchange_token_from refresh_token_from by blast

section \<open>Login\<close>

lemma callback_delivered: "callback_serve st True rs = []"
  by (induction rs) (auto simp: callback_handler_def)

definition good_callback :: "string \<Rightarrow> callback_request \<Rightarrow> bool" where
  "good_callback st r \<longleftrightarrow> cb_Method r = ''GET'' \<and> cb_State r = st \<and> cb_Error r = [] \<and> cb_Code r \<noteq> []"

lemma callback_serve_result:
  "length (callback_serve st False rs) \<le> 1 \<and>
   (\<forall>code ret. Inr (code, ret) \<in> set (callback_serve st False rs) \<longrightarrow>
      (\<exists>r\<in>set rs. good_callback st r \<and> code = cb_Code r \<and> ret = st))"
proof (induction rs)
  case (Cons r rs)
  show ?case
  proof (cases "callback_handler st False r")
    case (fields d out status)
    then show ?thesis
      using Cons callback_delivered[of st rs]
      by (auto simp: callback_handler_def secureStringEqual_eq good_callback_def split: if_splits)
  qed
qed simp

lemma callback_code:
  assumes "loopbackCallback listen state_of openBrowser requests stopped url = Inr (code, ret)"
  shows "\<exists>r\<in>set (requests url). good_callback (state_of url) r \<and> code = cb_Code r \<and> ret = state_of url"
    "openBrowser url = None" "listen = None"
proof -
  obtain results where r: "callback_serve (state_of url) False (requests url) = Inr (code, ret) # results"
    and rest: "openBrowser url = None" "listen = None"
    using assms by (auto simp: loopbackCallback_def split: option.splits list.splits)
  show "\<exists>r\<in>set (requests url). good_callback (state_of url) r \<and> code = cb_Code r \<and> ret = state_of url"
    using callback_serve_result[of "state_of url" "requests url"] by (simp add: r)
  show "openBrowser url = None" "listen = None" by (fact rest)+
qed

lemma Authorize_ok:
  assumes "Authorize env endpoint now raw1 raw2 (Some consent) c = Inr t"
  obtains verifier st url code where "GeneratePKCE env raw1 = Inr (verifier, pkceChallenge env verifier)"
    "GenerateState raw2 = Inr st" "AuthCodeURL env c st verifier = Inr url" "consent url = Inr (code, st)"
    "Exchange env endpoint now c code verifier = Inr t"
proof -
  obtain verifier ch st url code where g: "GeneratePKCE env raw1 = Inr (verifier, ch)"
    "GenerateState raw2 = Inr st" "AuthCodeURL env c st verifier = Inr url" "consent url = Inr (code, st)"
    "Exchange env endpoint now c code verifier = Inr t"
    using assms by (auto simp: Authorize_def secureStringEqual_eq split: option.splits sum.splits if_splits)
  have "ch = pkceChallenge env verifier" using g(1) by (auto simp: GeneratePKCE_def Let_def split: option.splits)
  then show thesis using that g by blast
qed

lemma validateLoopback_http:
  assumes "validateLoopbackRedirect env raw = None"
  shows "\<exists>u. oe_parse env (TrimSpace raw) = Some u \<and> EqualFold (url_scheme u) ''http'' \<and> isLoopbackHost env (Hostname u) \<and>
    Port u \<noteq> [] \<and> Port u \<noteq> ''0''"
proof -
  have r: "validateRedirectURL env raw = None" using assms by (auto simp: validateLoopbackRedirect_def split: option.splits)
  then obtain u where "oe_parse env (TrimSpace raw) = Some u" by (auto simp: validateRedirectURL_def split: option.splits)
  then show ?thesis using assms r by (auto simp: validateLoopbackRedirect_def split: if_splits)
qed

text \<open>C9: When \<open>Login\<close> returns a token, the redirect is plain HTTP on a fixed port of a loopback host, a GET
  callback carried exactly the state of this login's authorization URL and a code, that code was exchanged
  with the verifier whose digest the URL contains, and the server delivered one result.\<close>

theorem login_state_checked:
  assumes "Login env endpoint now raw1 raw2 listen state_of openBrowser requests stopped c = Inr t"
  shows "\<exists>u verifier st url r. oe_parse env (TrimSpace (oc_RedirectURL c)) = Some u \<and> EqualFold (url_scheme u) ''http'' \<and>
      isLoopbackHost env (Hostname u) \<and> Port u \<noteq> [] \<and> Port u \<noteq> ''0'' \<and>
      GeneratePKCE env raw1 = Inr (verifier, pkceChallenge env verifier) \<and> GenerateState raw2 = Inr st \<and>
      AuthCodeURL env c st verifier = Inr url \<and> r \<in> set (requests url) \<and> good_callback st r \<and> state_of url = st \<and>
      length (callback_serve (state_of url) False (requests url)) = 1 \<and>
      token_from env endpoint now c (exchange_form c (cb_Code r) verifier) t"
proof -
  obtain opener where o: "validateLoopbackRedirect env (oc_RedirectURL c) = None"
    "Authorize env endpoint now raw1 raw2 (Some (loopbackCallback listen state_of opener requests stopped)) c = Inr t"
    using assms by (auto simp: Login_def split: option.splits)
  obtain verifier st url code where g: "GeneratePKCE env raw1 = Inr (verifier, pkceChallenge env verifier)"
    "GenerateState raw2 = Inr st" "AuthCodeURL env c st verifier = Inr url"
    "loopbackCallback listen state_of opener requests stopped url = Inr (code, st)"
    "Exchange env endpoint now c code verifier = Inr t"
    by (rule Authorize_ok[OF o(2)])
  obtain r where r: "r \<in> set (requests url)" "good_callback (state_of url) r" "code = cb_Code r" "st = state_of url"
    using callback_code(1)[OF g(4)] by blast
  obtain u where u: "oe_parse env (TrimSpace (oc_RedirectURL c)) = Some u" "EqualFold (url_scheme u) ''http''"
    "isLoopbackHost env (Hostname u)" "Port u \<noteq> []" "Port u \<noteq> ''0''"
    using validateLoopback_http[OF o(1)] by blast
  have "callback_serve (state_of url) False (requests url) \<noteq> []"
    using g(4) by (auto simp: loopbackCallback_def split: option.splits list.splits)
  then have "length (callback_serve (state_of url) False (requests url)) = 1"
    using conjunct1[OF callback_serve_result[of "state_of url" "requests url"]]
    by (cases "callback_serve (state_of url) False (requests url)") simp_all
  moreover have "token_from env endpoint now c (exchange_form c (cb_Code r) verifier) t"
    using exchange_token_from[OF g(5)] by (simp add: r(3))
  ultimately show ?thesis using u g(1-3) r by blast
qed

section \<open>Generated verifiers and states\<close>

definition b64_digit :: "char \<Rightarrow> bool" where
  "b64_digit c \<longleftrightarrow> (\<exists>n\<in>set [0..<64]. c = b64_char n)"

lemma b64_digitI [simp]: "n < 64 \<Longrightarrow> b64_digit (b64_char n)"
  by (auto simp: b64_digit_def)

lemma b64_digit_plain: "b64_digit c \<Longrightarrow> c \<noteq> CHR ''=''"
  using b64_val_char by (auto simp: b64_digit_def)

lemma of_url_char: "n < 64 \<Longrightarrow> (of_char (url_char (b64_char n)) :: nat) =
    (if n < 26 then 65 + n else if n < 52 then 71 + n else if n < 62 then n - 4 else if n = 62 then 45 else 95)"
  unfolding url_char_def if_distrib[of of_char] char_of_eq by (simp only: of_b64_char) auto

lemma verifier_digit: "b64_digit c \<Longrightarrow> verifier_char (url_char c)"
proof -
  assume "b64_digit c"
  then obtain n where n: "n < 64" "c = b64_char n" by (auto simp: b64_digit_def)
  show ?thesis
    unfolding verifier_char_def Let_def list.set insert_iff char_of_eq n(2) of_url_char[OF n(1)] using n(1) by auto
qed

lemma inj_url_char: "inj_on url_char {c. b64_digit c}"
proof (rule inj_onI)
  fix c d assume "c \<in> {c. b64_digit c}" "d \<in> {c. b64_digit c}" and e: "url_char c = url_char d"
  then obtain n m where n: "n < 64" "c = b64_char n" "m < 64" "d = b64_char m" by (auto simp: b64_digit_def)
  have "(of_char (url_char c) :: nat) = of_char (url_char d)" by (simp add: e)
  then have "n = m" unfolding n(2,4) of_url_char[OF n(1)] of_url_char[OF n(3)] using n(1,3) by (auto split: if_splits)
  then show "c = d" by (simp add: n)
qed

text \<open>The padded text is its digits followed by the padding.\<close>

lemma b64_digits:
  "\<exists>ds. b64_encode s = ds @ replicate ((3 - length s mod 3) mod 3) CHR ''='' \<and> list_all b64_digit ds \<and>
     length ds = (4 * length s + 2) div 3"
proof (induction s rule: b64_encode.induct)
  case (2 a)
  let ?x = "of_char a :: nat"
  have "?x < 256" by simp
  then have "?x div 4 < 64" "?x mod 4 * 16 < 64" by linarith+
  then have "list_all b64_digit [b64_char (?x div 4), b64_char (?x mod 4 * 16)]" by simp
  then show ?case by (intro exI[of _ "[b64_char (?x div 4), b64_char (?x mod 4 * 16)]"]) (simp add: Let_def numeral_2_eq_2)
next
  case (3 a b)
  let ?x = "of_char a :: nat" and ?y = "of_char b :: nat"
  let ?q = "[b64_char (?x div 4), b64_char (?x mod 4 * 16 + ?y div 16), b64_char (?y mod 16 * 4)]"
  have "?x < 256" "?y < 256" by simp_all
  then have "?x div 4 < 64" "?x mod 4 * 16 + ?y div 16 < 64" "?y mod 16 * 4 < 64" by linarith+
  then have "list_all b64_digit ?q" by simp
  then show ?case by (intro exI[of _ ?q]) (simp add: Let_def)
next
  case (4 a b c s)
  let ?x = "of_char a :: nat" and ?y = "of_char b :: nat" and ?z = "of_char c :: nat"
  let ?q = "[b64_char (?x div 4), b64_char (?x mod 4 * 16 + ?y div 16), b64_char (?y mod 16 * 4 + ?z div 64), b64_char (?z mod 64)]"
  obtain ds where ds: "b64_encode s = ds @ replicate ((3 - length s mod 3) mod 3) CHR ''=''" "list_all b64_digit ds"
    "length ds = (4 * length s + 2) div 3" using 4 by blast
  have "?x < 256" "?y < 256" "?z < 256" by simp_all
  then have "?x div 4 < 64" "?x mod 4 * 16 + ?y div 16 < 64" "?y mod 16 * 4 + ?z div 64 < 64" "?z mod 64 < 64" by linarith+
  then have "list_all b64_digit ?q" by simp
  moreover have "b64_encode (a # b # c # s) = (?q @ ds) @ replicate ((3 - length (a # b # c # s) mod 3) mod 3) CHR ''=''"
    by (simp add: Let_def ds(1))
  moreover have "length (?q @ ds) = (4 * length (a # b # c # s) + 2) div 3" by (simp add: ds(3))
  ultimately show ?case using ds(2) by (intro exI[of _ "?q @ ds"]) simp
qed simp

lemma raw_digits:
  fixes s
  defines "ds \<equiv> filter (\<lambda>c. c \<noteq> CHR ''='') (b64_encode s)"
  shows "b64_encode s = ds @ replicate ((3 - length s mod 3) mod 3) CHR ''=''" "list_all b64_digit ds"
    "length ds = (4 * length s + 2) div 3"
proof -
  obtain es where es: "b64_encode s = es @ replicate ((3 - length s mod 3) mod 3) CHR ''=''" "list_all b64_digit es"
    "length es = (4 * length s + 2) div 3" using b64_digits by blast
  have "filter (\<lambda>c. c \<noteq> CHR ''='') es = es" using es(2) b64_digit_plain by (auto simp: list_all_iff filter_id_conv)
  then have "ds = es" by (simp add: ds_def es(1))
  then show "b64_encode s = ds @ replicate ((3 - length s mod 3) mod 3) CHR ''=''" "list_all b64_digit ds"
    "length ds = (4 * length s + 2) div 3" using es by simp_all
qed

lemma RawURLEncoding_verifier:
  "length (RawURLEncoding s) = (4 * length s + 2) div 3 \<and> list_all verifier_char (RawURLEncoding s)"
  using raw_digits[of s] verifier_digit by (auto simp: RawURLEncoding_def list_all_iff)

lemma RawURLEncoding_inject:
  assumes "RawURLEncoding s = RawURLEncoding u" "length s = length u"
  shows "s = u"
proof -
  let ?d = "\<lambda>s. filter (\<lambda>c. c \<noteq> CHR ''='') (b64_encode s)"
  have sub: "set (?d s) \<union> set (?d u) \<subseteq> {c. b64_digit c}" using raw_digits(2)[of s] raw_digits(2)[of u] by (auto simp: list_all_iff)
  have "?d s = ?d u" by (rule map_inj_on[OF assms(1)[unfolded RawURLEncoding_def] inj_on_subset[OF inj_url_char sub]])
  then have "?d s @ replicate ((3 - length s mod 3) mod 3) CHR ''='' = ?d u @ replicate ((3 - length u mod 3) mod 3) CHR ''=''"
    by (simp only: assms(2))
  then have "b64_encode s = b64_encode u" by (rule box_equals[OF _ raw_digits(1)[of s, symmetric] raw_digits(1)[of u, symmetric]])
  then have "b64_decode (b64_encode s) = b64_decode (b64_encode u)" by (rule arg_cong)
  then show ?thesis unfolding b64_roundtrip by (rule option.inject[THEN iffD1])
qed

lemma verifier_no_space: "verifier_char c \<Longrightarrow> c \<notin> {CHR '' '', CHR 0x09, CHR 0x0D, CHR 0x0A}"
  by (auto simp: verifier_char_def Let_def)

lemma verifier_not_space: "verifier_char c \<Longrightarrow> c \<notin> space_bytes"
  by (auto simp: verifier_char_def Let_def space_bytes_def space_encodings_def ascii_spaces_def)

lemma verifier_valid:
  assumes "length raw = 32"
  shows "validateVerifier (RawURLEncoding raw) = None" "validateState (RawURLEncoding raw) = None"
proof -
  let ?v = "RawURLEncoding raw"
  have v: "length ?v = 43" "list_all verifier_char ?v" using RawURLEncoding_verifier[of raw] assms by simp_all
  then have ends: "hd ?v \<notin> space_bytes" "last ?v \<notin> space_bytes"
    using verifier_not_space by (cases ?v; fastforce simp: list_all_iff)+
  then have "TrimSpace ?v = ?v" by (intro TrimSpace_id) simp
  moreover have "?v \<noteq> []" using v(1) by auto
  moreover have "\<not> list_ex (\<lambda>c. c \<in> {CHR '' '', CHR 0x09, CHR 0x0D, CHR 0x0A}) ?v"
    using v(2) verifier_no_space by (fastforce simp: list_all_iff list_ex_iff)
  ultimately show "validateVerifier ?v = None" "validateState ?v = None"
    using v by (auto simp: validateVerifier_def validateState_def list_ex_iff)
qed

text \<open>From 32 random bytes \<open>GeneratePKCE\<close> makes a verifier of 43 characters that the verifier check
  accepts, with its digest as challenge, and \<open>GenerateState\<close> a state the state check accepts; different
  random bytes give different verifiers and states.\<close>

theorem pkce_verifier_valid:
  assumes "length raw = 32" "length raw' = 32"
  shows "\<exists>v v'. GeneratePKCE env (Some raw) = Inr (v, pkceChallenge env v) \<and> GenerateState (Some raw) = Inr v \<and>
    length v = 43 \<and> validateVerifier v = None \<and> validateState v = None \<and>
    GeneratePKCE env (Some raw') = Inr (v', pkceChallenge env v') \<and> (v = v' \<longleftrightarrow> raw = raw')"
  using verifier_valid[OF assms(1)] RawURLEncoding_verifier[of raw] RawURLEncoding_inject[of raw raw'] assms
  by (auto simp: GeneratePKCE_def GenerateState_def Let_def)

theorem pkce_verifier_valid_witness:
  "\<exists>v v'. GeneratePKCE undefined (Some (replicate 32 CHR ''a'')) = Inr (v, pkceChallenge undefined v) \<and>
    GenerateState (Some (replicate 32 CHR ''a'')) = Inr v \<and>
    length v = 43 \<and> validateVerifier v = None \<and> validateState v = None \<and>
    GeneratePKCE undefined (Some (replicate 32 CHR ''b'')) = Inr (v', pkceChallenge undefined v') \<and>
    (v = v' \<longleftrightarrow> replicate 32 CHR ''a'' = replicate 32 CHR ''b'')"
  by (rule pkce_verifier_valid) simp_all

section \<open>Secrets\<close>

text \<open>What is printed and what goes to the browser does not depend on a secret: two tokens and two
  configurations that differ only in secrets print alike, and authorization URLs for two verifiers of one
  digest, or for another client secret, are the same.\<close>

theorem oauth_secrets_hidden:
  assumes "secretPresence access = secretPresence access'" "secretPresence refresh = secretPresence refresh'"
    "secretPresence secret = secretPresence secret'" "oe_sha256 env v = oe_sha256 env v'"
    "validateVerifier v = None" "validateVerifier v' = None"
  shows "Token_String q time (t\<lparr>ot_AccessToken := access, ot_RefreshToken := refresh\<rparr>) =
      Token_String q time (t\<lparr>ot_AccessToken := access', ot_RefreshToken := refresh'\<rparr>) \<and>
    Config_String q client (c\<lparr>oc_ClientSecret := secret\<rparr>) = Config_String q client (c\<lparr>oc_ClientSecret := secret'\<rparr>) \<and>
    AuthCodeURL env (c\<lparr>oc_ClientSecret := secret\<rparr>) st v = AuthCodeURL env (c\<lparr>oc_ClientSecret := secret'\<rparr>) st v'"
proof -
  have "validate_config env (c\<lparr>oc_ClientSecret := secret\<rparr>) = validate_config env (c\<lparr>oc_ClientSecret := secret'\<rparr>)"
    by (cases c) (simp only: validate_config_def validateTokenRequest_def oauth_config.select_convs oauth_config.update_convs)
  moreover have "auth_params env (c\<lparr>oc_ClientSecret := secret\<rparr>) query st v =
      auth_params env (c\<lparr>oc_ClientSecret := secret'\<rparr>) query st v'" for query
    by (simp add: auth_params_def pkceChallenge_def assms(4))
  moreover have "oc_AuthURL (c\<lparr>oc_ClientSecret := k\<rparr>) = oc_AuthURL c" for k by simp
  ultimately have "AuthCodeURL env (c\<lparr>oc_ClientSecret := secret\<rparr>) st v = AuthCodeURL env (c\<lparr>oc_ClientSecret := secret'\<rparr>) st v'"
    unfolding AuthCodeURL_def assms(5,6) by presburger
  then show ?thesis using assms(1-3) by (simp add: Token_String_def Config_String_def)
qed

section \<open>Concrete instances\<close>

definition sample_env :: oauth_env where
  "sample_env =
     \<lparr>oe_parse = (\<lambda>raw. if has_prefix raw ''https''
        then Some \<lparr>url_scheme = ''https'', url_host = ''h'', url_user = None, url_path = ''/p'', ou_RawQuery = [], ou_Fragment = []\<rparr>
        else if has_prefix raw ''http''
        then Some \<lparr>url_scheme = ''http'', url_host = ''localhost:87'', url_user = None, url_path = ''/c'', ou_RawQuery = [], ou_Fragment = []\<rparr>
        else None),
      oe_print = (\<lambda>u. url_scheme u @ ''?'' @ ou_RawQuery u), oe_loopback = (\<lambda>h. False), oe_sha256 = (\<lambda>s. take 4 s), oe_query = (\<lambda>q. [])\<rparr>"

definition sample_config :: oauth_config where
  "sample_config = \<lparr>oc_ClientID = ''id'', oc_ClientSecret = [], oc_AuthURL = ''https:a'', oc_TokenURL = ''https:t'',
     oc_RedirectURL = ''http:c'', oc_Scopes = []\<rparr>"

definition sample_endpoint :: token_endpoint where
  "sample_endpoint url form = Inr (200, CHR ''{'' # CHR 0x22 # ''access_token'' @ [CHR 0x22, CHR '':'', CHR 0x22] @ ''tok'' @ [CHR 0x22, CHR ''}''])"

definition sample_token :: oauth_token where
  "sample_token = \<lparr>ot_AccessToken = ''tok'', ot_RefreshToken = [], ot_TokenType = ''Bearer'', ot_ExpiresAt = None, ot_Scope = []\<rparr>"

lemma sample_decoded: "decode_token_response (snd (projr (sample_endpoint [] []))) =
    (\<lparr>tr_AccessToken = ''tok'', tr_RefreshToken = [], tr_TokenType = [], tr_ExpiresIn = None, tr_Scope = [],
      tr_Error = [], tr_Description = []\<rparr>, True)"
  by code_simp

lemma sample_access: "validAccessToken ''tok''"
  by code_simp

lemma sample_checks:
  "validate_config sample_env sample_config = None" "validateLoopbackRedirect sample_env (oc_RedirectURL sample_config) = None"
  by code_simp+

definition sample_verifier :: string where "sample_verifier = RawURLEncoding (replicate 32 CHR ''a'')"
definition sample_state :: string where "sample_state = RawURLEncoding (replicate 32 CHR ''b'')"

lemma sample_secrets: "validateVerifier sample_verifier = None" "validateState sample_state = None"
  using verifier_valid by (simp_all add: sample_verifier_def sample_state_def)

lemma sample_answer: "tokenRequest sample_endpoint 0 c form = Inr sample_token"
proof -
  have "length (snd (projr (sample_endpoint [] []))) = 22" by code_simp
  then have "take (Suc maxTokenResponseBytes) (snd (projr (sample_endpoint [] []))) = snd (projr (sample_endpoint [] []))"
    "\<not> maxTokenResponseBytes < length (snd (projr (sample_endpoint [] [])))"
    by (simp_all add: maxTokenResponseBytes_def)
  moreover have "sample_endpoint (oc_TokenURL c) (Values_Encode form) = Inr (200, snd (projr (sample_endpoint [] [])))"
    by (simp add: sample_endpoint_def)
  ultimately show ?thesis
    by (simp add: tokenRequest_def token_of_response_def sample_decoded sample_access sample_token_def)
qed

lemma sample_exchange: "Exchange sample_env sample_endpoint 0 sample_config ''c'' sample_verifier = Inr sample_token"
proof -
  have "TrimSpace ''c'' \<noteq> []" by code_simp
  then show ?thesis unfolding Exchange_def sample_checks option.case sample_secrets(1) sample_answer by (rule if_not_P)
qed

theorem oauth_token_sound_witness:
  "token_from sample_env sample_endpoint 0 sample_config (exchange_form sample_config ''c'' sample_verifier) sample_token"
  by (rule oauth_token_sound[where code = "''c''" and verifier = sample_verifier and refreshToken = "[]"])
    (simp add: sample_exchange)

definition sample_callback :: callback_request where
  "sample_callback = \<lparr>cb_URILength = 20, cb_Method = ''GET'', cb_State = sample_state, cb_Error = [],
     cb_Description = [], cb_Code = ''c''\<rparr>"

lemma sample_login:
  "Login sample_env sample_endpoint 0 (Some (replicate 32 CHR ''a'')) (Some (replicate 32 CHR ''b'')) None (\<lambda>url. sample_state)
     (Some (\<lambda>url. None)) (\<lambda>url. [sample_callback]) (OOther ''closed'') sample_config = Inr sample_token"
proof -
  have served: "callback_serve sample_state False [sample_callback] = [Inr (''c'', sample_state)]"
    by (simp add: callback_handler_def sample_callback_def secureStringEqual_eq)
  have "GeneratePKCE sample_env (Some (replicate 32 CHR ''a'')) = Inr (sample_verifier, pkceChallenge sample_env sample_verifier)"
    "GenerateState (Some (replicate 32 CHR ''b'')) = Inr sample_state"
    by (simp_all only: GeneratePKCE_def GenerateState_def sample_verifier_def sample_state_def option.case Let_def)
  moreover obtain url where "AuthCodeURL sample_env sample_config sample_state sample_verifier = Inr url"
  proof -
    obtain u where "oe_parse sample_env (oc_AuthURL sample_config) = Some u"
      by (simp add: sample_env_def sample_config_def has_prefix_def)
    then show thesis using that by (simp only: AuthCodeURL_def sample_checks sample_secrets option.case)
  qed
  moreover have "loopbackCallback None (\<lambda>url. sample_state) (\<lambda>url. None) (\<lambda>url. [sample_callback]) (OOther ''closed'') url =
      Inr (''c'', sample_state)" for url
    by (simp only: loopbackCallback_def sample_secrets option.case served list.case)
  ultimately show ?thesis
    by (simp only: Login_def Authorize_def option.case sample_checks sum.case prod.case secureStringEqual_eq sample_exchange not_True_eq_False if_False refl)
qed

theorem login_state_checked_witness:
  "\<exists>u verifier st url r. oe_parse sample_env (TrimSpace (oc_RedirectURL sample_config)) = Some u \<and> EqualFold (url_scheme u) ''http'' \<and>
      isLoopbackHost sample_env (Hostname u) \<and> Port u \<noteq> [] \<and> Port u \<noteq> ''0'' \<and>
      GeneratePKCE sample_env (Some (replicate 32 CHR ''a'')) = Inr (verifier, pkceChallenge sample_env verifier) \<and>
      GenerateState (Some (replicate 32 CHR ''b'')) = Inr st \<and>
      AuthCodeURL sample_env sample_config st verifier = Inr url \<and> r \<in> set ((\<lambda>url. [sample_callback]) url) \<and> good_callback st r \<and>
      (\<lambda>url. sample_state) url = st \<and>
      length (callback_serve ((\<lambda>url. sample_state) url) False ((\<lambda>url. [sample_callback]) url)) = 1 \<and>
      token_from sample_env sample_endpoint 0 sample_config (exchange_form sample_config (cb_Code r) verifier) sample_token"
  by (rule login_state_checked[OF sample_login])

theorem oauth_secrets_hidden_witness:
  "Token_String id (\<lambda>e. []) (sample_token\<lparr>ot_AccessToken := ''a'', ot_RefreshToken := []\<rparr>) =
      Token_String id (\<lambda>e. []) (sample_token\<lparr>ot_AccessToken := ''b'', ot_RefreshToken := []\<rparr>) \<and>
    Config_String id True (sample_config\<lparr>oc_ClientSecret := ''a''\<rparr>) = Config_String id True (sample_config\<lparr>oc_ClientSecret := ''b''\<rparr>) \<and>
    AuthCodeURL sample_env (sample_config\<lparr>oc_ClientSecret := ''a''\<rparr>) ''s'' (replicate 43 CHR ''a'') =
      AuthCodeURL sample_env (sample_config\<lparr>oc_ClientSecret := ''b''\<rparr>) ''s'' (replicate 44 CHR ''a'')"
  by (rule oauth_secrets_hidden) code_simp+

definition expired_token :: oauth_token where
  "expired_token = sample_token\<lparr>ot_AccessToken := [], ot_RefreshToken := ''r''\<rparr>"

definition sample_source :: oauth_source where
  "sample_source = \<lparr>os_config = sample_config, os_early = defaultEarlyExpiry, os_hasUpdate = False, os_token = expired_token,
     os_refreshing = None, os_next = 0, os_outcomes = []\<rparr>"

lemma sample_source_refreshing:
  "source_reachable (sample_source\<lparr>os_refreshing := Some 0, os_next := 1\<rparr>, add_mset (Awaiting 0) (add_mset (Refreshing 0 ''r'') {#}))"
proof (rule source_next[OF source_init])
  show "NewTokenSource sample_env sample_config expired_token [] = Inr sample_source" by code_simp
  show "source_step (sample_source, {#})
     (sample_source\<lparr>os_refreshing := Some 0, os_next := 1\<rparr>, add_mset (Awaiting 0) (add_mset (Refreshing 0 ''r'') {#}))"
    by (rule ask_refresh[where now = 0]) code_simp
qed

theorem oauth_single_flight_witness:
  "size (filter_mset (\<lambda>t. refreshes t \<noteq> None) (add_mset (Awaiting 0) (add_mset (Refreshing 0 ''r'') {#}))) \<le> 1 \<and>
   ot_RefreshToken (os_token (sample_source\<lparr>os_refreshing := Some 0, os_next := 1\<rparr>)) = ''r''"
proof -
  note flight = oauth_single_flight[OF sample_source_refreshing]
  show ?thesis by (intro conjI conjunct1[OF flight] sym[OF flight[THEN conjunct2, THEN conjunct2, THEN conjunct1, rule_format]]) simp
qed

end
