(* ===== verification/GoJson.thy ===== *)
theory GoJson
  imports Json
begin

text \<open>
  \<open>encoding/json\<close> decoding into the Go types the websocket models are made of: a value keeps its old
  contents when a member is null or of the wrong type, decoding goes on after a type error, pointers are
  allocated, slices are replaced, and a member belongs to the field of exactly its name or else to the
  first field of that name up to case. A field is named by its JSON tag. Slices are always refilled with
  fresh elements (Go may show the contents of an earlier array when a key is repeated).
\<close>

datatype go_type =
    GString | GInt64 | GBool | GPtr go_type | GSlice go_type | GStruct "(string \<times> go_type) list"

datatype go_value =
    VString string | VInt int | VBool bool | VNil | VPtr go_value | VSlice "go_value list"
  | VStruct "(string \<times> go_value) list"

fun zero_value :: "go_type \<Rightarrow> go_value" where
  "zero_value GString = VString []"
| "zero_value GInt64 = VInt 0"
| "zero_value GBool = VBool False"
| "zero_value (GPtr t) = VNil"
| "zero_value (GSlice t) = VNil"
| "zero_value (GStruct fs) = VStruct (map (\<lambda>(n, t). (n, zero_value t)) fs)"

fun typed :: "go_type \<Rightarrow> go_value \<Rightarrow> bool" where
  "typed GString v = (case v of VString _ \<Rightarrow> True | _ \<Rightarrow> False)"
| "typed GInt64 v = (case v of VInt i \<Rightarrow> - (2 ^ 63) \<le> i \<and> i < 2 ^ 63 | _ \<Rightarrow> False)"
| "typed GBool v = (case v of VBool _ \<Rightarrow> True | _ \<Rightarrow> False)"
| "typed (GPtr t) v = (case v of VNil \<Rightarrow> True | VPtr w \<Rightarrow> typed t w | _ \<Rightarrow> False)"
| "typed (GSlice t) v = (case v of VNil \<Rightarrow> True | VSlice ws \<Rightarrow> list_all (typed t) ws | _ \<Rightarrow> False)"
| "typed (GStruct fs) v =
     (case v of VStruct vs \<Rightarrow> list_all2 (\<lambda>(n, t) (m, w). n = m \<and> typed t w) fs vs | _ \<Rightarrow> False)"

definition find_field :: "(string \<times> 'a) list \<Rightarrow> string \<Rightarrow> (string \<times> 'a) option" where
  "find_field fs key =
     (case find (\<lambda>f. fst f = key) fs of Some f \<Rightarrow> Some f | None \<Rightarrow> find (\<lambda>f. EqualFold (fst f) key) fs)"

definition field_value :: "string \<Rightarrow> (string \<times> go_value) list \<Rightarrow> go_value" where
  "field_value n vs = (case map_of vs n of Some w \<Rightarrow> w | None \<Rightarrow> VNil)"

definition put_field :: "string \<Rightarrow> go_value \<Rightarrow> (string \<times> go_value) list \<Rightarrow> (string \<times> go_value) list" where
  "put_field n w vs = map (\<lambda>(m, old). (m, if m = n then w else old)) vs"

function (sequential) decode_value :: "go_type \<Rightarrow> json \<Rightarrow> go_value \<Rightarrow> go_value \<times> bool"
  and decode_elems :: "go_type \<Rightarrow> json list \<Rightarrow> go_value list \<times> bool"
  and decode_members ::
    "(string \<times> go_type) list \<Rightarrow> (string \<times> json) list \<Rightarrow> (string \<times> go_value) list \<Rightarrow> (string \<times> go_value) list \<times> bool"
where
  "decode_value GString v old = (case v of JNull \<Rightarrow> (old, True) | JStr s \<Rightarrow> (VString s, True) | _ \<Rightarrow> (old, False))"
| "decode_value GInt64 v old =
     (case v of
        JNull \<Rightarrow> (old, True)
      | JNum t \<Rightarrow> (case ParseInt 64 t of Some i \<Rightarrow> (VInt i, True) | None \<Rightarrow> (old, False))
      | _ \<Rightarrow> (old, False))"
| "decode_value GBool v old = (case v of JNull \<Rightarrow> (old, True) | JBool b \<Rightarrow> (VBool b, True) | _ \<Rightarrow> (old, False))"
| "decode_value (GPtr t) v old =
     (if v = JNull then (VNil, True)
      else case decode_value t v (case old of VPtr w \<Rightarrow> w | _ \<Rightarrow> zero_value t) of (w, ok) \<Rightarrow> (VPtr w, ok))"
| "decode_value (GSlice t) v old =
     (case v of
        JNull \<Rightarrow> (VNil, True)
      | JArr vs \<Rightarrow> (case decode_elems t vs of (ws, ok) \<Rightarrow> (VSlice ws, ok))
      | _ \<Rightarrow> (old, False))"
| "decode_value (GStruct fs) v old =
     (case v of
        JNull \<Rightarrow> (old, True)
      | JObj ms \<Rightarrow>
          (case decode_members fs ms (case old of VStruct ws \<Rightarrow> ws | _ \<Rightarrow> []) of (ws, ok) \<Rightarrow> (VStruct ws, ok))
      | _ \<Rightarrow> (old, False))"
| "decode_elems t [] = ([], True)"
| "decode_elems t (v # vs) =
     (case decode_value t v (zero_value t) of
        (w, ok) \<Rightarrow> (case decode_elems t vs of (ws, ok') \<Rightarrow> (w # ws, ok \<and> ok')))"
| "decode_members fs [] ws = (ws, True)"
| "decode_members fs ((k, v) # ms) ws =
     (case find_field fs k of
        None \<Rightarrow> decode_members fs ms ws
      | Some (n, t) \<Rightarrow>
          (case decode_value t v (field_value n ws) of
             (w, ok) \<Rightarrow> (case decode_members fs ms (put_field n w ws) of (ws', ok') \<Rightarrow> (ws', ok \<and> ok'))))"
  by pat_completeness auto
termination
  by (relation "measures
      [\<lambda>x. case x of Inl (t, v, old) \<Rightarrow> size v | Inr (Inl (t, vs)) \<Rightarrow> size_list size vs
         | Inr (Inr (fs, ms, ws)) \<Rightarrow> size_list (size_prod (\<lambda>_. 0) size) ms,
       \<lambda>x. case x of Inl (t, v, old) \<Rightarrow> size t | _ \<Rightarrow> 0]") auto

text \<open>Decoding a whole value; a type error anywhere is an error of \<open>json.Unmarshal\<close>.\<close>

definition Unmarshal :: "go_type \<Rightarrow> json \<Rightarrow> go_value option" where
  "Unmarshal t v = (case decode_value t v (zero_value t) of (w, ok) \<Rightarrow> if ok then Some w else None)"

text \<open>Reading fields.\<close>

fun members :: "go_value \<Rightarrow> (string \<times> go_value) list" where
  "members (VStruct vs) = vs"
| "members _ = []"

definition get_string :: "string \<Rightarrow> go_value \<Rightarrow> string" where
  "get_string n w = (case field_value n (members w) of VString s \<Rightarrow> s | _ \<Rightarrow> [])"

definition get_int :: "string \<Rightarrow> go_value \<Rightarrow> int" where
  "get_int n w = (case field_value n (members w) of VInt i \<Rightarrow> i | _ \<Rightarrow> 0)"

definition get_string_ptr :: "string \<Rightarrow> go_value \<Rightarrow> string option" where
  "get_string_ptr n w = (case field_value n (members w) of VPtr (VString s) \<Rightarrow> Some s | _ \<Rightarrow> None)"

definition get_int_ptr :: "string \<Rightarrow> go_value \<Rightarrow> int option" where
  "get_int_ptr n w = (case field_value n (members w) of VPtr (VInt i) \<Rightarrow> Some i | _ \<Rightarrow> None)"

definition get_slice :: "string \<Rightarrow> go_value \<Rightarrow> go_value list" where
  "get_slice n w = (case field_value n (members w) of VSlice ws \<Rightarrow> ws | _ \<Rightarrow> [])"

definition set_field :: "string \<Rightarrow> go_value \<Rightarrow> go_value \<Rightarrow> go_value" where
  "set_field n w v = VStruct (put_field n w (members v))"

section \<open>Type soundness\<close>

lemma zero_typed: "typed t (zero_value t)"
proof (induction t)
  case (GStruct fs)
  then show ?case by (auto simp: list_all2_map2 list.rel_refl_strong intro!: list.rel_refl_strong)
qed auto


fun wf_type :: "go_type \<Rightarrow> bool" where
  "wf_type (GPtr t) = wf_type t"
| "wf_type (GSlice t) = wf_type t"
| "wf_type (GStruct fs) \<longleftrightarrow> distinct (map fst fs) \<and> list_all (\<lambda>(n, t). wf_type t) fs"
| "wf_type _ = True"

abbreviation fields_typed :: "(string \<times> go_type) list \<Rightarrow> (string \<times> go_value) list \<Rightarrow> bool" where
  "fields_typed fs ws \<equiv> list_all2 (\<lambda>(n, t) (m, w). n = m \<and> typed t w) fs ws"

lemma find_field_in: "find_field fs k = Some f \<Longrightarrow> f \<in> set fs"
  by (auto simp: find_field_def find_Some_iff split: option.splits)

lemma fields_names: "fields_typed fs ws \<Longrightarrow> map fst ws = map fst fs"
  by (induction rule: list_all2_induct) auto

lemma field_typed: "fields_typed fs ws \<Longrightarrow> distinct (map fst fs) \<Longrightarrow> (n, t) \<in> set fs \<Longrightarrow> typed t (field_value n ws)"
proof (induction rule: list_all2_induct)
  case (Cons f fs w ws)
  then show ?case by (cases f; cases w) (auto simp: field_value_def rev_image_eqI)
qed simp

lemma put_field_skip: "n \<notin> fst ` set ws \<Longrightarrow> put_field n w ws = ws"
  by (induction ws) (auto simp: put_field_def)

lemma put_field_typed:
  assumes "fields_typed fs ws" "distinct (map fst fs)" "(n, t) \<in> set fs" "typed t w"
  shows "fields_typed fs (put_field n w ws)"
  using assms
proof (induction rule: list_all2_induct)
  case (Cons f fs v ws)
  obtain m u where v: "v = (m, u)" by fastforce
  show ?case
  proof (cases "fst f = n")
    case True
    then have "f = (n, t)" using Cons.prems by (cases f) (auto simp: rev_image_eqI)
    moreover have "n \<notin> fst ` set ws"
      using fields_names[OF Cons.hyps(2)] Cons.prems(1) True by (metis list.set_map list.simps(9) distinct.simps(2))
    ultimately show ?thesis using Cons.hyps Cons.prems put_field_skip[of n ws w] by (auto simp: put_field_def)
  next
    case False
    then show ?thesis using Cons v by (cases f) (auto simp: put_field_def)
  qed
qed (simp add: put_field_def)

lemma ParseInt_range: "ParseInt 64 s = Some i \<Longrightarrow> - (2 ^ 63) \<le> i \<and> i < 2 ^ 63"
  by (auto simp: ParseInt_def Let_def split: if_splits option.splits prod.splits)

lemma decode_typed:
  shows "wf_type t \<Longrightarrow> typed t old \<Longrightarrow> typed t (fst (decode_value t v old))"
    and "wf_type t \<Longrightarrow> list_all (typed t) (fst (decode_elems t vs))"
    and "wf_type (GStruct fs) \<Longrightarrow> fields_typed fs ws \<Longrightarrow> fields_typed fs (fst (decode_members fs ms ws))"
proof (induction t v old and t vs and fs ms ws rule: decode_value_decode_elems_decode_members.induct)
  case (2 v old)
  then show ?case using ParseInt_range by (auto split: json.split option.split)
next
  case (4 t v old)
  have "typed t (case old of VPtr w \<Rightarrow> w | _ \<Rightarrow> zero_value t)" using 4(3) by (auto simp: zero_typed split: go_value.splits)
  then show ?case using 4 by (auto split: prod.split)
next
  case (8 t v vs)
  then show ?case by (auto simp: zero_typed split: prod.splits)
next
  case member: (10 fs k v ms ws)
  show ?case
  proof (cases "find_field fs k")
    case (Some f)
    obtain n t where f: "f = (n, t)" by fastforce
    have nt: "(n, t) \<in> set fs" using find_field_in Some f by blast
    have d: "distinct (map fst fs)" "wf_type t" using member.prems(1) nt by (auto simp: list_all_iff)
    have "typed t (fst (decode_value t v (field_value n ws)))"
      using member.IH(2)[OF Some f[symmetric]] d(2) field_typed[OF member.prems(2) d(1) nt] by simp
    then have "fields_typed fs (put_field n (fst (decode_value t v (field_value n ws))) ws)"
      by (rule put_field_typed[OF member.prems(2) d(1) nt])
    then show ?thesis using member.IH(3)[OF Some f[symmetric]] member.prems(1) by (auto simp: Some f split: prod.splits)
  qed (use member in simp)
qed (auto split: json.split go_value.splits prod.splits)

theorem unmarshal_typed:
  assumes "wf_type t" "Unmarshal t v = Some w"
  shows "typed t w"
  using assms decode_typed(1)[OF assms(1) zero_typed, of v] by (auto simp: Unmarshal_def split: prod.splits if_splits)

lemma field_value_put: "n \<in> fst ` set ws \<Longrightarrow> field_value n (put_field n w ws) = w"
  by (induction ws) (auto simp: field_value_def put_field_def)

end
