(* ===== verification/Dispatch.thy ===== *)
theory Dispatch
  imports GoJson Connection
begin

text \<open>
  The routing of inbound frames: \<open>websocket/client_dispatch.go\<close>, \<open>websocket/snapshot_routing.go\<close>, the
  event types of \<open>websocket/models.go\<close> and the checks of RFQ events in \<open>websocket/rfq.go\<close>. An event
  type is the table of its fields; \<open>Snapshot\<close>, which has no JSON name, is appended to a depth update. A
  frame is dispatched against the tables loaded at its start, which later subscriptions may have
  replaced by the time a pending snapshot is consumed. A result lists the sends in the order of the code
  (Go visits the entries of a map in any order); a send to a closed subscription does nothing.
\<close>

section \<open>Event types\<close>

definition levels_type :: go_type where "levels_type = GSlice (GSlice GString)"

definition depth_update_fields :: "(string \<times> go_type) list" where
  "depth_update_fields =
     [(''e'', GString), (''E'', GInt64), (''s'', GString), (''U'', GInt64), (''u'', GInt64), (''b'', levels_type), (''a'', levels_type)]"

definition order_book_snapshot :: go_type where
  "order_book_snapshot = GStruct
     [(''e'', GString), (''E'', GInt64), (''s'', GString), (''lastUpdateId'', GInt64), (''bids'', levels_type), (''asks'', levels_type)]"

definition book_ticker :: go_type where
  "book_ticker = GStruct
     [(''e'', GString), (''E'', GInt64), (''u'', GInt64), (''s'', GString), (''b'', GString), (''B'', GString), (''a'', GString),
      (''A'', GString), (''c'', GString), (''C'', GString)]"

definition trade_event :: go_type where
  "trade_event = GStruct
     [(''e'', GString), (''E'', GInt64), (''s'', GString), (''t'', GInt64), (''p'', GString), (''q'', GString), (''m'', GBool)]"

definition ws_order_event :: go_type where
  "ws_order_event = GStruct
     [(''e'', GString), (''E'', GInt64), (''s'', GString), (''c'', GString), (''S'', GString), (''o'', GString), (''f'', GString),
      (''q'', GString), (''p'', GString), (''P'', GString), (''O'', GString), (''x'', GString), (''X'', GString), (''r'', GString),
      (''i'', GInt64), (''z'', GString), (''Z'', GString), (''L'', GString), (''l'', GString), (''n'', GString), (''N'', GString),
      (''T'', GInt64), (''t'', GInt64), (''m'', GBool)]"

definition balance_update :: go_type where
  "balance_update = GStruct
     [(''e'', GString), (''E'', GInt64), (''u'', GInt64),
      (''B'', GSlice (GStruct [(''a'', GString), (''f'', GString), (''c'', GString)]))]"

definition position_report :: go_type where
  "position_report = GStruct
     [(''e'', GString), (''E'', GInt64), (''u'', GInt64), (''A'', GInt64),
      (''P'', GSlice (GStruct [(''t'', GString), (''s'', GString),
         (''a'', GSlice (GStruct [(''t'', GString), (''v'', GString), (''c'', GString)]))]))]"

definition settlement_update :: go_type where
  "settlement_update = GStruct
     [(''type'', GString),
      (''settlements'', GSlice (GStruct [(''symbol'', GString), (''position'', GString), (''payout'', GString), (''outcome'', GString)]))]"

definition contract_status_event :: go_type where
  "contract_status_event = GStruct
     [(''e'', GString), (''E'', GInt64), (''s'', GString), (''k'', GString), (''c'', GString), (''i'', GInt64), (''p'', GString),
      (''o'', GString), (''n'', GString)]"

definition rfq_public_event :: go_type where
  "rfq_public_event = GStruct
     [(''e'', GString), (''E'', GInt64), (''r'', GString), (''s'', GPtr GString),
      (''l'', GSlice (GStruct [(''c'', GString), (''o'', GString), (''s'', GPtr GString)])),
      (''n'', GPtr GString), (''q'', GPtr GString), (''f'', GPtr GString), (''S'', GString), (''w'', GPtr GInt64), (''x'', GPtr GInt64),
      (''c'', GPtr GInt64)]"

definition rfq_private_delivery :: go_type where
  "rfq_private_delivery = GStruct
     [(''e'', GString), (''i'', GString), (''E'', GInt64), (''r'', GString), (''x'', GString), (''S'', GString), (''q'', GPtr GString),
      (''p'', GPtr GString), (''sz'', GPtr GString), (''qs'', GPtr GString), (''vu'', GPtr GInt64)]"

definition rfq_envelope :: go_type where
  "rfq_envelope = GStruct [(''e'', GString), (''E'', GInt64), (''i'', GString)]"

definition event_probe :: go_type where
  "event_probe = GStruct [(''e'', GString), (''type'', GString), (''E'', GInt64), (''s'', GString)]"

definition snapshot_envelope :: go_type where
  "snapshot_envelope = GStruct
     [(''lastUpdateId'', GPtr GInt64), (''E'', GInt64), (''symbol'', GString), (''bids'', levels_type), (''asks'', levels_type)]"

text \<open>What the channel of a feed carries.\<close>

fun event_type :: "feed_kind \<Rightarrow> go_type" where
  "event_type DepthFeed = GStruct (depth_update_fields @ [(''Snapshot'', GBool)])"
| "event_type PartialDepthFeed = order_book_snapshot"
| "event_type TradeFeed = trade_event"
| "event_type TickerFeed = book_ticker"
| "event_type ContractFeed = contract_status_event"
| "event_type OrderFeed = ws_order_event"
| "event_type BalanceFeed = balance_update"
| "event_type PositionFeed = position_report"
| "event_type SettleFeed = settlement_update"
| "event_type RFQPublicFeed = rfq_public_event"
| "event_type RFQPrivateFeed = rfq_private_delivery"

section \<open>Checks of RFQ events\<close>

definition validRFQLifecycleState :: "string \<Rightarrow> bool" where
  "validRFQLifecycleState s \<longleftrightarrow>
     s \<in> {''OPEN'', ''PENDING_ACCEPTANCE'', ''CONFIRMING'', ''FINALIZING'', ''FINALIZED'', ''CANCELLED'', ''EXPIRED'', ''FAILED''}"

definition validRFQQuoteStatus :: "string \<Rightarrow> bool" where
  "validRFQQuoteStatus s \<longleftrightarrow> s \<in> {''ACTIVE'', ''WITHDRAWN'', ''EXPIRED'', ''WON'', ''LOST''}"

fun plain_decimal_loop :: "bool \<Rightarrow> bool \<Rightarrow> string \<Rightarrow> bool" where
  "plain_decimal_loop hasDigit hasDot [] = hasDigit"
| "plain_decimal_loop hasDigit hasDot (c # cs) =
     (if is_digit c then plain_decimal_loop True hasDot cs
      else if c = CHR ''.'' \<and> \<not> hasDot then plain_decimal_loop hasDigit True cs
      else False)"

definition validRFQPlainDecimal :: "string option \<Rightarrow> bool" where
  "validRFQPlainDecimal value =
     (case value of None \<Rightarrow> True | Some s \<Rightarrow> if s = [] then False else plain_decimal_loop False False s)"

definition validRFQPositiveDecimal :: "string option \<Rightarrow> bool" where
  "validRFQPositiveDecimal value =
     (if \<not> validRFQPlainDecimal value then False
      else case value of None \<Rightarrow> False | Some s \<Rightarrow> list_ex (\<lambda>c. is_digit c \<and> c \<noteq> CHR ''0'') s)"

definition validRFQNonEmptyString :: "string option \<Rightarrow> bool" where
  "validRFQNonEmptyString value \<longleftrightarrow> value = None \<or> value \<noteq> Some []"

definition valid_leg :: "go_value \<Rightarrow> bool" where
  "valid_leg leg \<longleftrightarrow>
     \<not> (get_string ''c'' leg = [] \<or> (get_string ''o'' leg \<noteq> ''YES'' \<and> get_string ''o'' leg \<noteq> ''NO'') \<or>
        \<not> validRFQNonEmptyString (get_string_ptr ''s'' leg))"

definition validRFQPublicEvent :: "go_value \<Rightarrow> bool" where
  "validRFQPublicEvent event =
     (if get_string ''e'' event \<noteq> ''requestForQuote'' \<or> get_int ''E'' event < 0 \<or> get_string ''r'' event = [] \<or>
         \<not> validRFQLifecycleState (get_string ''S'' event) \<or> \<not> validRFQNonEmptyString (get_string_ptr ''s'' event) \<or>
         \<not> validRFQPlainDecimal (get_string_ptr ''n'' event) \<or> \<not> validRFQPlainDecimal (get_string_ptr ''q'' event) \<or>
         \<not> validRFQPlainDecimal (get_string_ptr ''f'' event) \<or>
         (get_string_ptr ''n'' event \<noteq> None \<and> get_string_ptr ''q'' event \<noteq> None)
      then False
      else list_all valid_leg (get_slice ''l'' event) \<and>
           list_all (\<lambda>n. case get_int_ptr n event of Some i \<Rightarrow> 0 \<le> i | None \<Rightarrow> True) [''w'', ''x'', ''c''])"

definition validRFQPrivateDelivery :: "go_value \<Rightarrow> bool" where
  "validRFQPrivateDelivery delivery =
     (if get_string ''e'' delivery \<noteq> ''requestForQuote'' \<or> get_string ''i'' delivery = [] \<or> get_int ''E'' delivery < 0 \<or>
         get_string ''r'' delivery = [] \<or> \<not> validRFQLifecycleState (get_string ''S'' delivery)
      then False
      else if \<not> validRFQNonEmptyString (get_string_ptr ''q'' delivery) \<or> \<not> validRFQPlainDecimal (get_string_ptr ''p'' delivery) \<or>
         \<not> validRFQPlainDecimal (get_string_ptr ''sz'' delivery) \<or>
         (case get_string_ptr ''qs'' delivery of Some s \<Rightarrow> \<not> validRFQQuoteStatus s | None \<Rightarrow> False) \<or>
         (case get_int_ptr ''vu'' delivery of Some i \<Rightarrow> i < 0 | None \<Rightarrow> False)
      then False
      else get_string ''x'' delivery \<in> {''CLOSED'', ''ACCEPTED'', ''CONFIRMED'', ''DECLINED'', ''FINALIZED'', ''FAILED''})"

section \<open>Routing\<close>

text \<open>\<open>bytes.Contains\<close>, and a literal in double quotes.\<close>

definition Contains :: "string \<Rightarrow> string \<Rightarrow> bool" where
  "Contains payload literal \<longleftrightarrow> list_ex (\<lambda>i. has_prefix (drop i payload) literal) [0..<Suc (length payload)]"

definition quoted :: "string \<Rightarrow> string" where
  "quoted s = CHR 0x22 # s @ [CHR 0x22]"

type_synonym delivery = "feed_kind \<times> nat \<times> go_value"

datatype snapshot_error = MalformedSnapshot | AmbiguousSnapshot

record dispatched =
  ds_sent :: "delivery list"
  ds_reports :: "snapshot_error list"
  ds_malformed :: bool
  ds_client :: ws_client

definition sent :: "delivery list \<Rightarrow> ws_client \<Rightarrow> dispatched" where
  "sent ds c = \<lparr>ds_sent = ds, ds_reports = [], ds_malformed = False, ds_client = c\<rparr>"

definition reported :: "snapshot_error \<Rightarrow> ws_client \<Rightarrow> dispatched" where
  "reported e c = \<lparr>ds_sent = [], ds_reports = [e], ds_malformed = False, ds_client = c\<rparr>"

definition send_to :: "feed_kind \<Rightarrow> string \<Rightarrow> sub_tables \<Rightarrow> go_value \<Rightarrow> delivery list" where
  "send_to kind key tables w = map (\<lambda>sub. (kind, sub, w)) (subs_of (tables kind) key)"

definition send_all :: "feed_kind \<Rightarrow> sub_tables \<Rightarrow> go_value \<Rightarrow> delivery list" where
  "send_all kind tables w = concat (map (\<lambda>(key, subs). map (\<lambda>sub. (kind, sub, w)) subs) (tables kind))"

definition with_symbol :: "go_value \<Rightarrow> go_value" where
  "with_symbol w = set_field ''s'' (VString (ToUpper (get_string ''s'' w))) w"

text \<open>The explicit event type of a frame, from a map of raw members.\<close>

definition explicit_type :: "json \<Rightarrow> string option" where
  "explicit_type v =
     (case v of
        JObj ms \<Rightarrow>
          Some (case find (\<lambda>m. fst m = ''e'') (rev ms) of Some (_, JStr s) \<Rightarrow> s | _ \<Rightarrow> [])
      | JNull \<Rightarrow> Some []
      | _ \<Rightarrow> None)"

definition dispatch_order :: "sub_tables \<Rightarrow> string \<Rightarrow> json \<Rightarrow> ws_client \<Rightarrow> dispatched option" where
  "dispatch_order tables payload v c =
     (if Contains payload (quoted ''order'') \<or> Contains payload (quoted ''orderUpdate'') then
        (case explicit_type v of
           None \<Rightarrow> None
         | Some t \<Rightarrow>
             if t = ''order'' \<or> t = ''orderUpdate''
             then Some (sent (case Unmarshal ws_order_event v of Some w \<Rightarrow> send_all OrderFeed tables w | None \<Rightarrow> []) c)
             else None)
      else None)"

definition dispatch_rfq :: "sub_tables \<Rightarrow> string \<Rightarrow> json \<Rightarrow> ws_client \<Rightarrow> dispatched option" where
  "dispatch_rfq tables payload v c =
     (if \<not> Contains payload (quoted ''requestForQuote'') then None
      else case Unmarshal rfq_envelope v of
        None \<Rightarrow> None
      | Some envelope \<Rightarrow>
          if get_string ''e'' envelope \<noteq> ''requestForQuote'' then None
          else if get_string ''i'' envelope \<noteq> [] then
            Some (sent (case Unmarshal rfq_private_delivery v of
                None \<Rightarrow> []
              | Some delivery \<Rightarrow> if validRFQPrivateDelivery delivery then send_all RFQPrivateFeed tables delivery else []) c)
          else
            Some (sent (case Unmarshal rfq_public_event v of
                None \<Rightarrow> []
              | Some event \<Rightarrow> if validRFQPublicEvent event then send_to RFQPublicFeed ''requestForQuote'' tables event else []) c))"

definition snapshotPendingGeneration :: "ws_client \<Rightarrow> string \<Rightarrow> nat option" where
  "snapshotPendingGeneration c symbol = map_of (wc_snapshotPending c) (ToUpper symbol)"

definition uniqueSnapshotSymbol :: "sub_tables \<Rightarrow> string option" where
  "uniqueSnapshotSymbol tables =
     (let candidates = remdups (map fst (filter (\<lambda>(symbol, subs). subs \<noteq> []) (tables DepthFeed @ tables PartialDepthFeed)))
      in if length candidates \<noteq> 1 then None else Some (hd candidates))"

definition snapshot_value :: "string \<Rightarrow> go_value \<Rightarrow> int \<Rightarrow> go_value" where
  "snapshot_value symbol envelope lastID = VStruct
     [(''e'', VString []), (''E'', VInt (get_int ''E'' envelope)), (''s'', VString symbol), (''lastUpdateId'', VInt lastID),
      (''bids'', field_value ''bids'' (members envelope)), (''asks'', field_value ''asks'' (members envelope))]"

definition snapshot_update :: "string \<Rightarrow> go_value \<Rightarrow> int \<Rightarrow> go_value" where
  "snapshot_update symbol envelope lastID = VStruct
     [(''e'', VString ''depthUpdate''), (''E'', VInt (get_int ''E'' envelope)), (''s'', VString symbol), (''U'', VInt lastID),
      (''u'', VInt lastID), (''b'', field_value ''bids'' (members envelope)), (''a'', field_value ''asks'' (members envelope)),
      (''Snapshot'', VBool True)]"

text \<open>A snapshot whose symbol is known.\<close>

definition deliver_snapshot ::
  "sub_tables \<Rightarrow> go_value \<Rightarrow> int \<Rightarrow> bool \<Rightarrow> string \<Rightarrow> nat \<Rightarrow> ws_client \<Rightarrow> dispatched" where
  "deliver_snapshot tables envelope lastID symbolLess symbol generation c =
     (if (case snapshotPendingGeneration c symbol of Some pending \<Rightarrow> generation < pending | None \<Rightarrow> False) then sent [] c
      else
        let partial = send_to PartialDepthFeed symbol tables (snapshot_value symbol envelope lastID)
        in if symbolLess \<and> 0 < length (subs_of (tables PartialDepthFeed) symbol) then sent partial c
           else if length (subs_of (tables DepthFeed) symbol) = 0 then sent partial c
           else
             let c' = (case snapshotPendingGeneration c symbol of
                 Some pending \<Rightarrow> if pending \<le> generation then snd (consumeSnapshotPending c symbol generation) else c
               | None \<Rightarrow> c)
             in sent (partial @ send_to DepthFeed symbol tables (snapshot_update symbol envelope lastID)) c')"

definition dispatchOrderBookSnapshot ::
  "sub_tables \<Rightarrow> string \<Rightarrow> json \<Rightarrow> nat \<Rightarrow> ws_client \<Rightarrow> dispatched option" where
  "dispatchOrderBookSnapshot tables payload v generation c =
     (if \<not> Contains payload (quoted ''lastUpdateId'') \<or> \<not> Contains payload (quoted ''bids'') \<or> \<not> Contains payload (quoted ''asks'')
      then None
      else case Unmarshal snapshot_envelope v of
        None \<Rightarrow> Some (reported MalformedSnapshot c)
      | Some envelope \<Rightarrow>
          (case get_int_ptr ''lastUpdateId'' envelope of
             None \<Rightarrow> Some (reported MalformedSnapshot c)
           | Some lastID \<Rightarrow>
               if lastID \<le> 0 \<or> field_value ''bids'' (members envelope) = VNil \<or> field_value ''asks'' (members envelope) = VNil
               then Some (reported MalformedSnapshot c)
               else
                 let symbolLess = (TrimSpace (get_string ''symbol'' envelope) = [])
                 in if symbolLess then
                      (case uniqueSnapshotSymbol tables of
                         None \<Rightarrow> Some (reported AmbiguousSnapshot c)
                       | Some symbol \<Rightarrow> Some (deliver_snapshot tables envelope lastID True symbol generation c))
                    else Some (deliver_snapshot tables envelope lastID False (ToUpper (get_string ''symbol'' envelope)) generation c)))"

definition dispatch_depth :: "sub_tables \<Rightarrow> string \<Rightarrow> json \<Rightarrow> nat \<Rightarrow> ws_client \<Rightarrow> dispatched option" where
  "dispatch_depth tables payload v generation c =
     (if \<not> Contains payload (quoted ''depthUpdate'') \<and> \<not> Contains payload (quoted ''U'') then None
      else case Unmarshal (GStruct depth_update_fields) v of
        None \<Rightarrow> None
      | Some update \<Rightarrow>
          if get_string ''e'' update \<noteq> ''depthUpdate'' \<and> get_int ''U'' update \<le> 0 then None
          else
            let symbol = ToUpper (get_string ''s'' update);
                (consumed, c') = consumeSnapshotPending c symbol generation;
                w = VStruct (members (with_symbol update) @ [(''Snapshot'', VBool consumed)])
            in Some (sent (send_to DepthFeed symbol tables w) c'))"

text \<open>The remaining public events: the probe, the type, the condition, the table.\<close>

definition dispatch_public ::
  "feed_kind \<Rightarrow> bool \<Rightarrow> go_type \<Rightarrow> (go_value \<Rightarrow> bool) \<Rightarrow> sub_tables \<Rightarrow> json \<Rightarrow> ws_client \<Rightarrow> dispatched option" where
  "dispatch_public kind probe t accepted tables v c =
     (if \<not> probe then None
      else case Unmarshal t v of
        None \<Rightarrow> None
      | Some w \<Rightarrow>
          if accepted w then Some (sent (send_to kind (ToUpper (get_string ''s'' w)) tables (with_symbol w)) c) else None)"

definition dispatch_trade :: "sub_tables \<Rightarrow> string \<Rightarrow> json \<Rightarrow> ws_client \<Rightarrow> dispatched option" where
  "dispatch_trade tables payload v c =
     dispatch_public TradeFeed (Contains payload (quoted ''trade'') \<or> Contains payload (quoted ''t'')) trade_event
       (\<lambda>w. get_string ''e'' w = ''trade'' \<or> 0 < get_int ''t'' w) tables v c"

definition dispatch_ticker :: "sub_tables \<Rightarrow> string \<Rightarrow> json \<Rightarrow> ws_client \<Rightarrow> dispatched option" where
  "dispatch_ticker tables payload v c =
     dispatch_public TickerFeed
       (Contains payload (quoted ''bookTicker'') \<or> (Contains payload (quoted ''b'') \<and> Contains payload (quoted ''a''))) book_ticker
       (\<lambda>w. get_string ''b'' w \<noteq> []) tables v c"

definition dispatch_contract :: "sub_tables \<Rightarrow> string \<Rightarrow> json \<Rightarrow> ws_client \<Rightarrow> dispatched option" where
  "dispatch_contract tables payload v c =
     (if \<not> Contains payload (quoted ''contractStatus'') then None
      else case Unmarshal contract_status_event v of
        None \<Rightarrow> None
      | Some contract \<Rightarrow>
          if get_string ''e'' contract \<noteq> ''contractStatus'' \<and> get_int ''i'' contract \<le> 0 then None
          else
            let symbol = ToUpper (get_string ''s'' contract);
                w = with_symbol contract
            in Some (sent
                 ((if symbol \<noteq> [] then send_to ContractFeed symbol tables w else []) @
                  send_to ContractFeed [] tables w @ send_to ContractFeed ''*'' tables w) c))"

definition dispatch_account ::
  "feed_kind \<Rightarrow> bool \<Rightarrow> go_type \<Rightarrow> (go_value \<Rightarrow> bool) \<Rightarrow> sub_tables \<Rightarrow> json \<Rightarrow> ws_client \<Rightarrow> dispatched option" where
  "dispatch_account kind probe t accepted tables v c =
     (if \<not> probe then None
      else case Unmarshal t v of
        None \<Rightarrow> None
      | Some w \<Rightarrow> if accepted w then Some (sent (send_all kind tables w) c) else None)"

definition dispatch_balance :: "sub_tables \<Rightarrow> string \<Rightarrow> json \<Rightarrow> ws_client \<Rightarrow> dispatched option" where
  "dispatch_balance tables payload v c =
     dispatch_account BalanceFeed (Contains payload (quoted ''balanceUpdate'')) balance_update
       (\<lambda>w. get_string ''e'' w = ''balanceUpdate'') tables v c"

definition dispatch_position :: "sub_tables \<Rightarrow> string \<Rightarrow> json \<Rightarrow> ws_client \<Rightarrow> dispatched option" where
  "dispatch_position tables payload v c =
     dispatch_account PositionFeed (Contains payload (quoted ''positionReport'')) position_report
       (\<lambda>w. get_string ''e'' w = ''positionReport'') tables v c"

definition dispatch_settlement :: "sub_tables \<Rightarrow> string \<Rightarrow> json \<Rightarrow> ws_client \<Rightarrow> dispatched option" where
  "dispatch_settlement tables payload v c =
     dispatch_account SettleFeed (Contains payload (quoted ''settlements'')) settlement_update
       (\<lambda>w. get_string ''type'' w = ''settlements'' \<or> 0 < length (get_slice ''settlements'' w)) tables v c"

text \<open>The last probe, for frames the fast tests missed.\<close>

definition dispatch_fallback :: "sub_tables \<Rightarrow> json \<Rightarrow> ws_client \<Rightarrow> dispatched" where
  "dispatch_fallback tables v c =
     (case Unmarshal event_probe v of
        None \<Rightarrow> \<lparr>ds_sent = [], ds_reports = [], ds_malformed = True, ds_client = c\<rparr>
      | Some probe \<Rightarrow>
          let t = get_string ''e'' probe;
              all = (\<lambda>kind. case Unmarshal (event_type kind) v of Some w \<Rightarrow> send_all kind tables w | None \<Rightarrow> [])
          in sent
               ((if t = ''order'' \<or> t = ''orderUpdate'' then all OrderFeed
                 else if t = ''balanceUpdate'' then all BalanceFeed
                 else if t = ''positionReport'' then all PositionFeed else []) @
                (if get_string ''type'' probe = ''settlements'' then all SettleFeed else [])) c)"

definition or_else :: "'a option \<Rightarrow> 'a option \<Rightarrow> 'a option" where
  "or_else a b = (case a of Some x \<Rightarrow> Some x | None \<Rightarrow> b)"

definition dispatch_event :: "sub_tables \<Rightarrow> string \<Rightarrow> json \<Rightarrow> nat \<Rightarrow> ws_client \<Rightarrow> dispatched" where
  "dispatch_event tables payload v generation c =
     (case foldr or_else
        [dispatch_order tables payload v c, dispatch_rfq tables payload v c, dispatchOrderBookSnapshot tables payload v generation c,
         dispatch_depth tables payload v generation c, dispatch_trade tables payload v c, dispatch_ticker tables payload v c,
         dispatch_contract tables payload v c, dispatch_balance tables payload v c, dispatch_position tables payload v c,
         dispatch_settlement tables payload v c] None of
        Some d \<Rightarrow> d
      | None \<Rightarrow> dispatch_fallback tables v c)"

datatype frame_error = FrameResponse conn_error | FrameMalformed

definition dispatchFrame :: "sub_tables \<Rightarrow> string \<Rightarrow> nat \<Rightarrow> ws_conn \<Rightarrow>
    delivery list \<times> snapshot_error list \<times> frame_error option \<times> ws_conn" where
  "dispatchFrame tables payload generation c =
     (if State c = StateClosed then ([], [], None, c)
      else case dispatchResponse payload c of
        (True, e, c') \<Rightarrow> ([], [], map_option FrameResponse e, c')
      | (False, _, _) \<Rightarrow>
          (case parse_json payload of
             None \<Rightarrow> ([], [], Some FrameMalformed, c)
           | Some v \<Rightarrow>
               let d = dispatch_event tables payload v generation (cn_ws c)
               in (ds_sent d, ds_reports d, if ds_malformed d then Some FrameMalformed else None, c\<lparr>cn_ws := ds_client d\<rparr>)))"

end
