(* ===== verification/DispatchSpec.thy ===== *)
theory DispatchSpec
  imports Dispatch
begin

text \<open>
  What the routing of frames promises: a frame is routed as the first class of a table that it is of, and its
  events go to exactly the subscribers they are addressed to, as well-typed values of their feed; an order
  event goes to nobody else, and a snapshot without a symbol
  goes only to the one symbol it can mean, never to a newer subscription and never, when it is a partial
  snapshot, as the baseline of a differential book.
\<close>

section \<open>Well-typed routing\<close>

fun key_fits :: "feed_kind \<Rightarrow> string \<Rightarrow> go_value \<Rightarrow> bool" where
  "key_fits ContractFeed key w \<longleftrightarrow> key = get_string ''s'' w \<or> key = [] \<or> key = ''*''"
| "key_fits RFQPublicFeed key w \<longleftrightarrow> key = ''requestForQuote''"
| "key_fits kind key w \<longleftrightarrow> kind \<in> {DepthFeed, PartialDepthFeed, TradeFeed, TickerFeed} \<longrightarrow> key = get_string ''s'' w"

definition routed :: "sub_tables \<Rightarrow> delivery \<Rightarrow> bool" where
  "routed tables d =
     (case d of (kind, sub, w) \<Rightarrow>
        typed (event_type kind) w \<and>
        list_ex (\<lambda>(key, subs). sub \<in> set subs \<and> key_fits kind key w) (tables kind))"

lemmas type_defs = depth_update_fields_def levels_type_def order_book_snapshot_def book_ticker_def trade_event_def
  ws_order_event_def balance_update_def position_report_def settlement_update_def contract_status_event_def
  rfq_public_event_def rfq_private_delivery_def

lemma event_type_wf: "wf_type (event_type kind)" "wf_type (GStruct depth_update_fields)"
  by (cases kind) (simp_all add: type_defs)

lemma send_to_routed:
  assumes "typed (event_type kind) w" "key_fits kind key w"
  shows "list_all (routed tables) (send_to kind key tables w)"
proof (cases "map_of (tables kind) key")
  case (Some subs)
  then have "(key, subs) \<in> set (tables kind)" by (rule map_of_SomeD)
  then show ?thesis using assms Some by (auto simp: send_to_def subs_of_def list_all_iff routed_def list_ex_iff)
qed (simp add: send_to_def subs_of_def)

lemma send_all_routed:
  assumes "typed (event_type kind) w" "\<And>key. key_fits kind key w"
  shows "list_all (routed tables) (send_all kind tables w)"
  using assms by (fastforce simp: send_all_def list_all_iff routed_def list_ex_iff)

lemma unmarshal_event: "Unmarshal (event_type kind) v = Some w \<Longrightarrow> typed (event_type kind) w"
  using unmarshal_typed event_type_wf by blast

lemma struct_typed: "typed (GStruct fs) w \<Longrightarrow> w = VStruct (members w) \<and> fields_typed fs (members w)"
  by (cases w) auto

lemma with_symbol_typed:
  assumes "typed (GStruct fs) w" "distinct (map fst fs)" "(''s'', GString) \<in> set fs"
  shows "typed (GStruct fs) (with_symbol w)" "get_string ''s'' (with_symbol w) = ToUpper (get_string ''s'' w)"
proof -
  have w: "fields_typed fs (members w)" using struct_typed[OF assms(1)] by simp
  show "typed (GStruct fs) (with_symbol w)"
    using put_field_typed[OF w assms(2,3), of "VString (ToUpper (get_string ''s'' w))"] by (simp add: with_symbol_def set_field_def)
  have "''s'' \<in> fst ` set (members w)" using fields_names[OF w] assms(3) by (metis fst_conv image_eqI list.set_map)
  then show "get_string ''s'' (with_symbol w) = ToUpper (get_string ''s'' w)"
    by (simp add: with_symbol_def get_string_def set_field_def field_value_put)
qed

lemma get_int_typed:
  assumes "typed (GStruct fs) w" "distinct (map fst fs)" "(n, GInt64) \<in> set fs"
  shows "typed GInt64 (VInt (get_int n w))"
  using field_typed[of fs "members w" n GInt64] struct_typed[OF assms(1)] assms(2,3)
  by (auto simp: get_int_def split: go_value.splits)

lemma get_int_ptr_typed:
  assumes "typed (GStruct fs) w" "distinct (map fst fs)" "(n, GPtr GInt64) \<in> set fs" "get_int_ptr n w = Some i"
  shows "typed GInt64 (VInt i)"
  using field_typed[of fs "members w" n "GPtr GInt64"] struct_typed[OF assms(1)] assms(2-4)
  by (auto simp: get_int_ptr_def split: go_value.splits)

lemma snapshot_typed:
  assumes "Unmarshal snapshot_envelope v = Some envelope" "get_int_ptr ''lastUpdateId'' envelope = Some lastID"
  shows "typed order_book_snapshot (snapshot_value symbol envelope lastID)"
    "typed (event_type DepthFeed) (snapshot_update symbol envelope lastID)"
proof -
  let ?fs = "[(''lastUpdateId'', GPtr GInt64), (''E'', GInt64), (''symbol'', GString), (''bids'', levels_type), (''asks'', levels_type)]"
  have w: "wf_type snapshot_envelope" by (simp add: snapshot_envelope_def levels_type_def)
  then have t: "typed (GStruct ?fs) envelope" using unmarshal_typed assms(1) by (metis snapshot_envelope_def)
  have d: "distinct (map fst ?fs)" by simp
  have levels: "typed levels_type (field_value n (members envelope))" if "(n, levels_type) \<in> set ?fs" for n
    using field_typed[OF _ d that] struct_typed[OF t] by blast
  have "typed GInt64 (VInt (get_int ''E'' envelope))" "typed GInt64 (VInt lastID)"
    using get_int_typed[OF t d] get_int_ptr_typed[OF t d _ assms(2)] by simp_all
  moreover have "typed levels_type (field_value ''bids'' (members envelope))" "typed levels_type (field_value ''asks'' (members envelope))"
    by (rule levels, simp)+
  ultimately show "typed order_book_snapshot (snapshot_value symbol envelope lastID)"
    "typed (event_type DepthFeed) (snapshot_update symbol envelope lastID)"
    by (simp_all only: order_book_snapshot_def event_type.simps depth_update_fields_def snapshot_value_def snapshot_update_def
        typed.simps go_value.case list_all2_Cons append.simps prod.case list_all2_Nil)
qed

lemma order_routed: "dispatch_order tables payload v c = Some d \<Longrightarrow> list_all (routed tables) (ds_sent d)"
  using send_all_routed[OF unmarshal_event, of OrderFeed v _ tables]
  by (auto simp: dispatch_order_def sent_def split: if_splits option.splits)

lemma rfq_routed: "dispatch_rfq tables payload v c = Some d \<Longrightarrow> list_all (routed tables) (ds_sent d)"
  using send_all_routed[OF unmarshal_event, of RFQPrivateFeed v _ tables]
    send_to_routed[OF unmarshal_event, of RFQPublicFeed v _ "''requestForQuote''" tables]
  by (auto simp: dispatch_rfq_def sent_def split: if_splits option.splits)

lemma deliver_routed:
  assumes "typed order_book_snapshot (snapshot_value symbol envelope lastID)"
    "typed (event_type DepthFeed) (snapshot_update symbol envelope lastID)"
  shows "list_all (routed tables) (ds_sent (deliver_snapshot tables envelope lastID symbolLess symbol generation c))"
proof -
  have "list_all (routed tables) (send_to PartialDepthFeed symbol tables (snapshot_value symbol envelope lastID))"
    by (rule send_to_routed) (simp_all add: assms(1), simp add: snapshot_value_def get_string_def field_value_def)
  moreover have "list_all (routed tables) (send_to DepthFeed symbol tables (snapshot_update symbol envelope lastID))"
    by (rule send_to_routed[OF assms(2)]) (simp add: snapshot_update_def get_string_def field_value_def)
  ultimately show ?thesis by (simp add: deliver_snapshot_def sent_def Let_def)
qed

lemma snapshot_routed:
  assumes "dispatchOrderBookSnapshot tables payload v generation c = Some d"
  shows "list_all (routed tables) (ds_sent d)"
proof -
  consider e where "d = reported e c"
    | envelope lastID less symbol where "Unmarshal snapshot_envelope v = Some envelope"
        "get_int_ptr ''lastUpdateId'' envelope = Some lastID" "d = deliver_snapshot tables envelope lastID less symbol generation c"
    using assms by (fastforce simp: dispatchOrderBookSnapshot_def Let_def split: if_splits option.splits)
  then show ?thesis
  proof cases
    case (2 envelope lastID less symbol)
    then show ?thesis using deliver_routed snapshot_typed by simp
  qed (simp add: reported_def)
qed

lemma depth_routed:
  assumes "dispatch_depth tables payload v generation c = Some d"
  shows "list_all (routed tables) (ds_sent d)"
proof -
  obtain u where u: "Unmarshal (GStruct depth_update_fields) v = Some u"
    "ds_sent d = send_to DepthFeed (ToUpper (get_string ''s'' u)) tables
       (VStruct (members (with_symbol u) @ [(''Snapshot'', VBool (fst (consumeSnapshotPending c (ToUpper (get_string ''s'' u)) generation)))]))"
    using assms by (auto simp: dispatch_depth_def Let_def sent_def split: if_splits option.splits prod.splits)
  have t: "typed (GStruct depth_update_fields) u" using unmarshal_typed[OF event_type_wf(2) u(1)] .
  have "distinct (map fst depth_update_fields)" "(''s'', GString) \<in> set depth_update_fields"
    by (simp_all add: depth_update_fields_def)
  note s = with_symbol_typed[OF t this]
  have f: "fields_typed depth_update_fields (members (with_symbol u))" using struct_typed[OF s(1)] by simp
  have "typed (event_type DepthFeed) (VStruct (members (with_symbol u) @ [(''Snapshot'', VBool b)]))" for b
    by (simp add: list_all2_appendI[OF f])
  moreover have "get_string ''s'' (VStruct (members (with_symbol u) @ [(''Snapshot'', VBool b)])) = ToUpper (get_string ''s'' u)" for b
  proof -
    have "''s'' \<in> fst ` set (members (with_symbol u))"
      using fields_names[OF f] by (metis \<open>(''s'', GString) \<in> set depth_update_fields\<close> fst_conv image_eqI list.set_map)
    then have "map_of (members (with_symbol u)) ''s'' \<noteq> None" by (simp add: map_of_eq_None_iff)
    then show ?thesis using s(2) by (auto simp: get_string_def field_value_def map_add_def)
  qed
  ultimately show ?thesis unfolding u(2) by (intro send_to_routed) simp_all
qed

lemma public_routed:
  assumes "dispatch_public kind probe t accepted tables v c = Some d" "t = event_type kind" "kind = TradeFeed \<or> kind = TickerFeed"
  shows "list_all (routed tables) (ds_sent d)"
proof -
  obtain w where w: "Unmarshal t v = Some w" "ds_sent d = send_to kind (ToUpper (get_string ''s'' w)) tables (with_symbol w)"
    using assms(1) by (auto simp: dispatch_public_def sent_def split: if_splits option.splits)
  obtain fs where fs: "t = GStruct fs" "distinct (map fst fs)" "(''s'', GString) \<in> set fs"
    using assms(2,3) by (auto simp: type_defs)
  have "typed (GStruct fs) w" using unmarshal_event[of kind v w] w(1) assms(2) fs(1) by simp
  note s = with_symbol_typed[OF this fs(2,3)]
  show ?thesis unfolding w(2) using s fs(1) assms(2,3) by (intro send_to_routed) auto
qed

lemma contract_routed:
  assumes "dispatch_contract tables payload v c = Some d"
  shows "list_all (routed tables) (ds_sent d)"
proof -
  obtain w where w: "Unmarshal contract_status_event v = Some w"
    "ds_sent d = (if ToUpper (get_string ''s'' w) \<noteq> [] then send_to ContractFeed (ToUpper (get_string ''s'' w)) tables (with_symbol w) else []) @
       send_to ContractFeed [] tables (with_symbol w) @ send_to ContractFeed ''*'' tables (with_symbol w)"
    using assms by (auto simp: dispatch_contract_def Let_def sent_def split: if_splits option.splits)
  obtain fs where fs: "contract_status_event = GStruct fs" "distinct (map fst fs)" "(''s'', GString) \<in> set fs"
    by (auto simp: type_defs)
  have "typed (GStruct fs) w" using unmarshal_event[of ContractFeed v w] w(1) fs(1) by simp
  note s = with_symbol_typed[OF this fs(2,3)]
  have "list_all (routed tables) (send_to ContractFeed key tables (with_symbol w))"
    if "key = ToUpper (get_string ''s'' w) \<or> key = [] \<or> key = ''*''" for key
    using s fs(1) that by (intro send_to_routed) auto
  then show ?thesis unfolding w(2) by simp
qed

lemma account_routed:
  assumes "dispatch_account kind probe t accepted tables v c = Some d" "t = event_type kind"
    "kind = BalanceFeed \<or> kind = PositionFeed \<or> kind = SettleFeed"
  shows "list_all (routed tables) (ds_sent d)"
  using assms send_all_routed[OF unmarshal_event, of kind v _ tables]
  by (auto simp: dispatch_account_def sent_def split: if_splits option.splits)

lemma fallback_routed: "list_all (routed tables) (ds_sent (dispatch_fallback tables v c))"
proof -
  have "list_all (routed tables) (case Unmarshal (event_type kind) v of Some w \<Rightarrow> send_all kind tables w | None \<Rightarrow> [])"
    if "kind \<in> {OrderFeed, BalanceFeed, PositionFeed, SettleFeed}" for kind
    using send_all_routed[OF unmarshal_event, of kind v _ tables] that by (auto split: option.split)
  then show ?thesis by (simp add: dispatch_fallback_def sent_def Let_def del: event_type.simps split: option.split)
qed

lemma dispatch_routed: "list_all (routed tables) (ds_sent (dispatch_event tables payload v generation c))"
proof (cases "foldr or_else
        [dispatch_order tables payload v c, dispatch_rfq tables payload v c, dispatchOrderBookSnapshot tables payload v generation c,
         dispatch_depth tables payload v generation c, dispatch_trade tables payload v c, dispatch_ticker tables payload v c,
         dispatch_contract tables payload v c, dispatch_balance tables payload v c, dispatch_position tables payload v c,
         dispatch_settlement tables payload v c] None")
  case None
  show ?thesis unfolding dispatch_event_def None option.case by (rule fallback_routed)
next
  case (Some d)
  have trade: "list_all (routed tables) (ds_sent d)" if "dispatch_trade tables payload v c = Some d"
    using public_routed[OF that[unfolded dispatch_trade_def]] by simp
  have ticker: "list_all (routed tables) (ds_sent d)" if "dispatch_ticker tables payload v c = Some d"
    using public_routed[OF that[unfolded dispatch_ticker_def]] by simp
  have balance: "list_all (routed tables) (ds_sent d)" if "dispatch_balance tables payload v c = Some d"
    using account_routed[OF that[unfolded dispatch_balance_def]] by simp
  have position: "list_all (routed tables) (ds_sent d)" if "dispatch_position tables payload v c = Some d"
    using account_routed[OF that[unfolded dispatch_position_def]] by simp
  have settlement: "list_all (routed tables) (ds_sent d)" if "dispatch_settlement tables payload v c = Some d"
    using account_routed[OF that[unfolded dispatch_settlement_def]] by simp
  have "list_all (routed tables) (ds_sent d)"
    using Some order_routed rfq_routed snapshot_routed depth_routed trade ticker contract_routed balance position settlement
    unfolding foldr.simps or_else_def comp_def id_def by (auto split: option.splits)
  then show ?thesis unfolding dispatch_event_def Some option.case .
qed

section \<open>The routing table\<close>

text \<open>A reference for \<open>dispatch_event\<close>, in the terms of the feeds' documentation: what makes a frame one of a class,
  in the order in which the classes are tried; the events such a frame announces; and who receives an event.\<close>

datatype frame_class =
    OrderFrame | RFQFrame | SnapshotFrame | DepthFrame | TradeFrame | TickerFrame | ContractFrame | BalanceFrame | PositionFrame | SettlementFrame

definition frame_classes :: "frame_class list" where
  "frame_classes = [OrderFrame, RFQFrame, SnapshotFrame, DepthFrame, TradeFrame, TickerFrame, ContractFrame, BalanceFrame,
     PositionFrame, SettlementFrame]"

definition decodes :: "go_type \<Rightarrow> (go_value \<Rightarrow> bool) \<Rightarrow> json \<Rightarrow> bool" where
  "decodes t P v \<longleftrightarrow> (case Unmarshal t v of Some w \<Rightarrow> P w | None \<Rightarrow> False)"

text \<open>A class needs one of some sets of literals in the text, and a value that says what it is or that only its
  class has.\<close>

definition mentions :: "string \<Rightarrow> string list \<Rightarrow> bool" where
  "mentions payload names \<longleftrightarrow> list_all (\<lambda>n. Contains payload (quoted n)) names"

fun is_class :: "string \<Rightarrow> json \<Rightarrow> frame_class \<Rightarrow> bool" where
  "is_class payload v OrderFrame \<longleftrightarrow> list_ex (mentions payload) [[''order''], [''orderUpdate'']] \<and>
     (explicit_type v = Some ''order'' \<or> explicit_type v = Some ''orderUpdate'')"
| "is_class payload v RFQFrame \<longleftrightarrow> mentions payload [''requestForQuote''] \<and> decodes rfq_envelope (\<lambda>w. get_string ''e'' w = ''requestForQuote'') v"
| "is_class payload v SnapshotFrame \<longleftrightarrow> mentions payload [''lastUpdateId'', ''bids'', ''asks'']"
| "is_class payload v DepthFrame \<longleftrightarrow> list_ex (mentions payload) [[''depthUpdate''], [''U'']] \<and>
     decodes (GStruct depth_update_fields) (\<lambda>w. get_string ''e'' w = ''depthUpdate'' \<or> 0 < get_int ''U'' w) v"
| "is_class payload v TradeFrame \<longleftrightarrow> list_ex (mentions payload) [[''trade''], [''t'']] \<and>
     decodes trade_event (\<lambda>w. get_string ''e'' w = ''trade'' \<or> 0 < get_int ''t'' w) v"
| "is_class payload v TickerFrame \<longleftrightarrow> list_ex (mentions payload) [[''bookTicker''], [''b'', ''a'']] \<and>
     decodes book_ticker (\<lambda>w. get_string ''b'' w \<noteq> []) v"
| "is_class payload v ContractFrame \<longleftrightarrow> mentions payload [''contractStatus''] \<and>
     decodes contract_status_event (\<lambda>w. get_string ''e'' w = ''contractStatus'' \<or> 0 < get_int ''i'' w) v"
| "is_class payload v BalanceFrame \<longleftrightarrow> mentions payload [''balanceUpdate''] \<and>
     decodes balance_update (\<lambda>w. get_string ''e'' w = ''balanceUpdate'') v"
| "is_class payload v PositionFrame \<longleftrightarrow> mentions payload [''positionReport''] \<and>
     decodes position_report (\<lambda>w. get_string ''e'' w = ''positionReport'') v"
| "is_class payload v SettlementFrame \<longleftrightarrow> mentions payload [''settlements''] \<and>
     decodes settlement_update (\<lambda>w. get_string ''type'' w = ''settlements'' \<or> get_slice ''settlements'' w \<noteq> []) v"

text \<open>The events a frame of a class announces; the last clause is a frame of no class.\<close>

definition read_as :: "feed_kind \<Rightarrow> (go_value \<Rightarrow> bool) \<Rightarrow> json \<Rightarrow> (feed_kind \<times> go_value) list" where
  "read_as kind valid v = (case Unmarshal (event_type kind) v of Some w \<Rightarrow> if valid w then [(kind, w)] else [] | None \<Rightarrow> [])"

fun class_events :: "json \<Rightarrow> frame_class option \<Rightarrow> (feed_kind \<times> go_value) list" where
  "class_events v (Some OrderFrame) = read_as OrderFeed (\<lambda>_. True) v"
| "class_events v (Some RFQFrame) =
     (if decodes rfq_envelope (\<lambda>w. get_string ''i'' w \<noteq> []) v then read_as RFQPrivateFeed validRFQPrivateDelivery v
      else read_as RFQPublicFeed validRFQPublicEvent v)"
| "class_events v (Some DepthFrame) =
     (case Unmarshal (GStruct depth_update_fields) v of Some w \<Rightarrow> [(DepthFeed, w)] | None \<Rightarrow> [])"
| "class_events v (Some TradeFrame) = read_as TradeFeed (\<lambda>_. True) v"
| "class_events v (Some TickerFrame) = read_as TickerFeed (\<lambda>_. True) v"
| "class_events v (Some ContractFrame) = read_as ContractFeed (\<lambda>_. True) v"
| "class_events v (Some BalanceFrame) = read_as BalanceFeed (\<lambda>_. True) v"
| "class_events v (Some PositionFrame) = read_as PositionFeed (\<lambda>_. True) v"
| "class_events v (Some SettlementFrame) = read_as SettleFeed (\<lambda>_. True) v"
| "class_events v (Some SnapshotFrame) = []"
| "class_events v None =
     (if decodes event_probe (\<lambda>w. get_string ''e'' w = ''order'' \<or> get_string ''e'' w = ''orderUpdate'') v then read_as OrderFeed (\<lambda>_. True) v else []) @
     (if decodes event_probe (\<lambda>w. get_string ''e'' w = ''balanceUpdate'') v then read_as BalanceFeed (\<lambda>_. True) v else []) @
     (if decodes event_probe (\<lambda>w. get_string ''e'' w = ''positionReport'') v then read_as PositionFeed (\<lambda>_. True) v else []) @
     (if decodes event_probe (\<lambda>w. get_string ''type'' w = ''settlements'') v then read_as SettleFeed (\<lambda>_. True) v else [])"

text \<open>Who receives an event: the subscribers of its symbol, those of every contract as well, of the one public
  RFQ stream, or of every stream of an account.\<close>

definition recipients :: "sub_tables \<Rightarrow> feed_kind \<Rightarrow> go_value \<Rightarrow> nat list" where
  "recipients tables kind w =
     (let symbol = ToUpper (get_string ''s'' w); under = subs_of (tables kind)
      in if kind \<in> {DepthFeed, PartialDepthFeed, TradeFeed, TickerFeed} then under symbol
         else if kind = ContractFeed then (if symbol = [] then [] else under symbol) @ under [] @ under ''*''
         else if kind = RFQPublicFeed then under ''requestForQuote''
         else concat (map snd (tables kind)))"

text \<open>What a subscriber of a public feed is sent has the symbol in capitals, and a depth update a flag.\<close>

definition carries :: "feed_kind \<Rightarrow> go_value \<Rightarrow> go_value \<Rightarrow> bool" where
  "carries kind w value \<longleftrightarrow>
     (if kind = DepthFeed then \<exists>flag. value = VStruct (members (with_symbol w) @ [(''Snapshot'', VBool flag)])
      else value = (if kind \<in> {TradeFeed, TickerFeed, ContractFeed} then with_symbol w else w))"

definition addressed :: "sub_tables \<Rightarrow> (feed_kind \<times> go_value) list \<Rightarrow> delivery list" where
  "addressed tables events = concat (map (\<lambda>(kind, w). map (\<lambda>sub. (kind, sub, w)) (recipients tables kind w)) events)"

definition same_delivery :: "delivery \<Rightarrow> delivery \<Rightarrow> bool" where
  "same_delivery d e \<longleftrightarrow> (case (d, e) of ((kind, sub, value), (kind', sub', w)) \<Rightarrow> kind = kind' \<and> sub = sub' \<and> carries kind w value)"

abbreviation answers :: "sub_tables \<Rightarrow> delivery list \<Rightarrow> (feed_kind \<times> go_value) list \<Rightarrow> bool" where
  "answers tables ds events \<equiv> list_all2 same_delivery ds (addressed tables events)"

lemma addressed_simps:
  "addressed tables [] = []"
  "addressed tables ((kind, w) # events) = map (\<lambda>sub. (kind, sub, w)) (recipients tables kind w) @ addressed tables events"
  by (simp_all add: addressed_def)

lemma answers_each:
  "carries kind w value \<Longrightarrow> answers tables (map (\<lambda>sub. (kind, sub, value)) (recipients tables kind w)) [(kind, w)]"
  by (simp add: addressed_simps list.rel_map same_delivery_def list_all2_same)

lemma answers_append:
  "answers tables ds events \<Longrightarrow> answers tables ds' events' \<Longrightarrow> answers tables (ds @ ds') (events @ events')"
  by (simp add: addressed_def list_all2_appendI)

lemma send_all_addressed: "send_all kind tables w = map (\<lambda>sub. (kind, sub, w)) (concat (map snd (tables kind)))"
  by (simp add: send_all_def map_concat comp_def split_def)

definition account_kind :: "feed_kind \<Rightarrow> bool" where
  "account_kind kind \<longleftrightarrow> kind \<in> {OrderFeed, BalanceFeed, PositionFeed, SettleFeed, RFQPrivateFeed}"

lemma account_answers:
  assumes "account_kind kind"
  shows "answers tables (case Unmarshal (event_type kind) v of Some w \<Rightarrow> if valid w then send_all kind tables w else [] | None \<Rightarrow> [])
    (read_as kind valid v)"
proof -
  have "recipients tables kind w = concat (map snd (tables kind))" "carries kind w w" for w
    using assms by (auto simp: account_kind_def recipients_def carries_def)
  then show ?thesis
    using answers_each[of kind _ _ tables] by (auto simp: read_as_def send_all_addressed addressed_def split: option.split)
qed

lemma public_answers:
  assumes "kind = TradeFeed \<or> kind = TickerFeed" "Unmarshal (event_type kind) v = Some w"
  shows "answers tables (send_to kind (ToUpper (get_string ''s'' w)) tables (with_symbol w)) (read_as kind (\<lambda>_. True) v)"
proof -
  have "recipients tables kind w = subs_of (tables kind) (ToUpper (get_string ''s'' w))" "carries kind w (with_symbol w)"
    using assms(1) by (auto simp: recipients_def carries_def Let_def)
  then show ?thesis using answers_each[of kind w "with_symbol w" tables] assms(2) by (simp add: read_as_def send_to_def)
qed

lemma order_class:
  "dispatch_order tables payload v c = None \<longleftrightarrow> \<not> is_class payload v OrderFrame"
  "dispatch_order tables payload v c = Some d \<Longrightarrow> answers tables (ds_sent d) (class_events v (Some OrderFrame))"
  using account_answers[where kind = OrderFeed and valid = "\<lambda>_. True" and v = v and tables = tables]
  by (auto simp: dispatch_order_def mentions_def sent_def account_kind_def split: if_splits option.splits)

lemma rfq_class:
  "dispatch_rfq tables payload v c = None \<longleftrightarrow> \<not> is_class payload v RFQFrame"
  "dispatch_rfq tables payload v c = Some d \<Longrightarrow> answers tables (ds_sent d) (class_events v (Some RFQFrame))"
proof -
  show "dispatch_rfq tables payload v c = None \<longleftrightarrow> \<not> is_class payload v RFQFrame"
    by (auto simp: dispatch_rfq_def mentions_def decodes_def split: option.splits)
  have public: "answers tables (case Unmarshal rfq_public_event v of
        None \<Rightarrow> [] | Some event \<Rightarrow> if validRFQPublicEvent event then send_to RFQPublicFeed ''requestForQuote'' tables event else [])
      (read_as RFQPublicFeed validRFQPublicEvent v)"
    using answers_each[of RFQPublicFeed _ _ tables]
    by (auto simp: read_as_def send_to_def recipients_def carries_def addressed_def split: option.split)
  show "answers tables (ds_sent d) (class_events v (Some RFQFrame))" if "dispatch_rfq tables payload v c = Some d"
    using that account_answers[where kind = RFQPrivateFeed and valid = validRFQPrivateDelivery and v = v and tables = tables] public
    by (auto simp: dispatch_rfq_def sent_def decodes_def account_kind_def split: if_splits option.splits)
qed

lemma snapshot_class:
  "dispatchOrderBookSnapshot tables payload v generation c = None \<longleftrightarrow> \<not> is_class payload v SnapshotFrame"
  "dispatchOrderBookSnapshot tables payload v generation c = Some d \<Longrightarrow>
     list_all (\<lambda>(kind, sub, w). kind \<in> {PartialDepthFeed, DepthFeed}) (ds_sent d)"
proof -
  show "dispatchOrderBookSnapshot tables payload v generation c = None \<longleftrightarrow> \<not> is_class payload v SnapshotFrame"
    by (auto simp: dispatchOrderBookSnapshot_def mentions_def Let_def split: option.splits)
  have to: "list_all (\<lambda>(kind, sub, w). kind \<in> {PartialDepthFeed, DepthFeed}) (ds_sent (deliver_snapshot tables envelope lastID less symbol generation c))"
    for envelope lastID less symbol
    by (auto simp: deliver_snapshot_def sent_def send_to_def Let_def list_all_iff)
  show "list_all (\<lambda>(kind, sub, w). kind \<in> {PartialDepthFeed, DepthFeed}) (ds_sent d)"
    if "dispatchOrderBookSnapshot tables payload v generation c = Some d"
    using that to by (auto simp: dispatchOrderBookSnapshot_def reported_def Let_def split: if_splits option.splits)
qed

lemma depth_class:
  "dispatch_depth tables payload v generation c = None \<longleftrightarrow> \<not> is_class payload v DepthFrame"
  "dispatch_depth tables payload v generation c = Some d \<Longrightarrow> answers tables (ds_sent d) (class_events v (Some DepthFrame))"
proof -
  show "dispatch_depth tables payload v generation c = None \<longleftrightarrow> \<not> is_class payload v DepthFrame"
    by (auto simp: dispatch_depth_def mentions_def decodes_def Let_def not_le split: option.splits prod.splits)
  show "answers tables (ds_sent d) (class_events v (Some DepthFrame))" if d: "dispatch_depth tables payload v generation c = Some d"
  proof -
    obtain u flag where u: "Unmarshal (GStruct depth_update_fields) v = Some u"
      "ds_sent d = send_to DepthFeed (ToUpper (get_string ''s'' u)) tables (VStruct (members (with_symbol u) @ [(''Snapshot'', VBool flag)]))"
      using d by (auto simp: dispatch_depth_def Let_def sent_def split: if_splits option.splits prod.splits)
    have "recipients tables DepthFeed u = subs_of (tables DepthFeed) (ToUpper (get_string ''s'' u))"
      by (simp add: recipients_def Let_def)
    then show ?thesis
      using answers_each[of DepthFeed u "VStruct (members (with_symbol u) @ [(''Snapshot'', VBool flag)])" tables] u
      by (simp add: send_to_def carries_def)
  qed
qed

lemma public_class:
  assumes "kind = TradeFeed \<or> kind = TickerFeed"
  shows "dispatch_public kind probe (event_type kind) accepted tables v c = None \<longleftrightarrow> \<not> (probe \<and> decodes (event_type kind) accepted v)"
    "dispatch_public kind probe (event_type kind) accepted tables v c = Some d \<Longrightarrow> answers tables (ds_sent d) (read_as kind (\<lambda>_. True) v)"
  using public_answers[OF assms, of v]
  by (auto simp: dispatch_public_def decodes_def sent_def simp del: event_type.simps split: if_splits option.splits)

lemma trade_class:
  "dispatch_trade tables payload v c = None \<longleftrightarrow> \<not> is_class payload v TradeFrame"
  "dispatch_trade tables payload v c = Some d \<Longrightarrow> answers tables (ds_sent d) (class_events v (Some TradeFrame))"
  using public_class[of TradeFeed] by (auto simp add: dispatch_trade_def mentions_def)

lemma ticker_class:
  "dispatch_ticker tables payload v c = None \<longleftrightarrow> \<not> is_class payload v TickerFrame"
  "dispatch_ticker tables payload v c = Some d \<Longrightarrow> answers tables (ds_sent d) (class_events v (Some TickerFrame))"
  using public_class[of TickerFeed] by (auto simp add: dispatch_ticker_def mentions_def)

lemma contract_class:
  "dispatch_contract tables payload v c = None \<longleftrightarrow> \<not> is_class payload v ContractFrame"
  "dispatch_contract tables payload v c = Some d \<Longrightarrow> answers tables (ds_sent d) (class_events v (Some ContractFrame))"
proof -
  show "dispatch_contract tables payload v c = None \<longleftrightarrow> \<not> is_class payload v ContractFrame"
    by (auto simp: dispatch_contract_def mentions_def decodes_def Let_def not_le split: option.splits)
  show "answers tables (ds_sent d) (class_events v (Some ContractFrame))" if d: "dispatch_contract tables payload v c = Some d"
  proof -
    obtain w where w: "Unmarshal contract_status_event v = Some w"
      "ds_sent d = (if ToUpper (get_string ''s'' w) \<noteq> [] then send_to ContractFeed (ToUpper (get_string ''s'' w)) tables (with_symbol w) else []) @
         send_to ContractFeed [] tables (with_symbol w) @ send_to ContractFeed ''*'' tables (with_symbol w)"
      using d by (auto simp: dispatch_contract_def Let_def sent_def split: if_splits option.splits)
    have "ds_sent d = map (\<lambda>sub. (ContractFeed, sub, with_symbol w)) (recipients tables ContractFeed w)"
      unfolding w(2) by (simp add: recipients_def send_to_def Let_def)
    then show ?thesis using answers_each[of ContractFeed w "with_symbol w" tables] w(1) by (simp add: read_as_def carries_def)
  qed
qed

lemma account_class:
  assumes "account_kind kind"
  shows "dispatch_account kind probe (event_type kind) accepted tables v c = None \<longleftrightarrow> \<not> (probe \<and> decodes (event_type kind) accepted v)"
    "dispatch_account kind probe (event_type kind) accepted tables v c = Some d \<Longrightarrow> answers tables (ds_sent d) (read_as kind (\<lambda>_. True) v)"
  using account_answers[OF assms, where valid = "\<lambda>_. True" and v = v and tables = tables]
  by (auto simp: dispatch_account_def decodes_def sent_def simp del: event_type.simps split: if_splits option.splits)

lemma balance_class:
  "dispatch_balance tables payload v c = None \<longleftrightarrow> \<not> is_class payload v BalanceFrame"
  "dispatch_balance tables payload v c = Some d \<Longrightarrow> answers tables (ds_sent d) (class_events v (Some BalanceFrame))"
  using account_class[of BalanceFeed] by (simp_all add: dispatch_balance_def mentions_def account_kind_def)

lemma position_class:
  "dispatch_position tables payload v c = None \<longleftrightarrow> \<not> is_class payload v PositionFrame"
  "dispatch_position tables payload v c = Some d \<Longrightarrow> answers tables (ds_sent d) (class_events v (Some PositionFrame))"
  using account_class[of PositionFeed] by (simp_all add: dispatch_position_def mentions_def account_kind_def)

lemma settlement_class:
  "dispatch_settlement tables payload v c = None \<longleftrightarrow> \<not> is_class payload v SettlementFrame"
  "dispatch_settlement tables payload v c = Some d \<Longrightarrow> answers tables (ds_sent d) (class_events v (Some SettlementFrame))"
  using account_class[of SettleFeed] by (simp_all add: dispatch_settlement_def mentions_def account_kind_def)

lemma fallback_class: "answers tables (ds_sent (dispatch_fallback tables v c)) (class_events v None)"
proof (cases "Unmarshal event_probe v")
  case None
  then show ?thesis by (simp add: dispatch_fallback_def decodes_def addressed_def)
next
  case (Some probe)
  have all: "answers tables (case Unmarshal (event_type kind) v of Some w \<Rightarrow> send_all kind tables w | None \<Rightarrow> []) (read_as kind (\<lambda>_. True) v)"
    if "account_kind kind" for kind
    using account_answers[OF that, where valid = "\<lambda>_. True" and v = v and tables = tables] unfolding if_True .
  have "answers tables [] []" by (simp add: addressed_def)
  then have "answers tables (if b then case Unmarshal (event_type kind) v of Some w \<Rightarrow> send_all kind tables w | None \<Rightarrow> [] else [])
      (if b then read_as kind (\<lambda>_. True) v else [])" if "account_kind kind" for kind b
    using all[OF that] by simp
  note part = this
  have "ds_sent (dispatch_fallback tables v c) =
      (if get_string ''e'' probe = ''order'' \<or> get_string ''e'' probe = ''orderUpdate''
       then case Unmarshal (event_type OrderFeed) v of Some w \<Rightarrow> send_all OrderFeed tables w | None \<Rightarrow> [] else []) @
      (if get_string ''e'' probe = ''balanceUpdate''
       then case Unmarshal (event_type BalanceFeed) v of Some w \<Rightarrow> send_all BalanceFeed tables w | None \<Rightarrow> [] else []) @
      (if get_string ''e'' probe = ''positionReport''
       then case Unmarshal (event_type PositionFeed) v of Some w \<Rightarrow> send_all PositionFeed tables w | None \<Rightarrow> [] else []) @
      (if get_string ''type'' probe = ''settlements''
       then case Unmarshal (event_type SettleFeed) v of Some w \<Rightarrow> send_all SettleFeed tables w | None \<Rightarrow> [] else [])"
    by (auto simp: dispatch_fallback_def Some sent_def Let_def simp del: event_type.simps)
  moreover have "class_events v None =
      (if get_string ''e'' probe = ''order'' \<or> get_string ''e'' probe = ''orderUpdate'' then read_as OrderFeed (\<lambda>_. True) v else []) @
      (if get_string ''e'' probe = ''balanceUpdate'' then read_as BalanceFeed (\<lambda>_. True) v else []) @
      (if get_string ''e'' probe = ''positionReport'' then read_as PositionFeed (\<lambda>_. True) v else []) @
      (if get_string ''type'' probe = ''settlements'' then read_as SettleFeed (\<lambda>_. True) v else [])"
    by (simp add: decodes_def Some)
  ultimately show ?thesis
    using part by (simp only:) (intro answers_append; simp add: account_kind_def del: event_type.simps)
qed

lemma first_class:
  "list_all2 (\<lambda>cl r. r = None \<longleftrightarrow> \<not> P cl) cls rs \<Longrightarrow>
     (case find P cls of
        None \<Rightarrow> foldr or_else rs None = None
      | Some cl \<Rightarrow> \<exists>d. foldr or_else rs None = Some d \<and> (cl, Some d) \<in> set (zip cls rs))"
proof (induction rule: list_all2_induct)
  case (Cons cl cls r rs)
  then show ?case by (cases r) (auto simp: or_else_def split: option.splits)
qed simp

text \<open>C10: A frame is routed by the first class of the table that it is of: each of the events the frame announces goes,
  once, to each subscriber of its own feed that it is addressed to, in order, and nothing else is sent. A frame of
  no class is probed once more for the events of an account. Snapshots go to the two depth feeds only; where
  among them is the next section's. Every value sent has the Go type of its feed.\<close>

theorem frames_follow_routing_table:
  "(let ds = ds_sent (dispatch_event tables payload v generation c); class_of = find (is_class payload v) frame_classes
    in if class_of = Some SnapshotFrame then list_all (\<lambda>(kind, sub, w). kind \<in> {PartialDepthFeed, DepthFeed}) ds
       else list_all2 same_delivery ds (addressed tables (class_events v class_of))) \<and>
   list_all (routed tables) (ds_sent (dispatch_event tables payload v generation c))"
proof (rule conjI)
  show "list_all (routed tables) (ds_sent (dispatch_event tables payload v generation c))" by (rule dispatch_routed)
  let ?rs = "[dispatch_order tables payload v c, dispatch_rfq tables payload v c, dispatchOrderBookSnapshot tables payload v generation c,
     dispatch_depth tables payload v generation c, dispatch_trade tables payload v c, dispatch_ticker tables payload v c,
     dispatch_contract tables payload v c, dispatch_balance tables payload v c, dispatch_position tables payload v c,
     dispatch_settlement tables payload v c]"
  have "list_all2 (\<lambda>cl r. r = None \<longleftrightarrow> \<not> is_class payload v cl) frame_classes ?rs"
    unfolding frame_classes_def list_all2_Cons list_all2_Nil order_class(1) rfq_class(1) snapshot_class(1) depth_class(1) trade_class(1)
      ticker_class(1) contract_class(1) balance_class(1) position_class(1) settlement_class(1) by blast
  note first = first_class[OF this]
  show "let ds = ds_sent (dispatch_event tables payload v generation c); class_of = find (is_class payload v) frame_classes
    in if class_of = Some SnapshotFrame then list_all (\<lambda>(kind, sub, w). kind \<in> {PartialDepthFeed, DepthFeed}) ds
       else list_all2 same_delivery ds (addressed tables (class_events v class_of))"
  proof (cases "find (is_class payload v) frame_classes")
    case None
    then have "dispatch_event tables payload v generation c = dispatch_fallback tables v c"
      using first by (simp only: dispatch_event_def option.case)
    then show ?thesis using fallback_class None by (simp del: class_events.simps)
  next
    case (Some cl)
    then obtain d where d: "foldr or_else ?rs None = Some d" "(cl, Some d) \<in> set (zip frame_classes ?rs)"
      using first by (auto simp only: option.case)
    have e: "dispatch_event tables payload v generation c = d" by (simp only: dispatch_event_def d(1) option.case)
    have "if cl = SnapshotFrame then list_all (\<lambda>(kind, sub, w). kind \<in> {PartialDepthFeed, DepthFeed}) (ds_sent d)
       else answers tables (ds_sent d) (class_events v (Some cl))"
      using d(2) order_class(2) rfq_class(2) snapshot_class(2) depth_class(2) trade_class(2) ticker_class(2) contract_class(2)
        balance_class(2) position_class(2) settlement_class(2)
      unfolding frame_classes_def by (auto simp del: class_events.simps)
    then show ?thesis unfolding Let_def e Some option.inject .
  qed
qed

section \<open>Snapshots\<close>

lemma unique_symbol:
  assumes "uniqueSnapshotSymbol tables = Some symbol" "kind \<in> {DepthFeed, PartialDepthFeed}" "(key, subs) \<in> set (tables kind)" "subs \<noteq> []"
  shows "key = symbol"
proof -
  let ?cs = "remdups (map fst (filter (\<lambda>(symbol, subs). subs \<noteq> []) (tables DepthFeed @ tables PartialDepthFeed)))"
  have one: "length ?cs = 1" "hd ?cs = symbol" using assms(1) by (auto simp: uniqueSnapshotSymbol_def Let_def split: if_splits)
  have "?cs = [symbol]" using one by (cases ?cs) (simp_all del: set_remdups filter_append map_append)
  then have "set ?cs = {symbol}" by (metis list.set)
  moreover have "key \<in> set ?cs" using assms(2-4) by (force simp: image_iff)
  ultimately show ?thesis by blast
qed

lemma consumed_pending: "map_of (wc_snapshotPending (snd (consumeSnapshotPending c symbol generation))) (ToUpper symbol) = None \<or>
    (\<exists>p. map_of (wc_snapshotPending c) (ToUpper symbol) = Some p \<and> generation < p)"
  by (auto simp: consumeSnapshotPending_def AList.delete_conv' split: option.split)

definition snapshot_send_ok :: "sub_tables \<Rightarrow> bool \<Rightarrow> nat \<Rightarrow> ws_client \<Rightarrow> ws_client \<Rightarrow> delivery \<Rightarrow> bool" where
  "snapshot_send_ok tables symbolLess generation c c' d =
     (case d of (kind, sub, w) \<Rightarrow>
        kind \<in> {DepthFeed, PartialDepthFeed} \<and>
        (\<forall>p. snapshotPendingGeneration c (get_string ''s'' w) = Some p \<longrightarrow> p \<le> generation) \<and>
        (kind = DepthFeed \<longrightarrow> snapshotPendingGeneration c' (get_string ''s'' w) = None \<and>
           field_value ''Snapshot'' (members w) = VBool True \<and> get_int ''U'' w = get_int ''u'' w \<and> 0 < get_int ''U'' w \<and>
           (symbolLess \<longrightarrow> subs_of (tables PartialDepthFeed) (get_string ''s'' w) = [])))"

lemma snapshot_fields:
  "get_string ''s'' (snapshot_value symbol envelope lastID) = symbol"
  "get_string ''s'' (snapshot_update symbol envelope lastID) = symbol"
  "get_int ''U'' (snapshot_update symbol envelope lastID) = lastID"
  "get_int ''u'' (snapshot_update symbol envelope lastID) = lastID"
  "field_value ''Snapshot'' (members (snapshot_update symbol envelope lastID)) = VBool True"
  by (simp_all add: snapshot_value_def snapshot_update_def get_string_def get_int_def field_value_def)

lemma deliver_ok:
  fixes tables envelope symbolLess symbol generation c
  assumes "0 < lastID"
  defines "d \<equiv> deliver_snapshot tables envelope lastID symbolLess symbol generation c"
  shows "list_all (snapshot_send_ok tables symbolLess generation c (ds_client d)) (ds_sent d)"
    "list_all (\<lambda>(kind, sub, w). get_string ''s'' w = symbol) (ds_sent d)" "ds_reports d = []"
proof -
  show "list_all (\<lambda>(kind, sub, w). get_string ''s'' w = symbol) (ds_sent d)" "ds_reports d = []"
    by (auto simp: d_def deliver_snapshot_def sent_def Let_def send_to_def list_all_iff snapshot_fields)
  show "list_all (snapshot_send_ok tables symbolLess generation c (ds_client d)) (ds_sent d)"
  proof (cases "snapshotPendingGeneration c symbol")
    case None
    then show ?thesis
      using assms(1) by (auto simp: d_def deliver_snapshot_def sent_def Let_def send_to_def list_all_iff snapshot_fields snapshot_send_ok_def)
  next
    case (Some p)
    have "snapshotPendingGeneration (snd (consumeSnapshotPending c symbol generation)) symbol = None" if "p \<le> generation"
      using consumed_pending[of c symbol generation] Some that by (auto simp: snapshotPendingGeneration_def)
    then show ?thesis
      using assms(1) Some
      by (auto simp: d_def deliver_snapshot_def sent_def Let_def send_to_def list_all_iff snapshot_fields snapshot_send_ok_def)
  qed
qed

text \<open>C11: A snapshot frame either is reported and changes nothing, or is sent only to depth subscribers, as
  a baseline with one positive update id. Without a symbol of its own it is sent only when exactly one
  symbol has depth subscribers, and never as a differential baseline where a partial feed is subscribed.
  A frame older than a pending subscription reaches nobody, and a baseline clears the pending mark.\<close>

theorem snapshot_never_misrouted:
  assumes "dispatchOrderBookSnapshot tables payload v generation c = Some d" "Unmarshal snapshot_envelope v = Some envelope"
  shows "(ds_reports d = [] \<or> ds_sent d = [] \<and> ds_client d = c) \<and>
    list_all (snapshot_send_ok tables (TrimSpace (get_string ''symbol'' envelope) = []) generation c (ds_client d)) (ds_sent d) \<and>
    (TrimSpace (get_string ''symbol'' envelope) = [] \<and> ds_sent d \<noteq> [] \<longrightarrow>
       (\<exists>symbol. list_all (\<lambda>(kind, sub, w). get_string ''s'' w = symbol) (ds_sent d) \<and>
          (\<forall>kind\<in>{DepthFeed, PartialDepthFeed}. \<forall>(key, subs)\<in>set (tables kind). subs \<noteq> [] \<longrightarrow> key = symbol)))"
proof -
  have cases: "(\<exists>e. d = reported e c) \<or> (\<exists>lastID. 0 < lastID \<and> d =
      (if TrimSpace (get_string ''symbol'' envelope) = [] then
         (case uniqueSnapshotSymbol tables of
            None \<Rightarrow> reported AmbiguousSnapshot c
          | Some symbol \<Rightarrow> deliver_snapshot tables envelope lastID True symbol generation c)
       else deliver_snapshot tables envelope lastID False (ToUpper (get_string ''symbol'' envelope)) generation c))"
    using assms by (cases "get_int_ptr ''lastUpdateId'' envelope")
      (auto simp: dispatchOrderBookSnapshot_def Let_def not_le split: if_splits option.splits)
  consider e where "d = reported e c"
    | lastID symbol where "0 < lastID" "TrimSpace (get_string ''symbol'' envelope) = []" "uniqueSnapshotSymbol tables = Some symbol"
        "d = deliver_snapshot tables envelope lastID True symbol generation c"
    | lastID symbol where "0 < lastID" "TrimSpace (get_string ''symbol'' envelope) \<noteq> []"
        "d = deliver_snapshot tables envelope lastID False symbol generation c"
  proof -
    assume r: "\<And>e. d = reported e c \<Longrightarrow> thesis"
      and u: "\<And>lastID symbol. 0 < lastID \<Longrightarrow> TrimSpace (get_string ''symbol'' envelope) = [] \<Longrightarrow> uniqueSnapshotSymbol tables = Some symbol \<Longrightarrow>
        d = deliver_snapshot tables envelope lastID True symbol generation c \<Longrightarrow> thesis"
      and n: "\<And>lastID symbol. 0 < lastID \<Longrightarrow> TrimSpace (get_string ''symbol'' envelope) \<noteq> [] \<Longrightarrow>
        d = deliver_snapshot tables envelope lastID False symbol generation c \<Longrightarrow> thesis"
    show thesis using cases r u n by (cases "TrimSpace (get_string ''symbol'' envelope) = []"; cases "uniqueSnapshotSymbol tables") auto
  qed
  then show ?thesis
  proof cases
    case (2 lastID symbol)
    have only: "\<forall>kind\<in>{DepthFeed, PartialDepthFeed}. \<forall>(key, subs)\<in>set (tables kind). subs \<noteq> [] \<longrightarrow> key = symbol"
      using unique_symbol[OF 2(3)] by blast
    note ok = deliver_ok[OF 2(1), where symbolLess = True and tables = tables and envelope = envelope and symbol = symbol and
      generation = generation and c = c, folded 2(4)]
    show ?thesis
      unfolding 2(2) simp_thms using ok(1) by (intro conjI impI disjI1 exI[of _ symbol] ok(2,3) only) simp
  next
    case (3 lastID symbol)
    then show ?thesis
      using deliver_ok[OF 3(1), where symbolLess = False and tables = tables and envelope = envelope and symbol = symbol and
        generation = generation and c = c] by simp
  qed (simp add: reported_def)
qed

section \<open>Order events\<close>

lemma only_orders: "list_all (\<lambda>(kind, sub, w). kind = OrderFeed) (send_all OrderFeed tables w)"
  by (auto simp: send_all_def list_all_iff)

text \<open>A frame that says it is an order event reaches every subscriber of the order streams exactly once
  and nobody else, whatever other fields it has, when it decodes as an order event, and nobody when it
  does not; the snapshot marks stay as they are.\<close>

theorem order_event_only_to_orders:
  assumes "explicit_type v = Some t" "t \<in> {''order'', ''orderUpdate''}"
    "Contains payload (quoted ''order'') \<or> Contains payload (quoted ''orderUpdate'')"
  shows "ds_client (dispatch_event tables payload v generation c) = c \<and>
    list_all (\<lambda>(kind, sub, w). kind = OrderFeed) (ds_sent (dispatch_event tables payload v generation c)) \<and>
    map (\<lambda>(kind, sub, w). sub) (ds_sent (dispatch_event tables payload v generation c)) =
      (if Unmarshal ws_order_event v = None then [] else concat (map snd (tables OrderFeed)))"
proof -
  have "dispatch_event tables payload v generation c =
      sent (case Unmarshal ws_order_event v of Some w \<Rightarrow> send_all OrderFeed tables w | None \<Rightarrow> []) c"
    using assms by (auto simp: dispatch_event_def dispatch_order_def or_else_def)
  then show ?thesis
    using only_orders by (auto simp: sent_def send_all_def map_concat comp_def case_prod_beta split: option.split)
qed

section \<open>An event type makes a snapshot malformed\<close>

text \<open>\<open>OrderBookSnapshot\<close> documents an event type under the key \<open>e\<close>, but the envelope has only the event time
  \<open>E\<close>, which a member \<open>e\<close> matches up to case: its string is a type error and the snapshot is dropped.\<close>

theorem snapshot_event_type_rejected:
  defines "frame \<equiv> JObj [(''e'', JStr ''depthSnapshot''), (''E'', JNum ''5''), (''lastUpdateId'', JNum ''7''), (''symbol'', JStr ''BTCUSD''),
      (''bids'', JArr []), (''asks'', JArr [])]"
  shows "Unmarshal snapshot_envelope frame = None \<and>
    Unmarshal snapshot_envelope (case frame of JObj ms \<Rightarrow> JObj (tl ms)) \<noteq> None"
  unfolding frame_def
  by (simp add: Unmarshal_def snapshot_envelope_def levels_type_def find_field_def EqualFold_def ToLower_def to_lower_char_def
      field_value_def put_field_def ParseInt_def ParseUint64_def is_digit_def digit_val_def, code_simp)


section \<open>Concrete frames\<close>

definition demo_subs :: sub_tables where
  "demo_subs = newSubTables(DepthFeed := [(''BTCUSD'', [3])], OrderFeed := [(''orders@account'', [1, 2])])"

definition idle_client :: ws_client where
  "idle_client = (new_ws_client True False True)\<lparr>wc_tables := demo_subs, wc_snapshotPending := [(''BTCUSD'', 4)], wc_generation := 4\<rparr>"

definition snapshot_frame :: json where
  "snapshot_frame = JObj [(''lastUpdateId'', JNum ''7''), (''bids'', JArr []), (''asks'', JArr [])]"

definition demo_text :: string where
  "demo_text = ''{'' @ quoted ''lastUpdateId'' @ '':7,'' @ quoted ''bids'' @ '':[],'' @ quoted ''asks'' @ '':[]}''"

definition demo_envelope :: go_value where
  "demo_envelope = VStruct [(''lastUpdateId'', VPtr (VInt 7)), (''E'', VInt 0), (''symbol'', VString []), (''bids'', VSlice []), (''asks'', VSlice [])]"

lemma demo_decoded: "Unmarshal snapshot_envelope snapshot_frame = Some demo_envelope"
  unfolding snapshot_frame_def demo_envelope_def
  by (simp add: Unmarshal_def snapshot_envelope_def levels_type_def find_field_def EqualFold_def ToLower_def to_lower_char_def
      field_value_def put_field_def ParseInt_def ParseUint64_def is_digit_def digit_val_def)

lemma demo_dispatch: "dispatchOrderBookSnapshot demo_subs demo_text snapshot_frame 4 idle_client =
    Some (sent [(DepthFeed, 3, snapshot_update ''BTCUSD'' demo_envelope 7)] (idle_client\<lparr>wc_snapshotPending := []\<rparr>))"
proof -
  have literals: "Contains demo_text (quoted ''lastUpdateId'')" "Contains demo_text (quoted ''bids'')" "Contains demo_text (quoted ''asks'')"
    by code_simp+
  have envelope: "get_int_ptr ''lastUpdateId'' demo_envelope = Some 7" "TrimSpace (get_string ''symbol'' demo_envelope) = []"
    "field_value ''bids'' (members demo_envelope) = VSlice []" "field_value ''asks'' (members demo_envelope) = VSlice []"
    by (simp_all add: demo_envelope_def get_int_ptr_def get_string_def field_value_def)
  have "uniqueSnapshotSymbol demo_subs = Some ''BTCUSD''" by (simp add: uniqueSnapshotSymbol_def demo_subs_def newSubTables_def)
  moreover have "ToUpper ''BTCUSD'' = ''BTCUSD''" by code_simp
  then have "deliver_snapshot demo_subs demo_envelope 7 True ''BTCUSD'' 4 idle_client =
      sent [(DepthFeed, 3, snapshot_update ''BTCUSD'' demo_envelope 7)] (idle_client\<lparr>wc_snapshotPending := []\<rparr>)"
    by (simp add: deliver_snapshot_def snapshotPendingGeneration_def consumeSnapshotPending_def idle_client_def demo_subs_def
        newSubTables_def send_to_def subs_of_def sent_def)
  ultimately show ?thesis by (simp add: dispatchOrderBookSnapshot_def demo_decoded literals envelope)
qed

theorem snapshot_never_misrouted_witness:
  "list_all (snapshot_send_ok demo_subs True 4 idle_client (idle_client\<lparr>wc_snapshotPending := []\<rparr>))
     [(DepthFeed, 3, snapshot_update ''BTCUSD'' demo_envelope 7)]"
proof -
  have "TrimSpace (get_string ''symbol'' demo_envelope) = []" by code_simp
  then show ?thesis using snapshot_never_misrouted[OF demo_dispatch demo_decoded] by (simp add: sent_def)
qed

theorem order_event_only_to_orders_witness:
  "map (\<lambda>(kind, sub, w). sub) (ds_sent (dispatch_event demo_subs (quoted ''order'') (JObj [(''e'', JStr ''order''), (''t'', JNull)]) 0 idle_client)) =
     (if Unmarshal ws_order_event (JObj [(''e'', JStr ''order''), (''t'', JNull)]) = None then [] else [1, 2])"
proof -
  have "explicit_type (JObj [(''e'', JStr ''order''), (''t'', JNull)]) = Some ''order''" by (simp add: explicit_type_def)
  moreover have "Contains (quoted ''order'') (quoted ''order'')" by code_simp
  ultimately show ?thesis using order_event_only_to_orders[of _ "''order''" "quoted ''order''" demo_subs] by (simp add: demo_subs_def)
qed

end
