(* ===== verification/WsRequests.thy ===== *)
theory WsRequests
  imports Dispatch DecimalText
begin

text \<open>
  The typed requests of the websocket client: \<open>websocket/typed_requests.go\<close>, the quote operations of
  \<open>websocket/rfq.go\<close> and the request surface of \<open>websocket/client_requests.go\<close>. The argument \<open>call\<close> is the
  exchange behind an authenticated or public connection: \<open>Connect\<close> followed by one correlated request
  (the theory Connection), or its error. A parameter of type \<open>any\<close> is one of the shapes the SDK passes.
\<close>

section \<open>Data\<close>

record order_place_params =
  op_Symbol :: string
  op_Side :: string
  op_Type :: string
  op_TimeInForce :: string
  op_Price :: string
  op_StopPrice :: string
  op_Quantity :: string
  op_ClientOrderID :: string
  op_EventOutcome :: string

text \<open>An order id given as \<open>any\<close>: a float64 is its rational value, or none when it is not finite.\<close>

datatype order_id = OidString string | OidNumber string | OidInt int | OidFloat "rat option" | OidOther

datatype rfq_params =
    RFQSubmitQuote string string string "int option"
  | RFQWithdrawQuote string string
  | RFQConfirmQuote string string bool
  | RFQOther

datatype ws_params =
    NoParams
  | Streams "string list"
  | OrderPlace order_place_params
  | OrderCancel order_id
  | RFQParams rfq_params
  | DepthParams string int
  | OtherParams

datatype request_error =
    RqMsg string
  | RqAuthRequired
  | RqCancelConfirmation
  | RqInvalidRFQ string
  | RqConn conn_error
  | RqDecode string
  | RqSymbol ws_error

type_synonym ws_call = "string \<Rightarrow> ws_params \<Rightarrow> conn_error + response_frame"

section \<open>Requests\<close>

definition private_prefixes :: "string list" where
  "private_prefixes = [''orders@'', ''balances@'', ''positions@'', ''settlements@'', ''requestforquote@'']"

definition requiresAuthentication :: "string \<Rightarrow> ws_params \<Rightarrow> bool" where
  "requiresAuthentication method0 params =
     (let method = ToLower (TrimSpace method0)
      in if has_prefix method ''order.'' \<or> has_prefix method ''rfq.'' then True
         else if method \<noteq> ''subscribe'' \<and> method \<noteq> ''unsubscribe'' then False
         else case params of
           NoParams \<Rightarrow> False
         | Streams streams \<Rightarrow> list_ex (\<lambda>stream. list_ex (has_prefix (ToLower (TrimSpace stream))) private_prefixes) streams
         | _ \<Rightarrow> True)"

definition Request_ws :: "bool \<Rightarrow> ws_call \<Rightarrow> string \<Rightarrow> ws_params \<Rightarrow> request_error + response_frame" where
  "Request_ws auth call method params =
     (if TrimSpace method = [] then Inl (RqMsg ''gemini websocket: request method is empty'')
      else if requiresAuthentication method params \<and> \<not> auth then Inl RqAuthRequired
      else case call method params of Inl e \<Rightarrow> Inl (RqConn e) | Inr response \<Rightarrow> Inr response)"

definition RequestAuthenticated :: "bool \<Rightarrow> ws_call \<Rightarrow> string \<Rightarrow> ws_params \<Rightarrow> request_error + response_frame" where
  "RequestAuthenticated auth call method params =
     (if \<not> auth then Inl RqAuthRequired else Request_ws auth call method params)"

definition decodeObjectResult :: "response_frame \<Rightarrow> string \<Rightarrow> request_error + (string \<times> json) list" where
  "decodeObjectResult response method =
     (case rp_Result response of
        None \<Rightarrow> Inr []
      | Some JNull \<Rightarrow> Inr []
      | Some (JObj ms) \<Rightarrow> Inr ms
      | Some _ \<Rightarrow> Inl (RqDecode method))"

definition Ping :: "bool \<Rightarrow> ws_call \<Rightarrow> request_error option" where
  "Ping auth call = (case Request_ws auth call ''ping'' NoParams of Inl e \<Rightarrow> Some e | Inr _ \<Rightarrow> None)"

definition ConnInfo :: "bool \<Rightarrow> ws_call \<Rightarrow> request_error + (string \<times> json) list" where
  "ConnInfo auth call =
     (case Request_ws auth call ''conninfo'' NoParams of Inl e \<Rightarrow> Inl e | Inr response \<Rightarrow> decodeObjectResult response ''conninfo'')"

definition Time_ws :: "bool \<Rightarrow> ws_call \<Rightarrow> request_error + json option" where
  "Time_ws auth call =
     (case Request_ws auth call ''time'' NoParams of Inl e \<Rightarrow> Inl e | Inr response \<Rightarrow> Inr (rp_Result response))"

definition ListSubscriptions :: "bool \<Rightarrow> ws_call \<Rightarrow> request_error + go_value" where
  "ListSubscriptions auth call =
     (case Request_ws auth call ''LIST_SUBSCRIPTIONS'' NoParams of
        Inl e \<Rightarrow> Inl e
      | Inr response \<Rightarrow>
          (case rp_Result response of
             None \<Rightarrow> Inr VNil
           | Some v \<Rightarrow> (case Unmarshal (GSlice GString) v of None \<Rightarrow> Inl (RqDecode ''subscriptions'') | Some w \<Rightarrow> Inr w)))"

definition updateStreams :: "bool \<Rightarrow> ws_call \<Rightarrow> string \<Rightarrow> string list \<Rightarrow> request_error option" where
  "updateStreams auth call method streams =
     (if length streams = 0 then Some (RqMsg ''gemini websocket: at least one stream is required'')
      else if list_ex (\<lambda>stream. TrimSpace stream = []) streams then Some (RqMsg ''gemini websocket: stream name is empty'')
      else case Request_ws auth call method (Streams streams) of Inl e \<Rightarrow> Some e | Inr _ \<Rightarrow> None)"

definition SubscribeStreams :: "bool \<Rightarrow> ws_call \<Rightarrow> string list \<Rightarrow> request_error option" where
  "SubscribeStreams auth call streams = updateStreams auth call ''SUBSCRIBE'' streams"

definition UnsubscribeStreams :: "bool \<Rightarrow> ws_call \<Rightarrow> string list \<Rightarrow> request_error option" where
  "UnsubscribeStreams auth call streams = updateStreams auth call ''UNSUBSCRIBE'' streams"

definition GetDepthSnapshot :: "bool \<Rightarrow> ws_call \<Rightarrow> string \<Rightarrow> int \<Rightarrow> request_error + go_value" where
  "GetDepthSnapshot auth call symbol limit =
     (if limit < 0 \<or> 5000 < limit then Inl (RqMsg ''gemini websocket: depth snapshot limit must be 0 or between 1 and 5000'')
      else case normalizeSymbol symbol of
        Inl e \<Rightarrow> Inl (RqSymbol e)
      | Inr normSymbol \<Rightarrow>
          (case Request_ws auth call ''depth'' (DepthParams (ToLower normSymbol) limit) of
             Inl e \<Rightarrow> Inl e
           | Inr response \<Rightarrow>
               (case rp_Result response of
                  None \<Rightarrow> Inl (RqMsg ''gemini websocket: depth response missing result'')
                | Some v \<Rightarrow> (case Unmarshal order_book_snapshot v of None \<Rightarrow> Inl (RqDecode ''depth'') | Some w \<Rightarrow> Inr w))))"

section \<open>Orders\<close>

definition validatePositiveDecimal :: "string \<Rightarrow> string \<Rightarrow> request_error option" where
  "validatePositiveDecimal name value =
     (let bad = Some (RqMsg (''gemini websocket: '' @ name @ '' must be a positive decimal''))
      in case ParseDecimal value of Inl _ \<Rightarrow> bad | Inr d \<Rightarrow> if \<not> IsPositive d then bad else None)"

text \<open>\<open>ParseDecimal\<close> with its error dropped: the zero value then.\<close>

definition parsed_or_zero :: "string \<Rightarrow> decimal" where
  "parsed_or_zero s = (case ParseDecimal s of Inl _ \<Rightarrow> \<lparr>dval = None, dscale = 0\<rparr> | Inr d \<Rightarrow> d)"

definition type_error :: "order_place_params \<Rightarrow> request_error option" where
  "type_error p =
     (if op_Type p = ''LIMIT'' then
        (if TrimSpace (op_Price p) = [] then Some (RqMsg ''gemini websocket: limit orders require price'')
         else validatePositiveDecimal ''price'' (op_Price p))
      else if op_Type p = ''MARKET'' then
        (if TrimSpace (op_StopPrice p) \<noteq> [] then Some (RqMsg ''gemini websocket: stopPrice is not valid with market orders'') else None)
      else Some (RqMsg ''gemini websocket: order type must be LIMIT or MARKET; use LIMIT with stopPrice for stop-limit orders''))"

definition stop_error :: "order_place_params \<Rightarrow> request_error option" where
  "stop_error p =
     (if TrimSpace (op_StopPrice p) = [] then None
      else case validatePositiveDecimal ''stopPrice'' (op_StopPrice p) of
        Some e \<Rightarrow> Some e
      | None \<Rightarrow>
          (let price = parsed_or_zero (op_Price p); stopPrice = parsed_or_zero (op_StopPrice p)
           in if op_Side p = ''BUY'' then
                (if 0 < Cmp stopPrice price then Some (RqMsg ''gemini websocket: buy stopPrice must not exceed price'') else None)
              else if op_Side p = ''SELL'' then
                (if Cmp stopPrice price < 0 then Some (RqMsg ''gemini websocket: sell stopPrice must not be below price'') else None)
              else None))"

definition validateOrderPlaceParams :: "order_place_params \<Rightarrow> request_error option" where
  "validateOrderPlaceParams p =
     (if TrimSpace (op_Symbol p) = [] \<or> TrimSpace (op_Quantity p) = []
      then Some (RqMsg ''gemini websocket: order symbol and quantity are required'')
      else if op_Side p \<noteq> ''BUY'' \<and> op_Side p \<noteq> ''SELL'' then Some (RqMsg ''gemini websocket: order side must be BUY or SELL'')
      else case validatePositiveDecimal ''quantity'' (op_Quantity p) of
        Some e \<Rightarrow> Some e
      | None \<Rightarrow>
          if op_StopPrice p \<noteq> [] \<and> TrimSpace (op_StopPrice p) = []
          then Some (RqMsg ''gemini websocket: stopPrice must be a non-empty decimal'')
          else case type_error p of
            Some e \<Rightarrow> Some e
          | None \<Rightarrow>
              (case stop_error p of
                 Some e \<Rightarrow> Some e
               | None \<Rightarrow>
                   if op_TimeInForce p \<notin> {''GTC'', ''IOC'', ''FOK'', ''MOC''} then Some (RqMsg ''gemini websocket: unsupported time-in-force'')
                   else if op_EventOutcome p \<noteq> [] \<and> op_EventOutcome p \<noteq> ''YES'' \<and> op_EventOutcome p \<noteq> ''NO''
                   then Some (RqMsg ''gemini websocket: event outcome must be YES or NO'') else None))"

definition PlaceOrder :: "bool \<Rightarrow> ws_call \<Rightarrow> order_place_params \<Rightarrow> request_error + (string \<times> json) list" where
  "PlaceOrder auth call p =
     (case validateOrderPlaceParams p of
        Some e \<Rightarrow> Inl e
      | None \<Rightarrow>
          (case RequestAuthenticated auth call ''order.place'' (OrderPlace p) of
             Inl e \<Rightarrow> Inl e
           | Inr response \<Rightarrow> decodeObjectResult response ''order.place''))"

definition maxSafeJSONInteger :: rat where "maxSafeJSONInteger = 9007199254740991"

definition validOrderID :: "order_id \<Rightarrow> bool" where
  "validOrderID value =
     (case value of
        OidString s \<Rightarrow> TrimSpace s \<noteq> []
      | OidNumber s \<Rightarrow> (case ParseUint64 s of Some n \<Rightarrow> 0 < n | None \<Rightarrow> False)
      | OidInt n \<Rightarrow> 0 < n
      | OidFloat None \<Rightarrow> False
      | OidFloat (Some x) \<Rightarrow> 0 < x \<and> x \<le> maxSafeJSONInteger \<and> of_int (floor x) = x
      | OidOther \<Rightarrow> False)"

definition CancelOrder_ws :: "bool \<Rightarrow> ws_call \<Rightarrow> order_id \<Rightarrow> request_error + (string \<times> json) list" where
  "CancelOrder_ws auth call orderID =
     (if \<not> validOrderID orderID then Inl (RqMsg ''gemini websocket: order ID is required'')
      else case RequestAuthenticated auth call ''order.cancel'' (OrderCancel orderID) of
        Inl e \<Rightarrow> Inl e
      | Inr response \<Rightarrow> decodeObjectResult response ''order.cancel'')"

definition cancelAll_ws :: "bool \<Rightarrow> ws_call \<Rightarrow> string \<Rightarrow> bool \<Rightarrow> request_error + (string \<times> json) list" where
  "cancelAll_ws auth call method confirm =
     (if \<not> confirm then Inl RqCancelConfirmation
      else case RequestAuthenticated auth call method NoParams of
        Inl e \<Rightarrow> Inl e
      | Inr response \<Rightarrow> decodeObjectResult response method)"

definition CancelAllOrders_ws :: "bool \<Rightarrow> ws_call \<Rightarrow> bool \<Rightarrow> request_error + (string \<times> json) list" where
  "CancelAllOrders_ws auth call confirm = cancelAll_ws auth call ''order.cancel_all'' confirm"

definition CancelSessionOrders :: "bool \<Rightarrow> ws_call \<Rightarrow> bool \<Rightarrow> request_error + (string \<times> json) list" where
  "CancelSessionOrders auth call confirm = cancelAll_ws auth call ''order.cancel_session'' confirm"

section \<open>Quotes\<close>

definition ids_error :: "string \<Rightarrow> string \<Rightarrow> request_error option" where
  "ids_error rfqID quoteID =
     (if TrimSpace rfqID = [] then Some (RqInvalidRFQ ''rfqId is required'')
      else if TrimSpace quoteID = [] then Some (RqInvalidRFQ ''quoteId is required'') else None)"

definition validateRFQQuoteParams :: "rfq_params \<Rightarrow> request_error option" where
  "validateRFQQuoteParams params =
     (case params of
        RFQSubmitQuote rfqID price quantity validUntil \<Rightarrow>
          if TrimSpace rfqID = [] then Some (RqInvalidRFQ ''rfqId is required'')
          else if \<not> validRFQPositiveDecimal (Some price) then Some (RqInvalidRFQ ''price must be a positive decimal string'')
          else if \<not> validRFQPositiveDecimal (Some quantity) then Some (RqInvalidRFQ ''quantity must be a positive decimal string'')
          else if (case validUntil of Some t \<Rightarrow> t < 0 | None \<Rightarrow> False) then Some (RqInvalidRFQ ''validUntil must be non-negative'')
          else None
      | RFQWithdrawQuote rfqID quoteID \<Rightarrow> ids_error rfqID quoteID
      | RFQConfirmQuote rfqID quoteID confirm \<Rightarrow> ids_error rfqID quoteID
      | RFQOther \<Rightarrow> Some (RqInvalidRFQ ''unsupported parameter type''))"

definition requestTypedRFQ :: "bool \<Rightarrow> ws_call \<Rightarrow> string \<Rightarrow> rfq_params \<Rightarrow> go_type \<Rightarrow> request_error + go_value" where
  "requestTypedRFQ auth call method params target =
     (if \<not> auth then Inl RqAuthRequired
      else case validateRFQQuoteParams params of
        Some e \<Rightarrow> Inl e
      | None \<Rightarrow>
          (case Request_ws auth call method (RFQParams params) of
             Inl e \<Rightarrow> Inl e
           | Inr response \<Rightarrow>
               (case rp_Result response of
                  None \<Rightarrow> Inl (RqMsg (''gemini websocket: '' @ method @ '' response missing result''))
                | Some v \<Rightarrow> (case Unmarshal target v of None \<Rightarrow> Inl (RqDecode method) | Some w \<Rightarrow> Inr w))))"

definition rfq_quote_response :: go_type where
  "rfq_quote_response = GStruct [(''rfqId'', GString), (''quoteId'', GString)]"

definition rfq_confirm_response :: go_type where
  "rfq_confirm_response = GStruct [(''rfqId'', GString), (''quoteId'', GString), (''confirmed'', GBool)]"

definition SubmitRFQQuote :: "bool \<Rightarrow> ws_call \<Rightarrow> string \<Rightarrow> string \<Rightarrow> string \<Rightarrow> int option \<Rightarrow> request_error + go_value" where
  "SubmitRFQQuote auth call rfqID price quantity validUntil =
     requestTypedRFQ auth call ''rfq.submit_quote'' (RFQSubmitQuote rfqID price quantity validUntil) rfq_quote_response"

definition WithdrawRFQQuote :: "bool \<Rightarrow> ws_call \<Rightarrow> string \<Rightarrow> string \<Rightarrow> request_error + go_value" where
  "WithdrawRFQQuote auth call rfqID quoteID =
     requestTypedRFQ auth call ''rfq.withdraw_quote'' (RFQWithdrawQuote rfqID quoteID) rfq_quote_response"

definition ConfirmRFQQuote :: "bool \<Rightarrow> ws_call \<Rightarrow> string \<Rightarrow> string \<Rightarrow> bool \<Rightarrow> request_error + go_value" where
  "ConfirmRFQQuote auth call rfqID quoteID confirm =
     requestTypedRFQ auth call ''rfq.confirm_quote'' (RFQConfirmQuote rfqID quoteID confirm) rfq_confirm_response"

end
