(* ===== verification/WsRequestSpec.thy ===== *)
theory WsRequestSpec
  imports WsRequests
begin

text \<open>
  What the typed websocket requests promise: an order or a quote is sent exactly when it satisfies the
  wire contract, stated over rationals, anything else is refused without a word to the exchange, and
  nothing private is sent on a client without credentials.
\<close>

section \<open>Orders\<close>

definition positive_text :: "string \<Rightarrow> decimal \<Rightarrow> bool" where
  "positive_text s d \<longleftrightarrow> ParseDecimal s = Inr d \<and> 0 < rv d"

text \<open>The wire contract of \<open>order.place\<close>: the stop price of a limit order is at most the limit for a buy and
  at least the limit for a sell.\<close>

definition order_place_ok :: "order_place_params \<Rightarrow> bool" where
  "order_place_ok p \<longleftrightarrow>
     TrimSpace (op_Symbol p) \<noteq> [] \<and> op_Side p \<in> {''BUY'', ''SELL''} \<and> (\<exists>q. positive_text (op_Quantity p) q) \<and>
     (op_Type p = ''LIMIT'' \<and> (\<exists>l. positive_text (op_Price p) l \<and>
          (op_StopPrice p = [] \<or> (\<exists>s. positive_text (op_StopPrice p) s \<and>
             (if op_Side p = ''BUY'' then rv s \<le> rv l else rv l \<le> rv s)))) \<or>
      op_Type p = ''MARKET'' \<and> op_StopPrice p = []) \<and>
     op_TimeInForce p \<in> {''GTC'', ''IOC'', ''FOK'', ''MOC''} \<and> op_EventOutcome p \<in> {[], ''YES'', ''NO''}"

lemma parse_trim: "TrimSpace s = [] \<Longrightarrow> ParseDecimal s = Inl ErrInvalidDecimal"
  by (simp add: ParseDecimal_def)

lemma positive_checked: "validatePositiveDecimal name s = None \<longleftrightarrow> (\<exists>d. positive_text s d)"
  by (auto simp: validatePositiveDecimal_def positive_text_def IsPositive_iff Let_def split: sum.splits if_splits)

lemma positive_nonblank: "positive_text s d \<Longrightarrow> TrimSpace s \<noteq> []"
  using parse_trim[of s] by (auto simp: positive_text_def)

lemma type_checked:
  "type_error p = None \<longleftrightarrow>
     op_Type p = ''LIMIT'' \<and> (\<exists>l. positive_text (op_Price p) l) \<or> op_Type p = ''MARKET'' \<and> TrimSpace (op_StopPrice p) = []"
  using positive_nonblank[of "op_Price p"] by (auto simp: type_error_def positive_checked)

lemma stop_checked:
  assumes "positive_text (op_Price p) l" "op_Side p \<in> {''BUY'', ''SELL''}" "TrimSpace (op_StopPrice p) \<noteq> []"
  shows "stop_error p = None \<longleftrightarrow>
    (\<exists>s. positive_text (op_StopPrice p) s \<and> (if op_Side p = ''BUY'' then rv s \<le> rv l else rv l \<le> rv s))"
proof (cases "\<exists>s. positive_text (op_StopPrice p) s")
  case True
  then obtain s where s: "positive_text (op_StopPrice p) s" by blast
  have parsed: "ParseDecimal (op_Price p) = Inr l" "ParseDecimal (op_StopPrice p) = Inr s"
    using assms(1) s by (simp_all add: positive_text_def)
  have cmp: "Cmp s l = int_cmp (rv s) (rv l)" using parsed Cmp_rv ParseDecimal_scale_ok by blast
  have "validatePositiveDecimal ''stopPrice'' (op_StopPrice p) = None" using s positive_checked by blast
  then have "stop_error p = None \<longleftrightarrow> (if op_Side p = ''BUY'' then rv s \<le> rv l else rv l \<le> rv s)"
    using assms(2,3) cmp by (auto simp: stop_error_def parsed_or_zero_def parsed int_cmp_def Let_def)
  moreover have "positive_text (op_StopPrice p) u \<longleftrightarrow> u = s" for u using s by (auto simp: positive_text_def)
  ultimately show ?thesis by simp
next
  case False
  then obtain e where "validatePositiveDecimal ''stopPrice'' (op_StopPrice p) = Some e" using positive_checked by fastforce
  then show ?thesis using False assms(3) by (simp add: stop_error_def)
qed

lemma order_checked: "validateOrderPlaceParams p = None \<longleftrightarrow> order_place_ok p"
proof (cases "op_Side p \<in> {''BUY'', ''SELL''} \<and> (\<exists>q. positive_text (op_Quantity p) q) \<and> TrimSpace (op_Symbol p) \<noteq> [] \<and>
    (op_StopPrice p = [] \<or> TrimSpace (op_StopPrice p) \<noteq> [])")
  case True
  then have q: "TrimSpace (op_Quantity p) \<noteq> []" using positive_nonblank by blast
  have "validateOrderPlaceParams p = None \<longleftrightarrow> type_error p = None \<and> stop_error p = None \<and>
      op_TimeInForce p \<in> {''GTC'', ''IOC'', ''FOK'', ''MOC''} \<and> op_EventOutcome p \<in> {[], ''YES'', ''NO''}"
    using True q by (auto simp: validateOrderPlaceParams_def positive_checked[THEN iffD2] split: option.split)
  moreover have "type_error p = None \<and> stop_error p = None \<longleftrightarrow>
     (op_Type p = ''LIMIT'' \<and> (\<exists>l. positive_text (op_Price p) l \<and>
          (op_StopPrice p = [] \<or> (\<exists>s. positive_text (op_StopPrice p) s \<and>
             (if op_Side p = ''BUY'' then rv s \<le> rv l else rv l \<le> rv s)))) \<or>
      op_Type p = ''MARKET'' \<and> op_StopPrice p = [])"
  proof (cases "op_StopPrice p = []")
    case True
    then show ?thesis by (auto simp: type_checked stop_error_def)
  next
    case False
    then have blank: "TrimSpace (op_StopPrice p) \<noteq> []" using True by blast
    have "stop_error p = None \<longleftrightarrow>
        (\<exists>s. positive_text (op_StopPrice p) s \<and> (if op_Side p = ''BUY'' then rv s \<le> rv l else rv l \<le> rv s))"
      if "positive_text (op_Price p) l" for l
      using that True blank by (intro stop_checked) simp_all
    then show ?thesis unfolding type_checked using False blank by blast
  qed
  ultimately show ?thesis using True unfolding order_place_ok_def by blast
next
  case False
  have "validateOrderPlaceParams p \<noteq> None"
  proof (cases "\<exists>q. positive_text (op_Quantity p) q")
    case True
    then have "validatePositiveDecimal ''quantity'' (op_Quantity p) = None" using positive_checked by blast
    then show ?thesis using False True by (auto simp: validateOrderPlaceParams_def)
  next
    case no: False
    then have "validatePositiveDecimal ''quantity'' (op_Quantity p) \<noteq> None" using positive_checked by blast
    then show ?thesis by (auto simp: validateOrderPlaceParams_def)
  qed
  moreover have "\<not> order_place_ok p"
    using False positive_nonblank[of "op_StopPrice p"] by (auto simp: order_place_ok_def)
  ultimately show ?thesis by blast
qed


text \<open>An operation that is refused whatever the exchange would answer, and one that sends a request.\<close>

definition refused :: "(ws_call \<Rightarrow> request_error + 'a) \<Rightarrow> bool" where
  "refused operation \<longleftrightarrow> (\<exists>e. \<forall>call. operation call = Inl e)"

definition sends_request :: "(ws_call \<Rightarrow> request_error + 'a) \<Rightarrow> string \<Rightarrow> ws_params \<Rightarrow> bool" where
  "sends_request operation meth params \<longleftrightarrow>
     (\<forall>call e. call meth params = Inl e \<longrightarrow> operation call = Inl (RqConn e))"

text \<open>C14: On an authenticated client \<open>PlaceOrder\<close> sends exactly the orders that satisfy the contract of
  \<open>order.place\<close> over rationals, whatever their texts, unchanged; every other order, and every order of a
  client without credentials, is refused without a word to the exchange.\<close>

theorem ws_order_guard:
  "\<forall>auth p. if auth \<and> order_place_ok p then sends_request (\<lambda>call. PlaceOrder auth call p) ''order.place'' (OrderPlace p)
     else refused (\<lambda>call. PlaceOrder auth call p)"
proof (intro allI)
  fix auth p
  have "TrimSpace ''order.place'' \<noteq> []" by code_simp
  then show "if auth \<and> order_place_ok p then sends_request (\<lambda>call. PlaceOrder auth call p) ''order.place'' (OrderPlace p)
     else refused (\<lambda>call. PlaceOrder auth call p)"
    using order_checked[of p]
    by (cases "validateOrderPlaceParams p") (auto simp: PlaceOrder_def RequestAuthenticated_def Request_ws_def sends_request_def refused_def)
qed

section \<open>Quotes\<close>

lemma plain_loop_iff:
  "plain_decimal_loop d dot s \<longleftrightarrow>
     (\<exists>ip fp. s = ip @ fp \<and> list_all is_digit ip \<and> (d \<or> ip \<noteq> [] \<or> 1 < length fp) \<and>
        (fp = [] \<or> \<not> dot \<and> hd fp = CHR ''.'' \<and> list_all is_digit (tl fp)))"
proof (induction s arbitrary: d dot)
  case (Cons c s)
  show ?case
  proof (cases "is_digit c")
    case True
    have "(\<exists>ip fp. c # s = ip @ fp \<and> list_all is_digit ip \<and> (d \<or> ip \<noteq> [] \<or> 1 < length fp) \<and>
        (fp = [] \<or> \<not> dot \<and> hd fp = CHR ''.'' \<and> list_all is_digit (tl fp))) \<longleftrightarrow>
       (\<exists>ip fp. s = ip @ fp \<and> list_all is_digit ip \<and> (fp = [] \<or> \<not> dot \<and> hd fp = CHR ''.'' \<and> list_all is_digit (tl fp)))"
      (is "?l \<longleftrightarrow> ?r")
    proof
      assume ?l
      then obtain ip fp where f: "c # s = ip @ fp" "list_all is_digit ip"
        "fp = [] \<or> \<not> dot \<and> hd fp = CHR ''.'' \<and> list_all is_digit (tl fp)" by blast
      have "ip \<noteq> []" using f True by (cases ip) (auto simp: is_digit_def)
      then show ?r using f by (cases ip) auto
    next
      assume ?r
      then obtain ip fp where f: "s = ip @ fp" "list_all is_digit ip"
        "fp = [] \<or> \<not> dot \<and> hd fp = CHR ''.'' \<and> list_all is_digit (tl fp)" by blast
      then show ?l using True by (intro exI[of _ "c # ip"] exI[of _ fp]) simp
    qed
    then show ?thesis using Cons[of True dot] True by simp
  next
    case False
    have "(\<exists>ip fp. c # s = ip @ fp \<and> list_all is_digit ip \<and> (d \<or> ip \<noteq> [] \<or> 1 < length fp) \<and>
        (fp = [] \<or> \<not> dot \<and> hd fp = CHR ''.'' \<and> list_all is_digit (tl fp))) \<longleftrightarrow>
       \<not> dot \<and> c = CHR ''.'' \<and> list_all is_digit s \<and> (d \<or> s \<noteq> [])" (is "?l \<longleftrightarrow> ?r")
    proof
      assume ?l
      then obtain ip fp where f: "c # s = ip @ fp" "list_all is_digit ip" "d \<or> ip \<noteq> [] \<or> 1 < length fp"
        "fp = [] \<or> \<not> dot \<and> hd fp = CHR ''.'' \<and> list_all is_digit (tl fp)" by blast
      have "ip = []" using f(1,2) False by (cases ip) auto
      then show ?r using f by auto
    next
      assume ?r then show ?l by (intro exI[of _ "[]"] exI[of _ "c # s"]) auto
    qed
    moreover have "plain_decimal_loop d True s \<longleftrightarrow> list_all is_digit s \<and> (d \<or> s \<noteq> [])"
      unfolding Cons[of d True] by (auto intro!: exI[of _ s])
    ultimately show ?thesis using False by auto
  qed
qed auto

text \<open>A plain positive decimal: digits with at most one point, at least one digit, not all zero.\<close>

definition plain_positive :: "string \<Rightarrow> bool" where
  "plain_positive s \<longleftrightarrow>
     (\<exists>ip fp. s = ip @ fp \<and> list_all is_digit ip \<and> (ip \<noteq> [] \<or> 1 < length fp) \<and>
        (fp = [] \<or> hd fp = CHR ''.'' \<and> list_all is_digit (tl fp))) \<and>
     (\<exists>c\<in>set s. is_digit c \<and> c \<noteq> CHR ''0'')"

lemma rfq_positive: "validRFQPositiveDecimal (Some s) \<longleftrightarrow> plain_positive s"
  unfolding validRFQPositiveDecimal_def validRFQPlainDecimal_def plain_positive_def plain_loop_iff
  by (auto simp: list_ex_iff)

definition quote_ok :: "rfq_params \<Rightarrow> bool" where
  "quote_ok params \<longleftrightarrow>
     (case params of
        RFQSubmitQuote rfqID price quantity validUntil \<Rightarrow>
          TrimSpace rfqID \<noteq> [] \<and> plain_positive price \<and> plain_positive quantity \<and> (\<forall>t. validUntil = Some t \<longrightarrow> 0 \<le> t)
      | RFQWithdrawQuote rfqID quoteID \<Rightarrow> TrimSpace rfqID \<noteq> [] \<and> TrimSpace quoteID \<noteq> []
      | RFQConfirmQuote rfqID quoteID confirm \<Rightarrow> TrimSpace rfqID \<noteq> [] \<and> TrimSpace quoteID \<noteq> []
      | RFQOther \<Rightarrow> False)"

lemma quote_checked: "validateRFQQuoteParams params = None \<longleftrightarrow> quote_ok params"
  by (cases params) (auto simp: validateRFQQuoteParams_def quote_ok_def rfq_positive ids_error_def split: option.splits)

text \<open>C15: On an authenticated client a quote operation sends its parameters unchanged exactly when the
  identifiers are not blank, the price and the quantity are plain positive decimals and the validity is
  not negative; every other call is refused without a word to the exchange.\<close>

theorem rfq_quote_guard:
  "(\<forall>r p q v. if quote_ok (RFQSubmitQuote r p q v)
      then sends_request (\<lambda>call. SubmitRFQQuote True call r p q v) ''rfq.submit_quote'' (RFQParams (RFQSubmitQuote r p q v))
      else refused (\<lambda>call. SubmitRFQQuote True call r p q v)) \<and>
   (\<forall>r q. if quote_ok (RFQWithdrawQuote r q)
      then sends_request (\<lambda>call. WithdrawRFQQuote True call r q) ''rfq.withdraw_quote'' (RFQParams (RFQWithdrawQuote r q))
      else refused (\<lambda>call. WithdrawRFQQuote True call r q)) \<and>
   (\<forall>r q b. if quote_ok (RFQConfirmQuote r q b)
      then sends_request (\<lambda>call. ConfirmRFQQuote True call r q b) ''rfq.confirm_quote'' (RFQParams (RFQConfirmQuote r q b))
      else refused (\<lambda>call. ConfirmRFQQuote True call r q b))"
proof -
  have names: "TrimSpace ''rfq.submit_quote'' \<noteq> []" "TrimSpace ''rfq.withdraw_quote'' \<noteq> []" "TrimSpace ''rfq.confirm_quote'' \<noteq> []"
    by code_simp+
  have sent: "sends_request (\<lambda>call. requestTypedRFQ True call meth params target) meth (RFQParams params)"
    if "quote_ok params" "TrimSpace meth \<noteq> []" for meth params target
    using that quote_checked[of params] by (auto simp: sends_request_def requestTypedRFQ_def Request_ws_def)
  have bad: "refused (\<lambda>call. requestTypedRFQ True call meth params target)" if "\<not> quote_ok params" for meth params target
    using that quote_checked[of params] by (auto simp: refused_def requestTypedRFQ_def)
  show ?thesis
    unfolding SubmitRFQQuote_def WithdrawRFQQuote_def ConfirmRFQQuote_def
    by (intro conjI allI if_split[of "\<lambda>x. x", THEN iffD2] impI sent bad names)
qed

section \<open>Credentials\<close>

lemma updateStreams_refused:
  assumes "requiresAuthentication meth (Streams streams)" "TrimSpace meth \<noteq> []"
  shows "\<exists>e. \<forall>call. updateStreams False call meth streams = Some e"
proof -
  have "Request_ws False call meth (Streams streams) = Inl RqAuthRequired" for call
    using assms by (simp add: Request_ws_def)
  then show ?thesis
    unfolding updateStreams_def by (cases "length streams = 0"; cases "list_ex (\<lambda>stream. TrimSpace stream = []) streams") simp_all
qed

lemma refused_if: "refused f \<Longrightarrow> refused g \<Longrightarrow> refused (\<lambda>call. if b then f call else g call)"
  by (cases b) simp_all

lemma refused_Inl: "refused (\<lambda>call. Inl e)"
  by (simp add: refused_def)

text \<open>Without credentials no order, cancellation or quote operation sends anything, nor does a
  subscription or cancellation of raw streams when one of them is private, however it is spelled; and an
  account-wide cancellation without its confirmation is refused on every client.\<close>

theorem private_requests_need_credentials:
  "refused (\<lambda>call. PlaceOrder False call p) \<and> refused (\<lambda>call. CancelOrder_ws False call oid) \<and>
   refused (\<lambda>call. CancelAllOrders_ws False call b) \<and> refused (\<lambda>call. CancelSessionOrders False call b) \<and>
   refused (\<lambda>call. SubmitRFQQuote False call r price q v) \<and> refused (\<lambda>call. WithdrawRFQQuote False call r q) \<and>
   refused (\<lambda>call. ConfirmRFQQuote False call r q b) \<and>
   refused (\<lambda>call. CancelAllOrders_ws auth call False) \<and> refused (\<lambda>call. CancelSessionOrders auth call False) \<and>
   (if list_ex (\<lambda>stream. list_ex (has_prefix (ToLower (TrimSpace stream))) private_prefixes) streams
    then (\<exists>e. \<forall>call. SubscribeStreams False call streams = Some e) \<and> (\<exists>e. \<forall>call. UnsubscribeStreams False call streams = Some e)
    else True)"
proof -
  have names: "TrimSpace ''SUBSCRIBE'' \<noteq> []" "TrimSpace ''UNSUBSCRIBE'' \<noteq> []" by code_simp+
  have lower: "ToLower (TrimSpace ''SUBSCRIBE'') = ''subscribe''" "ToLower (TrimSpace ''UNSUBSCRIBE'') = ''unsubscribe''" by code_simp+
  have closed: "requiresAuthentication ''SUBSCRIBE'' (Streams streams)" "requiresAuthentication ''UNSUBSCRIBE'' (Streams streams)"
    if "list_ex (\<lambda>stream. list_ex (has_prefix (ToLower (TrimSpace stream))) private_prefixes) streams"
    using that by (simp_all add: requiresAuthentication_def lower)
  have orders: "refused (\<lambda>call. PlaceOrder False call p)"
    by (cases "validateOrderPlaceParams p") (simp_all add: refused_def PlaceOrder_def RequestAuthenticated_def)
  have "refused (\<lambda>call. CancelOrder_ws False call oid)" "refused (\<lambda>call. CancelAllOrders_ws False call b)"
    "refused (\<lambda>call. CancelSessionOrders False call b)" "refused (\<lambda>call. CancelAllOrders_ws auth call False)"
    "refused (\<lambda>call. CancelSessionOrders auth call False)"
    unfolding CancelOrder_ws_def CancelAllOrders_ws_def CancelSessionOrders_def cancelAll_ws_def RequestAuthenticated_def
    by (cases "validOrderID oid"; cases b; simp add: refused_Inl)+
  moreover have "refused (\<lambda>call. requestTypedRFQ False call meth params target)" for meth params target
    by (simp add: requestTypedRFQ_def refused_Inl)
  ultimately show ?thesis
    using orders updateStreams_refused closed names
    unfolding SubmitRFQQuote_def WithdrawRFQQuote_def ConfirmRFQQuote_def SubscribeStreams_def UnsubscribeStreams_def by presburger
qed

end
