(* ===== verification/Events.thy ===== *)
theory Events
  imports Main "HOL-Library.Multiset" "HOL-Library.Sublist"
begin

text \<open>
  The lifecycle events of the websocket client, \<open>websocket/client.go\<close>: the bounded channel of \<open>Events\<close>
  with its coalescing overflow goroutine, and the independent subscribers, which are closed rather than
  allowed to miss an event. A channel is its buffer. The first part is the state under \<open>eventMu\<close>, the
  second the interleaving of publishers, the overflow goroutine, the consumers and \<open>Close\<close>, which closes
  the channels once its pumps and the overflow goroutine are gone. That goroutine may give up as soon as
  \<open>Close\<close> has begun; here it may do so at any time.
\<close>

section \<open>The code\<close>

definition eventChanCapacity :: nat where "eventChanCapacity = 32"

record 'e event_subscriber =
  sb_cap :: nat
  sb_buffer :: "'e list"
  sb_open :: bool

record 'e event_bus =
  eb_chan :: "'e list"
  eb_pending :: "'e option"
  eb_pumpRunning :: bool
  eb_closed :: bool
  eb_subscribers :: "(nat \<times> 'e event_subscriber) list"
  eb_next :: nat

definition new_bus :: "'e event_bus" where
  "new_bus = \<lparr>eb_chan = [], eb_pending = None, eb_pumpRunning = False, eb_closed = False, eb_subscribers = [], eb_next = 0\<rparr>"

text \<open>One subscriber of \<open>publishEvent\<close>'s loop; a closed one has left the map.\<close>

definition offer :: "'e \<Rightarrow> 'e event_subscriber \<Rightarrow> 'e event_subscriber" where
  "offer event s =
     (if \<not> sb_open s then s
      else if length (sb_buffer s) < sb_cap s then s\<lparr>sb_buffer := sb_buffer s @ [event]\<rparr>
      else s\<lparr>sb_open := False\<rparr>)"

text \<open>\<open>publishEvent\<close>, with the flag that it starts \<open>drainEvents\<close>.\<close>

definition publish_event :: "'e \<Rightarrow> 'e event_bus \<Rightarrow> 'e event_bus \<times> bool" where
  "publish_event event b =
     (if eb_closed b then (b, False)
      else
        let b1 = b\<lparr>eb_subscribers := map (\<lambda>(i, s). (i, offer event s)) (eb_subscribers b)\<rparr>
        in if eb_pumpRunning b1 then (b1\<lparr>eb_pending := Some event\<rparr>, False)
           else if length (eb_chan b1) < eventChanCapacity then (b1\<lparr>eb_chan := eb_chan b1 @ [event]\<rparr>, False)
           else (b1\<lparr>eb_pending := Some event, eb_pumpRunning := True\<rparr>, True))"

text \<open>The locked section of \<open>drainEvents\<close>: the event to send, if any.\<close>

definition drain_take :: "'e event_bus \<Rightarrow> 'e option \<times> 'e event_bus" where
  "drain_take b =
     (case eb_pending b of
        None \<Rightarrow> (None, b\<lparr>eb_pumpRunning := False\<rparr>)
      | Some event \<Rightarrow> (Some event, b\<lparr>eb_pending := None\<rparr>))"

definition drain_stop :: "'e event_bus \<Rightarrow> 'e event_bus" where
  "drain_stop b = b\<lparr>eb_pending := None, eb_pumpRunning := False\<rparr>"

definition SubscribeConnectionEvents :: "int \<Rightarrow> 'e event_bus \<Rightarrow> 'e event_bus" where
  "SubscribeConnectionEvents buffer b =
     (let cap = (if buffer < 1 then 1 else nat buffer)
      in if eb_closed b then b
         else b\<lparr>eb_next := Suc (eb_next b),
                eb_subscribers := eb_subscribers b @ [(Suc (eb_next b), \<lparr>sb_cap = cap, sb_buffer = [], sb_open = True\<rparr>)]\<rparr>)"

definition on_subscriber :: "nat \<Rightarrow> ('e event_subscriber \<Rightarrow> 'e event_subscriber) \<Rightarrow> 'e event_bus \<Rightarrow> 'e event_bus" where
  "on_subscriber i f b = b\<lparr>eb_subscribers := map (\<lambda>(j, s). (j, if j = i then f s else s)) (eb_subscribers b)\<rparr>"

definition stop_subscriber :: "nat \<Rightarrow> 'e event_bus \<Rightarrow> 'e event_bus" where
  "stop_subscriber i b = on_subscriber i (\<lambda>s. s\<lparr>sb_open := False\<rparr>) b"

definition close_events :: "'e event_bus \<Rightarrow> 'e event_bus" where
  "close_events b =
     (if eb_closed b then b
      else b\<lparr>eb_closed := True, eb_subscribers := map (\<lambda>(i, s). (i, s\<lparr>sb_open := False\<rparr>)) (eb_subscribers b)\<rparr>)"

section \<open>Interleavings\<close>

text \<open>The overflow goroutine is between its sections, or sending.\<close>

datatype 'e drainer = Checking | Sending 'e

text \<open>A run records what was published, what the consumer of \<open>Events\<close> and each subscriber received, and
  the log's length when the subscriber came.\<close>

record 'e event_run =
  er_bus :: "'e event_bus"
  er_drainers :: "'e drainer multiset"
  er_log :: "'e list"
  er_received :: "'e list"
  er_abandoned :: bool
  er_got :: "nat \<Rightarrow> 'e list"
  er_since :: "nat \<Rightarrow> nat"

definition event_start :: "'e event_run" where
  "event_start = \<lparr>er_bus = new_bus, er_drainers = {#}, er_log = [], er_received = [], er_abandoned = False,
     er_got = (\<lambda>_. []), er_since = (\<lambda>_. 0)\<rparr>"

inductive event_step :: "'e event_run \<Rightarrow> 'e event_run \<Rightarrow> bool" where
  publish: "\<not> eb_closed (er_bus r) \<Longrightarrow> publish_event e (er_bus r) = (b, starts) \<Longrightarrow>
    event_step r (r\<lparr>er_bus := b, er_log := er_log r @ [e],
      er_drainers := (if starts then add_mset Checking (er_drainers r) else er_drainers r)\<rparr>)"
| publish_late: "eb_closed (er_bus r) \<Longrightarrow> event_step r (r\<lparr>er_bus := fst (publish_event e (er_bus r))\<rparr>)"
| drain_next: "er_drainers r = add_mset Checking ds \<Longrightarrow> drain_take (er_bus r) = (Some e, b) \<Longrightarrow>
    event_step r (r\<lparr>er_bus := b, er_drainers := add_mset (Sending e) ds\<rparr>)"
| drain_end: "er_drainers r = add_mset Checking ds \<Longrightarrow> drain_take (er_bus r) = (None, b) \<Longrightarrow>
    event_step r (r\<lparr>er_bus := b, er_drainers := ds\<rparr>)"
| drain_sent: "er_drainers r = add_mset (Sending e) ds \<Longrightarrow> length (eb_chan (er_bus r)) < eventChanCapacity \<Longrightarrow>
    event_step r (r\<lparr>er_bus := (er_bus r)\<lparr>eb_chan := eb_chan (er_bus r) @ [e]\<rparr>, er_drainers := add_mset Checking ds\<rparr>)"
| drain_done: "er_drainers r = add_mset (Sending e) ds \<Longrightarrow>
    event_step r (r\<lparr>er_bus := drain_stop (er_bus r), er_drainers := ds, er_abandoned := True\<rparr>)"
| receive: "eb_chan (er_bus r) = e # es \<Longrightarrow>
    event_step r (r\<lparr>er_bus := (er_bus r)\<lparr>eb_chan := es\<rparr>, er_received := er_received r @ [e]\<rparr>)"
| subscribe: "event_step r (r\<lparr>er_bus := SubscribeConnectionEvents buffer (er_bus r),
      er_since := (er_since r)(Suc (eb_next (er_bus r)) := length (er_log r))\<rparr>)"
| stop: "event_step r (r\<lparr>er_bus := stop_subscriber i (er_bus r)\<rparr>)"
| subscriber_receive: "(i, s) \<in> set (eb_subscribers (er_bus r)) \<Longrightarrow> sb_buffer s = e # es \<Longrightarrow>
    event_step r (r\<lparr>er_bus := on_subscriber i (\<lambda>s. s\<lparr>sb_buffer := tl (sb_buffer s)\<rparr>) (er_bus r),
      er_got := (er_got r)(i := er_got r i @ [e])\<rparr>)"
| close: "er_drainers r = {#} \<Longrightarrow> event_step r (r\<lparr>er_bus := close_events (er_bus r)\<rparr>)"

inductive event_reachable :: "'e event_run \<Rightarrow> bool" where
  event_init: "event_reachable event_start"
| event_next: "event_reachable r \<Longrightarrow> event_step r r' \<Longrightarrow> event_reachable r'"

section \<open>Invariants\<close>

text \<open>The way of an event to the consumer of \<open>Events\<close>.\<close>

fun carried :: "'e drainer \<Rightarrow> 'e list" where
  "carried Checking = []"
| "carried (Sending e) = [e]"

definition flow :: "'e event_run \<Rightarrow> 'e list \<Rightarrow> 'e list" where
  "flow r inflight = er_received r @ eb_chan (er_bus r) @ inflight @ (case eb_pending (er_bus r) of None \<Rightarrow> [] | Some e \<Rightarrow> [e])"

definition queue_inv :: "'e event_run \<Rightarrow> 'e list \<Rightarrow> bool" where
  "queue_inv r inflight \<longleftrightarrow>
     subseq (flow r inflight) (er_log r) \<and>
     (\<not> er_abandoned r \<and> er_log r \<noteq> [] \<longrightarrow> flow r inflight \<noteq> [] \<and> last (flow r inflight) = last (er_log r)) \<and>
     length (eb_chan (er_bus r)) \<le> eventChanCapacity"

definition pump_inv :: "'e event_run \<Rightarrow> bool" where
  "pump_inv r \<longleftrightarrow>
     (if eb_pumpRunning (er_bus r) then \<exists>d. er_drainers r = {#d#} \<and> queue_inv r (carried d)
      else er_drainers r = {#} \<and> eb_pending (er_bus r) = None \<and> queue_inv r []) \<and>
     (eb_closed (er_bus r) \<longrightarrow> er_drainers r = {#})"

definition subscriber_inv :: "'e event_run \<Rightarrow> nat \<Rightarrow> 'e event_subscriber \<Rightarrow> bool" where
  "subscriber_inv r i s \<longleftrightarrow>
     1 \<le> sb_cap s \<and> length (sb_buffer s) \<le> sb_cap s \<and> er_since r i \<le> length (er_log r) \<and>
     prefix (er_got r i @ sb_buffer s) (drop (er_since r i) (er_log r)) \<and>
     (sb_open s \<longrightarrow> er_got r i @ sb_buffer s = drop (er_since r i) (er_log r))"

definition bus_inv :: "'e event_run \<Rightarrow> bool" where
  "bus_inv r \<longleftrightarrow>
     distinct (map fst (eb_subscribers (er_bus r))) \<and>
     (\<forall>(i, s)\<in>set (eb_subscribers (er_bus r)). i \<le> eb_next (er_bus r) \<and> subscriber_inv r i s \<and>
        (eb_closed (er_bus r) \<longrightarrow> \<not> sb_open s)) \<and>
     (\<forall>i>eb_next (er_bus r). er_got r i = [])"

section \<open>Preservation\<close>

lemma subseq_snoc: "subseq xs ys \<Longrightarrow> subseq (xs @ [e]) (ys @ [e])"
  by (simp add: list_emb_append_mono)

lemma subseq_replace: "subseq (xs @ [a]) ys \<Longrightarrow> subseq (xs @ [e]) (ys @ [e])"
  using subseq_order.trans[OF prefix_imp_subseq[of xs "xs @ [a]"], of ys] subseq_snoc[of xs ys e] by simp

lemma queue_publish:
  assumes "queue_inv r inflight" "er_log r' = er_log r @ [e]" "er_received r' = er_received r" "er_abandoned r' = er_abandoned r"
    "length (eb_chan (er_bus r')) \<le> eventChanCapacity"
    "flow r' inflight' = er_received r @ eb_chan (er_bus r) @ inflight @ [e]"
  shows "queue_inv r' inflight'"
proof -
  have "subseq (flow r' inflight') (er_log r')"
  proof (cases "eb_pending (er_bus r)")
    case None
    then show ?thesis using assms(1,2,6) subseq_snoc[of "flow r inflight" "er_log r" e] by (simp add: queue_inv_def flow_def)
  next
    case (Some a)
    then show ?thesis
      using assms(1,2,6) subseq_replace[of "er_received r @ eb_chan (er_bus r) @ inflight" a "er_log r" e]
      by (simp add: queue_inv_def flow_def)
  qed
  then show ?thesis using assms(2,5,6) by (simp add: queue_inv_def)
qed

lemma queue_same:
  assumes "queue_inv r inflight" "flow r' inflight' = flow r inflight" "er_log r' = er_log r" "er_abandoned r' = er_abandoned r"
    "length (eb_chan (er_bus r')) \<le> eventChanCapacity"
  shows "queue_inv r' inflight'"
  using assms by (simp add: queue_inv_def)

lemma queue_abandon:
  assumes "queue_inv r inflight" "flow r' [] = er_received r @ eb_chan (er_bus r)" "er_log r' = er_log r" "er_abandoned r'"
    "length (eb_chan (er_bus r')) \<le> eventChanCapacity"
  shows "queue_inv r' []"
proof -
  have "subseq (er_received r @ eb_chan (er_bus r)) (flow r inflight)" 
    by (rule prefix_imp_subseq) (simp add: flow_def)
  then show ?thesis using assms subseq_order.trans[of _ "flow r inflight" "er_log r"] by (simp add: queue_inv_def)
qed

lemmas bus_defs = publish_event_def drain_take_def drain_stop_def SubscribeConnectionEvents_def on_subscriber_def stop_subscriber_def
  close_events_def

lemma pump_step:
  assumes "event_step r r'" "pump_inv r"
  shows "pump_inv r'"
  using assms
proof (induction rule: event_step.induct)
  case (publish r e b starts)
  let ?r' = "r\<lparr>er_bus := b, er_log := er_log r @ [e],
      er_drainers := (if starts then add_mset Checking (er_drainers r) else er_drainers r)\<rparr>"
  show ?case
  proof (cases "eb_pumpRunning (er_bus r)")
    case True
    then obtain d where d: "er_drainers r = {#d#}" "queue_inv r (carried d)" using publish.prems by (auto simp: pump_inv_def)
    have b: "eb_pumpRunning b" "eb_pending b = Some e" "eb_chan b = eb_chan (er_bus r)" "eb_closed b = eb_closed (er_bus r)" "\<not> starts"
      using publish.hyps True by (auto simp: publish_event_def Let_def)
    have "queue_inv ?r' (carried d)"
      by (rule queue_publish[OF d(2)]) (use d(2) b in \<open>simp_all add: flow_def queue_inv_def\<close>)
    then show ?thesis using b d(1) publish.hyps(1) by (simp add: pump_inv_def)
  next
    case False
    then have q: "er_drainers r = {#}" "eb_pending (er_bus r) = None" "queue_inv r []" using publish.prems by (auto simp: pump_inv_def)
    have b: "eb_closed b = eb_closed (er_bus r)" using publish.hyps False by (auto simp: publish_event_def Let_def split: if_splits)
    show ?thesis
    proof (cases "length (eb_chan (er_bus r)) < eventChanCapacity")
      case True
      then have c: "eb_chan b = eb_chan (er_bus r) @ [e]" "\<not> eb_pumpRunning b" "eb_pending b = None" "\<not> starts"
        using publish.hyps False q(2) by (auto simp: publish_event_def Let_def)
      have "queue_inv ?r' []" by (rule queue_publish[OF q(3)]) (use True c in \<open>simp_all add: flow_def\<close>)
      then show ?thesis using c q by (simp add: pump_inv_def)
    next
      case full: False
      then have c: "eb_chan b = eb_chan (er_bus r)" "eb_pumpRunning b" "eb_pending b = Some e" "starts"
        using publish.hyps False by (auto simp: publish_event_def Let_def)
      have "queue_inv ?r' []" by (rule queue_publish[OF q(3)]) (use q(3) c in \<open>simp_all add: flow_def queue_inv_def\<close>)
      then show ?thesis using b c q publish.hyps(1) by (auto simp: pump_inv_def)
    qed
  qed
next
  case (publish_late r e)
  then show ?case by (simp add: publish_event_def)
next
  case (drain_next r ds e b)
  then have ds: "ds = {#}" "queue_inv r []" "eb_pumpRunning (er_bus r)" "\<not> eb_closed (er_bus r)"
    by (auto simp: pump_inv_def split: if_splits)
  have b: "eb_pending (er_bus r) = Some e" "b = (er_bus r)\<lparr>eb_pending := None\<rparr>"
    using drain_next.hyps(2) by (auto simp: drain_take_def split: option.splits)
  have "queue_inv (r\<lparr>er_bus := b, er_drainers := add_mset (Sending e) ds\<rparr>) [e]"
    by (rule queue_same[OF ds(2)]) (use ds(2) in \<open>simp_all add: b flow_def queue_inv_def\<close>)
  then show ?case using ds by (auto simp: pump_inv_def b(2))
next
  case (drain_end r ds b)
  then have ds: "ds = {#}" "queue_inv r []" by (auto simp: pump_inv_def split: if_splits)
  have b: "eb_pending (er_bus r) = None" "b = (er_bus r)\<lparr>eb_pumpRunning := False\<rparr>"
    using drain_end.hyps(2) by (auto simp: drain_take_def split: option.splits)
  have "queue_inv (r\<lparr>er_bus := b, er_drainers := ds\<rparr>) []"
    by (rule queue_same[OF ds(2)]) (use ds(2) in \<open>simp_all add: b flow_def queue_inv_def\<close>)
  then show ?case using ds b by (simp add: pump_inv_def)
next
  case (drain_sent r e ds)
  then have ds: "ds = {#}" "queue_inv r [e]" "eb_pumpRunning (er_bus r)" "\<not> eb_closed (er_bus r)"
    by (auto simp: pump_inv_def split: if_splits)
  have "queue_inv (r\<lparr>er_bus := (er_bus r)\<lparr>eb_chan := eb_chan (er_bus r) @ [e]\<rparr>, er_drainers := add_mset Checking ds\<rparr>) []"
    by (rule queue_same[OF ds(2)]) (use drain_sent.hyps in \<open>simp_all add: flow_def\<close>)
  then show ?case using ds by (auto simp: pump_inv_def)
next
  case (drain_done r e ds)
  then have ds: "ds = {#}" "queue_inv r [e]" by (auto simp: pump_inv_def split: if_splits)
  have "queue_inv (r\<lparr>er_bus := drain_stop (er_bus r), er_drainers := ds, er_abandoned := True\<rparr>) []"
    by (rule queue_abandon[OF ds(2)]) (use ds(2) in \<open>simp_all add: flow_def queue_inv_def drain_stop_def\<close>)
  then show ?case using ds by (simp add: pump_inv_def drain_stop_def)
next
  case (receive r e es)
  have same: "queue_inv (r\<lparr>er_bus := (er_bus r)\<lparr>eb_chan := es\<rparr>, er_received := er_received r @ [e]\<rparr>) inflight" if "queue_inv r inflight" for inflight
    by (rule queue_same[OF that]) (use that receive.hyps in \<open>simp_all add: flow_def queue_inv_def\<close>)
  show ?case using receive.prems same by (auto simp: pump_inv_def split: if_splits)
next
  case (close r)
  have same: "queue_inv (r\<lparr>er_bus := close_events (er_bus r)\<rparr>) inflight" if "queue_inv r inflight" for inflight
    by (rule queue_same[OF that]) (use that in \<open>simp_all add: flow_def queue_inv_def close_events_def\<close>)
  show ?case using close same by (auto simp: pump_inv_def close_events_def split: if_splits)
next
  case (subscribe r buffer)
  have same: "queue_inv (r\<lparr>er_bus := SubscribeConnectionEvents buffer (er_bus r), er_since := f\<rparr>) inflight" if "queue_inv r inflight" for inflight f
    by (rule queue_same[OF that]) (use that in \<open>simp_all add: flow_def queue_inv_def SubscribeConnectionEvents_def Let_def\<close>)
  show ?case using subscribe same by (auto simp: pump_inv_def SubscribeConnectionEvents_def Let_def split: if_splits)
next
  case (stop r i)
  have same: "queue_inv (r\<lparr>er_bus := stop_subscriber i (er_bus r)\<rparr>) inflight" if "queue_inv r inflight" for inflight
    by (rule queue_same[OF that]) (use that in \<open>simp_all add: flow_def queue_inv_def stop_subscriber_def on_subscriber_def\<close>)
  show ?case using stop same by (auto simp: pump_inv_def stop_subscriber_def on_subscriber_def split: if_splits)
next
  case (subscriber_receive i s r e es)
  have same: "queue_inv (r\<lparr>er_bus := on_subscriber i f (er_bus r), er_got := g\<rparr>) inflight" if "queue_inv r inflight" for inflight f g
    by (rule queue_same[OF that]) (use that in \<open>simp_all add: flow_def queue_inv_def on_subscriber_def\<close>)
  show ?case using subscriber_receive same by (auto simp: pump_inv_def on_subscriber_def split: if_splits)
qed

lemma offer_inv:
  assumes "subscriber_inv r i s" "er_log r' = er_log r @ [e]" "er_got r' = er_got r" "er_since r' = er_since r"
  shows "subscriber_inv r' i (offer e s)"
proof -
  have "drop (er_since r i) (er_log r') = drop (er_since r i) (er_log r) @ [e]"
    using assms(1,2) by (simp add: subscriber_inv_def)
  then show ?thesis using assms by (auto simp: subscriber_inv_def offer_def)
qed

lemma subscriber_same:
  assumes "subscriber_inv r i s" "er_log r' = er_log r" "er_got r' i = er_got r i" "er_since r' i = er_since r i"
  shows "subscriber_inv r' i s" "subscriber_inv r' i (s\<lparr>sb_open := False\<rparr>)"
  using assms by (simp_all add: subscriber_inv_def)

lemma bus_publish:
  assumes "bus_inv r" "\<not> eb_closed (er_bus r)" "publish_event e (er_bus r) = (b, starts)"
  shows "bus_inv (r\<lparr>er_bus := b, er_log := er_log r @ [e], er_drainers := ds\<rparr>)"
proof -
  have b: "eb_subscribers b = map (\<lambda>(i, s). (i, offer e s)) (eb_subscribers (er_bus r))" "eb_next b = eb_next (er_bus r)" "\<not> eb_closed b"
    using assms(2,3) by (auto simp: publish_event_def Let_def split: if_splits)
  have "map fst (eb_subscribers b) = map fst (eb_subscribers (er_bus r))" by (simp add: b(1) comp_def case_prod_beta)
  moreover have "i \<le> eb_next b \<and> subscriber_inv (r\<lparr>er_bus := b, er_log := er_log r @ [e], er_drainers := ds\<rparr>) i s"
    if m: "(i, s) \<in> set (eb_subscribers b)" for i s
  proof -
    obtain u where u: "(i, u) \<in> set (eb_subscribers (er_bus r))" "s = offer e u" using m b(1) by auto
    then have "i \<le> eb_next (er_bus r)" "subscriber_inv r i u" using assms(1) by (auto simp: bus_inv_def)
    then show ?thesis using u(2) b(2) offer_inv[of r i u] by simp
  qed
  ultimately show ?thesis using assms(1) b(2,3) unfolding bus_inv_def by auto
qed

lemma bus_unchanged:
  assumes "bus_inv r" "eb_subscribers b = eb_subscribers (er_bus r)" "eb_next b = eb_next (er_bus r)" "eb_closed b = eb_closed (er_bus r)"
  shows "bus_inv (r\<lparr>er_bus := b, er_drainers := ds\<rparr>)" "bus_inv (r\<lparr>er_bus := b, er_received := es\<rparr>)"
    "bus_inv (r\<lparr>er_bus := b, er_drainers := ds, er_abandoned := True\<rparr>)"
  using assms subscriber_same(1)[of r] by (fastforce simp: bus_inv_def)+

lemma bus_step:
  assumes "event_step r r'" "bus_inv r"
  shows "bus_inv r'"
  using assms
proof (induction rule: event_step.induct)
  case (publish r e b starts) then show ?case by (intro bus_publish)
next
  case (publish_late r e)
  then show ?case using bus_unchanged(1)[of r "er_bus r" "er_drainers r"] by (simp add: publish_event_def)
next
  case (drain_next r ds e b)
  then show ?case by (intro bus_unchanged(1)) (auto simp: drain_take_def split: option.splits)
next
  case (drain_end r ds b)
  then show ?case by (intro bus_unchanged(1)) (auto simp: drain_take_def split: option.splits)
next
  case (drain_sent r e ds) then show ?case by (intro bus_unchanged(1)) simp_all
next
  case (drain_done r e ds) then show ?case by (intro bus_unchanged(3)) (simp_all add: drain_stop_def)
next
  case (receive r e es) then show ?case by (intro bus_unchanged(2)) simp_all
next
  case (subscribe r buffer)
  let ?i = "Suc (eb_next (er_bus r))"
  let ?r' = "r\<lparr>er_bus := SubscribeConnectionEvents buffer (er_bus r), er_since := (er_since r)(?i := length (er_log r))\<rparr>"
  have old: "subscriber_inv ?r' i s" if "(i, s) \<in> set (eb_subscribers (er_bus r))" for i s
  proof -
    have "i \<le> eb_next (er_bus r)" "subscriber_inv r i s" using subscribe that by (auto simp: bus_inv_def)
    then show ?thesis by (simp add: subscriber_same(1)[of r])
  qed
  have "?i \<notin> fst ` set (eb_subscribers (er_bus r))" using subscribe by (force simp: bus_inv_def)
  moreover have "er_got r ?i = []" using subscribe by (simp add: bus_inv_def)
  then have new: "subscriber_inv ?r' ?i \<lparr>sb_cap = (if buffer < 1 then 1 else nat buffer), sb_buffer = [], sb_open = True\<rparr>"
    by (auto simp: subscriber_inv_def Suc_le_eq)
  moreover have "\<forall>(i, s)\<in>set (eb_subscribers (er_bus r)). i \<le> Suc (eb_next (er_bus r)) \<and> (eb_closed (er_bus r) \<longrightarrow> i \<le> eb_next (er_bus r) \<and> \<not> sb_open s)"
    using subscribe by (force simp: bus_inv_def)
  moreover have "distinct (map fst (eb_subscribers (er_bus r)))" "\<forall>i>eb_next (er_bus r). er_got r i = []"
    using subscribe by (simp_all add: bus_inv_def)
  ultimately show ?case
    unfolding bus_inv_def using old
    by (cases "eb_closed (er_bus r)") (auto simp: SubscribeConnectionEvents_def Let_def simp del: fun_upd_apply)
next
  case (stop r j)
  have "subscriber_inv (r\<lparr>er_bus := stop_subscriber j (er_bus r)\<rparr>) i s \<and> subscriber_inv (r\<lparr>er_bus := stop_subscriber j (er_bus r)\<rparr>) i (s\<lparr>sb_open := False\<rparr>)"
    if "(i, s) \<in> set (eb_subscribers (er_bus r))" for i s
  proof -
    have "subscriber_inv r i s" using stop that by (auto simp: bus_inv_def)
    then show ?thesis by (simp add: subscriber_same[of r])
  qed
  then show ?case using stop by (auto simp: bus_inv_def stop_subscriber_def on_subscriber_def comp_def case_prod_beta)
next
  case (subscriber_receive j u r e es)
  let ?f = "\<lambda>s. s\<lparr>sb_buffer := tl (sb_buffer s)\<rparr>"
  let ?r' = "r\<lparr>er_bus := on_subscriber j ?f (er_bus r), er_got := (er_got r)(j := er_got r j @ [e])\<rparr>"
  have "subscriber_inv ?r' i (if i = j then ?f s else s)" if "(i, s) \<in> set (eb_subscribers (er_bus r))" for i s
  proof (cases "i = j")
    case True
    then have "s = u" using that subscriber_receive by (auto simp: bus_inv_def dest: eq_key_imp_eq_value)
    then show ?thesis using True that subscriber_receive by (auto simp: bus_inv_def subscriber_inv_def)
  next
    case False
    then show ?thesis using that subscriber_receive by (auto simp: bus_inv_def subscriber_inv_def)
  qed
  moreover have "j \<le> eb_next (er_bus r)" using subscriber_receive by (auto simp: bus_inv_def)
  ultimately show ?case using subscriber_receive.prems by (auto simp: bus_inv_def on_subscriber_def comp_def case_prod_beta)
next
  case (close r)
  have "subscriber_inv (r\<lparr>er_bus := close_events (er_bus r)\<rparr>) i s \<and> subscriber_inv (r\<lparr>er_bus := close_events (er_bus r)\<rparr>) i (s\<lparr>sb_open := False\<rparr>)"
    if "(i, s) \<in> set (eb_subscribers (er_bus r))" for i s
  proof -
    have "subscriber_inv r i s" using close that by (auto simp: bus_inv_def)
    then show ?thesis by (simp add: subscriber_same[of r])
  qed
  then show ?case using close by (auto simp: bus_inv_def close_events_def comp_def case_prod_beta)
qed

lemma event_invariants: "event_reachable r \<Longrightarrow> pump_inv r \<and> bus_inv r"
proof (induction rule: event_reachable.induct)
  case event_init
  then show ?case by (simp add: pump_inv_def bus_inv_def queue_inv_def event_start_def new_bus_def flow_def eventChanCapacity_def)
qed (blast intro: pump_step bus_step)

text \<open>Whatever publishers, consumers and \<open>Close\<close> do, the consumer of \<open>Events\<close> gets published events in their
  order, coalesced only by dropping events that a later one replaces: until the client closes, the last
  event published has been received or is on its way. At most 32 events wait and one overflow goroutine
  runs, none once the channel is closed.\<close>

theorem events_coalesced:
  assumes "event_reachable r"
  shows "subseq (er_received r) (er_log r) \<and> length (eb_chan (er_bus r)) \<le> eventChanCapacity \<and> size (er_drainers r) \<le> 1 \<and>
    (eb_closed (er_bus r) \<longrightarrow> er_drainers r = {#}) \<and>
    (\<exists>inflight. subseq (flow r inflight) (er_log r) \<and>
       (\<not> er_abandoned r \<and> er_log r \<noteq> [] \<longrightarrow> flow r inflight \<noteq> [] \<and> last (flow r inflight) = last (er_log r)))"
proof -
  have pump: "pump_inv r" using event_invariants[OF assms] by blast
  then obtain inflight where q: "queue_inv r inflight" "size (er_drainers r) \<le> 1" by (auto simp: pump_inv_def split: if_splits)
  have "subseq (er_received r) (flow r inflight)" by (rule prefix_imp_subseq) (simp add: flow_def)
  then have "subseq (er_received r) (er_log r)" using q(1) subseq_order.trans by (auto simp: queue_inv_def)
  then show ?thesis using q pump by (auto simp: queue_inv_def pump_inv_def)
qed

text \<open>C12: An independent subscriber misses nothing: while it is open, what it has received and what waits in
  its buffer are exactly the events published since it subscribed, and after it was closed (because its
  buffer was full, by its stop function, or by \<open>Close\<close>) they are the first of them.\<close>

theorem subscribers_miss_nothing:
  assumes "event_reachable r" "(i, s) \<in> set (eb_subscribers (er_bus r))"
  shows "prefix (er_got r i @ sb_buffer s) (drop (er_since r i) (er_log r)) \<and> length (sb_buffer s) \<le> sb_cap s \<and>
    (sb_open s \<longrightarrow> er_got r i @ sb_buffer s = drop (er_since r i) (er_log r))"
  using event_invariants[OF assms(1)] assms(2) by (auto simp: bus_inv_def subscriber_inv_def)

section \<open>A concrete run\<close>

definition bus_run :: "nat event_run" where
  "bus_run = event_start\<lparr>er_bus := SubscribeConnectionEvents 0 new_bus, er_since := (\<lambda>_. 0)(Suc 0 := 0)\<rparr>"

definition demo_published :: "nat event_run" where
  "demo_published = bus_run\<lparr>er_bus := fst (publish_event 7 (er_bus bus_run)), er_log := [7]\<rparr>"

lemma demo_published_reachable: "event_reachable demo_published"
proof (rule event_next)
  have "event_step event_start bus_run"
    using event_step.subscribe[of "event_start :: nat event_run" 0] by (simp add: bus_run_def event_start_def new_bus_def)
  then show "event_reachable bus_run" by (rule event_next[OF event_init])
  show "event_step bus_run demo_published"
    using event_step.publish[of bus_run 7 "fst (publish_event 7 (er_bus bus_run))" False]
    by (simp add: demo_published_def bus_run_def event_start_def new_bus_def SubscribeConnectionEvents_def publish_event_def
        eventChanCapacity_def Let_def)
qed

theorem events_coalesced_witness: "subseq (er_received demo_published) [7] \<and> size (er_drainers demo_published) \<le> 1"
  using events_coalesced[OF demo_published_reachable] by (simp add: demo_published_def)

theorem subscribers_miss_nothing_witness:
  "prefix (er_got demo_published 1 @ [7]) (drop (er_since demo_published 1) [7])"
proof -
  have "(1, \<lparr>sb_cap = 1, sb_buffer = [7], sb_open = True\<rparr>) \<in> set (eb_subscribers (er_bus demo_published))"
    by (simp add: demo_published_def bus_run_def new_bus_def SubscribeConnectionEvents_def publish_event_def offer_def
        eventChanCapacity_def Let_def)
  from subscribers_miss_nothing[OF demo_published_reachable this, THEN conjunct1]
  show ?thesis by (simp add: demo_published_def)
qed

end
