(* ===== verification/Pagination.thy ===== *)
theory Pagination
  imports Main
begin

text \<open>
  Lazy pagination: \<open>transport/pagination.go\<close> and the iterators of \<open>services/predictions_pagination.go\<close>. An
  iterator is run against a consumer that takes a number of items before it breaks out of its loop; the
  result lists what was yielded and the offsets fetched. The loop ends only when a page says so, so it
  has fuel, and running out of it is \<open>None\<close>. The context's error before each page is an argument.
\<close>

section \<open>The paginator\<close>

datatype page_error =
    NilFetcher | NegativeOffset | ContextError string | FetchError string | TimeBoundedOrderHistory | InvalidPagination string

type_synonym 'a fetcher = "int \<Rightarrow> int \<Rightarrow> page_error + 'a list \<times> bool"

text \<open>Yielding a page to a consumer that still accepts \<open>k\<close> items without breaking; \<open>None\<close> when it broke.\<close>

fun yield_items :: "nat \<Rightarrow> 'a list \<Rightarrow> 'a list \<times> nat option" where
  "yield_items k [] = ([], Some k)"
| "yield_items 0 (x # xs) = ([x], None)"
| "yield_items (Suc k) (x # xs) = (case yield_items k xs of (ys, rest) \<Rightarrow> (x # ys, rest))"

type_synonym 'a page_run = "'a list \<times> int list \<times> page_error option"

fun page_loop :: "'a fetcher \<Rightarrow> (nat \<Rightarrow> string option) \<Rightarrow> int \<Rightarrow> nat \<Rightarrow> nat \<Rightarrow> nat \<Rightarrow> int \<Rightarrow> 'a page_run option" where
  "page_loop fetcher ctx pageSize 0 page k offset = None"
| "page_loop fetcher ctx pageSize (Suc fuel) page k offset =
     (case ctx page of
        Some e \<Rightarrow> Some ([], [], Some (ContextError e))
      | None \<Rightarrow>
          (case fetcher offset pageSize of
             Inl e \<Rightarrow> Some ([], [offset], Some e)
           | Inr (items, hasMore) \<Rightarrow>
               (case yield_items k items of
                  (ys, None) \<Rightarrow> Some (ys, [offset], None)
                | (ys, Some k') \<Rightarrow>
                    if \<not> hasMore \<or> length items = 0 then Some (ys, [offset], None)
                    else map_option (\<lambda>(zs, os, e). (ys @ zs, offset # os, e))
                      (page_loop fetcher ctx pageSize fuel (Suc page) k' (offset + int (length items))))))"

definition NewPaginator ::
  "(nat \<Rightarrow> string option) \<Rightarrow> int \<Rightarrow> int \<Rightarrow> 'a fetcher option \<Rightarrow> nat \<Rightarrow> nat \<Rightarrow> 'a page_run option" where
  "NewPaginator ctx initialOffset pageSize0 fetcher fuel k =
     (let pageSize = (if pageSize0 \<le> 0 then 50 else pageSize0)
      in case fetcher of
           None \<Rightarrow> Some ([], [], Some NilFetcher)
         | Some f \<Rightarrow>
             if initialOffset < 0 then Some ([], [], Some NegativeOffset)
             else page_loop f ctx pageSize fuel 0 k initialOffset)"

section \<open>The prediction iterators\<close>

definition predictionPageSize :: "int option \<Rightarrow> int \<Rightarrow> int \<Rightarrow> int" where
  "predictionPageSize value default0 maxSize =
     (if default0 \<le> 0 \<or> maxSize \<le> 0 then 1
      else
        let defaultSize = (if maxSize < default0 then maxSize else default0)
        in case value of
             Some v \<Rightarrow> if 0 < v then (if maxSize < v then maxSize else v) else defaultSize
           | None \<Rightarrow> defaultSize)"

definition predictionPageOffset :: "int option \<Rightarrow> int" where
  "predictionPageOffset value = (case value of Some v \<Rightarrow> if 0 < v then v else 0 | None \<Rightarrow> 0)"

definition validatePredictionPagination :: "int option \<Rightarrow> int option \<Rightarrow> page_error option" where
  "validatePredictionPagination limit offset =
     (if (case limit of Some l \<Rightarrow> l \<le> 0 | None \<Rightarrow> False) then Some (InvalidPagination ''limit must be positive'')
      else if (case offset of Some d \<Rightarrow> d < 0 | None \<Rightarrow> False) then Some (InvalidPagination ''offset must be non-negative'')
      else None)"

definition hasMoreByTotal :: "int \<Rightarrow> int \<Rightarrow> int option \<Rightarrow> int \<Rightarrow> bool" where
  "hasMoreByTotal offset count stated limit = (case stated of Some t \<Rightarrow> offset + count < t | None \<Rightarrow> count = limit)"

text \<open>A response's pagination block may be missing, and so may its total.\<close>

definition hasMoreByPagination :: "int \<Rightarrow> int \<Rightarrow> int option option \<Rightarrow> int \<Rightarrow> bool" where
  "hasMoreByPagination offset count pagination limit =
     (case pagination of Some (Some t) \<Rightarrow> offset + count < t | _ \<Rightarrow> count = limit)"

definition dereference :: "'a list option \<Rightarrow> 'a list" where
  "dereference value = (case value of None \<Rightarrow> [] | Some xs \<Rightarrow> xs)"

text \<open>The filters of a request are fixed; a page's request has them, an offset and a limit. The endpoint
  answers with the items, if any, and what it says about the total.\<close>

record 'f page_params =
  pp_filters :: 'f
  pp_limit :: "int option"
  pp_offset :: "int option"

definition iterate_pages ::
  "int \<Rightarrow> int \<Rightarrow> ('f page_params \<Rightarrow> page_error + 'a list option \<times> 't) \<Rightarrow> (int \<Rightarrow> int \<Rightarrow> 't \<Rightarrow> int \<Rightarrow> bool) \<Rightarrow>
   'f page_params \<Rightarrow> (nat \<Rightarrow> string option) \<Rightarrow> nat \<Rightarrow> nat \<Rightarrow> 'a page_run option" where
  "iterate_pages defaultSize maxSize endpoint again base ctx fuel k =
     (case validatePredictionPagination (pp_limit base) (pp_offset base) of
        Some e \<Rightarrow> Some ([], [], Some e)
      | None \<Rightarrow>
          NewPaginator ctx (predictionPageOffset (pp_offset base)) (predictionPageSize (pp_limit base) defaultSize maxSize)
            (Some (\<lambda>offset limit.
               case endpoint (base\<lparr>pp_limit := Some limit, pp_offset := Some offset\<rparr>) of
                 Inl e \<Rightarrow> Inl e
               | Inr (items, info) \<Rightarrow>
                   Inr (dereference items, again offset (int (length (dereference items))) info limit)))
            fuel k)"

definition IteratePositions ::
  "('f page_params \<Rightarrow> page_error + 'a list option \<times> int option) \<Rightarrow> 'f page_params \<Rightarrow> (nat \<Rightarrow> string option) \<Rightarrow> nat \<Rightarrow> nat \<Rightarrow>
   'a page_run option" where
  "IteratePositions endpoint = iterate_pages 1000 1000 endpoint hasMoreByTotal"

definition IterateSettledPositions ::
  "('f page_params \<Rightarrow> page_error + 'a list option \<times> int option) \<Rightarrow> 'f page_params \<Rightarrow> (nat \<Rightarrow> string option) \<Rightarrow> nat \<Rightarrow> nat \<Rightarrow>
   'a page_run option" where
  "IterateSettledPositions endpoint = iterate_pages 1000 1000 endpoint hasMoreByTotal"

definition IterateActiveOrders ::
  "('f page_params \<Rightarrow> page_error + 'a list option \<times> unit) \<Rightarrow> 'f page_params \<Rightarrow> (nat \<Rightarrow> string option) \<Rightarrow> nat \<Rightarrow> nat \<Rightarrow>
   'a page_run option" where
  "IterateActiveOrders endpoint = iterate_pages 100 100 endpoint (\<lambda>offset count info limit. count = limit)"

definition IterateOrderHistory ::
  "('f page_params \<Rightarrow> page_error + 'a list option \<times> unit) \<Rightarrow> bool \<Rightarrow> 'f page_params \<Rightarrow> (nat \<Rightarrow> string option) \<Rightarrow> nat \<Rightarrow> nat \<Rightarrow>
   'a page_run option" where
  "IterateOrderHistory endpoint timeBounded base ctx fuel k =
     (case validatePredictionPagination (pp_limit base) (pp_offset base) of
        Some e \<Rightarrow> Some ([], [], Some e)
      | None \<Rightarrow>
          if timeBounded then Some ([], [], Some TimeBoundedOrderHistory)
          else iterate_pages 1000 1000 endpoint (\<lambda>offset count info limit. count = limit) base ctx fuel k)"

definition IterateCombos ::
  "('f page_params \<Rightarrow> page_error + 'a list option \<times> int option) \<Rightarrow> 'f page_params \<Rightarrow> (nat \<Rightarrow> string option) \<Rightarrow> nat \<Rightarrow> nat \<Rightarrow>
   'a page_run option" where
  "IterateCombos endpoint = iterate_pages 500 500 endpoint hasMoreByTotal"

definition iterateEvents ::
  "int \<Rightarrow> ('f page_params \<Rightarrow> page_error + 'a list option \<times> int option option) \<Rightarrow> 'f page_params \<Rightarrow> (nat \<Rightarrow> string option) \<Rightarrow>
   nat \<Rightarrow> nat \<Rightarrow> 'a page_run option" where
  "iterateEvents defaultPageSize endpoint = iterate_pages defaultPageSize 500 endpoint hasMoreByPagination"

definition IterateLiquidityRewardsEvents ::
  "('f page_params \<Rightarrow> page_error + 'a list option \<times> int option) \<Rightarrow> 'f page_params \<Rightarrow> (nat \<Rightarrow> string option) \<Rightarrow> nat \<Rightarrow> nat \<Rightarrow>
   'a page_run option" where
  "IterateLiquidityRewardsEvents endpoint = iterate_pages 100 100 endpoint hasMoreByTotal"

section \<open>Every item once\<close>

lemma yield_all: "length xs \<le> k \<Longrightarrow> yield_items k xs = (xs, Some (k - length xs))"
  by (induction k xs rule: yield_items.induct) auto

lemma page_size_bounds: "0 < maxSize \<Longrightarrow> 1 \<le> predictionPageSize limit defaultSize maxSize \<and> predictionPageSize limit defaultSize maxSize \<le> maxSize"
  by (auto simp: predictionPageSize_def Let_def split: option.split)

text \<open>A server that holds a list and answers a page of it, saying that there is more exactly when there is,
  or, without a total, whenever the page was full.\<close>

definition serves :: "'a list \<Rightarrow> 'a fetcher \<Rightarrow> bool" where
  "serves all fetcher \<longleftrightarrow>
     (\<forall>offset limit. 0 \<le> offset \<and> 1 \<le> limit \<longrightarrow>
        (\<exists>again. fetcher offset limit = Inr (take (nat limit) (drop (nat offset) all), again) \<and>
           ((again \<longleftrightarrow> offset + limit < int (length all)) \<or>
            (again \<longleftrightarrow> length (take (nat limit) (drop (nat offset) all)) = nat limit))))"

lemma page_loop_all:
  assumes "serves all fetcher" "1 \<le> limit" "0 \<le> offset" "length all - nat offset < fuel" "length all \<le> k + nat offset"
    "\<forall>n. ctx n = None"
  shows "\<exists>os. page_loop fetcher ctx limit fuel page k offset = Some (drop (nat offset) all, os, None) \<and>
    sorted_wrt (<) os \<and> (\<forall>d\<in>set os. offset \<le> d) \<and> length os \<le> Suc (length all - nat offset)"
  using assms(3-5)
proof (induction fuel arbitrary: page k offset)
  case (Suc fuel)
  let ?items = "take (nat limit) (drop (nat offset) all)"
  obtain again where f: "fetcher offset limit = Inr (?items, again)"
    and again: "(again \<longleftrightarrow> offset + limit < int (length all)) \<or> (again \<longleftrightarrow> length ?items = nat limit)"
    using assms(1,2) Suc.prems(1) unfolding serves_def by blast
  have "length ?items \<le> k" using Suc.prems(3) by simp
  note y = yield_all[OF this]
  show ?case
  proof (cases "\<not> again \<or> ?items = []")
    case True
    have "drop (nat offset) all = ?items"
    proof (cases "?items = []")
      case True
      then show ?thesis using assms(2) by auto
    next
      case False
      then have "\<not> again" using True by simp
      then have "length (drop (nat offset) all) \<le> nat limit" using again Suc.prems(1) assms(2) by auto
      then show ?thesis by simp
    qed
    then show ?thesis using True f y assms(6) by auto
  next
    case False
    then have len: "0 < length ?items" "again" by auto
    let ?next = "offset + int (length ?items)"
    have next_offset: "0 \<le> ?next" "length all - nat ?next < fuel" "length all \<le> (k - length ?items) + nat ?next"
      using Suc.prems len assms(2) by (auto simp: nat_add_distrib min_def)
    have full: "drop (nat offset) all = ?items @ drop (nat ?next) all"
    proof -
      have "drop (nat ?next) all = drop (length ?items) (drop (nat offset) all)"
        using Suc.prems(1) by (simp add: nat_add_distrib add.commute)
      moreover have "take (length ?items) (drop (nat offset) all) = ?items" by (simp add: min_def)
      ultimately show ?thesis by (metis append_take_drop_id)
    qed
    obtain os where os: "page_loop fetcher ctx limit fuel (Suc page) (k - length ?items) ?next = Some (drop (nat ?next) all, os, None)"
      "sorted_wrt (<) os" "\<forall>d\<in>set os. ?next \<le> d" "length os \<le> Suc (length all - nat ?next)"
      using Suc.IH[OF next_offset] by blast
    have "page_loop fetcher ctx limit (Suc fuel) page k offset = Some (drop (nat offset) all, offset # os, None)"
      using f y len os(1) full assms(6) by simp
    moreover have "sorted_wrt (<) (offset # os)" "\<forall>d\<in>set (offset # os). offset \<le> d" using os(2,3) len by force+
    moreover have "length (offset # os) \<le> Suc (length all - nat offset)"
      using os(4) len Suc.prems(1) by (auto simp: nat_add_distrib)
    ultimately show ?thesis by blast
  qed
qed simp

text \<open>An endpoint over a list: it answers the page asked for, with the same filters, and what it says about
  the total is nothing or the truth.\<close>

definition lists_items :: "'a list \<Rightarrow> 'f \<Rightarrow> ('t \<Rightarrow> bool) \<Rightarrow> ('f page_params \<Rightarrow> page_error + 'a list option \<times> 't) \<Rightarrow> bool" where
  "lists_items all filters truthful endpoint \<longleftrightarrow>
     (\<forall>offset limit. 0 \<le> offset \<and> 1 \<le> limit \<longrightarrow>
        (\<exists>info. endpoint \<lparr>pp_filters = filters, pp_limit = Some limit, pp_offset = Some offset\<rparr> =
            Inr (Some (take (nat limit) (drop (nat offset) all)), info) \<and> truthful info))"

definition truthful_more :: "('t \<Rightarrow> bool) \<Rightarrow> 'a list \<Rightarrow> (int \<Rightarrow> int \<Rightarrow> 't \<Rightarrow> int \<Rightarrow> bool) \<Rightarrow> bool" where
  "truthful_more truthful all again \<longleftrightarrow>
     (\<forall>info offset limit. truthful info \<and> 0 \<le> offset \<and> 1 \<le> limit \<longrightarrow>
        (let count = int (length (take (nat limit) (drop (nat offset) all)))
         in (again offset count info limit \<longleftrightarrow> offset + limit < int (length all)) \<or> (again offset count info limit \<longleftrightarrow> count = limit)))"

definition left_from :: "int option \<Rightarrow> 'a list \<Rightarrow> 'a list" where
  "left_from offset all = drop (nat (predictionPageOffset offset)) all"

lemma iterate_pages_all:
  assumes "lists_items all (pp_filters base) truthful endpoint" "truthful_more truthful all again" "0 < maxSize"
    "validatePredictionPagination (pp_limit base) (pp_offset base) = None"
    "length (left_from (pp_offset base) all) < fuel" "length (left_from (pp_offset base) all) \<le> k" "\<forall>n. ctx n = None"
  shows "\<exists>os. iterate_pages defaultSize maxSize endpoint again base ctx fuel k = Some (left_from (pp_offset base) all, os, None) \<and>
      sorted_wrt (<) os \<and> length os \<le> Suc (length (left_from (pp_offset base) all))"
proof -
  let ?limit = "predictionPageSize (pp_limit base) defaultSize maxSize" and ?offset = "predictionPageOffset (pp_offset base)"
  let ?fetch = "\<lambda>offset limit.
     case endpoint (base\<lparr>pp_limit := Some limit, pp_offset := Some offset\<rparr>) of
       Inl e \<Rightarrow> Inl e
     | Inr (items, info) \<Rightarrow> Inr (dereference items, again offset (int (length (dereference items))) info limit)"
  have base: "base\<lparr>pp_limit := Some limit, pp_offset := Some offset\<rparr> = \<lparr>pp_filters = pp_filters base, pp_limit = Some limit, pp_offset = Some offset\<rparr>" for limit offset
    by simp
  have "serves all ?fetch"
    unfolding serves_def
  proof (intro allI impI)
    fix offset limit :: int assume a: "0 \<le> offset \<and> 1 \<le> limit"
    let ?items = "take (nat limit) (drop (nat offset) all)"
    obtain info where i: "endpoint (base\<lparr>pp_limit := Some limit, pp_offset := Some offset\<rparr>) = Inr (Some ?items, info)" "truthful info"
      using assms(1) a unfolding lists_items_def base by blast
    have f: "?fetch offset limit = Inr (?items, again offset (int (length ?items)) info limit)" by (simp add: i(1) dereference_def)
    have "(again offset (int (length ?items)) info limit \<longleftrightarrow> offset + limit < int (length all)) \<or>
        (again offset (int (length ?items)) info limit \<longleftrightarrow> int (length ?items) = limit)"
      using assms(2) i(2) a unfolding truthful_more_def Let_def by blast
    moreover have "int (length ?items) = limit \<longleftrightarrow> length ?items = nat limit" using a by linarith
    ultimately show "\<exists>again. ?fetch offset limit = Inr (?items, again) \<and>
        ((again \<longleftrightarrow> offset + limit < int (length all)) \<or> (again \<longleftrightarrow> length ?items = nat limit))"
      using f by metis
  qed
  moreover have limit: "1 \<le> ?limit" using page_size_bounds[OF assms(3)] by blast
  moreover have "0 \<le> ?offset" by (auto simp: predictionPageOffset_def split: option.split)
  moreover have "length all - nat ?offset < fuel" "length all \<le> k + nat ?offset" using assms(5,6) by (simp_all add: left_from_def)
  ultimately have "\<exists>os. page_loop ?fetch ctx ?limit fuel 0 k ?offset = Some (drop (nat ?offset) all, os, None) \<and> sorted_wrt (<) os \<and>
      (\<forall>d\<in>set os. ?offset \<le> d) \<and> length os \<le> Suc (length all - nat ?offset)"
    by (rule page_loop_all[OF _ _ _ _ _ assms(7)])
  then obtain os where "page_loop ?fetch ctx ?limit fuel 0 k ?offset = Some (drop (nat ?offset) all, os, None)" "sorted_wrt (<) os"
    "length os \<le> Suc (length all - nat ?offset)" by blast
  then show ?thesis using limit \<open>0 \<le> ?offset\<close> assms(4) by (simp add: iterate_pages_def NewPaginator_def left_from_def)
qed

definition honest_total :: "'a list \<Rightarrow> int option \<Rightarrow> bool" where
  "honest_total all stated \<longleftrightarrow> stated = None \<or> stated = Some (int (length all))"

definition honest_pagination :: "'a list \<Rightarrow> int option option \<Rightarrow> bool" where
  "honest_pagination all stated \<longleftrightarrow> stated = None \<or> stated = Some None \<or> stated = Some (Some (int (length all)))"

lemma truthful_mores:
  "truthful_more (honest_total all) all hasMoreByTotal"
  "truthful_more (honest_pagination all) all hasMoreByPagination"
  "truthful_more (\<lambda>_. True) all (\<lambda>offset count info limit. count = limit)"
  by (auto simp: truthful_more_def honest_total_def honest_pagination_def hasMoreByTotal_def hasMoreByPagination_def Let_def)

text \<open>C13: Over an honest endpoint (it answers the page asked for, out of a list that does not change, and any total it
  states is the list's length), with a context that does not end and a consumer that does not break, every
  prediction iterator yields exactly the items from the requested offset on, each once and in order, without an
  error, fetching strictly increasing offsets with the caller's filters; it ends after at most one page more than
  there are items left, whether the totals are stated or missing. An order history bounded in time is excluded:
  the iterator refuses it.\<close>

theorem iterators_complete:
  assumes "lists_items all (pp_filters base) (honest_total all) endpoint" "lists_items all (pp_filters base) (honest_pagination all) events"
    "lists_items all (pp_filters base) (\<lambda>_. True) orders"
    "validatePredictionPagination (pp_limit base) (pp_offset base) = None"
    "length (left_from (pp_offset base) all) < fuel" "length (left_from (pp_offset base) all) \<le> k" "\<forall>n. ctx n = None"
  shows "\<forall>run\<in>{IteratePositions endpoint, IterateSettledPositions endpoint, IterateCombos endpoint,
      IterateLiquidityRewardsEvents endpoint, iterateEvents 500 events, IterateActiveOrders orders, IterateOrderHistory orders False}.
    \<exists>os. run base ctx fuel k = Some (left_from (pp_offset base) all, os, None) \<and> sorted_wrt (<) os \<and>
      length os \<le> Suc (length (left_from (pp_offset base) all))"
  using iterate_pages_all[OF assms(1) truthful_mores(1) _ assms(4-7)] iterate_pages_all[OF assms(2) truthful_mores(2) _ assms(4-7)]
    iterate_pages_all[OF assms(3) truthful_mores(3) _ assms(4-7)] assms(4)
  by (simp add: IteratePositions_def IterateSettledPositions_def IterateCombos_def IterateLiquidityRewardsEvents_def iterateEvents_def
      IterateActiveOrders_def IterateOrderHistory_def)

definition demo_endpoint :: "'t \<Rightarrow> unit page_params \<Rightarrow> page_error + nat list option \<times> 't" where
  "demo_endpoint info p =
     Inr (Some (take (nat (the (pp_limit p))) (drop (nat (the (pp_offset p))) [1::nat, 2, 3])), info)"

theorem iterators_complete_witness:
  "\<exists>os. IteratePositions (demo_endpoint (Some 3)) \<lparr>pp_filters = (), pp_limit = Some 2, pp_offset = Some 1\<rparr> (\<lambda>_. None) 3 2 =
     Some ([2, 3], os, None) \<and> sorted_wrt (<) os \<and> length os \<le> 3"
proof -
  have e: "lists_items [1::nat, 2, 3] () (honest_total [1::nat, 2, 3]) (demo_endpoint (Some 3))"
    "lists_items [1::nat, 2, 3] () (honest_pagination [1::nat, 2, 3]) (demo_endpoint None)"
    "lists_items [1::nat, 2, 3] () (\<lambda>_. True) (demo_endpoint ())"
    by (simp_all add: lists_items_def demo_endpoint_def honest_total_def honest_pagination_def)
  have v: "validatePredictionPagination (Some 2) (Some 1) = None" by (simp add: validatePredictionPagination_def)
  show ?thesis
    using iterators_complete[of "[1::nat, 2, 3]" "\<lparr>pp_filters = (), pp_limit = Some 2, pp_offset = Some 1\<rparr>" "demo_endpoint (Some 3)"
        "demo_endpoint None" "demo_endpoint ()" 3 2 "\<lambda>_. None"] e v
    by (simp add: left_from_def predictionPageOffset_def numeral_3_eq_3 del: One_nat_def)
qed

end
