(* ===== verification/CliOrders.thy ===== *)
theory CliOrders
  imports TradingSpec
begin

text \<open>
  The order commands of the command line tool, \<open>internal/cli/private_orders.go\<close> of the package
  \<open>gemini-markets-cli\<close>: how the flags of a command become a request, which flags are refused, and when a
  command opens an authenticated session, uses it and closes its owner. A factory's answer and the
  operations of its client are arguments; a run is the events it causes and its result. The rendering of a
  result as a table or as JSON is left out.
\<close>

section \<open>Flags\<close>

datatype cli_error = CliMsg string | CliInvalid string string | CliCall string err

definition spot_side_valid :: "string \<Rightarrow> bool" where
  "spot_side_valid s \<longleftrightarrow> s = SideBuy \<or> s = SideSell"

definition spot_type_valid :: "string \<Rightarrow> bool" where
  "spot_type_valid s \<longleftrightarrow> s = TypeExchangeLimit \<or> s = TypeExchangeMarket \<or> s = TypeExchangeStopLimit"

definition spot_option_valid :: "string \<Rightarrow> bool" where
  "spot_option_valid s \<longleftrightarrow> s = FillOrKill \<or> s = ImmediateOrCancel \<or> s = MakerOrCancel"

fun plain_unsigned_loop :: "bool \<Rightarrow> bool \<Rightarrow> string \<Rightarrow> bool" where
  "plain_unsigned_loop hasDigit hasDot [] = hasDigit"
| "plain_unsigned_loop hasDigit hasDot (c # s) =
     (if is_digit c then plain_unsigned_loop True hasDot s
      else if c = CHR ''.'' then (if hasDot then False else plain_unsigned_loop hasDigit True s)
      else False)"

definition plainUnsignedDecimal :: "string \<Rightarrow> bool" where
  "plainUnsignedDecimal value0 =
     (let value = TrimSpace value0 in if value = [] then False else plain_unsigned_loop False False value)"

definition positiveDecimal :: "string \<Rightarrow> string \<Rightarrow> cli_error + decimal" where
  "positiveDecimal value name =
     (if \<not> plainUnsignedDecimal value then Inl (CliMsg (name @ '' must be a positive decimal''))
      else case ParseDecimal value of
        Inl _ \<Rightarrow> Inl (CliMsg (name @ '' must be a positive decimal''))
      | Inr d \<Rightarrow> if \<not> IsPositive d then Inl (CliMsg (name @ '' must be a positive decimal'')) else Inr d)"

definition validatePositiveDecimal_cli :: "string \<Rightarrow> string \<Rightarrow> cli_error option" where
  "validatePositiveDecimal_cli value name = (case positiveDecimal value name of Inl e \<Rightarrow> Some e | Inr _ \<Rightarrow> None)"

definition predictionPrice :: "string \<Rightarrow> string \<Rightarrow> cli_error + decimal" where
  "predictionPrice value name =
     (let refusal = Inl (CliMsg (name @ '' must be greater than 0 and no greater than 1''))
      in case positiveDecimal value name of
           Inl _ \<Rightarrow> refusal
         | Inr d \<Rightarrow> if 0 < Cmp d (the (MustParseDecimal ''1'')) then refusal else Inr d)"

definition optionalUint64 :: "string \<Rightarrow> string \<Rightarrow> cli_error + nat" where
  "optionalUint64 value0 name =
     (let value = TrimSpace value0
      in if value = [] then Inr 0
         else case ParseUint64 value of
           None \<Rightarrow> Inl (CliMsg (name @ '' must be a positive integer''))
         | Some n \<Rightarrow> if n = 0 then Inl (CliMsg (name @ '' must be a positive integer'')) else Inr n)"

definition requiredUint64 :: "string \<Rightarrow> string \<Rightarrow> cli_error + nat" where
  "requiredUint64 value name =
     (case optionalUint64 value name of
        Inl e \<Rightarrow> Inl e
      | Inr n \<Rightarrow> if n = 0 then Inl (CliMsg (name @ '' is required'')) else Inr n)"

definition requiredInt64 :: "string \<Rightarrow> string \<Rightarrow> cli_error + int" where
  "requiredInt64 value0 name =
     (let value = TrimSpace value0
      in if value = [] then Inl (CliMsg (name @ '' is required''))
         else case ParseInt 64 value of
           None \<Rightarrow> Inl (CliMsg (name @ '' must be a positive integer''))
         | Some i \<Rightarrow> if i \<le> 0 then Inl (CliMsg (name @ '' must be a positive integer'')) else Inr i)"

definition optionalString :: "string \<Rightarrow> string option" where
  "optionalString value = (if value = [] then None else Some value)"

section \<open>Spot orders\<close>

record spot_flags =
  sf_symbol :: string
  sf_side :: string
  sf_amount :: string
  sf_price :: string
  sf_type :: string
  sf_option :: string
  sf_stop_price :: string
  sf_client_order_id :: string
  sf_account :: string

definition spot_type_error :: "string \<Rightarrow> cli_error option" where
  "spot_type_error orderType =
     (if \<not> spot_type_valid orderType \<or> (orderType \<noteq> TypeExchangeLimit \<and> orderType \<noteq> TypeExchangeStopLimit)
      then Some (if orderType = TypeExchangeMarket
        then CliMsg ''exchange market orders are unsupported; use exchange limit with --option immediate-or-cancel''
        else CliInvalid ''order type'' orderType)
      else None)"

definition spot_stop_error :: "string \<Rightarrow> string \<Rightarrow> string \<Rightarrow> decimal \<Rightarrow> cli_error option" where
  "spot_stop_error stopPrice option0 side limit =
     (if stopPrice = [] then None
      else case positiveDecimal stopPrice ''stop-price'' of
        Inl e \<Rightarrow> Some e
      | Inr stop \<Rightarrow>
          if option0 \<noteq> [] then Some (CliMsg ''stop-limit orders cannot use execution options'')
          else if side = SideBuy then
            (if 0 \<le> Cmp stop limit then Some (CliMsg ''buy stop-price must be less than price'') else None)
          else if side = SideSell then
            (if Cmp stop limit \<le> 0 then Some (CliMsg ''sell stop-price must be greater than price'') else None)
          else None)"

definition spot_request :: "string \<Rightarrow> string \<Rightarrow> string \<Rightarrow> string \<Rightarrow> string \<Rightarrow> string \<Rightarrow> string \<Rightarrow> string \<Rightarrow> string \<Rightarrow>
    cli_error + new_order_request" where
  "spot_request symbol side amount price orderType option0 stopPrice clientOrderID accountName =
     (let request = \<lparr>no_Account = Some accountName, no_Amount = amount,
            no_ClientOrderId = (if clientOrderID \<noteq> [] then Some clientOrderID else None), no_MarginOrder = None, no_Nonce = 0,
            no_Options = None, no_Price = price, no_Request = ''/v1/order/new'', no_Side = side,
            no_StopPrice = (if stopPrice \<noteq> [] then Some stopPrice else None), no_Symbol = symbol, no_Type = orderType\<rparr>
      in if option0 = [] then Inr request
         else if \<not> spot_option_valid option0 then Inl (CliInvalid ''option'' option0)
         else Inr (request\<lparr>no_Options := Some [option0]\<rparr>))"

definition buildSpotOrderRequest :: "spot_flags \<Rightarrow> cli_error + new_order_request" where
  "buildSpotOrderRequest f =
     (let symbol = TrimSpace (sf_symbol f); side = ToLower (TrimSpace (sf_side f)); amount = TrimSpace (sf_amount f);
          price = TrimSpace (sf_price f); orderType = ToLower (TrimSpace (sf_type f)); option0 = ToLower (TrimSpace (sf_option f));
          stopPrice = TrimSpace (sf_stop_price f); clientOrderID = TrimSpace (sf_client_order_id f);
          accountName = TrimSpace (sf_account f)
      in if symbol = [] then Inl (CliMsg ''symbol is required'')
         else if \<not> spot_side_valid side then Inl (CliInvalid ''side'' side)
         else if amount = [] then Inl (CliMsg ''amount is required'')
         else case validatePositiveDecimal_cli amount ''amount'' of
           Some e \<Rightarrow> Inl e
         | None \<Rightarrow>
             if price = [] then Inl (CliMsg ''price is required'')
             else case positiveDecimal price ''price'' of
               Inl e \<Rightarrow> Inl e
             | Inr limit \<Rightarrow>
                 (case spot_type_error orderType of
                    Some e \<Rightarrow> Inl e
                  | None \<Rightarrow>
                      if accountName = [] then Inl (CliMsg ''account is required'')
                      else if stopPrice \<noteq> [] \<and> orderType \<noteq> TypeExchangeStopLimit
                      then Inl (CliMsg ''stop-price requires exchange stop limit order type'')
                      else if orderType = TypeExchangeStopLimit \<and> stopPrice = []
                      then Inl (CliMsg ''stop-price is required for exchange stop limit orders'')
                      else case spot_stop_error stopPrice option0 side limit of
                        Some e \<Rightarrow> Inl e
                      | None \<Rightarrow> spot_request symbol side amount price orderType option0 stopPrice clientOrderID accountName))"

section \<open>Prediction orders\<close>

definition prediction_type_valid :: "string \<Rightarrow> bool" where
  "prediction_type_valid s \<longleftrightarrow> s = ''limit'' \<or> s = ''stop-limit''"

definition outcome_valid :: "string \<Rightarrow> bool" where
  "outcome_valid s \<longleftrightarrow> s = ''no'' \<or> s = ''yes''"

definition time_in_force_valid :: "string \<Rightarrow> bool" where
  "time_in_force_valid s \<longleftrightarrow> s = ''fill-or-kill'' \<or> s = ''good-til-cancel'' \<or> s = ''immediate-or-cancel''"

definition history_status_valid :: "string \<Rightarrow> bool" where
  "history_status_valid s \<longleftrightarrow> s = ''cancelled'' \<or> s = ''filled''"

record prediction_flags =
  pf_symbol :: string
  pf_side :: string
  pf_outcome :: string
  pf_quantity :: string
  pf_price :: string
  pf_type :: string
  pf_stop_price :: string
  pf_time_in_force :: string
  pf_maker_or_cancel :: bool

record prediction_order_request =
  po_MakerOrCancel :: "bool option"
  po_OrderType :: string
  po_Outcome :: string
  po_Price :: string
  po_Quantity :: string
  po_Side :: string
  po_StopPrice :: "string option"
  po_Symbol :: string
  po_TimeInForce :: "string option"

definition prediction_stop_error :: "string \<Rightarrow> string \<Rightarrow> decimal \<Rightarrow> cli_error option" where
  "prediction_stop_error stopPrice side limit =
     (if stopPrice = [] then None
      else case predictionPrice stopPrice ''stop-price'' of
        Inl e \<Rightarrow> Some e
      | Inr stop \<Rightarrow>
          if side = SideBuy then
            (if 0 < Cmp stop limit then Some (CliMsg ''buy stop-price must be less than or equal to price'') else None)
          else if side = SideSell then
            (if Cmp stop limit < 0 then Some (CliMsg ''sell stop-price must be greater than or equal to price'') else None)
          else None)"

definition buildPredictionOrderRequest :: "prediction_flags \<Rightarrow> cli_error + prediction_order_request" where
  "buildPredictionOrderRequest f =
     (let symbol = TrimSpace (pf_symbol f); side = ToLower (TrimSpace (pf_side f)); outcome = ToLower (TrimSpace (pf_outcome f));
          quantity = TrimSpace (pf_quantity f); price = TrimSpace (pf_price f); orderType = ToLower (TrimSpace (pf_type f));
          stopPrice = TrimSpace (pf_stop_price f); timeInForce = ToLower (TrimSpace (pf_time_in_force f))
      in if symbol = [] then Inl (CliMsg ''symbol is required'')
         else if \<not> spot_side_valid side then Inl (CliInvalid ''side'' side)
         else if \<not> outcome_valid outcome then Inl (CliInvalid ''outcome'' outcome)
         else if quantity = [] then Inl (CliMsg ''quantity is required'')
         else case validatePositiveDecimal_cli quantity ''quantity'' of
           Some e \<Rightarrow> Inl e
         | None \<Rightarrow>
             if price = [] then Inl (CliMsg ''price is required'')
             else case predictionPrice price ''price'' of
               Inl e \<Rightarrow> Inl e
             | Inr limit \<Rightarrow>
                 if \<not> prediction_type_valid orderType then Inl (CliInvalid ''order type'' orderType)
                 else if stopPrice \<noteq> [] \<and> orderType \<noteq> ''stop-limit'' then Inl (CliMsg ''stop-price requires stop-limit order type'')
                 else if orderType = ''stop-limit'' \<and> stopPrice = [] then Inl (CliMsg ''stop-price is required for stop-limit orders'')
                 else case prediction_stop_error stopPrice side limit of
                   Some e \<Rightarrow> Inl e
                 | None \<Rightarrow>
                     if timeInForce \<noteq> [] \<and> \<not> time_in_force_valid timeInForce then Inl (CliInvalid ''time-in-force'' timeInForce)
                     else Inr \<lparr>po_MakerOrCancel = (if pf_maker_or_cancel f then Some True else None), po_OrderType = orderType,
                       po_Outcome = outcome, po_Price = price, po_Quantity = quantity, po_Side = side,
                       po_StopPrice = (if stopPrice \<noteq> [] then Some stopPrice else None), po_Symbol = symbol,
                       po_TimeInForce = (if timeInForce \<noteq> [] then Some timeInForce else None)\<rparr>)"

section \<open>Commands\<close>

text \<open>A factory answers with an error, or with a client, which may be missing, and whether there is an owner
  to close.\<close>

type_synonym 'c factory = "err + 'c option \<times> bool"

datatype 'r cli_event = OpenSession | Operation 'r | CloseOwner

type_synonym ('r, 'v) cli_run = "'r cli_event list \<times> (cli_error + 'v)"

definition refuse :: "cli_error \<Rightarrow> ('r, 'v) cli_run" where
  "refuse e = ([], Inl e)"

definition with_service ::
  "string \<Rightarrow> string \<Rightarrow> string \<Rightarrow> 'c factory \<Rightarrow> ('c \<Rightarrow> 'r \<Rightarrow> err + 'v) \<Rightarrow> 'r \<Rightarrow> ('r, 'v) cli_run" where
  "with_service create unavailable failure factory operation request =
     (case factory of
        Inl e \<Rightarrow> ([OpenSession], Inl (CliCall create e))
      | Inr (None, owner) \<Rightarrow> (OpenSession # (if owner then [CloseOwner] else []), Inl (CliMsg unavailable))
      | Inr (Some client, owner) \<Rightarrow>
          (OpenSession # Operation request # (if owner then [CloseOwner] else []),
           case operation client request of Inl e \<Rightarrow> Inl (CliCall failure e) | Inr response \<Rightarrow> Inr response))"

definition with_spot where
  "with_spot = with_service ''create spot orders client'' ''spot orders service is unavailable''"

definition with_prediction where
  "with_prediction = with_service ''create prediction orders client'' ''prediction orders service is unavailable''"

record spot_orders_client =
  sc_NewOrder :: "new_order_request \<Rightarrow> err + limit_order_response"
  sc_GetActiveOrders :: "active_orders_request \<Rightarrow> err + limit_order_response list"
  sc_GetOrderStatus :: "order_status_request \<Rightarrow> err + limit_order_response"
  sc_CancelOrder :: "cancel_order_request \<Rightarrow> err + cancel_order_response option"

text \<open>A dry run prints its request, any other run its response.\<close>

datatype ('r, 'v) printed = PrintedRequest 'r | PrintedResponse 'v

definition placed :: "('r, 'v) cli_run \<Rightarrow> ('r, ('r, 'v) printed) cli_run" where
  "placed r = (fst r, case snd r of Inl e \<Rightarrow> Inl e | Inr v \<Rightarrow> Inr (PrintedResponse v))"

definition spot_place ::
  "spot_orders_client factory \<Rightarrow> bool \<Rightarrow> spot_flags \<Rightarrow> (new_order_request, (new_order_request, limit_order_response) printed) cli_run" where
  "spot_place factory dryRun f =
     (case buildSpotOrderRequest f of
        Inl e \<Rightarrow> refuse e
      | Inr request \<Rightarrow>
          if dryRun then ([], Inr (PrintedRequest request))
          else placed (with_spot ''place spot order'' factory sc_NewOrder request))"

definition spot_list :: "spot_orders_client factory \<Rightarrow> string \<Rightarrow> (active_orders_request, limit_order_response list) cli_run" where
  "spot_list factory account0 =
     (let accountName = TrimSpace account0
      in if accountName = [] then refuse (CliMsg ''account is required'')
         else with_spot ''list spot orders'' factory sc_GetActiveOrders
                \<lparr>ao_Account = Some accountName, ao_Nonce = [], ao_Request = []\<rparr>)"

text \<open>\<open>includeTrades\<close> is \<open>None\<close> unless the flag was given.\<close>

definition spot_get ::
  "spot_orders_client factory \<Rightarrow> string \<Rightarrow> string \<Rightarrow> string \<Rightarrow> bool option \<Rightarrow> (order_status_request, limit_order_response) cli_run" where
  "spot_get factory account0 orderID clientOrderID0 includeTrades =
     (case optionalUint64 orderID ''order-id'' of
        Inl e \<Rightarrow> refuse e
      | Inr n \<Rightarrow>
          let clientOrderID = TrimSpace clientOrderID0; accountName = TrimSpace account0
          in if n = 0 \<and> clientOrderID = [] then refuse (CliMsg ''one of order-id or client-order-id is required'')
             else if n \<noteq> 0 \<and> clientOrderID \<noteq> [] then refuse (CliMsg ''order-id and client-order-id cannot be combined'')
             else if accountName = [] then refuse (CliMsg ''account is required'')
             else with_spot ''get spot order'' factory sc_GetOrderStatus
                    \<lparr>os_Account = Some accountName, os_ClientOrderId = optionalString clientOrderID, os_IncludeTrades = includeTrades,
                     os_Nonce = [], os_OrderId = n, os_Request = ''/v1/order/status''\<rparr>)"

definition spot_cancel ::
  "spot_orders_client factory \<Rightarrow> string \<Rightarrow> string \<Rightarrow> (cancel_order_request, cancel_order_response option) cli_run" where
  "spot_cancel factory account0 orderID =
     (case requiredUint64 orderID ''order-id'' of
        Inl e \<Rightarrow> refuse e
      | Inr n \<Rightarrow>
          let accountName = TrimSpace account0
          in if accountName = [] then refuse (CliMsg ''account is required'')
             else with_spot ''cancel spot order'' factory sc_CancelOrder
                    \<lparr>co_Account = Some accountName, co_Nonce = [], co_OrderId = n, co_Request = ''/v1/order/cancel''\<rparr>)"

text \<open>A numeric or textual flag of the prediction list is \<open>None\<close> unless it was given.\<close>

record prediction_list_flags =
  pl_symbol :: string
  pl_limit :: "int option"
  pl_offset :: "int option"
  pl_history :: bool
  pl_status :: "string option"
  pl_from :: "int option"
  pl_to :: "int option"

record active_prediction_request =
  ar_Symbol :: "string option"
  ar_Limit :: "int option"
  ar_Offset :: "int option"

record history_prediction_request = active_prediction_request +
  hr_Status :: "string option"
  hr_From :: "int option"
  hr_To :: "int option"

record ('o, 'l, 'c) prediction_orders_client =
  pc_NewOrder :: "prediction_order_request \<Rightarrow> err + 'o"
  pc_GetActiveOrders :: "active_prediction_request \<Rightarrow> err + 'l"
  pc_GetOrderHistory :: "history_prediction_request \<Rightarrow> err + 'l"
  pc_CancelOrder :: "int \<Rightarrow> err + 'c"

datatype prediction_list_query = ListActive active_prediction_request | ListHistory history_prediction_request

definition flag_below :: "int \<Rightarrow> int option \<Rightarrow> bool" where
  "flag_below bound flag = (case flag of Some i \<Rightarrow> i < bound | None \<Rightarrow> False)"

definition prediction_list_request :: "prediction_list_flags \<Rightarrow> cli_error + prediction_list_query" where
  "prediction_list_request f =
     (let symbol = optionalString (TrimSpace (pl_symbol f))
      in if \<not> pl_history f \<and> pl_status f \<noteq> None then Inl (CliMsg ''--status requires --history'')
         else if \<not> pl_history f \<and> pl_from f \<noteq> None then Inl (CliMsg ''--from requires --history'')
         else if \<not> pl_history f \<and> pl_to f \<noteq> None then Inl (CliMsg ''--to requires --history'')
         else if pl_offset f \<noteq> None \<and> (pl_from f \<noteq> None \<or> pl_to f \<noteq> None)
         then Inl (CliMsg ''--offset cannot be combined with --from or --to'')
         else if flag_below 1 (pl_limit f) then Inl (CliMsg ''limit must be positive'')
         else if flag_below 0 (pl_offset f) then Inl (CliMsg ''offset cannot be negative'')
         else if \<not> pl_history f
         then Inr (ListActive \<lparr>ar_Symbol = symbol, ar_Limit = pl_limit f, ar_Offset = pl_offset f\<rparr>)
         else if flag_below 0 (pl_from f) then Inl (CliMsg ''from cannot be negative'')
         else if flag_below 0 (pl_to f) then Inl (CliMsg ''to cannot be negative'')
         else
           let status = map_option (\<lambda>s. ToLower (TrimSpace s)) (pl_status f)
           in if (case status of Some s \<Rightarrow> \<not> history_status_valid s | None \<Rightarrow> False) then Inl (CliInvalid ''status'' (the status))
              else Inr (ListHistory \<lparr>ar_Symbol = symbol, ar_Limit = pl_limit f, ar_Offset = pl_offset f, hr_Status = status,
                hr_From = pl_from f, hr_To = pl_to f\<rparr>))"

definition prediction_place ::
  "('o, 'l, 'c) prediction_orders_client factory \<Rightarrow> bool \<Rightarrow> prediction_flags \<Rightarrow>
   (prediction_order_request, (prediction_order_request, 'o) printed) cli_run" where
  "prediction_place factory dryRun f =
     (case buildPredictionOrderRequest f of
        Inl e \<Rightarrow> refuse e
      | Inr request \<Rightarrow>
          if dryRun then ([], Inr (PrintedRequest request))
          else placed (with_prediction ''place prediction order'' factory pc_NewOrder request))"

definition prediction_list ::
  "('o, 'l, 'c) prediction_orders_client factory \<Rightarrow> prediction_list_flags \<Rightarrow> (prediction_list_query, 'l) cli_run" where
  "prediction_list factory f =
     (case prediction_list_request f of
        Inl e \<Rightarrow> refuse e
      | Inr (ListActive request) \<Rightarrow>
          with_prediction ''list prediction orders'' factory (\<lambda>client _. pc_GetActiveOrders client request) (ListActive request)
      | Inr (ListHistory request) \<Rightarrow>
          with_prediction ''list prediction order history'' factory (\<lambda>client _. pc_GetOrderHistory client request) (ListHistory request))"

definition prediction_cancel :: "('o, 'l, 'c) prediction_orders_client factory \<Rightarrow> string \<Rightarrow> (int, 'c) cli_run" where
  "prediction_cancel factory orderID =
     (case requiredInt64 orderID ''order-id'' of
        Inl e \<Rightarrow> refuse e
      | Inr n \<Rightarrow> with_prediction ''cancel prediction order'' factory pc_CancelOrder n)"

section \<open>What the commands promise\<close>

text \<open>A text flag denotes a positive rational in plain notation.\<close>

definition flag_positive :: "string \<Rightarrow> decimal \<Rightarrow> bool" where
  "flag_positive s d \<longleftrightarrow> plainUnsignedDecimal s \<and> ParseDecimal s = Inr d \<and> 0 < rv d"

lemma positiveDecimal_Inr: "positiveDecimal s name = Inr d \<longleftrightarrow> flag_positive s d"
  by (auto simp: positiveDecimal_def flag_positive_def IsPositive_iff split: sum.splits)

lemma positiveDecimal_cases: obtains (good) d where "positiveDecimal s name = Inr d" "flag_positive s d"
  | (bad) e where "positiveDecimal s name = Inl e" "\<forall>d. \<not> flag_positive s d"
  using positiveDecimal_Inr by (metis (full_types) sum.exhaust)

lemma flag_positive_unique: "flag_positive s d \<Longrightarrow> flag_positive s d' \<longleftrightarrow> d' = d"
  by (auto simp: flag_positive_def)

lemma flag_positive_nonempty: "flag_positive s d \<Longrightarrow> s \<noteq> []"
  by (auto simp: flag_positive_def plainUnsignedDecimal_def)

lemma Cmp_plain: "flag_positive a p \<Longrightarrow> flag_positive b q \<Longrightarrow> Cmp p q = int_cmp (rv p) (rv q)"
  using Cmp_parsed[of b q a p] by (simp add: flag_positive_def)

end
