(* ===== verification/CliOrderSpec.thy ===== *)
theory CliOrderSpec
  imports CliOrders
begin

text \<open>
  The contracts of the order commands over the rationals their flags denote: exactly the flags that
  satisfy them become a request, the request is the one the SDK's own guard accepts, a dry run shows the
  request a real run sends and touches nothing, and every session a command opens is closed.
\<close>

section \<open>Spot orders\<close>

definition trimmed_lower :: "string \<Rightarrow> string" where
  "trimmed_lower s = ToLower (TrimSpace s)"

definition spot_stop_ok :: "spot_flags \<Rightarrow> decimal \<Rightarrow> bool" where
  "spot_stop_ok f limit \<longleftrightarrow>
     (if TrimSpace (sf_stop_price f) = [] then trimmed_lower (sf_type f) = TypeExchangeLimit
      else trimmed_lower (sf_type f) = TypeExchangeStopLimit \<and> trimmed_lower (sf_option f) = [] \<and>
        (\<exists>stop. flag_positive (TrimSpace (sf_stop_price f)) stop \<and> stop_side_ok (trimmed_lower (sf_side f)) limit stop))"

definition spot_flags_ok :: "spot_flags \<Rightarrow> bool" where
  "spot_flags_ok f \<longleftrightarrow>
     TrimSpace (sf_symbol f) \<noteq> [] \<and> TrimSpace (sf_account f) \<noteq> [] \<and> trimmed_lower (sf_side f) \<in> {SideBuy, SideSell} \<and>
     trimmed_lower (sf_option f) \<in> {[], FillOrKill, ImmediateOrCancel, MakerOrCancel} \<and>
     (\<exists>amount. flag_positive (TrimSpace (sf_amount f)) amount) \<and>
     (\<exists>limit. flag_positive (TrimSpace (sf_price f)) limit \<and> spot_stop_ok f limit)"

definition spot_order_of :: "spot_flags \<Rightarrow> new_order_request" where
  "spot_order_of f = \<lparr>no_Account = Some (TrimSpace (sf_account f)), no_Amount = TrimSpace (sf_amount f),
     no_ClientOrderId = optionalString (TrimSpace (sf_client_order_id f)), no_MarginOrder = None, no_Nonce = 0,
     no_Options = (if trimmed_lower (sf_option f) = [] then None else Some [trimmed_lower (sf_option f)]),
     no_Price = TrimSpace (sf_price f), no_Request = ''/v1/order/new'', no_Side = trimmed_lower (sf_side f),
     no_StopPrice = optionalString (TrimSpace (sf_stop_price f)), no_Symbol = TrimSpace (sf_symbol f),
     no_Type = trimmed_lower (sf_type f)\<rparr>"

lemma validate_plain: "validatePositiveDecimal_cli s name = None \<longleftrightarrow> (\<exists>d. flag_positive s d)"
  by (rule positiveDecimal_cases[of s name]) (auto simp: validatePositiveDecimal_cli_def)

lemma type_names: "TypeExchangeLimit \<noteq> TypeExchangeStopLimit" "TypeExchangeStopLimit \<noteq> TypeExchangeMarket"
    "TypeExchangeLimit \<noteq> TypeExchangeMarket"
  by (simp_all add: TypeExchangeLimit_def TypeExchangeStopLimit_def TypeExchangeMarket_def)

lemma spot_type_iff: "spot_type_error t = None \<longleftrightarrow> t = TypeExchangeLimit \<or> t = TypeExchangeStopLimit"
  using type_names by (auto simp: spot_type_error_def spot_type_valid_def)

lemma spot_stop_iff:
  assumes "flag_positive price limit" "side = SideBuy \<or> side = SideSell" "stop \<noteq> []"
  shows "spot_stop_error stop option0 side limit = None \<longleftrightarrow>
    option0 = [] \<and> (\<exists>d. flag_positive stop d \<and> stop_side_ok side limit d)"
proof (cases rule: positiveDecimal_cases[of stop "''stop-price''"])
  case (good d)
  have "Cmp d limit = int_cmp (rv d) (rv limit)" using good(2) assms(1) by (rule Cmp_plain)
  then show ?thesis using good assms(2,3) flag_positive_unique[OF good(2)]
    by (auto simp: spot_stop_error_def stop_side_ok_def int_cmp_def)
next
  case (bad e)
  then show ?thesis using assms(3) by (simp add: spot_stop_error_def)
qed

lemma spot_request_iff:
  "spot_request symbol side amount price t option0 stop cid acct = Inr req \<longleftrightarrow>
     option0 \<in> {[], FillOrKill, ImmediateOrCancel, MakerOrCancel} \<and>
     req = \<lparr>no_Account = Some acct, no_Amount = amount, no_ClientOrderId = optionalString cid, no_MarginOrder = None,
       no_Nonce = 0, no_Options = (if option0 = [] then None else Some [option0]), no_Price = price,
       no_Request = ''/v1/order/new'', no_Side = side, no_StopPrice = optionalString stop, no_Symbol = symbol, no_Type = t\<rparr>"
  by (auto simp: spot_request_def spot_option_valid_def optionalString_def Let_def)

lemma build_spot_iff: "buildSpotOrderRequest f = Inr req \<longleftrightarrow> spot_flags_ok f \<and> req = spot_order_of f"
proof (cases "\<exists>limit. flag_positive (TrimSpace (sf_price f)) limit")
  case True
  then obtain limit where limit: "flag_positive (TrimSpace (sf_price f)) limit" by blast
  have price: "positiveDecimal (TrimSpace (sf_price f)) ''price'' = Inr limit" "TrimSpace (sf_price f) \<noteq> []"
    using limit positiveDecimal_Inr flag_positive_nonempty by auto
  show ?thesis
  proof (cases "TrimSpace (sf_symbol f) \<noteq> [] \<and> TrimSpace (sf_account f) \<noteq> [] \<and> trimmed_lower (sf_side f) \<in> {SideBuy, SideSell} \<and>
      (\<exists>amount. flag_positive (TrimSpace (sf_amount f)) amount)")
    case True
    then have amount: "TrimSpace (sf_amount f) \<noteq> []"
        "validatePositiveDecimal_cli (TrimSpace (sf_amount f)) ''amount'' = None"
      using flag_positive_nonempty validate_plain by blast+
    have ok: "spot_flags_ok f \<longleftrightarrow> trimmed_lower (sf_option f) \<in> {[], FillOrKill, ImmediateOrCancel, MakerOrCancel} \<and> spot_stop_ok f limit"
      using True limit flag_positive_unique[OF limit] by (auto simp: spot_flags_ok_def)
    show ?thesis
    proof (cases "TrimSpace (sf_stop_price f) = []")
      case none: True
      then show ?thesis
        using True price amount ok type_names spot_type_iff[of "trimmed_lower (sf_type f)"]
        by (auto simp: buildSpotOrderRequest_def Let_def trimmed_lower_def[symmetric] spot_side_valid_def spot_stop_ok_def
            spot_stop_error_def spot_request_iff spot_order_of_def split: option.split)
    next
      case some: False
      have stop: "spot_stop_error (TrimSpace (sf_stop_price f)) (trimmed_lower (sf_option f)) (trimmed_lower (sf_side f)) limit = None \<longleftrightarrow>
          trimmed_lower (sf_option f) = [] \<and>
          (\<exists>d. flag_positive (TrimSpace (sf_stop_price f)) d \<and> stop_side_ok (trimmed_lower (sf_side f)) limit d)"
        using True by (intro spot_stop_iff[OF limit _ some]) auto
      have typed: "spot_type_error TypeExchangeStopLimit = None" using spot_type_iff by blast
      show ?thesis
      proof (cases "trimmed_lower (sf_type f) = TypeExchangeStopLimit")
        case t: True
        then show ?thesis
          using True price amount ok stop typed some
          by (auto simp: buildSpotOrderRequest_def Let_def trimmed_lower_def[symmetric] spot_side_valid_def spot_stop_ok_def
              spot_request_iff spot_order_of_def split: option.split)
      next
        case t: False
        then show ?thesis
          using True price amount ok some
          by (auto simp: buildSpotOrderRequest_def Let_def trimmed_lower_def[symmetric] spot_stop_ok_def split: option.split)
      qed
    qed
  next
    case False
    then have "\<not> spot_flags_ok f" by (auto simp: spot_flags_ok_def)
    moreover have "buildSpotOrderRequest f \<noteq> Inr req"
      using False validate_plain[of "TrimSpace (sf_amount f)" "''amount''"]
      by (auto simp: buildSpotOrderRequest_def Let_def trimmed_lower_def spot_side_valid_def split: option.splits sum.splits if_splits)
    ultimately show ?thesis by blast
  qed
next
  case False
  then have "\<not> spot_flags_ok f" by (auto simp: spot_flags_ok_def)
  moreover have "positiveDecimal (TrimSpace (sf_price f)) ''price'' \<noteq> Inr d" for d using False positiveDecimal_Inr by blast
  then have "buildSpotOrderRequest f \<noteq> Inr req"
    by (auto simp: buildSpotOrderRequest_def Let_def split: option.splits sum.splits if_splits)
  ultimately show ?thesis by blast
qed

lemma spot_order_accepted:
  assumes "spot_flags_ok f"
  shows "order_ok (spot_order_of f)"
proof -
  obtain limit where limit: "flag_positive (TrimSpace (sf_price f)) limit" "spot_stop_ok f limit"
    using assms by (auto simp: spot_flags_ok_def)
  show ?thesis
  proof (cases "TrimSpace (sf_stop_price f) = []")
    case True
    then show ?thesis using limit type_names by (simp add: order_ok_def spot_order_of_def optionalString_def spot_stop_ok_def)
  next
    case False
    then show ?thesis using limit
      by (auto simp: order_ok_def spot_order_of_def optionalString_def spot_stop_ok_def flag_positive_def)
  qed
qed

section \<open>Prediction orders\<close>

lemma predictionPrice_iff: "predictionPrice s name = Inr d \<longleftrightarrow> flag_positive s d \<and> rv d \<le> 1"
proof (cases rule: positiveDecimal_cases[of s name])
  case (good p)
  have one: "ParseDecimal ''1'' = Inr \<lparr>dval = Some 1, dscale = 0\<rparr>" by code_simp
  have "rv \<lparr>dval = Some 1, dscale = 0\<rparr> = 1" by (simp add: rv_def)
  then have "Cmp p (the (MustParseDecimal ''1'')) = int_cmp (rv p) 1"
    using Cmp_parsed[OF one, of s p] good(2) one by (simp add: MustParseDecimal_def flag_positive_def)
  then show ?thesis using good flag_positive_unique[OF good(2)]
    by (auto simp: predictionPrice_def Let_def int_cmp_def)
next
  case (bad e)
  then show ?thesis by (simp add: predictionPrice_def Let_def)
qed

definition prediction_stop_ok :: "prediction_flags \<Rightarrow> decimal \<Rightarrow> bool" where
  "prediction_stop_ok f limit \<longleftrightarrow>
     (if TrimSpace (pf_stop_price f) = [] then trimmed_lower (pf_type f) = ''limit''
      else trimmed_lower (pf_type f) = ''stop-limit'' \<and>
        (\<exists>stop. flag_positive (TrimSpace (pf_stop_price f)) stop \<and> rv stop \<le> 1 \<and>
           (if trimmed_lower (pf_side f) = SideBuy then rv stop \<le> rv limit else rv limit \<le> rv stop)))"

definition prediction_flags_ok :: "prediction_flags \<Rightarrow> bool" where
  "prediction_flags_ok f \<longleftrightarrow>
     TrimSpace (pf_symbol f) \<noteq> [] \<and> trimmed_lower (pf_side f) \<in> {SideBuy, SideSell} \<and>
     trimmed_lower (pf_outcome f) \<in> {''yes'', ''no''} \<and>
     trimmed_lower (pf_time_in_force f) \<in> {[], ''good-til-cancel'', ''immediate-or-cancel'', ''fill-or-kill''} \<and>
     (\<exists>quantity. flag_positive (TrimSpace (pf_quantity f)) quantity) \<and>
     (\<exists>limit. flag_positive (TrimSpace (pf_price f)) limit \<and> rv limit \<le> 1 \<and> prediction_stop_ok f limit)"

definition prediction_order_of :: "prediction_flags \<Rightarrow> prediction_order_request" where
  "prediction_order_of f = \<lparr>po_MakerOrCancel = (if pf_maker_or_cancel f then Some True else None),
     po_OrderType = trimmed_lower (pf_type f), po_Outcome = trimmed_lower (pf_outcome f), po_Price = TrimSpace (pf_price f),
     po_Quantity = TrimSpace (pf_quantity f), po_Side = trimmed_lower (pf_side f),
     po_StopPrice = optionalString (TrimSpace (pf_stop_price f)), po_Symbol = TrimSpace (pf_symbol f),
     po_TimeInForce = optionalString (trimmed_lower (pf_time_in_force f))\<rparr>"

lemma prediction_stop_iff:
  assumes "flag_positive price limit" "side = SideBuy \<or> side = SideSell" "stop \<noteq> []"
  shows "prediction_stop_error stop side limit = None \<longleftrightarrow>
    (\<exists>d. flag_positive stop d \<and> rv d \<le> 1 \<and> (if side = SideBuy then rv d \<le> rv limit else rv limit \<le> rv d))"
proof (cases "\<exists>d. predictionPrice stop ''stop-price'' = Inr d")
  case True
  then obtain d where d: "predictionPrice stop ''stop-price'' = Inr d" "flag_positive stop d" "rv d \<le> 1"
    using predictionPrice_iff by blast
  have "Cmp d limit = int_cmp (rv d) (rv limit)" using d(2) assms(1) by (rule Cmp_plain)
  then show ?thesis using d assms(2,3) flag_positive_unique[OF d(2)]
    by (auto simp: prediction_stop_error_def int_cmp_def)
next
  case False
  then obtain e where "predictionPrice stop ''stop-price'' = Inl e" by (cases "predictionPrice stop ''stop-price''") auto
  moreover have "\<not> (flag_positive stop d \<and> rv d \<le> 1)" for d using False predictionPrice_iff by blast
  ultimately show ?thesis using assms(3) by (auto simp: prediction_stop_error_def)
qed

lemma build_prediction_iff:
  "buildPredictionOrderRequest f = Inr req \<longleftrightarrow> prediction_flags_ok f \<and> req = prediction_order_of f"
proof (cases "\<exists>limit. flag_positive (TrimSpace (pf_price f)) limit \<and> rv limit \<le> 1")
  case True
  then obtain limit where limit: "flag_positive (TrimSpace (pf_price f)) limit" "rv limit \<le> 1" by blast
  have price: "predictionPrice (TrimSpace (pf_price f)) ''price'' = Inr limit" "TrimSpace (pf_price f) \<noteq> []"
    using limit predictionPrice_iff flag_positive_nonempty by auto
  show ?thesis
  proof (cases "TrimSpace (pf_symbol f) \<noteq> [] \<and> trimmed_lower (pf_side f) \<in> {SideBuy, SideSell} \<and>
      trimmed_lower (pf_outcome f) \<in> {''yes'', ''no''} \<and> (\<exists>quantity. flag_positive (TrimSpace (pf_quantity f)) quantity)")
    case True
    then have quantity: "TrimSpace (pf_quantity f) \<noteq> []"
        "validatePositiveDecimal_cli (TrimSpace (pf_quantity f)) ''quantity'' = None"
      using flag_positive_nonempty validate_plain by blast+
    have ok: "prediction_flags_ok f \<longleftrightarrow>
        trimmed_lower (pf_time_in_force f) \<in> {[], ''good-til-cancel'', ''immediate-or-cancel'', ''fill-or-kill''} \<and> prediction_stop_ok f limit"
      using True limit flag_positive_unique[OF limit(1)] by (auto simp: prediction_flags_ok_def)
    have stop: "prediction_stop_error (TrimSpace (pf_stop_price f)) (trimmed_lower (pf_side f)) limit = None \<longleftrightarrow>
        (TrimSpace (pf_stop_price f) = [] \<or>
         (\<exists>d. flag_positive (TrimSpace (pf_stop_price f)) d \<and> rv d \<le> 1 \<and>
            (if trimmed_lower (pf_side f) = SideBuy then rv d \<le> rv limit else rv limit \<le> rv d)))"
    proof (cases "TrimSpace (pf_stop_price f) = []")
      case none: True
      then show ?thesis by (simp add: prediction_stop_error_def)
    next
      case some: False
      then show ?thesis using True by (subst prediction_stop_iff[OF limit(1) _ some]) auto
    qed
    have tif: "trimmed_lower (pf_time_in_force f) \<in> {[], ''good-til-cancel'', ''immediate-or-cancel'', ''fill-or-kill''} \<longleftrightarrow>
        \<not> (trimmed_lower (pf_time_in_force f) \<noteq> [] \<and> \<not> time_in_force_valid (trimmed_lower (pf_time_in_force f)))"
      by (auto simp: time_in_force_valid_def)
    have step: "buildPredictionOrderRequest f = Inr req \<longleftrightarrow>
        prediction_type_valid (trimmed_lower (pf_type f)) \<and>
        \<not> (TrimSpace (pf_stop_price f) \<noteq> [] \<and> trimmed_lower (pf_type f) \<noteq> ''stop-limit'') \<and>
        \<not> (trimmed_lower (pf_type f) = ''stop-limit'' \<and> TrimSpace (pf_stop_price f) = []) \<and>
        prediction_stop_error (TrimSpace (pf_stop_price f)) (trimmed_lower (pf_side f)) limit = None \<and>
        \<not> (trimmed_lower (pf_time_in_force f) \<noteq> [] \<and> \<not> time_in_force_valid (trimmed_lower (pf_time_in_force f))) \<and>
        req = prediction_order_of f"
      using True price quantity
      by (auto simp: buildPredictionOrderRequest_def Let_def trimmed_lower_def[symmetric] spot_side_valid_def outcome_valid_def
          prediction_order_of_def optionalString_def split: option.split)
    show ?thesis
    proof (cases "TrimSpace (pf_stop_price f) = []")
      case none: True
      then show ?thesis unfolding step stop ok tif prediction_stop_ok_def prediction_type_valid_def by auto
    next
      case some: False
      then show ?thesis unfolding step stop ok tif prediction_stop_ok_def prediction_type_valid_def by (simp, blast)
    qed
  next
    case False
    then have "\<not> prediction_flags_ok f" by (auto simp: prediction_flags_ok_def)
    moreover have "buildPredictionOrderRequest f \<noteq> Inr req"
    proof (cases "\<exists>quantity. flag_positive (TrimSpace (pf_quantity f)) quantity")
      case none: False
      then obtain e where "validatePositiveDecimal_cli (TrimSpace (pf_quantity f)) ''quantity'' = Some e"
        using validate_plain by fastforce
      then show ?thesis by (simp add: buildPredictionOrderRequest_def Let_def)
    next
      case quantity: True
      then have "TrimSpace (pf_symbol f) = [] \<or> \<not> spot_side_valid (ToLower (TrimSpace (pf_side f))) \<or>
          \<not> outcome_valid (ToLower (TrimSpace (pf_outcome f)))"
        using False by (auto simp: trimmed_lower_def spot_side_valid_def outcome_valid_def)
      then show ?thesis by (elim disjE) (simp_all add: buildPredictionOrderRequest_def Let_def)
    qed
    ultimately show ?thesis by blast
  qed
next
  case False
  then have "\<not> prediction_flags_ok f" by (auto simp: prediction_flags_ok_def)
  moreover obtain e where "predictionPrice (TrimSpace (pf_price f)) ''price'' = Inl e"
    using False predictionPrice_iff by (cases "predictionPrice (TrimSpace (pf_price f)) ''price''") auto
  then have "buildPredictionOrderRequest f \<noteq> Inr req"
    by (simp add: buildPredictionOrderRequest_def Let_def split: option.split)
  ultimately show ?thesis by blast
qed

section \<open>Orders placed\<close>

text \<open>C30: The spot flags that satisfy the contract over rationals become exactly their order, and the guard of
  the SDK's \<open>NewOrder\<close> posts that order instead of refusing it; any other flags are refused before a session is
  opened, in a dry run as well.\<close>

theorem cli_spot_orders:
  "\<forall>f. if spot_flags_ok f
     then (\<forall>post. NewOrder post (Some (spot_order_of f)) = post ''/v1/order/new'' (spot_order_of f)) \<and>
       (\<forall>factory. spot_place factory True f = ([], Inr (PrintedRequest (spot_order_of f)))) \<and>
       (\<forall>client owner. Operation (spot_order_of f) \<in> set (fst (spot_place (Inr (Some client, owner)) False f)))
     else \<exists>e. \<forall>factory dry. spot_place factory dry f = refuse e"
proof (intro allI)
  fix f
  show "if spot_flags_ok f
     then (\<forall>post. NewOrder post (Some (spot_order_of f)) = post ''/v1/order/new'' (spot_order_of f)) \<and>
       (\<forall>factory. spot_place factory True f = ([], Inr (PrintedRequest (spot_order_of f)))) \<and>
       (\<forall>client owner. Operation (spot_order_of f) \<in> set (fst (spot_place (Inr (Some client, owner)) False f)))
     else \<exists>e. \<forall>factory dry. spot_place factory dry f = refuse e"
  proof (cases "spot_flags_ok f")
    case True
    then have "buildSpotOrderRequest f = Inr (spot_order_of f)" using build_spot_iff by blast
    then show ?thesis using True NewOrder_posts[OF spot_order_accepted[OF True]]
      by (simp add: spot_place_def placed_def with_spot_def with_service_def)
  next
    case False
    then obtain e where "buildSpotOrderRequest f = Inl e" using build_spot_iff by (cases "buildSpotOrderRequest f") auto
    then show ?thesis using False by (auto simp: spot_place_def)
  qed
qed

text \<open>C31: The prediction flags that satisfy the contract (a limit price in (0, 1], a stop price on its side of
  the limit) become exactly their order; any other flags are refused before a session is opened.\<close>

theorem cli_prediction_orders:
  "\<forall>f. if prediction_flags_ok f
     then (\<forall>factory. prediction_place factory True f = ([], Inr (PrintedRequest (prediction_order_of f)))) \<and>
       (\<forall>client owner. Operation (prediction_order_of f) \<in> set (fst (prediction_place (Inr (Some client, owner)) False f)))
     else \<exists>e. \<forall>factory dry. prediction_place factory dry f = refuse e"
proof (intro allI)
  fix f
  show "if prediction_flags_ok f
     then (\<forall>factory. prediction_place factory True f = ([], Inr (PrintedRequest (prediction_order_of f)))) \<and>
       (\<forall>client owner. Operation (prediction_order_of f) \<in> set (fst (prediction_place (Inr (Some client, owner)) False f)))
     else \<exists>e. \<forall>factory dry. prediction_place factory dry f = refuse e"
  proof (cases "prediction_flags_ok f")
    case True
    then have "buildPredictionOrderRequest f = Inr (prediction_order_of f)" using build_prediction_iff by blast
    then show ?thesis using True by (simp add: prediction_place_def placed_def with_prediction_def with_service_def)
  next
    case False
    then obtain e where "buildPredictionOrderRequest f = Inl e"
      using build_prediction_iff by (cases "buildPredictionOrderRequest f") auto
    then show ?thesis using False by (auto simp: prediction_place_def)
  qed
qed

section \<open>Sessions\<close>

text \<open>A command that opens a session performs at most one operation and then closes the owner if there is one.\<close>

definition session_ok :: "'c factory \<Rightarrow> 'r cli_event list \<Rightarrow> bool" where
  "session_ok factory events \<longleftrightarrow> events = [] \<or>
     (\<exists>operations. length operations \<le> 1 \<and>
        events = OpenSession # map Operation operations @ (case factory of Inr (_, True) \<Rightarrow> [CloseOwner] | _ \<Rightarrow> []))"

lemma session_refuse [simp]: "session_ok factory (fst (refuse e))"
  by (simp add: session_ok_def refuse_def)

lemma session_placed [simp]: "fst (placed r) = fst r"
  by (simp add: placed_def)

lemma session_service: "session_ok factory (fst (with_service create unavailable failure factory operation request))"
proof (cases factory)
  case (Inl e)
  then show ?thesis by (auto simp: with_service_def session_ok_def intro!: exI[of _ "[]"])
next
  case (Inr p)
  then show ?thesis
    by (cases p; cases "fst p")
      (auto simp: with_service_def session_ok_def intro: exI[of _ "[]"] exI[of _ "[request]"])
qed

lemmas session_simps = with_spot_def with_prediction_def session_service

text \<open>Every order command opens at most one session, performs at most one operation in it, and closes its
  owner afterwards, whatever the factory and the exchange answer.\<close>

theorem cli_sessions_closed:
  "session_ok sfactory (fst (spot_place sfactory dry sf)) \<and> session_ok sfactory (fst (spot_list sfactory acct)) \<and>
   session_ok sfactory (fst (spot_get sfactory acct oid cid trades)) \<and> session_ok sfactory (fst (spot_cancel sfactory acct oid)) \<and>
   session_ok pfactory (fst (prediction_place pfactory dry pf)) \<and> session_ok pfactory (fst (prediction_list pfactory lf)) \<and>
   session_ok pfactory (fst (prediction_cancel pfactory oid))"
proof -
  have dry: "session_ok factory (fst ([], r))" for factory :: "'z factory" and r :: "cli_error + 'y"
    by (simp add: session_ok_def)
  have "session_ok sfactory (fst (spot_place sfactory dry sf))"
    by (auto simp: spot_place_def session_simps session_ok_def[of _ "[]"] split: sum.split)
  moreover have "session_ok sfactory (fst (spot_list sfactory acct))" by (simp add: spot_list_def session_simps Let_def)
  moreover have "session_ok sfactory (fst (spot_get sfactory acct oid cid trades))"
    by (simp add: spot_get_def session_simps Let_def split: sum.split)
  moreover have "session_ok sfactory (fst (spot_cancel sfactory acct oid))"
    by (simp add: spot_cancel_def session_simps Let_def split: sum.split)
  moreover have "session_ok pfactory (fst (prediction_place pfactory dry pf))"
    by (auto simp: prediction_place_def session_simps session_ok_def[of _ "[]"] split: sum.split)
  moreover have "session_ok pfactory (fst (prediction_list pfactory lf))"
    by (simp add: prediction_list_def session_simps split: sum.split prediction_list_query.split)
  moreover have "session_ok pfactory (fst (prediction_cancel pfactory oid))"
    by (simp add: prediction_cancel_def session_simps split: sum.split)
  ultimately show ?thesis by blast
qed

end
