(* ===== verification/Sports.thy ===== *)
theory Sports
  imports Encoding "HOL-Library.Multiset"
begin

text \<open>
  The sports view of \<open>services/sports.go\<close>: the contest key of an event ticker, the clusters of the events
  that share one, and the resolution of an identifier among fetched events. An event carries the fields
  the view reads. The regular expression of the suffixes is written out as a predicate on what follows a
  dash; it can only match at the end of the text, so the leftmost match is the one removed. The
  moneyline pointer into the cluster's events is the event itself.
\<close>

section \<open>Contest keys\<close>

definition split_dash :: "string \<Rightarrow> string list" where
  "split_dash s = foldr (\<lambda>c parts. if c = CHR ''-'' then [] # parts else (c # hd parts) # tl parts) s [[]]"

definition upper_digit :: "char \<Rightarrow> bool" where
  "upper_digit c \<longleftrightarrow> (let b = of_char c :: nat in 65 \<le> b \<and> b \<le> 90 \<or> 48 \<le> b \<and> b \<le> 57)"

definition market_families :: "string list" where
  "market_families = [''M'', ''S'', ''T'', ''TT'', ''ML'', ''SPREAD'', ''TOTAL'', ''REGS'', ''REGT'', ''1HS'', ''1HT'', ''2HS'', ''2HT'',
     ''1QS'', ''1QT'', ''2QS'', ''2QT'', ''3QS'', ''3QT'', ''4QS'', ''4QT'', ''WIN'', ''T5'', ''T10'', ''T20'', ''MC'', ''A'', ''CS'']"

definition market_family :: "string \<Rightarrow> bool" where
  "market_family s \<longleftrightarrow> s \<in> set market_families \<or>
     (has_prefix s ''PP'' \<and> drop 2 s \<noteq> [] \<and> list_all upper_digit (drop 2 s))"

text \<open>What follows the dash of \<open>contestSuffixPattern\<close>: a family, and perhaps an outcome.\<close>

definition contest_suffix :: "string \<Rightarrow> bool" where
  "contest_suffix s \<longleftrightarrow>
     (let family = takeWhile (\<lambda>c. c \<noteq> CHR ''-'') s; rest = dropWhile (\<lambda>c. c \<noteq> CHR ''-'') s
      in market_family family \<and> (rest = [] \<or> (tl rest \<noteq> [] \<and> list_all upper_digit (tl rest))))"

fun strip_contest_suffix :: "string \<Rightarrow> string" where
  "strip_contest_suffix [] = []"
| "strip_contest_suffix (c # s) = (if c = CHR ''-'' \<and> contest_suffix s then [] else c # strip_contest_suffix s)"

definition outright_markers :: "string list" where
  "outright_markers = [''WIN'', ''T5'', ''T10'', ''T20'', ''MC'']"

definition NormalizeContestRoot :: "string \<Rightarrow> string" where
  "NormalizeContestRoot identifier =
     (let clean0 = TrimSpace identifier;
          clean = (if 5 \<le> length clean0 \<and> EqualFold (take 5 clean0) ''GEMI-'' then drop 5 clean0 else clean0);
          parts = split_dash clean
      in if 4 \<le> length parts \<and> ToUpper (parts ! (length parts - 2)) \<in> set outright_markers
         then join ''-'' [parts ! 0, parts ! 1, parts ! (length parts - 1)]
         else strip_contest_suffix clean)"

section \<open>Events and clusters\<close>

record sports_market =
  sm_Sport :: string
  sm_Type :: string
  sm_Subject :: string
  sm_Scope :: string

record sports_event =
  ev_Ticker :: "string option"
  ev_Title :: "string option"
  ev_Category :: "string option"
  ev_Tags :: "string list option"
  ev_SportsMarket :: "sports_market option"
  ev_Contracts :: "(string option \<times> string option) list option"

record contest_cluster =
  cc_ContestID :: string
  cc_Title :: string
  cc_Sport :: string
  cc_Category :: string
  cc_Tags :: "string list"
  cc_Moneyline :: "sports_event option"
  cc_Spreads :: "sports_event list"
  cc_Totals :: "sports_event list"
  cc_TeamTotals :: "sports_event list"
  cc_PlayerProps :: "sports_event list"
  cc_Outrights :: "sports_event list"
  cc_Events :: "sports_event list"
  cc_ByScope :: "(string \<times> sports_event list) list"

definition isSportsEvent :: "sports_event \<Rightarrow> bool" where
  "isSportsEvent event \<longleftrightarrow> ev_SportsMarket event \<noteq> None \<or>
     (case ev_Category event of Some c \<Rightarrow> EqualFold c ''sports'' | None \<Rightarrow> False)"

definition eventTicker :: "sports_event \<Rightarrow> string" where
  "eventTicker event = (case ev_Ticker event of None \<Rightarrow> [] | Some t \<Rightarrow> t)"

definition eventHasDirectContractMatch :: "sports_event \<Rightarrow> string \<Rightarrow> bool" where
  "eventHasDirectContractMatch event identifier =
     (case ev_Contracts event of
        None \<Rightarrow> False
      | Some contracts \<Rightarrow>
          list_ex (\<lambda>(symbol, ticker). list_ex (\<lambda>candidate. case candidate of
              Some s \<Rightarrow> EqualFold (TrimSpace s) (TrimSpace identifier) | None \<Rightarrow> False) [symbol, ticker]) contracts)"

text \<open>\<open>strings.Index\<close>.\<close>

fun index_of :: "string \<Rightarrow> string \<Rightarrow> nat option" where
  "index_of s part =
     (if has_prefix s part then Some 0
      else case s of [] \<Rightarrow> None | _ # t \<Rightarrow> map_option Suc (index_of t part))"

definition title_suffixes :: "string list" where
  "title_suffixes = ['': Total Points'', '': Point Spread'', '': Total Goals'', '': Spread'', '': Match Winner'', '' Winner'',
     '': Quarterback Passing Yards'']"

definition ExtractCleanContestTitle :: "sports_event list \<Rightarrow> sports_event option \<Rightarrow> string" where
  "ExtractCleanContestTitle events moneyline =
     (let first = (case find (\<lambda>e. ev_Title e \<noteq> None) events of Some e \<Rightarrow> the (ev_Title e) | None \<Rightarrow> []);
          title = (case moneyline of Some m \<Rightarrow> (case ev_Title m of Some t \<Rightarrow> t | None \<Rightarrow> first) | None \<Rightarrow> first)
      in if title = [] then []
         else case find (\<lambda>suffix. index_of title suffix \<noteq> None) title_suffixes of
           Some suffix \<Rightarrow> TrimSpace (take (the (index_of title suffix)) title)
         | None \<Rightarrow>
             (case index_of title '':'' of
                Some i \<Rightarrow> TrimSpace (take i title)
              | None \<Rightarrow> TrimSpace title))"

text \<open>The list an event goes to.\<close>

datatype family = MoneylineFamily | SpreadFamily | TotalFamily | TeamTotalFamily | PlayerPropFamily | OutrightFamily

definition event_family :: "sports_event \<Rightarrow> family" where
  "event_family event =
     (let marketType = (case ev_SportsMarket event of Some m \<Rightarrow> sm_Type m | None \<Rightarrow> []);
          subject = (case ev_SportsMarket event of Some m \<Rightarrow> sm_Subject m | None \<Rightarrow> []);
          contractCount = (case ev_Contracts event of Some cs \<Rightarrow> length cs | None \<Rightarrow> 0)
      in if marketType = ''moneyline'' \<or> (subject = ''contest'' \<and> marketType = [] \<and> (contractCount = 2 \<or> contractCount = 3))
         then MoneylineFamily
         else if marketType = ''spread'' then SpreadFamily
         else if marketType = ''total'' then (if subject = ''team'' then TeamTotalFamily else TotalFamily)
         else if marketType = ''futures'' \<or> (marketType = ''prop'' \<and> (subject = ''participant'' \<or> subject = ''other'') \<and>
              index_of (ToUpper (eventTicker event)) ''WIN'' \<noteq> None)
         then OutrightFamily
         else if subject = ''player'' \<or> marketType = ''prop'' then PlayerPropFamily
         else OutrightFamily)"

definition add_tags :: "sports_event \<Rightarrow> string list \<Rightarrow> string list" where
  "add_tags event tags =
     foldl (\<lambda>ts tag. if tag \<in> set ts then ts else ts @ [tag]) tags (case ev_Tags event of Some ts \<Rightarrow> ts | None \<Rightarrow> [])"

fun add_scope :: "string \<Rightarrow> sports_event \<Rightarrow> (string \<times> sports_event list) list \<Rightarrow> (string \<times> sports_event list) list" where
  "add_scope scope event [] = [(scope, [event])]"
| "add_scope scope event ((k, es) # rest) =
     (if k = scope then (k, es @ [event]) # rest else (k, es) # add_scope scope event rest)"

definition add_family :: "sports_event \<Rightarrow> contest_cluster \<Rightarrow> contest_cluster" where
  "add_family event c =
     (case event_family event of
        MoneylineFamily \<Rightarrow> if cc_Moneyline c = None then c\<lparr>cc_Moneyline := Some event\<rparr> else c
      | SpreadFamily \<Rightarrow> c\<lparr>cc_Spreads := cc_Spreads c @ [event]\<rparr>
      | TotalFamily \<Rightarrow> c\<lparr>cc_Totals := cc_Totals c @ [event]\<rparr>
      | TeamTotalFamily \<Rightarrow> c\<lparr>cc_TeamTotals := cc_TeamTotals c @ [event]\<rparr>
      | PlayerPropFamily \<Rightarrow> c\<lparr>cc_PlayerProps := cc_PlayerProps c @ [event]\<rparr>
      | OutrightFamily \<Rightarrow> c\<lparr>cc_Outrights := cc_Outrights c @ [event]\<rparr>)"

text \<open>One turn of the loop of \<open>BuildSportsContestCluster\<close>.\<close>

definition add_event :: "contest_cluster \<Rightarrow> sports_event \<Rightarrow> contest_cluster" where
  "add_event c event =
     (let c1 = (case ev_SportsMarket event of
             Some m \<Rightarrow> if cc_Sport c = [] then c\<lparr>cc_Sport := sm_Sport m\<rparr> else c
           | None \<Rightarrow> c);
          c2 = c1\<lparr>cc_Tags := add_tags event (cc_Tags c1)\<rparr>;
          c3 = (case ev_SportsMarket event of
             Some m \<Rightarrow>
               if sm_Scope m \<noteq> [] \<and> sm_Scope m \<noteq> ''full_contest''
               then c2\<lparr>cc_ByScope := add_scope (sm_Scope m) event (cc_ByScope c2)\<rparr> else c2
           | None \<Rightarrow> c2)
      in add_family event c3)"

definition empty_cluster :: "string \<Rightarrow> sports_event list \<Rightarrow> contest_cluster" where
  "empty_cluster contestID events = \<lparr>cc_ContestID = contestID, cc_Title = [], cc_Sport = [], cc_Category = ''Sports'',
     cc_Tags = [], cc_Moneyline = None, cc_Spreads = [], cc_Totals = [], cc_TeamTotals = [], cc_PlayerProps = [],
     cc_Outrights = [], cc_Events = events, cc_ByScope = []\<rparr>"

definition BuildSportsContestCluster :: "string \<Rightarrow> sports_event list \<Rightarrow> contest_cluster" where
  "BuildSportsContestCluster contestID events =
     (if length events = 0 then empty_cluster contestID events
      else
        let cluster = foldl add_event (empty_cluster contestID events) events
        in cluster\<lparr>cc_Title := ExtractCleanContestTitle (cc_Events cluster) (cc_Moneyline cluster)\<rparr>)"

text \<open>The loop of \<open>ClusterSportsEvents\<close>: the groups, and the order in which their keys came.\<close>

definition group_event ::
  "(string \<rightharpoonup> sports_event list) \<times> string list \<Rightarrow> sports_event \<Rightarrow> (string \<rightharpoonup> sports_event list) \<times> string list" where
  "group_event s event =
     (case s of (groups, order) \<Rightarrow>
        if \<not> isSportsEvent event then (groups, order)
        else
          let root = NormalizeContestRoot (eventTicker event);
              order' = (if groups root = None then order @ [root] else order);
              group0 = (case groups root of Some es \<Rightarrow> es | None \<Rightarrow> [])
          in (groups(root \<mapsto> group0 @ [event]), order'))"

definition ClusterSportsEvents :: "sports_event list \<Rightarrow> contest_cluster list" where
  "ClusterSportsEvents events =
     (case foldl group_event (\<lambda>_. None, []) events of
        (groups, order) \<Rightarrow>
          map (\<lambda>root. BuildSportsContestCluster root (case groups root of Some es \<Rightarrow> es | None \<Rightarrow> [])) order)"

definition ResolveSportsContest :: "sports_event list \<Rightarrow> string \<Rightarrow> contest_cluster option" where
  "ResolveSportsContest events identifier =
     (if TrimSpace identifier = [] then None
      else
        let root = (case find (\<lambda>event. isSportsEvent event \<and> eventHasDirectContractMatch event identifier) events of
                Some event \<Rightarrow> NormalizeContestRoot (eventTicker event)
              | None \<Rightarrow> NormalizeContestRoot identifier);
            matching = filter (\<lambda>event. isSportsEvent event \<and> EqualFold (NormalizeContestRoot (eventTicker event)) root) events
        in if length matching = 0 then None
           else Some (BuildSportsContestCluster (NormalizeContestRoot (eventTicker (hd matching))) matching))"

section \<open>Grouping\<close>

definition contest_key :: "sports_event \<Rightarrow> string" where
  "contest_key event = NormalizeContestRoot (eventTicker event)"

definition contest_events :: "string \<Rightarrow> sports_event list \<Rightarrow> sports_event list" where
  "contest_events key events = filter (\<lambda>e. isSportsEvent e \<and> contest_key e = key) events"

text \<open>The elements of a list in the order of their first occurrences.\<close>

definition first_seen :: "'a list \<Rightarrow> 'a list" where
  "first_seen xs = rev (remdups (rev xs))"

lemma first_seen_simps [simp]:
  "first_seen [] = []"
  "first_seen (xs @ [x]) = (if x \<in> set xs then first_seen xs else first_seen xs @ [x])"
  by (simp_all add: first_seen_def)

lemma set_first_seen [simp]: "set (first_seen xs) = set xs" and distinct_first_seen [simp]: "distinct (first_seen xs)"
  by (simp_all add: first_seen_def)

definition contest_keys :: "sports_event list \<Rightarrow> string list" where
  "contest_keys events = first_seen (map contest_key (filter isSportsEvent events))"

lemma contest_events_empty: "contest_events k events = [] \<longleftrightarrow> k \<notin> set (contest_keys events)"
  by (auto simp: contest_events_def contest_keys_def filter_empty_conv)

lemma grouped:
  "foldl group_event (\<lambda>_. None, []) events =
     (\<lambda>k. if contest_events k events = [] then None else Some (contest_events k events), contest_keys events)"
proof (induction events rule: rev_induct)
  case Nil
  show ?case by (simp add: contest_events_def contest_keys_def fun_eq_iff)
next
  case (snoc e events)
  show ?case
  proof (cases "isSportsEvent e")
    case False
    then show ?thesis using snoc by (simp add: group_event_def contest_events_def contest_keys_def fun_eq_iff)
  next
    case True
    have keys: "contest_keys (events @ [e]) =
        (if contest_events (contest_key e) events = [] then contest_keys events @ [contest_key e] else contest_keys events)"
      using True contest_events_empty[of "contest_key e" events] by (simp add: contest_keys_def)
    have group: "contest_events k (events @ [e]) = contest_events k events @ (if k = contest_key e then [e] else [])" for k
      using True by (simp add: contest_events_def)
    have step: "group_event (g, ks) e =
        (g(contest_key e \<mapsto> (case g (contest_key e) of Some es \<Rightarrow> es | None \<Rightarrow> []) @ [e]),
         if g (contest_key e) = None then ks @ [contest_key e] else ks)" for g ks
      using True by (simp add: group_event_def contest_key_def Let_def)
    show ?thesis by (simp add: snoc step keys group fun_eq_iff)
  qed
qed

lemma built_fields [simp]:
  "cc_ContestID (BuildSportsContestCluster k events) = k" "cc_Events (BuildSportsContestCluster k events) = events"
proof -
  have id: "cc_ContestID (add_event c e) = cc_ContestID c \<and> cc_Events (add_event c e) = cc_Events c" for c e
    by (auto simp: add_event_def add_family_def Let_def split: option.split family.split)
  have "cc_ContestID (foldl add_event c es) = cc_ContestID c \<and> cc_Events (foldl add_event c es) = cc_Events c" for c es
    by (induction es arbitrary: c) (simp_all add: id)
  then show "cc_ContestID (BuildSportsContestCluster k events) = k" "cc_Events (BuildSportsContestCluster k events) = events"
    by (simp_all add: BuildSportsContestCluster_def empty_cluster_def Let_def)
qed

lemma clusters_reference:
  "ClusterSportsEvents events = map (\<lambda>k. BuildSportsContestCluster k (contest_events k events)) (contest_keys events)"
  unfolding ClusterSportsEvents_def grouped by (auto simp: contest_events_empty)

lemma no_key: "a \<notin> set ks \<Longrightarrow> (\<Sum>k\<leftarrow>ks. if a = k then {#x#} else {#}) = {#}"
  by (induction ks) auto

lemma single_key: "distinct ks \<Longrightarrow> a \<in> set ks \<Longrightarrow> (\<Sum>k\<leftarrow>ks. if a = k then {#x#} else {#}) = {#x#}"
  by (induction ks) (auto simp: no_key)

lemma mset_by_key:
  assumes "distinct ks" "f ` set xs \<subseteq> set ks"
  shows "(\<Sum>k\<leftarrow>ks. mset (filter (\<lambda>x. f x = k) xs)) = mset xs"
  using assms(2)
proof (induction xs)
  case Nil
  show ?case by (induction ks) auto
next
  case (Cons x xs)
  have "f x \<in> set ks" using Cons.prems by simp
  then have one: "(\<Sum>k\<leftarrow>ks. if f x = k then {#x#} else {#}) = {#x#}" by (rule single_key[OF assms(1)])
  have "mset (filter (\<lambda>y. f y = k) (x # xs)) = (if f x = k then {#x#} else {#}) + mset (filter (\<lambda>y. f y = k) xs)" for k
    by simp
  then have "(\<Sum>k\<leftarrow>ks. mset (filter (\<lambda>y. f y = k) (x # xs))) = {#x#} + (\<Sum>k\<leftarrow>ks. mset (filter (\<lambda>y. f y = k) xs))"
    by (simp only: sum_list_addf one)
  then show ?case using Cons by simp
qed

text \<open>C38: The clusters partition the sports events: there is one cluster per contest key, in the order in which
  the keys were first seen; its events are exactly the sports events with that key, in order; together the
  clusters hold every sports event once.\<close>

theorem sports_clusters_partition:
  "map cc_ContestID (ClusterSportsEvents events) = contest_keys events \<and> distinct (contest_keys events) \<and>
   map cc_Events (ClusterSportsEvents events) = map (\<lambda>k. contest_events k events) (contest_keys events) \<and>
   mset (concat (map cc_Events (ClusterSportsEvents events))) = mset (filter isSportsEvent events)"
proof -
  have "contest_events k events = filter (\<lambda>e. contest_key e = k) (filter isSportsEvent events)" for k
    by (simp add: contest_events_def conj_commute)
  then have "mset (concat (map (\<lambda>k. contest_events k events) (contest_keys events))) =
      (\<Sum>k\<leftarrow>contest_keys events. mset (filter (\<lambda>e. contest_key e = k) (filter isSportsEvent events)))"
    by (simp only: mset_concat map_map comp_def)
  also have "\<dots> = mset (filter isSportsEvent events)"
    by (rule mset_by_key) (auto simp: contest_keys_def)
  finally have "mset (concat (map (\<lambda>k. contest_events k events) (contest_keys events))) = mset (filter isSportsEvent events)" .
  then show ?thesis by (simp add: clusters_reference comp_def contest_keys_def)
qed

section \<open>The view of one contest\<close>

definition with_family :: "family \<Rightarrow> sports_event list \<Rightarrow> sports_event list" where
  "with_family f events = filter (\<lambda>e. event_family e = f) events"

definition scope_of :: "sports_event \<Rightarrow> string" where
  "scope_of e = (case ev_SportsMarket e of Some m \<Rightarrow> sm_Scope m | None \<Rightarrow> [])"

definition cluster_inv :: "sports_event list \<Rightarrow> contest_cluster \<Rightarrow> bool" where
  "cluster_inv es c \<longleftrightarrow>
     cc_Moneyline c = (case with_family MoneylineFamily es of [] \<Rightarrow> None | m # _ \<Rightarrow> Some m) \<and>
     cc_Spreads c = with_family SpreadFamily es \<and> cc_Totals c = with_family TotalFamily es \<and>
     cc_TeamTotals c = with_family TeamTotalFamily es \<and> cc_PlayerProps c = with_family PlayerPropFamily es \<and>
     cc_Outrights c = with_family OutrightFamily es"

lemma add_event_inv:
  assumes "cluster_inv es c"
  shows "cluster_inv (es @ [e]) (add_event c e)"
  using assms
  by (auto simp: cluster_inv_def with_family_def add_event_def add_family_def Let_def split: option.split list.split family.split)

lemma fold_events_inv: "cluster_inv es (foldl add_event (empty_cluster k es') es)"
  by (induction es rule: rev_induct) (simp_all add: cluster_inv_def with_family_def empty_cluster_def add_event_inv[unfolded cluster_inv_def with_family_def])

lemma mset_families:
  "mset es = mset (with_family MoneylineFamily es) + mset (with_family SpreadFamily es) + mset (with_family TotalFamily es) +
     mset (with_family TeamTotalFamily es) + mset (with_family PlayerPropFamily es) + mset (with_family OutrightFamily es)"
proof (induction es)
  case Nil
  show ?case by (simp add: with_family_def)
next
  case (Cons e es)
  then show ?case by (cases "event_family e") (simp_all add: with_family_def)
qed

definition cluster_lists :: "contest_cluster \<Rightarrow> sports_event list" where
  "cluster_lists c = (case cc_Moneyline c of None \<Rightarrow> [] | Some m \<Rightarrow> [m]) @ cc_Spreads c @ cc_Totals c @ cc_TeamTotals c @
     cc_PlayerProps c @ cc_Outrights c"

lemma built_inv: "cluster_inv es (BuildSportsContestCluster k es)"
  using fold_events_inv[of es k es]
  by (auto simp: BuildSportsContestCluster_def cluster_inv_def Let_def with_family_def empty_cluster_def)

text \<open>The view of a contest sorts its events into the families: every event is in exactly one of the lists of
  its cluster, except that of several moneyline events only the first is shown.\<close>

theorem sports_view_complete:
  "mset (cluster_lists (BuildSportsContestCluster k events)) + mset (tl (with_family MoneylineFamily events)) = mset events \<and>
   list_all (\<lambda>e. event_family e = SpreadFamily) (cc_Spreads (BuildSportsContestCluster k events)) \<and>
   list_all (\<lambda>e. event_family e = TotalFamily) (cc_Totals (BuildSportsContestCluster k events)) \<and>
   list_all (\<lambda>e. event_family e = TeamTotalFamily) (cc_TeamTotals (BuildSportsContestCluster k events)) \<and>
   list_all (\<lambda>e. event_family e = PlayerPropFamily) (cc_PlayerProps (BuildSportsContestCluster k events)) \<and>
   list_all (\<lambda>e. event_family e = OutrightFamily) (cc_Outrights (BuildSportsContestCluster k events))"
proof -
  define ms where "ms = with_family MoneylineFamily events"
  have split: "mset events = mset ms + mset (with_family SpreadFamily events) + mset (with_family TotalFamily events) +
      mset (with_family TeamTotalFamily events) + mset (with_family PlayerPropFamily events) + mset (with_family OutrightFamily events)"
    unfolding ms_def by (rule mset_families)
  have "mset (cluster_lists (BuildSportsContestCluster k events)) + mset (tl ms) = mset events"
    using built_inv[of events k] unfolding split
    by (cases ms) (auto simp: cluster_inv_def cluster_lists_def ms_def[symmetric])
  moreover have "list_all (\<lambda>e. event_family e = f) (with_family f events)" for f by (simp add: with_family_def list_all_iff)
  ultimately show ?thesis using built_inv[of events k] by (simp add: cluster_inv_def ms_def)
qed

section \<open>Resolution\<close>

text \<open>A contest is found by any contract of its events: the cluster contains the first event with that contract
  and otherwise only sports events of the same key up to letter case.\<close>

theorem resolve_by_contract:
  assumes "find (\<lambda>e. isSportsEvent e \<and> eventHasDirectContractMatch e identifier) events = Some event" "TrimSpace identifier \<noteq> []"
  shows "\<exists>c. ResolveSportsContest events identifier = Some c \<and> event \<in> set (cc_Events c) \<and>
    (\<forall>e. e \<in> set (cc_Events c) \<longleftrightarrow> e \<in> set events \<and> isSportsEvent e \<and> EqualFold (contest_key e) (contest_key event))"
proof -
  have event: "event \<in> set events" "isSportsEvent event"
    using assms(1) by (auto simp: find_Some_iff)
  define matching where "matching = filter (\<lambda>e. isSportsEvent e \<and> EqualFold (contest_key e) (contest_key event)) events"
  have member: "event \<in> set matching" using event by (simp add: matching_def)
  then have nonempty: "matching \<noteq> []" by auto
  have "ResolveSportsContest events identifier =
      Some (BuildSportsContestCluster (NormalizeContestRoot (eventTicker (hd matching))) matching)"
    using assms nonempty unfolding matching_def contest_key_def by (simp add: ResolveSportsContest_def Let_def)
  then show ?thesis using member by (auto simp: matching_def)
qed

definition demo_moneyline :: sports_event where
  "demo_moneyline = \<lparr>ev_Ticker = Some ''EPL-2026-MC-ARS-ML'', ev_Title = Some ''MC at ARS'', ev_Category = Some ''Sports'',
     ev_Tags = None, ev_SportsMarket = None, ev_Contracts = Some [(Some ''GEMI-X'', None)]\<rparr>"

theorem resolve_by_contract_witness:
  "\<exists>c. ResolveSportsContest [demo_moneyline] ''GEMI-X'' = Some c \<and> demo_moneyline \<in> set (cc_Events c)"
proof -
  have "find (\<lambda>e. isSportsEvent e \<and> eventHasDirectContractMatch e ''GEMI-X'') [demo_moneyline] = Some demo_moneyline" by code_simp
  moreover have "TrimSpace ''GEMI-X'' \<noteq> []" by code_simp
  ultimately show ?thesis using resolve_by_contract by blast
qed

text \<open>A contest's own key need not resolve to it, because a key may end like an event ticker: the key of
  \<open>EPL-2026-MC-ARS-ML\<close> is \<open>EPL-2026-MC-ARS\<close>, whose key is \<open>EPL-2026-ARS\<close>.\<close>

theorem contest_root_not_resolved:
  "map cc_ContestID (ClusterSportsEvents [demo_moneyline]) = [''EPL-2026-MC-ARS''] \<and>
   ResolveSportsContest [demo_moneyline] ''EPL-2026-MC-ARS'' = None"
proof
  show "map cc_ContestID (ClusterSportsEvents [demo_moneyline]) = [''EPL-2026-MC-ARS'']"
    by (simp add: clusters_reference comp_def) code_simp
  show "ResolveSportsContest [demo_moneyline] ''EPL-2026-MC-ARS'' = None" by code_simp
qed

end
