(* ===== verification/Dates.thy ===== *)
theory Dates
  imports DecimalJson
begin

text \<open>
  \<open>types/date.go\<close>: dates in JSON, with the parts of the \<open>time\<close> package they use: the layout
  \<open>2006-01-02\<close> is four digits, two digits and two digits, and the day must exist in its month. A date is
  its year, month and day; the zero time is the first of January of the year 1.
\<close>

record date =
  dt_year :: nat
  dt_month :: nat
  dt_day :: nat

definition zero_date :: date where
  "zero_date = \<lparr>dt_year = 1, dt_month = 1, dt_day = 1\<rparr>"

definition leap_year :: "nat \<Rightarrow> bool" where
  "leap_year y \<longleftrightarrow> y mod 4 = 0 \<and> (y mod 100 \<noteq> 0 \<or> y mod 400 = 0)"

definition days_in :: "nat \<Rightarrow> nat \<Rightarrow> nat" where
  "days_in m y =
     (if m = 2 then (if leap_year y then 29 else 28) else if m \<in> {4, 6, 9, 11} then 30 else 31)"

definition date_ok :: "date \<Rightarrow> bool" where
  "date_ok d \<longleftrightarrow> 1 \<le> dt_month d \<and> dt_month d \<le> 12 \<and> 1 \<le> dt_day d \<and> dt_day d \<le> days_in (dt_month d) (dt_year d)"

definition pad :: "nat \<Rightarrow> nat \<Rightarrow> string" where
  "pad width n = replicate (width - length (nat_str n)) (CHR ''0'') @ nat_str n"

definition format_date :: "date \<Rightarrow> string" where
  "format_date d = pad 4 (dt_year d) @ ''-'' @ pad 2 (dt_month d) @ ''-'' @ pad 2 (dt_day d)"

definition digits_val :: "string \<Rightarrow> nat option" where
  "digits_val s = (if list_all is_digit s then digits_acc 0 s else None)"

definition parse_date :: "string \<Rightarrow> date option" where
  "parse_date s =
     (if length s \<noteq> 10 \<or> s ! 4 \<noteq> CHR ''-'' \<or> s ! 7 \<noteq> CHR ''-'' then None
      else case (digits_val (take 4 s), digits_val (take 2 (drop 5 s)), digits_val (drop 8 s)) of
        (Some y, Some m, Some d) \<Rightarrow>
          let v = \<lparr>dt_year = y, dt_month = m, dt_day = d\<rparr> in if date_ok v then Some v else None
      | _ \<Rightarrow> None)"

definition Date_String :: "date \<Rightarrow> string" where
  "Date_String d = (if d = zero_date then [] else format_date d)"

definition MarshalJSON_date :: "date \<Rightarrow> string" where
  "MarshalJSON_date d = (if d = zero_date then ''null'' else CHR 0x22 # format_date d @ [CHR 0x22])"

definition UnmarshalJSON_date :: "string \<Rightarrow> date option" where
  "UnmarshalJSON_date data0 =
     (let data = TrimSpace data0
      in if data = ''null'' then Some zero_date
         else case parse_json data of
           Some (JStr s) \<Rightarrow> if s = [] then Some zero_date else parse_date s
         | Some JNull \<Rightarrow> Some zero_date
         | _ \<Rightarrow> None)"

section \<open>Round trip\<close>

lemma list_all_nat_str [simp]: "list_all is_digit (nat_str n)"
  by (simp add: list_all_iff nat_str_digits)

lemma pad_digits: "c \<in> set (pad w n) \<Longrightarrow> is_digit c"
  using nat_str_digits by (force simp: pad_def is_digit_def split: if_splits)

lemma digits_val_pad [simp]: "digits_val (pad w n) = Some n"
proof -
  have "list_all is_digit (pad w n)" by (simp add: list_all_iff pad_digits)
  then show ?thesis by (simp add: digits_val_def pad_def digits_acc_zeros digits_acc_nat_str)
qed

lemma length_nat_str_less: "n < 10 ^ k \<Longrightarrow> 0 < k \<Longrightarrow> length (nat_str n) \<le> k"
proof (induction n arbitrary: k rule: nat_str.induct)
  case (1 n)
  show ?case
  proof (cases "n < 10")
    case True
    then show ?thesis using 1(3) by (simp add: nat_str.simps[of n])
  next
    case False
    then have "k \<noteq> 0" "k \<noteq> 1" using 1(2,3) by auto
    then obtain j where k: "k = Suc j" "0 < j" by (cases k) auto
    have "n div 10 < 10 ^ j" using 1(2) k by (simp add: less_mult_imp_div_less mult.commute)
    then have "length (nat_str (n div 10)) \<le> j" using 1(1) False k(2) by simp
    then show ?thesis using False k by (simp add: nat_str.simps[of n])
  qed
qed

lemma length_pad: "n < 10 ^ w \<Longrightarrow> 0 < w \<Longrightarrow> length (pad w n) = w"
  using length_nat_str_less[of n w] by (simp add: pad_def)

lemma parse_format:
  assumes "date_ok d" "dt_year d < 10000"
  shows "parse_date (format_date d) = Some d" "length (format_date d) = 10"
proof -
  have small: "dt_month d < 10 ^ 2" "dt_day d < 10 ^ 2" "dt_year d < 10 ^ 4"
    using assms by (auto simp: date_ok_def days_in_def split: if_splits)
  have len: "length (pad 4 (dt_year d)) = 4" "length (pad 2 (dt_month d)) = 2" "length (pad 2 (dt_day d)) = 2"
    using small length_pad by simp_all
  obtain y1 y2 y3 y4 where y: "pad 4 (dt_year d) = [y1, y2, y3, y4]" using len(1) by (auto simp: length_Suc_conv eval_nat_numeral)
  obtain m1 m2 where m: "pad 2 (dt_month d) = [m1, m2]" using len(2) by (auto simp: length_Suc_conv eval_nat_numeral)
  obtain d1 d2 where e: "pad 2 (dt_day d) = [d1, d2]" using len(3) by (auto simp: length_Suc_conv eval_nat_numeral)
  have vals: "digits_val [y1, y2, y3, y4] = Some (dt_year d)" "digits_val [m1, m2] = Some (dt_month d)"
      "digits_val [d1, d2] = Some (dt_day d)"
    by (simp_all flip: y m e)
  have f: "format_date d = [y1, y2, y3, y4, CHR ''-'', m1, m2, CHR ''-'', d1, d2]" by (simp add: format_date_def y m e)
  have rebuilt: "\<lparr>dt_year = dt_year d, dt_month = dt_month d, dt_day = dt_day d\<rparr> = d" by (cases d) simp
  show "length (format_date d) = 10" by (simp add: f)
  show "parse_date (format_date d) = Some d" using assms(1) by (simp add: parse_date_def f vals rebuilt Let_def)
qed

lemma format_plain: "\<forall>c\<in>set (format_date d). plain_char c"
  using pad_digits by (force simp: format_date_def plain_char_def is_digit_def)

text \<open>A calendar date of a year below 10000 survives JSON, the zero date (written as null) included.\<close>

theorem date_roundtrip:
  assumes "date_ok d" "dt_year d < 10000"
  shows "UnmarshalJSON_date (MarshalJSON_date d) = Some d"
proof (cases "d = zero_date")
  case True
  have "TrimSpace ''null'' = ''null''" by code_simp
  then show ?thesis using True by (simp add: UnmarshalJSON_date_def MarshalJSON_date_def)
next
  case False
  have q: "CHR 0x22 \<notin> space_bytes" by (simp add: space_bytes_def space_encodings_def ascii_spaces_def)
  have shape: "MarshalJSON_date d = CHR 0x22 # format_date d @ [CHR 0x22]" using False by (simp add: MarshalJSON_date_def)
  have "TrimSpace (MarshalJSON_date d) = MarshalJSON_date d" by (rule TrimSpace_id) (simp_all add: shape q)
  moreover have "parse_json (MarshalJSON_date d) = Some (JStr (format_date d))"
    unfolding shape by (rule parse_json_string[OF format_plain])
  moreover have "format_date d \<noteq> []" using parse_format(2)[OF assms] by auto
  ultimately show ?thesis using parse_format(1)[OF assms] by (simp add: UnmarshalJSON_date_def Let_def) (simp add: shape)
qed

theorem date_roundtrip_witness: "UnmarshalJSON_date (MarshalJSON_date \<lparr>dt_year = 2024, dt_month = 2, dt_day = 29\<rparr>) =
    Some \<lparr>dt_year = 2024, dt_month = 2, dt_day = 29\<rparr>"
  by (rule date_roundtrip) (simp_all add: date_ok_def days_in_def leap_year_def)

end
