(* ===== verification/Endpoints.thy ===== *)
theory Endpoints
  imports OAuth Dates
begin

text \<open>
  The remaining services of the package \<open>services\<close>: market data, accounts, transfers, staking, clearing,
  margin, perpetuals and prediction markets. Each operation is the one request it makes through
  \<open>baseService\<close> (\<open>Trading.service_request\<close>): which of the service's two transports, the method, the path
  with its query, and the payload. A payload is a parameter; a typed nil pointer is sent as \<open>null\<close>, an
  omitted request as the empty body. The operations return the decoded response unchanged unless a
  definition says otherwise. \<open>ToUpper\<close>'s limitation to ASCII plays no role here.
\<close>

section \<open>Paths and queries\<close>

text \<open>\<open>url.PathEscape\<close>.\<close>

definition path_plain :: "char \<Rightarrow> bool" where
  "path_plain c \<longleftrightarrow> query_plain c \<or> c \<in> set ''$&+:=@''"

definition PathEscape :: "string \<Rightarrow> string" where
  "PathEscape s = concat (map (\<lambda>c. if path_plain c then [c] else CHR ''%'' # map to_upper_char (hex_encode [c])) s)"

text \<open>\<open>url.Values\<close> in the order of insertion; \<open>Encode\<close> sorts by key and keeps the order of a key's values.\<close>

type_synonym query = "(string \<times> string) list"

definition Values_Add :: "string \<Rightarrow> string \<Rightarrow> query \<Rightarrow> query" where
  "Values_Add k v q = q @ [(k, v)]"

definition add_all :: "string \<Rightarrow> string list option \<Rightarrow> query \<Rightarrow> query" where
  "add_all k vs q = foldl (\<lambda>q v. Values_Add k v q) q (case vs of None \<Rightarrow> [] | Some xs \<Rightarrow> xs)"

definition set_if :: "string \<Rightarrow> string option \<Rightarrow> query \<Rightarrow> query" where
  "set_if k v q = (case v of None \<Rightarrow> q | Some x \<Rightarrow> Values_Set k x q)"

definition FormatBool :: "bool \<Rightarrow> string" where
  "FormatBool b = (if b then ''true'' else ''false'')"

definition withQuery :: "string \<Rightarrow> query \<Rightarrow> string" where
  "withQuery path q = (if length q = 0 then path else path @ ''?'' @ Values_Encode q)"

definition addLimitOffset :: "int option \<Rightarrow> int option \<Rightarrow> query \<Rightarrow> query" where
  "addLimitOffset limit offset q = set_if ''offset'' (map_option FormatInt offset) (set_if ''limit'' (map_option FormatInt limit) q)"

section \<open>Requests\<close>

datatype base = OwnBase | PublicBase

datatype 'b payload = NoPayload | NullPayload | EmptyPayload | Payload 'b

record 'b service_call =
  sv_base :: base
  sv_method :: string
  sv_path :: string
  sv_payload :: "'b payload"

definition post_call :: "string \<Rightarrow> 'b payload \<Rightarrow> 'b service_call" where
  "post_call path body = \<lparr>sv_base = OwnBase, sv_method = ''POST'', sv_path = path, sv_payload = body\<rparr>"

definition get_call :: "string \<Rightarrow> 'b service_call" where
  "get_call path = \<lparr>sv_base = OwnBase, sv_method = ''GET'', sv_path = path, sv_payload = NoPayload\<rparr>"

definition public_get :: "string \<Rightarrow> 'b service_call" where
  "public_get path = \<lparr>sv_base = PublicBase, sv_method = ''GET'', sv_path = path, sv_payload = NoPayload\<rparr>"

text \<open>A request pointer passed on as it is, and one replaced by an empty request when nil.\<close>

definition sent_as_is :: "'b option \<Rightarrow> 'b payload" where
  "sent_as_is req = (case req of None \<Rightarrow> NullPayload | Some b \<Rightarrow> Payload b)"

definition or_empty :: "'b option \<Rightarrow> 'b payload" where
  "or_empty req = (case req of None \<Rightarrow> EmptyPayload | Some b \<Rightarrow> Payload b)"

section \<open>Market data\<close>

definition GetSymbols where "GetSymbols = get_call ''/v1/symbols''"

definition GetSymbolDetails where
  "GetSymbolDetails symbol = get_call (''/v1/symbols/details/'' @ PathEscape symbol)"

definition GetTicker where "GetTicker symbol = get_call (''/v1/pubticker/'' @ PathEscape symbol)"

definition GetTickerV2 where "GetTickerV2 symbol = get_call (''/v2/ticker/'' @ PathEscape symbol)"

definition book_query :: "int \<Rightarrow> int \<Rightarrow> query" where
  "book_query limitBids limitAsks =
     (let q = (if 0 \<le> limitBids then Values_Set ''limit_bids'' (FormatInt limitBids) [] else [])
      in if 0 \<le> limitAsks then Values_Set ''limit_asks'' (FormatInt limitAsks) q else q)"

definition GetOrderBook where
  "GetOrderBook symbol limitBids limitAsks =
     get_call (withQuery (''/v1/book/'' @ PathEscape symbol) (book_query limitBids limitAsks))"

definition GetTrades where
  "GetTrades symbol limitTrades =
     get_call (if 0 < limitTrades then withQuery (''/v1/trades/'' @ PathEscape symbol) [(''limit_trades'', FormatInt limitTrades)]
               else ''/v1/trades/'' @ PathEscape symbol)"

text \<open>The marshalled form of a timestamp; its encoding may fail.\<close>

definition timestampQueryValue :: "string option option \<Rightarrow> string option" where
  "timestampQueryValue timestamp =
     (case timestamp of
        None \<Rightarrow> None
      | Some None \<Rightarrow> None
      | Some (Some raw) \<Rightarrow>
          if length raw = 0 \<or> raw = ''null'' then None
          else if hd raw = CHR 0x22 then (case parse_json raw of Some (JStr value) \<Rightarrow> Some value | _ \<Rightarrow> None)
          else Some raw)"

record 'f trades_params =
  tp_Timestamp :: "string option option"
  tp_SinceTid :: "int option"
  tp_LimitTrades :: "'f option"
  tp_IncludeBreaks :: "bool option"

text \<open>\<open>format_float\<close> prints a 32-bit float in the shortest plain notation.\<close>

definition listTradesQuery :: "('f \<Rightarrow> string) \<Rightarrow> 'f trades_params option \<Rightarrow> query" where
  "listTradesQuery format_float params =
     (case params of
        None \<Rightarrow> []
      | Some p \<Rightarrow>
          set_if ''include_breaks'' (map_option FormatBool (tp_IncludeBreaks p))
            (set_if ''limit_trades'' (map_option format_float (tp_LimitTrades p))
               (set_if ''since_tid'' (map_option FormatInt (tp_SinceTid p))
                  (set_if ''timestamp'' (timestampQueryValue (tp_Timestamp p)) []))))"

definition GetTradesWithParams where
  "GetTradesWithParams format_float symbol params =
     get_call (withQuery (''/v1/trades/'' @ PathEscape symbol) (listTradesQuery format_float params))"

definition GetCandles where
  "GetCandles symbol timeframe = get_call (''/v2/candles/'' @ PathEscape symbol @ ''/'' @ PathEscape timeframe)"

section \<open>Accounts\<close>

text \<open>The account of a balance request is required.\<close>

definition GetBalances :: "('b \<Rightarrow> string) \<Rightarrow> 'b option \<Rightarrow> 'b service_call option" where
  "GetBalances account_of req =
     (case req of
        None \<Rightarrow> None
      | Some b \<Rightarrow> if TrimSpace (account_of b) = [] then None else Some (post_call ''/v1/balances'' (Payload b)))"

definition GetNotionalBalances where
  "GetNotionalBalances currency req = post_call (''/v1/notionalbalances/'' @ PathEscape currency) (or_empty req)"

definition GetAccount where "GetAccount req = post_call ''/v1/account'' (or_empty req)"
definition CreateAccount where "CreateAccount req = post_call ''/v1/account/create'' (sent_as_is req)"

record create_account_request =
  ca_Name :: string
  ca_Type :: "string option"

definition CreateAccountByName where
  "CreateAccountByName name accountType =
     CreateAccount (Some \<lparr>ca_Name = name, ca_Type = (if accountType \<noteq> [] then Some accountType else None)\<rparr>)"

definition RenameAccount where "RenameAccount req = post_call ''/v1/account/rename'' (sent_as_is req)"
definition ListAccounts where "ListAccounts req = post_call ''/v1/account/list'' (or_empty req)"

definition TransferBetweenAccounts where
  "TransferBetweenAccounts currency req = post_call (''/v1/account/transfer/'' @ PathEscape currency) (sent_as_is req)"

definition GetDepositAddress where
  "GetDepositAddress currency req = post_call (''/v1/deposit/'' @ PathEscape currency @ ''/newAddress'') (or_empty req)"

definition ListApprovedAddresses where
  "ListApprovedAddresses network req = post_call (''/v1/approvedAddresses/account/'' @ PathEscape network) (or_empty req)"

definition RequestApprovedAddress where
  "RequestApprovedAddress network req = post_call (''/v1/approvedAddresses/'' @ PathEscape network @ ''/request'') (sent_as_is req)"

definition RemoveApprovedAddress where
  "RemoveApprovedAddress network req = post_call (''/v1/approvedAddresses/'' @ PathEscape network @ ''/remove'') (sent_as_is req)"

definition AddBankUSD where "AddBankUSD req = post_call ''/v1/payments/addbank'' (sent_as_is req)"
definition AddBankCAD where "AddBankCAD req = post_call ''/v1/payments/addbank/cad'' (sent_as_is req)"
definition ListPaymentMethods where "ListPaymentMethods req = post_call ''/v1/payments/methods'' (or_empty req)"
definition GetRoles where "GetRoles req = post_call ''/v1/roles'' (or_empty req)"

definition RevokeOAuthToken where
  "RevokeOAuthToken = post_call ''/v1/oauth/revokeByToken'' (Payload ''/v1/oauth/revokeByToken'')"

section \<open>Transfers, staking, clearing, margin, perpetuals\<close>

record withdraw_request =
  wr_Address :: string
  wr_Amount :: string
  wr_Memo :: "string option"

definition withdraw_body :: "string \<Rightarrow> string \<Rightarrow> string list \<Rightarrow> withdraw_request" where
  "withdraw_body address amount memo =
     \<lparr>wr_Address = address, wr_Amount = amount, wr_Memo = (if 0 < length memo \<and> memo ! 0 \<noteq> [] then Some (memo ! 0) else None)\<rparr>"

definition WithdrawCryptoV2 where
  "WithdrawCryptoV2 network ticker address amount memo =
     post_call (''/v2/withdraw/'' @ PathEscape network @ ''/'' @ PathEscape ticker) (Payload (withdraw_body address amount memo))"

definition GetWithdrawalFeeEstimateV2 where
  "GetWithdrawalFeeEstimateV2 network ticker address amount memo =
     post_call (''/v2/withdraw/'' @ PathEscape network @ ''/'' @ PathEscape ticker @ ''/feeEstimate'')
       (Payload (withdraw_body address amount memo))"

definition GetTransfers where "GetTransfers req = post_call ''/v2/transfers'' (or_empty req)"
definition GetCustodyFeeTransfers where "GetCustodyFeeTransfers req = post_call ''/v1/custodyaccountfees'' (or_empty req)"

definition GetStakingBalances where "GetStakingBalances req = post_call ''/v1/balances/staking'' (or_empty req)"
definition Stake where "Stake req = post_call ''/v1/staking/stake'' (sent_as_is req)"
definition Unstake where "Unstake req = post_call ''/v1/staking/unstake'' (sent_as_is req)"
definition GetStakingHistory where "GetStakingHistory req = post_call ''/v1/staking/history'' (or_empty req)"
definition GetStakingRates where "GetStakingRates = public_get ''/v1/staking/rates''"
definition GetStakingRewards where "GetStakingRewards req = post_call ''/v1/staking/rewards'' (or_empty req)"

definition NewClearingOrder where "NewClearingOrder req = post_call ''/v1/clearing/new'' (sent_as_is req)"
definition GetClearingOrder where "GetClearingOrder req = post_call ''/v1/clearing/status'' (sent_as_is req)"
definition CancelClearingOrder where "CancelClearingOrder req = post_call ''/v1/clearing/cancel'' (sent_as_is req)"
definition ConfirmClearingOrder where "ConfirmClearingOrder req = post_call ''/v1/clearing/confirm'' (sent_as_is req)"

definition SendHeartbeat where "SendHeartbeat = post_call ''/v1/heartbeat'' EmptyPayload"

definition GetAccountSummary where "GetAccountSummary req = post_call ''/v1/margin/account'' (or_empty req)"
definition GetInterestRates where "GetInterestRates req = post_call ''/v1/margin/rates'' (or_empty req)"
definition PreviewOrder where "PreviewOrder req = post_call ''/v1/margin/order/preview'' (sent_as_is req)"

definition GetFundingAmount where "GetFundingAmount symbol = public_get (''/v1/fundingamount/'' @ PathEscape symbol)"

definition GetNextFundingTimestamp where
  "GetNextFundingTimestamp symbol = public_get (''/v1/nextfundingtimestamp/'' @ PathEscape symbol)"

definition funding_query :: "int option \<Rightarrow> int option \<Rightarrow> query" where
  "funding_query since to = set_if ''to'' (map_option FormatInt to) (set_if ''since'' (map_option FormatInt since) [])"

definition GetFundingPayments where
  "GetFundingPayments req since to =
     post_call (let path = ''/v1/perpetuals/fundingPayment''; encoded = Values_Encode (funding_query since to)
                in if encoded \<noteq> [] then path @ ''?'' @ encoded else path) (or_empty req)"

end
