(* ===== verification/PredictionCalls.thy ===== *)
theory PredictionCalls
  imports Endpoints
begin

text \<open>
  The prediction-market service: \<open>services/predictions.go\<close> and its companions \<open>predictions_markets.go\<close>,
  \<open>predictions_positions.go\<close>, \<open>predictions_trading.go\<close>, \<open>predictions_combos.go\<close> and
  \<open>predictions_rewards.go\<close>. Discovery uses the public transport, everything about an account the
  authenticated one.
\<close>

section \<open>Terms, categories and events\<close>

definition AcceptTerms where
  "AcceptTerms = post_call ''/v1/prediction-markets/terms/accept'' EmptyPayload"

text \<open>The answer must say that the terms were accepted.\<close>

definition accept_terms_result :: "bool \<Rightarrow> err option" where
  "accept_terms_result success =
     (if \<not> success then Some (EWrap ''gemini predictions: accepting terms was not successful'' [ESent ErrAcceptTermsRequired]) else None)"

definition GetTerms where "GetTerms = public_get ''/v1/prediction-markets/terms''"
definition GetTermsStatus where "GetTermsStatus = get_call ''/v1/prediction-markets/terms/status''"

definition getCategoriesQuery :: "string list option option \<Rightarrow> query" where
  "getCategoriesQuery params = (case params of None \<Rightarrow> [] | Some statuses \<Rightarrow> add_all ''status'' statuses [])"

definition GetCategoriesWithParams where
  "GetCategoriesWithParams params = public_get (withQuery ''/v1/prediction-markets/categories'' (getCategoriesQuery params))"

definition GetCategories where "GetCategories = GetCategoriesWithParams None"

record event_filters =
  ef_Category :: "string list option"
  ef_Sport :: "string list option"
  ef_MarketType :: "string list option"
  ef_Subject :: "string list option"
  ef_Scope :: "string list option"
  ef_Metric :: "string list option"
  ef_Limit :: "int option"
  ef_Offset :: "int option"

record list_events_params = event_filters +
  ef_Status :: "string list option"
  ef_Search :: "string option"

definition addSportsMarketFilters :: "'z event_filters_scheme \<Rightarrow> query \<Rightarrow> query" where
  "addSportsMarketFilters p q =
     add_all ''sports_market_metric'' (ef_Metric p)
       (add_all ''sports_market_scope'' (ef_Scope p)
          (add_all ''sports_market_subject'' (ef_Subject p)
             (add_all ''sports_market_type'' (ef_MarketType p)
                (add_all ''sport'' (ef_Sport p) (add_all ''category'' (ef_Category p) q)))))"

definition listEventsQuery :: "list_events_params option \<Rightarrow> query" where
  "listEventsQuery params =
     (case params of
        None \<Rightarrow> []
      | Some p \<Rightarrow>
          addLimitOffset (ef_Limit p) (ef_Offset p)
            (set_if ''search'' (ef_Search p) (addSportsMarketFilters p (add_all ''status'' (ef_Status p) []))))"

definition GetEvents where
  "GetEvents params = public_get
     (let path = ''/v1/prediction-markets/events''; q = listEventsQuery params
      in if 0 < length q then path @ ''?'' @ Values_Encode q else path)"

definition GetEvent where
  "GetEvent eventTicker = public_get (''/v1/prediction-markets/events/'' @ PathEscape eventTicker)"

definition GetEventStrike where
  "GetEventStrike eventTicker = public_get (''/v1/prediction-markets/events/'' @ PathEscape eventTicker @ ''/strike'')"

definition listSportsEventsQuery :: "event_filters option \<Rightarrow> query" where
  "listSportsEventsQuery params =
     (case params of None \<Rightarrow> [] | Some p \<Rightarrow> addLimitOffset (ef_Limit p) (ef_Offset p) (addSportsMarketFilters p []))"

definition ListNewlyListedEvents where
  "ListNewlyListedEvents params = public_get (withQuery ''/v1/prediction-markets/events/newly-listed'' (listSportsEventsQuery params))"

definition ListRecentlySettledEvents where
  "ListRecentlySettledEvents params = public_get (withQuery ''/v1/prediction-markets/events/recently-settled'' (listSportsEventsQuery params))"

definition ListUpcomingEvents where
  "ListUpcomingEvents params = public_get (withQuery ''/v1/prediction-markets/events/upcoming'' (listSportsEventsQuery params))"

definition GetDailyVolume where
  "GetDailyVolume date = public_get (''/v1/prediction-markets/volume/'' @ PathEscape date)"

definition GetHourlyVolume where
  "GetHourlyVolume date = public_get (''/v1/prediction-markets/volume/'' @ PathEscape date @ ''/hourly'')"

section \<open>Positions\<close>

record positions_params =
  pp_EventTicker :: "string option"
  pp_Limit :: "int option"
  pp_Offset :: "int option"
  pp_Sort :: "string option"

record settled_positions_params = positions_params +
  pp_Search :: "string option"
  pp_Category :: "string option"
  pp_WithCashOuts :: "bool option"

definition positionsQuery :: "string option \<Rightarrow> int option \<Rightarrow> int option \<Rightarrow> string \<Rightarrow> query" where
  "positionsQuery eventTicker limit offset order =
     (let q = addLimitOffset limit offset (set_if ''eventTicker'' eventTicker [])
      in if order \<noteq> [] then Values_Set ''sort'' order q else q)"

definition stringPointerValue :: "string option \<Rightarrow> string" where
  "stringPointerValue value = (case value of None \<Rightarrow> [] | Some s \<Rightarrow> s)"

definition getPositionsQuery :: "positions_params option \<Rightarrow> query" where
  "getPositionsQuery params =
     (case params of
        None \<Rightarrow> []
      | Some p \<Rightarrow> positionsQuery (pp_EventTicker p) (pp_Limit p) (pp_Offset p) (stringPointerValue (pp_Sort p)))"

definition getSettledPositionsQuery :: "settled_positions_params option \<Rightarrow> query" where
  "getSettledPositionsQuery params =
     (case params of
        None \<Rightarrow> []
      | Some p \<Rightarrow>
          set_if ''withCashOuts'' (map_option FormatBool (pp_WithCashOuts p))
            (set_if ''category'' (pp_Category p)
               (set_if ''search'' (pp_Search p)
                  (positionsQuery (pp_EventTicker p) (pp_Limit p) (pp_Offset p) (stringPointerValue (pp_Sort p))))))"

definition GetPositions where
  "GetPositions params = post_call (withQuery ''/v1/prediction-markets/positions'' (getPositionsQuery params)) NoPayload"

definition GetSettledPositions where
  "GetSettledPositions params =
     post_call (withQuery ''/v1/prediction-markets/positions/settled'' (getSettledPositionsQuery params)) NoPayload"

definition GetVolumeMetrics where "GetVolumeMetrics req = post_call ''/v1/prediction-markets/metrics/volume'' (sent_as_is req)"

section \<open>Orders\<close>

definition NewPredictionOrder where "NewPredictionOrder req = post_call ''/v1/prediction-markets/order'' (sent_as_is req)"
definition PlaceOrderBatch where "PlaceOrderBatch req = post_call ''/v1/prediction-markets/order/batch'' (sent_as_is req)"
definition CancelPredictionOrder where "CancelPredictionOrder req = post_call ''/v1/prediction-markets/order/cancel'' (sent_as_is req)"
definition CancelOrderBatch where "CancelOrderBatch req = post_call ''/v1/prediction-markets/order/batch/cancel'' (sent_as_is req)"
definition GetActivePredictionOrders where "GetActivePredictionOrders req = post_call ''/v1/prediction-markets/orders/active'' (sent_as_is req)"
definition GetOrderHistory where "GetOrderHistory req = post_call ''/v1/prediction-markets/orders/history'' (sent_as_is req)"

section \<open>Combos\<close>

record combos_params =
  cp_Status :: "string option"
  cp_ContractId :: "int option"
  cp_InstrumentRegistered :: "bool option"
  cp_Limit :: "int option"
  cp_Offset :: "int option"

definition listCombosQuery :: "combos_params option \<Rightarrow> query" where
  "listCombosQuery params =
     (case params of
        None \<Rightarrow> []
      | Some p \<Rightarrow>
          addLimitOffset (cp_Limit p) (cp_Offset p)
            (set_if ''instrumentRegistered'' (map_option FormatBool (cp_InstrumentRegistered p))
               (set_if ''contractId'' (map_option FormatInt (cp_ContractId p)) (set_if ''status'' (cp_Status p) []))))"

definition ListCombos where "ListCombos params = public_get (withQuery ''/v1/prediction-markets/combos'' (listCombosQuery params))"
definition CreateCombo where "CreateCombo req = post_call ''/v1/prediction-markets/combos'' (sent_as_is req)"

definition GetCombo where
  "GetCombo instrumentSymbol = public_get (''/v1/prediction-markets/combos/'' @ PathEscape instrumentSymbol)"

section \<open>Rewards\<close>

definition addDateValue :: "string \<Rightarrow> date \<Rightarrow> query \<Rightarrow> query" where
  "addDateValue name value q = (if value \<noteq> zero_date then Values_Set name (Date_String value) q else q)"

definition addDate :: "string \<Rightarrow> date option \<Rightarrow> query \<Rightarrow> query" where
  "addDate name value q = (case value of None \<Rightarrow> q | Some d \<Rightarrow> addDateValue name d q)"

definition makerRebateRatesQuery :: "string option option \<Rightarrow> query" where
  "makerRebateRatesQuery params = (case params of Some category \<Rightarrow> set_if ''category'' category [] | None \<Rightarrow> [])"

definition GetMakerRebateRates where
  "GetMakerRebateRates params = public_get (withQuery ''/v1/prediction-markets/maker-rebate/rates'' (makerRebateRatesQuery params))"

definition makerRebatePayoutsQuery :: "(int option \<times> int option) option \<Rightarrow> query" where
  "makerRebatePayoutsQuery params = (case params of Some (limit, offset) \<Rightarrow> addLimitOffset limit offset [] | None \<Rightarrow> [])"

definition ListMakerRebatePayouts where
  "ListMakerRebatePayouts params =
     post_call (withQuery ''/v1/prediction-markets/maker-rebate/payouts'' (makerRebatePayoutsQuery params)) NoPayload"

text \<open>The optional and the required range of dates.\<close>

definition makerRebateSummaryQuery :: "(date option \<times> date option) option \<Rightarrow> query" where
  "makerRebateSummaryQuery params =
     (case params of None \<Rightarrow> [] | Some (since, till) \<Rightarrow> addDate ''dateTo'' till (addDate ''dateFrom'' since []))"

definition liquidityRewardsDailySummaryQuery :: "(date \<times> date) option \<Rightarrow> query" where
  "liquidityRewardsDailySummaryQuery params =
     (case params of None \<Rightarrow> [] | Some (since, till) \<Rightarrow> addDateValue ''dateTo'' till (addDateValue ''dateFrom'' since []))"

definition GetMakerRebateLifetimeSummary where
  "GetMakerRebateLifetimeSummary params =
     get_call (withQuery ''/v1/prediction-markets/maker-rebate/summary/total'' (makerRebateSummaryQuery params))"

definition GetLiquidityRewardsConfig where
  "GetLiquidityRewardsConfig = public_get ''/v1/prediction-markets/liquidity-rewards/config''"

record rewards_events_params =
  re_Category :: "string option"
  re_Search :: "string option"
  re_Sort :: "string option"
  re_Limit :: "int option"
  re_Offset :: "int option"

definition liquidityRewardsEventsQuery :: "rewards_events_params option \<Rightarrow> query" where
  "liquidityRewardsEventsQuery params =
     (case params of
        None \<Rightarrow> []
      | Some p \<Rightarrow>
          addLimitOffset (re_Limit p) (re_Offset p)
            (set_if ''sort'' (re_Sort p) (set_if ''search'' (re_Search p) (set_if ''category'' (re_Category p) []))))"

definition ListLiquidityRewardsEvents where
  "ListLiquidityRewardsEvents params =
     public_get (withQuery ''/v1/prediction-markets/liquidity-rewards/events'' (liquidityRewardsEventsQuery params))"

definition GetLiquidityRewardsDailySummary where
  "GetLiquidityRewardsDailySummary params =
     get_call (withQuery ''/v1/prediction-markets/liquidity-rewards/summary/daily'' (liquidityRewardsDailySummaryQuery params))"

definition GetLiquidityRewardsLifetimeSummary where
  "GetLiquidityRewardsLifetimeSummary params =
     get_call (withQuery ''/v1/prediction-markets/liquidity-rewards/summary/total'' (makerRebateSummaryQuery params))"

end
