(* ===== verification/EndpointSpec.thy ===== *)
theory EndpointSpec
  imports PredictionCalls
begin

text \<open>
  What a server reads of the requests of \<open>Endpoints\<close> and \<open>PredictionCalls\<close>: it cuts the path at the
  question mark and at the slashes and the query at the ampersands and equality signs, and undoes the
  escapes. The text a caller passes as a symbol, a network or a filter arrives in its place of the fixed
  endpoint and adds nothing else. A server, or a proxy before it, may also normalise the path: it drops
  empty segments and those of one dot, and one of two dots with the segment before it. Such texts are
  then excluded, because the code does not escape them (\<open>dot_segment_rerouted\<close>).
\<close>

section \<open>Reading a request\<close>

fun unescape :: "bool \<Rightarrow> string \<Rightarrow> string option" where
  "unescape form [] = Some []"
| "unescape form (c # s) =
     (if c = CHR ''%'' then
        (case s of
           a # b # r \<Rightarrow>
             (case (hex_val a, hex_val b) of
                (Some h, Some l) \<Rightarrow> map_option (\<lambda>t. char_of (16 * h + l) # t) (unescape form r)
              | _ \<Rightarrow> None)
         | _ \<Rightarrow> None)
      else if form \<and> c = CHR ''+'' then map_option (\<lambda>t. CHR '' '' # t) (unescape form s)
      else map_option (\<lambda>t. c # t) (unescape form s))"

fun cut :: "char \<Rightarrow> string \<Rightarrow> string list" where
  "cut sep [] = [[]]"
| "cut sep (c # s) = (if c = sep then [] # cut sep s else (c # hd (cut sep s)) # tl (cut sep s))"

definition read_segments :: "string \<Rightarrow> string option list" where
  "read_segments path = map (unescape False) (tl (cut (CHR ''/'') (takeWhile (\<lambda>c. c \<noteq> CHR ''?'') path)))"

text \<open>The segments a server goes by; \<open>None\<close> when an escape does not decode.\<close>

fun drop_dots :: "string list \<Rightarrow> string list \<Rightarrow> string list" where
  "drop_dots kept [] = rev kept"
| "drop_dots kept (s # ss) =
     (if s = [] \<or> s = ''.'' then drop_dots kept ss else if s = ''..'' then drop_dots (tl kept) ss else drop_dots (s # kept) ss)"

definition server_path :: "bool \<Rightarrow> string \<Rightarrow> string list option" where
  "server_path normalises path =
     (if None \<in> set (read_segments path) then None
      else Some ((if normalises then drop_dots [] else (\<lambda>ss. ss)) (map the (read_segments path))))"

text \<open>A text that a normalising server leaves where it is.\<close>

definition plain_segment :: "string \<Rightarrow> bool" where
  "plain_segment s \<longleftrightarrow> s \<noteq> [] \<and> s \<noteq> ''.'' \<and> s \<noteq> ''..''"

definition read_pair :: "string \<Rightarrow> string option \<times> string option" where
  "read_pair s = (unescape True (takeWhile (\<lambda>c. c \<noteq> CHR ''='') s), unescape True (tl (dropWhile (\<lambda>c. c \<noteq> CHR ''='') s)))"

definition read_query :: "string \<Rightarrow> (string option \<times> string option) list" where
  "read_query path = map read_pair (filter (\<lambda>s. s \<noteq> []) (cut (CHR ''&'') (tl (dropWhile (\<lambda>c. c \<noteq> CHR ''?'') path))))"

text \<open>The values a server finds under a name, in order, and a request as a table: the segments of its path, and
  the values under each name, none under a name that is not in the table. Every pair of the query decodes.\<close>

definition values_read :: "string \<Rightarrow> string \<Rightarrow> string list" where
  "values_read path name = map (the \<circ> snd) (filter (\<lambda>p. fst p = Some name) (read_query path))"

definition server_reads :: "bool \<Rightarrow> 'b service_call \<Rightarrow> string list \<Rightarrow> (string \<times> string list) list \<Rightarrow> bool" where
  "server_reads normalises call segments table \<longleftrightarrow>
     server_path normalises (sv_path call) = Some segments \<and>
     list_all (\<lambda>(name, v). name \<noteq> None \<and> v \<noteq> None) (read_query (sv_path call)) \<and>
     (\<forall>name. values_read (sv_path call) name = (case map_of table name of Some vs \<Rightarrow> vs | None \<Rightarrow> []))"

section \<open>Escaping\<close>

lemma cut_nonempty [simp]: "cut sep s \<noteq> []"
  by (induction s) auto

lemma cut_append: "sep \<notin> set a \<Longrightarrow> cut sep (a @ sep # b) = a # cut sep b"
  by (induction a) auto

lemma cut_plain: "sep \<notin> set a \<Longrightarrow> cut sep a = [a]"
  by (induction a) auto

lemma hex_digits:
  assumes "n < 16"
  shows "hex_val (to_upper_char (hex_digit n)) = Some n"
proof -
  have "[0..<16] = [0, 1, 2, 3, 4, 5, 6, 7, 8, 9, 10, 11, 12, 13, 14, 15::nat]" by code_simp
  moreover have "n \<in> set [0..<16]" using assms by simp
  ultimately have "n \<in> {0, 1, 2, 3, 4, 5, 6, 7, 8, 9, 10, 11, 12, 13, 14, 15}" by simp
  then show ?thesis by (auto simp: hex_val_def hex_digit_def to_upper_char_def)
qed

lemma escaped_char: "map to_upper_char (hex_encode [c]) =
    [to_upper_char (hex_digit (of_char c div 16)), to_upper_char (hex_digit (of_char c mod 16))]"
  by (simp add: Let_def)

lemma of_char_16: "(of_char c :: nat) div 16 < 16" "char_of (16 * (of_char c div 16) + of_char c mod 16 :: nat) = c"
proof -
  have "(of_char c :: nat) < 256" by simp
  then show "(of_char c :: nat) div 16 < 16" by (simp add: less_mult_imp_div_less)
  show "char_of (16 * (of_char c div 16) + of_char c mod 16 :: nat) = c" by simp
qed

lemma unescape_escaped: "unescape form (CHR ''%'' # map to_upper_char (hex_encode [c]) @ r) = map_option (\<lambda>t. c # t) (unescape form r)"
  using of_char_16[of c] by (simp add: escaped_char hex_digits del: hex_encode.simps)

lemma plain_chars: "query_plain c \<Longrightarrow> c \<noteq> CHR ''%'' \<and> c \<noteq> CHR ''+'' \<and> c \<noteq> CHR ''/'' \<and> c \<noteq> CHR ''?'' \<and> c \<noteq> CHR ''&'' \<and> c \<noteq> CHR ''=''"
  by (auto simp: query_plain_def)

lemma path_plain_chars: "path_plain c \<Longrightarrow> c \<noteq> CHR ''%'' \<and> c \<noteq> CHR ''/'' \<and> c \<noteq> CHR ''?''"
  using plain_chars by (auto simp: path_plain_def)

lemma unescape_path [simp]: "unescape False (PathEscape s @ r) = map_option (\<lambda>t. s @ t) (unescape False r)"
proof (induction s)
  case Nil
  show ?case by (simp add: PathEscape_def option.map_ident)
next
  case (Cons c s)
  have step: "PathEscape (c # s) = (if path_plain c then [c] else CHR ''%'' # map to_upper_char (hex_encode [c])) @ PathEscape s"
    by (simp add: PathEscape_def)
  show ?case
  proof (cases "path_plain c")
    case True
    then show ?thesis using Cons path_plain_chars[OF True] by (simp add: step option.map_comp comp_def)
  next
    case False
    then show ?thesis using Cons unescape_escaped[of False c "PathEscape s @ r"]
      by (simp add: step option.map_comp comp_def del: hex_encode.simps)
  qed
qed

lemma unescape_query [simp]: "unescape True (QueryEscape s) = Some s"
proof (induction s)
  case Nil
  show ?case by (simp add: QueryEscape_def)
next
  case (Cons c s)
  have step: "QueryEscape (c # s) = (if query_plain c then [c] else if c = CHR '' '' then ''+''
      else CHR ''%'' # map to_upper_char (hex_encode [c])) @ QueryEscape s"
    by (simp add: QueryEscape_def)
  consider "query_plain c" | "c = CHR '' ''" | "\<not> query_plain c" "c \<noteq> CHR '' ''" by blast
  then show ?case
  proof cases
    case 1
    then show ?thesis using Cons plain_chars[OF 1] by (simp add: step)
  next
    case 2
    then have "QueryEscape (c # s) = ''+'' @ QueryEscape s" unfolding step by (simp add: query_plain_def)
    then show ?thesis using Cons 2 by simp
  next
    case 3
    then show ?thesis using Cons unescape_escaped[of True c "QueryEscape s"] by (simp add: step del: hex_encode.simps)
  qed
qed

lemma escape_set:
  assumes "c \<in> set (CHR ''%'' # map to_upper_char (hex_encode [d]))"
  shows "c = CHR ''%'' \<or> hex_val c \<noteq> None"
proof -
  have "c = CHR ''%'' \<or> c = to_upper_char (hex_digit (of_char d div 16)) \<or> c = to_upper_char (hex_digit (of_char d mod 16))"
    using assms by (auto simp: escaped_char simp del: hex_encode.simps)
  then show ?thesis using hex_digits[OF of_char_16(1)[of d]] hex_digits[of "of_char d mod 16"] by auto
qed

lemma escape_set_safe:
  "c \<in> set (CHR ''%'' # map to_upper_char (hex_encode [d])) \<Longrightarrow> c \<noteq> CHR ''/'' \<and> c \<noteq> CHR ''?'' \<and> c \<noteq> CHR ''&'' \<and> c \<noteq> CHR ''=''"
  using escape_set[of c d] by (auto simp: hex_val_def)

lemma PathEscape_safe:
  assumes "c \<in> set (PathEscape s)"
  shows "c \<noteq> CHR ''/'' \<and> c \<noteq> CHR ''?''"
proof -
  obtain d where "c \<in> set (if path_plain d then [d] else CHR ''%'' # map to_upper_char (hex_encode [d]))"
    using assms unfolding PathEscape_def set_concat set_map by blast
  then show ?thesis using path_plain_chars[of d] escape_set_safe[of c d] by (cases "path_plain d") (simp_all del: hex_encode.simps)
qed

lemma QueryEscape_safe:
  assumes "c \<in> set (QueryEscape s)"
  shows "c \<noteq> CHR ''&'' \<and> c \<noteq> CHR ''=''"
proof -
  obtain d where "c \<in> set (if query_plain d then [d] else if d = CHR '' '' then ''+'' else CHR ''%'' # map to_upper_char (hex_encode [d]))"
    using assms unfolding QueryEscape_def set_concat set_map by blast
  then show ?thesis using plain_chars[of d] escape_set_safe[of c d]
    by (cases "query_plain d"; cases "d = CHR '' ''") (simp_all del: hex_encode.simps)
qed

section \<open>Paths with queries\<close>

lemma cut_join:
  assumes "xs \<noteq> []" "\<forall>x\<in>set xs. sep \<notin> set x"
  shows "cut sep (join [sep] xs) = xs"
  using assms by (induction "[sep]" xs rule: join.induct) (auto simp: cut_plain cut_append)

definition path_of :: "string list \<Rightarrow> string" where
  "path_of segments = concat (map (\<lambda>s. CHR ''/'' # PathEscape s) segments)"

lemma path_of_safe: "CHR ''?'' \<notin> set (path_of segments)"
  using PathEscape_safe by (auto simp: path_of_def)

lemma cut_path: "cut (CHR ''/'') (path_of segments) = [] # map PathEscape segments"
proof (induction segments)
  case Nil
  show ?case by (simp add: path_of_def)
next
  case (Cons s segments)
  have "CHR ''/'' \<notin> set (PathEscape s)" using PathEscape_safe by blast
  moreover have "cut (CHR ''/'') (PathEscape s @ path_of segments) = PathEscape s # tl (cut (CHR ''/'') (path_of segments))"
    if "CHR ''/'' \<notin> set (PathEscape s)" for s
    using that
  proof (cases segments)
    case Nil
    then show ?thesis using that by (simp add: path_of_def cut_plain)
  next
    case (Cons t ts)
    then show ?thesis using cut_append[OF that, of "PathEscape t @ path_of ts"] by (simp add: path_of_def)
  qed
  ultimately show ?case using Cons by (simp add: path_of_def)
qed

lemma Values_Encode_Nil [simp]: "Values_Encode q = [] \<longleftrightarrow> q = []"
proof (cases "sort_by cmp_keys q")
  case Nil
  then have "q = []" using length_sort_by[of cmp_keys q] by simp
  then show ?thesis by (simp add: Values_Encode_def)
next
  case (Cons p ps)
  then have "q \<noteq> []" by auto
  then show ?thesis using Cons by (cases p; cases ps) (simp_all add: Values_Encode_def)
qed

lemma read_pair_encoded: "read_pair (QueryEscape k @ ''='' @ QueryEscape v) = (Some k, Some v)"
proof -
  have "\<forall>c\<in>set (QueryEscape k). c \<noteq> CHR ''=''" using QueryEscape_safe by blast
  then have "takeWhile (\<lambda>c. c \<noteq> CHR ''='') (QueryEscape k @ CHR ''='' # QueryEscape v) = QueryEscape k"
    "dropWhile (\<lambda>c. c \<noteq> CHR ''='') (QueryEscape k @ CHR ''='' # QueryEscape v) = CHR ''='' # QueryEscape v"
    by (simp_all add: takeWhile_tail dropWhile_append3 takeWhile_append2 dropWhile_append2)
  then show ?thesis by (simp add: read_pair_def)
qed

text \<open>The server reads these segments and these pairs, in the order of their keys.\<close>

definition reads :: "'b service_call \<Rightarrow> string list \<Rightarrow> query \<Rightarrow> bool" where
  "reads call segments q \<longleftrightarrow>
     read_segments (sv_path call) = map Some segments \<and>
     read_query (sv_path call) = map (\<lambda>(k, v). (Some k, Some v)) (sort_by cmp_keys q)"

lemma reads_path:
  assumes "sv_path call = withQuery (path_of segments) q"
  shows "reads call segments q"
proof -
  define rest where "rest = (if q = [] then [] else CHR ''?'' # Values_Encode q)"
  have path: "sv_path call = path_of segments @ rest" using assms by (simp add: withQuery_def rest_def)
  have no: "\<forall>c\<in>set (path_of segments). c \<noteq> CHR ''?''" using path_of_safe by blast
  have head: "takeWhile (\<lambda>c. c \<noteq> CHR ''?'') (path_of segments @ rest) = path_of segments"
    "dropWhile (\<lambda>c. c \<noteq> CHR ''?'') (path_of segments @ rest) = rest"
    using no by (simp_all add: rest_def takeWhile_append2 dropWhile_append2)
  have "read_segments (sv_path call) = map Some segments"
    unfolding read_segments_def path head cut_path using unescape_path[where r = "[]"] by simp
  moreover have "read_query (sv_path call) = map (\<lambda>(k, v). (Some k, Some v)) (sort_by cmp_keys q)"
  proof (cases "q = []")
    case True
    then show ?thesis unfolding read_query_def path head by (simp add: rest_def)
  next
    case False
    define pairs where "pairs = map (\<lambda>(k, v). QueryEscape k @ ''='' @ QueryEscape v) (sort_by cmp_keys q)"
    have "sort_by cmp_keys q \<noteq> []" using False length_sort_by[of cmp_keys q] by (metis length_0_conv)
    moreover have "\<forall>x\<in>set pairs. CHR ''&'' \<notin> set x" using QueryEscape_safe by (auto simp: pairs_def)
    ultimately have "cut (CHR ''&'') (tl rest) = pairs"
      using False cut_join[of pairs "CHR ''&''"] by (simp add: rest_def Values_Encode_def pairs_def)
    moreover have "filter (\<lambda>s. s \<noteq> []) pairs = pairs" by (auto simp: pairs_def filter_id_conv)
    moreover have "map read_pair pairs = map (\<lambda>(k, v). (Some k, Some v)) (sort_by cmp_keys q)"
      using read_pair_encoded by (auto simp: pairs_def)
    ultimately show ?thesis unfolding read_query_def path head by simp
  qed
  ultimately show ?thesis by (simp add: reads_def)
qed

definition fixed_names :: "string list" where
  "fixed_names = [''v1'', ''v2'', ''symbols'', ''details'', ''pubticker'', ''ticker'', ''book'', ''trades'', ''candles'', ''notionalbalances'',
     ''account'', ''transfer'', ''deposit'', ''newAddress'', ''approvedAddresses'', ''request'', ''remove'', ''withdraw'', ''feeEstimate'',
     ''fundingamount'', ''nextfundingtimestamp'', ''perpetuals'', ''fundingPayment'', ''prediction-markets'', ''categories'', ''events'',
     ''strike'', ''newly-listed'', ''recently-settled'', ''upcoming'', ''volume'', ''hourly'', ''positions'', ''settled'', ''combos'',
     ''maker-rebate'', ''rates'', ''payouts'', ''liquidity-rewards'', ''summary'', ''total'', ''daily'']"

lemma fixed_escaped: "list_all (\<lambda>s. PathEscape s = s) fixed_names"
  by code_simp

lemma fixed_simps [simp]:
  shows "PathEscape ''v1'' = ''v1''" "PathEscape ''v2'' = ''v2''" "PathEscape ''symbols'' = ''symbols''"
    "PathEscape ''details'' = ''details''" "PathEscape ''pubticker'' = ''pubticker''" "PathEscape ''ticker'' = ''ticker''"
    "PathEscape ''book'' = ''book''" "PathEscape ''trades'' = ''trades''" "PathEscape ''candles'' = ''candles''"
    "PathEscape ''notionalbalances'' = ''notionalbalances''" "PathEscape ''account'' = ''account''" "PathEscape ''transfer'' = ''transfer''"
    "PathEscape ''deposit'' = ''deposit''" "PathEscape ''newAddress'' = ''newAddress''" "PathEscape ''approvedAddresses'' = ''approvedAddresses''"
    "PathEscape ''request'' = ''request''" "PathEscape ''remove'' = ''remove''" "PathEscape ''withdraw'' = ''withdraw''"
    "PathEscape ''feeEstimate'' = ''feeEstimate''" "PathEscape ''fundingamount'' = ''fundingamount''" "PathEscape ''nextfundingtimestamp'' = ''nextfundingtimestamp''"
    "PathEscape ''perpetuals'' = ''perpetuals''" "PathEscape ''fundingPayment'' = ''fundingPayment''" "PathEscape ''prediction-markets'' = ''prediction-markets''"
    "PathEscape ''categories'' = ''categories''" "PathEscape ''events'' = ''events''" "PathEscape ''strike'' = ''strike''"
    "PathEscape ''newly-listed'' = ''newly-listed''" "PathEscape ''recently-settled'' = ''recently-settled''" "PathEscape ''upcoming'' = ''upcoming''"
    "PathEscape ''volume'' = ''volume''" "PathEscape ''hourly'' = ''hourly''" "PathEscape ''positions'' = ''positions''"
    "PathEscape ''settled'' = ''settled''" "PathEscape ''combos'' = ''combos''" "PathEscape ''maker-rebate'' = ''maker-rebate''"
    "PathEscape ''rates'' = ''rates''" "PathEscape ''payouts'' = ''payouts''" "PathEscape ''liquidity-rewards'' = ''liquidity-rewards''"
    "PathEscape ''summary'' = ''summary''" "PathEscape ''total'' = ''total''" "PathEscape ''daily'' = ''daily''"
  using fixed_escaped by (simp_all add: fixed_names_def)

lemma no_query: "withQuery path [] = path"
  by (simp add: withQuery_def)

lemma query_by_hand:
  "(let path = p; encoded = Values_Encode q in if encoded \<noteq> [] then path @ ''?'' @ encoded else path) = withQuery p q"
  "(let path = p; q' = q in if 0 < length q' then path @ ''?'' @ Values_Encode q' else path) = withQuery p q"
  by (simp_all add: withQuery_def)

section \<open>The values under a name\<close>

definition vals :: "string \<Rightarrow> query \<Rightarrow> string list" where
  "vals name q = map snd (filter (\<lambda>p. fst p = name) q)"

text \<open>Sorting by name keeps the values of a name in order.\<close>

lemma string_le_refl: "string_le s s"
  by (induction s) auto

lemma insert_keys: "filter (\<lambda>p. fst p = name) (insert_by cmp_keys x q) = filter (\<lambda>p. fst p = name) (x # q)"
  by (induction q) (auto simp: cmp_keys_def string_le_refl split: if_splits)

lemma vals_sorted: "vals name (sort_by cmp_keys q) = vals name q"
proof -
  have "filter (\<lambda>p. fst p = name) (sort_by cmp_keys q) = filter (\<lambda>p. fst p = name) q"
    by (induction q) (simp_all add: insert_keys)
  then show ?thesis by (simp add: vals_def)
qed

lemma vals_add:
  "vals name [] = []"
  "vals name (Values_Add k v q) = vals name q @ (if name = k then [v] else [])"
  "vals name (Values_Set k v q) = (if name = k then [v] else vals name q)"
  by (auto simp: vals_def Values_Add_def Values_Set_def filter_empty_conv intro!: arg_cong[where f = "map snd"] filter_cong)

text \<open>What an optional filter comes to.\<close>

definition value_one :: "string option \<Rightarrow> string list" where "value_one v = (case v of None \<Rightarrow> [] | Some x \<Rightarrow> [x])"
definition value_many :: "string list option \<Rightarrow> string list" where "value_many v = (case v of None \<Rightarrow> [] | Some xs \<Rightarrow> xs)"
definition value_number :: "int option \<Rightarrow> string list" where "value_number v = (case v of None \<Rightarrow> [] | Some n \<Rightarrow> [FormatInt n])"
definition value_flag :: "bool option \<Rightarrow> string list" where "value_flag v = (case v of None \<Rightarrow> [] | Some b \<Rightarrow> [if b then ''true'' else ''false''])"
definition value_day :: "date option \<Rightarrow> string list" where
  "value_day v = (case v of None \<Rightarrow> [] | Some d \<Rightarrow> if d = zero_date then [] else [Date_String d])"

lemmas filter_defs = value_one_def value_many_def value_number_def value_flag_def value_day_def

lemma vals_all: "vals name (add_all k vs q) = vals name q @ (if name = k then value_many vs else [])"
proof -
  have "vals name (foldl (\<lambda>q v. Values_Add k v q) q xs) = vals name q @ (if name = k then xs else [])" for xs
    by (induction xs arbitrary: q) (simp_all add: vals_add)
  then show ?thesis by (simp add: add_all_def value_many_def split: option.split)
qed

lemma vals_if: "vals name (set_if k v q) = (if name = k \<and> v \<noteq> None then value_one v else vals name q)"
  by (cases v) (simp_all add: set_if_def value_one_def vals_add)

lemma vals_date: "vals name (addDateValue k d q) = (if name = k \<and> d \<noteq> zero_date then [Date_String d] else vals name q)"
  by (simp add: addDateValue_def vals_add)

lemmas vals_simps = vals_add vals_all vals_if vals_date

lemma drop_dots_plain: "list_all plain_segment ss \<Longrightarrow> drop_dots kept ss = rev kept @ ss"
  by (induction ss arbitrary: kept) (simp_all add: plain_segment_def)

lemma server_reads_call:
  assumes "sv_path call = withQuery (path_of segments) q" "normalises \<longrightarrow> list_all plain_segment segments"
    "\<And>name. vals name q = (case map_of table name of Some vs \<Rightarrow> vs | None \<Rightarrow> [])"
  shows "server_reads normalises call segments table"
proof -
  note r = reads_path[OF assms(1), unfolded reads_def]
  have "server_path normalises (sv_path call) = Some segments"
    using r assms(2) by (auto simp: server_path_def drop_dots_plain comp_def)
  moreover have "values_read (sv_path call) name = vals name q" for name
    by (simp add: values_read_def r vals_def[symmetric] filter_map comp_def case_prod_beta flip: vals_sorted[of name q])
  moreover have "list_all (\<lambda>(name, v). name \<noteq> None \<and> v \<noteq> None) (read_query (sv_path call))"
    by (auto simp: r list_all_iff)
  ultimately show ?thesis using assms(3) by (simp add: server_reads_def)
qed

section \<open>What the exchange reads\<close>

text \<open>C36: The exchange reads the fixed endpoint with exactly the texts the caller passed as path segments, and no
  query but the limit of trades: nothing passed for a symbol, a currency, a network, a ticker or a date can add a
  segment, end the path or start a query. The server cuts the path before it undoes the escapes; when it, or a
  proxy, also normalises paths, the texts passed must not be empty, one dot or two dots.\<close>

theorem endpoint_paths_confined:
  assumes "normalises \<longrightarrow> plain_segment a" "normalises \<longrightarrow> plain_segment b"
  shows "server_reads normalises (GetSymbolDetails a) [''v1'', ''symbols'', ''details'', a] [] \<and>
   server_reads normalises (GetTicker a) [''v1'', ''pubticker'', a] [] \<and>
   server_reads normalises (GetTickerV2 a) [''v2'', ''ticker'', a] [] \<and>
   server_reads normalises (GetCandles a b) [''v2'', ''candles'', a, b] [] \<and>
   server_reads normalises (GetTrades a n) [''v1'', ''trades'', a] [(''limit_trades'', if 0 < n then [FormatInt n] else [])] \<and>
   server_reads normalises (GetNotionalBalances a r1) [''v1'', ''notionalbalances'', a] [] \<and>
   server_reads normalises (TransferBetweenAccounts a r2) [''v1'', ''account'', ''transfer'', a] [] \<and>
   server_reads normalises (GetDepositAddress a r3) [''v1'', ''deposit'', a, ''newAddress''] [] \<and>
   server_reads normalises (ListApprovedAddresses a r4) [''v1'', ''approvedAddresses'', ''account'', a] [] \<and>
   server_reads normalises (RequestApprovedAddress a r5) [''v1'', ''approvedAddresses'', a, ''request''] [] \<and>
   server_reads normalises (RemoveApprovedAddress a r6) [''v1'', ''approvedAddresses'', a, ''remove''] [] \<and>
   server_reads normalises (WithdrawCryptoV2 a b address amount memo) [''v2'', ''withdraw'', a, b] [] \<and>
   server_reads normalises (GetWithdrawalFeeEstimateV2 a b address amount memo) [''v2'', ''withdraw'', a, b, ''feeEstimate''] [] \<and>
   server_reads normalises (GetFundingAmount a) [''v1'', ''fundingamount'', a] [] \<and>
   server_reads normalises (GetNextFundingTimestamp a) [''v1'', ''nextfundingtimestamp'', a] [] \<and>
   server_reads normalises (GetEvent a) [''v1'', ''prediction-markets'', ''events'', a] [] \<and>
   server_reads normalises (GetEventStrike a) [''v1'', ''prediction-markets'', ''events'', a, ''strike''] [] \<and>
   server_reads normalises (GetDailyVolume a) [''v1'', ''prediction-markets'', ''volume'', a] [] \<and>
   server_reads normalises (GetHourlyVolume a) [''v1'', ''prediction-markets'', ''volume'', a, ''hourly''] [] \<and>
   server_reads normalises (GetCombo a) [''v1'', ''prediction-markets'', ''combos'', a] []"
proof -
  note ops = GetSymbolDetails_def GetTicker_def GetTickerV2_def GetCandles_def GetNotionalBalances_def TransferBetweenAccounts_def
    GetDepositAddress_def ListApprovedAddresses_def RequestApprovedAddress_def RemoveApprovedAddress_def WithdrawCryptoV2_def
    GetWithdrawalFeeEstimateV2_def GetFundingAmount_def GetNextFundingTimestamp_def GetEvent_def GetEventStrike_def
    GetDailyVolume_def GetHourlyVolume_def GetCombo_def
  note calls = get_call_def public_get_def post_call_def
  have fixed: "plain_segment s \<longleftrightarrow> s \<noteq> [] \<and> s \<noteq> ''.'' \<and> s \<noteq> ''..''" for s by (simp add: plain_segment_def)
  have trades: "sv_path (GetTrades a n) = withQuery (path_of [''v1'', ''trades'', a]) (if 0 < n then [(''limit_trades'', FormatInt n)] else [])"
    by (simp add: GetTrades_def calls no_query path_of_def)
  have "server_reads normalises (GetTrades a n) [''v1'', ''trades'', a] [(''limit_trades'', if 0 < n then [FormatInt n] else [])]"
    by (rule server_reads_call[OF trades]) (use assms in \<open>auto simp: fixed vals_def\<close>)
  moreover have "vals name [] = (case map_of [] name of Some vs \<Rightarrow> vs | None \<Rightarrow> [])" for name by (simp add: vals_add)
  note none = server_reads_call[where q = "[]" and table = "[]", OF _ _ this]
  ultimately show ?thesis
    unfolding ops
    by (intro conjI) (assumption | rule none, simp add: calls no_query path_of_def, (use assms in \<open>simp add: fixed\<close>))+
qed

theorem endpoint_paths_confined_witness:
  "server_reads True (WithdrawCryptoV2 ''a/b?c'' ''usd'' [] [] []) [''v2'', ''withdraw'', ''a/b?c'', ''usd''] []"
proof -
  have "True \<longrightarrow> plain_segment ''a/b?c''" "True \<longrightarrow> plain_segment ''usd''" by (simp_all add: plain_segment_def)
  then show ?thesis using endpoint_paths_confined by blast
qed

section \<open>The filters of the listings\<close>

text \<open>For each listing, the names the exchange knows and the values under each, as lists: one value for a text, a
  number in decimal, a flag or a day, every value of a list in order, and none for a filter that is not given.\<close>

type_synonym filter_table = "(string \<times> string list) list"

definition given :: "'p option \<Rightarrow> ('p \<Rightarrow> filter_table) \<Rightarrow> filter_table" where
  "given params table = (case params of None \<Rightarrow> [] | Some p \<Rightarrow> table p)"

definition page_table :: "int option \<Rightarrow> int option \<Rightarrow> filter_table" where
  "page_table limit offset = [(''limit'', value_number limit), (''offset'', value_number offset)]"

definition book_table :: "int \<Rightarrow> int \<Rightarrow> filter_table" where
  "book_table bids asks = [(''limit_bids'', if bids < 0 then [] else [FormatInt bids]), (''limit_asks'', if asks < 0 then [] else [FormatInt asks])]"

definition trades_table :: "('f \<Rightarrow> string) \<Rightarrow> 'f trades_params \<Rightarrow> filter_table" where
  "trades_table format_float p =
     [(''timestamp'', value_one (timestampQueryValue (tp_Timestamp p))), (''since_tid'', value_number (tp_SinceTid p)),
      (''limit_trades'', case tp_LimitTrades p of None \<Rightarrow> [] | Some f \<Rightarrow> [format_float f]), (''include_breaks'', value_flag (tp_IncludeBreaks p))]"

definition sports_table :: "'z event_filters_scheme \<Rightarrow> filter_table" where
  "sports_table p =
     [(''category'', value_many (ef_Category p)), (''sport'', value_many (ef_Sport p)), (''sports_market_type'', value_many (ef_MarketType p)),
      (''sports_market_subject'', value_many (ef_Subject p)), (''sports_market_scope'', value_many (ef_Scope p)),
      (''sports_market_metric'', value_many (ef_Metric p))] @ page_table (ef_Limit p) (ef_Offset p)"

definition events_table :: "list_events_params \<Rightarrow> filter_table" where
  "events_table p = [(''status'', value_many (ef_Status p)), (''search'', value_one (ef_Search p))] @ sports_table p"

definition positions_table :: "'z positions_params_scheme \<Rightarrow> filter_table" where
  "positions_table p =
     [(''eventTicker'', value_one (pp_EventTicker p)), (''sort'', if pp_Sort p = Some [] then [] else value_one (pp_Sort p))] @
     page_table (pp_Limit p) (pp_Offset p)"

definition settled_table :: "settled_positions_params \<Rightarrow> filter_table" where
  "settled_table p =
     [(''search'', value_one (pp_Search p)), (''category'', value_one (pp_Category p)), (''withCashOuts'', value_flag (pp_WithCashOuts p))] @ positions_table p"

definition combos_table :: "combos_params \<Rightarrow> filter_table" where
  "combos_table p =
     [(''status'', value_one (cp_Status p)), (''contractId'', value_number (cp_ContractId p)), (''instrumentRegistered'', value_flag (cp_InstrumentRegistered p))] @
     page_table (cp_Limit p) (cp_Offset p)"

definition rewards_table :: "rewards_events_params \<Rightarrow> filter_table" where
  "rewards_table p =
     [(''category'', value_one (re_Category p)), (''search'', value_one (re_Search p)), (''sort'', value_one (re_Sort p))] @ page_table (re_Limit p) (re_Offset p)"

definition days_table :: "date option \<Rightarrow> date option \<Rightarrow> filter_table" where
  "days_table since till = [(''dateFrom'', value_day since), (''dateTo'', value_day till)]"

lemmas table_defs = given_def page_table_def book_table_def trades_table_def sports_table_def events_table_def positions_table_def
  settled_table_def combos_table_def rewards_table_def days_table_def filter_defs

definition tabled :: "query \<Rightarrow> filter_table \<Rightarrow> bool" where
  "tabled q table \<longleftrightarrow> (\<forall>name. vals name q = (case map_of table name of Some vs \<Rightarrow> vs | None \<Rightarrow> []))"

lemma tabled_book: "tabled (book_query bids asks) (book_table bids asks)"
  by (auto simp: tabled_def book_query_def table_defs vals_simps Let_def)

lemma tabled_trades: "tabled (listTradesQuery fmt params) (given params (trades_table fmt))"
  by (cases params) (auto simp: tabled_def listTradesQuery_def table_defs vals_simps FormatBool_def split: option.splits)

lemma tabled_funding: "tabled (funding_query since to) [(''since'', value_number since), (''to'', value_number to)]"
  by (auto simp: tabled_def funding_query_def table_defs vals_simps split: option.splits)

lemma tabled_events: "tabled (listEventsQuery params) (given params events_table)"
  by (cases params) (auto simp: tabled_def listEventsQuery_def addLimitOffset_def addSportsMarketFilters_def table_defs vals_simps split: option.splits)

lemma tabled_sports: "tabled (listSportsEventsQuery params) (given params sports_table)"
  by (cases params) (auto simp: tabled_def listSportsEventsQuery_def addLimitOffset_def addSportsMarketFilters_def table_defs vals_simps split: option.splits)

lemma tabled_categories: "tabled (getCategoriesQuery params) (given params (\<lambda>statuses. [(''status'', value_many statuses)]))"
  by (cases params) (auto simp: tabled_def getCategoriesQuery_def table_defs vals_simps split: option.splits)

lemmas positions_defs = positionsQuery_def addLimitOffset_def stringPointerValue_def Let_def

lemma tabled_positions: "tabled (getPositionsQuery params) (given params positions_table)"
  by (cases params) (auto simp: tabled_def getPositionsQuery_def positions_defs table_defs vals_simps split: option.splits)

lemma tabled_settled: "tabled (getSettledPositionsQuery params) (given params settled_table)"
  by (cases params) (auto simp: tabled_def getSettledPositionsQuery_def FormatBool_def positions_defs table_defs vals_simps split: option.splits)

lemma tabled_combos: "tabled (listCombosQuery params) (given params combos_table)"
  by (cases params) (auto simp: tabled_def listCombosQuery_def FormatBool_def addLimitOffset_def table_defs vals_simps split: option.splits)

lemma tabled_rewards: "tabled (liquidityRewardsEventsQuery params) (given params rewards_table)"
  by (cases params) (auto simp: tabled_def liquidityRewardsEventsQuery_def addLimitOffset_def table_defs vals_simps split: option.splits)

lemma tabled_rest:
  "tabled (makerRebateRatesQuery rates) (given rates (\<lambda>category. [(''category'', value_one category)]))"
  "tabled (makerRebatePayoutsQuery payouts) (given payouts (\<lambda>(limit, offset). page_table limit offset))"
  "tabled (makerRebateSummaryQuery days) (given days (\<lambda>(since, till). days_table since till))"
  "tabled (liquidityRewardsDailySummaryQuery both) (given both (\<lambda>(since, till). days_table (Some since) (Some till)))"
  by (auto simp: tabled_def makerRebateRatesQuery_def makerRebatePayoutsQuery_def makerRebateSummaryQuery_def addDate_def
      liquidityRewardsDailySummaryQuery_def addLimitOffset_def table_defs vals_simps split: option.splits)

text \<open>C37: The filters of a listing arrive as they were given: the exchange reads the listing's endpoint and, under each
  name of the listing's table, exactly the values given, whatever characters they contain, nothing under the name of
  a filter that was not given, and no other name. When the server normalises paths, the symbol of a book or of
  trades must not be empty, one dot or two dots.\<close>

theorem endpoint_queries_faithful:
  assumes "normalises \<longrightarrow> plain_segment a"
  shows "server_reads normalises (GetOrderBook a bids asks) [''v1'', ''book'', a] (book_table bids asks) \<and>
   server_reads normalises (GetTradesWithParams fmt a tp) [''v1'', ''trades'', a] (given tp (trades_table fmt)) \<and>
   server_reads normalises (GetFundingPayments r since to) [''v1'', ''perpetuals'', ''fundingPayment''] [(''since'', value_number since), (''to'', value_number to)] \<and>
   server_reads normalises (GetEvents ep) [''v1'', ''prediction-markets'', ''events''] (given ep events_table) \<and>
   server_reads normalises (ListNewlyListedEvents fp) [''v1'', ''prediction-markets'', ''events'', ''newly-listed''] (given fp sports_table) \<and>
   server_reads normalises (ListRecentlySettledEvents fp) [''v1'', ''prediction-markets'', ''events'', ''recently-settled''] (given fp sports_table) \<and>
   server_reads normalises (ListUpcomingEvents fp) [''v1'', ''prediction-markets'', ''events'', ''upcoming''] (given fp sports_table) \<and>
   server_reads normalises (GetCategoriesWithParams st) [''v1'', ''prediction-markets'', ''categories''] (given st (\<lambda>statuses. [(''status'', value_many statuses)])) \<and>
   server_reads normalises (GetPositions pp) [''v1'', ''prediction-markets'', ''positions''] (given pp positions_table) \<and>
   server_reads normalises (GetSettledPositions sp) [''v1'', ''prediction-markets'', ''positions'', ''settled''] (given sp settled_table) \<and>
   server_reads normalises (ListCombos cp) [''v1'', ''prediction-markets'', ''combos''] (given cp combos_table) \<and>
   server_reads normalises (GetMakerRebateRates cat) [''v1'', ''prediction-markets'', ''maker-rebate'', ''rates''] (given cat (\<lambda>category. [(''category'', value_one category)])) \<and>
   server_reads normalises (ListMakerRebatePayouts lo) [''v1'', ''prediction-markets'', ''maker-rebate'', ''payouts''] (given lo (\<lambda>(limit, offset). page_table limit offset)) \<and>
   server_reads normalises (GetMakerRebateLifetimeSummary ds) [''v1'', ''prediction-markets'', ''maker-rebate'', ''summary'', ''total''] (given ds (\<lambda>(since, till). days_table since till)) \<and>
   server_reads normalises (ListLiquidityRewardsEvents le) [''v1'', ''prediction-markets'', ''liquidity-rewards'', ''events''] (given le rewards_table) \<and>
   server_reads normalises (GetLiquidityRewardsDailySummary dd) [''v1'', ''prediction-markets'', ''liquidity-rewards'', ''summary'', ''daily'']
     (given dd (\<lambda>(since, till). days_table (Some since) (Some till))) \<and>
   server_reads normalises (GetLiquidityRewardsLifetimeSummary ds) [''v1'', ''prediction-markets'', ''liquidity-rewards'', ''summary'', ''total''] (given ds (\<lambda>(since, till). days_table since till))"
proof -
  note ops = GetOrderBook_def GetTradesWithParams_def GetFundingPayments_def GetEvents_def ListNewlyListedEvents_def
    ListRecentlySettledEvents_def ListUpcomingEvents_def GetCategoriesWithParams_def GetPositions_def GetSettledPositions_def
    ListCombos_def GetMakerRebateRates_def ListMakerRebatePayouts_def GetMakerRebateLifetimeSummary_def
    ListLiquidityRewardsEvents_def GetLiquidityRewardsDailySummary_def GetLiquidityRewardsLifetimeSummary_def
  note calls = get_call_def public_get_def post_call_def
  note tables = tabled_book tabled_trades tabled_funding tabled_events tabled_sports tabled_categories tabled_positions tabled_settled
    tabled_combos tabled_rest tabled_rewards
  have call: "server_reads normalises call segments table"
    if "sv_path call = withQuery (path_of segments) q" "tabled q table" "normalises \<longrightarrow> list_all plain_segment segments"
    for call :: "'z service_call" and segments q table
    using server_reads_call[OF that(1,3)] that(2) by (simp add: tabled_def)
  show ?thesis
    unfolding ops query_by_hand
    by (intro conjI)
      (rule call, simp add: calls path_of_def, rule tables, (use assms in \<open>simp add: plain_segment_def\<close>))+
qed

definition hostile_positions :: settled_positions_params where
  "hostile_positions = \<lparr>pp_EventTicker = Some ''A&limit=9'', pp_Limit = Some 5, pp_Offset = None, pp_Sort = Some [], pp_Search = Some ''b=c d'',
     pp_Category = None, pp_WithCashOuts = Some True\<rparr>"

theorem endpoint_queries_faithful_witness:
  "server_reads True (GetSettledPositions (Some hostile_positions)) [''v1'', ''prediction-markets'', ''positions'', ''settled'']
     (settled_table hostile_positions)"
proof -
  have "True \<longrightarrow> plain_segment ''btcusd''" by (simp add: plain_segment_def)
  then have "server_reads True (GetSettledPositions (Some hostile_positions)) [''v1'', ''prediction-markets'', ''positions'', ''settled'']
     (given (Some hostile_positions) settled_table)"
    using endpoint_queries_faithful by blast
  then show ?thesis by (simp add: given_def)
qed

text \<open>Escaping leaves dots alone: a network of two dots makes a dot segment, and a proxy or server that normalises
  paths removes it together with the segment before it and reads another endpoint.\<close>

theorem dot_segment_rerouted:
  "server_path True (sv_path (RequestApprovedAddress ''..'' (None :: unit option))) = Some [''v1'', ''request''] \<and>
   server_path True (sv_path (GetTicker ''..'' :: unit service_call)) = Some [''v1'']"
proof -
  have "PathEscape ''..'' = ''..''" by code_simp
  then have p: "sv_path (GetTicker ''..'' :: unit service_call) = withQuery (path_of [''v1'', ''pubticker'', ''..'']) []"
    "sv_path (RequestApprovedAddress ''..'' (None :: unit option)) = withQuery (path_of [''v1'', ''approvedAddresses'', ''..'', ''request'']) []"
    by (simp_all add: GetTicker_def RequestApprovedAddress_def get_call_def post_call_def no_query path_of_def)
  show ?thesis
    using reads_path[OF p(1), unfolded reads_def] reads_path[OF p(2), unfolded reads_def] by (simp add: server_path_def)
qed

end
