(* ===== verification/Facade.thy ===== *)
theory Facade
  imports OAuth Transport
begin

text \<open>
  The root package: \<open>environment.go\<close>, \<open>options.go\<close> and \<open>client.go\<close>, how options become the
  configuration of the two transports and the two websocket clients, with the configuration of the
  websocket client (\<open>websocket/client.go\<close>, the options and \<open>NewClient\<close>). Parsing and printing URLs and
  what an authentication strategy does are arguments; hooks, dialers and a caller's HTTP clients are
  identified by numbers. An HTTP client of the SDK is fresh. Loggers are left out.
\<close>

section \<open>Environments\<close>

record endpoint_url = url +
  eu_RawQuery :: string
  eu_ForceQuery :: bool
  eu_Fragment :: string

record environment_endpoints =
  ep_REST :: string
  ep_WebSocket :: string
  ep_OAuthAuthorization :: string
  ep_OAuthToken :: string

definition Production :: string where "Production = ''production''"
definition Sandbox :: string where "Sandbox = ''sandbox''"

definition EndpointsFor :: "string \<Rightarrow> environment_endpoints option" where
  "EndpointsFor env =
     (if env = Production then Some \<lparr>ep_REST = ''https://api.gemini.com'', ep_WebSocket = ''wss://ws.gemini.com'',
        ep_OAuthAuthorization = ''https://exchange.gemini.com/auth'', ep_OAuthToken = ''https://exchange.gemini.com/auth/token''\<rparr>
      else if env = Sandbox then Some \<lparr>ep_REST = ''https://api.sandbox.gemini.com'', ep_WebSocket = ''wss://ws.sandbox.gemini.com'',
        ep_OAuthAuthorization = ''https://exchange.sandbox.gemini.com/auth'',
        ep_OAuthToken = ''https://exchange.sandbox.gemini.com/auth/token''\<rparr>
      else None)"

definition ErrInvalidEnvironment :: err where "ErrInvalidEnvironment = EMsg ''gemini: invalid environment''"
definition ErrInvalidEndpointURL :: err where "ErrInvalidEndpointURL = EMsg ''gemini: invalid endpoint URL''"
definition ErrInvalidURL :: err where "ErrInvalidURL = EMsg ''gemini websocket: invalid endpoint URL''"
definition ErrInvalidSnapshot :: err where "ErrInvalidSnapshot = EMsg ''gemini websocket: invalid snapshot value''"

section \<open>The websocket client's configuration\<close>

text \<open>A strategy of the package \<open>auth\<close>, or a caller's own, with what its \<open>Validate\<close> answers if it has one.\<close>

datatype 'x strategy = HmacStrategy HMAC | BearerStrategy token_source | OtherStrategy "err option" 'x

definition strategy_error :: "'x strategy \<Rightarrow> err option" where
  "strategy_error s = (case s of HmacStrategy h \<Rightarrow> HMAC_Validate h | BearerStrategy src \<Rightarrow> Bearer_Validate src | OtherStrategy e _ \<Rightarrow> e)"

record 'x ws_config =
  wcf_url :: string
  wcf_auth :: "'x strategy option"
  wcf_configErr :: "err option"
  wcf_dialer :: "nat option"
  wcf_autoReconnect :: bool
  wcf_maxReconnects :: int
  wcf_maxMessageSize :: int
  wcf_livenessInterval :: int
  wcf_livenessTimeout :: int
  wcf_snapshotValue :: int
  wcf_snapshotMode :: bool
  wcf_isolateSnapshots :: bool
  wcf_isolatePartialSnapshots :: bool
  wcf_privateOnly :: bool

record facade_env =
  fe_parse :: "string \<Rightarrow> endpoint_url option"
  fe_print :: "endpoint_url \<Rightarrow> string"
  fe_query :: "string \<Rightarrow> (string \<times> string) list"

type_synonym 'x ws_option = "'x ws_config \<Rightarrow> 'x ws_config"

definition DefaultMaxMessageSize :: int where "DefaultMaxMessageSize = 1048576"

definition WithConfigurationError :: "err option \<Rightarrow> 'x ws_option" where
  "WithConfigurationError e c = c\<lparr>wcf_configErr := e\<rparr>"

definition WithDialer :: "nat option \<Rightarrow> 'x ws_option" where "WithDialer d c = c\<lparr>wcf_dialer := d\<rparr>"
definition WithAuth_ws :: "'x strategy option \<Rightarrow> 'x ws_option" where "WithAuth_ws a c = c\<lparr>wcf_auth := a\<rparr>"
definition WithAutoReconnect :: "bool \<Rightarrow> 'x ws_option" where "WithAutoReconnect b c = c\<lparr>wcf_autoReconnect := b\<rparr>"
definition WithMaxReconnects :: "int \<Rightarrow> 'x ws_option" where "WithMaxReconnects n c = c\<lparr>wcf_maxReconnects := n\<rparr>"
definition WithMaxMessageSize :: "int \<Rightarrow> 'x ws_option" where "WithMaxMessageSize n c = c\<lparr>wcf_maxMessageSize := n\<rparr>"

definition WithLiveness :: "int \<Rightarrow> int \<Rightarrow> 'x ws_option" where
  "WithLiveness interval timeout c =
     (if interval \<le> 0 then c\<lparr>wcf_livenessInterval := 0, wcf_livenessTimeout := 0\<rparr>
      else c\<lparr>wcf_livenessInterval := interval, wcf_livenessTimeout := (if timeout \<le> 0 then interval else timeout)\<rparr>)"

definition WithSnapshot :: "facade_env \<Rightarrow> int \<Rightarrow> 'x ws_option" where
  "WithSnapshot env snapshot c =
     (if snapshot < - 1 then
        (if wcf_configErr c = None then c\<lparr>wcf_configErr := Some (EWrap ''want -1, 0, or a positive level'' [ErrInvalidSnapshot])\<rparr> else c)
      else case fe_parse env (wcf_url c) of
        None \<Rightarrow> c
      | Some parsed \<Rightarrow>
          let query = fe_query env (eu_RawQuery parsed);
              query' = (if snapshot = 0 then filter (\<lambda>p. fst p \<noteq> ''snapshot'') query
                        else Values_Set ''snapshot'' (FormatInt snapshot) query)
          in c\<lparr>wcf_url := fe_print env (parsed\<lparr>eu_RawQuery := Values_Encode query'\<rparr>),
               wcf_snapshotValue := snapshot, wcf_snapshotMode := (snapshot \<noteq> 0)\<rparr>)"

definition WithIsolatedSnapshots :: "'x ws_option" where
  "WithIsolatedSnapshots c = c\<lparr>wcf_isolateSnapshots := True, wcf_isolatePartialSnapshots := True\<rparr>"

definition WithIsolatedPartialSnapshots :: "'x ws_option" where
  "WithIsolatedPartialSnapshots c = c\<lparr>wcf_isolatePartialSnapshots := True\<rparr>"

definition validateWebSocketURL :: "facade_env \<Rightarrow> string \<Rightarrow> err option" where
  "validateWebSocketURL env endpoint =
     (case fe_parse env endpoint of
        None \<Rightarrow> Some (EWrap ''parse'' [ErrInvalidURL])
      | Some parsed \<Rightarrow>
          if url_host parsed = [] \<or> \<not> EqualFold (url_scheme parsed) ''wss''
          then Some (EWrap ''expected absolute URL with a wss scheme'' [ErrInvalidURL])
          else if url_user parsed \<noteq> None \<or> eu_Fragment parsed \<noteq> []
          then Some (EWrap ''endpoint must not include userinfo or fragment'' [ErrInvalidURL])
          else None)"

definition NewClient_ws :: "facade_env \<Rightarrow> string \<Rightarrow> 'x ws_option list \<Rightarrow> 'x ws_config" where
  "NewClient_ws env endpoint opts =
     (let c = foldl (\<lambda>c opt. opt c)
            \<lparr>wcf_url = endpoint, wcf_auth = None, wcf_configErr = None, wcf_dialer = None, wcf_autoReconnect = True, wcf_maxReconnects = 0,
             wcf_maxMessageSize = DefaultMaxMessageSize, wcf_livenessInterval = 0, wcf_livenessTimeout = 0, wcf_snapshotValue = 0,
             wcf_snapshotMode = False, wcf_isolateSnapshots = False, wcf_isolatePartialSnapshots = False, wcf_privateOnly = False\<rparr> opts
      in if wcf_configErr c = None then c\<lparr>wcf_configErr := validateWebSocketURL env (wcf_url c)\<rparr> else c)"

definition NewClientWithError_ws :: "facade_env \<Rightarrow> string \<Rightarrow> 'x ws_option list \<Rightarrow> err + 'x ws_config" where
  "NewClientWithError_ws env endpoint opts =
     (let c = NewClient_ws env endpoint opts in case wcf_configErr c of Some e \<Rightarrow> Inl e | None \<Rightarrow> Inr c)"

definition NewPublicClient :: "facade_env \<Rightarrow> string \<Rightarrow> 'x ws_option list \<Rightarrow> 'x ws_config" where
  "NewPublicClient env endpoint opts = (NewClient_ws env endpoint opts)\<lparr>wcf_auth := None\<rparr>"

definition NewPrivateClient :: "facade_env \<Rightarrow> string \<Rightarrow> 'x strategy option \<Rightarrow> 'x ws_option list \<Rightarrow> 'x ws_config" where
  "NewPrivateClient env endpoint strategy opts =
     (NewClient_ws env endpoint (opts @ [WithAuth_ws strategy]))\<lparr>wcf_privateOnly := True\<rparr>"

text \<open>The guards of \<open>Connect\<close> that depend on the configuration only.\<close>

definition Connect_config :: "'x ws_config \<Rightarrow> err option" where
  "Connect_config c =
     (case wcf_configErr c of
        Some e \<Rightarrow> Some e
      | None \<Rightarrow> if wcf_privateOnly c \<and> wcf_auth c = None then Some (ESent ErrAuthenticationRequired) else None)"

section \<open>Options of the facade\<close>

datatype http_client = CallerHTTP nat | OwnedHTTP nat

record 'x facade_config =
  cf_env :: string
  cf_restURL :: string
  cf_wsURL :: string
  cf_configErr :: "err option"
  cf_auth :: "'x strategy option"
  cf_wsDialer :: "nat option"
  cf_httpClient :: "http_client option"
  cf_ownsHTTPClient :: bool
  cf_retry :: RetryPolicy
  cf_userAgent :: string
  cf_hooks :: "nat list"

text \<open>The options the package exports; a caller's HTTP client, dialer or strategy may be nil.\<close>

datatype 'x facade_option =
    WithHooks "nat list" | WithEnvironment string | WithAuth "'x strategy option" | WithCustomRESTURL string | WithCustomWSURL string
  | WithWebSocketDialer "nat option" | WithHTTPClient "nat option" | WithRetryPolicy RetryPolicy | WithTraceHook nat

definition WithAPIKey :: "string \<Rightarrow> string \<Rightarrow> 'x facade_option" where
  "WithAPIKey key secret = WithAuth (Some (HmacStrategy (NewHMAC key secret [])))"

definition WithTimeBasedAPIKey :: "string \<Rightarrow> string \<Rightarrow> 'x facade_option" where
  "WithTimeBasedAPIKey key secret = WithAuth (Some (HmacStrategy (NewTimeBasedHMAC key secret [])))"

definition WithBearerToken :: "string \<Rightarrow> 'x facade_option" where
  "WithBearerToken token = WithAuth (Some (BearerStrategy (StaticToken token)))"

definition WithTokenSource :: "token_source \<Rightarrow> 'x facade_option" where
  "WithTokenSource source = WithAuth (Some (BearerStrategy source))"

definition apply_option :: "'x facade_config \<Rightarrow> 'x facade_option \<Rightarrow> 'x facade_config" where
  "apply_option c opt =
     (case opt of
        WithHooks hooks \<Rightarrow> c\<lparr>cf_hooks := cf_hooks c @ hooks\<rparr>
      | WithEnvironment env \<Rightarrow>
          (case EndpointsFor env of
             Some ep \<Rightarrow> c\<lparr>cf_env := env, cf_restURL := ep_REST ep, cf_wsURL := ep_WebSocket ep, cf_configErr := None\<rparr>
           | None \<Rightarrow> c\<lparr>cf_env := env, cf_restURL := [], cf_wsURL := [], cf_configErr := Some (EWrap env [ErrInvalidEnvironment])\<rparr>)
      | WithAuth strategy \<Rightarrow> c\<lparr>cf_auth := strategy\<rparr>
      | WithCustomRESTURL u \<Rightarrow> c\<lparr>cf_restURL := TrimSpace u\<rparr>
      | WithCustomWSURL u \<Rightarrow> c\<lparr>cf_wsURL := TrimSpace u\<rparr>
      | WithWebSocketDialer d \<Rightarrow> c\<lparr>cf_wsDialer := d\<rparr>
      | WithHTTPClient hc \<Rightarrow> c\<lparr>cf_httpClient := map_option CallerHTTP hc, cf_ownsHTTPClient := False\<rparr>
      | WithRetryPolicy p \<Rightarrow> c\<lparr>cf_retry := p\<rparr>
      | WithTraceHook hook \<Rightarrow> c\<lparr>cf_hooks := cf_hooks c @ [hook]\<rparr>)"

definition validateEndpointURL :: "facade_env \<Rightarrow> string \<Rightarrow> string \<Rightarrow> string list \<Rightarrow> err option" where
  "validateEndpointURL env raw name schemes =
     (case fe_parse env (TrimSpace raw) of
        None \<Rightarrow> Some (EWrap (name @ '' endpoint'') [ErrInvalidEndpointURL])
      | Some parsed \<Rightarrow>
          if url_host parsed = [] then Some (EWrap (name @ '' endpoint must include a host'') [ErrInvalidEndpointURL])
          else if url_user parsed \<noteq> None then Some (EWrap (name @ '' endpoint must not include userinfo'') [ErrInvalidEndpointURL])
          else if eu_RawQuery parsed \<noteq> [] \<or> eu_ForceQuery parsed \<or> eu_Fragment parsed \<noteq> []
          then Some (EWrap (name @ '' endpoint must not include a query or fragment'') [ErrInvalidEndpointURL])
          else if list_ex (\<lambda>scheme. EqualFold (url_scheme parsed) scheme) schemes then None
          else Some (EWrap (name @ '' endpoint must use '' @ join '' or '' schemes) [ErrInvalidEndpointURL]))"

definition validateClientConfig :: "facade_env \<Rightarrow> 'x facade_config \<Rightarrow> 'x facade_config" where
  "validateClientConfig env c =
     (if cf_configErr c \<noteq> None then c
      else case (case cf_auth c of Some s \<Rightarrow> strategy_error s | None \<Rightarrow> None) of
        Some e \<Rightarrow> c\<lparr>cf_configErr := Some e\<rparr>
      | None \<Rightarrow>
          (case validateEndpointURL env (cf_restURL c) ''REST'' [''https''] of
             Some e \<Rightarrow> c\<lparr>cf_configErr := Some e\<rparr>
           | None \<Rightarrow>
               (case validateEndpointURL env (cf_wsURL c) ''WebSocket'' [''wss''] of
                  Some e \<Rightarrow> c\<lparr>cf_configErr := Some e\<rparr>
                | None \<Rightarrow> c)))"

definition default_config :: "'x facade_config" where
  "default_config = \<lparr>cf_env = Production, cf_restURL = ''https://api.gemini.com'', cf_wsURL = ''wss://ws.gemini.com'', cf_configErr = None,
     cf_auth = None, cf_wsDialer = None, cf_httpClient = None, cf_ownsHTTPClient = True, cf_retry = DefaultRetryPolicy,
     cf_userAgent = ''gemini-go/0.1.0'', cf_hooks = []\<rparr>"

definition newClientConfig :: "facade_env \<Rightarrow> 'x facade_option list \<Rightarrow> 'x facade_config" where
  "newClientConfig env opts = validateClientConfig env (foldl apply_option default_config opts)"

section \<open>The facade\<close>

text \<open>What the strategies do on the transport, given by the package \<open>auth\<close>.\<close>

record 'x auth_runtime =
  ar_authenticate :: "'x strategy option authenticator"
  ar_acquire :: "'x strategy option \<Rightarrow> err option"
  ar_calibrate :: "'x strategy option \<Rightarrow> string \<Rightarrow> 'x strategy option"

record 'x facade =
  fc_config :: "'x facade_config"
  fc_private :: "'x strategy option client"
  fc_public :: "'x strategy option client"
  fc_publicWS :: "'x ws_config"
  fc_privateWS :: "'x ws_config"

definition NewClient_transport ::
  "'x auth_runtime \<Rightarrow> 'x facade_config \<Rightarrow> 'x strategy option \<Rightarrow> err option \<Rightarrow> 'x strategy option client" where
  "NewClient_transport rt c strategy configErr =
     \<lparr>cl_auth = (if strategy = None then None else Some (ar_authenticate rt)),
      cl_acquire = (if strategy = None then (\<lambda>_. None) else ar_acquire rt),
      cl_calibrate = (if strategy = None then (\<lambda>s _. s) else ar_calibrate rt),
      cl_retry = cf_retry c, cl_userAgent = cf_userAgent c, cl_configErr = configErr\<rparr>"

text \<open>The next fresh HTTP client is threaded through.\<close>

definition newClientFromConfig :: "facade_env \<Rightarrow> 'x auth_runtime \<Rightarrow> nat \<Rightarrow> 'x facade_config \<Rightarrow> nat \<times> 'x facade" where
  "newClientFromConfig env rt fresh cfg =
     (let (fresh', c) = (if cf_httpClient cfg = None
            then (Suc fresh, cfg\<lparr>cf_httpClient := Some (OwnedHTTP fresh), cf_ownsHTTPClient := True\<rparr>) else (fresh, cfg));
          privateConfigErr = (if cf_configErr c = None \<and> cf_auth c = None then Some (ESent ErrAuthenticationRequired) else cf_configErr c)
      in (fresh',
          \<lparr>fc_config = c,
           fc_private = NewClient_transport rt c (cf_auth c) privateConfigErr,
           fc_public = NewClient_transport rt c None (cf_configErr c),
           fc_publicWS = NewPublicClient env (cf_wsURL c)
             [WithDialer (cf_wsDialer c), WithConfigurationError (cf_configErr c), WithSnapshot env (- 1), WithIsolatedPartialSnapshots],
           fc_privateWS = NewPrivateClient env (cf_wsURL c) (cf_auth c)
             [WithDialer (cf_wsDialer c), WithConfigurationError privateConfigErr]\<rparr>))"

definition NewClient :: "facade_env \<Rightarrow> 'x auth_runtime \<Rightarrow> nat \<Rightarrow> 'x facade_option list \<Rightarrow> nat \<times> 'x facade" where
  "NewClient env rt fresh opts = newClientFromConfig env rt fresh (newClientConfig env opts)"

definition NewClientWithError :: "facade_env \<Rightarrow> 'x auth_runtime \<Rightarrow> nat \<Rightarrow> 'x facade_option list \<Rightarrow> nat \<times> (err + 'x facade)" where
  "NewClientWithError env rt fresh opts =
     (let cfg = newClientConfig env opts
      in case cf_configErr cfg of
           Some e \<Rightarrow> (fresh, Inl e)
         | None \<Rightarrow> (case newClientFromConfig env rt fresh cfg of (fresh', f) \<Rightarrow> (fresh', Inr f)))"

definition WithOptions :: "facade_env \<Rightarrow> 'x auth_runtime \<Rightarrow> nat \<Rightarrow> 'x facade \<Rightarrow> 'x facade_option list \<Rightarrow> nat \<times> 'x facade" where
  "WithOptions env rt fresh f opts =
     (let c0 = (fc_config f)\<lparr>cf_configErr := None\<rparr>;
          c1 = (if cf_ownsHTTPClient (fc_config f) then c0\<lparr>cf_httpClient := None, cf_ownsHTTPClient := True\<rparr> else c0)
      in newClientFromConfig env rt fresh (validateClientConfig env (foldl apply_option c1 opts)))"

text \<open>\<open>Close\<close>: the HTTP client whose idle connections it closes, if any; it closes both websocket clients.\<close>

definition Close_http :: "'x facade \<Rightarrow> http_client option" where
  "Close_http f = (if cf_ownsHTTPClient (fc_config f) then cf_httpClient (fc_config f) else None)"

end
