(* ===== verification/FacadeSpec.thy ===== *)
theory FacadeSpec
  imports Facade
begin

text \<open>
  What the facade's construction promises: whatever options are given and in whatever order, a client
  either refuses everything before any network access or has verified endpoints, nothing authenticated
  happens without credentials, and clients never close each other's HTTP connections.
\<close>

section \<open>Fail closed\<close>

definition endpoint_ok :: "facade_env \<Rightarrow> string \<Rightarrow> string \<Rightarrow> bool" where
  "endpoint_ok env scheme u \<longleftrightarrow>
     (\<exists>p. fe_parse env (TrimSpace u) = Some p \<and> url_host p \<noteq> [] \<and> url_user p = None \<and> EqualFold (url_scheme p) scheme \<and>
        eu_RawQuery p = [] \<and> \<not> eu_ForceQuery p \<and> eu_Fragment p = [])"

text \<open>A transport that sends nothing whatever it is asked.\<close>

definition silent :: "'s client \<Rightarrow> bool" where
  "silent c \<longleftrightarrow> (\<forall>env s request payload. xs_trace (Execute c env s request payload) = [] \<and> xs_err (Execute c env s request payload) \<noteq> None)"

lemma config_error_silent: "cl_configErr c \<noteq> None \<Longrightarrow> silent c"
  by (auto simp: silent_def Execute_def check_request_def)

definition facade_safe :: "facade_env \<Rightarrow> 'x facade \<Rightarrow> bool" where
  "facade_safe env f \<longleftrightarrow>
     (if cf_configErr (fc_config f) = None
      then endpoint_ok env ''https'' (cf_restURL (fc_config f)) \<and> endpoint_ok env ''wss'' (cf_wsURL (fc_config f)) \<and>
        (case cf_auth (fc_config f) of
           None \<Rightarrow> silent (fc_private f) \<and> Connect_config (fc_privateWS f) \<noteq> None
         | Some s \<Rightarrow> strategy_error s = None)
      else silent (fc_private f) \<and> silent (fc_public f) \<and>
        Connect_config (fc_privateWS f) \<noteq> None \<and> Connect_config (fc_publicWS f) \<noteq> None) \<and>
     cl_auth (fc_public f) = None \<and> wcf_auth (fc_publicWS f) = None"

lemma endpoint_validated: "validateEndpointURL env u name [scheme] = None \<Longrightarrow> endpoint_ok env scheme u"
  by (auto simp: validateEndpointURL_def endpoint_ok_def split: option.splits if_splits)

lemma config_validated:
  assumes "cf_configErr (validateClientConfig env c) = None"
  shows "endpoint_ok env ''https'' (cf_restURL (validateClientConfig env c)) \<and> endpoint_ok env ''wss'' (cf_wsURL (validateClientConfig env c)) \<and>
     (case cf_auth (validateClientConfig env c) of None \<Rightarrow> True | Some s \<Rightarrow> strategy_error s = None)"
  using assms endpoint_validated by (auto simp: validateClientConfig_def split: option.splits if_splits)

lemma snapshot_keeps_error: "wcf_configErr (WithSnapshot env (- 1) c) = wcf_configErr c"
    "wcf_auth (WithSnapshot env (- 1) c) = wcf_auth c"
  by (auto simp: WithSnapshot_def Let_def split: option.split)

lemma ws_error_kept:
  "wcf_configErr (NewPublicClient env u [WithDialer d, WithConfigurationError (Some e), WithSnapshot env (- 1), WithIsolatedPartialSnapshots]) = Some e"
  "wcf_configErr (NewPrivateClient env u a [WithDialer d, WithConfigurationError (Some e)]) = Some e"
  by (simp_all add: NewPublicClient_def NewPrivateClient_def NewClient_ws_def WithIsolatedPartialSnapshots_def snapshot_keeps_error
      WithConfigurationError_def WithAuth_ws_def Let_def)

lemma built_safe:
  assumes "cf_configErr c = None \<Longrightarrow> endpoint_ok env ''https'' (cf_restURL c) \<and> endpoint_ok env ''wss'' (cf_wsURL c) \<and>
     (case cf_auth c of None \<Rightarrow> True | Some s \<Rightarrow> strategy_error s = None)"
  shows "facade_safe env (snd (newClientFromConfig env rt n c))"
proof -
  have ws: "wcf_auth (NewPublicClient env u opts) = None" for u and opts :: "'x ws_option list" by (simp add: NewPublicClient_def)
  show ?thesis
  proof (cases "cf_configErr c")
    case None
    then show ?thesis using assms ws
      by (auto simp: facade_safe_def newClientFromConfig_def Let_def NewClient_transport_def Connect_config_def ws_error_kept
          intro!: config_error_silent split: option.splits)
  next
    case (Some e)
    then show ?thesis using ws
      by (auto simp: facade_safe_def newClientFromConfig_def Let_def NewClient_transport_def Connect_config_def ws_error_kept
          intro!: config_error_silent)
  qed
qed

text \<open>C32: A client made from any options in any order, directly or from another client, either refuses every request
  and every connection before anything is sent, or has an HTTPS and a WSS endpoint with a host and without credentials,
  query or fragment; without credentials its private side refuses everything; its public side never authenticates.\<close>

theorem facade_fail_closed:
  "facade_safe env (snd (NewClient env rt n opts)) \<and> facade_safe env (snd (WithOptions env rt m f opts))"
proof
  show "facade_safe env (snd (NewClient env rt n opts))"
    unfolding NewClient_def newClientConfig_def by (rule built_safe[OF config_validated])
  show "facade_safe env (snd (WithOptions env rt m f opts))"
    unfolding WithOptions_def Let_def by (rule built_safe[OF config_validated])
qed

section \<open>Ownership of HTTP clients\<close>

text \<open>The clients a program makes, with the next fresh HTTP client.\<close>

inductive facade_run :: "facade_env \<Rightarrow> 'x auth_runtime \<Rightarrow> nat \<Rightarrow> 'x facade list \<Rightarrow> bool" for env rt where
  started: "facade_run env rt 0 []"
| created: "facade_run env rt n fs \<Longrightarrow> NewClient env rt n opts = (n', f) \<Longrightarrow> facade_run env rt n' (fs @ [f])"
| derived: "facade_run env rt n fs \<Longrightarrow> g \<in> set fs \<Longrightarrow> WithOptions env rt n g opts = (n', f) \<Longrightarrow> facade_run env rt n' (fs @ [f])"

definition owned_by :: "'x facade \<Rightarrow> nat list" where
  "owned_by f = (case cf_httpClient (fc_config f) of Some (OwnedHTTP k) \<Rightarrow> [k] | _ \<Rightarrow> [])"

definition http_ok :: "nat \<Rightarrow> 'x facade list \<Rightarrow> bool" where
  "http_ok n fs \<longleftrightarrow>
     (\<forall>f\<in>set fs. cf_ownsHTTPClient (fc_config f) = (owned_by f \<noteq> []) \<and> cf_httpClient (fc_config f) \<noteq> None) \<and>
     distinct (concat (map owned_by fs)) \<and> (\<forall>k\<in>set (concat (map owned_by fs)). k < n)"

text \<open>Before a client is built its configuration holds no HTTP client of the SDK.\<close>

definition http_pristine :: "'x facade_config \<Rightarrow> bool" where
  "http_pristine c \<longleftrightarrow> (case cf_httpClient c of None \<Rightarrow> True | Some (CallerHTTP _) \<Rightarrow> \<not> cf_ownsHTTPClient c | Some (OwnedHTTP _) \<Rightarrow> False)"

lemma option_pristine: "http_pristine c \<Longrightarrow> http_pristine (apply_option c opt)"
  by (cases opt) (auto simp: http_pristine_def apply_option_def split: option.splits http_client.splits)

lemma options_pristine: "http_pristine c \<Longrightarrow> http_pristine (foldl apply_option c opts)"
  by (induction opts arbitrary: c) (simp_all add: option_pristine)

lemma validated_pristine: "http_pristine c \<Longrightarrow> http_pristine (validateClientConfig env c)"
  by (auto simp: validateClientConfig_def http_pristine_def split: option.splits http_client.splits)

lemma built_http:
  assumes "http_pristine c" "newClientFromConfig env rt n c = (n', f)"
  shows "cf_ownsHTTPClient (fc_config f) = (owned_by f \<noteq> []) \<and> cf_httpClient (fc_config f) \<noteq> None \<and>
    (owned_by f = [] \<and> n' = n \<or> owned_by f = [n] \<and> n' = Suc n)"
  using assms by (auto simp: newClientFromConfig_def http_pristine_def owned_by_def Let_def split: option.splits http_client.splits if_splits)

lemma http_ok_extend:
  assumes "http_ok n fs" "http_pristine c" "newClientFromConfig env rt n c = (n', f)"
  shows "http_ok n' (fs @ [f])"
  using assms(1) built_http[OF assms(2,3)] by (force simp: http_ok_def)

lemma run_http_ok: "facade_run env rt n fs \<Longrightarrow> http_ok n fs"
proof (induction rule: facade_run.induct)
  case started
  show ?case by (simp add: http_ok_def)
next
  case (created n fs opts n' f)
  have "http_pristine (newClientConfig env opts)"
    unfolding newClientConfig_def by (intro validated_pristine options_pristine) (simp add: http_pristine_def default_config_def)
  then show ?case using created http_ok_extend by (auto simp: NewClient_def)
next
  case (derived n fs g opts n' f)
  define c where "c = (if cf_ownsHTTPClient (fc_config g)
    then (fc_config g)\<lparr>cf_configErr := None, cf_httpClient := None, cf_ownsHTTPClient := True\<rparr> else (fc_config g)\<lparr>cf_configErr := None\<rparr>)"
  have "http_pristine c"
    using derived.IH derived.hyps(2)
    by (auto simp: c_def http_pristine_def http_ok_def owned_by_def split: option.splits http_client.splits)
  then have "http_pristine (validateClientConfig env (foldl apply_option c opts))" by (intro validated_pristine options_pristine)
  moreover have "newClientFromConfig env rt n (validateClientConfig env (foldl apply_option c opts)) = (n', f)"
    using derived.hyps(3) by (simp add: WithOptions_def c_def Let_def)
  ultimately show ?case using derived.IH http_ok_extend by blast
qed

lemma disjoint_by_index:
  "distinct (concat xss) \<Longrightarrow> i < length xss \<Longrightarrow> j < length xss \<Longrightarrow> i \<noteq> j \<Longrightarrow> set (xss ! i) \<inter> set (xss ! j) = {}"
proof (induction xss arbitrary: i j)
  case Nil
  then show ?case by simp
next
  case (Cons xs xss)
  have "set (xss ! k) \<subseteq> set (concat xss)" if "k < length xss" for k using that nth_mem by fastforce
  then show ?case using Cons by (cases i; cases j) fastforce+
qed

text \<open>C33: Closing a client closes the idle connections of no other client's HTTP client and never those of one the
  caller supplied, however the clients were made from one another.\<close>

theorem http_clients_not_shared:
  assumes "facade_run env rt n fs" "i < length fs" "j < length fs" "i \<noteq> j" "Close_http (fs ! i) = Some h"
  shows "cf_httpClient (fc_config (fs ! j)) \<noteq> Some h \<and> (\<exists>k. h = OwnedHTTP k)"
proof -
  have ok: "http_ok n fs" using run_http_ok[OF assms(1)] .
  have i: "cf_ownsHTTPClient (fc_config (fs ! i))" "cf_httpClient (fc_config (fs ! i)) = Some h"
    using assms(5) by (auto simp: Close_http_def split: if_splits)
  then have "owned_by (fs ! i) \<noteq> []" using ok assms(2) by (simp add: http_ok_def)
  then obtain k where k: "h = OwnedHTTP k" "owned_by (fs ! i) = [k]"
    using i(2) by (auto simp: owned_by_def split: http_client.splits)
  have "distinct (concat (map owned_by fs))" using ok by (simp add: http_ok_def)
  then have "set (owned_by (fs ! i)) \<inter> set (owned_by (fs ! j)) = {}"
    using disjoint_by_index[of "map owned_by fs" i j] assms(2-4) by simp
  then have "owned_by (fs ! j) \<noteq> [k]" using k(2) by auto
  then show ?thesis using k(1) by (auto simp: owned_by_def)
qed

section \<open>A concrete run\<close>

definition plain_url :: "string \<Rightarrow> endpoint_url option" where
  "plain_url s =
     (if has_prefix s ''https://'' then Some \<lparr>url_scheme = ''https'', url_host = drop 8 s, url_user = None, url_path = [],
        eu_RawQuery = [], eu_ForceQuery = False, eu_Fragment = []\<rparr>
      else if has_prefix s ''wss://'' then Some \<lparr>url_scheme = ''wss'', url_host = drop 6 s, url_user = None, url_path = [],
        eu_RawQuery = [], eu_ForceQuery = False, eu_Fragment = []\<rparr>
      else None)"

definition sample_facade_env :: facade_env where
  "sample_facade_env = \<lparr>fe_parse = plain_url, fe_print = (\<lambda>u. url_scheme u @ ''://'' @ url_host u), fe_query = (\<lambda>q. [])\<rparr>"

definition sample_runtime :: "unit auth_runtime" where
  "sample_runtime = \<lparr>ar_authenticate = (\<lambda>n s r p. (s, r, None)), ar_acquire = (\<lambda>s. None), ar_calibrate = (\<lambda>s d. s)\<rparr>"

theorem http_clients_not_shared_witness:
  "\<exists>f g. facade_run sample_facade_env sample_runtime 2 [f, g] \<and> Close_http f = Some (OwnedHTTP 0) \<and> cf_httpClient (fc_config g) \<noteq> Some (OwnedHTTP 0)"
proof -
  obtain f where f: "NewClient sample_facade_env sample_runtime 0 [] = (1, f)" "Close_http f = Some (OwnedHTTP 0)"
    by (cases "NewClient sample_facade_env sample_runtime 0 []")
      (auto simp: NewClient_def newClientFromConfig_def newClientConfig_def validateClientConfig_def default_config_def Close_http_def Let_def
        split: option.splits)
  obtain g where g: "WithOptions sample_facade_env sample_runtime 1 f [] = (2, g)"
    using f by (cases "WithOptions sample_facade_env sample_runtime 1 f []")
      (auto simp: WithOptions_def newClientFromConfig_def validateClientConfig_def Close_http_def Let_def split: option.splits if_splits)
  have "facade_run sample_facade_env sample_runtime 1 ([] @ [f])" using facade_run.started f(1) by (rule facade_run.created)
  then have run: "facade_run sample_facade_env sample_runtime 2 [f, g]"
    using facade_run.derived[of sample_facade_env sample_runtime 1 "[f]" f "[]" 2 g] g by simp
  then show ?thesis using http_clients_not_shared[OF run, of 0 1 "OwnedHTTP 0"] f(2) by auto
qed

text \<open>Deriving a client without any option from one with an unknown environment drops the environment's error:
  with both URLs overridden the derived client is accepted.\<close>

definition misspelled :: "unit facade" where
  "misspelled = snd (NewClient sample_facade_env sample_runtime 0
     [WithEnvironment ''prod'', WithCustomRESTURL ''https://a'', WithCustomWSURL ''wss://a''])"

theorem facade_env_error_lost:
  "cf_configErr (fc_config misspelled) = Some (EWrap ''prod'' [ErrInvalidEnvironment]) \<and>
   cf_configErr (fc_config (snd (WithOptions sample_facade_env sample_runtime 1 misspelled []))) = None"
proof
  show "cf_configErr (fc_config misspelled) = Some (EWrap ''prod'' [ErrInvalidEnvironment])" by code_simp
  show "cf_configErr (fc_config (snd (WithOptions sample_facade_env sample_runtime 1 misspelled []))) = None" by code_simp
qed

end
