(* ===== verification/SnapshotIsolation.thy ===== *)
theory SnapshotIsolation
  imports Facade Subscriptions "HOL-Library.Multiset"
begin

text \<open>
  The isolated snapshot connections of \<open>websocket/snapshot_isolation.go\<close>: one public client per symbol for
  feeds whose snapshots carry no symbol, counted by reference in two pairs of maps, which \<open>Close\<close> sweeps.
  Each section under \<open>snapshotMu\<close> is a function of the maps; a client is a number. The second part
  interleaves subscribers, unsubscribers and \<open>Close\<close>.
\<close>

section \<open>The code\<close>

definition usesIsolatedSnapshots :: "'x ws_config \<Rightarrow> bool" where
  "usesIsolatedSnapshots c \<longleftrightarrow> wcf_isolateSnapshots c \<and> wcf_snapshotMode c \<and> \<not> wcf_privateOnly c"

definition usesIsolatedPartialSnapshots :: "'x ws_config \<Rightarrow> bool" where
  "usesIsolatedPartialSnapshots c \<longleftrightarrow> (wcf_isolateSnapshots c \<or> wcf_isolatePartialSnapshots c) \<and> \<not> wcf_privateOnly c"

text \<open>The configuration of an isolated client.\<close>

definition isolated_config :: "facade_env \<Rightarrow> 'x ws_config \<Rightarrow> int \<Rightarrow> 'x ws_config" where
  "isolated_config env c snapshot =
     (NewPublicClient env (wcf_url c)
        [WithDialer (wcf_dialer c), WithAutoReconnect (wcf_autoReconnect c), WithMaxReconnects (wcf_maxReconnects c), WithSnapshot env snapshot])
     \<lparr>wcf_maxMessageSize := wcf_maxMessageSize c, wcf_livenessInterval := wcf_livenessInterval c, wcf_livenessTimeout := wcf_livenessTimeout c\<rparr>"

text \<open>The two pairs of maps: for differential and for partial depth.\<close>

datatype iso_kind = DiffSnapshots | PartialSnapshots

record iso_maps =
  im_clients :: "(string \<times> nat) list"
  im_refs :: "(string \<times> nat) list"

record iso_state =
  is_maps :: "iso_kind \<Rightarrow> iso_maps"
  is_next :: nat
  is_closed :: bool

definition set_maps :: "iso_kind \<Rightarrow> iso_maps \<Rightarrow> iso_state \<Rightarrow> iso_state" where
  "set_maps kind m s = s\<lparr>is_maps := (is_maps s)(kind := m)\<rparr>"

definition ref_count :: "iso_maps \<Rightarrow> string \<Rightarrow> nat" where
  "ref_count m symbol = (case map_of (im_refs m) symbol of Some n \<Rightarrow> n | None \<Rightarrow> 0)"

definition acquireIsolatedClient :: "iso_kind \<Rightarrow> string \<Rightarrow> iso_state \<Rightarrow> (ws_error + nat) \<times> iso_state" where
  "acquireIsolatedClient kind symbol s =
     (case normalizeSymbol symbol of
        Inl e \<Rightarrow> (Inl e, s)
      | Inr normSymbol \<Rightarrow>
          if is_closed s then (Inl (WsMsg ''gemini websocket: websocket client is closed''), s)
          else
            let m = is_maps s kind;
                counted = (\<lambda>m. m\<lparr>im_refs := AList.update normSymbol (Suc (ref_count m normSymbol)) (im_refs m)\<rparr>)
            in case map_of (im_clients m) normSymbol of
                 Some client \<Rightarrow> (Inr client, set_maps kind (counted m) s)
               | None \<Rightarrow>
                   (Inr (is_next s),
                    (set_maps kind (counted (m\<lparr>im_clients := AList.update normSymbol (is_next s) (im_clients m)\<rparr>)) s)
                    \<lparr>is_next := Suc (is_next s)\<rparr>))"

text \<open>With the client that is closed after the lock is released, if any.\<close>

definition releaseIsolatedClient :: "iso_kind \<Rightarrow> string \<Rightarrow> nat \<Rightarrow> iso_state \<Rightarrow> nat option \<times> iso_state" where
  "releaseIsolatedClient kind symbol client s =
     (case normalizeSymbol symbol of
        Inl e \<Rightarrow> (None, s)
      | Inr normSymbol \<Rightarrow>
          let m = is_maps s kind
          in if map_of (im_clients m) normSymbol \<noteq> Some client then (None, s)
             else if 1 < ref_count m normSymbol
             then (None, set_maps kind (m\<lparr>im_refs := AList.update normSymbol (ref_count m normSymbol - 1) (im_refs m)\<rparr>) s)
             else (Some client, set_maps kind
               (m\<lparr>im_clients := AList.delete normSymbol (im_clients m), im_refs := AList.delete normSymbol (im_refs m)\<rparr>) s))"

text \<open>\<open>variant\<close> is the check of the client's active feeds for another variant.\<close>

definition removeIsolatedClientForVariant ::
  "(nat \<Rightarrow> string \<Rightarrow> ws_error option) \<Rightarrow> iso_kind \<Rightarrow> string \<Rightarrow> iso_state \<Rightarrow> (ws_error + nat option) \<times> iso_state" where
  "removeIsolatedClientForVariant variant kind symbol s =
     (case normalizeSymbol symbol of
        Inl e \<Rightarrow> (Inl e, s)
      | Inr normSymbol \<Rightarrow>
          let m = is_maps s kind
          in case map_of (im_clients m) normSymbol of
               None \<Rightarrow> (Inr None, s)
             | Some client \<Rightarrow>
                 (case variant client normSymbol of
                    Some e \<Rightarrow> (Inl e, s)
                  | None \<Rightarrow> (Inr (Some client), set_maps kind
                      (m\<lparr>im_clients := AList.delete normSymbol (im_clients m), im_refs := AList.delete normSymbol (im_refs m)\<rparr>) s)))"

text \<open>The isolated clients \<open>Close\<close> takes out of the maps.\<close>

definition sweepIsolatedClients :: "iso_state \<Rightarrow> nat list \<times> iso_state" where
  "sweepIsolatedClients s =
     (map snd (im_clients (is_maps s DiffSnapshots)) @ map snd (im_clients (is_maps s PartialSnapshots)),
      s\<lparr>is_maps := (\<lambda>_. \<lparr>im_clients = [], im_refs = []\<rparr>)\<rparr>)"

section \<open>Interleavings\<close>

text \<open>A subscriber between its acquisition and the answer, and a goroutine about to close a client it has taken
  out of the maps. A subscriber that was served holds its client.\<close>

datatype iso_actor = Subscribing iso_kind string nat | Closing nat

record iso_run =
  ir_state :: iso_state
  ir_actors :: "iso_actor multiset"
  ir_holders :: "(iso_kind \<times> string \<times> nat) multiset"
  ir_closedClients :: "nat set"
  ir_swept :: bool

definition iso_start :: iso_run where
  "iso_start = \<lparr>ir_state = \<lparr>is_maps = (\<lambda>_. \<lparr>im_clients = [], im_refs = []\<rparr>), is_next = 0, is_closed = False\<rparr>, ir_actors = {#},
     ir_holders = {#}, ir_closedClients = {}, ir_swept = False\<rparr>"

inductive iso_step :: "iso_run \<Rightarrow> iso_run \<Rightarrow> bool" where
  acquire: "acquireIsolatedClient kind symbol (ir_state r) = (Inr client, s) \<Longrightarrow>
    iso_step r (r\<lparr>ir_state := s, ir_actors := ir_actors r + {#Subscribing kind symbol client#}\<rparr>)"
| served: "ir_actors r = rest + {#Subscribing kind symbol client#} \<Longrightarrow>
    iso_step r (r\<lparr>ir_actors := rest, ir_holders := ir_holders r + {#(kind, symbol, client)#}\<rparr>)"
| refused: "ir_actors r = rest + {#Subscribing kind symbol client#} \<Longrightarrow> releaseIsolatedClient kind symbol client (ir_state r) = (None, s) \<Longrightarrow>
    iso_step r (r\<lparr>ir_state := s, ir_actors := rest\<rparr>)"
| refused_last: "ir_actors r = rest + {#Subscribing kind symbol client#} \<Longrightarrow>
    releaseIsolatedClient kind symbol client (ir_state r) = (Some c, s) \<Longrightarrow>
    iso_step r (r\<lparr>ir_state := s, ir_actors := rest + {#Closing c#}\<rparr>)"
| unsubscribe: "removeIsolatedClientForVariant variant kind symbol (ir_state r) = (Inr (Some client), s) \<Longrightarrow>
    iso_step r (r\<lparr>ir_state := s, ir_actors := ir_actors r + {#Closing client#}\<rparr>)"
| close_client: "ir_actors r = rest + {#Closing client#} \<Longrightarrow>
    iso_step r (r\<lparr>ir_actors := rest, ir_closedClients := insert client (ir_closedClients r)\<rparr>)"
| close_parent: "iso_step r (r\<lparr>ir_state := (ir_state r)\<lparr>is_closed := True\<rparr>\<rparr>)"
| sweep: "is_closed (ir_state r) \<Longrightarrow> \<not> ir_swept r \<Longrightarrow> sweepIsolatedClients (ir_state r) = (clients, s) \<Longrightarrow>
    iso_step r (r\<lparr>ir_state := s, ir_actors := ir_actors r + mset (map Closing clients), ir_swept := True\<rparr>)"

inductive iso_reachable :: "iso_run \<Rightarrow> bool" where
  start: "iso_reachable iso_start"
| step: "iso_reachable r \<Longrightarrow> iso_step r r' \<Longrightarrow> iso_reachable r'"

section \<open>The sections under the lock\<close>

definition client_at :: "iso_state \<Rightarrow> iso_kind \<Rightarrow> string \<Rightarrow> nat option" where
  "client_at s kind n = map_of (im_clients (is_maps s kind)) n"

definition refs_at :: "iso_state \<Rightarrow> iso_kind \<Rightarrow> string \<Rightarrow> nat" where
  "refs_at s kind n = ref_count (is_maps s kind) n"

definition keys_ok :: "iso_state \<Rightarrow> bool" where
  "keys_ok s \<longleftrightarrow> (\<forall>kind. distinct (map fst (im_clients (is_maps s kind))))"

named_theorems iso_defs

lemmas [iso_defs] = client_at_def refs_at_def keys_ok_def ref_count_def set_maps_def Let_def

lemma acquire_cases:
  assumes "acquireIsolatedClient kind symbol s = (Inr k, s')"
  obtains (shared) n where "normalizeSymbol symbol = Inr n" "\<not> is_closed s" "is_closed s' = is_closed s" "is_next s' = is_next s"
      "client_at s kind n = Some k" "client_at s' = client_at s"
      "refs_at s' = (refs_at s)(kind := (refs_at s kind)(n := Suc (refs_at s kind n)))" "keys_ok s \<Longrightarrow> keys_ok s'"
  | (fresh) n where "normalizeSymbol symbol = Inr n" "\<not> is_closed s" "is_closed s' = is_closed s" "is_next s' = Suc k" "k = is_next s"
      "client_at s kind n = None" "client_at s' = (client_at s)(kind := (client_at s kind)(n := Some k))"
      "refs_at s' = (refs_at s)(kind := (refs_at s kind)(n := Suc (refs_at s kind n)))" "keys_ok s \<Longrightarrow> keys_ok s'"
proof -
  obtain n where n: "normalizeSymbol symbol = Inr n" "\<not> is_closed s"
    using assms by (auto simp: acquireIsolatedClient_def Let_def split: sum.splits if_splits)
  show ?thesis
  proof (cases "client_at s kind n")
    case None
    show ?thesis
      by (rule fresh[of n]) (use n None assms in \<open>auto simp: acquireIsolatedClient_def iso_defs fun_eq_iff update_conv' distinct_update\<close>)
  next
    case (Some k0)
    show ?thesis
      by (rule shared[of n]) (use n Some assms in \<open>auto simp: acquireIsolatedClient_def iso_defs fun_eq_iff update_conv'\<close>)
  qed
qed

lemma release_cases:
  assumes "releaseIsolatedClient kind symbol k s = (gone, s')" "normalizeSymbol symbol = Inr n"
  obtains (other) "gone = None" "s' = s" "client_at s kind n \<noteq> Some k"
  | (counted) "gone = None" "client_at s kind n = Some k" "1 < refs_at s kind n" "client_at s' = client_at s"
      "refs_at s' = (refs_at s)(kind := (refs_at s kind)(n := refs_at s kind n - 1))" "is_next s' = is_next s"
      "is_closed s' = is_closed s" "keys_ok s \<Longrightarrow> keys_ok s'"
  | (last) "gone = Some k" "client_at s kind n = Some k" "refs_at s kind n \<le> 1"
      "client_at s' = (client_at s)(kind := (client_at s kind)(n := None))"
      "refs_at s' = (refs_at s)(kind := (refs_at s kind)(n := 0))" "is_next s' = is_next s"
      "is_closed s' = is_closed s" "keys_ok s \<Longrightarrow> keys_ok s'"
proof (cases "client_at s kind n = Some k")
  case False
  then show ?thesis using assms by (intro other) (auto simp: releaseIsolatedClient_def iso_defs)
next
  case True
  show ?thesis
  proof (cases "1 < refs_at s kind n")
    case high: True
    show ?thesis
      by (rule counted) (use high True assms in \<open>auto simp: releaseIsolatedClient_def iso_defs fun_eq_iff update_conv'\<close>)
  next
    case False
    show ?thesis
      by (rule last) (use False True assms in \<open>auto simp: releaseIsolatedClient_def iso_defs fun_eq_iff delete_conv' distinct_delete\<close>)
  qed
qed

lemma remove_cases:
  assumes "removeIsolatedClientForVariant variant kind symbol s = (Inr (Some k), s')"
  obtains n where "client_at s kind n = Some k" "client_at s' = (client_at s)(kind := (client_at s kind)(n := None))"
    "refs_at s' = (refs_at s)(kind := (refs_at s kind)(n := 0))" "is_next s' = is_next s" "is_closed s' = is_closed s" "keys_ok s \<Longrightarrow> keys_ok s'"
proof -
  obtain n where n: "normalizeSymbol symbol = Inr n" "client_at s kind n = Some k"
    using assms by (auto simp: removeIsolatedClientForVariant_def iso_defs split: sum.splits option.splits)
  show ?thesis
    by (rule that[of n]) (use n assms in \<open>auto simp: removeIsolatedClientForVariant_def iso_defs fun_eq_iff delete_conv' distinct_delete
      split: option.splits\<close>)
qed

lemma sweep_cases:
  assumes "sweepIsolatedClients s = (clients, s')"
  shows "client_at s' kind n = None" "refs_at s' kind n = 0" "is_next s' = is_next s" "is_closed s' = is_closed s" "keys_ok s'"
    "keys_ok s \<Longrightarrow> k \<in> set clients \<longleftrightarrow> (\<exists>kind n. client_at s kind n = Some k)"
proof -
  show "client_at s' kind n = None" "refs_at s' kind n = 0" "is_next s' = is_next s" "is_closed s' = is_closed s" "keys_ok s'"
    using assms by (auto simp: sweepIsolatedClients_def iso_defs)
  assume "keys_ok s"
  then have "map_of (im_clients (is_maps s kind)) n = Some k \<longleftrightarrow> (n, k) \<in> set (im_clients (is_maps s kind))" for kind n
    by (simp add: keys_ok_def)
  then have "(\<exists>n. client_at s kind n = Some k) \<longleftrightarrow> k \<in> snd ` set (im_clients (is_maps s kind))" for kind
    by (force simp: client_at_def)
  moreover have "k \<in> set clients \<longleftrightarrow> k \<in> snd ` set (im_clients (is_maps s DiffSnapshots)) \<or> k \<in> snd ` set (im_clients (is_maps s PartialSnapshots))"
    using assms unfolding sweepIsolatedClients_def prod.inject by (elim conjE, hypsubst) (simp only: set_append set_map Un_iff)
  ultimately show "k \<in> set clients \<longleftrightarrow> (\<exists>kind n. client_at s kind n = Some k)" by (metis iso_kind.exhaust)
qed

section \<open>The invariant\<close>

text \<open>The acquisitions of a client: its subscribers under way and its holders.\<close>

definition actor_uses :: "iso_kind \<Rightarrow> nat \<Rightarrow> iso_actor \<Rightarrow> bool" where
  "actor_uses kind k a \<longleftrightarrow> (case a of Subscribing kind' symbol k' \<Rightarrow> kind' = kind \<and> k' = k | Closing _ \<Rightarrow> False)"

definition holder_uses :: "iso_kind \<Rightarrow> nat \<Rightarrow> iso_kind \<times> string \<times> nat \<Rightarrow> bool" where
  "holder_uses kind k h \<longleftrightarrow> fst h = kind \<and> snd (snd h) = k"

definition uses :: "iso_run \<Rightarrow> iso_kind \<Rightarrow> nat \<Rightarrow> nat" where
  "uses r kind k = size (filter_mset (actor_uses kind k) (ir_actors r)) + size (filter_mset (holder_uses kind k) (ir_holders r))"

text \<open>A client has a user, for a kind of snapshots and a symbol as written.\<close>

definition user :: "iso_run \<Rightarrow> iso_kind \<Rightarrow> string \<Rightarrow> nat \<Rightarrow> bool" where
  "user r kind symbol k \<longleftrightarrow> Subscribing kind symbol k \<in># ir_actors r \<or> (kind, symbol, k) \<in># ir_holders r"

text \<open>Where a client belongs: its place in the maps and the symbols of its users.\<close>

definition place :: "iso_run \<Rightarrow> nat \<Rightarrow> iso_kind \<times> string \<Rightarrow> bool" where
  "place r k p \<longleftrightarrow> client_at (ir_state r) (fst p) (snd p) = Some k \<or>
     (\<exists>symbol. user r (fst p) symbol k \<and> normalizeSymbol symbol = Inr (snd p))"

definition places_ok :: "iso_run \<Rightarrow> bool" where
  "places_ok r \<longleftrightarrow> (\<forall>kind symbol k. user r kind symbol k \<longrightarrow> (\<exists>n. normalizeSymbol symbol = Inr n)) \<and>
     (\<forall>k p q. place r k p \<longrightarrow> place r k q \<longrightarrow> p = q)"

definition refs_ok :: "iso_run \<Rightarrow> bool" where
  "refs_ok r \<longleftrightarrow> (\<forall>kind n. refs_at (ir_state r) kind n =
     (case client_at (ir_state r) kind n of None \<Rightarrow> 0 | Some k \<Rightarrow> uses r kind k))"

definition open_ok :: "iso_run \<Rightarrow> bool" where
  "open_ok r \<longleftrightarrow> (\<forall>kind n k. client_at (ir_state r) kind n = Some k \<longrightarrow>
     k < is_next (ir_state r) \<and> k \<notin> ir_closedClients r \<and> Closing k \<notin># ir_actors r)"

definition fresh_ok :: "iso_run \<Rightarrow> bool" where
  "fresh_ok r \<longleftrightarrow> (\<forall>k\<ge>is_next (ir_state r). Closing k \<notin># ir_actors r \<and> k \<notin> ir_closedClients r \<and> (\<forall>kind symbol. \<not> user r kind symbol k))"

definition traced :: "iso_run \<Rightarrow> bool" where
  "traced r \<longleftrightarrow> (\<forall>k<is_next (ir_state r). k \<in> ir_closedClients r \<or> Closing k \<in># ir_actors r \<or>
     (\<exists>kind n. client_at (ir_state r) kind n = Some k))"

definition swept_ok :: "iso_run \<Rightarrow> bool" where
  "swept_ok r \<longleftrightarrow> (ir_swept r \<longrightarrow> is_closed (ir_state r) \<and> (\<forall>kind n. client_at (ir_state r) kind n = None))"

definition iso_inv :: "iso_run \<Rightarrow> bool" where
  "iso_inv r \<longleftrightarrow> keys_ok (ir_state r) \<and> places_ok r \<and> refs_ok r \<and> open_ok r \<and> fresh_ok r \<and> traced r \<and> swept_ok r"

lemma no_user_no_uses: "(\<And>symbol. \<not> user r kind symbol k) \<Longrightarrow> uses r kind k = 0"
  by (auto simp: uses_def user_def actor_uses_def holder_uses_def filter_mset_eq_mempty_iff split: iso_actor.splits)

lemma iso_inv_start: "iso_inv iso_start"
  by (auto simp: iso_inv_def iso_start_def keys_ok_def places_ok_def refs_ok_def open_ok_def fresh_ok_def traced_def swept_ok_def
    place_def user_def client_at_def refs_at_def ref_count_def)

lemmas run_defs = user_def uses_def actor_uses_def holder_uses_def

lemma places_valid: "places_ok r \<Longrightarrow> user r kind symbol k \<Longrightarrow> \<exists>n. normalizeSymbol symbol = Inr n"
  by (auto simp: places_ok_def)

lemma place_unique: "places_ok r \<Longrightarrow> place r k p \<Longrightarrow> place r k q \<Longrightarrow> p = q"
  unfolding places_ok_def by blast

lemma place_user: "places_ok r \<Longrightarrow> user r kind symbol k \<Longrightarrow> \<exists>n. normalizeSymbol symbol = Inr n \<and> place r k (kind, n)"
  using places_valid by (fastforce simp: place_def)

lemma place_client: "client_at (ir_state r) kind n = Some k \<Longrightarrow> place r k (kind, n)"
  by (simp add: place_def)

lemma place_user_client:
  "places_ok r \<Longrightarrow> user r kind symbol k \<Longrightarrow> client_at (ir_state r) kind' n = Some k \<Longrightarrow> kind' = kind \<and> normalizeSymbol symbol = Inr n"
  using place_user place_client place_unique by blast

text \<open>Whatever only drops users and clients keeps the places.\<close>

lemma places_mono:
  assumes "places_ok r" "\<And>kind symbol k. user r' kind symbol k \<Longrightarrow> user r kind symbol k"
    and "\<And>kind n k. client_at (ir_state r') kind n = Some k \<Longrightarrow> client_at (ir_state r) kind n = Some k"
  shows "places_ok r'"
proof -
  have "place r' k p \<Longrightarrow> place r k p" for k p using assms(2,3) unfolding place_def by blast
  then show ?thesis using assms(1,2) unfolding places_ok_def by blast
qed

text \<open>A new user of a client goes to its only place.\<close>

lemma places_add:
  assumes "places_ok r" "\<And>kind' symbol' k'. user r' kind' symbol' k' \<longleftrightarrow> user r kind' symbol' k' \<or> (kind' = kind \<and> symbol' = symbol \<and> k' = k)"
    and "\<And>kind' n' k'. client_at (ir_state r') kind' n' = Some k' \<Longrightarrow>
      client_at (ir_state r) kind' n' = Some k' \<or> (kind' = kind \<and> n' = n \<and> k' = k)"
    and "normalizeSymbol symbol = Inr n" "\<And>p. place r k p \<Longrightarrow> p = (kind, n)"
  shows "places_ok r'"
proof -
  have "place r' k' p \<Longrightarrow> place r k' p \<or> (k' = k \<and> p = (kind, n))" for k' p
    using assms(3)[of "fst p" "snd p" k'] assms(2,4) by (auto simp: place_def prod_eq_iff)
  then have "place r' k' p \<Longrightarrow> place r' k' q \<Longrightarrow> p = q" for k' p q
    using place_unique[OF assms(1)] assms(5) by metis
  moreover have "\<exists>n. normalizeSymbol symbol' = Inr n" if "user r' kind' symbol' k'" for kind' symbol' k'
    using that places_valid[OF assms(1)] assms(2,4) by blast
  ultimately show ?thesis unfolding places_ok_def by blast
qed

lemma iso_inv_acquire:
  assumes inv: "iso_inv r" and got: "acquireIsolatedClient kind symbol (ir_state r) = (Inr k, s)"
    and r': "r' = r\<lparr>ir_state := s, ir_actors := ir_actors r + {#Subscribing kind symbol k#}\<rparr>"
  shows "iso_inv r'"
proof -
  have user: "user r' kind' symbol' k' \<longleftrightarrow> user r kind' symbol' k' \<or> (kind' = kind \<and> symbol' = symbol \<and> k' = k)" for kind' symbol' k'
    by (auto simp: r' user_def)
  have uses: "uses r' kind' k' = uses r kind' k' + (if kind' = kind \<and> k' = k then 1 else 0)" for kind' k'
    by (auto simp: r' uses_def actor_uses_def)
  have clos: "Closing k' \<in># ir_actors r' \<longleftrightarrow> Closing k' \<in># ir_actors r" for k' by (auto simp: r')
  have rest: "ir_closedClients r' = ir_closedClients r" "ir_state r' = s" "ir_swept r' = ir_swept r" by (simp_all add: r')
  have keys: "keys_ok (ir_state r)" and places: "places_ok r" and refs: "refs_ok r" and opn: "open_ok r" and frsh: "fresh_ok r"
    and tr: "traced r" and sw: "swept_ok r" using inv by (simp_all add: iso_inv_def)
  from got show ?thesis
  proof (cases rule: acquire_cases)
    case (shared n)
    have "places_ok r'"
      by (rule places_add[OF places user, of n]) (use place_unique[OF places _ place_client] shared in \<open>auto simp: rest\<close>)
    moreover have "refs_ok r'" unfolding refs_ok_def rest uses
      using refs place_unique[OF places place_client place_client] shared by (auto simp: refs_ok_def split: option.splits)
    moreover have "open_ok r'" using opn shared unfolding open_ok_def clos rest by simp
    moreover have "fresh_ok r'" using frsh opn shared unfolding fresh_ok_def open_ok_def user clos rest by (metis leD)
    moreover have "traced r'" "swept_ok r'" using tr sw shared unfolding traced_def swept_ok_def clos rest by auto
    ultimately show ?thesis using keys shared by (simp add: iso_inv_def rest)
  next
    case (fresh n)
    have none: "\<not> user r kind' symbol' k" "client_at (ir_state r) kind' n' \<noteq> Some k" for kind' symbol' n'
      using frsh opn fresh unfolding fresh_ok_def open_ok_def by (simp, metis less_irrefl)
    then have zero: "uses r kind' k = 0" for kind' using no_user_no_uses by blast
    have "places_ok r'"
      by (rule places_add[OF places user, of n]) (use fresh none in \<open>auto simp: rest place_def split: if_splits\<close>)
    moreover have "refs_ok r'" using refs fresh none zero unfolding refs_ok_def rest uses by (auto split: option.splits)
    moreover have "open_ok r'" using opn frsh fresh unfolding open_ok_def fresh_ok_def clos rest by (auto simp: less_Suc_eq)
    moreover have "fresh_ok r'" using frsh fresh unfolding fresh_ok_def user clos rest by auto
    moreover have "traced r'"
    proof -
      have "client_at (ir_state r) kind' n' = Some k' \<Longrightarrow> client_at s kind' n' = Some k'" "client_at s kind n = Some k" for kind' n' k'
        using fresh by auto
      then show ?thesis using tr fresh(4,5) unfolding traced_def clos rest by (metis less_Suc_eq)
    qed
    moreover have "swept_ok r'" using sw fresh unfolding swept_ok_def rest by auto
    ultimately show ?thesis using keys fresh by (simp add: iso_inv_def rest)
  qed
qed

text \<open>Every other step drops users and clients and passes clients on towards their closing.\<close>

lemma iso_inv_update:
  assumes inv: "iso_inv r"
    and users: "\<And>kind symbol k. user r' kind symbol k \<Longrightarrow> user r kind symbol k"
    and clients: "\<And>kind n k. client_at (ir_state r') kind n = Some k \<Longrightarrow> client_at (ir_state r) kind n = Some k"
    and refs: "\<And>kind n. refs_at (ir_state r') kind n = (case client_at (ir_state r') kind n of None \<Rightarrow> 0 | Some k \<Rightarrow> uses r' kind k)"
    and closing: "\<And>k. Closing k \<in># ir_actors r' \<Longrightarrow> Closing k \<in># ir_actors r \<or>
      ((\<exists>kind n. client_at (ir_state r) kind n = Some k) \<and> (\<forall>kind n. client_at (ir_state r') kind n \<noteq> Some k))"
    and gone: "\<And>k. k \<in> ir_closedClients r' \<Longrightarrow> k \<in> ir_closedClients r \<or> Closing k \<in># ir_actors r"
    and gone_kept: "\<And>k. k \<in> ir_closedClients r \<Longrightarrow> k \<in> ir_closedClients r'"
    and closing_kept: "\<And>k. Closing k \<in># ir_actors r \<Longrightarrow> Closing k \<in># ir_actors r' \<or> k \<in> ir_closedClients r'"
    and clients_kept: "\<And>kind n k. client_at (ir_state r) kind n = Some k \<Longrightarrow>
      client_at (ir_state r') kind n = Some k \<or> Closing k \<in># ir_actors r'"
    and keys: "keys_ok (ir_state r')" and same: "is_next (ir_state r') = is_next (ir_state r)"
    and swept: "ir_swept r' \<Longrightarrow> \<not> ir_swept r \<Longrightarrow> is_closed (ir_state r') \<and> (\<forall>kind n. client_at (ir_state r') kind n = None)"
    and shut: "is_closed (ir_state r) \<Longrightarrow> is_closed (ir_state r')"
  shows "iso_inv r'"
proof -
  have old: "places_ok r" "open_ok r" "fresh_ok r" "traced r" "swept_ok r" using inv by (simp_all add: iso_inv_def)
  have "places_ok r'" by (rule places_mono[OF old(1) users clients])
  moreover have "refs_ok r'" using refs by (simp add: refs_ok_def)
  moreover have "open_ok r'" unfolding open_ok_def same using old(2) clients closing gone unfolding open_ok_def by blast
  moreover have "fresh_ok r'"
    using old(2,3) users closing gone unfolding fresh_ok_def open_ok_def same by (metis leD)
  moreover have "traced r'" using old(4) gone_kept closing_kept clients_kept unfolding traced_def same by blast
  moreover have "swept_ok r'" unfolding swept_ok_def
  proof
    assume now: "ir_swept r'"
    show "is_closed (ir_state r') \<and> (\<forall>kind n. client_at (ir_state r') kind n = None)"
    proof (cases "ir_swept r")
      case True
      then show ?thesis using old(5) clients shut unfolding swept_ok_def by (metis not_Some_eq)
    next
      case False
      then show ?thesis using swept now by blast
    qed
  qed
  ultimately show ?thesis using keys by (simp add: iso_inv_def)
qed

lemma iso_inv_dest:
  assumes "iso_inv r"
  shows inv_keys: "keys_ok (ir_state r)" and inv_places: "places_ok r"
    and inv_refs: "refs_at (ir_state r) kind n = (case client_at (ir_state r) kind n of None \<Rightarrow> 0 | Some k \<Rightarrow> uses r kind k)"
  using assms by (simp_all add: iso_inv_def refs_ok_def)

lemma iso_inv_served:
  assumes inv: "iso_inv r" and actors: "ir_actors r = rest + {#Subscribing kind symbol k#}"
  shows "iso_inv (r\<lparr>ir_actors := rest, ir_holders := ir_holders r + {#(kind, symbol, k)#}\<rparr>)"
proof (rule iso_inv_update[OF inv])
  have "uses (r\<lparr>ir_actors := rest, ir_holders := ir_holders r + {#(kind, symbol, k)#}\<rparr>) kind' k' = uses r kind' k'" for kind' k'
    using actors by (auto simp: uses_def actor_uses_def holder_uses_def)
  then show "refs_at (ir_state (r\<lparr>ir_actors := rest, ir_holders := ir_holders r + {#(kind, symbol, k)#}\<rparr>)) kind' n =
    (case client_at (ir_state (r\<lparr>ir_actors := rest, ir_holders := ir_holders r + {#(kind, symbol, k)#}\<rparr>)) kind' n of
       None \<Rightarrow> 0 | Some k' \<Rightarrow> uses (r\<lparr>ir_actors := rest, ir_holders := ir_holders r + {#(kind, symbol, k)#}\<rparr>) kind' k')" for kind' n
    using inv_refs[OF inv] by (simp split: option.splits)
qed (use actors inv_keys[OF inv] in \<open>auto simp: user_def\<close>)

lemma iso_inv_refused:
  assumes inv: "iso_inv r" and actors: "ir_actors r = rest + {#Subscribing kind symbol k#}"
    and release: "releaseIsolatedClient kind symbol k (ir_state r) = (None, s)"
  shows "iso_inv (r\<lparr>ir_state := s, ir_actors := rest\<rparr>)"
proof -
  let ?r = "r\<lparr>ir_state := s, ir_actors := rest\<rparr>"
  have u: "user r kind symbol k" using actors by (simp add: user_def)
  then obtain n where n: "normalizeSymbol symbol = Inr n" using places_valid[OF inv_places[OF inv]] by blast
  have uses: "uses r kind' k' = uses ?r kind' k' + (if kind' = kind \<and> k' = k then 1 else 0)" for kind' k'
    using actors by (auto simp: uses_def actor_uses_def)
  have at: "kind' = kind \<and> n' = n" if "client_at (ir_state r) kind' n' = Some k" for kind' n'
    using place_user_client[OF inv_places[OF inv] u that] n by simp
  have "iso_inv ?r" if "client_at s = client_at (ir_state r)" "is_next s = is_next (ir_state r)" "is_closed s = is_closed (ir_state r)" "keys_ok s"
    "\<And>kind' n'. refs_at s kind' n' = (case client_at s kind' n' of None \<Rightarrow> 0 | Some k' \<Rightarrow> uses ?r kind' k')"
    by (rule iso_inv_update[OF inv]) (use that actors in \<open>auto simp: user_def\<close>)
  note kept = this
  from release n show ?thesis
  proof (cases rule: release_cases)
    case other
    have "refs_at s kind' n' = (case client_at s kind' n' of None \<Rightarrow> 0 | Some k' \<Rightarrow> uses ?r kind' k')" for kind' n'
    proof (cases "client_at (ir_state r) kind' n'")
      case (Some k')
      then have "\<not> (kind' = kind \<and> k' = k)" using at other by blast
      then show ?thesis using inv_refs[OF inv, of kind' n'] other Some uses[of kind' k'] by (simp del: de_Morgan_conj)
    qed (use inv_refs[OF inv] other in simp)
    then show ?thesis using inv_keys[OF inv] other by (intro kept) simp_all
  next
    case counted
    have "refs_at s kind' n' = (case client_at s kind' n' of None \<Rightarrow> 0 | Some k' \<Rightarrow> uses ?r kind' k')" for kind' n'
    proof (cases "client_at (ir_state r) kind' n'")
      case (Some k')
      have iff: "kind' = kind \<and> k' = k \<longleftrightarrow> kind' = kind \<and> n' = n" using at[of kind' n'] counted(2) Some by auto
      have "refs_at s kind' n' = refs_at (ir_state r) kind' n' - (if kind' = kind \<and> n' = n then 1 else 0)"
        using counted(5) by auto
      then show ?thesis
        using inv_refs[OF inv, of kind' n'] counted(4) Some uses[of kind' k'] iff by simp
    next
      case None
      then have "\<not> (kind' = kind \<and> n' = n)" using counted(2) by auto
      then show ?thesis using inv_refs[OF inv, of kind' n'] counted(4,5) None by auto
    qed
    then show ?thesis using inv_keys[OF inv] counted by (intro kept) simp_all
  qed simp
qed

lemma iso_inv_removed:
  assumes inv: "iso_inv r" and at: "client_at (ir_state r) kind n = Some k"
    and s: "client_at s = (client_at (ir_state r))(kind := (client_at (ir_state r) kind)(n := None))"
      "refs_at s = (refs_at (ir_state r))(kind := (refs_at (ir_state r) kind)(n := 0))"
      "is_next s = is_next (ir_state r)" "is_closed s = is_closed (ir_state r)" "keys_ok s"
    and actors: "ir_actors r = rest \<or> ir_actors r = rest + {#Subscribing kind symbol k#}"
  shows "iso_inv (r\<lparr>ir_state := s, ir_actors := rest + {#Closing k#}\<rparr>)"
proof -
  let ?r = "r\<lparr>ir_state := s, ir_actors := rest + {#Closing k#}\<rparr>"
  have unique: "kind' = kind \<and> n' = n" if "client_at (ir_state r) kind' n' = Some k" for kind' n'
    using place_unique[OF inv_places[OF inv] place_client[OF that] place_client[OF at]] by simp
  have none: "client_at s kind' n' \<noteq> Some k" for kind' n' using unique s(1) by auto
  have uses: "uses ?r kind' k' = uses r kind' k'" if "k' \<noteq> k" for kind' k'
    using actors that by (auto simp: uses_def actor_uses_def)
  have refs: "refs_at s kind' n' = (case client_at s kind' n' of None \<Rightarrow> 0 | Some k' \<Rightarrow> uses ?r kind' k')" for kind' n'
  proof (cases "client_at s kind' n'")
    case None
    then show ?thesis using s(1,2) inv_refs[OF inv, of kind' n'] by (auto split: if_splits)
  next
    case (Some k')
    have "k' \<noteq> k" using none[of kind' n'] Some by auto
    moreover have "\<not> (kind' = kind \<and> n' = n)" "client_at (ir_state r) kind' n' = Some k'"
      using Some unfolding s(1) by (auto split: if_splits)
    ultimately show ?thesis using s(2) inv_refs[OF inv, of kind' n'] Some uses[of k' kind'] by auto
  qed
  show ?thesis
  proof (rule iso_inv_update[OF inv])
    show "client_at (ir_state ?r) kind' n' = Some k' \<Longrightarrow> client_at (ir_state r) kind' n' = Some k'" for kind' n' k'
      using s(1) by (auto split: if_splits)
    show "client_at (ir_state r) kind' n' = Some k' \<Longrightarrow> client_at (ir_state ?r) kind' n' = Some k' \<or> Closing k' \<in># ir_actors ?r"
      for kind' n' k' using s(1) at by auto
    show "Closing k' \<in># ir_actors r \<or> (\<exists>kind n. client_at (ir_state r) kind n = Some k') \<and> (\<forall>kind n. client_at (ir_state ?r) kind n \<noteq> Some k')"
      if "Closing k' \<in># ir_actors ?r" for k' using that at none actors by auto
  qed (use s actors refs in \<open>auto simp: user_def\<close>)
qed

lemma iso_inv_step: "iso_step r r' \<Longrightarrow> iso_inv r \<Longrightarrow> iso_inv r'"
proof (induction rule: iso_step.induct)
  case (acquire kind symbol r client s)
  show ?case by (rule iso_inv_acquire[OF acquire(2,1) refl])
next
  case (served r rest kind symbol client)
  show ?case by (rule iso_inv_served[OF served(2,1)])
next
  case (refused r rest kind symbol client s)
  show ?case by (rule iso_inv_refused[OF refused(3,1,2)])
next
  case (refused_last r rest kind symbol client c s)
  have "user r kind symbol client" using refused_last(1) by (simp add: user_def)
  then obtain n where "normalizeSymbol symbol = Inr n" using places_valid[OF inv_places[OF refused_last(3)]] by blast
  with refused_last(2) show ?case
  proof (cases rule: release_cases)
    case last
    show ?thesis
      using iso_inv_removed[OF refused_last(3) last(2,4,5,6,7) last(8)[OF inv_keys[OF refused_last(3)]] disjI2[OF refused_last(1)]] last(1)
      by simp
  qed simp_all
next
  case (unsubscribe variant kind symbol r client s)
  from unsubscribe(1) show ?case
  proof (cases rule: remove_cases)
    case (1 n)
    show ?thesis
      by (rule iso_inv_removed[OF unsubscribe(2) 1(1-5) 1(6)[OF inv_keys[OF unsubscribe(2)]] disjI1[OF refl]])
  qed
next
  case (close_client r rest client)
  have "uses (r\<lparr>ir_actors := rest, ir_closedClients := insert client (ir_closedClients r)\<rparr>) = uses r"
    using close_client(1) by (auto simp: uses_def actor_uses_def fun_eq_iff)
  then show ?case
    by (intro iso_inv_update[OF close_client(2)])
      (use close_client(1) inv_refs[OF close_client(2)] inv_keys[OF close_client(2)] in \<open>auto simp: user_def split: option.splits\<close>)
next
  case (close_parent r)
  have "uses (r\<lparr>ir_state := (ir_state r)\<lparr>is_closed := True\<rparr>\<rparr>) = uses r" by (auto simp: uses_def fun_eq_iff)
  moreover have "client_at ((ir_state r)\<lparr>is_closed := True\<rparr>) = client_at (ir_state r)" "refs_at ((ir_state r)\<lparr>is_closed := True\<rparr>) = refs_at (ir_state r)"
    by (auto simp: iso_defs fun_eq_iff)
  ultimately show ?case
    by (intro iso_inv_update[OF close_parent]) (use inv_refs[OF close_parent] inv_keys[OF close_parent] in \<open>auto simp: user_def keys_ok_def split: option.splits\<close>)
next
  case (sweep r clients s)
  note facts = sweep_cases[OF sweep(3)]
  show ?case
    by (rule iso_inv_update[OF sweep(4)])
      (use facts(1-5) facts(6)[OF inv_keys[OF sweep(4)]] sweep(1) in \<open>auto simp: user_def image_iff\<close>)
qed

lemma iso_reachable_inv: "iso_reachable r \<Longrightarrow> iso_inv r"
  by (induction rule: iso_reachable.induct) (auto intro: iso_inv_start iso_inv_step)

section \<open>The properties\<close>

text \<open>C34: An isolated connection carries the snapshots of one symbol only. Under every interleaving of subscribers,
  failures, unsubscribers and \<open>Close\<close>, two users of one client, under way or served, asked for the same kind of
  snapshot and the same normalised symbol, so a snapshot without a symbol is never ambiguous on it.\<close>

theorem isolated_client_one_symbol:
  assumes "iso_reachable r" "user r kind symbol client" "user r kind' symbol' client"
  shows "kind' = kind \<and> normalizeSymbol symbol' = normalizeSymbol symbol"
proof -
  note ok = inv_places[OF iso_reachable_inv[OF assms(1)]]
  obtain n n' where "normalizeSymbol symbol = Inr n" "place r client (kind, n)" "normalizeSymbol symbol' = Inr n'" "place r client (kind', n')"
    using place_user[OF ok assms(2)] place_user[OF ok assms(3)] by blast
  then show ?thesis using place_unique[OF ok] by (metis Pair_inject)
qed

text \<open>A run: two subscribers of one symbol, written differently; the second waits for its answer.\<close>

definition sample_maps :: "nat \<Rightarrow> iso_state" where
  "sample_maps n = \<lparr>is_maps = (\<lambda>kind. if kind = DiffSnapshots then \<lparr>im_clients = [(''BTCUSD'', 0)], im_refs = [(''BTCUSD'', n)]\<rparr>
     else \<lparr>im_clients = [], im_refs = []\<rparr>), is_next = 1, is_closed = False\<rparr>"

definition sample_run :: iso_run where
  "sample_run = \<lparr>ir_state = sample_maps 2, ir_actors = {#Subscribing DiffSnapshots ''BTCUSD'' 0, Subscribing DiffSnapshots ''btcusd'' 0#},
     ir_holders = {#}, ir_closedClients = {}, ir_swept = False\<rparr>"

definition sample_alone :: iso_run where
  "sample_alone = \<lparr>ir_state = sample_maps 1, ir_actors = {#Subscribing DiffSnapshots ''BTCUSD'' 0#},
     ir_holders = {#}, ir_closedClients = {}, ir_swept = False\<rparr>"

definition sample_swept :: iso_run where
  "sample_swept = \<lparr>ir_state = \<lparr>is_maps = (\<lambda>_. \<lparr>im_clients = [], im_refs = []\<rparr>), is_next = 1, is_closed = True\<rparr>,
     ir_actors = {#Subscribing DiffSnapshots ''BTCUSD'' 0, Closing 0#}, ir_holders = {#}, ir_closedClients = {}, ir_swept = True\<rparr>"

lemma sample_symbols: "normalizeSymbol ''BTCUSD'' = Inr ''BTCUSD''" "normalizeSymbol ''btcusd'' = Inr ''BTCUSD''"
  by code_simp+

lemma sample_alone_reachable: "iso_reachable sample_alone"
proof -
  have "acquireIsolatedClient DiffSnapshots ''BTCUSD'' (ir_state iso_start) = (Inr 0, sample_maps 1)"
    by (auto simp: acquireIsolatedClient_def sample_symbols iso_start_def sample_maps_def set_maps_def ref_count_def)
  from iso_step.acquire[OF this] have "iso_step iso_start sample_alone" by (simp add: iso_start_def sample_alone_def)
  then show ?thesis using iso_reachable.intros by blast
qed

lemma sample_run_reachable: "iso_reachable sample_run"
proof -
  have "acquireIsolatedClient DiffSnapshots ''btcusd'' (ir_state sample_alone) = (Inr 0, sample_maps 2)"
    by (auto simp: acquireIsolatedClient_def sample_symbols sample_alone_def sample_maps_def set_maps_def ref_count_def)
  from iso_step.acquire[OF this] have "iso_step sample_alone sample_run" by (simp add: sample_alone_def sample_run_def add_mset_commute)
  then show ?thesis using sample_alone_reachable iso_reachable.step by blast
qed

lemma sample_swept_reachable: "iso_reachable sample_swept"
proof -
  let ?closed = "sample_alone\<lparr>ir_state := (ir_state sample_alone)\<lparr>is_closed := True\<rparr>\<rparr>"
  have closed: "iso_reachable ?closed" using sample_alone_reachable iso_reachable.step iso_step.close_parent by blast
  have "iso_step ?closed (?closed\<lparr>ir_state := snd (sweepIsolatedClients (ir_state ?closed)),
      ir_actors := ir_actors ?closed + mset (map Closing (fst (sweepIsolatedClients (ir_state ?closed)))), ir_swept := True\<rparr>)"
    by (rule iso_step.sweep) (simp_all add: sample_alone_def)
  also have "?closed\<lparr>ir_state := snd (sweepIsolatedClients (ir_state ?closed)),
      ir_actors := ir_actors ?closed + mset (map Closing (fst (sweepIsolatedClients (ir_state ?closed)))), ir_swept := True\<rparr> = sample_swept"
    by (simp add: sample_alone_def sample_swept_def sample_maps_def sweepIsolatedClients_def add_mset_commute)
  finally show ?thesis using closed iso_reachable.step by blast
qed

theorem isolated_client_one_symbol_witness:
  "DiffSnapshots = DiffSnapshots \<and> normalizeSymbol ''btcusd'' = normalizeSymbol ''BTCUSD''"
  by (rule isolated_client_one_symbol[OF sample_run_reachable, of DiffSnapshots "''BTCUSD''" 0]) (simp_all add: user_def sample_run_def)

text \<open>C35: A subscription that fails closes its isolated client only when nobody else uses it: the client the release
  hands back for closing is the subscriber's own, and no other subscriber under way and no served one has it.\<close>

theorem isolated_failure_private:
  assumes "iso_reachable r" "ir_actors r = rest + {#Subscribing kind symbol client#}"
    and "fst (releaseIsolatedClient kind symbol client (ir_state r)) = Some c"
  shows "c = client \<and> (\<nexists>kind' symbol'. Subscribing kind' symbol' client \<in># rest \<or> (kind', symbol', client) \<in># ir_holders r)"
proof -
  note inv = iso_reachable_inv[OF assms(1)]
  have u: "user r kind symbol client" using assms(2) by (simp add: user_def)
  then obtain n where n: "normalizeSymbol symbol = Inr n" using places_valid[OF inv_places[OF inv]] by blast
  obtain s where "releaseIsolatedClient kind symbol client (ir_state r) = (Some c, s)" using assms(3) by (metis prod.collapse)
  from this n have at: "c = client \<and> client_at (ir_state r) kind n = Some client \<and> refs_at (ir_state r) kind n \<le> 1"
    by (cases rule: release_cases) simp_all
  then have few: "uses r kind client \<le> 1" using inv_refs[OF inv, of kind n] by (metis option.simps(5))
  have "\<not> (Subscribing kind' symbol' client \<in># rest \<or> (kind', symbol', client) \<in># ir_holders r)" for kind' symbol'
  proof
    assume other: "Subscribing kind' symbol' client \<in># rest \<or> (kind', symbol', client) \<in># ir_holders r"
    then have "user r kind' symbol' client" using assms(2) by (auto simp: user_def)
    then have "kind' = kind" using place_user_client[OF inv_places[OF inv]] at by blast
    with other have "{#} \<noteq> filter_mset (actor_uses kind client) rest + filter_mset (\<lambda>_. True) {#} \<or>
        {#} \<noteq> filter_mset (holder_uses kind client) (ir_holders r)"
      by (auto simp: actor_uses_def holder_uses_def)
    then show False using few assms(2) by (auto simp: uses_def actor_uses_def nonempty_has_size)
  qed
  then show ?thesis using at by blast
qed

theorem isolated_failure_private_witness:
  "0 = (0 :: nat) \<and> (\<nexists>kind' symbol'. Subscribing kind' symbol' 0 \<in># {#} \<or> (kind', symbol', 0) \<in># ir_holders sample_alone)"
  by (rule isolated_failure_private[OF sample_alone_reachable, of "{#}" DiffSnapshots "''BTCUSD''"])
    (simp_all add: sample_alone_def releaseIsolatedClient_def sample_symbols sample_maps_def ref_count_def)

text \<open>No isolated connection outlives its parent. Once \<open>Close\<close> has swept the maps, every client ever made is
  closed or about to be closed by a goroutine that holds it, and no acquisition succeeds any more.\<close>

theorem isolated_none_leaked:
  assumes "iso_reachable r" "ir_swept r"
  shows "(\<nexists>client. client < is_next (ir_state r) \<and> client \<notin> ir_closedClients r \<and> Closing client \<notin># ir_actors r) \<and>
    (\<nexists>kind symbol client s. acquireIsolatedClient kind symbol (ir_state r) = (Inr client, s))"
proof -
  note inv = iso_reachable_inv[OF assms(1)]
  have "is_closed (ir_state r)" "client_at (ir_state r) kind n = None" "traced r" for kind n
    using inv assms(2) by (simp_all add: iso_inv_def swept_ok_def)
  then show ?thesis by (auto simp: traced_def elim: acquire_cases)
qed

theorem isolated_none_leaked_witness:
  "(\<nexists>client. client < is_next (ir_state sample_swept) \<and> client \<notin> ir_closedClients sample_swept \<and> Closing client \<notin># ir_actors sample_swept) \<and>
    (\<nexists>kind symbol client s. acquireIsolatedClient kind symbol (ir_state sample_swept) = (Inr client, s))"
  by (rule isolated_none_leaked[OF sample_swept_reachable]) (simp add: sample_swept_def)

end
