(* ===== verification/CliSession.thy ===== *)
theory CliSession
  imports Facade BookSpec
begin

text \<open>
  Credentials and sessions of the command line tool (\<open>packages/gemini-markets-cli\<close>): the sources of credentials
  (\<open>internal/credentials/credentials.go\<close>), the operating system's keyring, which logins and sessions use
  (\<open>os_keyring.go\<close>), the file keyring (\<open>file_keyring.go\<close>), profiles and the private session
  (\<open>internal/cli/root.go\<close>, \<open>private_session.go\<close>, \<open>auth.go\<close>) and the construction of the SDK client with the
  hook that saves rotated tokens (\<open>internal/session/session.go\<close>). The environment is a map; the contents of a file
  or of a keyring item are what \<open>encoding/json\<close> reads from them. The store behind the operating system's
  keyring (the package \<open>99designs/keyring\<close>) is a parameter.
\<close>

section \<open>Credentials\<close>

record credentials =
  cr_APIKey :: string
  cr_APISecret :: string
  cr_AccessToken :: string
  cr_RefreshToken :: string
  cr_OAuthClientID :: string
  cr_OAuthClientSecret :: string
  cr_ExpiresAt :: "int option"

definition empty_credentials :: credentials where
  "empty_credentials = \<lparr>cr_APIKey = [], cr_APISecret = [], cr_AccessToken = [], cr_RefreshToken = [], cr_OAuthClientID = [],
     cr_OAuthClientSecret = [], cr_ExpiresAt = None\<rparr>"

definition normalized_credentials :: "credentials \<Rightarrow> credentials" where
  "normalized_credentials c = c\<lparr>cr_APIKey := TrimSpace (cr_APIKey c), cr_APISecret := TrimSpace (cr_APISecret c),
     cr_AccessToken := TrimSpace (cr_AccessToken c), cr_RefreshToken := TrimSpace (cr_RefreshToken c),
     cr_OAuthClientID := TrimSpace (cr_OAuthClientID c), cr_OAuthClientSecret := TrimSpace (cr_OAuthClientSecret c)\<rparr>"

definition completeFamily :: "credentials \<Rightarrow> credentials option" where
  "completeFamily value0 =
     (let value = normalized_credentials value0
      in if cr_AccessToken value \<noteq> [] \<or> cr_RefreshToken value \<noteq> []
         then Some (empty_credentials\<lparr>cr_AccessToken := cr_AccessToken value, cr_RefreshToken := cr_RefreshToken value,
           cr_OAuthClientID := cr_OAuthClientID value, cr_OAuthClientSecret := cr_OAuthClientSecret value, cr_ExpiresAt := cr_ExpiresAt value\<rparr>)
         else if cr_APIKey value \<noteq> [] \<and> cr_APISecret value \<noteq> []
         then Some (empty_credentials\<lparr>cr_APIKey := cr_APIKey value, cr_APISecret := cr_APISecret value\<rparr>)
         else None)"

type_synonym environ = "string \<Rightarrow> string option"

definition lookup_env :: "environ \<Rightarrow> string \<Rightarrow> string" where
  "lookup_env env key = (case env key of None \<Rightarrow> [] | Some value \<Rightarrow> TrimSpace value)"

fun firstLookup :: "environ \<Rightarrow> string list \<Rightarrow> string" where
  "firstLookup env [] = []"
| "firstLookup env (key # keys) = (if lookup_env env key \<noteq> [] then lookup_env env key else firstLookup env keys)"

definition credentialsFromEnv :: "environ \<Rightarrow> credentials" where
  "credentialsFromEnv env = \<lparr>cr_APIKey = lookup_env env ''GEMINI_API_KEY'', cr_APISecret = lookup_env env ''GEMINI_API_SECRET'',
     cr_AccessToken = firstLookup env [''GEMINI_ACCESS_TOKEN'', ''GEMINI_BEARER_TOKEN''],
     cr_RefreshToken = lookup_env env ''GEMINI_REFRESH_TOKEN'', cr_OAuthClientID = lookup_env env ''GEMINI_OAUTH_CLIENT_ID'',
     cr_OAuthClientSecret = lookup_env env ''GEMINI_OAUTH_CLIENT_SECRET'', cr_ExpiresAt = None\<rparr>"

datatype keyring_error = KeyringNotFound | KeyringUnavailable | KeyringError string

type_synonym keyring_get = "string \<Rightarrow> keyring_error + credentials"

datatype origin = OriginNone | OriginExplicit | OriginEnvironment | OriginKeyring

definition load_profile :: "string \<Rightarrow> string" where
  "load_profile profile = (if TrimSpace profile = [] then ''default'' else TrimSpace profile)"

text \<open>\<open>internal\<close>: whether the keyring is the default one of the operating system.\<close>

definition LoadWithOrigin ::
  "environ \<Rightarrow> bool \<Rightarrow> keyring_get \<Rightarrow> credentials \<Rightarrow> string \<Rightarrow> keyring_error + credentials \<times> origin" where
  "LoadWithOrigin env internal get explicit profile =
     (case completeFamily explicit of
        Some resolved \<Rightarrow> Inr (resolved, OriginExplicit)
      | None \<Rightarrow>
          (case completeFamily (credentialsFromEnv env) of
             Some resolved \<Rightarrow> Inr (resolved, OriginEnvironment)
           | None \<Rightarrow>
               (case get (load_profile profile) of
                  Inl e \<Rightarrow>
                    if e \<noteq> KeyringNotFound \<and> \<not> (internal \<and> e = KeyringUnavailable) then Inl e else Inr (empty_credentials, OriginNone)
                | Inr value \<Rightarrow>
                    (case completeFamily value of
                       Some resolved \<Rightarrow> Inr (resolved, OriginKeyring)
                     | None \<Rightarrow> Inr (empty_credentials, OriginNone)))))"

section \<open>The operating system's keyring\<close>

definition normalizeProfile :: "string \<Rightarrow> string" where
  "normalizeProfile profile = (if profile = [] then ''default'' else profile)"

text \<open>What \<open>contextErr\<close> answers: the error of a context that has ended.\<close>

definition contextErr :: "string option \<Rightarrow> keyring_error option" where
  "contextErr ended = (case ended of Some message \<Rightarrow> Some (KeyringError message) | None \<Rightarrow> None)"

datatype item_data = Garbled string | Encoded credentials

record keyring_item =
  ki_Key :: string
  ki_Label :: string
  ki_Description :: string
  ki_Data :: item_data

datatype backend_error = ErrKeyNotFound | BackendError string

text \<open>What an invocation has of the keyring: the error of opening it, if any, the error of its context, and the store's
  operations on its state. \<open>ka_encode\<close> is the error of \<open>json.Marshal\<close>, which refuses some times.\<close>

record 's keyring_access =
  ka_opening :: "string option"
  ka_ended :: "string option"
  ka_encode :: "credentials \<Rightarrow> string option"
  ka_get :: "'s \<Rightarrow> string \<Rightarrow> backend_error + keyring_item"
  ka_set :: "'s \<Rightarrow> keyring_item \<Rightarrow> backend_error option \<times> 's"
  ka_remove :: "'s \<Rightarrow> string \<Rightarrow> backend_error option \<times> 's"

definition NewOSKeyring :: "'s keyring_access \<Rightarrow> keyring_error option" where
  "NewOSKeyring K = (case ka_opening K of Some _ \<Rightarrow> Some KeyringUnavailable | None \<Rightarrow> None)"

definition profile_item :: "string \<Rightarrow> item_data \<Rightarrow> keyring_item" where
  "profile_item profile data =
     \<lparr>ki_Key = normalizeProfile profile, ki_Label = ''Gemini Markets CLI credentials'',
      ki_Description = ''Gemini Markets CLI credentials for the selected profile'', ki_Data = data\<rparr>"

definition OS_Get :: "'s keyring_access \<Rightarrow> 's \<Rightarrow> string \<Rightarrow> keyring_error + credentials" where
  "OS_Get K s profile =
     (case contextErr (ka_ended K) of
        Some e \<Rightarrow> Inl e
      | None \<Rightarrow>
          (case ka_get K s (normalizeProfile profile) of
             Inl ErrKeyNotFound \<Rightarrow> Inl KeyringNotFound
           | Inl (BackendError message) \<Rightarrow> Inl (KeyringError message)
           | Inr item \<Rightarrow>
               (case ki_Data item of Garbled message \<Rightarrow> Inl (KeyringError message) | Encoded value \<Rightarrow> Inr (normalized_credentials value))))"

definition OS_Set :: "'s keyring_access \<Rightarrow> 's \<Rightarrow> string \<Rightarrow> credentials \<Rightarrow> keyring_error option \<times> 's" where
  "OS_Set K s profile value =
     (case contextErr (ka_ended K) of
        Some e \<Rightarrow> (Some e, s)
      | None \<Rightarrow>
          (case ka_encode K (normalized_credentials value) of
             Some message \<Rightarrow> (Some (KeyringError message), s)
           | None \<Rightarrow>
               (case ka_set K s (profile_item profile (Encoded (normalized_credentials value))) of
                  (Some ErrKeyNotFound, s') \<Rightarrow> (Some (KeyringError ''write OS keyring''), s')
                | (Some (BackendError message), s') \<Rightarrow> (Some (KeyringError message), s')
                | (None, s') \<Rightarrow> (None, s'))))"

definition OS_Delete :: "'s keyring_access \<Rightarrow> 's \<Rightarrow> string \<Rightarrow> keyring_error option \<times> 's" where
  "OS_Delete K s profile =
     (case contextErr (ka_ended K) of
        Some e \<Rightarrow> (Some e, s)
      | None \<Rightarrow>
          (case ka_remove K s (normalizeProfile profile) of
             (Some ErrKeyNotFound, s') \<Rightarrow> (Some KeyringNotFound, s')
           | (Some (BackendError message), s') \<Rightarrow> (Some (KeyringError message), s')
           | (None, s') \<Rightarrow> (None, s')))"

text \<open>The lazy keyring of a session opens the keyring at its first use and keeps the outcome, which is therefore one
  for all its uses.\<close>

definition lazy_Get :: "'s keyring_access \<Rightarrow> 's \<Rightarrow> string \<Rightarrow> keyring_error + credentials" where
  "lazy_Get K s profile = (case NewOSKeyring K of Some e \<Rightarrow> Inl e | None \<Rightarrow> OS_Get K s profile)"

definition lazy_Set :: "'s keyring_access \<Rightarrow> 's \<Rightarrow> string \<Rightarrow> credentials \<Rightarrow> keyring_error option \<times> 's" where
  "lazy_Set K s profile value = (case NewOSKeyring K of Some e \<Rightarrow> (Some e, s) | None \<Rightarrow> OS_Set K s profile value)"

definition lazy_Delete :: "'s keyring_access \<Rightarrow> 's \<Rightarrow> string \<Rightarrow> keyring_error option \<times> 's" where
  "lazy_Delete K s profile = (case NewOSKeyring K of Some e \<Rightarrow> (Some e, s) | None \<Rightarrow> OS_Delete K s profile)"

section \<open>The file keyring\<close>

datatype keyring_file = NoFile | Unreadable string | Profiles "string \<rightharpoonup> credentials"

definition readLocked :: "keyring_file \<Rightarrow> keyring_error + (string \<rightharpoonup> credentials)" where
  "readLocked file =
     (case file of NoFile \<Rightarrow> Inl KeyringNotFound | Unreadable message \<Rightarrow> Inl (KeyringError message) | Profiles m \<Rightarrow> Inr m)"

text \<open>The temporary file is renamed over the keyring at the end: a failure before leaves the keyring as it was.\<close>

definition writeLocked :: "string option \<Rightarrow> (string \<rightharpoonup> credentials) \<Rightarrow> keyring_file \<Rightarrow> keyring_error option \<times> keyring_file" where
  "writeLocked fault m file = (case fault of Some message \<Rightarrow> (Some (KeyringError message), file) | None \<Rightarrow> (None, Profiles m))"

definition Keyring_Get :: "string option \<Rightarrow> keyring_file \<Rightarrow> string \<Rightarrow> keyring_error + credentials" where
  "Keyring_Get ended file profile =
     (case contextErr ended of
        Some e \<Rightarrow> Inl e
      | None \<Rightarrow>
          (case readLocked file of
             Inl e \<Rightarrow> Inl e
           | Inr m \<Rightarrow> (case m (normalizeProfile profile) of None \<Rightarrow> Inl KeyringNotFound | Some value \<Rightarrow> Inr (normalized_credentials value))))"

definition Keyring_Set :: "string option \<Rightarrow> string option \<Rightarrow> keyring_file \<Rightarrow> string \<Rightarrow> credentials \<Rightarrow> keyring_error option \<times> keyring_file" where
  "Keyring_Set ended fault file profile value =
     (let written = (\<lambda>m. writeLocked fault (m(normalizeProfile profile \<mapsto> normalized_credentials value)) file)
      in case contextErr ended of
           Some e \<Rightarrow> (Some e, file)
         | None \<Rightarrow>
             (case readLocked file of
                Inl e \<Rightarrow> if e \<noteq> KeyringNotFound then (Some e, file) else written (\<lambda>_. None)
              | Inr m \<Rightarrow> written m))"

definition Keyring_Delete :: "string option \<Rightarrow> string option \<Rightarrow> keyring_file \<Rightarrow> string \<Rightarrow> keyring_error option \<times> keyring_file" where
  "Keyring_Delete ended fault file profile =
     (case contextErr ended of
        Some e \<Rightarrow> (Some e, file)
      | None \<Rightarrow>
          (case readLocked file of
             Inl e \<Rightarrow> (Some e, file)
           | Inr m \<Rightarrow>
               if m (normalizeProfile profile) = None then (Some KeyringNotFound, file)
               else writeLocked fault (m(normalizeProfile profile := None)) file))"

section \<open>Profiles\<close>

record global_options =
  go_Environment :: string
  go_Profile :: string

definition root_options :: "global_options \<Rightarrow> string + global_options" where
  "root_options o0 =
     (let trimmed = ToLower (TrimSpace (go_Environment o0));
          environment = (if trimmed = [] then ''production'' else trimmed);
          profile = TrimSpace (go_Profile o0)
      in if environment \<noteq> ''production'' \<and> environment \<noteq> ''sandbox'' then Inl environment
         else Inr \<lparr>go_Environment = environment, go_Profile = (if profile = [] then ''default'' else profile)\<rparr>)"

definition credentialProfile :: "global_options \<Rightarrow> string" where
  "credentialProfile opts =
     (let profile = TrimSpace (go_Profile opts); environment = ToLower (TrimSpace (go_Environment opts))
      in (if profile = [] then ''default'' else profile) @ ''@'' @ (if environment = [] then ''production'' else environment))"

section \<open>Sessions\<close>

datatype auth_mode = AuthNone | AuthHMAC | AuthBearer | AuthOAuth

text \<open>The strategy of a session: keys, with whether nonces are times; a static token; a refreshing source; or the
  source the caller supplied.\<close>

datatype session_strategy =
    NoStrategy | HmacKeys bool string string | StaticBearer string | RefreshingSource oauth_source | GivenSource token_source

datatype session_error =
    OAuthClientIDRequired | SourceFailed oauth_error | UnknownEnvironment string | ClientFailed err | LoadFailed keyring_error
  | CredentialsRequired | UnrotatableRefreshToken

record session_config =
  ss_Environment :: string
  ss_Credentials :: credentials
  ss_PrivateWebSockets :: bool
  ss_CredentialStore :: bool
  ss_CredentialProfile :: string
  ss_TokenSource :: "token_source option"
  ss_HTTPClient :: "nat option"
  ss_RESTURL :: string
  ss_WSURL :: string
  ss_EnableWebSockets :: bool
  ss_Dialer :: "nat option"
  ss_OAuthSourceFactory :: "(string \<Rightarrow> credentials \<Rightarrow> oauth_error + oauth_source) option"

definition normalizeEnvironment :: "string \<Rightarrow> string" where
  "normalizeEnvironment environment = (if TrimSpace environment = [] then Production else ToLower (TrimSpace environment))"

definition initial_token :: "credentials \<Rightarrow> oauth_token" where
  "initial_token c = \<lparr>ot_AccessToken = cr_AccessToken c, ot_RefreshToken = cr_RefreshToken c, ot_TokenType = ''Bearer'',
     ot_ExpiresAt = cr_ExpiresAt c, ot_Scope = []\<rparr>"

text \<open>With a store and a profile, the source has an update hook: it saves a rotated token under the profile, with the
  rest of what it stored last (\<open>stored\<close>), before the source uses it.\<close>

definition rotated_credentials :: "credentials \<Rightarrow> oauth_token \<Rightarrow> credentials" where
  "rotated_credentials stored token = stored\<lparr>cr_AccessToken := ot_AccessToken token, cr_RefreshToken := ot_RefreshToken token,
     cr_ExpiresAt := ot_ExpiresAt token\<rparr>"

definition keyring_text :: "keyring_error \<Rightarrow> string" where
  "keyring_text e =
     (case e of KeyringNotFound \<Rightarrow> ''credentials not found'' | KeyringUnavailable \<Rightarrow> ''operating-system keyring unavailable'' | KeyringError message \<Rightarrow> message)"

definition update_hook ::
  "(string \<Rightarrow> credentials \<Rightarrow> keyring_error option \<times> 's) \<Rightarrow> string \<Rightarrow> oauth_token \<Rightarrow> credentials \<Rightarrow> 's \<Rightarrow> string option \<times> credentials \<times> 's" where
  "update_hook save profile token stored s =
     (let updated = rotated_credentials stored token
      in case save profile updated of
           (Some e, s') \<Rightarrow> (Some (''persist refreshed OAuth credentials: '' @ keyring_text e), stored, s')
         | (None, s') \<Rightarrow> (None, updated, s'))"

definition source_options :: "session_config \<Rightarrow> source_option option list" where
  "source_options config =
     (if ss_CredentialStore config \<and> TrimSpace (ss_CredentialProfile config) \<noteq> [] then [Some (WithTokenUpdate True)] else [])"

definition newOAuthSource :: "oauth_env \<Rightarrow> session_config \<Rightarrow> string \<Rightarrow> session_error + oauth_source" where
  "newOAuthSource oenv config environment =
     (case ss_OAuthSourceFactory config of
        Some factory \<Rightarrow> (case factory environment (ss_Credentials config) of Inl e \<Rightarrow> Inl (SourceFailed e) | Inr s \<Rightarrow> Inr s)
      | None \<Rightarrow>
          (case EndpointsFor environment of
             None \<Rightarrow> Inl (UnknownEnvironment environment)
           | Some endpoints \<Rightarrow>
               (case NewTokenSource oenv
                   \<lparr>oc_ClientID = cr_OAuthClientID (ss_Credentials config), oc_ClientSecret = cr_OAuthClientSecret (ss_Credentials config),
                    oc_AuthURL = ep_OAuthAuthorization endpoints, oc_TokenURL = ep_OAuthToken endpoints, oc_RedirectURL = [], oc_Scopes = []\<rparr>
                   (initial_token (ss_Credentials config)) (source_options config) of
                  Inl e \<Rightarrow> Inl (SourceFailed e) | Inr s \<Rightarrow> Inr s)))"

definition authStrategyFor :: "oauth_env \<Rightarrow> session_config \<Rightarrow> string \<Rightarrow> session_error + auth_mode \<times> session_strategy" where
  "authStrategyFor oenv config environment =
     (case ss_TokenSource config of
        Some src \<Rightarrow> Inr (AuthOAuth, GivenSource src)
      | None \<Rightarrow>
          let value = ss_Credentials config
          in if cr_AccessToken value \<noteq> [] \<or> cr_RefreshToken value \<noteq> [] then
               (if cr_RefreshToken value \<noteq> [] then
                  (if TrimSpace (cr_OAuthClientID value) = [] then Inl OAuthClientIDRequired
                   else case newOAuthSource oenv config environment of
                     Inl e \<Rightarrow> Inl e | Inr src \<Rightarrow> Inr (AuthOAuth, RefreshingSource src))
                else Inr (AuthBearer, StaticBearer (cr_AccessToken value)))
             else if cr_APIKey value \<noteq> [] \<or> cr_APISecret value \<noteq> []
             then Inr (AuthHMAC, HmacKeys (ss_PrivateWebSockets config) (cr_APIKey value) (cr_APISecret value))
             else Inr (AuthNone, NoStrategy))"

text \<open>\<open>as_source\<close> is the refreshing source seen as the bearer strategy's token source.\<close>

definition auth_option :: "(oauth_source \<Rightarrow> token_source) \<Rightarrow> session_strategy \<Rightarrow> 'x facade_option option" where
  "auth_option as_source strategy =
     (case strategy of
        NoStrategy \<Rightarrow> None
      | HmacKeys timeBased key secret \<Rightarrow> Some (if timeBased then WithTimeBasedAPIKey key secret else WithAPIKey key secret)
      | StaticBearer token \<Rightarrow> Some (WithAuth (Some (BearerStrategy (StaticToken token))))
      | RefreshingSource src \<Rightarrow> Some (WithAuth (Some (BearerStrategy (as_source src))))
      | GivenSource src \<Rightarrow> Some (WithAuth (Some (BearerStrategy src))))"

definition session_options :: "nat \<Rightarrow> session_config \<Rightarrow> 'x facade_option option \<Rightarrow> 'x facade_option list" where
  "session_options gorilla config authOption =
     [WithEnvironment (normalizeEnvironment (ss_Environment config))]
     @ (if ss_RESTURL config \<noteq> [] then [WithCustomRESTURL (ss_RESTURL config)] else [])
     @ (if ss_WSURL config \<noteq> [] then [WithCustomWSURL (ss_WSURL config)] else [])
     @ (if ss_HTTPClient config \<noteq> None then [WithHTTPClient (ss_HTTPClient config)] else [])
     @ (case authOption of Some opt \<Rightarrow> [opt] | None \<Rightarrow> [])
     @ (if ss_EnableWebSockets config \<or> ss_PrivateWebSockets config \<or> ss_Dialer config \<noteq> None
        then [WithWebSocketDialer (Some (case ss_Dialer config of Some d \<Rightarrow> d | None \<Rightarrow> gorilla))] else [])"

definition New_session ::
  "facade_env \<Rightarrow> 'x auth_runtime \<Rightarrow> oauth_env \<Rightarrow> (oauth_source \<Rightarrow> token_source) \<Rightarrow> nat \<Rightarrow> nat \<Rightarrow> session_config \<Rightarrow>
   nat \<times> (session_error + auth_mode \<times> 'x facade)" where
  "New_session fenv rt oenv as_source gorilla fresh config =
     (case authStrategyFor oenv config (normalizeEnvironment (ss_Environment config)) of
        Inl e \<Rightarrow> (fresh, Inl e)
      | Inr (mode, strategy) \<Rightarrow>
          (case NewClientWithError fenv rt fresh (session_options gorilla config (auth_option as_source strategy)) of
             (fresh', Inl e) \<Rightarrow> (fresh', Inl (ClientFailed e))
           | (fresh', Inr client) \<Rightarrow> (fresh', Inr (mode, client))))"

text \<open>One use of the refreshing source of a session whose store is the lazy keyring: when its token is no longer valid, it
  refreshes it, the hook of the session runs before the source takes the new token, and the result of the refresh is
  returned. What the session keeps is the source, what the hook stored last and the keyring.\<close>

type_synonym 's rotation_state = "oauth_source \<times> credentials \<times> 's"

definition session_refresh ::
  "oauth_env \<Rightarrow> token_endpoint \<Rightarrow> int \<Rightarrow> 's keyring_access \<Rightarrow> string \<Rightarrow> 's rotation_state \<Rightarrow>
   (oauth_error + oauth_token) option \<times> 's rotation_state" where
  "session_refresh env endpoint now K profile st =
     (case st of (src, stored, s) \<Rightarrow>
        case Token_begin now src of
          (TokenRefresh n refreshToken, src1) \<Rightarrow>
            let hook = (\<lambda>token. update_hook (lazy_Set K s) profile token stored s);
                result = refreshed_token env endpoint now (\<lambda>token. fst (hook token)) refreshToken src1;
                kept = (case Refresh env endpoint now (os_config src1) refreshToken of
                    Inl _ \<Rightarrow> (stored, s)
                  | Inr t \<Rightarrow> if os_hasUpdate src1 then snd (hook (fill_refreshed refreshToken t)) else (stored, s))
            in (Some result, Token_finish n result src1, kept)
        | (_, src1) \<Rightarrow> (None, src1, stored, s))"

fun session_refreshes ::
  "oauth_env \<Rightarrow> string \<Rightarrow> (token_endpoint \<times> int \<times> 's keyring_access) list \<Rightarrow> 's rotation_state \<Rightarrow> 's rotation_state" where
  "session_refreshes env profile [] st = st"
| "session_refreshes env profile ((endpoint, now, K) # uses) st =
     session_refreshes env profile uses (snd (session_refresh env endpoint now K profile st))"

section \<open>Private sessions, login and status\<close>

definition requirePrivateCredentials :: "credentials \<Rightarrow> session_error option" where
  "requirePrivateCredentials value =
     (if cr_AccessToken value \<noteq> [] \<or> cr_RefreshToken value \<noteq> [] \<or> cr_APIKey value \<noteq> [] \<or> cr_APISecret value \<noteq> [] then None
      else Some CredentialsRequired)"

definition privateSessionConfig :: "environ \<Rightarrow> 's keyring_access \<Rightarrow> 's \<Rightarrow> global_options \<Rightarrow> session_error + session_config" where
  "privateSessionConfig env K s opts =
     (case LoadWithOrigin env True (lazy_Get K s) empty_credentials (credentialProfile opts) of
        Inl e \<Rightarrow> Inl (LoadFailed e)
      | Inr (value, origin) \<Rightarrow>
          (case requirePrivateCredentials value of
             Some e \<Rightarrow> Inl e
           | None \<Rightarrow>
               if cr_RefreshToken value \<noteq> [] \<and> origin \<noteq> OriginKeyring then Inl UnrotatableRefreshToken
               else Inr \<lparr>ss_Environment = go_Environment opts, ss_Credentials = value, ss_PrivateWebSockets = False,
                 ss_CredentialStore = (origin = OriginKeyring),
                 ss_CredentialProfile = (if origin = OriginKeyring then credentialProfile opts else []), ss_TokenSource = None,
                 ss_HTTPClient = None, ss_RESTURL = [], ss_WSURL = [], ss_EnableWebSockets = False, ss_Dialer = None,
                 ss_OAuthSourceFactory = None\<rparr>))"

definition defaultOAuthClientID :: string where "defaultOAuthClientID = ''6a03a47b-1bb4-491a-b0a7-35ad17473e71''"

definition oauthRedirectURL :: string where "oauthRedirectURL = ''http://localhost:8787/callback''"

definition defaultOAuthConfig :: "environ \<Rightarrow> global_options \<Rightarrow> session_error + oauth_config" where
  "defaultOAuthConfig env opts =
     (let environment = (if ToLower (TrimSpace (go_Environment opts)) = [] then Production else ToLower (TrimSpace (go_Environment opts)))
      in case EndpointsFor environment of
           None \<Rightarrow> Inl (UnknownEnvironment environment)
         | Some endpoints \<Rightarrow>
             let clientID = lookup_env env ''GEMINI_OAUTH_CLIENT_ID''
             in Inr \<lparr>oc_ClientID = (if clientID = [] then defaultOAuthClientID else clientID),
                 oc_ClientSecret = lookup_env env ''GEMINI_OAUTH_CLIENT_SECRET'', oc_AuthURL = ep_OAuthAuthorization endpoints,
                 oc_TokenURL = ep_OAuthToken endpoints, oc_RedirectURL = oauthRedirectURL,
                 oc_Scopes = [''account:read'', ''balances:read'', ''orders:read'', ''orders:create'', ''history:read'']\<rparr>)"

datatype login_error = LoginFailed oauth_error | NoAccessToken | OpenFailed keyring_error | SaveFailed keyring_error

definition login_credentials :: "oauth_config \<Rightarrow> oauth_token \<Rightarrow> credentials" where
  "login_credentials config token = empty_credentials\<lparr>cr_AccessToken := ot_AccessToken token, cr_RefreshToken := ot_RefreshToken token,
     cr_OAuthClientID := oc_ClientID config, cr_OAuthClientSecret := oc_ClientSecret config, cr_ExpiresAt := ot_ExpiresAt token\<rparr>"

text \<open>\<open>login\<close> is what the loopback login answers. Without an injected keyring, which only tests have, the commands use
  the operating system's.\<close>

definition auth_login ::
  "oauth_error + oauth_token option \<Rightarrow> 's keyring_access \<Rightarrow> 's \<Rightarrow> oauth_config \<Rightarrow> global_options \<Rightarrow> login_error option \<times> 's" where
  "auth_login login K s config opts =
     (case login of
        Inl e \<Rightarrow> (Some (LoginFailed e), s)
      | Inr None \<Rightarrow> (Some NoAccessToken, s)
      | Inr (Some token) \<Rightarrow>
          if TrimSpace (ot_AccessToken token) = [] then (Some NoAccessToken, s)
          else case NewOSKeyring K of
            Some e \<Rightarrow> (Some (OpenFailed e), s)
          | None \<Rightarrow>
              (case OS_Set K s (credentialProfile opts) (login_credentials config token) of
                 (Some e, s') \<Rightarrow> (Some (SaveFailed e), s')
               | (None, s') \<Rightarrow> (None, s')))"

definition auth_logout :: "'s keyring_access \<Rightarrow> 's \<Rightarrow> global_options \<Rightarrow> keyring_error option \<times> 's" where
  "auth_logout K s opts =
     (case NewOSKeyring K of
        Some e \<Rightarrow> (if e = KeyringUnavailable then None else Some e, s)
      | None \<Rightarrow>
          (case OS_Delete K s (credentialProfile opts) of
             (Some e, s') \<Rightarrow> (if e \<noteq> KeyringNotFound then Some e else None, s')
           | (None, s') \<Rightarrow> (None, s')))"

record auth_status =
  as_Configured :: bool
  as_Authentication :: string
  as_APIKeyPresent :: bool
  as_APISecretPresent :: bool
  as_AccessTokenPresent :: bool
  as_RefreshTokenPresent :: bool

definition newAuthStatus :: "credentials \<Rightarrow> auth_status" where
  "newAuthStatus value =
     (let authentication =
        (if cr_AccessToken value \<noteq> [] \<or> cr_RefreshToken value \<noteq> []
         then (if cr_RefreshToken value \<noteq> [] then ''oauth'' else ''bearer'')
         else if cr_APIKey value \<noteq> [] \<or> cr_APISecret value \<noteq> [] then ''hmac'' else ''none'')
      in \<lparr>as_Configured = (authentication \<noteq> ''none''), as_Authentication = authentication, as_APIKeyPresent = (cr_APIKey value \<noteq> []),
          as_APISecretPresent = (cr_APISecret value \<noteq> []), as_AccessTokenPresent = (cr_AccessToken value \<noteq> []),
          as_RefreshTokenPresent = (cr_RefreshToken value \<noteq> [])\<rparr>)"

definition auth_status_command :: "environ \<Rightarrow> 's keyring_access \<Rightarrow> 's \<Rightarrow> global_options \<Rightarrow> keyring_error + auth_status" where
  "auth_status_command env K s opts =
     (case LoadWithOrigin env True (lazy_Get K s) empty_credentials (credentialProfile opts) of
        Inl e \<Rightarrow> Inl e
      | Inr (value, _) \<Rightarrow> Inr (newAuthStatus value))"

end
