(* ===== verification/CliSessionSpec.thy ===== *)
theory CliSessionSpec
  imports CliSession OAuthSpec
begin

text \<open>
  What the sessions of the command line tool promise: credentials come whole from one source, profiles of the two
  environments never meet, a session that can rotate its refresh token saves every rotation in the operating
  system's keyring, under the profile the token came from, and a login is what the next session uses. The last
  two rest on an interface of keyrings, which the file keyring provides, and the operating system's when the store
  behind it keeps what it is given (\<open>backend_ok\<close>).
\<close>

section \<open>One source\<close>

text \<open>A complete family taken from one value: tokens with their client, or both halves of a key.\<close>

definition family_of :: "credentials \<Rightarrow> credentials \<Rightarrow> bool" where
  "family_of v c \<longleftrightarrow>
     (if TrimSpace (cr_AccessToken v) \<noteq> [] \<or> TrimSpace (cr_RefreshToken v) \<noteq> []
      then cr_AccessToken c = TrimSpace (cr_AccessToken v) \<and> cr_RefreshToken c = TrimSpace (cr_RefreshToken v) \<and>
        cr_OAuthClientID c = TrimSpace (cr_OAuthClientID v) \<and> cr_OAuthClientSecret c = TrimSpace (cr_OAuthClientSecret v) \<and>
        cr_ExpiresAt c = cr_ExpiresAt v \<and> cr_APIKey c = [] \<and> cr_APISecret c = []
      else cr_APIKey c = TrimSpace (cr_APIKey v) \<and> cr_APISecret c = TrimSpace (cr_APISecret v) \<and> cr_APIKey c \<noteq> [] \<and> cr_APISecret c \<noteq> [] \<and>
        cr_AccessToken c = [] \<and> cr_RefreshToken c = [] \<and> cr_OAuthClientID c = [] \<and> cr_OAuthClientSecret c = [] \<and> cr_ExpiresAt c = None)"

lemma family_iff: "completeFamily v = Some c \<longleftrightarrow> family_of v c"
  by (auto simp: completeFamily_def family_of_def normalized_credentials_def empty_credentials_def Let_def intro!: credentials.equality)

lemma family_authenticates: "family_of v c \<Longrightarrow> requirePrivateCredentials c = None"
  by (auto simp: family_of_def requirePrivateCredentials_def split: if_splits)

lemma empty_credentials_refused: "requirePrivateCredentials empty_credentials = Some CredentialsRequired"
  by (simp add: requirePrivateCredentials_def empty_credentials_def)

lemma empty_credentials_family: "completeFamily empty_credentials = None"
  by (simp add: completeFamily_def normalized_credentials_def empty_credentials_def)

text \<open>Loaded credentials are one complete family of one source, the first that has one: explicit values, then the
  environment, then the profile of the keyring; a key is never paired with the secret, nor a token with the
  client, of another source.\<close>

theorem credentials_from_one_source:
  "case LoadWithOrigin env internal get explicit profile of
     Inl e \<Rightarrow> completeFamily explicit = None \<and> completeFamily (credentialsFromEnv env) = None \<and> get (load_profile profile) = Inl e
   | Inr (c, OriginNone) \<Rightarrow> c = empty_credentials \<and> completeFamily explicit = None \<and> completeFamily (credentialsFromEnv env) = None
   | Inr (c, OriginExplicit) \<Rightarrow> family_of explicit c
   | Inr (c, OriginEnvironment) \<Rightarrow> completeFamily explicit = None \<and> family_of (credentialsFromEnv env) c
   | Inr (c, OriginKeyring) \<Rightarrow> completeFamily explicit = None \<and> completeFamily (credentialsFromEnv env) = None \<and>
       (\<exists>v. get (load_profile profile) = Inr v \<and> family_of v c)"
  by (auto simp: LoadWithOrigin_def family_iff split: option.splits sum.splits)

section \<open>Private sessions\<close>

text \<open>A character outside every encoding of a space survives trimming.\<close>

lemma trim_with_keeps: "c \<in> set s \<Longrightarrow> \<forall>e\<in>set es. c \<notin> set e \<Longrightarrow> c \<in> set (trim_with es s)"
proof (induction es s rule: trim_with.induct)
  case (1 es s)
  show ?case
  proof (cases "find (\<lambda>e. e \<noteq> [] \<and> has_prefix s e) es")
    case None
    then show ?thesis using "1.prems"(1) by (simp add: trim_with.simps[of es s])
  next
    case (Some e)
    then have e: "e \<in> set es" "take (length e) s = e" by (auto simp: find_Some_iff has_prefix_def)
    then have "c \<notin> set (take (length e) s)" using "1.prems"(2) by auto
    then have "c \<in> set (drop (length e) s)" using "1.prems"(1) by (metis Un_iff append_take_drop_id set_append)
    then show ?thesis using "1.IH"[OF Some] "1.prems"(2) Some by (simp add: trim_with.simps[of es s])
  qed
qed

lemma at_not_space: "e \<in> set space_encodings \<Longrightarrow> CHR ''@'' \<notin> set e"
  by (auto simp: space_encodings_def ascii_spaces_def)

lemma TrimSpace_at: "CHR ''@'' \<in> set s \<Longrightarrow> TrimSpace s \<noteq> []"
  using trim_with_keeps[of "CHR ''@''" s space_encodings]
    trim_with_keeps[of "CHR ''@''" "rev (trim_with space_encodings s)" "map rev space_encodings"] at_not_space
  by (auto simp: TrimSpace_def)

lemma profile_nonblank: "TrimSpace (credentialProfile opts) \<noteq> []"
  by (rule TrimSpace_at) (simp add: credentialProfile_def Let_def)

lemma private_config_cases:
  assumes "privateSessionConfig env K s opts = Inr config"
  obtains v origin where "LoadWithOrigin env True (lazy_Get K s) empty_credentials (credentialProfile opts) = Inr (ss_Credentials config, origin)"
    "ss_TokenSource config = None" "ss_OAuthSourceFactory config = None" "ss_PrivateWebSockets config = False"
    "ss_CredentialStore config = (origin = OriginKeyring)" "cr_RefreshToken (ss_Credentials config) \<noteq> [] \<Longrightarrow> origin = OriginKeyring"
    "ss_CredentialProfile config = (if origin = OriginKeyring then credentialProfile opts else [])"
    "requirePrivateCredentials (ss_Credentials config) = None"
  using assms by (auto simp: privateSessionConfig_def split: sum.splits option.splits if_splits)

lemma new_source_updates:
  assumes "newOAuthSource oenv config environment = Inr src" "ss_OAuthSourceFactory config = None"
  shows "os_hasUpdate src = (ss_CredentialStore config \<and> TrimSpace (ss_CredentialProfile config) \<noteq> []) \<and>
    ot_RefreshToken (os_token src) = cr_RefreshToken (ss_Credentials config)"
  using assms
  by (auto simp: newOAuthSource_def NewTokenSource_def source_options_def initial_token_def Let_def
      split: option.splits sum.splits if_splits)

section \<open>Profiles\<close>

lemma environments: "TrimSpace ''production'' = ''production''" "ToLower ''production'' = ''production''"
    "TrimSpace ''sandbox'' = ''sandbox''" "ToLower ''sandbox'' = ''sandbox''" "TrimSpace ''default'' = ''default''"
  by code_simp+

lemma root_optionsD:
  assumes "root_options o0 = Inr opts"
  shows "go_Environment opts \<in> {''production'', ''sandbox''}" "TrimSpace (go_Profile opts) = go_Profile opts" "go_Profile opts \<noteq> []"
  using assms by (auto simp: root_options_def Let_def environments split: if_splits)

lemma profile_validated: "root_options o0 = Inr opts \<Longrightarrow> credentialProfile opts = go_Profile opts @ ''@'' @ go_Environment opts"
  using root_optionsD by (fastforce simp: credentialProfile_def Let_def environments)

text \<open>The keyring's profile names the profile and the environment: two validated invocations share credentials only
  when both are the same, so a sandbox login is never used against production.\<close>

theorem profiles_separate:
  assumes "root_options o1 = Inr opts1" "root_options o2 = Inr opts2" "credentialProfile opts1 = credentialProfile opts2"
  shows "go_Environment opts1 = go_Environment opts2 \<and> go_Profile opts1 = go_Profile opts2"
proof -
  have same: "go_Profile opts1 @ ''@'' @ go_Environment opts1 = go_Profile opts2 @ ''@'' @ go_Environment opts2"
    using assms by (simp add: profile_validated)
  have "last (go_Environment opts1) = last (go_Environment opts2)"
    using arg_cong[OF same, of last] root_optionsD(1)[OF assms(1)] root_optionsD(1)[OF assms(2)] by (auto split: if_splits)
  then have "go_Environment opts1 = go_Environment opts2"
    using root_optionsD(1)[OF assms(1)] root_optionsD(1)[OF assms(2)] by auto
  then show ?thesis using same by simp
qed

definition sandbox_options :: global_options where
  "sandbox_options = \<lparr>go_Environment = ''sandbox'', go_Profile = ''default''\<rparr>"

lemma sandbox_validated: "root_options \<lparr>go_Environment = '' Sandbox'', go_Profile = []\<rparr> = Inr sandbox_options"
    "root_options sandbox_options = Inr sandbox_options"
  by code_simp+

theorem profiles_separate_witness: "go_Environment sandbox_options = ''sandbox'' \<and> go_Profile sandbox_options = ''default''"
  using profiles_separate[OF sandbox_validated(1) sandbox_validated(2) refl] by (simp add: sandbox_options_def)

section \<open>Keyrings\<close>

text \<open>What a login and a session need of a keyring: a stored value is read back normalised, and storing under a
  profile leaves the other profiles as they were.\<close>

locale keyring =
  fixes get :: "'s \<Rightarrow> string \<Rightarrow> keyring_error + credentials"
    and save :: "'s \<Rightarrow> string \<Rightarrow> credentials \<Rightarrow> keyring_error option \<times> 's"
  assumes get_saved: "save s profile v = (None, s') \<Longrightarrow> profile \<noteq> [] \<Longrightarrow> get s' profile = Inr (normalized_credentials v)"
    and get_other: "save s profile v = (None, s') \<Longrightarrow> profile \<noteq> [] \<Longrightarrow> other \<noteq> [] \<Longrightarrow> other \<noteq> profile \<Longrightarrow> get s' other = get s other"
begin

text \<open>What was saved is what is loaded next, when the environment holds no complete credentials.\<close>

lemma loaded_after_save:
  assumes "save s (load_profile profile) v = (None, s')" "family_of v c" "completeFamily (credentialsFromEnv env) = None"
  shows "LoadWithOrigin env internal (get s') empty_credentials profile = Inr (c, OriginKeyring)"
proof -
  have "load_profile profile \<noteq> []" by (simp add: load_profile_def)
  then have "get s' (load_profile profile) = Inr (normalized_credentials v)" using get_saved assms(1) by blast
  moreover have "completeFamily (normalized_credentials v) = Some c"
    using assms(2) by (simp add: family_iff[symmetric] completeFamily_def normalized_credentials_def Let_def)
  ultimately show ?thesis using assms(3) empty_credentials_family by (simp add: LoadWithOrigin_def)
qed

end

interpretation file_keyring: keyring "Keyring_Get None" "Keyring_Set ended fault" for ended fault
  by unfold_locales
    (auto simp: Keyring_Get_def Keyring_Set_def contextErr_def writeLocked_def readLocked_def normalizeProfile_def normalized_credentials_def
      split: keyring_file.splits option.splits if_splits)

text \<open>The documented behaviour of the store behind the operating system's keyring: an item that was set is what is got
  under its key, and the items of other keys stay.\<close>

definition backend_ok :: "'s keyring_access \<Rightarrow> bool" where
  "backend_ok K \<longleftrightarrow>
     (\<forall>s item s'. ka_set K s item = (None, s') \<longrightarrow>
        ka_get K s' (ki_Key item) = Inr item \<and> (\<forall>key. key \<noteq> ki_Key item \<longrightarrow> ka_get K s' key = ka_get K s key))"

lemma normalized_twice: "normalized_credentials (normalized_credentials v) = normalized_credentials v"
  by (simp add: normalized_credentials_def)

lemma lazy_saved:
  assumes "lazy_Set K s profile v = (None, s')"
  shows "NewOSKeyring K = None \<and> contextErr (ka_ended K) = None \<and>
    ka_set K s (profile_item profile (Encoded (normalized_credentials v))) = (None, s')"
  using assms by (auto simp: lazy_Set_def OS_Set_def split: option.splits prod.splits backend_error.splits)

lemma os_keyring:
  assumes "backend_ok K"
  shows "keyring (lazy_Get K) (lazy_Set K)"
proof unfold_locales
  fix s profile v s' other
  assume saved: "lazy_Set K s profile v = (None, s')" and p: "profile \<noteq> []"
  note set = lazy_saved[OF saved]
  have items: "ka_get K s' profile = Inr (profile_item profile (Encoded (normalized_credentials v)))"
    "key \<noteq> profile \<Longrightarrow> ka_get K s' key = ka_get K s key" for key
    using assms[unfolded backend_ok_def, rule_format, OF conjunct2[OF conjunct2[OF set]]] p
    by (simp_all add: profile_item_def normalizeProfile_def)
  show "lazy_Get K s' profile = Inr (normalized_credentials v)"
    using items(1) set p by (simp add: lazy_Get_def OS_Get_def normalizeProfile_def profile_item_def normalized_twice)
  show "lazy_Get K s' other = lazy_Get K s other" if "other \<noteq> []" "other \<noteq> profile"
    using items(2)[OF that(2)] that(1) set by (simp add: lazy_Get_def OS_Get_def normalizeProfile_def)
qed

lemma loaded_config:
  assumes "LoadWithOrigin env True (lazy_Get K s) empty_credentials (credentialProfile opts) = Inr (c, OriginKeyring)" "family_of v c"
  shows "\<exists>config. privateSessionConfig env K s opts = Inr config \<and> ss_CredentialStore config \<and> ss_Credentials config = c"
  using assms family_authenticates[of v c] by (simp add: privateSessionConfig_def)

section \<open>Rotations\<close>

text \<open>A value in the keyring that holds a token with the client of the credentials.\<close>

definition holds_token :: "credentials \<Rightarrow> oauth_token \<Rightarrow> credentials \<Rightarrow> bool" where
  "holds_token client token v \<longleftrightarrow>
     cr_AccessToken v = TrimSpace (ot_AccessToken token) \<and> cr_RefreshToken v = TrimSpace (ot_RefreshToken token) \<and>
     cr_ExpiresAt v = ot_ExpiresAt token \<and> cr_OAuthClientID v = TrimSpace (cr_OAuthClientID client) \<and>
     cr_OAuthClientSecret v = TrimSpace (cr_OAuthClientSecret client)"

text \<open>After any uses of a session's source, whatever they came to, a refresh that succeeds has its token in the keyring
  under the profile, where the next session loads it, and leaves the other profiles; one that fails, as it does when
  the token cannot be saved, leaves the source with the token it had.\<close>

definition rotations_saved ::
  "oauth_env \<Rightarrow> environ \<Rightarrow> 's keyring_access \<Rightarrow> global_options \<Rightarrow> string \<Rightarrow> 's rotation_state \<Rightarrow> bool" where
  "rotations_saved oenv env K opts profile st \<longleftrightarrow>
     (\<forall>uses src1 stored1 s1 endpoint now result src2 stored2 s2.
        session_refreshes oenv profile uses st = (src1, stored1, s1) \<and>
        session_refresh oenv endpoint now K profile (src1, stored1, s1) = (Some result, src2, stored2, s2) \<longrightarrow>
        (case result of
           Inr token \<Rightarrow>
             os_token src2 = token \<and>
             (\<exists>v config. lazy_Get K s2 profile = Inr v \<and> holds_token (fst (snd st)) token v \<and>
                privateSessionConfig env K s2 opts = Inr config \<and> ss_CredentialStore config \<and> family_of v (ss_Credentials config)) \<and>
             (\<forall>other. other \<noteq> [] \<and> other \<noteq> profile \<longrightarrow> lazy_Get K s2 other = lazy_Get K s1 other)
         | Inl e \<Rightarrow> os_token src2 = os_token src1))"

lemma begin_keeps: "Token_begin now src = (action, src1) \<Longrightarrow> os_hasUpdate src1 = os_hasUpdate src \<and> os_token src1 = os_token src"
  by (auto simp: Token_begin_def split: if_splits option.splits)

lemma finish_keeps: "os_hasUpdate (Token_finish n result src) = os_hasUpdate src"
    "os_token (Token_finish n (Inr token) src) = token" "os_token (Token_finish n (Inl e) src) = os_token src"
  by (simp_all add: Token_finish_def split: sum.split)

lemma hook_keeps: "update_hook save profile token stored s = (e, stored', s') \<Longrightarrow> rotated_credentials stored' t = rotated_credentials stored t"
  by (auto simp: update_hook_def rotated_credentials_def Let_def split: prod.splits option.splits)

lemma hook_saved: "update_hook save profile token stored s = (None, stored', s') \<Longrightarrow> save profile (rotated_credentials stored token) = (None, s')"
  by (auto simp: update_hook_def Let_def split: prod.splits option.splits)

lemma refresh_keeps:
  assumes "session_refresh env endpoint now K profile (src, stored, s) = (r, src', stored', s')"
  shows "os_hasUpdate src' = os_hasUpdate src \<and> rotated_credentials stored' t = rotated_credentials stored t"
proof -
  obtain action src1 where b: "Token_begin now src = (action, src1)" by fastforce
  note keep = begin_keeps[OF b]
  show ?thesis
  proof (cases action)
    case (TokenRefresh n refreshToken)
    let ?hook = "\<lambda>token. update_hook (lazy_Set K s) profile token stored s"
    have e: "src' = Token_finish n (the r) src1" and kept: "(stored', s') = (case Refresh env endpoint now (os_config src1) refreshToken of
        Inl _ \<Rightarrow> (stored, s) | Inr u \<Rightarrow> if os_hasUpdate src1 then snd (?hook (fill_refreshed refreshToken u)) else (stored, s))"
      using assms b TokenRefresh by (auto simp: session_refresh_def Let_def)
    have "rotated_credentials stored' t = rotated_credentials stored t"
    proof (cases "Refresh env endpoint now (os_config src1) refreshToken")
      case (Inr u)
      show ?thesis
      proof (cases "os_hasUpdate src1")
        case True
        then have "?hook (fill_refreshed refreshToken u) = (fst (?hook (fill_refreshed refreshToken u)), stored', s')"
          using kept Inr by (simp add: prod_eq_iff)
        from hook_keeps[OF this] show ?thesis .
      qed (use kept Inr in simp)
    qed (use kept in simp)
    then show ?thesis using e keep by (simp add: finish_keeps)
  qed (use assms b keep in \<open>auto simp: session_refresh_def\<close>)
qed

lemma refreshes_keep:
  "session_refreshes env profile uses (src, stored, s) = (src', stored', s') \<Longrightarrow>
   os_hasUpdate src' = os_hasUpdate src \<and> rotated_credentials stored' t = rotated_credentials stored t"
proof (induction uses arbitrary: src stored s)
  case (Cons use uses)
  obtain endpoint now K where u: "use = (endpoint, now, K)" by (cases use)
  obtain r src1 stored1 s1 where one: "session_refresh env endpoint now K profile (src, stored, s) = (r, src1, stored1, s1)"
    by (cases "session_refresh env endpoint now K profile (src, stored, s)") auto
  have "session_refreshes env profile uses (src1, stored1, s1) = (src', stored', s')" using Cons.prems by (simp add: u one)
  from Cons.IH[OF this] show ?case using refresh_keeps[OF one, of t] by simp
qed simp

lemma refresh_result:
  assumes "session_refresh env endpoint now K profile (src, stored, s) = (Some result, src', stored', s')" "os_hasUpdate src"
  shows "case result of
      Inr token \<Rightarrow> os_token src' = token \<and> validAccessToken (ot_AccessToken token) \<and>
        lazy_Set K s profile (rotated_credentials stored token) = (None, s')
    | Inl e \<Rightarrow> os_token src' = os_token src"
proof -
  obtain action src1 where b: "Token_begin now src = (action, src1)" by fastforce
  note keep = begin_keeps[OF b]
  obtain n refreshToken where a: "action = TokenRefresh n refreshToken"
    using assms(1) b by (cases action) (auto simp: session_refresh_def)
  let ?hook = "\<lambda>token. update_hook (lazy_Set K s) profile token stored s"
  let ?result = "refreshed_token env endpoint now (\<lambda>token. fst (?hook token)) refreshToken src1"
  have r: "result = ?result" "src' = Token_finish n result src1"
    using assms(1) by (auto simp: session_refresh_def b a Let_def)
  show ?thesis
  proof (cases result)
    case (Inl e)
    then show ?thesis using r keep by (simp add: finish_keeps)
  next
    case (Inr token)
    then have refreshed: "?result = Inr token" using r by simp
    have saved: "fst (?hook token) = None" using refreshed_ok(3)[OF refreshed] keep assms(2) by simp
    obtain t where t: "Refresh env endpoint now (os_config src1) refreshToken = Inr t" "token = fill_refreshed refreshToken t"
      using refreshed by (auto simp: refreshed_token_def Let_def split: sum.splits if_splits option.splits)
    then have "(stored', s') = snd (?hook token)"
      using assms keep by (auto simp: session_refresh_def b a Let_def)
    then have "?hook token = (None, stored', s')" using saved by (metis prod.collapse)
    from hook_saved[OF this] show ?thesis using Inr r refreshed_ok(1)[OF refreshed] by (simp add: finish_keeps)
  qed
qed

lemma rotated_family:
  assumes "validAccessToken (ot_AccessToken token)" "v = normalized_credentials (rotated_credentials client token)"
  shows "holds_token client token v" "\<exists>c. family_of (rotated_credentials client token) c \<and> family_of v c"
proof -
  show "holds_token client token v" by (simp add: assms(2) holds_token_def normalized_credentials_def rotated_credentials_def)
  have "TrimSpace (ot_AccessToken token) \<noteq> []" using assms(1) by (auto simp: validAccessToken_def split: if_splits)
  then obtain c where "completeFamily (rotated_credentials client token) = Some c"
    by (simp add: completeFamily_def rotated_credentials_def normalized_credentials_def Let_def)
  moreover have "completeFamily v = completeFamily (rotated_credentials client token)"
    by (simp add: assms(2) completeFamily_def normalized_credentials_def Let_def)
  ultimately show "\<exists>c. family_of (rotated_credentials client token) c \<and> family_of v c" by (auto simp flip: family_iff)
qed

lemma source_rotations_saved:
  assumes "backend_ok K" "os_hasUpdate src" "completeFamily (credentialsFromEnv env) = None"
    "profile = load_profile (credentialProfile opts)"
  shows "rotations_saved oenv env K opts profile (src, client, s)"
  unfolding rotations_saved_def
proof (intro allI impI, elim conjE)
  fix uses src1 stored1 s1 endpoint now result src2 stored2 s2
  assume uses: "session_refreshes oenv profile uses (src, client, s) = (src1, stored1, s1)"
    and last: "session_refresh oenv endpoint now K profile (src1, stored1, s1) = (Some result, src2, stored2, s2)"
  have keep: "os_hasUpdate src1" "rotated_credentials stored1 t = rotated_credentials client t" for t
    using refreshes_keep[OF uses] assms(2) by blast+
  note r = refresh_result[OF last keep(1)]
  note laws = os_keyring[OF assms(1)]
  show "case result of
      Inr token \<Rightarrow>
        os_token src2 = token \<and>
        (\<exists>v config. lazy_Get K s2 profile = Inr v \<and> holds_token (fst (snd (src, client, s))) token v \<and>
           privateSessionConfig env K s2 opts = Inr config \<and> ss_CredentialStore config \<and> family_of v (ss_Credentials config)) \<and>
        (\<forall>other. other \<noteq> [] \<and> other \<noteq> profile \<longrightarrow> lazy_Get K s2 other = lazy_Get K s1 other)
    | Inl e \<Rightarrow> os_token src2 = os_token src1"
  proof (cases result)
    case (Inl e)
    then show ?thesis using r by simp
  next
    case (Inr token)
    have set: "lazy_Set K s1 profile (rotated_credentials client token) = (None, s2)" using r Inr keep(2) by simp
    have p: "profile \<noteq> []" by (simp add: assms(4) load_profile_def)
    have v: "lazy_Get K s2 profile = Inr (normalized_credentials (rotated_credentials client token))"
      using keyring.get_saved[OF laws set p] .
    have "validAccessToken (ot_AccessToken token)" using r Inr by simp
    from rotated_family[OF this refl] obtain c where h: "holds_token client token (normalized_credentials (rotated_credentials client token))"
      and c: "family_of (rotated_credentials client token) c" "family_of (normalized_credentials (rotated_credentials client token)) c" by blast
    note loaded = keyring.loaded_after_save[OF laws set[unfolded assms(4)] c(1) assms(3)]
    show ?thesis
      using r Inr v h c(2) loaded_config[OF loaded c(1)] keyring.get_other[OF laws set p] by auto
  qed
qed

text \<open>C39: A private session authenticates with what was loaded: with both halves of a key and increasing nonces, with a
  token that has no refresh token, or with a refreshing source. A refreshing source exists only for a refresh token
  of the profile in the operating system's keyring. Whatever happened to the source before, a refresh that succeeds
  has saved the new access token, refresh token and expiry, with the client they belong to, under that profile,
  where the next session loads them; other profiles stay as they were; and when the refresh or the saving fails the
  source keeps the token it had. The store behind the keyring keeps what it is given.\<close>

theorem private_session_sound:
  assumes "backend_ok K"
  shows "case privateSessionConfig env K s opts of
     Inl _ \<Rightarrow> True
   | Inr config \<Rightarrow>
       (case authStrategyFor oenv config environment of
          Inl _ \<Rightarrow> cr_RefreshToken (ss_Credentials config) \<noteq> []
        | Inr (mode, NoStrategy) \<Rightarrow> False
        | Inr (mode, GivenSource src) \<Rightarrow> False
        | Inr (mode, HmacKeys timeBased key secret) \<Rightarrow> \<not> timeBased \<and> key \<noteq> [] \<and> secret \<noteq> []
        | Inr (mode, StaticBearer token) \<Rightarrow> token \<noteq> [] \<and> cr_RefreshToken (ss_Credentials config) = []
        | Inr (mode, RefreshingSource src) \<Rightarrow>
            os_hasUpdate src \<and> ss_CredentialProfile config = credentialProfile opts \<and> completeFamily (credentialsFromEnv env) = None \<and>
            (\<exists>v. lazy_Get K s (load_profile (credentialProfile opts)) = Inr v \<and> family_of v (ss_Credentials config)) \<and>
            ot_RefreshToken (os_token src) = cr_RefreshToken (ss_Credentials config) \<and> ot_RefreshToken (os_token src) \<noteq> [] \<and>
            rotations_saved oenv env K opts (TrimSpace (ss_CredentialProfile config)) (src, ss_Credentials config, s))"
proof (cases "privateSessionConfig env K s opts")
  case (Inr config)
  from private_config_cases[OF this] obtain origin where c:
    "LoadWithOrigin env True (lazy_Get K s) empty_credentials (credentialProfile opts) = Inr (ss_Credentials config, origin)"
    "ss_TokenSource config = None" "ss_OAuthSourceFactory config = None" "ss_PrivateWebSockets config = False"
    "ss_CredentialStore config = (origin = OriginKeyring)" "cr_RefreshToken (ss_Credentials config) \<noteq> [] \<Longrightarrow> origin = OriginKeyring"
    "ss_CredentialProfile config = (if origin = OriginKeyring then credentialProfile opts else [])"
    "requirePrivateCredentials (ss_Credentials config) = None" by metis
  have one: "\<exists>v. family_of v (ss_Credentials config)"
    using c(1,8) empty_credentials_refused by (auto simp: LoadWithOrigin_def family_iff split: option.splits sum.splits if_splits)
  have kept: "completeFamily (credentialsFromEnv env) = None \<and>
      (\<exists>v. lazy_Get K s (load_profile (credentialProfile opts)) = Inr v \<and> family_of v (ss_Credentials config))" if "origin = OriginKeyring"
    using c(1) that by (auto simp: LoadWithOrigin_def family_iff split: option.splits sum.splits if_splits)
  show ?thesis
  proof (cases "cr_RefreshToken (ss_Credentials config) = []")
    case True
    then show ?thesis using Inr one c(2,4) by (auto simp: authStrategyFor_def family_of_def Let_def split: if_splits)
  next
    case False
    then have keyring: "origin = OriginKeyring" using c(6) by blast
    have profile: "TrimSpace (ss_CredentialProfile config) = load_profile (credentialProfile opts)"
      using keyring c(7) profile_nonblank[of opts] by (simp add: load_profile_def)
    show ?thesis
    proof (cases "authStrategyFor oenv config environment")
      case (Inr r)
      then obtain src where src: "newOAuthSource oenv config environment = Inr src" "r = (AuthOAuth, RefreshingSource src)"
        using False c(2) by (auto simp: authStrategyFor_def Let_def split: if_splits sum.splits)
      have update: "os_hasUpdate src" "ot_RefreshToken (os_token src) = cr_RefreshToken (ss_Credentials config)"
        using new_source_updates[OF src(1) c(3)] keyring c(5,7) profile_nonblank[of opts] by simp_all
      show ?thesis
        using update Inr src(2) \<open>privateSessionConfig env K s opts = Inr config\<close> kept[OF keyring] keyring c(7) False
          source_rotations_saved[OF assms update(1) _ profile] by simp
    qed (use Inr False in simp)
  qed
qed simp

lemma trimmed_around_at:
  assumes "TrimSpace p = p" "e \<noteq> []" "last e \<notin> space_bytes"
  shows "TrimSpace (p @ ''@'' @ e) = p @ ''@'' @ e"
proof -
  have at: "trim_with space_encodings p = p"
  proof -
    obtain q where q: "p = q @ trim_with space_encodings p" using trim_with_suffix by blast
    obtain r where "rev (trim_with space_encodings p) = r @ trim_with (map rev space_encodings) (rev (trim_with space_encodings p))"
      using trim_with_suffix by blast
    then have "length (TrimSpace p) \<le> length (trim_with space_encodings p)"
      unfolding TrimSpace_def by (metis length_append length_rev le_add2)
    moreover have "length p = length q + length (trim_with space_encodings p)" using arg_cong[OF q, of length] by simp
    ultimately have "q = []" using assms(1) by simp
    then show ?thesis using q by simp
  qed
  have "\<not> has_prefix (p @ CHR ''@'' # e) x" if "x \<in> set space_encodings" "x \<noteq> []" for x
  proof
    assume "has_prefix (p @ CHR ''@'' # e) x"
    then have x: "take (length x) (p @ CHR ''@'' # e) = x" by (simp add: has_prefix_def)
    show False
    proof (cases "length x \<le> length p")
      case True
      then have "has_prefix p x" using x by (simp add: has_prefix_def)
      then show False using trim_with_none[OF that] at by metis
    next
      case False
      then have "CHR ''@'' \<in> set (take (length x) (p @ CHR ''@'' # e))" by (cases "length x - length p") auto
      then show False using at_not_space[OF that(1)] unfolding x by blast
    qed
  qed
  then have l: "trim_with space_encodings (p @ ''@'' @ e) = p @ ''@'' @ e" by (intro trim_with_stop) simp
  have "trim_with (map rev space_encodings) (rev (p @ ''@'' @ e)) = rev (p @ ''@'' @ e)"
  proof (rule trim_with_id, intro ballI impI)
    fix x assume "x \<in> set (map rev space_encodings)"
    then obtain y where "y \<in> set space_encodings" "x = rev y" by auto
    then have "hd x \<in> space_bytes" by (simp add: space_bytes_def hd_rev)
    then show "rev (p @ ''@'' @ e) = [] \<or> hd x \<noteq> hd (rev (p @ ''@'' @ e))" using assms(2,3) by (auto simp: hd_append hd_rev)
  qed
  then show ?thesis using l by (simp add: TrimSpace_def)
qed

lemma validated_load_profile: "root_options o0 = Inr opts \<Longrightarrow> load_profile (credentialProfile opts) = credentialProfile opts"
proof -
  assume o: "root_options o0 = Inr opts"
  have "last (go_Environment opts) \<notin> space_bytes \<and> go_Environment opts \<noteq> []"
    using root_optionsD(1)[OF o] by (auto simp: space_bytes_def space_encodings_def ascii_spaces_def)
  then have "TrimSpace (credentialProfile opts) = credentialProfile opts"
    using trimmed_around_at[of "go_Profile opts" "go_Environment opts"] root_optionsD(2)[OF o] profile_validated[OF o] by simp
  then show ?thesis using profile_nonblank[of opts] by (simp add: load_profile_def)
qed

text \<open>C40: A login is what the next private session of the same profile and environment uses, when the environment
  variables hold no complete credentials, and it leaves every other profile as it was. Both use the operating
  system's keyring, the session through its lazy wrapper, and the session's call can open it as the login could; the
  store behind the keyring keeps what it is given.\<close>

theorem login_then_session:
  assumes "backend_ok K" "root_options o0 = Inr opts" "completeFamily (credentialsFromEnv env) = None"
    and "auth_login (Inr (Some token)) K s config opts = (None, s')"
  shows "(\<exists>c. privateSessionConfig env K s' opts = Inr c \<and> ss_CredentialStore c \<and>
      family_of (login_credentials config token) (ss_Credentials c)) \<and>
    (\<forall>opts'. credentialProfile opts' \<noteq> credentialProfile opts \<longrightarrow>
      lazy_Get K s' (credentialProfile opts') = lazy_Get K s (credentialProfile opts'))"
proof -
  note laws = os_keyring[OF assms(1)]
  have set: "lazy_Set K s (credentialProfile opts) (login_credentials config token) = (None, s')" "TrimSpace (ot_AccessToken token) \<noteq> []"
    using assms(4) by (auto simp: auth_login_def lazy_Set_def split: if_splits prod.splits option.splits)
  obtain c where "completeFamily (login_credentials config token) = Some c"
    using set(2) by (simp add: completeFamily_def login_credentials_def normalized_credentials_def Let_def)
  then have c: "family_of (login_credentials config token) c" by (simp add: family_iff)
  have "lazy_Set K s (load_profile (credentialProfile opts)) (login_credentials config token) = (None, s')"
    using set(1) validated_load_profile[OF assms(2)] by simp
  note loaded = loaded_config[OF keyring.loaded_after_save[OF laws this c assms(3)] c]
  have p: "credentialProfile opts' \<noteq> []" for opts' by (simp add: credentialProfile_def Let_def)
  show ?thesis using loaded c keyring.get_other[OF laws set(1) p p] by auto
qed

section \<open>A keyring of items\<close>

definition demo_access :: "(string \<Rightarrow> keyring_item option) keyring_access" where
  "demo_access =
     \<lparr>ka_opening = None, ka_ended = None, ka_encode = (\<lambda>_. None),
      ka_get = (\<lambda>s key. case s key of Some item \<Rightarrow> Inr item | None \<Rightarrow> Inl ErrKeyNotFound),
      ka_set = (\<lambda>s item. (None, s(ki_Key item \<mapsto> item))),
      ka_remove = (\<lambda>s key. if s key = None then (Some ErrKeyNotFound, s) else (None, s(key := None)))\<rparr>"

lemma demo_ok: "backend_ok demo_access"
  by (simp add: backend_ok_def demo_access_def)

definition login_token :: oauth_token where
  "login_token = \<lparr>ot_AccessToken = ''a'', ot_RefreshToken = ''r'', ot_TokenType = ''Bearer'', ot_ExpiresAt = Some 0, ot_Scope = []\<rparr>"

definition login_config :: oauth_config where
  "login_config = \<lparr>oc_ClientID = ''c'', oc_ClientSecret = [], oc_AuthURL = [], oc_TokenURL = [], oc_RedirectURL = [], oc_Scopes = []\<rparr>"

definition no_environ :: environ where
  "no_environ = (\<lambda>_. None)"

definition demo_items :: "string \<Rightarrow> keyring_item option" where
  "demo_items = snd (auth_login (Inr (Some login_token)) demo_access (\<lambda>_. None) login_config sandbox_options)"

lemma no_environ_credentials: "completeFamily (credentialsFromEnv no_environ) = None"
  by (simp add: completeFamily_def credentialsFromEnv_def lookup_env_def normalized_credentials_def no_environ_def)

lemma demo_login: "auth_login (Inr (Some login_token)) demo_access (\<lambda>_. None) login_config sandbox_options = (None, demo_items)"
proof -
  have "TrimSpace ''a'' = ''a''" by code_simp
  then show ?thesis
    by (simp add: demo_items_def auth_login_def NewOSKeyring_def OS_Set_def contextErr_def demo_access_def login_token_def)
qed

theorem login_then_session_witness:
  "\<exists>c. privateSessionConfig no_environ demo_access demo_items sandbox_options = Inr c \<and>
     family_of (login_credentials login_config login_token) (ss_Credentials c)"
  using login_then_session[OF demo_ok sandbox_validated(2) no_environ_credentials demo_login] by blast

definition demo_config :: session_config where
  "demo_config = projr (privateSessionConfig no_environ demo_access demo_items sandbox_options)"

definition demo_source :: oauth_source where
  "demo_source = (case authStrategyFor sample_env demo_config ''sandbox'' of Inr (_, RefreshingSource src) \<Rightarrow> src | _ \<Rightarrow> sample_source)"

abbreviation demo_profile :: string where
  "demo_profile \<equiv> TrimSpace (ss_CredentialProfile demo_config)"

lemma demo_session:
  "privateSessionConfig no_environ demo_access demo_items sandbox_options = Inr demo_config"
  "\<exists>mode. authStrategyFor sample_env demo_config ''sandbox'' = Inr (mode, RefreshingSource demo_source)"
proof -
  have "case privateSessionConfig no_environ demo_access demo_items sandbox_options of Inr _ \<Rightarrow> True | Inl _ \<Rightarrow> False" by code_simp
  then show "privateSessionConfig no_environ demo_access demo_items sandbox_options = Inr demo_config"
    by (auto simp: demo_config_def split: sum.splits)
  have "case authStrategyFor sample_env demo_config ''sandbox'' of Inr (_, RefreshingSource _) \<Rightarrow> True | _ \<Rightarrow> False" by code_simp
  then obtain mode strategy where a: "authStrategyFor sample_env demo_config ''sandbox'' = Inr (mode, strategy)"
    "case strategy of RefreshingSource _ \<Rightarrow> True | _ \<Rightarrow> False" by (auto split: sum.splits)
  then show "\<exists>mode. authStrategyFor sample_env demo_config ''sandbox'' = Inr (mode, RefreshingSource demo_source)"
    by (cases strategy) (simp_all add: demo_source_def)
qed

lemma demo_begin:
  "case Token_begin 0 demo_source of
     (action, src) \<Rightarrow> action = TokenRefresh 0 ''r'' \<and> os_hasUpdate src \<and> validateTokenRequest sample_env (os_config src) = None"
  by code_simp

lemma demo_refresh:
  "\<exists>st. session_refresh sample_env sample_endpoint 0 demo_access demo_profile (demo_source, ss_Credentials demo_config, demo_items) =
     (Some (Inr (sample_token\<lparr>ot_RefreshToken := ''r''\<rparr>)), st)"
proof -
  obtain src where b: "Token_begin 0 demo_source = (TokenRefresh 0 ''r'', src)" "os_hasUpdate src"
    "validateTokenRequest sample_env (os_config src) = None" using demo_begin by (auto split: prod.splits)
  have "TrimSpace ''r'' \<noteq> []" by code_simp
  then have "Refresh sample_env sample_endpoint 0 (os_config src) ''r'' = Inr sample_token"
    by (simp only: Refresh_def b(3) option.case sample_answer if_False)
  moreover have "fst (update_hook (lazy_Set demo_access demo_items) demo_profile token stored demo_items) = None" for token stored
    by (simp add: update_hook_def lazy_Set_def OS_Set_def NewOSKeyring_def contextErr_def demo_access_def Let_def)
  ultimately show ?thesis
    using b by (simp add: session_refresh_def refreshed_token_def fill_refreshed_def sample_token_def Let_def)
qed

text \<open>The endpoint answers with an access token alone: the keyring holds it with the refresh token kept.\<close>

theorem private_session_sound_witness:
  "\<exists>token src2 stored2 s2 v.
     session_refresh sample_env sample_endpoint 0 demo_access demo_profile (demo_source, ss_Credentials demo_config, demo_items) =
       (Some (Inr token), src2, stored2, s2) \<and> ot_AccessToken token = ''tok'' \<and> ot_RefreshToken token = ''r'' \<and>
     lazy_Get demo_access s2 demo_profile = Inr v \<and> holds_token (ss_Credentials demo_config) token v"
proof -
  have saved: "rotations_saved sample_env no_environ demo_access sandbox_options demo_profile (demo_source, ss_Credentials demo_config, demo_items)"
    using private_session_sound[OF demo_ok, where env = no_environ and s = demo_items and opts = sandbox_options and oenv = sample_env and
        environment = "''sandbox''"] demo_session by auto
  obtain token src2 stored2 s2 where r: "session_refresh sample_env sample_endpoint 0 demo_access demo_profile
      (demo_source, ss_Credentials demo_config, demo_items) = (Some (Inr token), src2, stored2, s2)"
    "token = sample_token\<lparr>ot_RefreshToken := ''r''\<rparr>" using demo_refresh by (metis prod_cases3)
  from saved[unfolded rotations_saved_def, rule_format, of "[]", OF conjI[OF session_refreshes.simps(1) r(1)]]
  show ?thesis using r by (auto simp: sample_token_def)
qed

end
