(* ===== verification/Heartbeat.thy ===== *)
theory Heartbeat
  imports HttpErrors "HOL-Library.Sublist"
begin

text \<open>
  \<open>services/heartbeat.go\<close>: the background session that keeps orders alive on the exchange. The goroutine of
  \<open>run\<close>, \<open>Stop\<close>, the parent context and a reader of the error channel are interleaved; what \<open>Send\<close> answers and the
  clock are arbitrary. The history of failed pulses and received errors is recorded beside the state.
\<close>

definition heartbeat_capacity :: nat where "heartbeat_capacity = 16"

datatype heartbeat_phase = Sending | Waiting | ErrorsClosed | Returned

record heartbeat =
  hb_phase :: heartbeat_phase
  hb_alive :: bool
  hb_cancelled :: bool
  hb_stopped :: bool
  hb_lastBeat :: int
  hb_errors :: "err list"
  hb_errorsOpen :: bool
  hb_failures :: "err list"
  hb_received :: "err list"

text \<open>\<open>Start\<close>; the goroutine sends its first pulse at once.\<close>

definition Start_heartbeat :: "int \<Rightarrow> int \<times> heartbeat" where
  "Start_heartbeat interval = (if interval \<le> 0 then 5000000000 else interval,
     \<lparr>hb_phase = Sending, hb_alive = True, hb_cancelled = False, hb_stopped = False, hb_lastBeat = 0, hb_errors = [], hb_errorsOpen = True,
      hb_failures = [], hb_received = []\<rparr>)"

definition notifyErr :: "err \<Rightarrow> heartbeat \<Rightarrow> heartbeat" where
  "notifyErr e h = (if length (hb_errors h) < heartbeat_capacity then h\<lparr>hb_errors := hb_errors h @ [e]\<rparr> else h)"

text \<open>A pulse: its time, or its error.\<close>

definition pulse :: "err + int \<Rightarrow> heartbeat \<Rightarrow> heartbeat" where
  "pulse answer h =
     (case answer of
        Inr now \<Rightarrow> h\<lparr>hb_lastBeat := now\<rparr>
      | Inl e \<Rightarrow> notifyErr e (h\<lparr>hb_failures := hb_failures h @ [e]\<rparr>))"

definition Stop_heartbeat :: "heartbeat \<Rightarrow> heartbeat" where
  "Stop_heartbeat h = (if hb_stopped h then h else h\<lparr>hb_stopped := True, hb_cancelled := True, hb_alive := False\<rparr>)"

definition LastBeat :: "heartbeat \<Rightarrow> int option" where
  "LastBeat h = (if hb_lastBeat h = 0 then None else Some (hb_lastBeat h))"

text \<open>The deferred calls run last to first: the channel is closed, then the session is marked dead.\<close>

inductive heartbeat_step :: "heartbeat \<Rightarrow> heartbeat \<Rightarrow> bool" where
  sent: "hb_phase h = Sending \<Longrightarrow> heartbeat_step h (pulse answer h\<lparr>hb_phase := Waiting\<rparr>)"
| tick: "hb_phase h = Waiting \<Longrightarrow> heartbeat_step h (h\<lparr>hb_phase := Sending\<rparr>)"
| finish: "hb_phase h = Waiting \<Longrightarrow> hb_cancelled h \<Longrightarrow> heartbeat_step h (h\<lparr>hb_phase := ErrorsClosed, hb_errorsOpen := False\<rparr>)"
| mark_dead: "hb_phase h = ErrorsClosed \<Longrightarrow> heartbeat_step h (h\<lparr>hb_phase := Returned, hb_alive := False\<rparr>)"
| stop: "heartbeat_step h (Stop_heartbeat h)"
| parent: "heartbeat_step h (h\<lparr>hb_cancelled := True\<rparr>)"
| receive: "hb_errors h = e # rest \<Longrightarrow> heartbeat_step h (h\<lparr>hb_errors := rest, hb_received := hb_received h @ [e]\<rparr>)"

inductive heartbeat_reachable :: "heartbeat \<Rightarrow> bool" where
  start: "heartbeat_reachable (snd (Start_heartbeat interval))"
| step: "heartbeat_reachable h \<Longrightarrow> heartbeat_step h h' \<Longrightarrow> heartbeat_reachable h'"

inductive_cases heartbeat_stepE: "heartbeat_step h h'"

section \<open>The invariant\<close>

definition heartbeat_inv :: "heartbeat \<Rightarrow> bool" where
  "heartbeat_inv h \<longleftrightarrow>
     subseq (hb_received h @ hb_errors h) (hb_failures h) \<and> length (hb_errors h) \<le> heartbeat_capacity \<and>
     hb_errorsOpen h = (hb_phase h = Sending \<or> hb_phase h = Waiting) \<and>
     (hb_stopped h \<longrightarrow> hb_cancelled h \<and> \<not> hb_alive h) \<and> (hb_phase h = Returned \<longrightarrow> \<not> hb_alive h) \<and>
     (\<not> hb_errorsOpen h \<longrightarrow> hb_cancelled h)"

lemma pulse_inv: "heartbeat_inv h \<Longrightarrow> heartbeat_inv (pulse answer h)"
proof (cases answer)
  case (Inl e)
  assume inv: "heartbeat_inv h"
  then have sub: "subseq (hb_received h @ hb_errors h) (hb_failures h)" by (simp add: heartbeat_inv_def)
  then have "subseq ((hb_received h @ hb_errors h) @ [e]) (hb_failures h @ [e])" by (intro list_emb_append_mono) simp_all
  moreover have "subseq (hb_received h @ hb_errors h) (hb_failures h @ [e])"
    using list_emb_append_mono[OF sub, of "[]" "[e]"] by simp
  ultimately show ?thesis using inv Inl by (simp add: heartbeat_inv_def pulse_def notifyErr_def)
qed (simp add: heartbeat_inv_def pulse_def)

lemma pulse_phase [simp]: "hb_phase (pulse answer h) = hb_phase h"
  by (simp add: pulse_def notifyErr_def split: sum.split)

lemma heartbeat_inv_step: "heartbeat_step h h' \<Longrightarrow> heartbeat_inv h \<Longrightarrow> heartbeat_inv h'"
proof (induction rule: heartbeat_step.induct)
  case (sent h answer)
  then have "heartbeat_inv (pulse answer h)" by (simp add: pulse_inv)
  then show ?case using sent by (simp add: heartbeat_inv_def)
qed (auto simp: heartbeat_inv_def Stop_heartbeat_def)

lemma heartbeat_reachable_inv: "heartbeat_reachable h \<Longrightarrow> heartbeat_inv h"
proof (induction rule: heartbeat_reachable.induct)
  case (start interval)
  show ?case by (simp add: heartbeat_inv_def Start_heartbeat_def)
next
  case (step h h')
  then show ?case using heartbeat_inv_step by blast
qed

section \<open>The property\<close>

text \<open>Whatever the exchange answers and whenever the session is stopped, failures reach the reader of the error
  channel in order and at most once each, at most sixteen wait, the channel is closed only after the last pulse and
  only once the session is cancelled, and a stopped or returned session does not count as alive.\<close>

theorem heartbeat_session_sound:
  assumes "heartbeat_reachable h"
  shows "subseq (hb_received h @ hb_errors h) (hb_failures h) \<and> length (hb_errors h) \<le> 16 \<and>
    (if hb_errorsOpen h then True else hb_cancelled h \<and> hb_phase h \<notin> {Sending, Waiting}) \<and>
    (if hb_stopped h \<or> hb_phase h = Returned then \<not> hb_alive h else True)"
  using heartbeat_reachable_inv[OF assms] by (auto simp: heartbeat_inv_def heartbeat_capacity_def)

definition failed_heartbeat :: heartbeat where
  "failed_heartbeat = pulse (Inl (EMsg ''down'')) (snd (Start_heartbeat 0))\<lparr>hb_phase := Waiting\<rparr>"

theorem heartbeat_session_sound_witness:
  "subseq (hb_received failed_heartbeat @ hb_errors failed_heartbeat) (hb_failures failed_heartbeat) \<and> hb_errors failed_heartbeat = [EMsg ''down'']"
proof -
  have "heartbeat_reachable failed_heartbeat"
    unfolding failed_heartbeat_def
    by (rule heartbeat_reachable.step[OF heartbeat_reachable.start heartbeat_step.sent]) (simp add: Start_heartbeat_def)
  from heartbeat_session_sound[OF this] show ?thesis
    by (simp add: failed_heartbeat_def pulse_def notifyErr_def Start_heartbeat_def heartbeat_capacity_def)
qed

end
