(* ===== verification/Spec2Isabelle.thy ===== *)
theory Spec2Isabelle
  imports DecimalJson LiveSpec ErrorSpec TransportSpec TradingSpec OrderStream ConnectionProps
    SubscriptionProps OAuthSpec DispatchSpec WsRequestSpec Events Pagination
    CliOrderSpec Sports EndpointSpec FacadeSpec SnapshotIsolation CliSessionSpec Heartbeat
begin

text \<open>
  A verification development for the Go SDK of the Gemini developer platform
  (\<open>packages/sdk-go\<close>): exact decimals, the order book, authentication and OAuth, the HTTP transport,
  the REST services, the quote reconciler, the websocket client and the client that puts them together,
  and for the orders and sessions of its command line tool (\<open>packages/gemini-markets-cli\<close>).

  \<^bold>\<open>The program.\<close> Amounts and prices are \<open>types.Decimal\<close> values. A market maker keeps a
  \<open>LiveOrderBook\<close> from the exchange's depth stream and a \<open>QuoteReconciler\<close>, which holds the ledger of
  its own resting orders, compares it with the desired quotes and sends the difference through the
  \<open>TradingService\<close>. A service turns a call into a request of the transport's \<open>Client\<close>, which signs it
  with an authentication strategy, sends it, classifies the answer and retries where that is safe.
  Order events of the websocket update the ledger while REST snapshots replace it. The websocket
  \<open>Client\<close> keeps one connection alive, correlates requests with their responses, replays the active
  feeds after a reconnect and routes every frame to the subscriptions of its feed.

  \<^bold>\<open>Theories and code.\<close>

  \<^item> \<open>Prelude\<close>: Go's fixed-width integers as integers with the wrap-around written out, the standard
    library's \<open>slices\<close> routines and the interface \<open>comparator\<close> under which sorting and binary search are
    correct. \<open>GoStrings\<close>: the \<open>strings\<close> and \<open>strconv\<close> routines the SDK uses. \<open>Encoding\<close>: hex and base64.
    \<open>Json\<close>: the part of \<open>encoding/json\<close> that decodes and encodes the SDK's bodies. \<open>Float64\<close>: IEEE
    doubles as rationals with rounding, and the float methods of \<open>types/decimal.go\<close>.
  \<^item> \<open>Decimal\<close>, \<open>DecimalArith\<close>, \<open>DecimalDiv\<close>, \<open>DecimalText\<close>, \<open>DecimalJson\<close>: \<open>types/decimal.go\<close>. The
    abstraction \<open>rv\<close> maps a decimal to its rational; the lemmas of \<open>rv_simps\<close> say what each operation
    does to it; the comparison interprets \<open>comparator\<close>.
  \<^item> \<open>Finance\<close>: \<open>types/finance.go\<close>.
  \<^item> \<open>OrderBook\<close>, \<open>BookSpec\<close>, \<open>BookInv\<close>, \<open>BookDepth\<close>: \<open>websocket/orderbook/book.go\<close>, its abstract map
    from prices to levels, the refinement of snapshots and diffs, the invariant \<open>book_ok\<close> and the
    optimality of simulated fills. \<open>LiveBook\<close>, \<open>LiveSpec\<close>: \<open>live_book.go\<close>, the state machine that buffers
    diffs, replays them onto a snapshot and freezes on a gap.
  \<^item> \<open>HttpErrors\<close>, \<open>ErrorSpec\<close>: \<open>transport/errors.go\<close> and \<open>errors.go\<close>. \<open>Retry\<close>: \<open>transport/retries.go\<close>.
    \<open>Auth\<close>, \<open>AuthSpec\<close>: the package \<open>auth\<close>; \<open>nonces_strictly_increase\<close> is over every interleaving of the
    compare-and-swap loop. \<open>Transport\<close>, \<open>TransportSpec\<close>: \<open>transport/transport.go\<close>, where one call is a
    state transformer over a record of the events it causes.
  \<^item> \<open>Trading\<close>, \<open>TradingSpec\<close>: \<open>services/base.go\<close> and \<open>services/trading.go\<close> with the structs they use
    of \<open>generated/trading/types.gen.go\<close>.
  \<^item> \<open>Reconciler\<close>, \<open>SyncCycle\<close>, \<open>SyncSpec\<close>, \<open>SyncProps\<close>: \<open>services/reconciler.go\<close> and \<open>ApplyOrderEvent\<close>.
    The ledger is an association list with one entry per order id (\<open>ledger_ok\<close>); \<open>plan_sync\<close> is the
    matching, \<open>Sync\<close> the whole cycle. \<open>WorkerPool\<close>: \<open>runBounded\<close> as a step relation, from which the
    schedules of \<open>SyncCycle\<close> come. \<open>OrderStream\<close>: the hand-over of \<open>StartStreaming\<close> as a step relation
    over two hydrating threads, with the invariant \<open>stream_inv\<close> of its reachable states.
  \<^item> \<open>Subscriptions\<close>, \<open>SubscriptionSpec\<close>, \<open>SubscriptionProps\<close>: \<open>websocket/client_subscriptions.go\<close>, the
    subscription tables, their wire gates and active feeds as a step relation over concurrent callers. A
    step is labelled with the symbol its call names; the invariant holds of what calls whose symbols do not
    start with an at sign can reach, and \<open>at_symbol_leaves_feed\<close> shows it fail for one that does.
    \<open>Responses\<close>, \<open>Connection\<close>, \<open>ConnectionSpec\<close>, \<open>ConnectionProps\<close>: \<open>client_connection.go\<close> and
    \<open>client_requests.go\<close>, the lifecycle of the connection and its pending requests, again as a step
    relation whose reachable states satisfy one invariant. A dialed socket enters the model in the critical
    section that installs or closes it, since nothing else can reach it before. \<open>Events\<close>: the lifecycle events of \<open>client.go\<close>.
  \<^item> \<open>GoJson\<close>: \<open>encoding/json\<close>'s decoding into Go types. \<open>Dispatch\<close>, \<open>DispatchSpec\<close>: \<open>client_dispatch.go\<close>
    and \<open>snapshot_routing.go\<close>, the routing of frames, against a table of the classes of frames in the order
    in which they are tried. \<open>WsRequests\<close>, \<open>WsRequestSpec\<close>: \<open>typed_requests.go\<close>
    and the operations of \<open>rfq.go\<close>.
  \<^item> \<open>OAuth\<close>, \<open>OAuthSpec\<close>: \<open>oauth/oauth.go\<close>, its codecs, the token endpoint, the loopback login and the
    refreshing token source under every interleaving of its callers.
  \<^item> \<open>Pagination\<close>: \<open>transport/pagination.go\<close> and \<open>services/predictions_pagination.go\<close>.
  \<^item> \<open>Dates\<close>: \<open>types/date.go\<close>. \<open>Endpoints\<close>, \<open>PredictionCalls\<close>, \<open>EndpointSpec\<close>: the market data, account,
    transfer, staking, clearing, margin, perpetual and prediction services as the requests they hand to
    \<open>baseService\<close>; the specification reads a path and a query back the way a server does, one that
    normalises paths and one that does not, and has a table of names and values for each listing. \<open>Sports\<close>:
    \<open>services/sports.go\<close>, against a reference that groups by filtering. \<open>Heartbeat\<close>: \<open>services/heartbeat.go\<close>.
  \<^item> \<open>Facade\<close>, \<open>FacadeSpec\<close>: \<open>client.go\<close>, \<open>options.go\<close>, \<open>environment.go\<close> and the options of the websocket client:
    what a client made from any options refuses, and which HTTP clients it owns. \<open>SnapshotIsolation\<close>:
    \<open>websocket/snapshot_isolation.go\<close>, the reference counts of the isolated connections as a step relation.
  \<^item> \<open>CliOrders\<close>, \<open>CliOrderSpec\<close>: \<open>internal/cli/private_orders.go\<close>, whose accepted flags are those the guard of
    \<open>Trading\<close> accepts. \<open>CliSession\<close>, \<open>CliSessionSpec\<close>: the packages \<open>internal/credentials\<close> and
    \<open>internal/session\<close> with the private session, the profiles and the login of \<open>internal/cli\<close>. Logins and
    sessions use the operating system's keyring (\<open>os_keyring.go\<close>), a session through its lazy wrapper, and a
    session's update hook saves rotated tokens there. The locale \<open>keyring\<close> is what they need of a keyring: the
    file keyring interprets it, and \<open>os_keyring\<close> gives it for the operating system's under \<open>backend_ok\<close>.

  \<^bold>\<open>Bounds and fuel.\<close> Decimal arithmetic is exact for scales between \<open>-2^29\<close> and \<open>2^29\<close>
  (\<open>scale_ok\<close>), which every parsed decimal satisfies; outside the 32-bit scale wraps. The retry loop of
  \<open>Execute\<close> recurses on the number of attempts left, at most \<open>MaxRetries + 1\<close>. The JSON reader's
  fuel is twice the length of the text plus two; every value it reads consumes a character, and a
  string literal's fuel is its length. The page loop's fuel is the number of pages; \<open>iterators_complete\<close>
  says how many are enough. Nothing else needs fuel.

  \<^bold>\<open>Parameters.\<close> The keyed hash, the clock, the random draw of the backoff, the URL parser, the network
  (an arbitrary function of the attempts so far), the environment variables, the answer of a loopback login, the store behind the operating system's keyring
  (the package \<open>99designs/keyring\<close>, with the outcome of opening it)
  and the exchange's answers are arguments. In
  \<open>sync_converges\<close> the exchange is assumed not to hand out an order id twice; in \<open>private_session_sound\<close> and
  \<open>login_then_session\<close> the store is assumed to return an item that was set and to keep the others (\<open>backend_ok\<close>).

  \<^bold>\<open>Not modelled.\<close> A mutex is not modelled where an operation holds it throughout: the operation is one
  atomic step; the interleavings that matter are step relations (\<open>WorkerPool\<close>, \<open>OrderStream\<close>, the nonce
  loop). \<open>sort.Slice\<close> and \<open>slices.SortFunc\<close> are modelled by a stable sort, although Go leaves the
  order of equal elements open. Case mapping is ASCII. The sign of a floating-point zero, JSON's nesting
  limit and invalid UTF-8 are left out. Of the reconciler's stream the error channel, the clean-up and
  the guard against a second stream are left out. Of the websocket client the raw \<open>Send\<close> and the
  dialer adapter are left out; of the SDK the generated types no operation inspects, the tracing hooks
  and the test helpers. The liveness watchdog's pump is left out: what it does to a connection, closing its
  socket, the step relation of \<open>Connection\<close> allows at any moment. Of the command line tool the public and
  stream commands and the rendering of output are left out. The other languages' packages are not modelled.
\<close>

end
